(* ===== verification/JsNumber.thy ===== *)
theory JsNumber
  imports Complex_Main
begin

text \<open>
  JavaScript numbers. A finite number is the exact rational value of an IEEE-754 double;
  every arithmetic operation of the source is the exact operation followed by \<open>fl\<close>, round
  to nearest with ties to even, subnormals and overflow included. Negative zero is identified
  with zero: no modelled code divides by a value that can be zero.
  The double rounding \<open>dbl\<close> is proved monotone, odd and idempotent, with its error bound;
  the money components interpret their rounding contract on it.
\<close>

section \<open>Powers of two and binary exponents\<close>

definition pow2 :: "int \<Rightarrow> rat" where
  "pow2 e = (if 0 \<le> e then of_int (2 ^ nat e) else 1 / of_int (2 ^ nat (- e)))"

fun ilog2 :: "int \<Rightarrow> nat" where
  "ilog2 n = (if n < 2 then 0 else Suc (ilog2 (n div 2)))"

declare ilog2.simps [simp del]

text \<open>The exponent \<open>e\<close> with \<open>2 ^ e \<le> q < 2 ^ (e + 1)\<close>, for a positive \<open>q\<close>.\<close>

definition binexp :: "rat \<Rightarrow> int" where
  "binexp q =
     (let nd = quotient_of q;
          e = int (ilog2 (fst nd)) - int (ilog2 (snd nd))
      in if pow2 e \<le> q then e else e - 1)"

definition round_half_even :: "rat \<Rightarrow> int" where
  "round_half_even q =
     (let f = \<lfloor>q\<rfloor>; d = q - of_int f
      in if d < 1 / 2 then f else if 1 / 2 < d then f + 1 else if even f then f else f + 1)"

text \<open>The exponent of the unit in the last place: 53 significant bits, and \<open>2 ^ -1074\<close> the least.\<close>

definition ulp_exp :: "rat \<Rightarrow> int" where
  "ulp_exp q = max (binexp \<bar>q\<bar>) (- 1022) - 52"

definition dbl :: "rat \<Rightarrow> rat" where
  "dbl q = (if q = 0 then 0
            else of_int (round_half_even (q / pow2 (ulp_exp q))) * pow2 (ulp_exp q))"

section \<open>Numbers and their operations\<close>

datatype jsnum = Fin rat | PInf | NInf | NaN

definition fl :: "rat \<Rightarrow> jsnum" where
  "fl q = (if \<bar>dbl q\<bar> < pow2 1024 then Fin (dbl q) else if 0 < q then PInf else NInf)"

fun is_finite :: "jsnum \<Rightarrow> bool" where
  "is_finite (Fin _) = True"
| "is_finite _ = False"

fun n_neg :: "jsnum \<Rightarrow> jsnum" where
  "n_neg (Fin a) = Fin (- a)"
| "n_neg PInf = NInf"
| "n_neg NInf = PInf"
| "n_neg NaN = NaN"

fun n_add :: "jsnum \<Rightarrow> jsnum \<Rightarrow> jsnum" where
  "n_add (Fin a) (Fin b) = fl (a + b)"
| "n_add NaN _ = NaN"
| "n_add _ NaN = NaN"
| "n_add PInf NInf = NaN"
| "n_add NInf PInf = NaN"
| "n_add PInf _ = PInf"
| "n_add _ PInf = PInf"
| "n_add NInf _ = NInf"
| "n_add _ NInf = NInf"

definition n_sub :: "jsnum \<Rightarrow> jsnum \<Rightarrow> jsnum" where
  "n_sub a b = n_add a (n_neg b)"

text \<open>Products and quotients by an infinity: the sign of the finite factor decides.\<close>

definition inf_of_sign :: "bool \<Rightarrow> jsnum" where
  "inf_of_sign pos = (if pos then PInf else NInf)"

fun n_mul :: "jsnum \<Rightarrow> jsnum \<Rightarrow> jsnum" where
  "n_mul (Fin a) (Fin b) = fl (a * b)"
| "n_mul NaN _ = NaN"
| "n_mul _ NaN = NaN"
| "n_mul (Fin a) PInf = (if a = 0 then NaN else inf_of_sign (0 < a))"
| "n_mul (Fin a) NInf = (if a = 0 then NaN else inf_of_sign (a < 0))"
| "n_mul PInf (Fin b) = (if b = 0 then NaN else inf_of_sign (0 < b))"
| "n_mul NInf (Fin b) = (if b = 0 then NaN else inf_of_sign (b < 0))"
| "n_mul PInf PInf = PInf"
| "n_mul NInf NInf = PInf"
| "n_mul _ _ = NInf"

text \<open>Division by zero follows positive zero, the only zero of the model.\<close>

fun n_div :: "jsnum \<Rightarrow> jsnum \<Rightarrow> jsnum" where
  "n_div (Fin a) (Fin b) =
     (if b \<noteq> 0 then fl (a / b) else if a = 0 then NaN else inf_of_sign (0 < a))"
| "n_div NaN _ = NaN"
| "n_div _ NaN = NaN"
| "n_div (Fin _) _ = Fin 0"
| "n_div PInf (Fin b) = inf_of_sign (0 \<le> b)"
| "n_div NInf (Fin b) = inf_of_sign (b < 0)"
| "n_div _ _ = NaN"

fun n_lt :: "jsnum \<Rightarrow> jsnum \<Rightarrow> bool" where
  "n_lt (Fin a) (Fin b) = (a < b)"
| "n_lt NaN _ = False"
| "n_lt _ NaN = False"
| "n_lt _ NInf = False"
| "n_lt NInf _ = True"
| "n_lt PInf _ = False"
| "n_lt _ PInf = True"

fun n_eq :: "jsnum \<Rightarrow> jsnum \<Rightarrow> bool" where
  "n_eq NaN _ = False"
| "n_eq _ NaN = False"
| "n_eq a b = (a = b)"

definition n_le :: "jsnum \<Rightarrow> jsnum \<Rightarrow> bool" where
  "n_le a b = (n_lt a b \<or> n_eq a b)"

definition n_max :: "jsnum \<Rightarrow> jsnum \<Rightarrow> jsnum" where
  "n_max a b = (if a = NaN \<or> b = NaN then NaN else if n_lt a b then b else a)"

definition n_min :: "jsnum \<Rightarrow> jsnum \<Rightarrow> jsnum" where
  "n_min a b = (if a = NaN \<or> b = NaN then NaN else if n_lt b a then b else a)"

fun n_abs :: "jsnum \<Rightarrow> jsnum" where
  "n_abs (Fin a) = Fin \<bar>a\<bar>"
| "n_abs NaN = NaN"
| "n_abs _ = PInf"

text \<open>Math.round: the nearest integer, ties towards positive infinity; Math.floor.\<close>

fun n_round :: "jsnum \<Rightarrow> jsnum" where
  "n_round (Fin a) = Fin (of_int \<lfloor>a + 1 / 2\<rfloor>)"
| "n_round x = x"

fun n_floor :: "jsnum \<Rightarrow> jsnum" where
  "n_floor (Fin a) = Fin (of_int \<lfloor>a\<rfloor>)"
| "n_floor x = x"

text \<open>Math.trunc: towards zero.\<close>

fun n_trunc :: "jsnum \<Rightarrow> jsnum" where
  "n_trunc (Fin a) = Fin (of_int (if 0 \<le> a then \<lfloor>a\<rfloor> else - \<lfloor>- a\<rfloor>))"
| "n_trunc x = x"

definition of_nat_num :: "nat \<Rightarrow> jsnum" where
  "of_nat_num n = Fin (of_nat n)"

section \<open>Laws of the double rounding\<close>

lemma pow2_pos [simp]: "0 < pow2 e"
  by (simp add: pow2_def)

lemma pow2_nonzero [simp]: "pow2 e \<noteq> 0"
  using pow2_pos [of e] by linarith

lemma pow2_powi: "pow2 e = 2 powi e"
  by (simp add: pow2_def power_int_def inverse_eq_divide power_one_over)

lemma pow2_add: "pow2 (a + b) = pow2 a * pow2 b"
  by (simp add: pow2_powi power_int_add)

lemma pow2_mono: "a \<le> b \<Longrightarrow> pow2 a \<le> pow2 b"
  by (simp add: pow2_powi power_int_increasing)

lemma pow2_strict_mono: "pow2 a < pow2 b \<Longrightarrow> a < b"
  using pow2_mono [of b a] by (metis linorder_not_le)

lemma pow2_less_iff: "pow2 a < pow2 b \<longleftrightarrow> a < b"
  by (auto simp: pow2_powi intro: pow2_strict_mono power_int_strict_increasing)

lemma pow2_nat: "pow2 (int n) = of_int (2 ^ n)"
  by (simp add: pow2_def)

lemma pow2_split: "a \<le> b \<Longrightarrow> \<exists>n::int. 0 < n \<and> pow2 b = of_int n * pow2 a"
proof -
  assume "a \<le> b"
  then have "pow2 b = pow2 (int (nat (b - a))) * pow2 a"
    by (simp flip: pow2_add)
  then have "pow2 b = of_int (2 ^ nat (b - a)) * pow2 a"
    by (simp only: pow2_nat)
  moreover have "0 < (2::int) ^ nat (b - a)" by simp
  ultimately show ?thesis by blast
qed

lemma ilog2_bounds: "0 < n \<Longrightarrow> 2 ^ ilog2 n \<le> n \<and> n < 2 ^ Suc (ilog2 n)"
proof (induction n rule: ilog2.induct)
  case (1 n)
  show ?case
  proof (cases "n < 2")
    case True
    with 1 show ?thesis by (simp add: ilog2.simps [of n])
  next
    case False
    with "1.IH" have "2 ^ ilog2 (n div 2) \<le> n div 2 \<and> n div 2 < 2 ^ Suc (ilog2 (n div 2))"
      by simp
    with False show ?thesis by (simp add: ilog2.simps [of n]) linarith
  qed
qed

lemma binexp_spec:
  assumes "0 < q"
  shows "pow2 (binexp q) \<le> q \<and> q < pow2 (binexp q + 1)"
proof -
  obtain n d where nd: "quotient_of q = (n, d)" by (cases "quotient_of q")
  then have d: "0 < d" and q: "q = of_int n / of_int d"
    by (auto dest: quotient_of_denom_pos quotient_of_div)
  with assms have n: "0 < n" by (simp add: zero_less_divide_iff)
  define a b where "a = ilog2 n" and "b = ilog2 d"
  have A: "2 ^ a \<le> n" "n < 2 ^ Suc a" and B: "2 ^ b \<le> d" "d < 2 ^ Suc b"
    using ilog2_bounds n d unfolding a_def b_def by auto
  have A1: "pow2 (int a) \<le> of_int n" and B1: "pow2 (int b) \<le> of_int d"
    using A(1) B(1) by (simp_all only: pow2_nat of_int_le_iff)
  have A2: "of_int n < pow2 (int (Suc a))" and B2: "of_int d < pow2 (int (Suc b))"
    using A(2) B(2) by (simp_all only: pow2_nat of_int_less_iff)
  have dq: "0 < (of_int d :: rat)" using d by simp
  have up: "q < pow2 (int a - int b + 1)"
  proof -
    have "of_int n < pow2 (int a - int b + 1) * pow2 (int b)"
      using A2 by (simp add: algebra_simps flip: pow2_add)
    also have "\<dots> \<le> pow2 (int a - int b + 1) * of_int d"
      using B1 by (simp add: mult_left_mono less_imp_le)
    finally show ?thesis using q dq by (simp add: divide_less_eq)
  qed
  have low: "pow2 (int a - int b - 1) \<le> q"
  proof -
    have "pow2 (int a - int b - 1) * of_int d \<le> pow2 (int a - int b - 1) * pow2 (int (Suc b))"
      using B2 by (simp add: mult_left_mono less_imp_le)
    also have "\<dots> = pow2 (int a)" by (simp add: algebra_simps flip: pow2_add)
    also have "\<dots> \<le> of_int n" by (rule A1)
    finally show ?thesis using q dq by (simp add: le_divide_eq)
  qed
  show ?thesis
    using up low by (auto simp: binexp_def nd a_def b_def Let_def)
qed

lemma binexp_unique:
  assumes "0 < q" "q < pow2 e"
  shows "binexp q < e"
  using binexp_spec [OF assms(1)] assms(2) pow2_strict_mono by fastforce

lemma binexp_ge:
  assumes "pow2 e \<le> q"
  shows "e \<le> binexp q"
proof -
  have "0 < q" using assms pow2_pos [of e] by linarith
  then have "pow2 e < pow2 (binexp q + 1)" using binexp_spec assms by fastforce
  then show ?thesis by (simp add: pow2_less_iff)
qed

lemma binexp_mono: "0 < x \<Longrightarrow> x \<le> y \<Longrightarrow> binexp x \<le> binexp y"
  using binexp_ge [of "binexp x" y] binexp_spec [of x] by simp

lemma round_half_even_int [simp]: "round_half_even (of_int n) = n"
  by (simp add: round_half_even_def)

lemma round_half_even_near: "\<bar>of_int (round_half_even q) - q\<bar> \<le> 1 / 2"
  using floor_correct [of q] by (auto simp: round_half_even_def Let_def abs_le_iff field_simps)

lemma round_half_even_mono:
  assumes "x \<le> y"
  shows "round_half_even x \<le> round_half_even y"
proof -
  have "\<lfloor>x\<rfloor> \<le> \<lfloor>y\<rfloor>" using assms by (rule floor_mono)
  then consider "\<lfloor>x\<rfloor> = \<lfloor>y\<rfloor>" | "\<lfloor>x\<rfloor> + 1 \<le> \<lfloor>y\<rfloor>" by linarith
  then show ?thesis
  proof cases
    case 1
    then show ?thesis using assms by (auto simp: round_half_even_def Let_def)
  next
    case 2
    then show ?thesis by (auto simp: round_half_even_def Let_def)
  qed
qed

lemma round_half_even_le: "q \<le> of_int n \<Longrightarrow> round_half_even q \<le> n"
  using round_half_even_mono [of q "of_int n"] by simp

lemma round_half_even_ge: "of_int n \<le> q \<Longrightarrow> n \<le> round_half_even q"
  using round_half_even_mono [of "of_int n" q] by simp

lemma round_half_even_minus: "round_half_even (- q) = - round_half_even q"
proof (cases "q = of_int \<lfloor>q\<rfloor>")
  case True
  then show ?thesis by (metis of_int_minus round_half_even_int)
next
  case False
  then have fl: "\<lfloor>- q\<rfloor> = - \<lfloor>q\<rfloor> - 1" by linarith
  have "even (- \<lfloor>q\<rfloor> - 1) \<longleftrightarrow> odd \<lfloor>q\<rfloor>" by simp
  then show ?thesis
    by (auto simp: round_half_even_def Let_def fl)
qed

section \<open>The double rounding is monotone, odd and idempotent\<close>

lemma ulp_exp_minus [simp]: "ulp_exp (- q) = ulp_exp q"
  by (simp add: ulp_exp_def)

lemma dbl_zero [simp]: "dbl 0 = 0"
  by (simp add: dbl_def)

lemma dbl_minus: "dbl (- q) = - dbl q"
  by (simp add: dbl_def round_half_even_minus)

lemma round_div_le: "0 < u \<Longrightarrow> q \<le> of_int m * u \<Longrightarrow> of_int (round_half_even (q / u)) * u \<le> of_int m * (u::rat)"
  by (simp add: round_half_even_le divide_le_eq mult_right_mono)

lemma round_div_ge: "0 < u \<Longrightarrow> of_int m * u \<le> q \<Longrightarrow> of_int m * (u::rat) \<le> of_int (round_half_even (q / u)) * u"
  by (simp add: round_half_even_ge le_divide_eq mult_right_mono)

lemma dbl_nonneg: "0 \<le> q \<Longrightarrow> 0 \<le> dbl q"
  using round_div_ge [of "pow2 (ulp_exp q)" 0 q] by (simp add: dbl_def)

lemma dbl_upto_pow2:
  assumes "0 < x" "x \<le> pow2 e" "ulp_exp x \<le> e"
  shows "dbl x \<le> pow2 e"
proof -
  obtain m where m: "pow2 e = of_int m * pow2 (ulp_exp x)" using pow2_split [OF assms(3)] by blast
  with assms show ?thesis using round_div_le [of "pow2 (ulp_exp x)" x m] by (simp add: dbl_def)
qed

lemma dbl_from_pow2:
  assumes "pow2 e \<le> x" "ulp_exp x \<le> e"
  shows "pow2 e \<le> dbl x"
proof -
  obtain m where m: "pow2 e = of_int m * pow2 (ulp_exp x)" using pow2_split [OF assms(2)] by blast
  moreover have "0 < x" using assms(1) pow2_pos [of e] by linarith
  ultimately show ?thesis using assms round_div_ge [of "pow2 (ulp_exp x)" m x] by (simp add: dbl_def)
qed

lemma dbl_mono_pos:
  assumes "0 < x" "x \<le> y"
  shows "dbl x \<le> dbl y"
proof (cases "ulp_exp x = ulp_exp y")
  case True
  have "round_half_even (x / pow2 (ulp_exp y)) \<le> round_half_even (y / pow2 (ulp_exp y))"
    using assms by (intro round_half_even_mono divide_right_mono) (simp_all add: less_imp_le)
  then show ?thesis using assms True by (simp add: dbl_def mult_right_mono)
next
  case False
  have "binexp x \<le> binexp y" using assms by (rule binexp_mono)
  with False assms have e: "binexp x < binexp y" "- 1022 < binexp y"
    by (auto simp: ulp_exp_def max_def split: if_splits)
  have "x < pow2 (binexp x + 1)" using binexp_spec assms(1) by blast
  also have "\<dots> \<le> pow2 (binexp y)" using e(1) by (intro pow2_mono) simp
  finally have "dbl x \<le> pow2 (binexp y)"
    using assms e by (intro dbl_upto_pow2) (auto simp: ulp_exp_def)
  also have "\<dots> \<le> dbl y"
    using assms binexp_spec [of y] e by (intro dbl_from_pow2) (auto simp: ulp_exp_def)
  finally show ?thesis .
qed

lemma dbl_mono:
  assumes "x \<le> y"
  shows "dbl x \<le> dbl y"
proof (cases "0 < x")
  case True
  then show ?thesis using assms by (rule dbl_mono_pos)
next
  case False
  show ?thesis
  proof (cases "y < 0")
    case True
    then have "dbl (- y) \<le> dbl (- x)" using assms by (intro dbl_mono_pos) auto
    then show ?thesis by (simp add: dbl_minus)
  next
    case y: False
    have "0 \<le> dbl (- x)" using False by (intro dbl_nonneg) simp
    moreover have "0 \<le> dbl y" using y by (intro dbl_nonneg) simp
    ultimately show ?thesis by (simp add: dbl_minus)
  qed
qed

text \<open>The values a double can take, overflow apart.\<close>

definition is_double :: "rat \<Rightarrow> bool" where
  "is_double y \<longleftrightarrow> (\<exists>k e. y = of_int k * pow2 e \<and> - 1074 \<le> e \<and> \<bar>k\<bar> \<le> 2 ^ 53)"

lemma dbl_exact_small:
  assumes "\<bar>k\<bar> < 2 ^ 53" "- 1074 \<le> e"
  shows "dbl (of_int k * pow2 e) = of_int k * pow2 e"
proof (cases "k = 0")
  case False
  let ?y = "of_int k * pow2 e"
  have "\<bar>?y\<bar> = of_int \<bar>k\<bar> * pow2 e" by (simp add: abs_mult less_imp_le)
  also have "\<dots> < of_int (2 ^ 53) * pow2 e"
    using assms(1) by (intro mult_strict_right_mono) (simp_all only: of_int_less_iff pow2_pos)
  also have "\<dots> = pow2 (e + 53)" by (simp add: pow2_add pow2_def [of 53])
  finally have "binexp \<bar>?y\<bar> < e + 53" using False by (intro binexp_unique) simp_all
  then have "ulp_exp ?y \<le> e" using assms(2) by (auto simp: ulp_exp_def)
  then obtain m where "pow2 e = of_int m * pow2 (ulp_exp ?y)" using pow2_split by blast
  then have "?y / pow2 (ulp_exp ?y) = of_int (k * m)" by (metis of_int_mult mult.assoc nonzero_mult_div_cancel_right pow2_nonzero)
  then show ?thesis using False
    by (simp add: dbl_def del: of_int_mult) (metis nonzero_eq_divide_eq pow2_nonzero)
qed simp

lemma dbl_exact:
  assumes "is_double y"
  shows "dbl y = y"
proof -
  obtain k e where y: "y = of_int k * pow2 e" "- 1074 \<le> e" "\<bar>k\<bar> \<le> 2 ^ 53"
    using assms by (auto simp: is_double_def)
  consider "\<bar>k\<bar> < 2 ^ 53" | "k = 2 ^ 53" | "k = - (2 ^ 53)" using y(3) by linarith
  then show ?thesis
  proof cases
    case 1
    with y show ?thesis using dbl_exact_small by simp
  next
    case 2
    with y have "y = of_int 1 * pow2 (e + 53)" by (simp add: pow2_add pow2_def [of 53])
    then show ?thesis using dbl_exact_small [of 1 "e + 53"] y(2) by simp
  next
    case 3
    with y have "y = of_int (- 1) * pow2 (e + 53)" by (simp add: pow2_add pow2_def [of 53])
    then show ?thesis using dbl_exact_small [of "- 1" "e + 53"] y(2) by simp
  qed
qed

lemma is_double_dbl: "is_double (dbl q)"
proof (cases "q = 0")
  case True
  then show ?thesis by (auto simp: is_double_def intro!: exI [of _ 0])
next
  case False
  let ?u = "pow2 (ulp_exp q)"
  have "\<bar>q\<bar> < pow2 (binexp \<bar>q\<bar> + 1)" using binexp_spec [of "\<bar>q\<bar>"] False by simp
  also have "\<dots> \<le> pow2 (53 + ulp_exp q)" by (intro pow2_mono) (simp add: ulp_exp_def)
  finally have "\<bar>q\<bar> / ?u \<le> of_int (2 ^ 53)"
    by (simp add: divide_le_eq pow2_add pow2_def [of 53])
  then have "q / ?u \<le> of_int (2 ^ 53)" "of_int (- (2 ^ 53)) \<le> q / ?u"
    by (simp_all add: abs_le_iff divide_le_eq le_divide_eq)
  then have "\<bar>round_half_even (q / ?u)\<bar> \<le> 2 ^ 53"
    using round_half_even_le round_half_even_ge by (simp only: abs_le_iff) (metis minus_le_iff)
  moreover have "- 1074 \<le> ulp_exp q" by (simp add: ulp_exp_def)
  ultimately show ?thesis using False by (auto simp: is_double_def dbl_def)
qed

lemma dbl_idem [simp]: "dbl (dbl q) = dbl q"
  by (rule dbl_exact) (rule is_double_dbl)

lemma dbl_of_int:
  assumes "\<bar>n\<bar> \<le> 2 ^ 53"
  shows "dbl (of_int n) = of_int n"
proof (rule dbl_exact)
  have "of_int n = of_int n * pow2 0" by (simp add: pow2_def)
  with assms show "is_double (of_int n)" unfolding is_double_def by (intro exI [of _ n] exI [of _ 0]) simp
qed

text \<open>The relative error of one rounding, and that no integer multiple of the unit is nearer.\<close>

lemma dbl_error:
  assumes "pow2 (- 1022) \<le> \<bar>q\<bar>"
  shows "\<bar>dbl q - q\<bar> \<le> \<bar>q\<bar> / 2 ^ 53"
proof -
  let ?u = "pow2 (ulp_exp q)" and ?k = "of_int (round_half_even (q / pow2 (ulp_exp q)))"
  have q: "0 < \<bar>q\<bar>" using assms pow2_pos [of "- 1022"] by linarith
  have e: "ulp_exp q = binexp \<bar>q\<bar> - 52" using binexp_ge [OF assms] by (simp add: ulp_exp_def)
  have U: "?u * 2 ^ 52 \<le> \<bar>q\<bar>"
  proof -
    have "?u * 2 ^ 52 = pow2 (binexp \<bar>q\<bar> - 52 + 52)"
      unfolding e pow2_add [of "binexp \<bar>q\<bar> - 52" 52] by (simp add: pow2_def [of 52])
    then show ?thesis using binexp_spec [OF q] by simp
  qed
  have "dbl q - q = (?k - q / ?u) * ?u" using q by (simp add: dbl_def algebra_simps)
  then have "\<bar>dbl q - q\<bar> = \<bar>?k - q / ?u\<bar> * ?u" by (simp add: abs_mult less_imp_le)
  also have "\<dots> \<le> 1 / 2 * ?u"
    using round_half_even_near by (intro mult_right_mono) (simp_all add: less_imp_le)
  finally show ?thesis using U by simp
qed

lemma dbl_near_int:
  assumes "\<bar>z - of_int k\<bar> \<le> 1 / 4" "\<bar>k\<bar> \<le> 2 ^ 50"
  shows "\<bar>dbl z - of_int k\<bar> \<le> 1 / 4"
proof -
  have D: "dbl (of_int (4 * k + d) * pow2 (- 2)) = of_int (4 * k + d) * pow2 (- 2)"
    if "\<bar>d\<bar> \<le> 1" for d
    using assms(2) that by (intro dbl_exact_small) auto
  have "dbl (of_int k + 1 / 4) = of_int k + 1 / 4" "dbl (of_int k - 1 / 4) = of_int k - 1 / 4"
    using D [of 1] D [of "- 1"] by (simp_all add: pow2_def field_simps)
  moreover have "dbl (of_int k - 1 / 4) \<le> dbl z" "dbl z \<le> dbl (of_int k + 1 / 4)"
    using assms(1) by (intro dbl_mono; linarith)+
  ultimately show ?thesis by linarith
qed

section \<open>Arithmetic on finite numbers and on safe integers\<close>

lemma n_le_Fin: "n_le (Fin a) (Fin b) \<longleftrightarrow> a \<le> b"
  by (auto simp: n_le_def)

lemma n_max_Fin: "n_max (Fin a) (Fin b) = Fin (max a b)"
  by (auto simp: n_max_def max_def)

lemma n_min_Fin: "n_min (Fin a) (Fin b) = Fin (min a b)"
  by (auto simp: n_min_def min_def)

lemma fl_safe: "\<bar>i\<bar> \<le> 2 ^ 53 \<Longrightarrow> fl (of_int i) = Fin (of_int i)"
proof -
  assume i: "\<bar>i\<bar> \<le> 2 ^ 53"
  have "(of_int \<bar>i\<bar> :: rat) \<le> of_int (2 ^ 53)" using i by (simp only: of_int_le_iff)
  also have "\<dots> < pow2 1024" using pow2_less_iff [of 53 1024] by (simp add: pow2_def [of 53])
  finally show ?thesis using dbl_of_int [OF i] by (simp add: fl_def)
qed

lemma n_sub_safe: "\<bar>a - b\<bar> \<le> 2 ^ 53 \<Longrightarrow> n_sub (Fin (of_int a)) (Fin (of_int b)) = Fin (of_int (a - b))"
  using fl_safe [of "a - b"] by (simp add: n_sub_def)

lemma n_add_safe: "\<bar>a + b\<bar> \<le> 2 ^ 53 \<Longrightarrow> n_add (Fin (of_int a)) (Fin (of_int b)) = Fin (of_int (a + b))"
  using fl_safe [of "a + b"] by simp

lemmas n_fin = n_le_Fin n_max_Fin n_min_Fin

text \<open>A finite number between two bounds, the upper one optional.\<close>

definition between :: "rat \<Rightarrow> rat option \<Rightarrow> jsnum \<Rightarrow> bool" where
  "between lo hi n \<longleftrightarrow> (\<exists>q. n = Fin q \<and> lo \<le> q \<and> (case hi of Some h \<Rightarrow> q \<le> h | None \<Rightarrow> True))"

end
