(* ===== verification/JsValue.thy ===== *)
theory JsValue
  imports JsNumber "HOL-Library.Sublist"
begin

text \<open>
  JavaScript values of type \<open>unknown\<close>, as the services read them from JSON columns, request
  bodies and environment variables: undefined, JSON values and big integers. Strings are
  sequences of Latin-1 code units, objects are association lists with at most one entry per
  key and no own \<open>toString\<close> or \<open>valueOf\<close>. The functions below are the coercions of the
  language (String, Number, truthiness, nullish coalescing) and the string methods the
  modelled code uses.
\<close>

named_theorems js_defs

datatype jsval =
    JUndef
  | JNull
  | JBool bool
  | JNum jsnum
  | JBig int
  | JStr string
  | JArr "jsval list"
  | JObj "(string \<times> jsval) list"

type_synonym jsobj = "(string \<times> jsval) list"

section \<open>Strings\<close>

definition ws_chars :: string where
  "ws_chars = [CHR 0x09, CHR 0x0A, CHR 0x0B, CHR 0x0C, CHR 0x0D, CHR 0x20, CHR 0xA0]"

definition is_ws :: "char \<Rightarrow> bool" where
  "is_ws c \<longleftrightarrow> c \<in> set ws_chars"

definition str_trim :: "string \<Rightarrow> string" where
  "str_trim s = rev (dropWhile is_ws (rev (dropWhile is_ws s)))"

text \<open>
  Case conversion on Latin-1. The sharp s becomes two letters in upper case; the micro sign and
  the y with diaeresis have their capitals outside Latin-1 and are left as they are, and no
  string the code compares against contains them.
\<close>

definition code :: "char \<Rightarrow> nat" where
  "code c = of_char c"

definition char_lower :: "char \<Rightarrow> char" where
  "char_lower c =
     (let n = code c
      in if (65 \<le> n \<and> n \<le> 90) \<or> (192 \<le> n \<and> n \<le> 222 \<and> n \<noteq> 215) then char_of (n + 32) else c)"

definition char_upper :: "char \<Rightarrow> string" where
  "char_upper c =
     (let n = code c
      in if (97 \<le> n \<and> n \<le> 122) \<or> (224 \<le> n \<and> n \<le> 254 \<and> n \<noteq> 247) then [char_of (n - 32)]
         else if n = 223 then ''SS'' else [c])"

definition str_lower :: "string \<Rightarrow> string" where
  "str_lower = map char_lower"

definition str_upper :: "string \<Rightarrow> string" where
  "str_upper s = concat (map char_upper s)"

definition str_includes :: "string \<Rightarrow> string \<Rightarrow> bool" where
  "str_includes hay needle \<longleftrightarrow> sublist needle hay"

definition str_starts :: "string \<Rightarrow> string \<Rightarrow> bool" where
  "str_starts s p \<longleftrightarrow> prefix p s"

fun str_join :: "string \<Rightarrow> string list \<Rightarrow> string" where
  "str_join sep [] = ''''"
| "str_join sep [x] = x"
| "str_join sep (x # y # ys) = x @ sep @ str_join sep (y # ys)"

section \<open>Decimal notation\<close>

definition digit :: "nat \<Rightarrow> char" where
  "digit d = char_of (48 + d)"

definition is_digit :: "char \<Rightarrow> bool" where
  "is_digit c \<longleftrightarrow> 48 \<le> code c \<and> code c \<le> 57"

fun nat_str :: "int \<Rightarrow> string" where
  "nat_str n = (if n < 10 then [digit (nat n)] else nat_str (n div 10) @ [digit (nat (n mod 10))])"

declare nat_str.simps [simp del]

definition int_str :: "int \<Rightarrow> string" where
  "int_str i = (if i < 0 then ''-'' @ nat_str (- i) else nat_str i)"

fun digits_val :: "int \<Rightarrow> int \<Rightarrow> string \<Rightarrow> int" where
  "digits_val b acc [] = acc"
| "digits_val b acc (c # cs) =
     digits_val b (acc * b + int (if is_digit c then code c - 48 else code (char_lower c) - 87)) cs"

definition is_hex :: "char \<Rightarrow> bool" where
  "is_hex c \<longleftrightarrow> is_digit c \<or> (97 \<le> code (char_lower c) \<and> code (char_lower c) \<le> 102)"

text \<open>
  Number to string: the shortest digit string that rounds back to the number, then the
  positional or the exponent form, as the standard's Number::toString lays it out. \<open>p10\<close> is a
  power of ten; \<open>dec_exp q\<close> the \<open>n\<close> with \<open>10 ^ (n - 1) \<le> q < 10 ^ n\<close>, found from a start that
  the binary exponent bounds.
\<close>

definition p10 :: "int \<Rightarrow> rat" where
  "p10 e = (if 0 \<le> e then of_int (10 ^ nat e) else 1 / of_int (10 ^ nat (- e)))"

fun dec_exp_up :: "nat \<Rightarrow> int \<Rightarrow> rat \<Rightarrow> int" where
  "dec_exp_up 0 n q = n"
| "dec_exp_up (Suc k) n q = (if q < p10 n then n else dec_exp_up k (n + 1) q)"

definition dec_exp :: "rat \<Rightarrow> int" where
  "dec_exp q = dec_exp_up 5 (binexp q * 30103 div 100000 - 1) q"

fun shortest :: "nat \<Rightarrow> nat \<Rightarrow> int \<Rightarrow> rat \<Rightarrow> nat \<times> int \<times> int" where
  "shortest 0 k n q = (k, \<lfloor>q / p10 (n - int k) + 1 / 2\<rfloor>, n)"
| "shortest (Suc fuel) k n q =
     (let s = \<lfloor>q / p10 (n - int k) + 1 / 2\<rfloor>
      in if dbl (of_int s * p10 (n - int k)) = q
         then (if s = 10 ^ k then (1, 1, n + 1) else (k, s, n))
         else shortest fuel (Suc k) n q)"

definition pos_num_str :: "rat \<Rightarrow> string" where
  "pos_num_str q =
     (let (k, s, n) = shortest 17 1 (dec_exp q) q;
          ds = nat_str s;
          e = n - 1;
          es = (if e < 0 then ''-'' @ nat_str (- e) else ''+'' @ nat_str e)
      in if int k \<le> n \<and> n \<le> 21 then ds @ replicate (nat n - k) (CHR ''0'')
         else if 0 < n \<and> n \<le> 21 then take (nat n) ds @ ''.'' @ drop (nat n) ds
         else if - 6 < n \<and> n \<le> 0 then ''0.'' @ replicate (nat (- n)) (CHR ''0'') @ ds
         else if k = 1 then ds @ ''e'' @ es
         else take 1 ds @ ''.'' @ drop 1 ds @ ''e'' @ es)"

fun num_str :: "jsnum \<Rightarrow> string" where
  "num_str NaN = ''NaN''"
| "num_str PInf = ''Infinity''"
| "num_str NInf = ''-Infinity''"
| "num_str (Fin q) =
     (if q = 0 then ''0'' else if q < 0 then ''-'' @ pos_num_str (- q) else pos_num_str q)"

text \<open>String to number: white space, a decimal literal with sign, fraction and exponent, Infinity,
  and the unsigned literals of base 16, 8 and 2.\<close>

definition span_digits :: "string \<Rightarrow> string \<times> string" where
  "span_digits s = (takeWhile is_digit s, dropWhile is_digit s)"

definition parse_exp :: "string \<Rightarrow> int option" where
  "parse_exp s =
     (case s of
        [] \<Rightarrow> Some 0
      | c # r \<Rightarrow>
          (if char_lower c = CHR ''e'' then
             (let neg = (case r of d # _ \<Rightarrow> d = CHR ''-'' | [] \<Rightarrow> False);
                  r' = (case r of d # r2 \<Rightarrow> if d = CHR ''-'' \<or> d = CHR ''+'' then r2 else r | [] \<Rightarrow> [])
              in if r' \<noteq> [] \<and> list_all is_digit r'
                 then Some ((if neg then - 1 else 1) * digits_val 10 0 r') else None)
           else None))"

definition parse_unsigned :: "string \<Rightarrow> jsnum" where
  "parse_unsigned s =
     (if s = ''Infinity'' then PInf
      else (let (ip, r1) = span_digits s;
                (fp, r2) = (case r1 of c # r \<Rightarrow> if c = CHR ''.'' then span_digits r else ([], r1) | [] \<Rightarrow> ([], []))
            in if ip = [] \<and> fp = [] then NaN
               else case parse_exp r2 of
                      None \<Rightarrow> NaN
                    | Some e \<Rightarrow> fl (of_int (digits_val 10 0 (ip @ fp)) * p10 (e - int (length fp)))))"

definition parse_radix :: "int \<Rightarrow> (char \<Rightarrow> bool) \<Rightarrow> string \<Rightarrow> jsnum" where
  "parse_radix b ok s = (if s \<noteq> [] \<and> list_all ok s then fl (of_int (digits_val b 0 s)) else NaN)"

definition str_to_num :: "string \<Rightarrow> jsnum" where
  "str_to_num s0 =
     (let s = str_trim s0
      in if s = [] then Fin 0
         else if take 2 s = ''0x'' \<or> take 2 s = ''0X'' then parse_radix 16 is_hex (drop 2 s)
         else if take 2 s = ''0o'' \<or> take 2 s = ''0O'' then parse_radix 8 (\<lambda>c. is_digit c \<and> code c < 56) (drop 2 s)
         else if take 2 s = ''0b'' \<or> take 2 s = ''0B'' then parse_radix 2 (\<lambda>c. is_digit c \<and> code c < 50) (drop 2 s)
         else case s of
                c # r \<Rightarrow> if c = CHR ''-'' then n_neg (parse_unsigned r)
                         else if c = CHR ''+'' then parse_unsigned r else parse_unsigned s
              | [] \<Rightarrow> Fin 0)"

section \<open>Coercions\<close>

fun js_string :: "jsval \<Rightarrow> string" where
  "js_string JUndef = ''undefined''"
| "js_string JNull = ''null''"
| "js_string (JBool b) = (if b then ''true'' else ''false'')"
| "js_string (JNum n) = num_str n"
| "js_string (JBig i) = int_str i"
| "js_string (JStr s) = s"
| "js_string (JArr vs) =
     str_join '','' (map (\<lambda>v. if v = JUndef \<or> v = JNull then '''' else js_string v) vs)"
| "js_string (JObj _) = ''[object Object]''"

fun js_number :: "jsval \<Rightarrow> jsnum" where
  "js_number JUndef = NaN"
| "js_number JNull = Fin 0"
| "js_number (JBool b) = Fin (if b then 1 else 0)"
| "js_number (JNum n) = n"
| "js_number (JBig i) = fl (of_int i)"
| "js_number (JStr s) = str_to_num s"
| "js_number (JArr vs) = str_to_num (js_string (JArr vs))"
| "js_number (JObj _) = NaN"

fun truthy :: "jsval \<Rightarrow> bool" where
  "truthy JUndef = False"
| "truthy JNull = False"
| "truthy (JBool b) = b"
| "truthy (JNum n) = (n \<noteq> NaN \<and> n \<noteq> Fin 0)"
| "truthy (JBig i) = (i \<noteq> 0)"
| "truthy (JStr s) = (s \<noteq> '''')"
| "truthy (JArr _) = True"
| "truthy (JObj _) = True"

fun nullish :: "jsval \<Rightarrow> bool" where
  "nullish JUndef = True"
| "nullish JNull = True"
| "nullish _ = False"

text \<open>The operator \<open>a ?? b\<close> on values, and on optional strings where null is \<open>None\<close>.\<close>

definition coalesce :: "jsval \<Rightarrow> jsval \<Rightarrow> jsval" where
  "coalesce a b = (if nullish a then b else a)"

definition opt_or :: "'a option \<Rightarrow> 'a option \<Rightarrow> 'a option" where
  "opt_or a b = (case a of None \<Rightarrow> b | Some x \<Rightarrow> Some x)"

definition opt_get :: "'a option \<Rightarrow> 'a \<Rightarrow> 'a" where
  "opt_get a d = (case a of None \<Rightarrow> d | Some x \<Rightarrow> x)"

definition opt_val :: "string option \<Rightarrow> jsval" where
  "opt_val a = (case a of None \<Rightarrow> JNull | Some s \<Rightarrow> JStr s)"

text \<open>A step that may throw, followed by one that uses its value.\<close>

definition bind_sum :: "'e + 'a \<Rightarrow> ('a \<Rightarrow> 'e + 'b) \<Rightarrow> 'e + 'b" where
  "bind_sum r f = (case r of Inl e \<Rightarrow> Inl e | Inr x \<Rightarrow> f x)"

section \<open>Objects\<close>

definition get :: "jsobj \<Rightarrow> string \<Rightarrow> jsval" where
  "get ob k = (case map_of ob k of None \<Rightarrow> JUndef | Some v \<Rightarrow> v)"

text \<open>The object spread \<open>{...a, ...b}\<close>: the entries of \<open>b\<close> shadow those of \<open>a\<close>.\<close>

definition spread :: "jsobj \<Rightarrow> jsobj \<Rightarrow> jsobj" where
  "spread a b = b @ filter (\<lambda>kv. fst kv \<notin> set (map fst b)) a"

lemma map_of_filter_keys: "map_of (filter (\<lambda>kv. P (fst kv)) a) k = (if P k then map_of a k else None)"
  by (induction a) auto

lemma get_spread: "get (spread a b) k = (if k \<in> set (map fst b) then get b k else get a k)"
proof (cases "k \<in> set (map fst b)")
  case True
  then obtain v where "map_of b k = Some v" by (metis map_of_eq_None_iff list.set_map not_Some_eq)
  with True show ?thesis by (simp add: get_def spread_def map_add_def)
next
  case False
  then have "map_of b k = None" by (simp add: map_of_eq_None_iff)
  with False show ?thesis
    using map_of_filter_keys [of "\<lambda>k. k \<notin> set (map fst b)" a k]
    by (simp add: get_def spread_def map_add_def)
qed

lemma get_Nil [simp]: "get [] k = JUndef"
  by (simp add: get_def)

lemma get_Cons [simp]: "get ((k', v) # ob) k = (if k = k' then v else get ob k)"
  by (simp add: get_def)

section \<open>Helpers the services define alike in most files\<close>

fun to_record :: "jsval \<Rightarrow> jsobj" where
  "to_record (JObj ob) = ob"
| "to_record _ = []"

definition norm_string :: "jsval \<Rightarrow> string" where
  "norm_string v = str_trim (js_string (coalesce v (JStr '''')))"

definition norm_lower :: "jsval \<Rightarrow> string" where
  "norm_lower v = str_lower (norm_string v)"

definition norm_upper :: "jsval \<Rightarrow> string" where
  "norm_upper v = str_upper (norm_string v)"

text \<open>A string or null: \<open>raw || null\<close>.\<close>

definition nonempty :: "string \<Rightarrow> string option" where
  "nonempty s = (if s = '''' then None else Some s)"

definition to_nullable_string :: "jsval \<Rightarrow> string option" where
  "to_nullable_string v = nonempty (norm_string v)"

fun as_array :: "jsval \<Rightarrow> jsval list option" where
  "as_array (JArr vs) = Some vs"
| "as_array _ = None"

fun as_str :: "jsval \<Rightarrow> string option" where
  "as_str (JStr s) = Some s"
| "as_str _ = None"

lemma find_Some: "find P xs = Some x \<Longrightarrow> x \<in> set xs \<and> P x"
  by (induction xs) (auto split: if_splits)

text \<open>A plain object or null, and a trimmed string or the empty one.\<close>

fun as_object :: "jsval \<Rightarrow> jsobj option" where
  "as_object (JObj ob) = Some ob"
| "as_object _ = None"

definition trimmed :: "jsval \<Rightarrow> string" where
  "trimmed v = str_trim (opt_get (as_str v) '''')"

section \<open>Laws of the normalisers\<close>

lemma code_char_of: "n < 256 \<Longrightarrow> code (char_of n) = n"
  by (simp add: code_def)

lemma code_inject: "code c = code d \<longleftrightarrow> c = d"
  by (simp add: code_def)

lemma is_ws_code: "is_ws c \<longleftrightarrow> code c \<in> {9, 10, 11, 12, 13, 32, 160}"
proof -
  have "code ` set ws_chars = {9, 10, 11, 12, 13, 32, 160}" by (simp add: ws_chars_def code_def)
  moreover have "inj code" by (rule injI) (simp add: code_inject)
  ultimately show ?thesis by (metis inj_image_mem_iff is_ws_def)
qed

lemma code_char_lower:
  "code (char_lower c) =
     (if (65 \<le> code c \<and> code c \<le> 90) \<or> (192 \<le> code c \<and> code c \<le> 222 \<and> code c \<noteq> 215)
      then code c + 32 else code c)"
  by (simp add: char_lower_def Let_def code_char_of)

lemma is_ws_char_lower [simp]: "is_ws (char_lower c) = is_ws c"
  by (auto simp: is_ws_code code_char_lower)

lemma char_lower_idem [simp]: "char_lower (char_lower c) = char_lower c"
  by (simp add: code_char_lower flip: code_inject)

lemma str_lower_idem [simp]: "str_lower (str_lower s) = str_lower s"
  by (simp add: str_lower_def)

lemma dropWhile_map_ws: "dropWhile is_ws (map char_lower s) = map char_lower (dropWhile is_ws s)"
  by (induction s) auto

lemma str_trim_lower: "str_trim (str_lower s) = str_lower (str_trim s)"
  by (simp add: str_trim_def str_lower_def dropWhile_map_ws rev_map)

lemma dropWhile_rev_drop:
  "dropWhile P (rev (dropWhile P (rev (dropWhile P s)))) = rev (dropWhile P (rev (dropWhile P s)))"
proof (cases "dropWhile P s")
  case (Cons c cs)
  then have c: "\<not> P c" by (metis hd_dropWhile list.distinct(1) list.sel(1))
  then have "dropWhile P (rev cs @ [c]) = dropWhile P (rev cs) @ [c]"
    by (induction cs rule: rev_induct) simp_all
  then show ?thesis using Cons c by simp
next
  case Nil
  then show ?thesis by (simp only: rev.simps dropWhile.simps)
qed

lemma str_trim_idem [simp]: "str_trim (str_trim s) = str_trim s"
  by (simp add: str_trim_def dropWhile_rev_drop dropWhile_idem)

lemma norm_string_str [simp]: "norm_string (JStr s) = str_trim s"
  by (simp add: norm_string_def coalesce_def)

lemma norm_string_null [simp]: "norm_string JNull = ''''" "norm_string JUndef = ''''"
  by (simp_all add: norm_string_def coalesce_def str_trim_def)

lemma norm_string_trimmed [simp]: "str_trim (norm_string v) = norm_string v"
  by (simp add: norm_string_def)

lemma norm_lower_null [simp]: "norm_lower JNull = []" "norm_lower JUndef = []"
  by (simp_all add: norm_lower_def str_lower_def)

lemma norm_lower_str: "norm_lower (JStr s) = str_lower (str_trim s)"
  by (simp add: norm_lower_def)

lemma norm_lower_idem [simp]: "norm_lower (JStr (norm_lower v)) = norm_lower v"
  by (simp add: norm_lower_def str_trim_lower)

lemma nonempty_simps [simp]: "nonempty '''' = None" "s \<noteq> '''' \<Longrightarrow> nonempty s = Some s"
  by (simp_all add: nonempty_def)

lemma nonempty_eq_Some [simp]: "nonempty s = Some t \<longleftrightarrow> s = t \<and> t \<noteq> ''''"
  by (auto simp: nonempty_def)

lemma norm_lower_opt [simp]:
  "nonempty (norm_lower (opt_val (nonempty (norm_lower v)))) = nonempty (norm_lower v)"
  by (cases "norm_lower v = ''''") (simp_all add: opt_val_def)

lemma to_nullable_string_idem [simp]:
  "to_nullable_string (opt_val (to_nullable_string v)) = to_nullable_string v"
  by (cases "norm_string v = ''''") (simp_all add: to_nullable_string_def opt_val_def)

section \<open>String enumerations\<close>

text \<open>
  A union of string literals is a datatype with the list of its constructors and their strings.
  The services read one from an unknown value by trimming it, lowering it and comparing it with
  the case labels of a switch; any other value reads as null. The locale states what an
  enumeration owes its reader, and what the reader then satisfies.
\<close>

definition read_enum :: "'a list \<Rightarrow> ('a \<Rightarrow> string) \<Rightarrow> jsval \<Rightarrow> 'a option" where
  "read_enum xs str v = find (\<lambda>x. str x = norm_lower v) xs"

locale string_enum =
  fixes xs :: "'a list" and str :: "'a \<Rightarrow> string"
  assumes all_listed: "x \<in> set xs"
    and str_inject: "str x = str y \<Longrightarrow> x = y"
    and str_normal: "norm_lower (JStr (str x)) = str x"
    and str_nonempty: "str x \<noteq> []"
begin

lemma read_eq_Some: "read_enum xs str v = Some x \<longleftrightarrow> norm_lower v = str x"
proof
  assume "read_enum xs str v = Some x"
  then show "norm_lower v = str x" by (auto simp: read_enum_def find_Some_iff)
next
  assume v: "norm_lower v = str x"
  moreover have "find (\<lambda>y. str y = str x) xs \<noteq> None"
    using all_listed [of x] by (auto simp: find_None_iff)
  then obtain y where "find (\<lambda>y. str y = str x) xs = Some y" by blast
  moreover from this have "str y = str x" by (auto simp: find_Some_iff)
  ultimately show "read_enum xs str v = Some x" using str_inject by (simp add: read_enum_def)
qed

lemma read_eq_None: "read_enum xs str v = None \<longleftrightarrow> (\<forall>x. norm_lower v \<noteq> str x)"
  by (metis read_eq_Some option.exhaust option.distinct(1))

lemma read_str [simp]: "read_enum xs str (JStr (str x)) = Some x"
  by (simp add: read_eq_Some str_normal)

lemma read_null [simp]: "read_enum xs str JNull = None" "read_enum xs str JUndef = None"
  unfolding read_eq_None norm_lower_null by (metis str_nonempty)+

lemma read_opt [simp]: "read_enum xs str (opt_val (map_option str x)) = x"
  by (cases x) (simp_all add: opt_val_def)

end

text \<open>The checks of the interface on a concrete enumeration, by evaluation.\<close>

definition enum_ok :: "'a list \<Rightarrow> ('a \<Rightarrow> string) \<Rightarrow> bool" where
  "enum_ok xs str \<longleftrightarrow> distinct (map str xs) \<and> list_all (\<lambda>x. norm_lower (JStr (str x)) = str x \<and> str x \<noteq> []) xs"

lemma string_enumI: "(\<And>x. x \<in> set xs) \<Longrightarrow> enum_ok xs str \<Longrightarrow> string_enum xs str"
  by unfold_locales (auto simp: enum_ok_def list_all_iff distinct_map inj_on_def)

end
