(* ===== verification/VaultLifecycle.thy ===== *)
theory VaultLifecycle
  imports JsValue
begin

text \<open>
  The lifecycle of a bot vault and of a master vault, as derived from the columns of a database
  row (packages/core/src/vaultLifecycle.ts), and the runtime model (contract generation) of a
  bot vault (packages/core/src/botVaultRuntimeModel.ts). Every input field is \<open>unknown\<close> in the
  source and a JavaScript value here.
\<close>

section \<open>Types\<close>

datatype vault_status = VS_ACTIVE | VS_PAUSED | VS_STOPPED | VS_CLOSE_ONLY | VS_CLOSED | VS_ERROR

datatype exec_status = ES_created | ES_running | ES_paused | ES_close_only | ES_closed | ES_error

datatype lifecycle_state =
    LS_bot_creation | LS_bot_activation | LS_execution_active | LS_paused
  | LS_settling | LS_withdraw_pending | LS_closed | LS_error

datatype lifecycle_mode = LM_normal | LM_close_only

fun vault_status_str :: "vault_status \<Rightarrow> string" where
  "vault_status_str VS_ACTIVE = ''ACTIVE''"
| "vault_status_str VS_PAUSED = ''PAUSED''"
| "vault_status_str VS_STOPPED = ''STOPPED''"
| "vault_status_str VS_CLOSE_ONLY = ''CLOSE_ONLY''"
| "vault_status_str VS_CLOSED = ''CLOSED''"
| "vault_status_str VS_ERROR = ''ERROR''"

fun exec_status_str :: "exec_status \<Rightarrow> string" where
  "exec_status_str ES_created = ''created''"
| "exec_status_str ES_running = ''running''"
| "exec_status_str ES_paused = ''paused''"
| "exec_status_str ES_close_only = ''close_only''"
| "exec_status_str ES_closed = ''closed''"
| "exec_status_str ES_error = ''error''"

fun lifecycle_state_str :: "lifecycle_state \<Rightarrow> string" where
  "lifecycle_state_str LS_bot_creation = ''bot_creation''"
| "lifecycle_state_str LS_bot_activation = ''bot_activation''"
| "lifecycle_state_str LS_execution_active = ''execution_active''"
| "lifecycle_state_str LS_paused = ''paused''"
| "lifecycle_state_str LS_settling = ''settling''"
| "lifecycle_state_str LS_withdraw_pending = ''withdraw_pending''"
| "lifecycle_state_str LS_closed = ''closed''"
| "lifecycle_state_str LS_error = ''error''"

fun lifecycle_mode_str :: "lifecycle_mode \<Rightarrow> string" where
  "lifecycle_mode_str LM_normal = ''normal''"
| "lifecycle_mode_str LM_close_only = ''close_only''"

record lifecycle_resolution =
  lr_state :: lifecycle_state
  lr_baseState :: lifecycle_state
  lr_mode :: lifecycle_mode
  lr_status :: vault_status
  lr_executionStatus :: exec_status
  lr_pendingActionType :: "string option"
  lr_pendingActionStatus :: "string option"
  lr_lifecycleOverrideState :: "string option"
  lr_needsIntervention :: bool
  lr_isTerminal :: bool
  lr_canAcceptNewOrders :: bool

text \<open>The input of the derivation; an absent field is undefined.\<close>

record lifecycle_input =
  li_status :: jsval
  li_executionStatus :: jsval
  li_executionLastError :: jsval
  li_executionMetadata :: jsval
  li_pendingActionType :: jsval
  li_pendingActionStatus :: jsval

section \<open>Normalisation of the columns\<close>

definition PENDING_ONCHAIN_ACTION_STATUSES :: "string list" where
  "PENDING_ONCHAIN_ACTION_STATUSES = [''prepared'', ''submitted'']"

definition BOT_WITHDRAW_PENDING_ACTION_TYPES :: "string list" where
  "BOT_WITHDRAW_PENDING_ACTION_TYPES = [''claim_from_bot_vault'', ''close_bot_vault'']"

definition MASTER_FUNDING_ACTION_TYPES :: "string list" where
  "MASTER_FUNDING_ACTION_TYPES = [''create_master_vault'', ''deposit_master_vault'']"

definition MASTER_WITHDRAW_ACTION_TYPES :: "string list" where
  "MASTER_WITHDRAW_ACTION_TYPES = [''withdraw_master_vault'']"

definition normalizeBotVaultStatus :: "jsval \<Rightarrow> vault_status" where
  "normalizeBotVaultStatus value =
     (let raw = norm_upper value
      in if raw = ''PAUSED'' then VS_PAUSED
         else if raw = ''STOPPED'' then VS_STOPPED
         else if raw = ''CLOSE_ONLY'' then VS_CLOSE_ONLY
         else if raw = ''CLOSED'' then VS_CLOSED
         else if raw = ''ERROR'' then VS_ERROR
         else VS_ACTIVE)"

definition normalizeBotVaultExecutionStatus :: "jsval \<Rightarrow> exec_status" where
  "normalizeBotVaultExecutionStatus value =
     (let raw = norm_lower value
      in if raw = ''running'' then ES_running
         else if raw = ''paused'' then ES_paused
         else if raw = ''close_only'' then ES_close_only
         else if raw = ''closed'' then ES_closed
         else if raw = ''error'' then ES_error
         else ES_created)"

definition readPendingActionStatus :: "jsval \<Rightarrow> string option" where
  "readPendingActionStatus value = nonempty (norm_lower value)"

definition readPendingActionType :: "jsval \<Rightarrow> string option" where
  "readPendingActionType value = nonempty (norm_lower value)"

definition readLifecycleOverrideState :: "jsobj \<Rightarrow> string option" where
  "readLifecycleOverrideState metadata =
     (let overrideState = norm_lower (get metadata ''lifecycleOverrideState'')
      in if overrideState \<noteq> '''' then Some overrideState
         else nonempty (norm_lower (get (to_record (get metadata ''lifecycle'')) ''overrideState'')))"

definition isPendingOnchainAction :: "string option \<Rightarrow> bool" where
  "isPendingOnchainAction status =
     (case status of None \<Rightarrow> False
      | Some s \<Rightarrow> s \<noteq> '''' \<and> s \<in> set PENDING_ONCHAIN_ACTION_STATUSES)"

section \<open>Derivation\<close>

definition derive_mode :: "vault_status \<Rightarrow> exec_status \<Rightarrow> lifecycle_mode" where
  "derive_mode status executionStatus =
     (if status = VS_CLOSE_ONLY \<or> executionStatus = ES_close_only then LM_close_only else LM_normal)"

definition derive_base_state ::
  "vault_status \<Rightarrow> exec_status \<Rightarrow> lifecycle_mode \<Rightarrow> string \<Rightarrow> lifecycle_state" where
  "derive_base_state status executionStatus mode errorReason =
     (if status = VS_CLOSED then LS_closed
      else if status = VS_ERROR \<or> executionStatus = ES_error \<or> errorReason \<noteq> '''' then LS_error
      else if status = VS_PAUSED \<or> status = VS_STOPPED \<or> executionStatus = ES_paused
              \<or> executionStatus = ES_closed \<or> mode = LM_close_only then LS_paused
      else if executionStatus = ES_running then LS_execution_active
      else if executionStatus = ES_created then LS_bot_activation
      else LS_bot_creation)"

definition derive_state ::
  "vault_status \<Rightarrow> lifecycle_state \<Rightarrow> string option \<Rightarrow> string option \<Rightarrow> string option \<Rightarrow> lifecycle_state" where
  "derive_state status baseState lifecycleOverrideState pendingActionType pendingActionStatus =
     (if status = VS_CLOSED then LS_closed
      else if lifecycleOverrideState = Some ''settling'' then LS_settling
      else if isPendingOnchainAction pendingActionStatus
              \<and> (case pendingActionType of None \<Rightarrow> False
                 | Some t \<Rightarrow> t \<in> set BOT_WITHDRAW_PENDING_ACTION_TYPES) then LS_withdraw_pending
      else if isPendingOnchainAction pendingActionStatus \<and> pendingActionType = Some ''create_bot_vault''
           then LS_bot_creation
      else baseState)"

definition deriveBotVaultLifecycleState :: "lifecycle_input \<Rightarrow> lifecycle_resolution" where
  "deriveBotVaultLifecycleState input =
     (let metadata = to_record (li_executionMetadata input);
          status = normalizeBotVaultStatus (li_status input);
          executionStatus = normalizeBotVaultExecutionStatus (li_executionStatus input);
          pendingActionType = readPendingActionType
            (coalesce (li_pendingActionType input) (get metadata ''pendingOnchainActionType''));
          pendingActionStatus = readPendingActionStatus
            (coalesce (li_pendingActionStatus input) (get metadata ''pendingOnchainActionStatus''));
          lifecycleOverrideState = readLifecycleOverrideState metadata;
          errorReason = norm_string (li_executionLastError input);
          mode = derive_mode status executionStatus;
          baseState = derive_base_state status executionStatus mode errorReason;
          state = derive_state status baseState lifecycleOverrideState pendingActionType pendingActionStatus
      in \<lparr> lr_state = state, lr_baseState = baseState, lr_mode = mode, lr_status = status,
           lr_executionStatus = executionStatus, lr_pendingActionType = pendingActionType,
           lr_pendingActionStatus = pendingActionStatus,
           lr_lifecycleOverrideState = lifecycleOverrideState,
           lr_needsIntervention = (state = LS_error), lr_isTerminal = (state = LS_closed),
           lr_canAcceptNewOrders = (state = LS_execution_active \<and> mode = LM_normal) \<rparr>)"

text \<open>
  The object written back to the row's metadata. \<open>updatedAt\<close> arrives as an ISO string (a Date is
  converted by the caller of the model) and \<open>now\<close> is the clock.
\<close>

definition buildBotVaultLifecycleMetadata :: "lifecycle_input \<Rightarrow> jsval \<Rightarrow> string \<Rightarrow> jsobj" where
  "buildBotVaultLifecycleMetadata input updatedAt now =
     (let lifecycle = deriveBotVaultLifecycleState input;
          updated = (if norm_string updatedAt \<noteq> '''' then norm_string updatedAt else now)
      in [(''lifecycle'', JObj
            [(''state'', JStr (lifecycle_state_str (lr_state lifecycle))),
             (''baseState'', JStr (lifecycle_state_str (lr_baseState lifecycle))),
             (''mode'', JStr (lifecycle_mode_str (lr_mode lifecycle))),
             (''status'', JStr (vault_status_str (lr_status lifecycle))),
             (''executionStatus'', JStr (exec_status_str (lr_executionStatus lifecycle))),
             (''pendingActionType'', opt_val (lr_pendingActionType lifecycle)),
             (''pendingActionStatus'', opt_val (lr_pendingActionStatus lifecycle)),
             (''overrideState'', opt_val (lr_lifecycleOverrideState lifecycle)),
             (''needsIntervention'', JBool (lr_needsIntervention lifecycle)),
             (''isTerminal'', JBool (lr_isTerminal lifecycle)),
             (''canAcceptNewOrders'', JBool (lr_canAcceptNewOrders lifecycle)),
             (''updatedAt'', JStr updated)])])"

section \<open>The transition table\<close>

fun BOT_LIFECYCLE_TRANSITIONS :: "lifecycle_state \<Rightarrow> lifecycle_state list" where
  "BOT_LIFECYCLE_TRANSITIONS LS_bot_creation = [LS_bot_activation, LS_paused, LS_error]"
| "BOT_LIFECYCLE_TRANSITIONS LS_bot_activation =
     [LS_execution_active, LS_paused, LS_settling, LS_withdraw_pending, LS_error]"
| "BOT_LIFECYCLE_TRANSITIONS LS_execution_active = [LS_paused, LS_settling, LS_withdraw_pending, LS_error]"
| "BOT_LIFECYCLE_TRANSITIONS LS_paused =
     [LS_bot_activation, LS_execution_active, LS_settling, LS_withdraw_pending, LS_closed, LS_error]"
| "BOT_LIFECYCLE_TRANSITIONS LS_settling = [LS_withdraw_pending, LS_closed, LS_error]"
| "BOT_LIFECYCLE_TRANSITIONS LS_withdraw_pending = [LS_execution_active, LS_paused, LS_closed, LS_error]"
| "BOT_LIFECYCLE_TRANSITIONS LS_closed = []"
| "BOT_LIFECYCLE_TRANSITIONS LS_error = [LS_paused, LS_settling, LS_closed]"

definition canTransitionBotVaultLifecycle :: "lifecycle_state \<Rightarrow> lifecycle_state \<Rightarrow> bool" where
  "canTransitionBotVaultLifecycle fromState toState =
     (if fromState = toState then True else toState \<in> set (BOT_LIFECYCLE_TRANSITIONS fromState))"

text \<open>The assertion returns, or throws an error with this message.\<close>

definition assertBotVaultLifecycleTransition :: "lifecycle_state \<Rightarrow> lifecycle_state \<Rightarrow> string + unit" where
  "assertBotVaultLifecycleTransition fromState toState =
     (if canTransitionBotVaultLifecycle fromState toState then Inr ()
      else Inl (''vault_lifecycle_transition_not_allowed:'' @ lifecycle_state_str fromState
                @ ''->'' @ lifecycle_state_str toState))"

section \<open>Master vault\<close>

datatype master_state = MS_master_funding | MS_withdraw_pending | MS_ready | MS_closed | MS_error

record master_resolution =
  mr_state :: master_state
  mr_status :: string
  mr_pendingActionType :: "string option"
  mr_pendingActionStatus :: "string option"
  mr_isTerminal :: bool

definition deriveMasterVaultLifecycleState :: "jsval \<Rightarrow> jsval \<Rightarrow> jsval \<Rightarrow> master_resolution" where
  "deriveMasterVaultLifecycleState in_status in_pendingActionType in_pendingActionStatus =
     (let status = (if norm_lower in_status \<noteq> '''' then norm_lower in_status else ''active'');
          pendingActionType = readPendingActionType in_pendingActionType;
          pendingActionStatus = readPendingActionStatus in_pendingActionStatus;
          result = (\<lambda>st term. \<lparr> mr_state = st, mr_status = status, mr_pendingActionType = pendingActionType,
                                mr_pendingActionStatus = pendingActionStatus, mr_isTerminal = term \<rparr>);
          pending_in = (\<lambda>types. isPendingOnchainAction pendingActionStatus
                          \<and> (case pendingActionType of None \<Rightarrow> False | Some t \<Rightarrow> t \<in> set types))
      in if status = ''closed'' then result MS_closed True
         else if status = ''error'' then result MS_error False
         else if pending_in MASTER_FUNDING_ACTION_TYPES then result MS_master_funding False
         else if pending_in MASTER_WITHDRAW_ACTION_TYPES then result MS_withdraw_pending False
         else result MS_ready False)"

section \<open>The runtime model of a bot vault\<close>

datatype runtime_model = RM_V3 | RM_V4

datatype contract_version = CV_v3 | CV_v4

datatype runtime_action = RA_create | RA_fund

fun runtime_model_str :: "runtime_model \<Rightarrow> string" where
  "runtime_model_str RM_V3 = ''bot_vault_v3''"
| "runtime_model_str RM_V4 = ''bot_vault_v4''"

definition normalizeBotVaultRuntimeModel :: "jsval \<Rightarrow> runtime_model option" where
  "normalizeBotVaultRuntimeModel value =
     (let model = norm_lower value
      in if model = ''bot_vault_v3'' then Some RM_V3
         else if model = ''bot_vault_v4'' then Some RM_V4 else None)"

definition isBotVaultRuntimeModel :: "jsval \<Rightarrow> bool" where
  "isBotVaultRuntimeModel value \<longleftrightarrow> normalizeBotVaultRuntimeModel value \<noteq> None"

definition normalizeBotVaultRuntimeContractVersion :: "jsval \<Rightarrow> contract_version option" where
  "normalizeBotVaultRuntimeContractVersion value =
     (let version = norm_lower value
      in if version = ''v3'' then Some CV_v3 else if version = ''v4'' then Some CV_v4 else None)"

definition botVaultRuntimeModelForContractVersion :: "jsval \<Rightarrow> runtime_model \<Rightarrow> runtime_model" where
  "botVaultRuntimeModelForContractVersion value fallback =
     (if normalizeBotVaultRuntimeContractVersion value = Some CV_v4 then RM_V4 else fallback)"

definition resolveBotVaultRuntimeModel :: "jsval \<Rightarrow> runtime_model option" where
  "resolveBotVaultRuntimeModel value =
     (let record = to_record value;
          executionMetadata = to_record (get record ''executionMetadata'');
          contractVersion =
            opt_or (normalizeBotVaultRuntimeContractVersion (get record ''contractVersion''))
             (opt_or (normalizeBotVaultRuntimeContractVersion (get record ''onchainContractVersion''))
               (normalizeBotVaultRuntimeContractVersion (get executionMetadata ''onchainContractVersion'')))
      in if contractVersion = Some CV_v4 then Some RM_V4
         else if contractVersion = Some CV_v3 then Some RM_V3
         else normalizeBotVaultRuntimeModel (coalesce (get record ''vaultModel'') value))"

definition isBotVaultRuntimeModelRow :: "jsval \<Rightarrow> bool" where
  "isBotVaultRuntimeModelRow value \<longleftrightarrow> resolveBotVaultRuntimeModel value \<noteq> None"

definition runtime_model_of_params :: "jsval \<Rightarrow> jsval \<Rightarrow> runtime_model" where
  "runtime_model_of_params runtimeModel contractVersion =
     opt_get (normalizeBotVaultRuntimeModel runtimeModel)
       (botVaultRuntimeModelForContractVersion contractVersion RM_V4)"

definition botVaultRuntimeActionType :: "jsval \<Rightarrow> jsval \<Rightarrow> runtime_action \<Rightarrow> string" where
  "botVaultRuntimeActionType p_runtimeModel p_contractVersion action =
     (let runtimeModel = runtime_model_of_params p_runtimeModel p_contractVersion
      in if action = RA_create
         then (if runtimeModel = RM_V4 then ''create_bot_vault_v4'' else ''create_bot_vault_v3'')
         else (if runtimeModel = RM_V4 then ''fund_bot_vault_v4'' else ''fund_bot_vault_v3''))"

definition botVaultRuntimeReasonCode :: "jsval \<Rightarrow> jsval \<Rightarrow> string \<Rightarrow> string" where
  "botVaultRuntimeReasonCode p_runtimeModel p_contractVersion suff =
     runtime_model_str (runtime_model_of_params p_runtimeModel p_contractVersion) @ ''_'' @ suff"

section \<open>Lemmas\<close>

lemmas lifecycle_field_defs = deriveBotVaultLifecycleState_def Let_def

lemma derive_sel [simp]:
  "lr_status (deriveBotVaultLifecycleState i) = normalizeBotVaultStatus (li_status i)"
  "lr_executionStatus (deriveBotVaultLifecycleState i) = normalizeBotVaultExecutionStatus (li_executionStatus i)"
  "lr_isTerminal (deriveBotVaultLifecycleState i) \<longleftrightarrow> lr_state (deriveBotVaultLifecycleState i) = LS_closed"
  "lr_needsIntervention (deriveBotVaultLifecycleState i) \<longleftrightarrow> lr_state (deriveBotVaultLifecycleState i) = LS_error"
  by (simp_all add: lifecycle_field_defs)

lemma base_state_range: "derive_base_state s e m err \<notin> {LS_settling, LS_withdraw_pending}"
  by (simp add: derive_base_state_def)

lemma base_state_active:
  "derive_base_state s e (derive_mode s e) err = LS_execution_active
     \<longleftrightarrow> s = VS_ACTIVE \<and> e = ES_running \<and> err = ''''"
  by (cases s; cases e) (auto simp: derive_base_state_def derive_mode_def)

lemma base_state_closed: "derive_base_state s e m err = LS_closed \<longleftrightarrow> s = VS_CLOSED"
  by (simp add: derive_base_state_def)

lemma state_closed:
  "b = derive_base_state s e m err \<Longrightarrow> derive_state s b ov pt ps = LS_closed \<longleftrightarrow> s = VS_CLOSED"
  by (simp add: derive_state_def base_state_closed)

lemma state_active:
  "derive_state s b ov pt ps = LS_execution_active \<longleftrightarrow>
     s \<noteq> VS_CLOSED \<and> b = LS_execution_active \<and> ov \<noteq> Some ''settling'' \<and>
     \<not> (isPendingOnchainAction ps \<and>
        pt \<in> {Some ''claim_from_bot_vault'', Some ''close_bot_vault'', Some ''create_bot_vault''})"
  by (auto simp: derive_state_def BOT_WITHDRAW_PENDING_ACTION_TYPES_def split: option.splits)

lemma accepting_state:
  "derive_state s (derive_base_state s e (derive_mode s e) err) ov pt ps = LS_execution_active \<and>
     derive_mode s e = LM_normal \<longleftrightarrow>
     s = VS_ACTIVE \<and> e = ES_running \<and> err = '''' \<and> ov \<noteq> Some ''settling'' \<and>
     \<not> (isPendingOnchainAction ps \<and>
        pt \<in> {Some ''claim_from_bot_vault'', Some ''close_bot_vault'', Some ''create_bot_vault''})"
  unfolding state_active base_state_active by (auto simp: derive_mode_def)

lemma status_of_str [simp]: "normalizeBotVaultStatus (JStr (vault_status_str s)) = s"
  by (cases s; simp only: vault_status_str.simps; code_simp)

lemma exec_status_of_str [simp]: "normalizeBotVaultExecutionStatus (JStr (exec_status_str e)) = e"
  by (cases e; simp only: exec_status_str.simps; code_simp)

lemma can_transition_closed: "canTransitionBotVaultLifecycle LS_closed t \<longleftrightarrow> t = LS_closed"
  by (auto simp: canTransitionBotVaultLifecycle_def)

lemma can_transition_error:
  "canTransitionBotVaultLifecycle LS_error t \<longleftrightarrow> t \<in> {LS_error, LS_paused, LS_settling, LS_closed}"
  by (auto simp: canTransitionBotVaultLifecycle_def)

lemma closed_absorbing: "canTransitionBotVaultLifecycle\<^sup>*\<^sup>* LS_closed t \<Longrightarrow> t = LS_closed"
  by (induction rule: rtranclp_induct) (simp_all add: can_transition_closed)

lemma closed_reachable: "canTransitionBotVaultLifecycle\<^sup>*\<^sup>* s LS_closed"
proof -
  have step: "canTransitionBotVaultLifecycle s t \<Longrightarrow> canTransitionBotVaultLifecycle t LS_closed
      \<Longrightarrow> canTransitionBotVaultLifecycle\<^sup>*\<^sup>* s LS_closed" for t
    by (rule rtranclp.rtrancl_into_rtrancl) (rule r_into_rtranclp)
  show ?thesis
    by (cases s; rule step [of "if s = LS_closed then LS_closed else LS_paused"] step [of LS_error])
      (simp_all add: canTransitionBotVaultLifecycle_def)
qed

lemma override_normal: "nonempty (norm_lower (opt_val (readLifecycleOverrideState m))) = readLifecycleOverrideState m"
proof (cases "norm_lower (get m ''lifecycleOverrideState'') = ''''")
  case True
  then show ?thesis by (simp add: readLifecycleOverrideState_def)
next
  case False
  then show ?thesis by (simp add: readLifecycleOverrideState_def Let_def opt_val_def)
qed

lemma derive_cong:
  assumes "normalizeBotVaultStatus (li_status i) = normalizeBotVaultStatus (li_status j)"
    and "normalizeBotVaultExecutionStatus (li_executionStatus i) = normalizeBotVaultExecutionStatus (li_executionStatus j)"
    and "norm_string (li_executionLastError i) = norm_string (li_executionLastError j)"
    and "readPendingActionType (coalesce (li_pendingActionType i)
           (get (to_record (li_executionMetadata i)) ''pendingOnchainActionType'')) =
         lr_pendingActionType (deriveBotVaultLifecycleState j)"
    and "readPendingActionStatus (coalesce (li_pendingActionStatus i)
           (get (to_record (li_executionMetadata i)) ''pendingOnchainActionStatus'')) =
         lr_pendingActionStatus (deriveBotVaultLifecycleState j)"
    and "readLifecycleOverrideState (to_record (li_executionMetadata i)) =
         lr_lifecycleOverrideState (deriveBotVaultLifecycleState j)"
  shows "deriveBotVaultLifecycleState i = deriveBotVaultLifecycleState j"
  using assms by (simp add: deriveBotVaultLifecycleState_def Let_def)

lemma nonempty_lower_opt_val:
  "nonempty (norm_lower v) = x \<Longrightarrow>
   nonempty (norm_lower (coalesce (opt_val x) JUndef)) = x"
  by (cases "norm_lower v = ''''") (auto simp: opt_val_def coalesce_def)

lemma pending_type_normal:
  "readPendingActionType (coalesce (opt_val (lr_pendingActionType (deriveBotVaultLifecycleState i))) JUndef)
     = lr_pendingActionType (deriveBotVaultLifecycleState i)"
  by (simp add: lifecycle_field_defs readPendingActionType_def nonempty_lower_opt_val [OF refl])

lemma pending_status_normal:
  "readPendingActionStatus (coalesce (opt_val (lr_pendingActionStatus (deriveBotVaultLifecycleState i))) JUndef)
     = lr_pendingActionStatus (deriveBotVaultLifecycleState i)"
  by (simp add: lifecycle_field_defs readPendingActionStatus_def nonempty_lower_opt_val [OF refl])

lemma override_of_resolution:
  "nonempty (norm_lower (opt_val (lr_lifecycleOverrideState (deriveBotVaultLifecycleState i))))
     = lr_lifecycleOverrideState (deriveBotVaultLifecycleState i)"
  by (simp add: lifecycle_field_defs override_normal)

section \<open>Properties\<close>

text \<open>A bot vault accepts new orders exactly when its status column normalises to ACTIVE, its
  execution status to running, no execution error is recorded, no settling override is set and no
  claim, close or create action is pending on chain.\<close>

theorem accepts_orders_iff:
  "lr_canAcceptNewOrders (deriveBotVaultLifecycleState i) \<longleftrightarrow>
     normalizeBotVaultStatus (li_status i) = VS_ACTIVE \<and>
     normalizeBotVaultExecutionStatus (li_executionStatus i) = ES_running \<and>
     norm_string (li_executionLastError i) = '''' \<and>
     lr_lifecycleOverrideState (deriveBotVaultLifecycleState i) \<noteq> Some ''settling'' \<and>
     \<not> (isPendingOnchainAction (lr_pendingActionStatus (deriveBotVaultLifecycleState i)) \<and>
        lr_pendingActionType (deriveBotVaultLifecycleState i)
          \<in> {Some ''claim_from_bot_vault'', Some ''close_bot_vault'', Some ''create_bot_vault''})"
  by (simp add: lifecycle_field_defs accepting_state)

text \<open>C40: Reading back a row whose metadata, status columns and pending action are those the lifecycle
  object of the first derivation recorded yields the same resolution: the persisted lifecycle
  loses nothing.\<close>

theorem lifecycle_metadata_roundtrip:
  "let r = deriveBotVaultLifecycleState i;
       m = buildBotVaultLifecycleMetadata i u now;
       lc = to_record (get m ''lifecycle'')
   in deriveBotVaultLifecycleState
        \<lparr> li_status = get lc ''status'', li_executionStatus = get lc ''executionStatus'',
          li_executionLastError = li_executionLastError i, li_executionMetadata = JObj m,
          li_pendingActionType = get lc ''pendingActionType'',
          li_pendingActionStatus = get lc ''pendingActionStatus'' \<rparr> = r"
  unfolding Let_def
  by (rule derive_cong)
    (simp_all add: buildBotVaultLifecycleMetadata_def Let_def pending_type_normal pending_status_normal
      readLifecycleOverrideState_def [of "[_]"] override_of_resolution del: derive_sel(3,4))

text \<open>A derived state is terminal exactly when the status column says CLOSED; from closed the
  transition table leads nowhere else, while every state can still be closed in some steps, and a
  vault in error cannot go back to executing in one step.\<close>

theorem closed_terminal_and_reachable:
  "(lr_isTerminal (deriveBotVaultLifecycleState i) \<longleftrightarrow> normalizeBotVaultStatus (li_status i) = VS_CLOSED) \<and>
   (canTransitionBotVaultLifecycle\<^sup>*\<^sup>* LS_closed s \<longleftrightarrow> s = LS_closed) \<and>
   canTransitionBotVaultLifecycle\<^sup>*\<^sup>* s LS_closed \<and>
   \<not> canTransitionBotVaultLifecycle LS_error LS_execution_active"
proof -
  have "lr_state (deriveBotVaultLifecycleState i) = LS_closed \<longleftrightarrow> normalizeBotVaultStatus (li_status i) = VS_CLOSED"
    by (simp add: lifecycle_field_defs state_closed)
  then show ?thesis
    using closed_absorbing closed_reachable by (auto simp: can_transition_error)
qed

end
