(* ===== verification/FundingLifecycle.thy ===== *)
theory FundingLifecycle
  imports JsValue
begin

text \<open>
  The funding lifecycle of a bot vault (apps/api/src/vaults/botVaultV3.lifecycle.ts): its stages
  and legal transitions, the classification of mismatches between local and observed state, the
  status model, the stage derived from legacy columns, the search of a transition path and the
  patch that moves a row to a stage and records the path in its history. Rows are objects of
  JavaScript values; a decimal column is its decimal string.
\<close>

section \<open>Types\<close>

datatype funding_stage =
    FS_deployed | FS_funding_requested | FS_hyper_evm_confirmed | FS_hypercore_funded
  | FS_perp_margin_transferred | FS_hype_reserve_ready | FS_execution_ready
  | FS_failed | FS_recovery_required | FS_settled

definition all_stages :: "funding_stage list" where
  "all_stages = [FS_deployed, FS_funding_requested, FS_hyper_evm_confirmed, FS_hypercore_funded,
     FS_perp_margin_transferred, FS_hype_reserve_ready, FS_execution_ready,
     FS_failed, FS_recovery_required, FS_settled]"

fun stage_str :: "funding_stage \<Rightarrow> string" where
  "stage_str FS_deployed = ''deployed''"
| "stage_str FS_funding_requested = ''funding_requested''"
| "stage_str FS_hyper_evm_confirmed = ''hyper_evm_confirmed''"
| "stage_str FS_hypercore_funded = ''hypercore_funded''"
| "stage_str FS_perp_margin_transferred = ''perp_margin_transferred''"
| "stage_str FS_hype_reserve_ready = ''hype_reserve_ready''"
| "stage_str FS_execution_ready = ''execution_ready''"
| "stage_str FS_failed = ''failed''"
| "stage_str FS_recovery_required = ''recovery_required''"
| "stage_str FS_settled = ''settled''"

record funding_transition =
  ft_from :: "funding_stage option"
  ft_to :: funding_stage
  ft_source :: string
  ft_reason :: string
  ft_detail :: "string option"
  ft_synthetic :: bool
  ft_occurredAt :: string

record funding_state =
  fs_stage :: funding_stage
  fs_updatedAt :: "string option"
  fs_failureReason :: "string option"
  fs_recoveryReason :: "string option"
  fs_history :: "funding_transition list"

datatype mismatch_category =
    MC_local_ahead_of_observed_state | MC_observed_state_incomplete | MC_funding_verification_missing
  | MC_reserve_bootstrap_incomplete | MC_post_transfer_reconcile_failed | MC_manual_intervention_required

definition all_mismatch_categories :: "mismatch_category list" where
  "all_mismatch_categories = [MC_local_ahead_of_observed_state, MC_observed_state_incomplete,
     MC_funding_verification_missing, MC_reserve_bootstrap_incomplete,
     MC_post_transfer_reconcile_failed, MC_manual_intervention_required]"

fun mismatch_category_str :: "mismatch_category \<Rightarrow> string" where
  "mismatch_category_str MC_local_ahead_of_observed_state = ''local_ahead_of_observed_state''"
| "mismatch_category_str MC_observed_state_incomplete = ''observed_state_incomplete''"
| "mismatch_category_str MC_funding_verification_missing = ''funding_verification_missing''"
| "mismatch_category_str MC_reserve_bootstrap_incomplete = ''reserve_bootstrap_incomplete''"
| "mismatch_category_str MC_post_transfer_reconcile_failed = ''post_transfer_reconcile_failed''"
| "mismatch_category_str MC_manual_intervention_required = ''manual_intervention_required''"

datatype recovery_action = RA_none | RA_retry | RA_degrade | RA_recovery_required | RA_user_action_required

definition all_recovery_actions :: "recovery_action list" where
  "all_recovery_actions = [RA_none, RA_retry, RA_degrade, RA_recovery_required, RA_user_action_required]"

fun recovery_action_str :: "recovery_action \<Rightarrow> string" where
  "recovery_action_str RA_none = ''none''"
| "recovery_action_str RA_retry = ''retry''"
| "recovery_action_str RA_degrade = ''degrade''"
| "recovery_action_str RA_recovery_required = ''recovery_required''"
| "recovery_action_str RA_user_action_required = ''user_action_required''"

datatype recovery_hint =
  RH_none | RH_retry_reconcile | RH_degrade_to_observed_state | RH_run_recovery | RH_request_user_action

definition all_recovery_hints :: "recovery_hint list" where
  "all_recovery_hints = [RH_none, RH_retry_reconcile, RH_degrade_to_observed_state, RH_run_recovery,
     RH_request_user_action]"

fun recovery_hint_str :: "recovery_hint \<Rightarrow> string" where
  "recovery_hint_str RH_none = ''none''"
| "recovery_hint_str RH_retry_reconcile = ''retry_reconcile''"
| "recovery_hint_str RH_degrade_to_observed_state = ''degrade_to_observed_state''"
| "recovery_hint_str RH_run_recovery = ''run_recovery''"
| "recovery_hint_str RH_request_user_action = ''request_user_action''"

record mismatch_classification =
  mm_category :: mismatch_category
  mm_recoveryAction :: recovery_action
  mm_reason :: string
  mm_detail :: "string option"

datatype status_category =
    SC_pending | SC_retryable | SC_recovery_required | SC_user_action_required | SC_blocked
  | SC_execution_ready | SC_settled

definition all_status_categories :: "status_category list" where
  "all_status_categories = [SC_pending, SC_retryable, SC_recovery_required, SC_user_action_required,
     SC_blocked, SC_execution_ready, SC_settled]"

fun status_category_str :: "status_category \<Rightarrow> string" where
  "status_category_str SC_pending = ''pending''"
| "status_category_str SC_retryable = ''retryable''"
| "status_category_str SC_recovery_required = ''recovery_required''"
| "status_category_str SC_user_action_required = ''user_action_required''"
| "status_category_str SC_blocked = ''blocked''"
| "status_category_str SC_execution_ready = ''execution_ready''"
| "status_category_str SC_settled = ''settled''"

record status_descriptor =
  sd_category :: status_category
  sd_reason :: string
  sd_detail :: "string option"
  sd_mismatchCategory :: "mismatch_category option"
  sd_recoveryAction :: "recovery_action option"
  sd_recoveryHint :: "recovery_hint option"

section \<open>Enumerations read from strings\<close>

interpretation stage_enum: string_enum all_stages stage_str
  by (rule string_enumI, case_tac x) (simp_all add: all_stages_def, code_simp)

text \<open>The stages as a finite type: statements over all of them are decided by evaluation.\<close>

instantiation funding_stage :: enum
begin

definition enum_funding_stage :: "funding_stage list" where
  "enum_funding_stage = all_stages"

definition enum_all_funding_stage :: "(funding_stage \<Rightarrow> bool) \<Rightarrow> bool" where
  "enum_all_funding_stage P \<longleftrightarrow> list_all P all_stages"

definition enum_ex_funding_stage :: "(funding_stage \<Rightarrow> bool) \<Rightarrow> bool" where
  "enum_ex_funding_stage P \<longleftrightarrow> list_ex P all_stages"

instance
proof
  show "(UNIV :: funding_stage set) = set enum_class.enum"
    using stage_enum.all_listed by (auto simp: enum_funding_stage_def)
  show "distinct (enum_class.enum :: funding_stage list)"
    by (simp add: enum_funding_stage_def all_stages_def)
  show "enum_class.enum_all P = Ball UNIV P" for P :: "funding_stage \<Rightarrow> bool"
    using stage_enum.all_listed by (auto simp: enum_all_funding_stage_def list_all_iff)
  show "enum_class.enum_ex P = Bex UNIV P" for P :: "funding_stage \<Rightarrow> bool"
    using stage_enum.all_listed by (auto simp: enum_ex_funding_stage_def list_ex_iff)
qed

end

interpretation mismatch_enum: string_enum all_mismatch_categories mismatch_category_str
  by (rule string_enumI, case_tac x) (simp_all add: all_mismatch_categories_def, code_simp)

interpretation action_enum: string_enum all_recovery_actions recovery_action_str
  by (rule string_enumI, case_tac x) (simp_all add: all_recovery_actions_def, code_simp)

interpretation hint_enum: string_enum all_recovery_hints recovery_hint_str
  by (rule string_enumI, case_tac x) (simp_all add: all_recovery_hints_def, code_simp)

interpretation status_enum: string_enum all_status_categories status_category_str
  by (rule string_enumI, case_tac x) (simp_all add: all_status_categories_def, code_simp)

section \<open>The order of the stages and the legal transitions\<close>

definition LIFECYCLE_ORDER :: "funding_stage list" where
  "LIFECYCLE_ORDER = [FS_deployed, FS_funding_requested, FS_hyper_evm_confirmed, FS_hypercore_funded,
     FS_perp_margin_transferred, FS_hype_reserve_ready, FS_execution_ready, FS_settled]"

text \<open>The index of a stage in the order, none for failed and recovery_required.\<close>

definition progress_index :: "funding_stage \<Rightarrow> nat option" where
  "progress_index stage = map_of (zip LIFECYCLE_ORDER [0..<length LIFECYCLE_ORDER]) stage"

fun LEGAL_TRANSITIONS :: "funding_stage \<Rightarrow> funding_stage list" where
  "LEGAL_TRANSITIONS FS_deployed = [FS_funding_requested, FS_failed, FS_recovery_required, FS_settled]"
| "LEGAL_TRANSITIONS FS_funding_requested = [FS_hyper_evm_confirmed, FS_failed, FS_recovery_required, FS_settled]"
| "LEGAL_TRANSITIONS FS_hyper_evm_confirmed = [FS_hypercore_funded, FS_failed, FS_recovery_required, FS_settled]"
| "LEGAL_TRANSITIONS FS_hypercore_funded = [FS_perp_margin_transferred, FS_failed, FS_recovery_required, FS_settled]"
| "LEGAL_TRANSITIONS FS_perp_margin_transferred = [FS_hype_reserve_ready, FS_failed, FS_recovery_required, FS_settled]"
| "LEGAL_TRANSITIONS FS_hype_reserve_ready = [FS_execution_ready, FS_failed, FS_recovery_required, FS_settled]"
| "LEGAL_TRANSITIONS FS_execution_ready =
     [FS_hype_reserve_ready, FS_perp_margin_transferred, FS_failed, FS_recovery_required, FS_settled]"
| "LEGAL_TRANSITIONS FS_failed = [FS_funding_requested, FS_recovery_required, FS_settled]"
| "LEGAL_TRANSITIONS FS_recovery_required =
     [FS_funding_requested, FS_hyper_evm_confirmed, FS_hypercore_funded, FS_perp_margin_transferred,
      FS_hype_reserve_ready, FS_execution_ready, FS_failed, FS_settled]"
| "LEGAL_TRANSITIONS FS_settled = []"

section \<open>Normalisers\<close>

definition normalizeMismatchCategory :: "jsval \<Rightarrow> mismatch_category option" where
  "normalizeMismatchCategory value = read_enum all_mismatch_categories mismatch_category_str value"

definition normalizeRecoveryAction :: "jsval \<Rightarrow> recovery_action option" where
  "normalizeRecoveryAction value = read_enum all_recovery_actions recovery_action_str value"

definition normalizeRecoveryHint :: "jsval \<Rightarrow> recovery_hint option" where
  "normalizeRecoveryHint value = read_enum all_recovery_hints recovery_hint_str value"

definition normalizeStatusCategory :: "jsval \<Rightarrow> status_category option" where
  "normalizeStatusCategory value = read_enum all_status_categories status_category_str value"

definition normalizeStage :: "jsval \<Rightarrow> funding_stage option" where
  "normalizeStage value = read_enum all_stages stage_str value"

definition deriveRecoveryHint :: "jsval \<Rightarrow> jsval \<Rightarrow> recovery_hint option" where
  "deriveRecoveryHint p_mismatchCategory p_recoveryAction =
     (let category = normalizeMismatchCategory p_mismatchCategory;
          recoveryAction = normalizeRecoveryAction p_recoveryAction
      in if category = None \<and> recoveryAction = None then None
         else if recoveryAction = Some RA_user_action_required then Some RH_request_user_action
         else if recoveryAction = Some RA_recovery_required then Some RH_run_recovery
         else if recoveryAction = Some RA_degrade then Some RH_degrade_to_observed_state
         else if recoveryAction = Some RA_retry then Some RH_retry_reconcile
         else if recoveryAction = Some RA_none then Some RH_none
         else if category = Some MC_manual_intervention_required then Some RH_run_recovery
         else if category = Some MC_local_ahead_of_observed_state then Some RH_run_recovery
         else if category = Some MC_observed_state_incomplete
              \<or> category = Some MC_funding_verification_missing
              \<or> category = Some MC_reserve_bootstrap_incomplete
              \<or> category = Some MC_post_transfer_reconcile_failed then Some RH_retry_reconcile
         else None)"

section \<open>Mismatch classification\<close>

definition includes_any :: "string \<Rightarrow> string list \<Rightarrow> bool" where
  "includes_any haystack needles \<longleftrightarrow> list_ex (str_includes haystack) needles"

text \<open>The lowered text \<open>`${reason} ${detail ?? ""} ${failureClass ?? ""}`\<close>.\<close>

definition mismatch_haystack :: "string \<Rightarrow> string option \<Rightarrow> string option \<Rightarrow> string" where
  "mismatch_haystack reason detail failureClass =
     str_lower (reason @ '' '' @ opt_get detail '''' @ '' '' @ opt_get failureClass '''')"

definition manual_words :: "string list" where
  "manual_words = [''user_action'', ''manual'', ''hypercore_exit_gas_usdc_missing'',
     ''hypercore_exit_gas_external_top_up_required'', ''hypercore_exit_gas_budget_too_low'',
     ''hypercore_exit_gas_order_not_allowed'', ''hypercore_exit_corewriter_missing'',
     ''hypercore_exit_gas_market_client_missing'', ''hypercore_exit_gas_market_missing'',
     ''core_spot_usdc_missing'', ''budget_too_low'', ''order_not_allowed'', ''corewriter_missing'',
     ''market_client_missing'', ''market_missing'', ''unknown_failure'']"

definition deriveMismatchCategory ::
  "string \<Rightarrow> string option \<Rightarrow> string option \<Rightarrow> mismatch_category option \<Rightarrow> mismatch_category option" where
  "deriveMismatchCategory reason detail failureClass defaultCategory =
     (let haystack = mismatch_haystack reason detail failureClass
      in if includes_any haystack manual_words then Some MC_manual_intervention_required
         else if str_includes haystack ''post_reconcile'' then Some MC_post_transfer_reconcile_failed
         else if str_includes haystack ''hype_reserve'' then Some MC_reserve_bootstrap_incomplete
         else if includes_any haystack [''counterevidence'', ''local_ahead'', ''downgraded'', ''recovery_required'']
              then Some MC_local_ahead_of_observed_state
         else if includes_any haystack
                   [''funding_verification'', ''funding_verified'', ''margin_funding'', ''perp_margin'',
                    ''transfer_not'', ''transfer_observed'', ''final_state'', ''perp_state'', ''pause'']
              then Some MC_funding_verification_missing
         else if defaultCategory \<noteq> None then defaultCategory
         else if includes_any haystack
                   [''unavailable'', ''unverified'', ''visibility_pending'', ''pending'', ''not_visible'',
                    ''snapshot_missing'', ''read''] then Some MC_observed_state_incomplete
         else None)"

definition deriveMismatchRecoveryAction ::
  "mismatch_category \<Rightarrow> string \<Rightarrow> string option \<Rightarrow> string option \<Rightarrow> recovery_action" where
  "deriveMismatchRecoveryAction category reason detail failureClass =
     (let haystack = mismatch_haystack reason detail failureClass
      in case category of
           MC_manual_intervention_required \<Rightarrow>
             (if includes_any haystack
                   [''user_action'', ''hypercore_exit_gas_usdc_missing'',
                    ''hypercore_exit_gas_external_top_up_required'', ''hypercore_exit_gas_budget_too_low'',
                    ''core_spot_usdc_missing'', ''budget_too_low'']
              then RA_user_action_required else RA_recovery_required)
         | MC_post_transfer_reconcile_failed \<Rightarrow>
             (if str_includes haystack ''recovery_required'' then RA_recovery_required else RA_retry)
         | MC_reserve_bootstrap_incomplete \<Rightarrow>
             (if failureClass = Some ''user_action_required'' then RA_user_action_required
              else if failureClass = Some ''recovery_required'' then RA_recovery_required
              else RA_retry)
         | MC_local_ahead_of_observed_state \<Rightarrow>
             (if str_includes haystack ''execution_ready_counterevidence'' \<or> str_includes haystack ''downgraded''
              then RA_degrade else RA_recovery_required)
         | MC_observed_state_incomplete \<Rightarrow> RA_retry
         | MC_funding_verification_missing \<Rightarrow> RA_retry)"

definition classifyMismatch :: "jsval \<Rightarrow> jsval \<Rightarrow> jsval \<Rightarrow> jsval \<Rightarrow> mismatch_classification option" where
  "classifyMismatch p_reason p_detail p_failureClass p_defaultCategory =
     (let reason = to_nullable_string p_reason;
          detail = to_nullable_string p_detail;
          failureClass = to_nullable_string p_failureClass;
          defaultCategory = normalizeMismatchCategory p_defaultCategory
      in if reason = None \<and> detail = None \<and> failureClass = None \<and> defaultCategory = None then None
         else case deriveMismatchCategory (opt_get reason '''') detail failureClass defaultCategory of
                None \<Rightarrow> None
              | Some category \<Rightarrow>
                  Some \<lparr> mm_category = category,
                         mm_recoveryAction =
                           deriveMismatchRecoveryAction category (opt_get reason '''') detail failureClass,
                         mm_reason = opt_get reason (mismatch_category_str category),
                         mm_detail = detail \<rparr>)"

section \<open>The status model\<close>

text \<open>\<open>ready\<close> is true, false, or null for any other value.\<close>

record status_params =
  sp_ready :: "bool option"
  sp_lifecycleStage :: jsval
  sp_readinessStage :: jsval
  sp_reconciliationStatus :: jsval
  sp_issueSeverity :: jsval
  sp_reason :: jsval
  sp_detail :: jsval
  sp_mismatch :: "mismatch_classification option"
  sp_mismatchCategory :: jsval
  sp_recoveryAction :: jsval
  sp_fallbackCategory :: jsval

definition lower_if_string :: "jsval \<Rightarrow> string option" where
  "lower_if_string v = map_option (\<lambda>s. str_lower (str_trim s)) (as_str v)"

definition present_strings :: "string option list \<Rightarrow> string list" where
  "present_strings vs = filter (\<lambda>s. s \<noteq> '''') (map the (filter (\<lambda>v. v \<noteq> None) vs))"

definition status_haystack :: "string option list \<Rightarrow> string" where
  "status_haystack vs = str_lower (str_join '' '' (present_strings vs))"

definition status_category_of ::
  "bool option \<Rightarrow> funding_stage option \<Rightarrow> string option \<Rightarrow> string option \<Rightarrow> string option
    \<Rightarrow> mismatch_category option \<Rightarrow> recovery_action option \<Rightarrow> status_category option \<Rightarrow> string \<Rightarrow> status_category" where
  "status_category_of ready lifecycleStage readinessStage reconciliationStatus issueSeverity
     mismatchCategory recoveryAction fallbackCategory haystack =
     (if lifecycleStage = Some FS_settled \<or> str_includes haystack ''settled'' then SC_settled
      else if ready = Some True then SC_execution_ready
      else if recoveryAction = Some RA_user_action_required
           \<or> includes_any haystack
               [''user_action_required'', ''agent_setup_required'', ''core_spot_usdc_missing'', ''budget_too_low'']
           then SC_user_action_required
      else if recoveryAction = Some RA_recovery_required \<or> recoveryAction = Some RA_degrade
           \<or> mismatchCategory = Some MC_manual_intervention_required
           \<or> lifecycleStage = Some FS_recovery_required \<or> lifecycleStage = Some FS_failed
           \<or> str_includes haystack ''recovery_required'' then SC_recovery_required
      else if recoveryAction = Some RA_retry
           \<or> includes_any haystack
               [''retryable'', ''retry'', ''unavailable'', ''visibility_pending'', ''not_visible'',
                ''snapshot_missing'', ''read_failure''] then SC_retryable
      else if reconciliationStatus = Some ''blocking'' \<or> issueSeverity = Some ''blocking''
           \<or> readinessStage = Some ''blocked''
           \<or> includes_any haystack [''blocked'', ''close_only'', ''closed'', ''contradiction''] then SC_blocked
      else if ready \<noteq> Some False \<and> lifecycleStage = Some FS_execution_ready then SC_execution_ready
      else if fallbackCategory \<noteq> None then the fallbackCategory
      else if readinessStage \<in> {Some ''configuration'', Some ''funding'', Some ''transfer'', Some ''verification''}
           \<or> reconciliationStatus = Some ''warning''
           \<or> includes_any haystack [''pending'', ''not_confirmed'', ''not_started'']
           \<or> lifecycleStage \<in> {Some FS_deployed, Some FS_funding_requested, Some FS_hyper_evm_confirmed,
                Some FS_hypercore_funded, Some FS_perp_margin_transferred, Some FS_hype_reserve_ready}
           then SC_pending
      else SC_blocked)"

definition classifyStatus :: "status_params \<Rightarrow> status_descriptor" where
  "classifyStatus p =
     (let lifecycleStage = normalizeStage (sp_lifecycleStage p);
          readinessStage = lower_if_string (sp_readinessStage p);
          reconciliationStatus = lower_if_string (sp_reconciliationStatus p);
          issueSeverity = lower_if_string (sp_issueSeverity p);
          reason = to_nullable_string (sp_reason p);
          detail = to_nullable_string (sp_detail p);
          mismatchCategory = opt_or (map_option mm_category (sp_mismatch p))
                               (normalizeMismatchCategory (sp_mismatchCategory p));
          recoveryAction = opt_or (map_option mm_recoveryAction (sp_mismatch p))
                             (normalizeRecoveryAction (sp_recoveryAction p));
          recoveryHint = deriveRecoveryHint
                           (opt_val (map_option mismatch_category_str mismatchCategory))
                           (opt_val (map_option recovery_action_str recoveryAction));
          fallbackCategory = normalizeStatusCategory (sp_fallbackCategory p);
          haystack = status_haystack
            [reason, detail, map_option mismatch_category_str mismatchCategory,
             map_option recovery_action_str recoveryAction, readinessStage, reconciliationStatus];
          category = status_category_of (sp_ready p) lifecycleStage readinessStage reconciliationStatus
            issueSeverity mismatchCategory recoveryAction fallbackCategory haystack
      in \<lparr> sd_category = category, sd_reason = opt_get reason (status_category_str category),
           sd_detail = detail, sd_mismatchCategory = mismatchCategory,
           sd_recoveryAction = recoveryAction, sd_recoveryHint = recoveryHint \<rparr>)"

section \<open>The stage of a row\<close>

definition USD_EPSILON :: jsnum where
  "USD_EPSILON = fl (1 / 1000000)"

definition toNonNegativeNumber :: "jsval \<Rightarrow> jsnum" where
  "toNonNegativeNumber value =
     (let parsed = js_number value
      in if is_finite parsed \<and> n_le (Fin 0) parsed then parsed else Fin 0)"

definition normalizeTransition :: "jsval \<Rightarrow> funding_transition option" where
  "normalizeTransition value =
     (let record = to_record value
      in case normalizeStage (get record ''to'') of
           None \<Rightarrow> None
         | Some to \<Rightarrow>
             (case (to_nullable_string (get record ''source''), to_nullable_string (get record ''reason''),
                    to_nullable_string (get record ''occurredAt'')) of
                (Some source, Some reason, Some occurredAt) \<Rightarrow>
                  Some \<lparr> ft_from = normalizeStage (get record ''from''), ft_to = to, ft_source = source,
                         ft_reason = reason, ft_detail = to_nullable_string (get record ''detail''),
                         ft_synthetic = (get record ''synthetic'' = JBool True), ft_occurredAt = occurredAt \<rparr>
              | _ \<Rightarrow> None))"

definition isEconomicallyClosed :: "jsobj \<Rightarrow> bool" where
  "isEconomicallyClosed row =
     (let fundingStatus = norm_lower (get row ''fundingStatus'');
          hypercoreFundingStatus = norm_lower (get row ''hypercoreFundingStatus'');
          executionStatus = norm_lower (get row ''executionStatus'');
          chainStatus = norm_upper (get row ''status'')
      in if fundingStatus = ''settled'' \<or> hypercoreFundingStatus = ''withdrawn'' \<or> executionStatus = ''closed''
         then True
         else chainStatus = ''CLOSED''
              \<or> (chainStatus = ''CLOSE_ONLY''
                 \<and> n_le (toNonNegativeNumber (get row ''availableUsd'')) USD_EPSILON
                 \<and> n_lt USD_EPSILON (toNonNegativeNumber (get row ''principalReturned''))))"

definition deriveLegacyStage :: "jsobj \<Rightarrow> funding_stage" where
  "deriveLegacyStage row =
     (let metadata = to_record (get row ''executionMetadata'');
          fundingIntent = to_record (get metadata ''fundingIntent'');
          marginAddFinalization = to_record (get metadata ''marginAddFinalization'');
          isV4 = (norm_lower (get metadata ''onchainContractVersion'') = ''v4'');
          fundingStatus = norm_lower (get row ''fundingStatus'');
          hypercoreFundingStatus = norm_lower (get row ''hypercoreFundingStatus'');
          chainStatus = norm_upper (get row ''status'');
          fundingIntentStatus = norm_lower (get fundingIntent ''actionStatus'');
          fundingIntentTimeoutReason = to_nullable_string (get fundingIntent ''timeoutReason'');
          fundingIntentTimedOutAt = to_nullable_string (get fundingIntent ''timedOutAt'');
          verificationState = norm_lower (get marginAddFinalization ''verificationState'');
          verificationBlockingReason = to_nullable_string (get marginAddFinalization ''verificationBlockingReason'');
          hypeReserveState = norm_lower
            (coalesce (get marginAddFinalization ''hypeReserveState'') (get metadata ''hypeReserveState''));
          autoHypercoreFundingStatus = norm_lower (get metadata ''autoHypercoreFundingStatus'');
          hasFundingRequested =
            (fundingStatus = ''hyper_evm_funding_requested'' \<or> fundingIntentStatus = ''prepared''
             \<or> fundingIntentStatus = ''submitted'' \<or> fundingIntentStatus = ''confirmed'');
          hasOnchainFundingEvidence =
            (fundingStatus = ''hyper_evm_confirmed_onchain'' \<or> fundingStatus = ''hyper_evm_funded''
             \<or> hypercoreFundingStatus = ''pending'' \<or> hypercoreFundingStatus = ''funded''
             \<or> hypercoreFundingStatus = ''withdrawn'' \<or> chainStatus = ''FUNDED'' \<or> chainStatus = ''PAUSED''
             \<or> chainStatus = ''CLOSE_ONLY'' \<or> chainStatus = ''CLOSED'')
      in if isEconomicallyClosed row then FS_settled
         else if fundingIntentStatus = ''failed'' \<and> \<not> hasOnchainFundingEvidence then FS_failed
         else if (fundingIntentStatus = ''timed_out'' \<or> fundingIntentTimeoutReason \<noteq> None
                  \<or> fundingIntentTimedOutAt \<noteq> None) \<and> \<not> hasOnchainFundingEvidence then FS_recovery_required
         else if verificationState = ''funding_verified'' then
           (if isV4 then (if hypeReserveState = ''ready'' then FS_execution_ready else FS_hype_reserve_ready)
            else FS_execution_ready)
         else if isV4 \<and> hypeReserveState = ''ready'' then FS_hype_reserve_ready
         else if hypercoreFundingStatus = ''funded'' then FS_hypercore_funded
         else if verificationState = ''transfer_observed'' \<or> verificationState = ''transfer_submitted'' then
           (if verificationBlockingReason \<noteq> None then FS_recovery_required else FS_perp_margin_transferred)
         else if autoHypercoreFundingStatus = ''confirmed''
              \<or> to_nullable_string (get metadata ''autoHypercoreFundingTxHash'') \<noteq> None
              \<or> to_nullable_string (get marginAddFinalization ''depositTxHash'') \<noteq> None
              \<or> hypercoreFundingStatus = ''pending'' then FS_hypercore_funded
         else if hasOnchainFundingEvidence then FS_hyper_evm_confirmed
         else if hasFundingRequested then FS_funding_requested
         else FS_deployed)"

section \<open>Reading and creating the lifecycle state\<close>

text \<open>The state as the JSON object the row stores, and back.\<close>

definition transition_val :: "funding_transition \<Rightarrow> jsval" where
  "transition_val t = JObj
     [(''from'', opt_val (map_option stage_str (ft_from t))), (''to'', JStr (stage_str (ft_to t))),
      (''source'', JStr (ft_source t)), (''reason'', JStr (ft_reason t)), (''detail'', opt_val (ft_detail t)),
      (''synthetic'', JBool (ft_synthetic t)), (''occurredAt'', JStr (ft_occurredAt t))]"

definition lifecycle_val :: "funding_state \<Rightarrow> jsval" where
  "lifecycle_val s = JObj
     [(''stage'', JStr (stage_str (fs_stage s))), (''updatedAt'', opt_val (fs_updatedAt s)),
      (''failureReason'', opt_val (fs_failureReason s)), (''recoveryReason'', opt_val (fs_recoveryReason s)),
      (''history'', JArr (map transition_val (fs_history s)))]"

text \<open>\<open>occurredAt\<close> is an ISO string; the default \<open>new Date()\<close> is a clock reading of the caller.\<close>

definition createFundingLifecycleMetadata :: "funding_stage \<Rightarrow> string \<Rightarrow> jsobj" where
  "createFundingLifecycleMetadata stage occurredAt =
     [(''fundingLifecycle'', lifecycle_val
        \<lparr> fs_stage = stage, fs_updatedAt = Some occurredAt, fs_failureReason = None,
          fs_recoveryReason = None, fs_history = [] \<rparr>)]"

definition readFundingLifecycleState :: "jsval \<Rightarrow> funding_state" where
  "readFundingLifecycleState row =
     (let normalizedRow = to_record row;
          metadata = to_record (get normalizedRow ''executionMetadata'');
          lifecycle = to_record (get metadata ''fundingLifecycle'')
      in \<lparr> fs_stage = opt_get (normalizeStage (get lifecycle ''stage'')) (deriveLegacyStage normalizedRow),
           fs_updatedAt = to_nullable_string (get lifecycle ''updatedAt''),
           fs_failureReason = to_nullable_string (get lifecycle ''failureReason''),
           fs_recoveryReason = to_nullable_string (get lifecycle ''recoveryReason''),
           fs_history = (case as_array (get lifecycle ''history'') of
                           Some items \<Rightarrow> List.map_filter normalizeTransition items | None \<Rightarrow> []) \<rparr>)"

definition getFundingLifecycleStage :: "jsval \<Rightarrow> funding_stage" where
  "getFundingLifecycleStage row = fs_stage (readFundingLifecycleState row)"

definition getProgressIndex :: "funding_stage \<Rightarrow> int" where
  "getProgressIndex stage = (case progress_index stage of Some i \<Rightarrow> int i | None \<Rightarrow> - 1)"

definition compareFundingLifecycleStage :: "funding_stage \<Rightarrow> funding_stage \<Rightarrow> int" where
  "compareFundingLifecycleStage left right = getProgressIndex left - getProgressIndex right"

definition hasFundingReadiness :: "jsval \<Rightarrow> bool" where
  "hasFundingReadiness row \<longleftrightarrow> getFundingLifecycleStage row = FS_execution_ready"

section \<open>The path search\<close>

text \<open>
  One turn of the breadth-first search: the loop over the successors of a stage, which returns
  the path as soon as it meets the target, and else the queue and the visited set after it.
\<close>

type_synonym path_queue = "(funding_stage \<times> funding_stage list) list"

fun expand ::
  "funding_stage \<Rightarrow> funding_stage list \<Rightarrow> funding_stage list \<Rightarrow> path_queue \<Rightarrow> funding_stage list
    \<Rightarrow> funding_stage list + (path_queue \<times> funding_stage list)" where
  "expand to path [] queue visited = Inr (queue, visited)"
| "expand to path (candidate # cs) queue visited =
     (if candidate \<in> set visited then expand to path cs queue visited
      else if candidate = to then Inl (path @ [candidate])
      else expand to path cs (queue @ [(candidate, path @ [candidate])]) (candidate # visited))"

lemma expand_measure:
  "expand to path cs queue visited = Inr (queue', visited') \<Longrightarrow>
   length queue' + card (- set visited') \<le> length queue + card (- set visited)"
proof (induction cs arbitrary: queue visited)
  case (Cons c cs)
  show ?case
  proof (cases "c \<in> set visited \<or> c = to")
    case True
    then show ?thesis using Cons by (auto split: if_splits)
  next
    case False
    then have IH: "length queue' + card (- set visited') \<le>
        Suc (length queue) + card (- set (c # visited))"
      using Cons.IH [of "queue @ [(c, path @ [c])]" "c # visited"] Cons.prems by simp
    have "- set (c # visited) = - set visited - {c}" by auto
    moreover have "c \<in> - set visited" using False by simp
    ultimately have "card (- set (c # visited)) < card (- set visited)"
      by (metis card_Diff1_less finite)
    with IH show ?thesis by simp
  qed
qed simp

function search_path :: "funding_stage \<Rightarrow> path_queue \<Rightarrow> funding_stage list \<Rightarrow> funding_stage list option" where
  "search_path to [] visited = None"
| "search_path to ((stage, path) # queue) visited =
     (case expand to path (LEGAL_TRANSITIONS stage) queue visited of
        Inl found \<Rightarrow> Some found
      | Inr (queue', visited') \<Rightarrow> search_path to queue' visited')"
  by pat_completeness auto
termination
  by (relation "measure (\<lambda>(to, queue, visited). length queue + card (- set visited))")
    (auto dest!: sym [of "Inr _"] expand_measure)

definition findFundingLifecyclePath :: "funding_stage \<Rightarrow> funding_stage \<Rightarrow> funding_stage list option" where
  "findFundingLifecyclePath from to =
     (if from = to then Some [from]
      else if from = FS_execution_ready \<and> to = FS_perp_margin_transferred
        then Some [FS_execution_ready, FS_hype_reserve_ready, FS_perp_margin_transferred]
      else if from = FS_execution_ready \<and> to = FS_hype_reserve_ready
        then Some [FS_execution_ready, FS_hype_reserve_ready]
      else if from = FS_hype_reserve_ready \<and> to = FS_perp_margin_transferred
        then Some [FS_hype_reserve_ready, FS_perp_margin_transferred]
      else case (progress_index from, progress_index to) of
             (Some fromProgress, Some toProgress) \<Rightarrow>
               (if toProgress < fromProgress then None
                else Some (drop fromProgress (take (toProgress + 1) LIFECYCLE_ORDER)))
           | _ \<Rightarrow> search_path to [(from, [from])] [from])"

definition illegal_transition_msg :: "funding_stage \<Rightarrow> funding_stage \<Rightarrow> string" where
  "illegal_transition_msg from to =
     ''bot_vault_v3_illegal_funding_lifecycle_transition:'' @ stage_str from @ ''->'' @ stage_str to"

definition assertFundingLifecycleTransition :: "funding_stage \<Rightarrow> funding_stage \<Rightarrow> string + unit" where
  "assertFundingLifecycleTransition from to =
     (case findFundingLifecyclePath from to of
        None \<Rightarrow> Inl (illegal_transition_msg from to)
      | Some _ \<Rightarrow> Inr ())"

section \<open>The transition patch\<close>

definition resolveLegacyExecutionStatusForStage :: "funding_stage \<Rightarrow> jsval \<Rightarrow> string" where
  "resolveLegacyExecutionStatusForStage stage current =
     (if stage = FS_settled then ''closed''
      else if norm_lower current \<in> set [''running'', ''paused'', ''close_only'', ''closed'', ''error'']
        then norm_lower current
      else ''created'')"

definition legacy_columns :: "string \<Rightarrow> string \<Rightarrow> string \<Rightarrow> jsobj" where
  "legacy_columns fundingStatus hypercoreFundingStatus executionStatus =
     [(''fundingStatus'', JStr fundingStatus), (''hypercoreFundingStatus'', JStr hypercoreFundingStatus),
      (''executionStatus'', JStr executionStatus)]"

definition buildLegacyStatusPatch :: "funding_stage \<Rightarrow> jsobj \<Rightarrow> jsobj" where
  "buildLegacyStatusPatch stage row =
     (let executionStatus = resolveLegacyExecutionStatusForStage stage (get row ''executionStatus'')
      in case stage of
           FS_failed \<Rightarrow> []
         | FS_recovery_required \<Rightarrow> []
         | FS_deployed \<Rightarrow> legacy_columns ''deployed'' ''not_funded'' executionStatus
         | FS_funding_requested \<Rightarrow> legacy_columns ''hyper_evm_funding_requested'' ''not_funded'' executionStatus
         | FS_hyper_evm_confirmed \<Rightarrow> legacy_columns ''hyper_evm_confirmed_onchain'' ''not_funded'' executionStatus
         | FS_hypercore_funded \<Rightarrow> legacy_columns ''hyper_evm_confirmed_onchain'' ''pending'' executionStatus
         | FS_perp_margin_transferred \<Rightarrow> legacy_columns ''hyper_evm_confirmed_onchain'' ''pending'' executionStatus
         | FS_hype_reserve_ready \<Rightarrow> legacy_columns ''hyper_evm_confirmed_onchain'' ''pending'' executionStatus
         | FS_execution_ready \<Rightarrow> legacy_columns ''hyper_evm_confirmed_onchain'' ''funded'' executionStatus
         | FS_settled \<Rightarrow> legacy_columns ''settled'' ''withdrawn'' ''closed'')"

record patch_params =
  pp_row :: jsval
  pp_targetStage :: funding_stage
  pp_source :: string
  pp_reason :: string
  pp_detail :: jsval
  pp_occurredAt :: jsval
  pp_metadataPatch :: jsobj

text \<open>The loop over the path after its first stage: every step but the last is synthetic.\<close>

fun path_steps :: "patch_params \<Rightarrow> string \<Rightarrow> funding_stage \<Rightarrow> funding_stage list \<Rightarrow> funding_transition list" where
  "path_steps p occurredAtIso previous [] = []"
| "path_steps p occurredAtIso previous (next # rest) =
     \<lparr> ft_from = Some previous, ft_to = next, ft_source = pp_source p, ft_reason = pp_reason p,
       ft_detail = (if rest = [] then to_nullable_string (pp_detail p)
                    else Some ''recovered_intermediate_transition''),
       ft_synthetic = (rest \<noteq> []), ft_occurredAt = occurredAtIso \<rparr>
     # path_steps p occurredAtIso next rest"

definition occurred_at_iso :: "patch_params \<Rightarrow> string \<Rightarrow> string" where
  "occurred_at_iso p now = opt_get (to_nullable_string (pp_occurredAt p)) now"

definition next_lifecycle_state :: "patch_params \<Rightarrow> string \<Rightarrow> funding_state \<Rightarrow> funding_stage list \<Rightarrow> funding_state" where
  "next_lifecycle_state p occurredAtIso current path =
     (let target = pp_targetStage p;
          failureReason = (if fs_stage current = FS_failed \<and> target \<noteq> FS_failed then None
                           else fs_failureReason current);
          recoveryReason = (if fs_stage current = FS_recovery_required \<and> target \<noteq> FS_recovery_required then None
                            else fs_recoveryReason current)
      in \<lparr> fs_stage = target, fs_updatedAt = Some occurredAtIso,
           fs_failureReason = (if target = FS_failed then Some (pp_reason p) else failureReason),
           fs_recoveryReason = (if target = FS_recovery_required then Some (pp_reason p) else recoveryReason),
           fs_history = fs_history current @ path_steps p occurredAtIso (fs_stage current) (tl path) \<rparr>)"

definition buildTransitionPatch :: "patch_params \<Rightarrow> string \<Rightarrow> string + jsobj" where
  "buildTransitionPatch p now =
     (let row = to_record (pp_row p);
          metadata = to_record (get row ''executionMetadata'');
          current = readFundingLifecycleState (JObj row);
          occurredAtIso = occurred_at_iso p now
      in case findFundingLifecyclePath (fs_stage current) (pp_targetStage p) of
           None \<Rightarrow> Inl (illegal_transition_msg (fs_stage current) (pp_targetStage p))
         | Some path \<Rightarrow>
             Inr (spread (buildLegacyStatusPatch (pp_targetStage p) row)
                    [(''executionMetadata'', JObj
                       (spread (spread metadata (pp_metadataPatch p))
                          [(''fundingLifecycle'',
                             lifecycle_val (next_lifecycle_state p occurredAtIso current path))]))]))"

section \<open>Lemmas on paths\<close>

text \<open>
  The steps a path may take: the table's, and the downgrade from hype_reserve_ready to
  perp_margin_transferred, which the table lacks and the search grants.
\<close>

definition allowed_step :: "funding_stage \<Rightarrow> funding_stage \<Rightarrow> bool" where
  "allowed_step a b \<longleftrightarrow> b \<in> set (LEGAL_TRANSITIONS a) \<or> (a = FS_hype_reserve_ready \<and> b = FS_perp_margin_transferred)"

definition valid_path :: "funding_stage \<Rightarrow> funding_stage \<Rightarrow> funding_stage list \<Rightarrow> bool" where
  "valid_path a b p \<longleftrightarrow> p \<noteq> [] \<and> hd p = a \<and> last p = b \<and> successively allowed_step p \<and> distinct p"

lemma found_path_valid: "findFundingLifecyclePath a b = Some p \<Longrightarrow> valid_path a b p"
proof -
  have "\<forall>a b. case findFundingLifecyclePath a b of None \<Rightarrow> True | Some p \<Rightarrow> valid_path a b p"
    by code_simp
  from spec [OF spec [OF this, of a], of b]
  show "findFundingLifecyclePath a b = Some p \<Longrightarrow> valid_path a b p" by simp
qed

lemma no_path_iff:
  "findFundingLifecyclePath a b = None \<longleftrightarrow>
     a \<noteq> b \<and> (a = FS_settled \<or> b = FS_deployed \<or>
       (getProgressIndex b \<noteq> - 1 \<and> getProgressIndex b < getProgressIndex a \<and>
        (a, b) \<notin> {(FS_execution_ready, FS_perp_margin_transferred), (FS_execution_ready, FS_hype_reserve_ready),
                   (FS_hype_reserve_ready, FS_perp_margin_transferred)}))"
proof -
  have t: "\<forall>a b. findFundingLifecyclePath a b = None \<longleftrightarrow>
     a \<noteq> b \<and> (a = FS_settled \<or> b = FS_deployed \<or>
       (getProgressIndex b \<noteq> - 1 \<and> getProgressIndex b < getProgressIndex a \<and>
        (a, b) \<notin> set [(FS_execution_ready, FS_perp_margin_transferred), (FS_execution_ready, FS_hype_reserve_ready),
                   (FS_hype_reserve_ready, FS_perp_margin_transferred)]))"
    by code_simp
  show ?thesis
    by (rule spec [OF spec [OF t [unfolded set_simps]]])
qed

lemma settled_path: "findFundingLifecyclePath FS_settled b = Some p \<Longrightarrow> b = FS_settled"
  using no_path_iff [of FS_settled b] by (cases "b = FS_settled") auto

section \<open>Lemmas on reading back\<close>

definition clean_str :: "string \<Rightarrow> bool" where
  "clean_str s \<longleftrightarrow> str_trim s = s \<and> s \<noteq> []"

definition clean_opt :: "string option \<Rightarrow> bool" where
  "clean_opt x \<longleftrightarrow> (case x of None \<Rightarrow> True | Some s \<Rightarrow> clean_str s)"

definition clean_transition :: "funding_transition \<Rightarrow> bool" where
  "clean_transition t \<longleftrightarrow> clean_str (ft_source t) \<and> clean_str (ft_reason t) \<and> clean_str (ft_occurredAt t)
     \<and> clean_opt (ft_detail t)"

lemma clean_nullable [simp]: "clean_opt (to_nullable_string v)"
  by (cases "norm_string v = []") (simp_all add: clean_opt_def to_nullable_string_def clean_str_def)

lemma nullable_clean: "clean_str s \<Longrightarrow> to_nullable_string (JStr s) = Some s"
  by (simp add: clean_str_def to_nullable_string_def)

lemma nullable_clean_opt: "clean_opt x \<Longrightarrow> to_nullable_string (opt_val x) = x"
  by (cases x) (simp_all add: clean_opt_def opt_val_def to_nullable_string_def clean_str_def)

lemma nullable_Some_clean: "to_nullable_string v = Some s \<Longrightarrow> clean_str s"
  using clean_nullable [of v] by (simp add: clean_opt_def)

lemma normalize_transition_clean: "normalizeTransition v = Some t \<Longrightarrow> clean_transition t"
  by (auto simp: normalizeTransition_def Let_def clean_transition_def
      intro: nullable_Some_clean split: option.splits)

lemma stage_of_str [simp]: "normalizeStage (JStr (stage_str s)) = Some s"
  by (simp add: normalizeStage_def)

lemma stage_of_opt [simp]: "normalizeStage (opt_val (map_option stage_str x)) = x"
  by (simp add: normalizeStage_def)

lemma normalize_transition_val: "clean_transition t \<Longrightarrow> normalizeTransition (transition_val t) = Some t"
  by (simp add: clean_transition_def normalizeTransition_def transition_val_def nullable_clean nullable_clean_opt)

lemma map_filter_inverse:
  "(\<And>x. x \<in> set xs \<Longrightarrow> f (g x) = Some x) \<Longrightarrow> List.map_filter f (map g xs) = xs"
  by (induction xs) (simp_all add: map_filter_simps)

lemma set_map_filter_Some: "y \<in> set (List.map_filter f xs) \<Longrightarrow> \<exists>x\<in>set xs. f x = Some y"
  by (auto simp: List.map_filter_def)

definition clean_state :: "funding_state \<Rightarrow> bool" where
  "clean_state s \<longleftrightarrow> clean_opt (fs_updatedAt s) \<and> clean_opt (fs_failureReason s) \<and>
     clean_opt (fs_recoveryReason s) \<and> (\<forall>t\<in>set (fs_history s). clean_transition t)"

lemma clean_read [simp]: "clean_state (readFundingLifecycleState v)"
  by (auto simp: clean_state_def readFundingLifecycleState_def Let_def
      dest!: set_map_filter_Some intro: normalize_transition_clean split: option.splits)

lemma read_stored_state:
  assumes "get (to_record (get (to_record row) ''executionMetadata'')) ''fundingLifecycle'' = lifecycle_val s"
    and "clean_state s"
  shows "readFundingLifecycleState row = s"
proof -
  have "List.map_filter normalizeTransition (map transition_val (fs_history s)) = fs_history s"
    using assms(2) by (intro map_filter_inverse normalize_transition_val) (simp add: clean_state_def)
  then show ?thesis
    using assms by (simp add: readFundingLifecycleState_def lifecycle_val_def opt_get_def
        nullable_clean_opt clean_state_def)
qed

lemma clean_path_steps:
  assumes "clean_str (pp_source p)" "clean_str (pp_reason p)" "clean_str stamp"
  shows "t \<in> set (path_steps p stamp prev path) \<Longrightarrow> clean_transition t"
proof -
  have "clean_opt (Some ''recovered_intermediate_transition'')" by code_simp
  then show "t \<in> set (path_steps p stamp prev path) \<Longrightarrow> clean_transition t"
    using assms by (induction path arbitrary: prev) (auto simp: clean_transition_def split: if_splits)
qed

lemma next_state_sel [simp]:
  "fs_stage (next_lifecycle_state p stamp s path) = pp_targetStage p"
  "fs_history (next_lifecycle_state p stamp s path) = fs_history s @ path_steps p stamp (fs_stage s) (tl path)"
  by (simp_all add: next_lifecycle_state_def Let_def)

lemma clean_occurred_at: "clean_str now \<Longrightarrow> clean_str (occurred_at_iso p now)"
  by (auto simp: occurred_at_iso_def opt_get_def intro: nullable_Some_clean split: option.splits)

text \<open>The strings a transition is recorded with survive the next read: the callers pass literals.\<close>

definition clean_params :: "patch_params \<Rightarrow> string \<Rightarrow> bool" where
  "clean_params p now \<longleftrightarrow> clean_str (pp_source p) \<and> clean_str (pp_reason p) \<and> clean_str now"

lemma clean_next_state:
  "clean_params p now \<Longrightarrow> clean_state s \<Longrightarrow>
   clean_state (next_lifecycle_state p (occurred_at_iso p now) s path)"
  using clean_occurred_at [of now p] clean_path_steps [of p "occurred_at_iso p now"]
  by (auto simp: clean_params_def clean_state_def next_lifecycle_state_def Let_def clean_opt_def)

lemma patch_cases:
  assumes "buildTransitionPatch p now = Inr patch"
  obtains path where
    "findFundingLifecyclePath (fs_stage (readFundingLifecycleState (pp_row p))) (pp_targetStage p) = Some path"
    and "get (to_record (get patch ''executionMetadata'')) ''fundingLifecycle'' =
      lifecycle_val (next_lifecycle_state p (occurred_at_iso p now) (readFundingLifecycleState (pp_row p)) path)"
    and "''executionMetadata'' \<in> set (map fst patch)"
proof -
  have r: "readFundingLifecycleState (JObj (to_record v)) = readFundingLifecycleState v" for v
    by (simp add: readFundingLifecycleState_def)
  from assms show thesis
    by (auto simp: buildTransitionPatch_def Let_def r get_spread spread_def intro!: that split: option.splits)
qed

definition apply_patch :: "jsval \<Rightarrow> jsobj \<Rightarrow> jsval" where
  "apply_patch row patch = JObj (spread (to_record row) patch)"

lemma read_patched:
  assumes "buildTransitionPatch p now = Inr patch" "clean_params p now"
  shows "\<exists>path. findFundingLifecyclePath (fs_stage (readFundingLifecycleState (pp_row p))) (pp_targetStage p) = Some path
    \<and> readFundingLifecycleState (apply_patch (pp_row p) patch) =
      next_lifecycle_state p (occurred_at_iso p now) (readFundingLifecycleState (pp_row p)) path"
proof -
  let ?s = "readFundingLifecycleState (pp_row p)"
  obtain path where path: "findFundingLifecyclePath (fs_stage ?s) (pp_targetStage p) = Some path"
    and lc: "get (to_record (get patch ''executionMetadata'')) ''fundingLifecycle'' =
      lifecycle_val (next_lifecycle_state p (occurred_at_iso p now) ?s path)"
    and key: "''executionMetadata'' \<in> set (map fst patch)"
    using assms(1) by (rule patch_cases)
  have "readFundingLifecycleState (apply_patch (pp_row p) patch) =
      next_lifecycle_state p (occurred_at_iso p now) ?s path"
    using lc key assms(2) by (intro read_stored_state clean_next_state)
      (auto simp: apply_patch_def get_spread)
  with path show ?thesis by blast
qed

section \<open>The history\<close>

text \<open>
  A history is well formed when every recorded transition is an allowed step, each starts where
  the one before it ended, and the last one ends in the current stage.
\<close>

definition history_ok :: "funding_transition list \<Rightarrow> funding_stage \<Rightarrow> bool" where
  "history_ok h stage \<longleftrightarrow>
     (\<forall>t\<in>set h. \<exists>a. ft_from t = Some a \<and> allowed_step a (ft_to t)) \<and>
     successively (\<lambda>t u. ft_from u = Some (ft_to t)) h \<and> (h = [] \<or> ft_to (last h) = stage)"

lemma path_steps_ok:
  "successively allowed_step (prev # path) \<Longrightarrow> history_ok (path_steps p stamp prev path) (last (prev # path))"
proof (induction path arbitrary: prev)
  case Nil
  show ?case by (simp add: history_ok_def)
next
  case (Cons x path)
  then have IH: "history_ok (path_steps p stamp x path) (last (x # path))" by simp
  have "path = [] \<or> (\<exists>t ts. path_steps p stamp x path = t # ts \<and> ft_from t = Some x)"
    by (cases path) simp_all
  with IH Cons.prems show ?case
    by (auto simp: history_ok_def successively_Cons)
qed

lemma history_ok_append:
  assumes "history_ok h a" "history_ok (path_steps p stamp a path) b"
    and "path = [] \<Longrightarrow> b = a"
  shows "history_ok (h @ path_steps p stamp a path) b"
proof (cases path)
  case Nil
  with assms show ?thesis by simp
next
  case (Cons x xs)
  then obtain t ts where "path_steps p stamp a path = t # ts" "ft_from t = Some a" by simp
  with assms show ?thesis
    by (auto simp: history_ok_def successively_append_iff)
qed

text \<open>A row moves by applying the patch of a successful request.\<close>

inductive funding_step :: "jsval \<Rightarrow> jsval \<Rightarrow> bool" where
  transition: "buildTransitionPatch p now = Inr patch \<Longrightarrow> clean_params p now \<Longrightarrow>
    funding_step (pp_row p) (apply_patch (pp_row p) patch)"

inductive_cases funding_stepE: "funding_step row row'"

lemma step_history:
  assumes "funding_step row row'"
  shows "\<exists>new. fs_history (readFundingLifecycleState row') = fs_history (readFundingLifecycleState row) @ new
    \<and> (history_ok (fs_history (readFundingLifecycleState row)) (getFundingLifecycleStage row) \<longrightarrow>
       history_ok (fs_history (readFundingLifecycleState row')) (getFundingLifecycleStage row'))
    \<and> (getFundingLifecycleStage row = FS_settled \<longrightarrow> getFundingLifecycleStage row' = FS_settled)"
  using assms
proof (rule funding_stepE)
  fix p :: patch_params and now patch
  let ?s = "readFundingLifecycleState (pp_row p)" and ?b = "pp_targetStage p"
  assume row: "row = pp_row p" "row' = apply_patch (pp_row p) patch"
    and ok: "buildTransitionPatch p now = Inr patch" "clean_params p now"
  obtain path where path: "findFundingLifecyclePath (fs_stage ?s) ?b = Some path"
    and rd: "readFundingLifecycleState row' = next_lifecycle_state p (occurred_at_iso p now) ?s path"
    using read_patched [OF ok] row by blast
  have v: "valid_path (fs_stage ?s) ?b path" by (rule found_path_valid [OF path])
  then obtain rest where rest: "path = fs_stage ?s # rest" by (cases path) (auto simp: valid_path_def)
  have "history_ok (path_steps p (occurred_at_iso p now) (fs_stage ?s) rest) ?b"
    using path_steps_ok [of "fs_stage ?s" rest] v rest by (simp add: valid_path_def)
  then have "history_ok (fs_history ?s) (fs_stage ?s) \<Longrightarrow>
      history_ok (fs_history ?s @ path_steps p (occurred_at_iso p now) (fs_stage ?s) rest) ?b"
    using v rest by (intro history_ok_append) (auto simp: valid_path_def)
  moreover have "fs_stage ?s = FS_settled \<Longrightarrow> ?b = FS_settled"
    using path by (auto dest: settled_path)
  ultimately show ?thesis
    by (simp add: row(1) rd getFundingLifecycleStage_def rest)
qed

lemma steps_history:
  assumes "funding_step\<^sup>*\<^sup>* row row'"
  shows "\<exists>new. fs_history (readFundingLifecycleState row') = fs_history (readFundingLifecycleState row) @ new
    \<and> (history_ok (fs_history (readFundingLifecycleState row)) (getFundingLifecycleStage row) \<longrightarrow>
       history_ok (fs_history (readFundingLifecycleState row')) (getFundingLifecycleStage row'))
    \<and> (getFundingLifecycleStage row = FS_settled \<longrightarrow> getFundingLifecycleStage row' = FS_settled)"
  using assms
proof (induction rule: rtranclp_induct)
  case (step r r')
  with step_history [OF step(2)] show ?case by (metis append.assoc)
qed simp

section \<open>Properties\<close>

text \<open>C17: A path the search returns starts at the given stage, ends at the target, visits no stage
  twice, and takes only steps of the transition table or the downgrade from hype_reserve_ready to
  perp_margin_transferred.\<close>

theorem funding_path_sound:
  assumes "findFundingLifecyclePath a b = Some p"
  shows "p \<noteq> [] \<and> hd p = a \<and> last p = b \<and> distinct p \<and>
    successively (\<lambda>x y. y \<in> set (LEGAL_TRANSITIONS x) \<or> (x = FS_hype_reserve_ready \<and> y = FS_perp_margin_transferred)) p"
  using found_path_valid [OF assms] by (simp add: valid_path_def allowed_step_def [abs_def])

theorem funding_path_sound_witness:
  "let p = [FS_failed, FS_recovery_required, FS_hypercore_funded] in
   findFundingLifecyclePath FS_failed FS_hypercore_funded = Some p \<and> hd p = FS_failed \<and> last p = FS_hypercore_funded"
proof -
  have "findFundingLifecyclePath FS_failed FS_hypercore_funded =
      Some [FS_failed, FS_recovery_required, FS_hypercore_funded]"
    by code_simp
  with funding_path_sound [OF this] show ?thesis by simp
qed

text \<open>The search finds no path exactly when the stages differ and either the bot vault is settled,
  or the target is deployed, or the target lies before the stage in the funding order and is not
  one of the three downgrades the code grants.\<close>

theorem funding_path_none_iff:
  "findFundingLifecyclePath a b = None \<longleftrightarrow>
     a \<noteq> b \<and> (a = FS_settled \<or> b = FS_deployed \<or>
       (getProgressIndex b \<noteq> - 1 \<and> getProgressIndex b < getProgressIndex a \<and>
        (a, b) \<notin> {(FS_execution_ready, FS_perp_margin_transferred), (FS_execution_ready, FS_hype_reserve_ready),
                   (FS_hype_reserve_ready, FS_perp_margin_transferred)}))"
  by (rule no_path_iff)

text \<open>When a transition succeeds and its source, its reason and the clock are trimmed and not
  empty, reading the patched row gives the target stage and the former history followed by the
  steps of the path, the last one with the caller's detail and the others marked synthetic.\<close>

theorem transition_patch_roundtrip:
  assumes "buildTransitionPatch p now = Inr patch" "clean_params p now"
  shows "\<exists>path. findFundingLifecyclePath (getFundingLifecycleStage (pp_row p)) (pp_targetStage p) = Some path \<and>
    readFundingLifecycleState (apply_patch (pp_row p) patch) =
      next_lifecycle_state p (occurred_at_iso p now) (readFundingLifecycleState (pp_row p)) path \<and>
    getFundingLifecycleStage (apply_patch (pp_row p) patch) = pp_targetStage p \<and>
    fs_history (readFundingLifecycleState (apply_patch (pp_row p) patch)) =
      fs_history (readFundingLifecycleState (pp_row p)) @
      path_steps p (occurred_at_iso p now) (getFundingLifecycleStage (pp_row p)) (tl path)"
  using read_patched [OF assms] by (auto simp: getFundingLifecycleStage_def)

definition sample_patch :: patch_params where
  "sample_patch = \<lparr> pp_row = JObj [(''status'', JStr ''FUNDED'')], pp_targetStage = FS_hypercore_funded,
     pp_source = ''reconcile'', pp_reason = ''observed'', pp_detail = JUndef,
     pp_occurredAt = JStr ''2026-01-01T00:00:00.000Z'', pp_metadataPatch = [] \<rparr>"

theorem transition_patch_roundtrip_witness:
  "\<exists>patch. buildTransitionPatch sample_patch ''now'' = Inr patch \<and>
     getFundingLifecycleStage (apply_patch (pp_row sample_patch) patch) = FS_hypercore_funded"
proof -
  have ok: "\<not> Option.is_none (case buildTransitionPatch sample_patch ''now'' of Inl e \<Rightarrow> None | Inr q \<Rightarrow> Some q)"
    by code_simp
  then obtain patch where patch: "buildTransitionPatch sample_patch ''now'' = Inr patch"
    by (cases "buildTransitionPatch sample_patch ''now''") auto
  moreover have clean: "clean_params sample_patch ''now''" by code_simp
  ultimately show ?thesis using transition_patch_roundtrip [OF patch clean]
    by (auto simp: sample_patch_def)
qed

text \<open>C16: Along any sequence of successful transitions the recorded history only grows, stays well
  formed (allowed steps, each from where the last one ended, ending in the current stage) if it was
  so, and a settled bot vault stays settled.\<close>

theorem funding_history_invariant:
  assumes "funding_step\<^sup>*\<^sup>* row row'"
  shows "\<exists>new. fs_history (readFundingLifecycleState row') = fs_history (readFundingLifecycleState row) @ new
    \<and> (history_ok (fs_history (readFundingLifecycleState row)) (getFundingLifecycleStage row) \<longrightarrow>
       history_ok (fs_history (readFundingLifecycleState row')) (getFundingLifecycleStage row'))
    \<and> (getFundingLifecycleStage row = FS_settled \<longrightarrow> getFundingLifecycleStage row' = FS_settled)"
  by (rule steps_history [OF assms])

theorem funding_history_invariant_witness:
  "\<exists>row'. funding_step\<^sup>*\<^sup>* (pp_row sample_patch) row' \<and> getFundingLifecycleStage row' = FS_hypercore_funded \<and>
     history_ok (fs_history (readFundingLifecycleState row')) (getFundingLifecycleStage row')"
proof -
  have ok: "\<not> Option.is_none (case buildTransitionPatch sample_patch ''now'' of Inl e \<Rightarrow> None | Inr q \<Rightarrow> Some q)"
    by code_simp
  then obtain patch where patch: "buildTransitionPatch sample_patch ''now'' = Inr patch"
    by (cases "buildTransitionPatch sample_patch ''now''") auto
  have clean: "clean_params sample_patch ''now''" by code_simp
  define row' where "row' = apply_patch (pp_row sample_patch) patch"
  have step: "funding_step\<^sup>*\<^sup>* (pp_row sample_patch) row'"
    unfolding row'_def using patch clean by (intro r_into_rtranclp transition)
  have h: "fs_history (readFundingLifecycleState (pp_row sample_patch)) = []" by code_simp
  have "getFundingLifecycleStage row' = FS_hypercore_funded"
    using read_patched [OF patch clean] by (auto simp: row'_def getFundingLifecycleStage_def sample_patch_def)
  then show ?thesis using funding_history_invariant [OF step] h step by (auto simp: history_ok_def)
qed

text \<open>A classified mismatch never has the action none; missing observations and missing funding
  verification are only ever retried; degrading is reserved to content counterevidence, that is a
  local-ahead category whose text names an execution_ready counterevidence or a downgrade; and the
  user is asked to act only for a manual intervention or a reserve bootstrap of that failure class.\<close>

theorem mismatch_actions:
  assumes "classifyMismatch reason detail failureClass defaultCategory = Some m"
  shows "mm_recoveryAction m \<noteq> RA_none \<and>
    (mm_category m \<in> {MC_observed_state_incomplete, MC_funding_verification_missing} \<longrightarrow>
       mm_recoveryAction m = RA_retry) \<and>
    (mm_recoveryAction m = RA_degrade \<longrightarrow> mm_category m = MC_local_ahead_of_observed_state \<and>
       includes_any (mismatch_haystack (opt_get (to_nullable_string reason) '''')
           (to_nullable_string detail) (to_nullable_string failureClass))
         [''execution_ready_counterevidence'', ''downgraded'']) \<and>
    (mm_recoveryAction m = RA_user_action_required \<longrightarrow>
       mm_category m = MC_manual_intervention_required \<or>
       (mm_category m = MC_reserve_bootstrap_incomplete \<and>
        to_nullable_string failureClass = Some ''user_action_required''))"
proof -
  obtain c where m: "mm_category m = c"
      "mm_recoveryAction m = deriveMismatchRecoveryAction c (opt_get (to_nullable_string reason) '''')
         (to_nullable_string detail) (to_nullable_string failureClass)"
    using assms by (auto simp: classifyMismatch_def Let_def split: if_splits option.splits)
  show ?thesis
    unfolding m by (cases c) (simp_all add: deriveMismatchRecoveryAction_def includes_any_def Let_def)
qed

theorem mismatch_actions_witness:
  "\<exists>m. classifyMismatch (JStr ''execution_ready_counterevidence'') JUndef JNull JUndef = Some m \<and>
     mm_recoveryAction m = RA_degrade \<and> mm_category m = MC_local_ahead_of_observed_state"
proof -
  have c: "classifyMismatch (JStr ''execution_ready_counterevidence'') JUndef JNull JUndef =
      Some \<lparr> mm_category = MC_local_ahead_of_observed_state, mm_recoveryAction = RA_degrade,
             mm_reason = ''execution_ready_counterevidence'', mm_detail = None \<rparr>"
    by code_simp
  show ?thesis using mismatch_actions [OF c] c by simp
qed

text \<open>The status model never reports execution_ready against an explicit not-ready flag, except
  when the caller's fallback says so; a settled stage or text always reports settled, and a ready
  flag otherwise always reports execution_ready.\<close>

theorem status_priorities:
  "(normalizeStage (sp_lifecycleStage p) = Some FS_settled \<longrightarrow> sd_category (classifyStatus p) = SC_settled) \<and>
   (sp_ready p = Some True \<longrightarrow> sd_category (classifyStatus p) \<in> {SC_settled, SC_execution_ready}) \<and>
   (sp_ready p = Some False \<and> sd_category (classifyStatus p) = SC_execution_ready \<longrightarrow>
      normalizeStatusCategory (sp_fallbackCategory p) = Some SC_execution_ready) \<and>
   (sd_category (classifyStatus p) = SC_execution_ready \<and> sp_ready p = None \<and>
      normalizeStatusCategory (sp_fallbackCategory p) = None \<longrightarrow>
      normalizeStage (sp_lifecycleStage p) = Some FS_execution_ready)"
  by (auto simp: classifyStatus_def Let_def status_category_of_def split: if_splits)

theorem status_priorities_witness:
  "sd_category (classifyStatus \<lparr> sp_ready = None, sp_lifecycleStage = JStr '' Settled '', sp_readinessStage = JUndef,
     sp_reconciliationStatus = JUndef, sp_issueSeverity = JUndef, sp_reason = JUndef, sp_detail = JUndef,
     sp_mismatch = None, sp_mismatchCategory = JUndef, sp_recoveryAction = JUndef, sp_fallbackCategory = JUndef \<rparr>)
   = SC_settled"
proof -
  let ?p = "\<lparr> sp_ready = None, sp_lifecycleStage = JStr '' Settled '', sp_readinessStage = JUndef,
     sp_reconciliationStatus = JUndef, sp_issueSeverity = JUndef, sp_reason = JUndef, sp_detail = JUndef,
     sp_mismatch = None, sp_mismatchCategory = JUndef, sp_recoveryAction = JUndef, sp_fallbackCategory = JUndef \<rparr>"
  have "normalizeStage (sp_lifecycleStage ?p) = Some FS_settled" by code_simp
  then show ?thesis using status_priorities [of ?p] by simp
qed

end
