(* ===== verification/Money.thy ===== *)
theory Money
  imports JsValue
begin

text \<open>
  Money in the services is a double rounded to a fixed number of decimal digits
  (\<open>roundUsd\<close>, apps/api/src/vaults/profitShare.ts and its copies). This theory holds the
  rounding on JavaScript numbers, its exact description on rationals, the contract of a rounding
  function as a locale with its interpretations, and the range in which rounding twice is
  rounding once.
\<close>

section \<open>Rounding to decimal digits\<close>

definition scale10 :: "nat \<Rightarrow> jsnum" where
  "scale10 d = Fin (10 ^ d)"

definition round_usd :: "nat \<Rightarrow> jsnum \<Rightarrow> jsnum" where
  "round_usd digits v =
     (if \<not> is_finite v then Fin 0
      else n_div (n_round (n_mul v (scale10 digits))) (scale10 digits))"

text \<open>\<open>Number.isFinite(parsed) \<and> parsed \<ge> 0 ? parsed : 0\<close> of \<open>Number(value)\<close>.\<close>

definition non_neg :: "jsnum \<Rightarrow> jsnum" where
  "non_neg parsed = (if is_finite parsed \<and> n_le (Fin 0) parsed then parsed else Fin 0)"

definition to_non_negative :: "jsval \<Rightarrow> jsnum" where
  "to_non_negative value = non_neg (js_number value)"

definition or_zero :: "jsnum \<Rightarrow> jsnum" where
  "or_zero n = (if is_finite n then n else Fin 0)"

text \<open>\<open>Number(x.toFixed(d))\<close>: the nearest decimal with \<open>d\<close> digits, ties away from zero, read back
  as a double; from \<open>1e21\<close> on toFixed prints the number itself.\<close>

fun fixed_num :: "nat \<Rightarrow> jsnum \<Rightarrow> jsnum" where
  "fixed_num d (Fin x) =
     (if 10 ^ 21 \<le> \<bar>x\<bar> then Fin x
      else (let n = \<lfloor>\<bar>x\<bar> * 10 ^ d + 1 / 2\<rfloor>
            in fl (of_int (if x < 0 then - n else n) / 10 ^ d)))"
| "fixed_num d x = x"

definition DEFAULT_PROFIT_SHARE_RATE :: jsnum where
  "DEFAULT_PROFIT_SHARE_RATE = fl (3 / 10)"

definition computeProfitShareFeeUsd :: "jsnum \<Rightarrow> jsnum \<Rightarrow> jsnum" where
  "computeProfitShareFeeUsd realized normalizedRate =
     (if \<not> is_finite realized \<or> \<not> is_finite normalizedRate then Fin 0
      else if n_le realized (Fin 0) \<or> n_le normalizedRate (Fin 0) then Fin 0
      else round_usd 4 (n_mul realized normalizedRate))"

section \<open>The contract of a rounding function\<close>

locale rounding =
  fixes rnd :: "rat \<Rightarrow> rat"
  assumes rnd_mono: "x \<le> y \<Longrightarrow> rnd x \<le> rnd y"
    and rnd_zero: "rnd 0 = 0"
begin

lemma rnd_nonneg: "0 \<le> x \<Longrightarrow> 0 \<le> rnd x"
  using rnd_mono [of 0 x] by (simp add: rnd_zero)

lemma rnd_nonpos: "x \<le> 0 \<Longrightarrow> rnd x \<le> 0"
  using rnd_mono [of x 0] by (simp add: rnd_zero)

lemma rnd_max: "rnd (max x y) = max (rnd x) (rnd y)"
  using rnd_mono [of x y] rnd_mono [of y x] by (auto simp: max_def)

lemma rnd_min: "rnd (min x y) = min (rnd x) (rnd y)"
  using rnd_mono [of x y] rnd_mono [of y x] by (auto simp: min_def)

text \<open>Adding a non-negative amount to a rounded one and rounding does not lower it.\<close>

lemma rnd_add_ge: "rnd x = x \<Longrightarrow> 0 \<le> y \<Longrightarrow> x \<le> rnd (x + y)"
  using rnd_mono [of x "x + y"] by simp

lemma rnd_sub_le: "rnd x = x \<Longrightarrow> 0 \<le> y \<Longrightarrow> rnd (x - y) \<le> x"
  using rnd_mono [of "x - y" x] by simp

end

interpretation dbl: rounding dbl
  by unfold_locales (auto intro: dbl_mono)

section \<open>The rounding on rationals\<close>

definition rusd :: "nat \<Rightarrow> rat \<Rightarrow> rat" where
  "rusd d x = dbl (of_int \<lfloor>dbl (x * 10 ^ d) + 1 / 2\<rfloor> / 10 ^ d)"

lemma rusd_mono: "x \<le> y \<Longrightarrow> rusd d x \<le> rusd d y"
  unfolding rusd_def
  by (intro dbl_mono divide_right_mono of_int_le_iff [THEN iffD2] floor_mono add_right_mono mult_right_mono)
    simp_all

lemma floor_half [simp]: "\<lfloor>1 / 2 :: rat\<rfloor> = 0"
  by (rule floor_unique) simp_all

lemma rusd_zero [simp]: "rusd d 0 = 0"
  by (simp add: rusd_def)

interpretation usd: rounding "rusd d" for d
  by unfold_locales (auto intro: rusd_mono)

lemma dbl_abs_le: "- 1022 \<le> e \<Longrightarrow> \<bar>q\<bar> \<le> pow2 e \<Longrightarrow> \<bar>dbl q\<bar> \<le> pow2 e"
proof -
  assume e: "- 1022 \<le> e" and q: "\<bar>q\<bar> \<le> pow2 e"
  have d: "dbl (pow2 e) = pow2 e" using dbl_exact_small [of 1 e] e by simp
  have "- pow2 e \<le> q" "q \<le> pow2 e" using q by linarith+
  from dbl_mono [OF this(1)] dbl_mono [OF this(2)] show ?thesis
    by (simp add: d dbl_minus abs_le_iff)
qed

lemma fl_Fin: "\<bar>q\<bar> \<le> pow2 1000 \<Longrightarrow> fl q = Fin (dbl q)"
proof -
  assume "\<bar>q\<bar> \<le> pow2 1000"
  then have "\<bar>dbl q\<bar> \<le> pow2 1000" by (intro dbl_abs_le) simp
  also have "pow2 1000 < pow2 1024" by (simp add: pow2_less_iff)
  finally show "fl q = Fin (dbl q)" by (simp add: fl_def)
qed

lemma fl_is_Fin: "fl q = Fin r \<Longrightarrow> r = dbl q"
  by (auto simp: fl_def split: if_splits)

text \<open>No overflow below \<open>2 ^ 900\<close>, whatever the number of digits up to twelve.\<close>

lemma scale_bounds: "d \<le> 12 \<Longrightarrow> 1 \<le> (10 ^ d :: rat) \<and> 10 ^ d \<le> pow2 40"
proof -
  assume "d \<le> 12"
  then have "(10::rat) ^ d \<le> 10 ^ 12" by (intro power_increasing) simp_all
  also have "\<dots> \<le> pow2 40" by (simp add: pow2_def [of 40])
  finally show ?thesis by simp
qed

lemma abs_mult_le_pow2: "\<bar>x\<bar> \<le> pow2 a \<Longrightarrow> \<bar>y\<bar> \<le> pow2 b \<Longrightarrow> \<bar>x * y\<bar> \<le> pow2 (a + b)"
  unfolding abs_mult pow2_add by (intro mult_mono) (simp_all add: less_imp_le)

lemma round_half_up_le: "\<bar>y\<bar> \<le> pow2 a \<Longrightarrow> 1 \<le> a \<Longrightarrow> \<bar>of_int \<lfloor>y + 1 / 2\<rfloor>\<bar> \<le> pow2 (a + 1)"
proof -
  assume y: "\<bar>y\<bar> \<le> pow2 a" and "1 \<le> a"
  then have "1 \<le> pow2 a" using pow2_mono [of 0 a] by (simp add: pow2_def [of 0])
  moreover have "pow2 (a + 1) = 2 * pow2 a" by (simp add: pow2_add pow2_def [of 1])
  moreover have "of_int \<lfloor>y + 1 / 2\<rfloor> \<le> y + 1 / 2" "y + 1 / 2 < of_int \<lfloor>y + 1 / 2\<rfloor> + 1"
    by linarith+
  ultimately show ?thesis using y by linarith
qed

lemma abs_divide_le: "1 \<le> (s :: rat) \<Longrightarrow> \<bar>y / s\<bar> \<le> \<bar>y\<bar>"
  using mult_left_mono [of 1 s "\<bar>y\<bar>"] by (simp add: abs_divide divide_le_eq)

lemma round_usd_Fin:
  assumes "\<bar>x\<bar> \<le> pow2 900" "d \<le> 12"
  shows "round_usd d (Fin x) = Fin (rusd d x)"
proof -
  let ?S = "10 ^ d :: rat"
  have S: "1 \<le> ?S" "\<bar>?S\<bar> \<le> pow2 40" using scale_bounds [OF assms(2)] by auto
  have m: "\<bar>x * ?S\<bar> \<le> pow2 940" using abs_mult_le_pow2 [OF assms(1) S(2)] by simp
  then have "\<bar>x * ?S\<bar> \<le> pow2 1000" using pow2_mono [of 940 1000] by linarith
  then have mul: "n_mul (Fin x) (scale10 d) = Fin (dbl (x * ?S))" by (simp add: scale10_def fl_Fin)
  have "\<bar>of_int \<lfloor>dbl (x * ?S) + 1 / 2\<rfloor>\<bar> \<le> pow2 941"
    using round_half_up_le [of "dbl (x * ?S)" 940] dbl_abs_le [OF _ m] by simp
  moreover have "\<bar>of_int \<lfloor>dbl (x * ?S) + 1 / 2\<rfloor> / ?S\<bar> \<le> \<bar>of_int \<lfloor>dbl (x * ?S) + 1 / 2\<rfloor>\<bar>"
    by (rule abs_divide_le [OF S(1)])
  ultimately have "\<bar>of_int \<lfloor>dbl (x * ?S) + 1 / 2\<rfloor> / ?S\<bar> \<le> pow2 1000"
    using pow2_mono [of 941 1000] by linarith
  then show ?thesis
    unfolding round_usd_def mul using S(1) by (simp add: scale10_def rusd_def fl_Fin)
qed

section \<open>Amounts\<close>

text \<open>
  An amount of \<open>d\<close> digits: the double nearest to \<open>k / 10 ^ d\<close>. Up to \<open>2 ^ 48\<close> units (281 million
  dollars at six digits) the floating-point code that adds, subtracts and rounds such amounts
  computes exactly the integer arithmetic on \<open>k\<close>.
\<close>

definition amt :: "nat \<Rightarrow> int \<Rightarrow> rat" where
  "amt d k = dbl (of_int k / 10 ^ d)"

lemma amt_zero [simp]: "amt d 0 = 0"
  by (simp add: amt_def)

lemma amt_minus: "amt d (- k) = - amt d k"
  by (simp add: amt_def dbl_minus)

lemma amt_mono: "k \<le> l \<Longrightarrow> amt d k \<le> amt d l"
  unfolding amt_def by (intro dbl_mono divide_right_mono) simp_all

lemma amt_nonneg: "0 \<le> k \<Longrightarrow> 0 \<le> amt d k"
  using amt_mono [of 0 k d] by simp

lemma abs_of_int_le: "\<bar>k\<bar> \<le> 2 ^ n \<Longrightarrow> \<bar>of_int k :: rat\<bar> \<le> 2 ^ n"
proof -
  assume "\<bar>k\<bar> \<le> 2 ^ n"
  then have "(of_int \<bar>k\<bar> :: rat) \<le> of_int (2 ^ n)" by (simp only: of_int_le_iff)
  then show ?thesis by simp
qed

lemma abs_of_int_ge: "k \<noteq> 0 \<Longrightarrow> 1 \<le> \<bar>of_int k :: rat\<bar>"
proof -
  assume "k \<noteq> 0"
  then have "1 \<le> \<bar>k\<bar>" by linarith
  then have "(of_int 1 :: rat) \<le> of_int \<bar>k\<bar>" by (simp only: of_int_le_iff)
  then show ?thesis by simp
qed

lemma small_normal: "d \<le> 12 \<Longrightarrow> 1 / (2 * 10 ^ d) \<le> \<bar>q\<bar> \<Longrightarrow> pow2 (- 1022) \<le> \<bar>q :: rat\<bar>"
proof -
  assume d: "d \<le> 12" and q: "1 / (2 * 10 ^ d) \<le> \<bar>q\<bar>"
  have "pow2 (- 1022) \<le> pow2 (- 41)" by (rule pow2_mono) simp
  also have "pow2 (- 41) = 1 / (2 * pow2 40)" by (simp add: pow2_def)
  also have "\<dots> \<le> 1 / (2 * 10 ^ d)"
    using scale_bounds [OF d] by (intro divide_left_mono) simp_all
  finally show ?thesis using q by linarith
qed

lemma amt_error:
  assumes "d \<le> 12"
  shows "\<bar>amt d k * 10 ^ d - of_int k\<bar> \<le> \<bar>of_int k\<bar> / 2 ^ 53"
proof (cases "k = 0")
  case False
  let ?S = "10 ^ d :: rat" and ?q = "of_int k / 10 ^ d :: rat"
  have S: "1 \<le> ?S" using scale_bounds [OF assms] by auto
  have "1 / (2 * ?S) \<le> 1 / ?S" using S by (intro divide_left_mono) simp_all
  also have "\<dots> \<le> \<bar>?q\<bar>" using abs_of_int_ge [OF False] S by (simp add: abs_divide divide_right_mono)
  finally have "\<bar>dbl ?q - ?q\<bar> \<le> \<bar>?q\<bar> / 2 ^ 53" by (intro dbl_error small_normal [OF assms])
  then have "\<bar>dbl ?q - ?q\<bar> * ?S \<le> \<bar>?q\<bar> / 2 ^ 53 * ?S" using S by (intro mult_right_mono) simp_all
  moreover have "\<bar>dbl ?q - ?q\<bar> * ?S = \<bar>dbl ?q * ?S - of_int k\<bar>"
  proof -
    have "\<bar>dbl ?q - ?q\<bar> * ?S = \<bar>(dbl ?q - ?q) * ?S\<bar>" using S by (simp add: abs_mult)
    also have "(dbl ?q - ?q) * ?S = dbl ?q * ?S - of_int k" using S by (simp add: left_diff_distrib)
    finally show ?thesis .
  qed
  moreover have "\<bar>?q\<bar> / 2 ^ 53 * ?S = \<bar>of_int k\<bar> / 2 ^ 53" using S by (simp add: abs_divide)
  ultimately show ?thesis by (simp only: amt_def)
qed simp

text \<open>A rational within a quarter unit of \<open>k\<close> rounds to the amount \<open>k\<close>.\<close>

lemma rusd_near:
  assumes "\<bar>x * 10 ^ d - of_int k\<bar> \<le> 1 / 4" "\<bar>k\<bar> \<le> 2 ^ 50"
  shows "rusd d x = amt d k"
proof -
  have "\<bar>dbl (x * 10 ^ d) - of_int k\<bar> \<le> 1 / 4" using assms by (rule dbl_near_int)
  then have "\<lfloor>dbl (x * 10 ^ d) + 1 / 2\<rfloor> = k" by (intro floor_unique) linarith+
  then show ?thesis by (simp add: rusd_def amt_def)
qed

lemma rusd_amt:
  assumes "\<bar>k\<bar> \<le> 2 ^ 50" "d \<le> 12"
  shows "rusd d (amt d k) = amt d k"
  using amt_error [OF assms(2), of k] abs_of_int_le [OF assms(1)] assms(1)
  by (intro rusd_near) simp_all

lemma rusd_add_amt:
  assumes "\<bar>k\<bar> \<le> 2 ^ 48" "\<bar>l\<bar> \<le> 2 ^ 48" "d \<le> 12"
  shows "rusd d (dbl (amt d k + amt d l)) = amt d (k + l)"
proof (cases "k + l = 0")
  case True
  then have "l = - k" by simp
  then show ?thesis by (simp add: amt_minus)
next
  case False
  let ?S = "10 ^ d :: rat" and ?q = "amt d k + amt d l"
  have S: "1 \<le> ?S" using scale_bounds [OF assms(3)] by auto
  have K: "\<bar>of_int k :: rat\<bar> \<le> 2 ^ 48" "\<bar>of_int l :: rat\<bar> \<le> 2 ^ 48"
    using assms abs_of_int_le by blast+
  have "\<bar>amt d k * ?S - of_int k\<bar> \<le> 1 / 32" "\<bar>amt d l * ?S - of_int l\<bar> \<le> 1 / 32"
    using amt_error [OF assms(3), of k] amt_error [OF assms(3), of l] K by simp_all
  then have e: "\<bar>?q * ?S - of_int (k + l)\<bar> \<le> 1 / 16"
    unfolding distrib_right of_int_add by linarith
  have "1 \<le> \<bar>of_int (k + l) :: rat\<bar>" using False by (rule abs_of_int_ge)
  then have low: "1 / 2 \<le> \<bar>?q * ?S\<bar>" using e by linarith
  have up: "\<bar>?q * ?S\<bar> \<le> 2 ^ 50"
  proof -
    have "\<bar>?q * ?S\<bar> \<le> \<bar>of_int (k + l) :: rat\<bar> + 1 / 16" using e by linarith
    also have "\<dots> \<le> 2 ^ 48 + 2 ^ 48 + 1 / 16" using K unfolding of_int_add by linarith
    finally show ?thesis by simp
  qed
  have "1 / (2 * ?S) \<le> \<bar>?q\<bar>"
    using low S by (simp add: abs_mult divide_le_eq mult.commute mult.left_commute)
  then have "\<bar>dbl ?q - ?q\<bar> \<le> \<bar>?q\<bar> / 2 ^ 53" by (intro dbl_error small_normal [OF assms(3)])
  then have "\<bar>dbl ?q - ?q\<bar> * ?S \<le> \<bar>?q\<bar> / 2 ^ 53 * ?S" using S by (intro mult_right_mono) simp_all
  also have "\<dots> = \<bar>?q * ?S\<bar> / 2 ^ 53" using S by (simp add: abs_mult)
  also have "\<dots> \<le> 1 / 8" using up by simp
  finally have "\<bar>(dbl ?q - ?q) * ?S\<bar> \<le> 1 / 8" using S by (simp add: abs_mult)
  then have "\<bar>dbl ?q * ?S - of_int (k + l)\<bar> \<le> 1 / 4"
    using e unfolding left_diff_distrib by linarith
  then show ?thesis using assms by (intro rusd_near) simp_all
qed

lemma rusd_sub_amt:
  assumes "\<bar>k\<bar> \<le> 2 ^ 48" "\<bar>l\<bar> \<le> 2 ^ 48" "d \<le> 12"
  shows "rusd d (dbl (amt d k - amt d l)) = amt d (k - l)"
  using rusd_add_amt [of k "- l" d] assms by (simp add: amt_minus)

text \<open>Rounding a number of moderate size gives an amount of the same size.\<close>

lemma rusd_is_amt:
  assumes "\<bar>x * 10 ^ d\<bar> \<le> of_int (2 ^ n)" "n \<le> 50"
  shows "\<exists>k. \<bar>k\<bar> \<le> 2 ^ n \<and> rusd d x = amt d k"
proof -
  let ?z = "dbl (x * 10 ^ d)" and ?N = "of_int (2 ^ n) :: rat"
  have "(2::int) ^ n \<le> 2 ^ 50" using assms(2) by (intro power_increasing) simp_all
  then have N: "dbl ?N = ?N" by (intro dbl_of_int) simp
  have "- ?N \<le> x * 10 ^ d" "x * 10 ^ d \<le> ?N" using assms(1) by linarith+
  from dbl_mono [OF this(1)] dbl_mono [OF this(2)] have z: "- ?N \<le> ?z" "?z \<le> ?N"
    by (simp_all only: dbl_minus N)
  have "- (2 ^ n) \<le> \<lfloor>?z + 1 / 2\<rfloor>" using z(1) by (simp add: le_floor_iff)
  moreover have "\<lfloor>?z + 1 / 2\<rfloor> \<le> 2 ^ n"
    using z(2) by (simp add: floor_le_iff)
  ultimately have "\<bar>\<lfloor>?z + 1 / 2\<rfloor>\<bar> \<le> 2 ^ n" by linarith
  then show ?thesis by (intro exI [of _ "\<lfloor>?z + 1 / 2\<rfloor>"]) (simp add: rusd_def amt_def)
qed

section \<open>The number operations on amounts\<close>

lemma amt_abs_le: "\<bar>k\<bar> \<le> 2 ^ 50 \<Longrightarrow> d \<le> 12 \<Longrightarrow> \<bar>amt d k\<bar> \<le> pow2 50"
proof -
  assume k: "\<bar>k\<bar> \<le> 2 ^ 50" and d: "d \<le> 12"
  have "\<bar>of_int k / 10 ^ d :: rat\<bar> \<le> \<bar>of_int k\<bar>"
    using scale_bounds [OF d] by (intro abs_divide_le) simp
  also have "\<dots> \<le> pow2 50" using abs_of_int_le [OF k] by (simp add: pow2_def [of 50])
  finally show ?thesis unfolding amt_def by (intro dbl_abs_le) simp_all
qed

lemma le_pow2_900: "x \<le> pow2 50 \<Longrightarrow> x \<le> pow2 900"
  using pow2_mono [of 50 900] by linarith

lemma le_pow2_1000: "x \<le> pow2 51 \<Longrightarrow> x \<le> pow2 1000"
  using pow2_mono [of 51 1000] by linarith

lemma round_amt:
  "\<bar>k\<bar> \<le> 2 ^ 50 \<Longrightarrow> d \<le> 12 \<Longrightarrow> round_usd d (Fin (amt d k)) = Fin (amt d k)"
  by (simp add: round_usd_Fin le_pow2_900 amt_abs_le rusd_amt)

lemma n_add_amt:
  assumes "\<bar>k\<bar> \<le> 2 ^ 48" "\<bar>l\<bar> \<le> 2 ^ 48" "d \<le> 12"
  shows "\<exists>y. n_add (Fin (amt d k)) (Fin (amt d l)) = Fin y \<and> \<bar>y\<bar> \<le> pow2 51 \<and> rusd d y = amt d (k + l)"
proof -
  have "\<bar>amt d k\<bar> \<le> pow2 50" "\<bar>amt d l\<bar> \<le> pow2 50" using assms by (auto intro!: amt_abs_le)
  moreover have "pow2 51 = 2 * pow2 50" using pow2_add [of 1 50] by (simp add: pow2_def [of 1])
  ultimately have "\<bar>amt d k + amt d l\<bar> \<le> pow2 51" by linarith
  then show ?thesis
    using assms by (intro exI [of _ "dbl (amt d k + amt d l)"])
      (auto simp: fl_Fin le_pow2_1000 rusd_add_amt intro: dbl_abs_le)
qed

lemma n_sub_amt:
  assumes "\<bar>k\<bar> \<le> 2 ^ 48" "\<bar>l\<bar> \<le> 2 ^ 48" "d \<le> 12"
  shows "\<exists>y. n_sub (Fin (amt d k)) (Fin (amt d l)) = Fin y \<and> \<bar>y\<bar> \<le> pow2 51 \<and> rusd d y = amt d (k - l)"
  using n_add_amt [of k "- l" d] assms by (simp add: n_sub_def amt_minus)

lemma round_add_amt:
  assumes "\<bar>k\<bar> \<le> 2 ^ 48" "\<bar>l\<bar> \<le> 2 ^ 48" "d \<le> 12"
  shows "round_usd d (n_add (Fin (amt d k)) (Fin (amt d l))) = Fin (amt d (k + l))"
  using n_add_amt [OF assms] pow2_mono [of 51 900] assms(3) by (auto simp: round_usd_Fin)

lemma round_monus_amt:
  assumes "\<bar>k\<bar> \<le> 2 ^ 48" "\<bar>l\<bar> \<le> 2 ^ 48" "d \<le> 12"
  shows "round_usd d (n_max (Fin 0) (n_sub (Fin (amt d k)) (Fin (amt d l)))) = Fin (amt d (max 0 (k - l)))"
proof -
  obtain y where y: "n_sub (Fin (amt d k)) (Fin (amt d l)) = Fin y" "\<bar>y\<bar> \<le> pow2 51"
      "rusd d y = amt d (k - l)"
    using n_sub_amt [OF assms] by blast
  have "n_max (Fin 0) (Fin y) = Fin (max 0 y)" by (simp add: n_max_def)
  moreover have "\<bar>max 0 y\<bar> \<le> pow2 900" using y(2) pow2_mono [of 51 900] by linarith
  moreover have "rusd d (max 0 y) = max 0 (amt d (k - l))" by (simp add: usd.rnd_max y(3))
  moreover have "max 0 (amt d (k - l)) = amt d (max 0 (k - l))"
    using amt_nonneg [of "k - l" d] amt_mono [of "k - l" 0 d] by (auto simp: max_def)
  ultimately show ?thesis using y(1) assms(3) by (simp add: round_usd_Fin)
qed

lemma n_min_amt: "n_min (Fin (amt d k)) (Fin (amt d l)) = Fin (amt d (min k l))"
  using amt_mono [of k l d] amt_mono [of l k d] by (auto simp: n_min_def min_def)

lemma round_min_amt:
  "\<bar>k\<bar> \<le> 2 ^ 50 \<Longrightarrow> \<bar>l\<bar> \<le> 2 ^ 50 \<Longrightarrow> d \<le> 12 \<Longrightarrow>
   round_usd d (n_min (Fin (amt d k)) (Fin (amt d l))) = Fin (amt d (min k l))"
  by (simp add: n_min_amt round_amt)

text \<open>Inputs of moderate size: below \<open>2 ^ 27\<close> (134 million) in absolute value, or not finite,
  which the code reads as zero.\<close>

definition moderate :: "jsnum \<Rightarrow> bool" where
  "moderate n \<longleftrightarrow> (case n of Fin x \<Rightarrow> \<bar>x\<bar> \<le> 2 ^ 27 | _ \<Rightarrow> True)"

lemma round6_is_amt:
  assumes "\<bar>x\<bar> \<le> 2 ^ 27"
  shows "\<exists>k. \<bar>k\<bar> \<le> 2 ^ 47 \<and> rusd 6 x = amt 6 k \<and> round_usd 6 (Fin x) = Fin (amt 6 k)"
proof -
  have "\<bar>x * 10 ^ 6\<bar> \<le> of_int (2 ^ 47)" using assms by (simp add: abs_mult)
  then obtain k where k: "\<bar>k\<bar> \<le> 2 ^ 47" "rusd 6 x = amt 6 k" using rusd_is_amt [of x 6 47] by auto
  moreover have "\<bar>x\<bar> \<le> pow2 50" using assms by (simp add: pow2_def [of 50])
  ultimately show ?thesis by (auto simp: round_usd_Fin le_pow2_900)
qed

lemma round6_or_zero:
  assumes "moderate n"
  shows "\<exists>k. \<bar>k\<bar> \<le> 2 ^ 47 \<and> round_usd 6 (or_zero n) = Fin (amt 6 k)"
proof -
  obtain x where "or_zero n = Fin x" "\<bar>x\<bar> \<le> 2 ^ 27"
    using assms by (cases n) (auto simp: or_zero_def moderate_def)
  then show ?thesis using round6_is_amt [of x] by auto
qed

lemma amt_nonneg_unit: "0 \<le> amt 6 k \<Longrightarrow> \<bar>k\<bar> \<le> 2 ^ 47 \<Longrightarrow> \<exists>l. 0 \<le> l \<and> l \<le> 2 ^ 47 \<and> amt 6 k = amt 6 l"
  by (cases "0 \<le> k") (use amt_mono [of k 0 6] in \<open>auto intro: exI [of _ k] exI [of _ 0]\<close>)

lemma round6_non_neg:
  assumes "moderate n"
  shows "\<exists>k. 0 \<le> k \<and> k \<le> 2 ^ 47 \<and> round_usd 6 (non_neg n) = Fin (amt 6 k)"
proof -
  have "\<exists>x. non_neg n = Fin x \<and> \<bar>x\<bar> \<le> 2 ^ 27 \<and> 0 \<le> x"
  proof (cases "non_neg n = Fin 0")
    case False
    then show ?thesis using assms by (cases n) (auto simp: non_neg_def moderate_def n_le_def split: if_splits)
  qed simp
  then obtain x where x: "non_neg n = Fin x" "\<bar>x\<bar> \<le> 2 ^ 27" "0 \<le> x" by blast
  then obtain k where k: "\<bar>k\<bar> \<le> 2 ^ 47" "rusd 6 x = amt 6 k" "round_usd 6 (Fin x) = Fin (amt 6 k)"
    using round6_is_amt by blast
  then have "0 \<le> amt 6 k" using usd.rnd_nonneg [OF x(3), of 6] by simp
  then show ?thesis using amt_nonneg_unit k x(1) by auto
qed

section \<open>Inputs and fees in units\<close>

text \<open>The value of an input, where a number that is not finite counts as zero.\<close>

definition dollars :: "jsnum \<Rightarrow> rat" where
  "dollars n = (case n of Fin x \<Rightarrow> x | _ \<Rightarrow> 0)"

lemma dbl_close:
  assumes "\<bar>z\<bar> \<le> 2 ^ 47"
  shows "\<bar>dbl z - z\<bar> \<le> 1 / 64"
proof (cases "\<bar>z\<bar> \<le> pow2 (- 7)")
  case True
  then have "\<bar>dbl z\<bar> \<le> pow2 (- 7)" by (intro dbl_abs_le) simp_all
  then have "\<bar>dbl z\<bar> \<le> 1 / 128" "\<bar>z\<bar> \<le> 1 / 128" using True by (simp_all add: pow2_def)
  then show ?thesis by linarith
next
  case False
  have "pow2 (- 1022) \<le> pow2 (- 7)" by (rule pow2_mono) simp
  then have "\<bar>dbl z - z\<bar> \<le> \<bar>z\<bar> / 2 ^ 53" using False by (intro dbl_error) linarith
  then show ?thesis using assms by simp
qed

text \<open>An input rounds to the units nearest to it, up to the error of one double operation.\<close>

lemma round6_near:
  assumes "\<bar>x\<bar> \<le> 2 ^ 27"
  shows "\<exists>k. \<bar>k\<bar> \<le> 2 ^ 47 \<and> (0 \<le> x \<longrightarrow> 0 \<le> k) \<and> round_usd 6 (Fin x) = Fin (amt 6 k) \<and> \<bar>of_int k - x * 10 ^ 6\<bar> \<le> 33 / 64"
proof -
  let ?z = "dbl (x * 10 ^ 6)" and ?k = "\<lfloor>dbl (x * 10 ^ 6) + 1 / 2\<rfloor>"
  have z: "\<bar>x * 10 ^ 6\<bar> \<le> 2 ^ 47" using assms by (simp add: abs_mult)
  have n: "\<bar>?z\<bar> \<le> 2 ^ 47" using dbl_abs_le [of 47 "x * 10 ^ 6"] z by (simp add: pow2_def)
  then have "\<bar>?k\<bar> \<le> 2 ^ 47" by (simp add: abs_le_iff le_floor_iff floor_le_iff) linarith
  moreover have "0 \<le> ?k" if "0 \<le> x" using that dbl_nonneg [of "x * 10 ^ 6"] by simp
  moreover have "round_usd 6 (Fin x) = Fin (amt 6 ?k)"
  proof -
    have "\<bar>x\<bar> \<le> pow2 50" using assms by (simp add: pow2_def [of 50])
    then show ?thesis by (simp add: round_usd_Fin le_pow2_900 rusd_def amt_def)
  qed
  moreover have "\<bar>of_int ?k - x * 10 ^ 6\<bar> \<le> 33 / 64"
  proof -
    have "\<bar>of_int ?k - ?z\<bar> \<le> 1 / 2" by linarith
    then show ?thesis using dbl_close [OF z] by linarith
  qed
  ultimately show ?thesis by blast
qed

lemma input_near:
  assumes "moderate n"
  shows "\<exists>k. \<bar>k\<bar> \<le> 2 ^ 47 \<and> round_usd 6 (or_zero n) = Fin (amt 6 k) \<and> \<bar>of_int k - dollars n * 10 ^ 6\<bar> \<le> 33 / 64"
proof -
  have "or_zero n = Fin (dollars n)" "\<bar>dollars n\<bar> \<le> 2 ^ 27"
    using assms by (cases n; simp add: or_zero_def dollars_def moderate_def)+
  then show ?thesis using round6_near by metis
qed

lemma input_non_neg_near:
  assumes "moderate n"
  shows "\<exists>k. 0 \<le> k \<and> k \<le> 2 ^ 47 \<and> round_usd 6 (non_neg n) = Fin (amt 6 k) \<and> \<bar>of_int k - max 0 (dollars n) * 10 ^ 6\<bar> \<le> 33 / 64"
proof -
  have v: "non_neg n = Fin (max 0 (dollars n))"
    by (cases n) (auto simp: non_neg_def dollars_def n_le_def)
  moreover have "\<bar>max 0 (dollars n)\<bar> \<le> 2 ^ 27"
    using assms by (cases n) (auto simp: dollars_def moderate_def)
  ultimately obtain k where "\<bar>k\<bar> \<le> 2 ^ 47" "0 \<le> max 0 (dollars n) \<longrightarrow> 0 \<le> k" "round_usd 6 (non_neg n) = Fin (amt 6 k)"
      "\<bar>of_int k - max 0 (dollars n) * 10 ^ 6\<bar> \<le> 33 / 64"
    using round6_near [of "max 0 (dollars n)"] by auto
  then show ?thesis by (intro exI [of _ k]) auto
qed

text \<open>
  A fee of \<open>g\<close> millionths of a percent on \<open>b\<close> micro-dollars: the product of doubles is so close to \<open>b * g / 10 ^ 14\<close> dollars
  that rounding it to four digits is off by hardly more than half of the last one.
\<close>

definition fee_of :: "int \<Rightarrow> int \<Rightarrow> rat" where
  "fee_of b g = of_int b * of_int g / 10 ^ 14"

lemma dbl_rel:
  assumes "0 \<le> q" "q = 0 \<or> pow2 (- 100) \<le> q" "l \<le> q" "q \<le> u"
  shows "l * (1 - 1 / 2 ^ 53) \<le> dbl q \<and> dbl q \<le> u * (1 + 1 / 2 ^ 53)"
proof -
  have e: "\<bar>dbl q - q\<bar> \<le> q / 2 ^ 53"
  proof (cases "q = 0")
    case False
    have "pow2 (- 1022) \<le> pow2 (- 100)" by (rule pow2_mono) simp
    then show ?thesis using dbl_error [of q] False assms(1,2) by simp
  qed simp
  have "q * (1 - 1 / 2 ^ 53) = q - q / 2 ^ 53" "q * (1 + 1 / 2 ^ 53) = q + q / 2 ^ 53"
    by (simp_all only: right_diff_distrib distrib_left times_divide_eq_right mult_1_right)
  then have "q * (1 - 1 / 2 ^ 53) \<le> dbl q \<and> dbl q \<le> q * (1 + 1 / 2 ^ 53)" using e by (simp only: abs_le_iff) (metis add.commute diff_le_eq le_diff_eq minus_diff_eq)
  moreover have "l * (1 - 1 / 2 ^ 53) \<le> q * (1 - 1 / 2 ^ 53)" "q * (1 + 1 / 2 ^ 53) \<le> u * (1 + 1 / 2 ^ 53)"
    using assms(3,4) by (intro mult_right_mono; simp)+
  ultimately show ?thesis by linarith
qed

lemma micro_bounds:
  assumes "0 \<le> k"
  shows "of_int k / 10 ^ 6 * (1 - 1 / 2 ^ 53) \<le> amt 6 k \<and> amt 6 k \<le> of_int k / 10 ^ 6 * (1 + 1 / 2 ^ 53) \<and> (k = 0 \<or> 1 / 10 ^ 7 \<le> amt 6 k)"
proof -
  have unit: "k = 0 \<or> 1 / 10 ^ 6 \<le> (of_int k / 10 ^ 6 :: rat)"
    using assms abs_of_int_ge [of k] by (auto intro!: divide_right_mono)
  have "pow2 (- 100) \<le> 1 / 10 ^ 6" by (simp add: pow2_def)
  then have b: "of_int k / 10 ^ 6 * (1 - 1 / 2 ^ 53) \<le> amt 6 k \<and> amt 6 k \<le> of_int k / 10 ^ 6 * (1 + 1 / 2 ^ 53)"
    unfolding amt_def using assms unit by (intro dbl_rel) auto
  have "1 / 10 ^ 7 \<le> amt 6 k" if "k \<noteq> 0"
  proof -
    have "1 / 10 ^ 6 * (1 - 1 / 2 ^ 53) \<le> (of_int k / 10 ^ 6 * (1 - 1 / 2 ^ 53) :: rat)"
      using unit that by (intro mult_right_mono) auto
    moreover have "1 / 10 ^ 7 \<le> (1 / 10 ^ 6 * (1 - 1 / 2 ^ 53) :: rat)" by simp
    ultimately show ?thesis using b by linarith
  qed
  then show ?thesis using b by blast
qed

definition fee_double :: "int \<Rightarrow> int \<Rightarrow> rat" where
  "fee_double b g = dbl (amt 6 b * dbl (amt 6 g / 100))"

lemma fee_double_near:
  assumes "0 \<le> b" "0 \<le> g"
  shows "0 \<le> fee_double b g \<and> \<bar>fee_double b g - fee_of b g\<bar> \<le> fee_of b g / 2 ^ 50"
proof -
  define d u B G where "d = (1 - 1 / 2 ^ 53 :: rat)" and "u = (1 + 1 / 2 ^ 53 :: rat)" and "B = (of_int b / 10 ^ 6 :: rat)" and "G = (of_int g / 10 ^ 6 :: rat)"
  have pos: "0 \<le> d" "0 \<le> u" "0 \<le> B" "0 \<le> G" using assms by (simp_all add: d_def u_def B_def G_def)
  have base: "B * d \<le> amt 6 b" "amt 6 b \<le> B * u" "G * d \<le> amt 6 g" "amt 6 g \<le> G * u"
    using micro_bounds [OF assms(1)] micro_bounds [OF assms(2)] by (simp_all only: d_def u_def B_def G_def)
  have a0: "0 \<le> amt 6 b" "0 \<le> amt 6 g" using assms by (simp_all add: amt_nonneg)
  let ?w = "dbl (amt 6 g / 100)"
  have small: "pow2 (- 100) \<le> 1 / 10 ^ 20" by (simp add: pow2_def)
  have rate: "G * d / 100 * d \<le> ?w \<and> ?w \<le> G * u / 100 * u"
    unfolding d_def u_def
    by (rule dbl_rel) (use base a0 micro_bounds [OF assms(2)] small in \<open>auto simp: d_def u_def\<close>)
  have w0: "0 \<le> ?w" using a0 by (intro dbl_nonneg) simp
  have wlow: "g = 0 \<or> 1 / 10 ^ 10 \<le> ?w"
  proof (cases "g = 0")
    case False
    then have "1 / 10 ^ 7 \<le> amt 6 g" using micro_bounds [OF assms(2)] by blast
    then have "1 / 10 ^ 9 * d \<le> ?w" unfolding d_def
      by (intro conjunct1 [OF dbl_rel [where u = "amt 6 g / 100"]]) (use small in auto)
    moreover have "1 / 10 ^ 10 \<le> 1 / 10 ^ 9 * d" by (simp add: d_def)
    ultimately show ?thesis by linarith
  qed simp
  have prod: "(B * d) * (G * d / 100 * d) \<le> amt 6 b * ?w" "amt 6 b * ?w \<le> (B * u) * (G * u / 100 * u)"
    using base rate pos a0 w0 by (intro mult_mono; simp)+
  have "amt 6 b * ?w = 0 \<or> 1 / 10 ^ 7 * (1 / 10 ^ 10) \<le> amt 6 b * ?w"
    using micro_bounds [OF assms(1)] wlow mult_mono [of "1 / 10 ^ 7" "amt 6 b" "1 / 10 ^ 10" ?w] a0(1) by (auto simp del: times_divide_eq_right times_divide_eq_left)
  then have "amt 6 b * ?w = 0 \<or> pow2 (- 100) \<le> amt 6 b * ?w" using small by (auto intro: order_trans)
  then have "(B * d) * (G * d / 100 * d) * d \<le> fee_double b g \<and> fee_double b g \<le> (B * u) * (G * u / 100 * u) * u"
    unfolding fee_double_def d_def u_def
    by (intro dbl_rel) (use prod a0 w0 in \<open>auto simp: d_def u_def\<close>)
  moreover have F: "fee_of b g = B * G / 100" by (simp add: fee_of_def B_def G_def)
  moreover have "(B * d) * (G * d / 100 * d) * d = fee_of b g * d ^ 4" "(B * u) * (G * u / 100 * u) * u = fee_of b g * u ^ 4"
    by (simp_all add: F power4_eq_xxxx)
  moreover have "1 - 1 / 2 ^ 50 \<le> d ^ 4" "u ^ 4 \<le> 1 + 1 / 2 ^ 50" by (simp_all add: d_def u_def power_divide)
  moreover have f0: "0 \<le> fee_of b g" using pos by (simp add: F)
  ultimately have lo: "fee_of b g * (1 - 1 / 2 ^ 50) \<le> fee_double b g" and hi: "fee_double b g \<le> fee_of b g * (1 + 1 / 2 ^ 50)"
    using mult_left_mono [of "1 - 1 / 2 ^ 50" "d ^ 4" "fee_of b g"] mult_left_mono [of "u ^ 4" "1 + 1 / 2 ^ 50" "fee_of b g"] by linarith+
  have k: "x * (1 - e) \<le> y \<Longrightarrow> y \<le> x * (1 + e) \<Longrightarrow> \<bar>y - x\<bar> \<le> x * e" for x y e :: rat
    by (simp add: algebra_simps abs_le_iff)
  have "0 \<le> fee_double b g" unfolding fee_double_def using a0 w0 by (intro dbl_nonneg) simp
  then show ?thesis using k [OF lo hi] by simp
qed

lemma fee_rounded:
  assumes "0 \<le> b" "b \<le> 2 ^ 47" "0 \<le> g" "g \<le> 10 ^ 8"
  shows "\<exists>k. 0 \<le> k \<and> \<bar>of_int k - fee_of b g * 10 ^ 4\<bar> \<le> 51 / 100 \<and>
    round_usd 4 (n_max (Fin 0) (n_mul (Fin (amt 6 b)) (n_div (Fin (amt 6 g)) (Fin 100)))) = Fin (amt 4 k)"
proof -
  let ?y = "fee_double b g"
  have y: "0 \<le> ?y" "\<bar>?y - fee_of b g\<bar> \<le> fee_of b g / 2 ^ 50" using fee_double_near [OF assms(1,3)] by simp_all
  have "of_int b * of_int g \<le> (2 ^ 47 * 10 ^ 8 :: rat)"
    using assms by (intro mult_mono) (simp_all add: of_int_le_numeral_iff of_int_le_iff [of b "2 ^ 47", unfolded of_int_power])
  then have f: "0 \<le> fee_of b g" "fee_of b g \<le> 268435456" using assms by (simp_all add: fee_of_def)
  have "fee_of b g / 2 ^ 50 \<le> 268435456 / 2 ^ 50" using f(2) by (rule divide_right_mono) simp
  then have "fee_of b g / 2 ^ 50 \<le> 1 / 4000000" by simp
  then have e: "\<bar>?y - fee_of b g\<bar> \<le> 1 / 4000000" using y(2) by (rule order_trans [rotated])
  then have ym: "?y \<le> 268435457" using f by linarith
  have m1: "\<bar>amt 6 g / 100\<bar> \<le> pow2 1000"
    using amt_abs_le [of g 6] assms(3,4) pow2_mono [of 50 1000] by simp
  have g1: "\<bar>amt 6 g\<bar> \<le> pow2 50" "\<bar>amt 6 b\<bar> \<le> pow2 50" using assms by (simp_all add: amt_abs_le)
  then have "\<bar>dbl (amt 6 g / 100)\<bar> \<le> pow2 50" by (intro dbl_abs_le) (simp_all add: abs_divide)
  then have "\<bar>amt 6 b * dbl (amt 6 g / 100)\<bar> \<le> pow2 1000"
    using abs_mult_le_pow2 [OF g1(2)] pow2_mono [of 100 1000] by force
  then have mul: "n_mul (Fin (amt 6 b)) (n_div (Fin (amt 6 g)) (Fin 100)) = Fin ?y"
    using m1 by (simp add: fl_Fin fee_double_def)
  have "n_max (Fin 0) (Fin ?y) = Fin ?y" using y(1) by (simp add: n_max_def max_def)
  moreover have "\<bar>?y\<bar> \<le> pow2 900"
  proof -
    have "?y \<le> pow2 50" using ym by (simp add: pow2_def)
    then show ?thesis using y(1) le_pow2_900 [of ?y] by simp
  qed
  ultimately have r: "round_usd 4 (n_max (Fin 0) (n_mul (Fin (amt 6 b)) (n_div (Fin (amt 6 g)) (Fin 100)))) = Fin (rusd 4 ?y)"
    unfolding mul by (simp add: round_usd_Fin)
  let ?k = "\<lfloor>dbl (?y * 10 ^ 4) + 1 / 2\<rfloor>"
  have z: "\<bar>dbl (?y * 10 ^ 4) - ?y * 10 ^ 4\<bar> \<le> 1 / 256"
  proof (cases "?y * 10 ^ 4 \<le> pow2 (- 9)")
    case True
    then have "\<bar>dbl (?y * 10 ^ 4)\<bar> \<le> pow2 (- 9)" using y(1) by (intro dbl_abs_le) simp_all
    then have "\<bar>dbl (?y * 10 ^ 4)\<bar> \<le> 1 / 512" "?y * 10 ^ 4 \<le> 1 / 512" using True by (simp_all add: pow2_def)
    moreover have "0 \<le> ?y * 10 ^ 4" using y(1) by simp
    ultimately show ?thesis by linarith
  next
    case False
    have "pow2 (- 1022) \<le> pow2 (- 9)" by (rule pow2_mono) simp
    moreover have "\<bar>?y * 10 ^ 4\<bar> = ?y * 10 ^ 4" using y(1) by simp
    ultimately have "\<bar>dbl (?y * 10 ^ 4) - ?y * 10 ^ 4\<bar> \<le> \<bar>?y * 10 ^ 4\<bar> / 2 ^ 53" using False by (intro dbl_error) linarith
    moreover have "\<bar>?y * 10 ^ 4\<bar> / 2 ^ 53 \<le> 1 / 256" using ym y(1) by simp
    ultimately show ?thesis by linarith
  qed
  have "\<bar>?y * 10 ^ 4 - fee_of b g * 10 ^ 4\<bar> \<le> 1 / 256"
  proof -
    have "?y * 10 ^ 4 - fee_of b g * 10 ^ 4 = (?y - fee_of b g) * 10 ^ 4" by (simp only: left_diff_distrib)
    then show ?thesis using e by (simp only: abs_mult) simp
  qed
  moreover have "\<bar>of_int ?k - dbl (?y * 10 ^ 4)\<bar> \<le> 1 / 2" by linarith
  ultimately have "\<bar>of_int ?k - fee_of b g * 10 ^ 4\<bar> \<le> 51 / 100" using z by linarith
  moreover have "0 \<le> ?k" using dbl_nonneg [of "?y * 10 ^ 4"] y(1) by simp
  ultimately show ?thesis unfolding r by (intro exI [of _ ?k]) (simp add: rusd_def amt_def)
qed
end
