(* ===== verification/ProfitShare.thy ===== *)
theory ProfitShare
  imports Money
begin

text \<open>
  Profit share of a bot vault: the fee on realised profit above the high-water mark
  (apps/api/src/vaults/feeSettlement.math.ts), its integer form for contract version 4
  (apps/api/src/vaults/botVaultV4ProfitShare.ts), and the first-in-first-out matching of fills
  that yields realised profit (apps/api/src/vaults/realizedPnl.ts).
\<close>

section \<open>Settlement arithmetic\<close>

definition DEFAULT_SETTLEMENT_FEE_RATE_PCT :: jsnum where
  "DEFAULT_SETTLEMENT_FEE_RATE_PCT = Fin 30"

datatype settlement_mode = PROFIT_ONLY_WITHDRAW | FINAL_CLOSE

record settlement_input =
  si_mode :: settlement_mode
  si_requestedGrossUsd :: "jsnum option"
  si_availableUsd :: jsnum
  si_principalOutstandingUsd :: jsnum
  si_realizedPnlNetUsd :: jsnum
  si_highWaterMarkUsd :: jsnum
  si_feeRatePct :: "jsnum option"

record settlement_result =
  sr_mode :: settlement_mode
  sr_requestedGrossUsd :: jsnum
  sr_grossTransferUsd :: jsnum
  sr_reservedReleaseUsd :: jsnum
  sr_principalComponentUsd :: jsnum
  sr_realizedProfitComponentUsd :: jsnum
  sr_realizedClosedPnlUsd :: jsnum
  sr_settledProfitBeforeUsd :: jsnum
  sr_settledProfitAfterUsd :: jsnum
  sr_feeableProfitCapacityBeforeUsd :: jsnum
  sr_feeBaseUsd :: jsnum
  sr_feeAmountUsd :: jsnum
  sr_netTransferUsd :: jsnum
  sr_highWaterMarkBeforeUsd :: jsnum
  sr_highWaterMarkAfterUsd :: jsnum
  sr_maxProfitOnlyWithdrawableUsd :: jsnum
  sr_feeRatePct :: jsnum

record accounting_input =
  ai_realizedClosedPnlUsd :: jsnum
  ai_settledProfitUsd :: jsnum
  ai_payoutProfitUsd :: jsnum
  ai_feeRatePct :: "jsnum option"

record accounting_result =
  ar_realizedClosedPnlUsd :: jsnum
  ar_settledProfitBeforeUsd :: jsnum
  ar_settledProfitAfterUsd :: jsnum
  ar_payoutProfitUsd :: jsnum
  ar_feeableProfitCapacityBeforeUsd :: jsnum
  ar_feeBaseUsd :: jsnum
  ar_feeAmountUsd :: jsnum
  ar_feeRatePct :: jsnum

definition computeProfitOnlyWithdrawableUsd :: "jsnum \<Rightarrow> jsnum \<Rightarrow> jsnum" where
  "computeProfitOnlyWithdrawableUsd in_availableUsd in_principalOutstandingUsd =
     (let availableUsd = non_neg in_availableUsd;
          principalOutstandingUsd = non_neg in_principalOutstandingUsd
      in round_usd 4 (n_max (Fin 0) (n_sub availableUsd principalOutstandingUsd)))"

definition computeProfitShareAccounting :: "accounting_input \<Rightarrow> accounting_result" where
  "computeProfitShareAccounting input =
     (let feeRatePct = round_usd 6 (non_neg (opt_get (ai_feeRatePct input) DEFAULT_SETTLEMENT_FEE_RATE_PCT));
          feeRate = n_div feeRatePct (Fin 100);
          realizedClosedPnlUsd = round_usd 6 (or_zero (ai_realizedClosedPnlUsd input));
          settledProfitBeforeUsd = round_usd 6 (non_neg (ai_settledProfitUsd input));
          payoutProfitUsd = round_usd 6 (non_neg (ai_payoutProfitUsd input));
          feeableProfitCapacityBeforeUsd =
            round_usd 6 (n_max (Fin 0) (n_sub realizedClosedPnlUsd settledProfitBeforeUsd));
          feeBaseUsd = round_usd 6 (n_min payoutProfitUsd feeableProfitCapacityBeforeUsd);
          feeAmountUsd = round_usd 4 (n_max (Fin 0) (n_mul feeBaseUsd feeRate));
          settledProfitAfterUsd = round_usd 6 (n_add settledProfitBeforeUsd feeBaseUsd)
      in \<lparr> ar_realizedClosedPnlUsd = realizedClosedPnlUsd,
           ar_settledProfitBeforeUsd = settledProfitBeforeUsd,
           ar_settledProfitAfterUsd = settledProfitAfterUsd,
           ar_payoutProfitUsd = payoutProfitUsd,
           ar_feeableProfitCapacityBeforeUsd = feeableProfitCapacityBeforeUsd,
           ar_feeBaseUsd = feeBaseUsd, ar_feeAmountUsd = feeAmountUsd, ar_feeRatePct = feeRatePct \<rparr>)"

definition computeFeeSettlementMath :: "settlement_input \<Rightarrow> settlement_result" where
  "computeFeeSettlementMath input =
     (let feeRatePct = non_neg (opt_get (si_feeRatePct input) DEFAULT_SETTLEMENT_FEE_RATE_PCT);
          availableUsd = round_usd 6 (non_neg (si_availableUsd input));
          principalOutstandingUsd = round_usd 6 (non_neg (si_principalOutstandingUsd input));
          realizedPnlNetUsd = round_usd 6 (or_zero (si_realizedPnlNetUsd input));
          highWaterMarkBeforeUsd = round_usd 6 (non_neg (si_highWaterMarkUsd input));
          maxProfitOnlyWithdrawableUsd = computeProfitOnlyWithdrawableUsd availableUsd principalOutstandingUsd;
          requestedGrossUsd = round_usd 6 (non_neg (opt_get (si_requestedGrossUsd input) (Fin 0)));
          final = (si_mode input = FINAL_CLOSE);
          grossTransferUsd = (if final then round_usd 6 availableUsd
                              else round_usd 6 (n_min requestedGrossUsd maxProfitOnlyWithdrawableUsd));
          principalComponentUsd = (if final then round_usd 6 (n_min grossTransferUsd principalOutstandingUsd)
                                   else Fin 0);
          reservedReleaseUsd = (if final then principalOutstandingUsd else Fin 0);
          realizedProfitComponentUsd = round_usd 6 (n_max (Fin 0) (n_sub grossTransferUsd principalComponentUsd));
          profitShare = computeProfitShareAccounting
            \<lparr> ai_realizedClosedPnlUsd = realizedPnlNetUsd, ai_settledProfitUsd = highWaterMarkBeforeUsd,
              ai_payoutProfitUsd = realizedProfitComponentUsd, ai_feeRatePct = Some feeRatePct \<rparr>;
          feeAmountUsd = ar_feeAmountUsd profitShare;
          netTransferUsd = round_usd 6 (n_max (Fin 0) (n_sub grossTransferUsd feeAmountUsd))
      in \<lparr> sr_mode = si_mode input, sr_requestedGrossUsd = requestedGrossUsd,
           sr_grossTransferUsd = grossTransferUsd, sr_reservedReleaseUsd = reservedReleaseUsd,
           sr_principalComponentUsd = principalComponentUsd,
           sr_realizedProfitComponentUsd = realizedProfitComponentUsd,
           sr_realizedClosedPnlUsd = ar_realizedClosedPnlUsd profitShare,
           sr_settledProfitBeforeUsd = ar_settledProfitBeforeUsd profitShare,
           sr_settledProfitAfterUsd = ar_settledProfitAfterUsd profitShare,
           sr_feeableProfitCapacityBeforeUsd = ar_feeableProfitCapacityBeforeUsd profitShare,
           sr_feeBaseUsd = ar_feeBaseUsd profitShare, sr_feeAmountUsd = feeAmountUsd,
           sr_netTransferUsd = netTransferUsd, sr_highWaterMarkBeforeUsd = highWaterMarkBeforeUsd,
           sr_highWaterMarkAfterUsd = ar_settledProfitAfterUsd profitShare,
           sr_maxProfitOnlyWithdrawableUsd = maxProfitOnlyWithdrawableUsd,
           sr_feeRatePct = ar_feeRatePct profitShare \<rparr>)"

section \<open>The integer form\<close>

text \<open>
  \<open>formatUnits\<close> and \<open>parseUnits\<close> belong to the viem package: they are the parameters \<open>fmt\<close> (the
  decimal text of an atomic amount with six digits) and \<open>prs\<close> (its inverse on the six-digit text
  of a number). \<open>to_fixed6\<close> is the text \<open>toFixed(6)\<close> prints below \<open>1e21\<close>.
\<close>

definition to_fixed6 :: "jsnum \<Rightarrow> string" where
  "to_fixed6 v =
     (case v of
        Fin x \<Rightarrow>
          (if 10 ^ 21 \<le> \<bar>x\<bar> then num_str v
           else (let n = \<lfloor>\<bar>x\<bar> * 10 ^ 6 + 1 / 2\<rfloor>;
                     frac = nat_str (n mod 10 ^ 6)
                 in (if x < 0 then ''-'' else '''') @ nat_str (n div 10 ^ 6) @ ''.''
                    @ replicate (6 - length frac) (CHR ''0'') @ frac))
      | _ \<Rightarrow> num_str v)"

definition formatUsdAtomicToNumber :: "(int \<Rightarrow> string) \<Rightarrow> int \<Rightarrow> jsnum" where
  "formatUsdAtomicToNumber fmt value = round_usd 6 (js_number (JStr (fmt value)))"

definition formatSignedUsdAtomicToNumber :: "(int \<Rightarrow> string) \<Rightarrow> int \<Rightarrow> jsnum" where
  "formatSignedUsdAtomicToNumber fmt value =
     (let sign = (if value < 0 then Fin (- 1) else Fin 1);
          magnitude = (if value < 0 then - value else value)
      in round_usd 6 (n_mul sign (js_number (JStr (fmt magnitude)))))"

definition toAtomicUsd :: "(string \<Rightarrow> int) \<Rightarrow> jsnum \<Rightarrow> int" where
  "toAtomicUsd prs value = prs (to_fixed6 (round_usd 6 (non_neg value)))"

definition toSignedAtomicUsd :: "(string \<Rightarrow> int) \<Rightarrow> jsnum \<Rightarrow> int" where
  "toSignedAtomicUsd prs value =
     (let parsed = or_zero value
      in (if n_lt parsed (Fin 0) then - 1 else 1) * toAtomicUsd prs (n_abs parsed))"

record v4_params =
  vp_payoutProfitRaw :: int
  vp_feeRatePctRaw :: int
  vp_realizedClosedPnlUsd :: jsnum
  vp_highWaterMarkBeforeUsd :: jsnum

record v4_result =
  vr_feeBaseRaw :: int
  vr_feeAmountRaw :: int
  vr_realizedClosedPnlRaw :: int
  vr_highWaterMarkBeforeRaw :: int
  vr_highWaterMarkAfterRaw :: int
  vr_realizedClosedPnlUsd :: jsnum
  vr_highWaterMarkBeforeUsd :: jsnum
  vr_highWaterMarkAfterUsd :: jsnum

text \<open>BigInt division truncates towards zero.\<close>

definition big_div :: "int \<Rightarrow> int \<Rightarrow> int" where
  "big_div a b = (if (0 \<le> a) = (0 < b) then \<bar>a\<bar> div \<bar>b\<bar> else - (\<bar>a\<bar> div \<bar>b\<bar>))"

definition computeV4ProfitShareRaw :: "(int \<Rightarrow> string) \<Rightarrow> (string \<Rightarrow> int) \<Rightarrow> v4_params \<Rightarrow> v4_result" where
  "computeV4ProfitShareRaw fmt prs params =
     (let realizedClosedPnlRaw = toSignedAtomicUsd prs (vp_realizedClosedPnlUsd params);
          highWaterMarkBeforeRaw = toAtomicUsd prs (vp_highWaterMarkBeforeUsd params);
          positiveRealizedClosedPnlRaw = (if 0 < realizedClosedPnlRaw then realizedClosedPnlRaw else 0);
          feeableCapacityRaw = (if highWaterMarkBeforeRaw < positiveRealizedClosedPnlRaw
                                then positiveRealizedClosedPnlRaw - highWaterMarkBeforeRaw else 0);
          feeBaseRaw = (if vp_payoutProfitRaw params < feeableCapacityRaw then vp_payoutProfitRaw params
                        else feeableCapacityRaw);
          feeAmountRaw = big_div (feeBaseRaw * vp_feeRatePctRaw params) 100;
          highWaterMarkAfterRaw = highWaterMarkBeforeRaw + feeBaseRaw;
          accounting = computeProfitShareAccounting
            \<lparr> ai_realizedClosedPnlUsd = formatSignedUsdAtomicToNumber fmt realizedClosedPnlRaw,
              ai_settledProfitUsd = formatUsdAtomicToNumber fmt highWaterMarkBeforeRaw,
              ai_payoutProfitUsd = formatUsdAtomicToNumber fmt (vp_payoutProfitRaw params),
              ai_feeRatePct = Some (fl (of_int (vp_feeRatePctRaw params))) \<rparr>
      in \<lparr> vr_feeBaseRaw = feeBaseRaw, vr_feeAmountRaw = feeAmountRaw,
           vr_realizedClosedPnlRaw = realizedClosedPnlRaw,
           vr_highWaterMarkBeforeRaw = highWaterMarkBeforeRaw,
           vr_highWaterMarkAfterRaw = highWaterMarkAfterRaw,
           vr_realizedClosedPnlUsd = ar_realizedClosedPnlUsd accounting,
           vr_highWaterMarkBeforeUsd = ar_settledProfitBeforeUsd accounting,
           vr_highWaterMarkAfterUsd = formatUsdAtomicToNumber fmt highWaterMarkAfterRaw \<rparr>)"

section \<open>Matching fills\<close>

datatype fill_side = Buy | Sell

record lot =
  lot_qty :: jsnum
  lot_price :: jsnum
  lot_feePerUnit :: jsnum

record matching_state =
  longLots :: "lot list"
  shortLots :: "lot list"

record fill_input =
  fi_side :: fill_side
  fi_price :: jsnum
  fi_qty :: jsnum
  fi_feeUsd :: jsnum

record fill_result =
  fr_nextState :: matching_state
  fr_realizedGrossUsd :: jsnum
  fr_realizedFeesUsd :: jsnum
  fr_realizedNetUsd :: jsnum

definition sanitizeLot :: "jsval \<Rightarrow> lot option" where
  "sanitizeLot entry =
     (case entry of
        JObj row \<Rightarrow>
          (let qty = or_zero (js_number (get row ''qty''));
               price = or_zero (js_number (get row ''price''));
               feePerUnit = n_max (Fin 0) (or_zero (js_number (get row ''feePerUnit'')))
           in if \<not> is_finite qty \<or> n_le qty (Fin 0) then None
              else if \<not> is_finite price \<or> n_le price (Fin 0) then None
              else Some \<lparr> lot_qty = fixed_num 12 qty, lot_price = fixed_num 12 price,
                          lot_feePerUnit = fixed_num 12 feePerUnit \<rparr>)
      | _ \<Rightarrow> None)"

definition sanitizeLots :: "jsval \<Rightarrow> lot list" where
  "sanitizeLots value =
     (case as_array value of None \<Rightarrow> [] | Some entries \<Rightarrow> List.map_filter sanitizeLot entries)"

definition parseBotVaultMatchingState :: "jsval \<Rightarrow> matching_state" where
  "parseBotVaultMatchingState raw =
     (case raw of
        JObj row \<Rightarrow> \<lparr> longLots = sanitizeLots (get row ''longLots''), shortLots = sanitizeLots (get row ''shortLots'') \<rparr>
      | _ \<Rightarrow> \<lparr> longLots = [], shortLots = [] \<rparr>)"

definition allocateFeePart :: "jsnum \<Rightarrow> jsnum \<Rightarrow> jsnum \<Rightarrow> jsnum" where
  "allocateFeePart totalFee partQty totalQty =
     (if \<not> is_finite totalFee \<or> n_le totalFee (Fin 0) then Fin 0
      else if \<not> is_finite partQty \<or> n_le partQty (Fin 0) then Fin 0
      else if \<not> is_finite totalQty \<or> n_le totalQty (Fin 0) then Fin 0
      else n_mul totalFee (n_div partQty totalQty))"

text \<open>
  The loop that consumes the lots of the opposite side from the front. \<open>pnl\<close> is the price
  difference of one unit, by the price of the lot. A turn either empties the first lot, or uses
  up the fill, so the recursion on the list with one more turn at its head is the whole loop.
\<close>

record match_acc =
  ma_remaining :: jsnum
  ma_gross :: jsnum
  ma_fees :: jsnum

definition match_one :: "(jsnum \<Rightarrow> jsnum) \<Rightarrow> jsnum \<Rightarrow> jsnum \<Rightarrow> lot \<Rightarrow> match_acc \<Rightarrow> lot \<times> match_acc" where
  "match_one pnl feeTotal qtyTotal l acc =
     (let matchedQty = n_min (ma_remaining acc) (lot_qty l);
          entryFeePart = n_mul (lot_feePerUnit l) matchedQty;
          exitFeePart = allocateFeePart feeTotal matchedQty qtyTotal
      in (l\<lparr> lot_qty := fixed_num 12 (n_sub (lot_qty l) matchedQty) \<rparr>,
          \<lparr> ma_remaining = fixed_num 12 (n_sub (ma_remaining acc) matchedQty),
            ma_gross = n_add (ma_gross acc) (n_mul (pnl (lot_price l)) matchedQty),
            ma_fees = n_add (ma_fees acc) (n_add entryFeePart exitFeePart) \<rparr>))"

fun match_loop :: "(jsnum \<Rightarrow> jsnum) \<Rightarrow> jsnum \<Rightarrow> jsnum \<Rightarrow> nat \<Rightarrow> lot list \<Rightarrow> match_acc \<Rightarrow> (lot list \<times> match_acc) option" where
  "match_loop pnl feeTotal qtyTotal fuel [] acc = Some ([], acc)"
| "match_loop pnl feeTotal qtyTotal fuel (l # ls) acc =
     (if \<not> n_lt (Fin 0) (ma_remaining acc) then Some (l # ls, acc)
      else case fuel of
        0 \<Rightarrow> None
      | Suc fuel' \<Rightarrow>
          (let (l', acc') = match_one pnl feeTotal qtyTotal l acc
           in match_loop pnl feeTotal qtyTotal fuel' (if n_le (lot_qty l') (Fin 0) then ls else l' # ls) acc'))"

definition open_lot :: "jsnum \<Rightarrow> jsnum \<Rightarrow> jsnum \<Rightarrow> jsnum \<Rightarrow> lot list" where
  "open_lot price feeTotal qtyTotal remaining =
     (if n_lt (Fin 0) remaining
      then [\<lparr> lot_qty = fixed_num 12 remaining, lot_price = fixed_num 12 price,
             lot_feePerUnit = fixed_num 12 (n_div (allocateFeePart feeTotal remaining qtyTotal) remaining) \<rparr>]
      else [])"

text \<open>The fuel is one turn for each lot and one more; \<open>match_loop_total\<close> proves it is enough.\<close>

definition run_matching :: "(jsnum \<Rightarrow> jsnum) \<Rightarrow> jsnum \<Rightarrow> jsnum \<Rightarrow> lot list \<Rightarrow> (lot list \<times> match_acc) option" where
  "run_matching pnl feeTotal qtyTotal lots =
     match_loop pnl feeTotal qtyTotal (Suc (length lots)) lots
       \<lparr> ma_remaining = qtyTotal, ma_gross = Fin 0, ma_fees = Fin 0 \<rparr>"

definition applyFillToRealizedPnl :: "matching_state \<Rightarrow> fill_input \<Rightarrow> fill_result option" where
  "applyFillToRealizedPnl st fill =
     (let fillQtyTotal = n_max (Fin 0) (or_zero (fi_qty fill));
          fillPrice = n_max (Fin 0) (or_zero (fi_price fill));
          fillFeeTotal = n_max (Fin 0) (n_abs (or_zero (fi_feeUsd fill)));
          finish = (\<lambda>nextState acc.
            let gross = round_usd 6 (ma_gross acc); fees = round_usd 6 (ma_fees acc)
            in \<lparr> fr_nextState = nextState, fr_realizedGrossUsd = gross, fr_realizedFeesUsd = fees,
                 fr_realizedNetUsd = round_usd 6 (n_sub gross fees) \<rparr>)
      in if n_le fillQtyTotal (Fin 0) \<or> n_le fillPrice (Fin 0)
         then Some \<lparr> fr_nextState = st, fr_realizedGrossUsd = Fin 0, fr_realizedFeesUsd = Fin 0,
                     fr_realizedNetUsd = Fin 0 \<rparr>
         else if fi_side fill = Sell then
           (case run_matching (\<lambda>p. n_sub fillPrice p) fillFeeTotal fillQtyTotal (longLots st) of
              None \<Rightarrow> None
            | Some (longs, acc) \<Rightarrow>
                Some (finish \<lparr> longLots = longs, shortLots = shortLots st
                        @ open_lot fillPrice fillFeeTotal fillQtyTotal (ma_remaining acc) \<rparr> acc))
         else
           (case run_matching (\<lambda>p. n_sub p fillPrice) fillFeeTotal fillQtyTotal (shortLots st) of
              None \<Rightarrow> None
            | Some (shorts, acc) \<Rightarrow>
                Some (finish \<lparr> longLots = longLots st
                        @ open_lot fillPrice fillFeeTotal fillQtyTotal (ma_remaining acc),
                        shortLots = shorts \<rparr> acc)))"

section \<open>Accounting computes integers\<close>

text \<open>The integer specification: micro-dollars, with the profit above the settled profit feeable.\<close>

definition feeable :: "int \<Rightarrow> int \<Rightarrow> int" where
  "feeable realized settled = max 0 (realized - settled)"

lemma feeable_bounds: "\<bar>r\<bar> \<le> 2 ^ 47 \<Longrightarrow> 0 \<le> s \<Longrightarrow> s \<le> 2 ^ 47 \<Longrightarrow> 0 \<le> feeable r s \<and> feeable r s \<le> 2 ^ 47"
  by (simp add: feeable_def)

lemma accounting_amounts:
  assumes "round_usd 6 (or_zero (ai_realizedClosedPnlUsd i)) = Fin (amt 6 r)" "\<bar>r\<bar> \<le> 2 ^ 47"
    and "round_usd 6 (non_neg (ai_settledProfitUsd i)) = Fin (amt 6 s)" "0 \<le> s" "s \<le> 2 ^ 47"
    and "round_usd 6 (non_neg (ai_payoutProfitUsd i)) = Fin (amt 6 p)" "0 \<le> p" "p \<le> 2 ^ 47"
  shows "ar_realizedClosedPnlUsd (computeProfitShareAccounting i) = Fin (amt 6 r)"
    and "ar_settledProfitBeforeUsd (computeProfitShareAccounting i) = Fin (amt 6 s)"
    and "ar_payoutProfitUsd (computeProfitShareAccounting i) = Fin (amt 6 p)"
    and "ar_feeableProfitCapacityBeforeUsd (computeProfitShareAccounting i) = Fin (amt 6 (feeable r s))"
    and "ar_feeBaseUsd (computeProfitShareAccounting i) = Fin (amt 6 (min p (feeable r s)))"
    and "ar_settledProfitAfterUsd (computeProfitShareAccounting i) = Fin (amt 6 (s + min p (feeable r s)))"
proof -
  have c: "round_usd 6 (n_max (Fin 0) (n_sub (Fin (amt 6 r)) (Fin (amt 6 s)))) = Fin (amt 6 (feeable r s))"
    unfolding feeable_def using assms by (intro round_monus_amt) simp_all
  have f: "0 \<le> feeable r s" "feeable r s \<le> 2 ^ 47" using feeable_bounds assms by blast+
  have b: "round_usd 6 (n_min (Fin (amt 6 p)) (Fin (amt 6 (feeable r s)))) = Fin (amt 6 (min p (feeable r s)))"
    using assms f by (intro round_min_amt) simp_all
  have a: "round_usd 6 (n_add (Fin (amt 6 s)) (Fin (amt 6 (min p (feeable r s)))))
      = Fin (amt 6 (s + min p (feeable r s)))"
    using assms f by (intro round_add_amt) simp_all
  note d = computeProfitShareAccounting_def Let_def
  show "ar_realizedClosedPnlUsd (computeProfitShareAccounting i) = Fin (amt 6 r)"
    "ar_settledProfitBeforeUsd (computeProfitShareAccounting i) = Fin (amt 6 s)"
    "ar_payoutProfitUsd (computeProfitShareAccounting i) = Fin (amt 6 p)"
    "ar_feeableProfitCapacityBeforeUsd (computeProfitShareAccounting i) = Fin (amt 6 (feeable r s))"
    "ar_feeBaseUsd (computeProfitShareAccounting i) = Fin (amt 6 (min p (feeable r s)))"
    "ar_settledProfitAfterUsd (computeProfitShareAccounting i) = Fin (amt 6 (s + min p (feeable r s)))"
    by (simp_all only: d accounting_result.simps assms(1,3,6) a b c)
qed

lemma n_max_zero_cases: "n_max (Fin 0) x = NaN \<or> n_max (Fin 0) x = PInf \<or> (\<exists>y. n_max (Fin 0) x = Fin y \<and> 0 \<le> y)"
  by (cases x) (auto simp: n_max_def)

lemma fl_nonneg: "0 \<le> q \<Longrightarrow> n_le (Fin 0) (fl q)"
  using dbl_nonneg [of q] by (cases "q = 0") (auto simp: fl_def n_le_def)

lemma n_le_zero_cases: "n_le (Fin 0) x \<longleftrightarrow> x = PInf \<or> (\<exists>y. x = Fin y \<and> 0 \<le> y)"
  by (cases x) (auto simp: n_le_def)

lemma round_usd_nonneg: "n_le (Fin 0) x \<Longrightarrow> n_le (Fin 0) (round_usd d x)"
proof -
  assume "n_le (Fin 0) x"
  then consider "x = PInf" | y where "x = Fin y" "0 \<le> y" by (auto simp: n_le_zero_cases)
  then show ?thesis
  proof cases
    case 1
    then show ?thesis by (simp add: round_usd_def n_le_def)
  next
    case 2
    then have "n_le (Fin 0) (fl (y * 10 ^ d))" by (intro fl_nonneg) simp
    then consider "fl (y * 10 ^ d) = PInf" | z where "fl (y * 10 ^ d) = Fin z" "0 \<le> z"
      by (auto simp: n_le_zero_cases)
    then show ?thesis
    proof cases
      case 1
      then show ?thesis using 2 by (simp add: round_usd_def scale10_def n_le_zero_cases inf_of_sign_def)
    next
      case z: 2
      then have "0 \<le> \<lfloor>z + 1 / 2\<rfloor>" by linarith
      then have "n_le (Fin 0) (fl (of_int \<lfloor>z + 1 / 2\<rfloor> / 10 ^ d))" by (intro fl_nonneg) simp
      then show ?thesis using 2 z(1) by (simp add: round_usd_def scale10_def)
    qed
  qed
qed

lemma round_max_zero_nonneg: "n_le (Fin 0) (round_usd d (n_max (Fin 0) x))"
  using n_max_zero_cases [of x] round_usd_nonneg [of "n_max (Fin 0) x" d]
  by (auto simp: n_le_zero_cases round_usd_def [of d NaN])

lemma fee_nonneg: "n_le (Fin 0) (ar_feeAmountUsd (computeProfitShareAccounting i))"
  by (simp add: computeProfitShareAccounting_def Let_def round_max_zero_nonneg)

text \<open>Without a fee base no fee is due, whatever the rate.\<close>

lemma no_base_no_fee:
  "ar_feeBaseUsd (computeProfitShareAccounting i) = Fin 0 \<Longrightarrow>
   ar_feeAmountUsd (computeProfitShareAccounting i) = Fin 0"
proof -
  assume b: "ar_feeBaseUsd (computeProfitShareAccounting i) = Fin 0"
  have "n_mul (Fin 0) x = Fin 0 \<or> n_mul (Fin 0) x = NaN" for x by (cases x) (simp_all add: fl_def)
  then have "round_usd 4 (n_max (Fin 0) (n_mul (Fin 0) x)) = Fin 0" for x
    using round_usd_Fin [of 0 4] by (metis is_finite.simps(4) n_max_def pow2_pos abs_zero less_imp_le
      numeral_le_iff rusd_zero round_usd_def semiring_norm(68) semiring_norm(69) semiring_norm(71))
  with b show ?thesis by (simp add: computeProfitShareAccounting_def Let_def)
qed

lemma or_zero_amt [simp]: "or_zero (Fin x) = Fin x"
  by (simp add: or_zero_def)

lemma non_neg_amt: "0 \<le> k \<Longrightarrow> non_neg (Fin (amt d k)) = Fin (amt d k)"
  using amt_nonneg [of k d] by (simp add: non_neg_def n_le_def)

text \<open>The rate of an accounting in percent, 30 when none is given, and the fee at that rate.\<close>

definition rate_of :: "jsnum option \<Rightarrow> jsnum" where
  "rate_of rate = opt_get rate DEFAULT_SETTLEMENT_FEE_RATE_PCT"

lemma rate_units:
  assumes "moderate (rate_of rate)" "dollars (rate_of rate) \<le> 100"
  shows "\<exists>g. 0 \<le> g \<and> g \<le> 10 ^ 8 \<and> round_usd 6 (non_neg (opt_get rate DEFAULT_SETTLEMENT_FEE_RATE_PCT)) = Fin (amt 6 g) \<and>
    \<bar>of_int g - max 0 (dollars (rate_of rate)) * 10 ^ 6\<bar> \<le> 33 / 64"
proof -
  obtain g where g: "0 \<le> g" "round_usd 6 (non_neg (rate_of rate)) = Fin (amt 6 g)" "\<bar>of_int g - max 0 (dollars (rate_of rate)) * 10 ^ 6\<bar> \<le> 33 / 64"
    using input_non_neg_near [OF assms(1)] by blast
  have "max 0 (dollars (rate_of rate)) * 10 ^ 6 \<le> 10 ^ 8" using assms(2) by simp
  then have "(of_int g :: rat) \<le> 10 ^ 8 + 33 / 64" using g(3) by linarith
  then have "(of_int g :: rat) < of_int (10 ^ 8 + 1)" by simp
  then have "g \<le> 10 ^ 8" by (simp only: of_int_less_iff)
  then show ?thesis using g by (auto simp: rate_of_def)
qed

lemma accounting_fee:
  assumes "ar_feeBaseUsd (computeProfitShareAccounting i) = Fin (amt 6 b)" "0 \<le> b" "b \<le> 2 ^ 47"
    and "round_usd 6 (non_neg (opt_get (ai_feeRatePct i) DEFAULT_SETTLEMENT_FEE_RATE_PCT)) = Fin (amt 6 g)" "0 \<le> g" "g \<le> 10 ^ 8"
  shows "\<exists>k. 0 \<le> k \<and> \<bar>of_int k - of_int b * of_int g / 10 ^ 10\<bar> \<le> (51 / 100 :: rat) \<and>
    ar_feeAmountUsd (computeProfitShareAccounting i) = Fin (amt 4 k) \<and> ar_feeRatePct (computeProfitShareAccounting i) = Fin (amt 6 g)"
proof -
  have "fee_of b g * 10 ^ 4 = of_int b * of_int g / 10 ^ 10" by (simp add: fee_of_def)
  moreover have "ar_feeAmountUsd (computeProfitShareAccounting i) =
      round_usd 4 (n_max (Fin 0) (n_mul (ar_feeBaseUsd (computeProfitShareAccounting i)) (n_div (ar_feeRatePct (computeProfitShareAccounting i)) (Fin 100))))"
    "ar_feeRatePct (computeProfitShareAccounting i) = Fin (amt 6 g)"
    unfolding assms(4) [symmetric] by (simp_all only: computeProfitShareAccounting_def Let_def accounting_result.simps)
  ultimately show ?thesis using fee_rounded [OF assms(2,3,5,6)] unfolding assms(1) by metis
qed

text \<open>C9: For amounts that are not finite or below 134 million dollars and a rate of at most 100 percent the floating-point
  accounting computes integer accounting in micro-dollars. The integers \<open>r\<close>, \<open>s\<close>, \<open>p\<close> and \<open>g\<close> are the realised profit,
  the settled profit, the payout and the rate of the input, each rounded to the nearest millionth (negative and
  non-finite ones read as zero, save a negative realised profit). The capacity is the realised profit above the settled
  one, the fee base \<open>b\<close> the smaller of payout and capacity, the new settled profit the old one plus the base, and the fee,
  in units of a hundredth of a cent, the rate of the base rounded to a nearest unit (within 0.51 of one). So the settled profit
  never falls and never passes the larger of its old value and the realised profit.\<close>

theorem accounting_exact:
  assumes "moderate (ai_realizedClosedPnlUsd i)" "moderate (ai_settledProfitUsd i)" "moderate (ai_payoutProfitUsd i)"
    and "moderate (rate_of (ai_feeRatePct i))" "dollars (rate_of (ai_feeRatePct i)) \<le> 100"
  shows "\<exists>r s p g k. let b = min p (max 0 (r - s)); res = computeProfitShareAccounting i in
    \<bar>of_int r - dollars (ai_realizedClosedPnlUsd i) * 10 ^ 6\<bar> \<le> 33 / 64 \<and>
    \<bar>of_int s - max 0 (dollars (ai_settledProfitUsd i)) * 10 ^ 6\<bar> \<le> 33 / 64 \<and>
    \<bar>of_int p - max 0 (dollars (ai_payoutProfitUsd i)) * 10 ^ 6\<bar> \<le> 33 / 64 \<and>
    \<bar>of_int g - max 0 (dollars (rate_of (ai_feeRatePct i))) * 10 ^ 6\<bar> \<le> 33 / 64 \<and> 0 \<le> s \<and> 0 \<le> p \<and> 0 \<le> g \<and>
    ar_realizedClosedPnlUsd res = Fin (amt 6 r) \<and> ar_settledProfitBeforeUsd res = Fin (amt 6 s) \<and>
    ar_payoutProfitUsd res = Fin (amt 6 p) \<and> ar_feeRatePct res = Fin (amt 6 g) \<and>
    ar_feeableProfitCapacityBeforeUsd res = Fin (amt 6 (max 0 (r - s))) \<and> ar_feeBaseUsd res = Fin (amt 6 b) \<and>
    ar_settledProfitAfterUsd res = Fin (amt 6 (s + b)) \<and> s \<le> s + b \<and> s + b \<le> max s r \<and>
    ar_feeAmountUsd res = Fin (amt 4 k) \<and> 0 \<le> k \<and> \<bar>of_int k - of_int b * of_int g / 10 ^ 10\<bar> \<le> (51 / 100 :: rat)"
proof -
  obtain r where r: "\<bar>r\<bar> \<le> 2 ^ 47" "round_usd 6 (or_zero (ai_realizedClosedPnlUsd i)) = Fin (amt 6 r)"
      "\<bar>of_int r - dollars (ai_realizedClosedPnlUsd i) * 10 ^ 6\<bar> \<le> 33 / 64"
    using input_near [OF assms(1)] by blast
  obtain s where s: "0 \<le> s" "s \<le> 2 ^ 47" "round_usd 6 (non_neg (ai_settledProfitUsd i)) = Fin (amt 6 s)"
      "\<bar>of_int s - max 0 (dollars (ai_settledProfitUsd i)) * 10 ^ 6\<bar> \<le> 33 / 64"
    using input_non_neg_near [OF assms(2)] by blast
  obtain p where p: "0 \<le> p" "p \<le> 2 ^ 47" "round_usd 6 (non_neg (ai_payoutProfitUsd i)) = Fin (amt 6 p)"
      "\<bar>of_int p - max 0 (dollars (ai_payoutProfitUsd i)) * 10 ^ 6\<bar> \<le> 33 / 64"
    using input_non_neg_near [OF assms(3)] by blast
  obtain g where g: "0 \<le> g" "g \<le> 10 ^ 8" "round_usd 6 (non_neg (opt_get (ai_feeRatePct i) DEFAULT_SETTLEMENT_FEE_RATE_PCT)) = Fin (amt 6 g)"
      "\<bar>of_int g - max 0 (dollars (rate_of (ai_feeRatePct i))) * 10 ^ 6\<bar> \<le> 33 / 64"
    using rate_units [OF assms(4,5)] by blast
  note a = accounting_amounts [OF r(2,1) s(3,1,2) p(3,1,2), unfolded feeable_def]
  define b where "b = min p (max 0 (r - s))"
  have b: "0 \<le> b" "b \<le> 2 ^ 47" "s + b \<le> max s r" using p by (auto simp: b_def)
  obtain k where k: "0 \<le> k" "\<bar>of_int k - of_int b * of_int g / 10 ^ 10\<bar> \<le> (51 / 100 :: rat)"
      "ar_feeAmountUsd (computeProfitShareAccounting i) = Fin (amt 4 k)" "ar_feeRatePct (computeProfitShareAccounting i) = Fin (amt 6 g)"
    using accounting_fee [OF a(5) [folded b_def] b(1,2) g(3,1,2)] by blast
  show ?thesis
    unfolding Let_def
    by (rule exI [of _ r], rule exI [of _ s], rule exI [of _ p], rule exI [of _ g], rule exI [of _ k],
        intro conjI r(3) s(4,1) p(4,1) g(4,1) a k(4)
        k [unfolded b_def] b(3) [unfolded b_def]) (use b(1) b_def in simp)
qed

definition sample_accounting :: accounting_input where
  "sample_accounting = \<lparr> ai_realizedClosedPnlUsd = Fin 100, ai_settledProfitUsd = Fin 30,
     ai_payoutProfitUsd = Fin 50, ai_feeRatePct = None \<rparr>"

theorem accounting_exact_witness:
  "\<exists>k. ar_feeAmountUsd (computeProfitShareAccounting sample_accounting) = Fin (amt 4 k) \<and>
   ar_feeAmountUsd (computeProfitShareAccounting sample_accounting) = Fin 15 \<and>
   ar_feeBaseUsd (computeProfitShareAccounting sample_accounting) = Fin 50"
proof -
  have "ar_feeAmountUsd (computeProfitShareAccounting sample_accounting) = Fin 15"
    "ar_feeBaseUsd (computeProfitShareAccounting sample_accounting) = Fin 50" by code_simp+
  moreover have "moderate (ai_realizedClosedPnlUsd sample_accounting)"
    "moderate (ai_settledProfitUsd sample_accounting)" "moderate (ai_payoutProfitUsd sample_accounting)"
    "moderate (rate_of (ai_feeRatePct sample_accounting))" "dollars (rate_of (ai_feeRatePct sample_accounting)) \<le> 100"
    by (simp_all add: sample_accounting_def moderate_def rate_of_def opt_get_def DEFAULT_SETTLEMENT_FEE_RATE_PCT_def dollars_def)
  note accounting_exact [OF this]
  ultimately show ?thesis unfolding Let_def by blast
qed

text \<open>The amounts of a final close, and its fee.\<close>

lemma final_accounting:
  assumes "si_mode i = FINAL_CLOSE" "0 \<le> a" "a \<le> 2 ^ 47" "round_usd 6 (non_neg (si_availableUsd i)) = Fin (amt 6 a)"
    and "0 \<le> q" "q \<le> 2 ^ 47" "round_usd 6 (non_neg (si_principalOutstandingUsd i)) = Fin (amt 6 q)"
    and "\<bar>r\<bar> \<le> 2 ^ 47" "round_usd 6 (or_zero (si_realizedPnlNetUsd i)) = Fin (amt 6 r)"
    and "0 \<le> h" "h \<le> 2 ^ 47" "round_usd 6 (non_neg (si_highWaterMarkUsd i)) = Fin (amt 6 h)"
  defines "res \<equiv> computeFeeSettlementMath i"
    and "acc \<equiv> computeProfitShareAccounting \<lparr> ai_realizedClosedPnlUsd = Fin (amt 6 r), ai_settledProfitUsd = Fin (amt 6 h),
      ai_payoutProfitUsd = Fin (amt 6 (a - min a q)),
      ai_feeRatePct = Some (non_neg (opt_get (si_feeRatePct i) DEFAULT_SETTLEMENT_FEE_RATE_PCT)) \<rparr>"
  shows "sr_grossTransferUsd res = Fin (amt 6 a)" "sr_principalComponentUsd res = Fin (amt 6 (min a q))"
    "sr_realizedProfitComponentUsd res = Fin (amt 6 (a - min a q))" "sr_reservedReleaseUsd res = Fin (amt 6 q)"
    "sr_feeBaseUsd res = ar_feeBaseUsd acc" "sr_highWaterMarkBeforeUsd res = Fin (amt 6 h)"
    "sr_highWaterMarkAfterUsd res = ar_settledProfitAfterUsd acc" "sr_feeAmountUsd res = ar_feeAmountUsd acc"
    "sr_netTransferUsd res = round_usd 6 (n_max (Fin 0) (n_sub (Fin (amt 6 a)) (ar_feeAmountUsd acc)))"
    "ar_feeBaseUsd acc = Fin (amt 6 (min (a - min a q) (max 0 (r - h))))"
    "ar_settledProfitAfterUsd acc = Fin (amt 6 (h + min (a - min a q) (max 0 (r - h))))"
proof -
  have ra: "round_usd 6 (Fin (amt 6 k)) = Fin (amt 6 k)" if "\<bar>k\<bar> \<le> 2 ^ 47" for k
    using that by (intro round_amt) simp_all
  have m: "round_usd 6 (n_min (Fin (amt 6 a)) (Fin (amt 6 q))) = Fin (amt 6 (min a q))"
    using assms by (intro round_min_amt) simp_all
  have p: "round_usd 6 (n_max (Fin 0) (n_sub (Fin (amt 6 a)) (Fin (amt 6 (min a q))))) = Fin (amt 6 (a - min a q))"
    using assms round_monus_amt [of a "min a q" 6] by simp
  have raa: "round_usd 6 (Fin (amt 6 a)) = Fin (amt 6 a)" using assms by (intro ra) simp
  have p0: "0 \<le> a - min a q" "a - min a q \<le> 2 ^ 47" using assms by auto
  show "sr_grossTransferUsd res = Fin (amt 6 a)" "sr_principalComponentUsd res = Fin (amt 6 (min a q))"
    "sr_realizedProfitComponentUsd res = Fin (amt 6 (a - min a q))" "sr_reservedReleaseUsd res = Fin (amt 6 q)"
    "sr_feeBaseUsd res = ar_feeBaseUsd acc" "sr_highWaterMarkBeforeUsd res = Fin (amt 6 h)"
    "sr_highWaterMarkAfterUsd res = ar_settledProfitAfterUsd acc" "sr_feeAmountUsd res = ar_feeAmountUsd acc"
    "sr_netTransferUsd res = round_usd 6 (n_max (Fin 0) (n_sub (Fin (amt 6 a)) (ar_feeAmountUsd acc)))"
    unfolding res_def acc_def
    by (simp_all only: computeFeeSettlementMath_def Let_def settlement_result.simps assms(1) simp_thms if_True
          assms(4,7,9,12) raa m p)
  have "round_usd 6 (or_zero (Fin (amt 6 r))) = Fin (amt 6 r)" "round_usd 6 (non_neg (Fin (amt 6 h))) = Fin (amt 6 h)"
    "round_usd 6 (non_neg (Fin (amt 6 (a - min a q)))) = Fin (amt 6 (a - min a q))"
    using assms p0 by (simp_all add: ra non_neg_amt)
  note x = accounting_amounts [where i = "\<lparr> ai_realizedClosedPnlUsd = Fin (amt 6 r), ai_settledProfitUsd = Fin (amt 6 h),
      ai_payoutProfitUsd = Fin (amt 6 (a - min a q)), ai_feeRatePct = Some (non_neg (opt_get (si_feeRatePct i) DEFAULT_SETTLEMENT_FEE_RATE_PCT)) \<rparr>",
      unfolded accounting_input.simps, OF this(1) assms(8) this(2) assms(10,11) this(3) p0]
  show "ar_feeBaseUsd acc = Fin (amt 6 (min (a - min a q) (max 0 (r - h))))"
    "ar_settledProfitAfterUsd acc = Fin (amt 6 (h + min (a - min a q) (max 0 (r - h))))"
    using x(5,6) unfolding acc_def feeable_def by simp_all
qed

text \<open>The fee of a final close and what is left after it.\<close>

lemma fee_units_le:
  assumes "0 \<le> b" "b \<le> 2 ^ 47" "0 \<le> g" "g \<le> 10 ^ 8" "\<bar>of_int k - of_int b * of_int g / 10 ^ 10\<bar> \<le> (51 / 100 :: rat)"
  shows "100 * k \<le> 2 ^ 48"
proof -
  have "b * g \<le> 2 ^ 47 * 10 ^ 8" using assms by (intro mult_mono) auto
  then have "(of_int (b * g) :: rat) \<le> of_int (2 ^ 47 * 10 ^ 8)" by (simp only: of_int_le_iff)
  then have "(of_int b * of_int g :: rat) \<le> 14073748835532800000000" by simp
  then have "of_int b * of_int g / 10 ^ 10 \<le> (1407374883553 + 28 / 100 :: rat)" by simp
  then have "(of_int k :: rat) \<le> 1407374883554" using assms(5) by (simp only: abs_le_iff) linarith
  then have "(of_int k :: rat) \<le> of_int 1407374883554" by simp
  then have "k \<le> 1407374883554" by (simp only: of_int_le_iff)
  then show ?thesis by simp
qed

lemma final_fee:
  assumes "si_mode i = FINAL_CLOSE" "0 \<le> a" "a \<le> 2 ^ 47" "round_usd 6 (non_neg (si_availableUsd i)) = Fin (amt 6 a)"
    and "0 \<le> q" "q \<le> 2 ^ 47" "round_usd 6 (non_neg (si_principalOutstandingUsd i)) = Fin (amt 6 q)"
    and "\<bar>r\<bar> \<le> 2 ^ 47" "round_usd 6 (or_zero (si_realizedPnlNetUsd i)) = Fin (amt 6 r)"
    and "0 \<le> h" "h \<le> 2 ^ 47" "round_usd 6 (non_neg (si_highWaterMarkUsd i)) = Fin (amt 6 h)"
    and "0 \<le> g" "g \<le> 10 ^ 8" "round_usd 6 (non_neg (opt_get (si_feeRatePct i) DEFAULT_SETTLEMENT_FEE_RATE_PCT)) = Fin (amt 6 g)"
  shows "\<exists>k. 0 \<le> k \<and> \<bar>of_int k - of_int (min (a - min a q) (max 0 (r - h))) * of_int g / 10 ^ 10\<bar> \<le> (51 / 100 :: rat) \<and>
    sr_feeAmountUsd (computeFeeSettlementMath i) = Fin (amt 4 k) \<and>
    sr_netTransferUsd (computeFeeSettlementMath i) = Fin (amt 6 (max 0 (a - 100 * k)))"
proof -
  note fin = final_accounting [OF assms(1-12)]
  have rate: "non_neg (opt_get (Some (non_neg x)) y) = non_neg x" for x y
    by (auto simp: opt_get_def non_neg_def n_le_def)
  have b: "0 \<le> min (a - min a q) (max 0 (r - h))" "min (a - min a q) (max 0 (r - h)) \<le> 2 ^ 47" using assms(2,3,5) by auto
  obtain k where k: "0 \<le> k" "\<bar>of_int k - of_int (min (a - min a q) (max 0 (r - h))) * of_int g / 10 ^ 10\<bar> \<le> (51 / 100 :: rat)"
      "sr_feeAmountUsd (computeFeeSettlementMath i) = Fin (amt 4 k)"
    using accounting_fee [OF fin(10) b, where g = g] assms(13-15) unfolding accounting_input.simps rate fin(8) by blast
  have "amt 4 k = amt 6 (100 * k)" by (simp add: amt_def)
  moreover have "round_usd 6 (n_max (Fin 0) (n_sub (Fin (amt 6 a)) (Fin (amt 6 (100 * k))))) = Fin (amt 6 (max 0 (a - 100 * k)))"
    using assms(2,3) k(1) fee_units_le [OF b assms(13,14) k(2)] by (intro round_monus_amt) simp_all
  ultimately have "sr_netTransferUsd (computeFeeSettlementMath i) = Fin (amt 6 (max 0 (a - 100 * k)))"
    using k(3) unfolding fin(9) fin(8) by simp
  then show ?thesis using k by blast
qed

text \<open>C20: A final close transfers all that is available and splits it exactly, whatever was requested. The integers \<open>a\<close>,
  \<open>q\<close>, \<open>r\<close>, \<open>h\<close> and \<open>g\<close> are the available amount, the outstanding principal, the realised profit, the high-water mark
  and the rate of the input, rounded to the nearest millionth. The gross transfer is the available amount; it
  splits into principal (at most what is outstanding) and profit; the whole outstanding principal is released; the high-water
  mark rises by the fee base \<open>b\<close>, that is by at most the profit; the fee is the rate of the base, rounded to a
  nearest hundredth of a cent (within 0.51 of it), and the net transfer is the gross less the fee.\<close>

theorem final_close_exact:
  assumes "si_mode i = FINAL_CLOSE" "moderate (si_availableUsd i)" "moderate (si_principalOutstandingUsd i)"
    and "moderate (si_realizedPnlNetUsd i)" "moderate (si_highWaterMarkUsd i)"
    and "moderate (rate_of (si_feeRatePct i))" "dollars (rate_of (si_feeRatePct i)) \<le> 100"
  shows "\<exists>a q r h g k. let b = min (a - min a q) (max 0 (r - h)); res = computeFeeSettlementMath i in
    \<bar>of_int a - max 0 (dollars (si_availableUsd i)) * 10 ^ 6\<bar> \<le> 33 / 64 \<and>
    \<bar>of_int q - max 0 (dollars (si_principalOutstandingUsd i)) * 10 ^ 6\<bar> \<le> 33 / 64 \<and>
    \<bar>of_int r - dollars (si_realizedPnlNetUsd i) * 10 ^ 6\<bar> \<le> 33 / 64 \<and>
    \<bar>of_int h - max 0 (dollars (si_highWaterMarkUsd i)) * 10 ^ 6\<bar> \<le> 33 / 64 \<and>
    \<bar>of_int g - max 0 (dollars (rate_of (si_feeRatePct i))) * 10 ^ 6\<bar> \<le> 33 / 64 \<and>
    0 \<le> a \<and> 0 \<le> q \<and> 0 \<le> h \<and> 0 \<le> g \<and> sr_grossTransferUsd res = Fin (amt 6 a) \<and>
    sr_principalComponentUsd res = Fin (amt 6 (min a q)) \<and> sr_realizedProfitComponentUsd res = Fin (amt 6 (a - min a q)) \<and>
    sr_reservedReleaseUsd res = Fin (amt 6 q) \<and> sr_feeBaseUsd res = Fin (amt 6 b) \<and>
    sr_highWaterMarkBeforeUsd res = Fin (amt 6 h) \<and> sr_highWaterMarkAfterUsd res = Fin (amt 6 (h + b)) \<and>
    sr_feeAmountUsd res = Fin (amt 4 k) \<and> 0 \<le> k \<and> \<bar>of_int k - of_int b * of_int g / 10 ^ 10\<bar> \<le> (51 / 100 :: rat) \<and>
    sr_netTransferUsd res = Fin (amt 6 (max 0 (a - 100 * k)))"
proof -
  obtain a where a: "0 \<le> a" "a \<le> 2 ^ 47" "round_usd 6 (non_neg (si_availableUsd i)) = Fin (amt 6 a)"
      "\<bar>of_int a - max 0 (dollars (si_availableUsd i)) * 10 ^ 6\<bar> \<le> 33 / 64"
    using input_non_neg_near [OF assms(2)] by blast
  obtain q where q: "0 \<le> q" "q \<le> 2 ^ 47" "round_usd 6 (non_neg (si_principalOutstandingUsd i)) = Fin (amt 6 q)"
      "\<bar>of_int q - max 0 (dollars (si_principalOutstandingUsd i)) * 10 ^ 6\<bar> \<le> 33 / 64"
    using input_non_neg_near [OF assms(3)] by blast
  obtain r where r: "\<bar>r\<bar> \<le> 2 ^ 47" "round_usd 6 (or_zero (si_realizedPnlNetUsd i)) = Fin (amt 6 r)"
      "\<bar>of_int r - dollars (si_realizedPnlNetUsd i) * 10 ^ 6\<bar> \<le> 33 / 64"
    using input_near [OF assms(4)] by blast
  obtain h where h: "0 \<le> h" "h \<le> 2 ^ 47" "round_usd 6 (non_neg (si_highWaterMarkUsd i)) = Fin (amt 6 h)"
      "\<bar>of_int h - max 0 (dollars (si_highWaterMarkUsd i)) * 10 ^ 6\<bar> \<le> 33 / 64"
    using input_non_neg_near [OF assms(5)] by blast
  obtain g where g: "0 \<le> g" "g \<le> 10 ^ 8" "round_usd 6 (non_neg (opt_get (si_feeRatePct i) DEFAULT_SETTLEMENT_FEE_RATE_PCT)) = Fin (amt 6 g)"
      "\<bar>of_int g - max 0 (dollars (rate_of (si_feeRatePct i))) * 10 ^ 6\<bar> \<le> 33 / 64"
    using rate_units [OF assms(6,7)] by blast
  define b where "b = min (a - min a q) (max 0 (r - h))"
  have b: "0 \<le> b" "b \<le> 2 ^ 47" using a q by (auto simp: b_def)
  obtain k where k: "0 \<le> k" "\<bar>of_int k - of_int b * of_int g / 10 ^ 10\<bar> \<le> (51 / 100 :: rat)" "sr_feeAmountUsd (computeFeeSettlementMath i) = Fin (amt 4 k)"
      "sr_netTransferUsd (computeFeeSettlementMath i) = Fin (amt 6 (max 0 (a - 100 * k)))"
    using final_fee [OF assms(1) a(1-3) q(1-3) r(1,2) h(1-3) g(1-3)] unfolding b_def by blast
  note f = final_accounting [OF assms(1) a(1-3) q(1-3) r(1,2) h(1-3)]
  show ?thesis
    unfolding Let_def
    by (rule exI [of _ a], rule exI [of _ q], rule exI [of _ r], rule exI [of _ h], rule exI [of _ g], rule exI [of _ k],
        intro conjI a(4,1) q(4,1) r(3) h(4,1) g(4,1)
        f(1-4,6) trans [OF f(5,10)] trans [OF f(7,11)] k [unfolded b_def])
qed

definition sample_settlement :: settlement_input where
  "sample_settlement = \<lparr> si_mode = FINAL_CLOSE, si_requestedGrossUsd = None, si_availableUsd = Fin 150,
     si_principalOutstandingUsd = Fin 100, si_realizedPnlNetUsd = Fin 45, si_highWaterMarkUsd = Fin 5,
     si_feeRatePct = Some (Fin 30) \<rparr>"

theorem final_close_exact_witness:
  "\<exists>a k. sr_grossTransferUsd (computeFeeSettlementMath sample_settlement) = Fin (amt 6 a) \<and>
     sr_netTransferUsd (computeFeeSettlementMath sample_settlement) = Fin (amt 6 (max 0 (a - 100 * k))) \<and>
     sr_feeAmountUsd (computeFeeSettlementMath sample_settlement) = Fin (amt 4 k) \<and>
     sr_feeAmountUsd (computeFeeSettlementMath sample_settlement) = Fin 12"
proof -
  have "sr_feeAmountUsd (computeFeeSettlementMath sample_settlement) = Fin 12" by code_simp
  moreover have "si_mode sample_settlement = FINAL_CLOSE" "moderate (si_availableUsd sample_settlement)"
    "moderate (si_principalOutstandingUsd sample_settlement)" "moderate (si_realizedPnlNetUsd sample_settlement)"
    "moderate (si_highWaterMarkUsd sample_settlement)" "moderate (rate_of (si_feeRatePct sample_settlement))"
    "dollars (rate_of (si_feeRatePct sample_settlement)) \<le> 100"
    by (simp_all add: sample_settlement_def moderate_def rate_of_def opt_get_def dollars_def)
  note final_close_exact [OF this]
  ultimately show ?thesis unfolding Let_def by blast
qed

text \<open>C21: In the integer form the fee base is the payout capped by the positive realised profit above
  the high-water mark; for a non-negative payout and a rate of at most 100 percent the fee is the
  rate of the base rounded down, it never exceeds the base, and the high-water mark rises by the
  base and stays below the larger of its old value and the realised profit.\<close>

theorem v4_profit_share:
  assumes "0 \<le> vp_payoutProfitRaw p" "0 \<le> vp_feeRatePctRaw p" "vp_feeRatePctRaw p \<le> 100"
  shows "let res = computeV4ProfitShareRaw fmt prs p;
             R = vr_realizedClosedPnlRaw res; H = vr_highWaterMarkBeforeRaw res; b = vr_feeBaseRaw res;
             f = vr_feeAmountRaw res
         in b = min (vp_payoutProfitRaw p) (max 0 (max 0 R - H)) \<and>
            100 * f \<le> b * vp_feeRatePctRaw p \<and> b * vp_feeRatePctRaw p < 100 * f + 100 \<and>
            0 \<le> f \<and> f \<le> b \<and> vr_highWaterMarkAfterRaw res = H + b \<and>
            H \<le> H + b \<and> (R \<le> H \<longrightarrow> b = 0 \<or> R < 0) \<and> (0 \<le> R \<longrightarrow> H + b \<le> max H R)"
proof -
  let ?res = "computeV4ProfitShareRaw fmt prs p"
  define b where "b = vr_feeBaseRaw ?res"
  define x where "x = b * vp_feeRatePctRaw p"
  have b: "b = min (vp_payoutProfitRaw p) (max 0 (max 0 (vr_realizedClosedPnlRaw ?res) - vr_highWaterMarkBeforeRaw ?res))"
    by (simp add: b_def computeV4ProfitShareRaw_def Let_def min_def max_def)
  have b0: "0 \<le> b" using b assms(1) by simp
  have x0: "0 \<le> x" "x \<le> b * 100" using b0 assms by (simp_all add: x_def mult_left_mono)
  have "vr_feeAmountRaw ?res = big_div x 100"
    by (simp add: x_def b_def computeV4ProfitShareRaw_def Let_def)
  then have f: "vr_feeAmountRaw ?res = x div 100" using x0 by (simp add: big_div_def)
  have after: "vr_highWaterMarkAfterRaw ?res = vr_highWaterMarkBeforeRaw ?res + b"
    by (simp add: b_def computeV4ProfitShareRaw_def Let_def)
  have "100 * (x div 100) \<le> x \<and> x < 100 * (x div 100) + 100" by presburger
  moreover have "0 \<le> x div 100 \<and> x div 100 \<le> b" using x0 by linarith
  moreover define R H where "R = vr_realizedClosedPnlRaw ?res" and "H = vr_highWaterMarkBeforeRaw ?res"
  moreover have "(R \<le> H \<longrightarrow> b = 0 \<or> R < 0) \<and> (0 \<le> R \<longrightarrow> H + b \<le> max H R)"
    using b b0 unfolding R_def [symmetric] H_def [symmetric] by linarith
  ultimately show ?thesis
    unfolding Let_def f b_def [symmetric] after using b b0 by (simp add: x_def)
qed

definition sample_v4 :: v4_params where
  "sample_v4 = \<lparr> vp_payoutProfitRaw = 5000000, vp_feeRatePctRaw = 30, vp_realizedClosedPnlUsd = Fin 100,
     vp_highWaterMarkBeforeUsd = Fin 97 \<rparr>"

text \<open>A decimal reader for six-digit texts and a printer, in place of the package's functions.\<close>

definition sample_prs :: "string \<Rightarrow> int" where
  "sample_prs s = digits_val 10 0 (filter is_digit s)"

definition sample_fmt :: "int \<Rightarrow> string" where
  "sample_fmt k = nat_str (k div 10 ^ 6) @ ''.'' @ drop 1 (nat_str (10 ^ 6 + k mod 10 ^ 6))"

theorem v4_profit_share_witness:
  "vr_feeBaseRaw (computeV4ProfitShareRaw sample_fmt sample_prs sample_v4) = 3000000 \<and>
   vr_feeAmountRaw (computeV4ProfitShareRaw sample_fmt sample_prs sample_v4) = 900000 \<and>
   vr_feeAmountRaw (computeV4ProfitShareRaw sample_fmt sample_prs sample_v4) \<le> 3000000"
proof -
  have atomic: "toSignedAtomicUsd sample_prs (Fin 100) = 100000000" "toAtomicUsd sample_prs (Fin 97) = 97000000"
    by code_simp+
  have "vr_feeBaseRaw (computeV4ProfitShareRaw sample_fmt sample_prs sample_v4) = 3000000"
    "vr_feeAmountRaw (computeV4ProfitShareRaw sample_fmt sample_prs sample_v4) = 900000"
    by (simp_all add: computeV4ProfitShareRaw_def Let_def sample_v4_def atomic big_div_def)
  moreover have "0 \<le> vp_payoutProfitRaw sample_v4" "0 \<le> vp_feeRatePctRaw sample_v4" "vp_feeRatePctRaw sample_v4 \<le> 100"
    by (simp_all add: sample_v4_def)
  note v4_profit_share [OF this, of sample_fmt sample_prs]
  ultimately show ?thesis by (simp add: Let_def)
qed

section \<open>Lemmas on matching\<close>

text \<open>A quantity that is not negative; the invariant of a state is that no lot has a negative one.\<close>

definition not_neg :: "jsnum \<Rightarrow> bool" where
  "not_neg x \<longleftrightarrow> \<not> n_lt x (Fin 0)"

definition lots_ok :: "lot list \<Rightarrow> bool" where
  "lots_ok ls \<longleftrightarrow> list_all (\<lambda>l. not_neg (lot_qty l)) ls"

definition one_sided :: "matching_state \<Rightarrow> bool" where
  "one_sided st \<longleftrightarrow> longLots st = [] \<or> shortLots st = []"

definition matching_ok :: "matching_state \<Rightarrow> bool" where
  "matching_ok st \<longleftrightarrow> lots_ok (longLots st) \<and> lots_ok (shortLots st) \<and> one_sided st"

lemma fl_zero [simp]: "fl 0 = Fin 0"
  by (simp add: fl_def)

lemma fixed_zero [simp]: "fixed_num d (Fin 0) = Fin 0"
  by (simp add: Let_def)

lemma not_neg_fl: "0 \<le> q \<Longrightarrow> not_neg (fl q)"
  using fl_nonneg [of q] by (auto simp: not_neg_def n_le_zero_cases)

lemma not_neg_fixed: "not_neg x \<Longrightarrow> not_neg (fixed_num d x)"
proof (cases x)
  case (Fin y)
  assume "not_neg x"
  then have "0 \<le> y" using Fin by (simp add: not_neg_def)
  then have "0 \<le> \<lfloor>y * 10 ^ d + 1 / 2\<rfloor>" by simp
  then have "not_neg (fl (of_int \<lfloor>y * 10 ^ d + 1 / 2\<rfloor> / 10 ^ d))" by (intro not_neg_fl) simp
  with \<open>0 \<le> y\<close> show ?thesis using Fin by (simp add: Let_def not_neg_def)
qed (simp_all add: not_neg_def)

text \<open>One turn empties the lot or uses up the fill, and the lot's quantity stays non-negative.\<close>

lemma match_one_progress:
  assumes "match_one pnl fee tot l acc = (l', acc')" "not_neg (lot_qty l)" "n_lt (Fin 0) (ma_remaining acc)"
  shows "(n_le (lot_qty l') (Fin 0) \<or> \<not> n_lt (Fin 0) (ma_remaining acc')) \<and> not_neg (lot_qty l') \<and>
    lot_price l' = lot_price l"
proof -
  let ?m = "n_min (ma_remaining acc) (lot_qty l)"
  have q': "lot_qty l' = fixed_num 12 (n_sub (lot_qty l) ?m)"
    and r': "ma_remaining acc' = fixed_num 12 (n_sub (ma_remaining acc) ?m)" and "lot_price l' = lot_price l"
    using assms(1) by (auto simp: match_one_def Let_def)
  have f: "n_lt (fl y) (Fin 0) = False" if "0 \<le> y" for y
    using not_neg_fl [OF that] by (simp add: not_neg_def)
  have "(n_sub (lot_qty l) ?m = Fin 0 \<or> n_sub (ma_remaining acc) ?m = Fin 0 \<or> n_sub (ma_remaining acc) ?m = NaN)
      \<and> not_neg (n_sub (lot_qty l) ?m)"
    using assms(2,3)
    by (cases "lot_qty l"; cases "ma_remaining acc") (auto simp: n_min_def n_sub_def not_neg_def f)
  then show ?thesis
    using \<open>lot_price l' = lot_price l\<close> not_neg_fixed [of "n_sub (lot_qty l) ?m" 12]
    by (auto simp: q' r' n_le_def simp del: fixed_num.simps(1))
qed

lemma match_loop_stop:
  "\<not> n_lt (Fin 0) (ma_remaining acc) \<Longrightarrow> match_loop pnl fee tot fuel ls acc = Some (ls, acc)"
  by (cases ls) simp_all

text \<open>One turn per lot is enough fuel. The loop consumes lots from the front and stops with all of
  them used or nothing of the fill remaining.\<close>

lemma match_loop_total:
  "lots_ok ls \<Longrightarrow> length ls \<le> fuel \<Longrightarrow>
   \<exists>ls' acc' k. match_loop pnl fee tot fuel ls acc = Some (ls', acc') \<and> lots_ok ls' \<and>
     (ls' = [] \<or> \<not> n_lt (Fin 0) (ma_remaining acc')) \<and> map lot_price ls' = drop k (map lot_price ls)"
proof (induction ls arbitrary: fuel acc)
  case Nil
  show ?case by (simp add: lots_ok_def)
next
  case (Cons l ls)
  show ?case
  proof (cases "n_lt (Fin 0) (ma_remaining acc)")
    case False
    then show ?thesis using Cons.prems(1) by (intro exI [of _ "l # ls"] exI [of _ acc] exI [of _ 0]) simp
  next
    case True
    obtain fuel' where fuel: "fuel = Suc fuel'" "length ls \<le> fuel'" using Cons.prems(2) by (cases fuel) auto
    obtain l' acc' where one: "match_one pnl fee tot l acc = (l', acc')" by fastforce
    have ok: "not_neg (lot_qty l)" "lots_ok ls" using Cons.prems(1) by (simp_all add: lots_ok_def)
    note p = match_one_progress [OF one ok(1) True]
    show ?thesis
    proof (cases "n_le (lot_qty l') (Fin 0)")
      case emptied: True
      obtain ls' acc'' k where r: "match_loop pnl fee tot fuel' ls acc' = Some (ls', acc'')" "lots_ok ls'"
          "ls' = [] \<or> \<not> n_lt (Fin 0) (ma_remaining acc'')" "map lot_price ls' = drop k (map lot_price ls)"
        using Cons.IH [OF ok(2) fuel(2)] by blast
      then show ?thesis
        using True emptied one fuel(1) by (intro exI [of _ ls'] exI [of _ acc''] exI [of _ "Suc k"]) simp
    next
      case False
      then have "\<not> n_lt (Fin 0) (ma_remaining acc')" using p by blast
      then show ?thesis
        using True False one fuel(1) p ok(2)
        by (intro exI [of _ "l' # ls"] exI [of _ acc'] exI [of _ 0]) (simp add: match_loop_stop lots_ok_def)
    qed
  qed
qed

lemma open_lot_ok: "lots_ok (open_lot price fee tot remaining)"
proof -
  have "n_lt (Fin 0) remaining \<Longrightarrow> not_neg remaining" by (cases remaining) (auto simp: not_neg_def)
  then show ?thesis by (simp add: open_lot_def lots_ok_def not_neg_fixed)
qed

lemma lots_ok_append [simp]: "lots_ok (xs @ ys) \<longleftrightarrow> lots_ok xs \<and> lots_ok ys"
  by (simp add: lots_ok_def)

lemma open_lot_none: "\<not> n_lt (Fin 0) remaining \<Longrightarrow> open_lot price fee tot remaining = []"
  by (simp add: open_lot_def)

text \<open>C5: On a state with no negative quantity and lots on one side only, applying a fill always
  returns, the new state is again of that kind, and lots are consumed first in first out: the lots
  left on the matched side are the old ones with a prefix removed, and the other side only grows.\<close>

theorem fill_total_fifo:
  assumes "matching_ok st"
  shows "\<exists>r k. applyFillToRealizedPnl st fill = Some r \<and> matching_ok (fr_nextState r) \<and>
    (if fi_side fill = Sell
     then map lot_price (longLots (fr_nextState r)) = drop k (map lot_price (longLots st)) \<and>
          (\<exists>new. shortLots (fr_nextState r) = shortLots st @ new)
     else map lot_price (shortLots (fr_nextState r)) = drop k (map lot_price (shortLots st)) \<and>
          (\<exists>new. longLots (fr_nextState r) = longLots st @ new))"
proof (cases "n_le (n_max (Fin 0) (or_zero (fi_qty fill))) (Fin 0) \<or> n_le (n_max (Fin 0) (or_zero (fi_price fill))) (Fin 0)")
  case True
  then show ?thesis using assms by (auto simp: applyFillToRealizedPnl_def Let_def intro!: exI [of _ 0])
next
  case False
  have run: "\<exists>ls' acc k. run_matching pnl fee tot ls = Some (ls', acc) \<and> lots_ok ls' \<and>
      (ls' = [] \<or> \<not> n_lt (Fin 0) (ma_remaining acc)) \<and> map lot_price ls' = drop k (map lot_price ls)"
    if "lots_ok ls" for pnl fee tot ls
    unfolding run_matching_def using that by (intro match_loop_total) simp_all
  have empty: "run_matching pnl fee tot [] = Some ([], \<lparr> ma_remaining = tot, ma_gross = Fin 0, ma_fees = Fin 0 \<rparr>)"
    for pnl fee tot by (simp add: run_matching_def)
  show ?thesis
  proof (cases "fi_side fill = Sell")
    case sell: True
    obtain ls' acc k where r: "run_matching (\<lambda>p. n_sub (n_max (Fin 0) (or_zero (fi_price fill))) p)
        (n_max (Fin 0) (n_abs (or_zero (fi_feeUsd fill)))) (n_max (Fin 0) (or_zero (fi_qty fill))) (longLots st)
        = Some (ls', acc)" "lots_ok ls'" "ls' = [] \<or> \<not> n_lt (Fin 0) (ma_remaining acc)"
        "map lot_price ls' = drop k (map lot_price (longLots st))"
      using run assms unfolding matching_ok_def by blast
    moreover have "longLots st = [] \<Longrightarrow> ls' = []" using r(4) by simp
    ultimately show ?thesis
      using assms False sell
      by (auto simp: applyFillToRealizedPnl_def Let_def matching_ok_def one_sided_def open_lot_ok open_lot_none
          intro!: exI [of _ k])
  next
    case buy: False
    obtain ls' acc k where r: "run_matching (\<lambda>p. n_sub p (n_max (Fin 0) (or_zero (fi_price fill))))
        (n_max (Fin 0) (n_abs (or_zero (fi_feeUsd fill)))) (n_max (Fin 0) (or_zero (fi_qty fill))) (shortLots st)
        = Some (ls', acc)" "lots_ok ls'" "ls' = [] \<or> \<not> n_lt (Fin 0) (ma_remaining acc)"
        "map lot_price ls' = drop k (map lot_price (shortLots st))"
      using run assms unfolding matching_ok_def by blast
    moreover have "shortLots st = [] \<Longrightarrow> ls' = []" using r(4) by simp
    ultimately show ?thesis
      using assms False buy
      by (auto simp: applyFillToRealizedPnl_def Let_def matching_ok_def one_sided_def open_lot_ok open_lot_none
          intro!: exI [of _ k])
  qed
qed

definition sample_state :: matching_state where
  "sample_state = \<lparr> longLots = [\<lparr> lot_qty = Fin 1, lot_price = Fin 100, lot_feePerUnit = Fin 0 \<rparr>,
     \<lparr> lot_qty = Fin 2, lot_price = Fin 110, lot_feePerUnit = Fin 0 \<rparr>], shortLots = [] \<rparr>"

definition sample_fill :: fill_input where
  "sample_fill = \<lparr> fi_side = Sell, fi_price = Fin 120, fi_qty = Fin 2, fi_feeUsd = Fin 0 \<rparr>"

theorem fill_total_fifo_witness:
  "\<exists>r. applyFillToRealizedPnl sample_state sample_fill = Some r \<and> matching_ok (fr_nextState r) \<and>
     fr_realizedNetUsd r = Fin 30"
proof -
  have "matching_ok sample_state"
    by (simp add: sample_state_def matching_ok_def one_sided_def lots_ok_def not_neg_def)
  then obtain r where r: "applyFillToRealizedPnl sample_state sample_fill = Some r" "matching_ok (fr_nextState r)"
    using fill_total_fifo [of sample_state sample_fill] by blast
  have "map_option fr_realizedNetUsd (applyFillToRealizedPnl sample_state sample_fill) = Some (Fin 30)" by code_simp
  with r show ?thesis by simp
qed

end
