(* ===== verification/Settlement.thy ===== *)
theory Settlement
  imports Money
begin

text \<open>
  The settlement state a close, a recovery or a claim leaves in a bot vault's metadata
  (apps/api/src/vaults/botVaultV3SettlementState.ts): source keys, the post-processing steps
  still pending, and the readers that normalise the stored amounts.
\<close>

section \<open>Types\<close>

datatype pp_step = PP_resync | PP_apply | PP_fee_event

fun pp_step_str :: "pp_step \<Rightarrow> string" where
  "pp_step_str PP_resync = ''resync''"
| "pp_step_str PP_apply = ''apply''"
| "pp_step_str PP_fee_event = ''fee_event''"

definition all_pp_steps :: "pp_step list" where
  "all_pp_steps = [PP_resync, PP_apply, PP_fee_event]"

datatype pp_state = PPS_not_started | PPS_pending | PPS_complete

fun pp_state_str :: "pp_state \<Rightarrow> string" where
  "pp_state_str PPS_not_started = ''not_started''"
| "pp_state_str PPS_pending = ''pending''"
| "pp_state_str PPS_complete = ''complete''"

definition all_pp_states :: "pp_state list" where
  "all_pp_states = [PPS_not_started, PPS_pending, PPS_complete]"

record post_processing =
  pp_state :: pp_state
  pp_pendingSteps :: "pp_step list"
  pp_lastError :: "string option"
  pp_updatedAt :: "string option"

datatype settlement_stage = SS_prepared | SS_confirmed | SS_applied | SS_resync_only_missing_prepare

fun settlement_stage_str :: "settlement_stage \<Rightarrow> string" where
  "settlement_stage_str SS_prepared = ''prepared''"
| "settlement_stage_str SS_confirmed = ''confirmed''"
| "settlement_stage_str SS_applied = ''applied''"
| "settlement_stage_str SS_resync_only_missing_prepare = ''resync_only_missing_prepare''"

definition controller_stages :: "settlement_stage list" where
  "controller_stages = [SS_prepared, SS_confirmed, SS_applied, SS_resync_only_missing_prepare]"

definition claim_stages :: "settlement_stage list" where
  "claim_stages = [SS_prepared, SS_confirmed, SS_applied]"

datatype settlement_action = SA_close_vault | SA_recover_closed_funds

fun settlement_action_str :: "settlement_action \<Rightarrow> string" where
  "settlement_action_str SA_close_vault = ''close_vault''"
| "settlement_action_str SA_recover_closed_funds = ''recover_closed_funds''"

datatype settlement_key = SK_closeSettlement | SK_recoverySettlement

fun settlement_key_str :: "settlement_key \<Rightarrow> string" where
  "settlement_key_str SK_closeSettlement = ''closeSettlement''"
| "settlement_key_str SK_recoverySettlement = ''recoverySettlement''"

record controller_settlement =
  cs_sourceAction :: settlement_action
  cs_sourceKey :: string
  cs_feeEventSourceKey :: string
  cs_closeTxHash :: "string option"
  cs_feeRatePct :: jsnum
  cs_treasuryRecipient :: "string option"
  cs_principalReturnedUsd :: jsnum
  cs_grossAmountUsd :: jsnum
  cs_feeAmountUsd :: jsnum
  cs_netReturnedUsd :: jsnum
  cs_profitComponentUsd :: jsnum
  cs_profitBaseUsd :: jsnum
  cs_realizedClosedPnlUsd :: "jsnum option"
  cs_highWaterMarkBeforeUsd :: "jsnum option"
  cs_highWaterMarkAfterUsd :: "jsnum option"
  cs_excludedPrincipalUsd :: jsnum
  cs_stage :: settlement_stage
  cs_preparedAt :: "string option"
  cs_confirmedAt :: "string option"
  cs_appliedAt :: "string option"
  cs_updatedAt :: "string option"
  cs_lastError :: "string option"
  cs_postProcessing :: post_processing

record claim_settlement =
  cl_sourceKey :: string
  cl_feeEventSourceKey :: string
  cl_claimTxHash :: "string option"
  cl_feeRatePct :: jsnum
  cl_treasuryRecipient :: "string option"
  cl_grossAmountUsd :: jsnum
  cl_feeAmountUsd :: jsnum
  cl_netReturnedUsd :: jsnum
  cl_profitBaseUsd :: jsnum
  cl_realizedClosedPnlUsd :: "jsnum option"
  cl_highWaterMarkBeforeUsd :: "jsnum option"
  cl_highWaterMarkAfterUsd :: "jsnum option"
  cl_excludedPrincipalUsd :: jsnum
  cl_stage :: settlement_stage
  cl_preparedAt :: "string option"
  cl_confirmedAt :: "string option"
  cl_appliedAt :: "string option"
  cl_updatedAt :: "string option"
  cl_lastError :: "string option"
  cl_postProcessing :: post_processing

interpretation pp_step_enum: string_enum all_pp_steps pp_step_str
  by (rule string_enumI, case_tac x) (simp_all add: all_pp_steps_def, code_simp)

interpretation pp_state_enum: string_enum all_pp_states pp_state_str
  by (rule string_enumI, case_tac x) (simp_all add: all_pp_states_def, code_simp)

interpretation settlement_stage_enum: string_enum controller_stages settlement_stage_str
  by (rule string_enumI, case_tac x) (simp_all add: controller_stages_def, code_simp)

section \<open>Source keys\<close>

definition controllerSettlementSourceKey :: "string \<Rightarrow> settlement_action \<Rightarrow> string" where
  "controllerSettlementSourceKey botVaultId sourceAction =
     ''bot_vault_v3:'' @ botVaultId @ '':'' @ settlement_action_str sourceAction @ '':settlement''"

definition claimSettlementSourceKey :: "string \<Rightarrow> string \<Rightarrow> string" where
  "claimSettlementSourceKey botVaultId claimTxHash =
     ''bot_vault_v3:'' @ botVaultId @ '':claim_profit:'' @ str_lower claimTxHash @ '':settlement''"

section \<open>Post-processing\<close>

text \<open>A JavaScript Set keeps the order of first insertion.\<close>

definition set_add :: "'a list \<Rightarrow> 'a \<Rightarrow> 'a list" where
  "set_add xs x = (if x \<in> set xs then xs else xs @ [x])"

definition normalizePendingSteps :: "jsval \<Rightarrow> pp_step list" where
  "normalizePendingSteps value =
     (case as_array value of
        None \<Rightarrow> []
      | Some entries \<Rightarrow>
          fold (\<lambda>entry steps. case read_enum all_pp_steps pp_step_str entry of
                  None \<Rightarrow> steps | Some step \<Rightarrow> set_add steps step) entries [])"

text \<open>The list the builder receives is one of steps already: the same loop over their strings.\<close>

definition steps_val :: "pp_step list \<Rightarrow> jsval" where
  "steps_val steps = JArr (map (\<lambda>s. JStr (pp_step_str s)) steps)"

definition buildPostProcessingState ::
  "pp_state \<Rightarrow> pp_step list \<Rightarrow> string option \<Rightarrow> string option \<Rightarrow> string \<Rightarrow> post_processing" where
  "buildPostProcessingState st pendingSteps lastError updatedAt now =
     \<lparr> pp_state = st, pp_pendingSteps = normalizePendingSteps (steps_val pendingSteps),
       pp_lastError = to_nullable_string (opt_val lastError),
       pp_updatedAt = opt_or (to_nullable_string (opt_val updatedAt)) (Some now) \<rparr>"

definition deriveDefaultPostProcessingState ::
  "settlement_stage \<Rightarrow> jsnum \<Rightarrow> string option \<Rightarrow> string \<Rightarrow> post_processing" where
  "deriveDefaultPostProcessingState stage feeAmountUsd lastError now =
     (if stage = SS_prepared then buildPostProcessingState PPS_not_started [] lastError None now
      else if stage = SS_applied then buildPostProcessingState PPS_complete [] None None now
      else buildPostProcessingState PPS_pending
             ([PP_resync, PP_apply] @ (if n_lt (Fin 0) feeAmountUsd then [PP_fee_event] else []))
             lastError None now)"

definition readPostProcessingState ::
  "jsval \<Rightarrow> settlement_stage \<Rightarrow> jsnum \<Rightarrow> string option \<Rightarrow> string \<Rightarrow> post_processing" where
  "readPostProcessingState p_raw stage feeAmountUsd lastError now =
     (let raw = to_record p_raw
      in case read_enum all_pp_states pp_state_str (get raw ''state'') of
           None \<Rightarrow> deriveDefaultPostProcessingState stage feeAmountUsd lastError now
         | Some st \<Rightarrow>
             \<lparr> pp_state = st, pp_pendingSteps = normalizePendingSteps (get raw ''pendingSteps''),
               pp_lastError = opt_or (to_nullable_string (get raw ''lastError'')) (to_nullable_string (opt_val lastError)),
               pp_updatedAt = to_nullable_string (get raw ''updatedAt'') \<rparr>)"

definition hasPendingPostProcessing :: "post_processing option \<Rightarrow> bool" where
  "hasPendingPostProcessing value =
     (case value of None \<Rightarrow> False | Some v \<Rightarrow> pp_state v = PPS_pending \<and> 0 < length (pp_pendingSteps v))"

definition clearPendingStep :: "post_processing \<Rightarrow> pp_step \<Rightarrow> string option \<Rightarrow> string \<Rightarrow> post_processing" where
  "clearPendingStep current step lastError now =
     (let nextPendingSteps = filter (\<lambda>entry. entry \<noteq> step) (pp_pendingSteps current)
      in buildPostProcessingState
           (if nextPendingSteps \<noteq> [] then PPS_pending else PPS_complete) nextPendingSteps
           (if nextPendingSteps \<noteq> []
            then opt_or (to_nullable_string (opt_val lastError)) (pp_lastError current) else None)
           None now)"

section \<open>Readers\<close>

definition optional_usd :: "jsval \<Rightarrow> (jsval \<Rightarrow> jsnum) \<Rightarrow> jsnum option" where
  "optional_usd v rd = (if is_finite (js_number v) then Some (round_usd 6 (rd v)) else None)"

definition usd_field :: "jsobj \<Rightarrow> string \<Rightarrow> jsnum" where
  "usd_field settlement key = round_usd 6 (to_non_negative (get settlement key))"

definition readControllerSettlementState ::
  "jsval \<Rightarrow> settlement_key \<Rightarrow> settlement_action \<Rightarrow> string \<Rightarrow> controller_settlement option" where
  "readControllerSettlementState executionMetadata metadataKey sourceAction now =
     (let settlement = to_record (get (to_record executionMetadata) (settlement_key_str metadataKey))
      in if norm_lower (get settlement ''sourceAction'') \<noteq> settlement_action_str sourceAction then None
         else case to_nullable_string (get settlement ''sourceKey'') of
           None \<Rightarrow> None
         | Some sourceKey \<Rightarrow>
             (let stage = opt_get (read_enum controller_stages settlement_stage_str (get settlement ''stage'')) SS_prepared;
                  principalReturnedUsd = usd_field settlement ''principalReturnedUsd'';
                  grossAmountUsd = usd_field settlement ''grossAmountUsd'';
                  feeAmountUsd = usd_field settlement ''feeAmountUsd'';
                  profitComponentUsd = round_usd 6 (n_max (Fin 0) (n_sub grossAmountUsd principalReturnedUsd));
                  lastError = to_nullable_string (get settlement ''lastError'')
              in Some \<lparr> cs_sourceAction = sourceAction, cs_sourceKey = sourceKey,
                   cs_feeEventSourceKey = opt_get (to_nullable_string (get settlement ''feeEventSourceKey''))
                     (sourceKey @ '':fee_event''),
                   cs_closeTxHash = to_nullable_string (get settlement ''closeTxHash''),
                   cs_feeRatePct = usd_field settlement ''feeRatePct'',
                   cs_treasuryRecipient = to_nullable_string (get settlement ''treasuryRecipient''),
                   cs_principalReturnedUsd = principalReturnedUsd, cs_grossAmountUsd = grossAmountUsd,
                   cs_feeAmountUsd = feeAmountUsd,
                   cs_netReturnedUsd = round_usd 6 (n_max (Fin 0) (n_sub grossAmountUsd feeAmountUsd)),
                   cs_profitComponentUsd = profitComponentUsd,
                   cs_profitBaseUsd = round_usd 6 (to_non_negative
                     (coalesce (get settlement ''profitBaseUsd'') (JNum profitComponentUsd))),
                   cs_realizedClosedPnlUsd = optional_usd (get settlement ''realizedClosedPnlUsd'') js_number,
                   cs_highWaterMarkBeforeUsd = optional_usd (get settlement ''highWaterMarkBeforeUsd'') to_non_negative,
                   cs_highWaterMarkAfterUsd = optional_usd (get settlement ''highWaterMarkAfterUsd'') to_non_negative,
                   cs_excludedPrincipalUsd = usd_field settlement ''excludedPrincipalUsd'',
                   cs_stage = stage,
                   cs_preparedAt = to_nullable_string (get settlement ''preparedAt''),
                   cs_confirmedAt = to_nullable_string (get settlement ''confirmedAt''),
                   cs_appliedAt = to_nullable_string (get settlement ''appliedAt''),
                   cs_updatedAt = to_nullable_string (get settlement ''updatedAt''),
                   cs_lastError = lastError,
                   cs_postProcessing = readPostProcessingState (get settlement ''postProcessing'') stage
                     feeAmountUsd lastError now \<rparr>))"

definition readClaimSettlementState :: "jsval \<Rightarrow> string \<Rightarrow> claim_settlement option" where
  "readClaimSettlementState executionMetadata now =
     (let settlement = to_record (get (to_record executionMetadata) ''claimSettlement'')
      in if norm_lower (get settlement ''sourceAction'') \<noteq> ''claim_profit'' then None
         else case to_nullable_string (get settlement ''sourceKey'') of
           None \<Rightarrow> None
         | Some sourceKey \<Rightarrow>
             (let stage = opt_get (read_enum claim_stages settlement_stage_str (get settlement ''stage'')) SS_prepared;
                  grossAmountUsd = usd_field settlement ''grossAmountUsd'';
                  feeAmountUsd = usd_field settlement ''feeAmountUsd'';
                  lastError = to_nullable_string (get settlement ''lastError'')
              in Some \<lparr> cl_sourceKey = sourceKey,
                   cl_feeEventSourceKey = opt_get (to_nullable_string (get settlement ''feeEventSourceKey''))
                     (sourceKey @ '':fee_event''),
                   cl_claimTxHash = to_nullable_string (get settlement ''claimTxHash''),
                   cl_feeRatePct = usd_field settlement ''feeRatePct'',
                   cl_treasuryRecipient = to_nullable_string (get settlement ''treasuryRecipient''),
                   cl_grossAmountUsd = grossAmountUsd, cl_feeAmountUsd = feeAmountUsd,
                   cl_netReturnedUsd = round_usd 6 (n_max (Fin 0) (n_sub grossAmountUsd feeAmountUsd)),
                   cl_profitBaseUsd = round_usd 6 (to_non_negative
                     (coalesce (get settlement ''profitBaseUsd'') (JNum grossAmountUsd))),
                   cl_realizedClosedPnlUsd = optional_usd (get settlement ''realizedClosedPnlUsd'') js_number,
                   cl_highWaterMarkBeforeUsd = optional_usd (get settlement ''highWaterMarkBeforeUsd'') to_non_negative,
                   cl_highWaterMarkAfterUsd = optional_usd (get settlement ''highWaterMarkAfterUsd'') to_non_negative,
                   cl_excludedPrincipalUsd = usd_field settlement ''excludedPrincipalUsd'',
                   cl_stage = stage,
                   cl_preparedAt = to_nullable_string (get settlement ''preparedAt''),
                   cl_confirmedAt = to_nullable_string (get settlement ''confirmedAt''),
                   cl_appliedAt = to_nullable_string (get settlement ''appliedAt''),
                   cl_updatedAt = to_nullable_string (get settlement ''updatedAt''),
                   cl_lastError = lastError,
                   cl_postProcessing = readPostProcessingState (get settlement ''postProcessing'') stage
                     feeAmountUsd lastError now \<rparr>))"

section \<open>Lemmas\<close>

lemma set_add_simps [simp]:
  "set (set_add xs x) = insert x (set xs)" "distinct (set_add xs x) \<longleftrightarrow> distinct xs"
  by (auto simp: set_add_def)

lemma fold_set_add:
  "set (fold (\<lambda>s acc. set_add acc s) xs acc) = set acc \<union> set xs"
  "distinct acc \<Longrightarrow> distinct (fold (\<lambda>s acc. set_add acc s) xs acc)"
  by (induction xs arbitrary: acc) auto

lemma fold_read_steps:
  "fold (\<lambda>entry steps. case read_enum all_pp_steps pp_step_str entry of None \<Rightarrow> steps | Some step \<Rightarrow> set_add steps step)
     (map (\<lambda>s. JStr (pp_step_str s)) xs) acc = fold (\<lambda>s acc. set_add acc s) xs acc"
  by (induction xs arbitrary: acc) simp_all

lemma normalize_steps_val:
  "set (normalizePendingSteps (steps_val xs)) = set xs" "distinct (normalizePendingSteps (steps_val xs))"
  by (simp_all add: normalizePendingSteps_def steps_val_def fold_read_steps fold_set_add)

lemma fold_read_distinct:
  "distinct acc \<Longrightarrow> distinct (fold (\<lambda>entry steps. case read_enum all_pp_steps pp_step_str entry of
      None \<Rightarrow> steps | Some step \<Rightarrow> set_add steps step) entries acc)"
  by (induction entries arbitrary: acc) (auto split: option.splits)

lemma normalize_steps_distinct: "distinct (normalizePendingSteps v)"
  by (simp add: normalizePendingSteps_def fold_read_distinct split: option.splits)

lemma normalize_steps_empty: "normalizePendingSteps (steps_val []) = []"
  by (simp add: normalizePendingSteps_def steps_val_def)

lemma clear_pending_set:
  "set (pp_pendingSteps (clearPendingStep c s err now)) = set (pp_pendingSteps c) - {s}"
  by (auto simp: clearPendingStep_def buildPostProcessingState_def normalize_steps_val Let_def)

lemma clear_state:
  "pp_state (clearPendingStep c s err now) = (if set (pp_pendingSteps c) \<subseteq> {s} then PPS_complete else PPS_pending)"
  by (auto simp: clearPendingStep_def buildPostProcessingState_def filter_empty_conv Let_def)

lemma clear_complete_error:
  "pp_state (clearPendingStep c s err now) = PPS_complete \<Longrightarrow> pp_lastError (clearPendingStep c s err now) = None"
  by (auto simp: clearPendingStep_def buildPostProcessingState_def Let_def to_nullable_string_def opt_val_def
      split: if_splits)

lemma clear_all_pending:
  "set (pp_pendingSteps (fold (\<lambda>(s, err). \<lambda>c. clearPendingStep c s err now) todo c)) =
     set (pp_pendingSteps c) - fst ` set todo"
  by (induction todo arbitrary: c) (auto simp: clear_pending_set split: prod.splits)

section \<open>Properties\<close>

text \<open>C18: Clearing one step removes exactly that step, keeps the others free of duplicates, and sets the
  state to complete, with no error left, exactly when nothing else is pending; clearing every
  pending step, in any order, with any errors on the way and the last pending one last, completes
  the settlement.\<close>

theorem clear_steps_complete:
  "set (pp_pendingSteps (clearPendingStep c s err now)) = set (pp_pendingSteps c) - {s} \<and>
   distinct (pp_pendingSteps (clearPendingStep c s err now)) \<and>
   hasPendingPostProcessing (Some (clearPendingStep c s err now)) = (\<not> set (pp_pendingSteps c) \<subseteq> {s}) \<and>
   (set (pp_pendingSteps c) \<subseteq> fst ` set (todo @ [(s, err)]) \<longrightarrow>
      (let r = fold (\<lambda>(s, err). \<lambda>c. clearPendingStep c s err now) (todo @ [(s, err)]) c
       in pp_pendingSteps r = [] \<and> pp_state r = PPS_complete \<and> pp_lastError r = None))"
proof -
  let ?r0 = "fold (\<lambda>(s, err). \<lambda>c. clearPendingStep c s err now) todo c"
  have d: "distinct (pp_pendingSteps (clearPendingStep c s err now))" for c
    by (simp add: clearPendingStep_def Let_def buildPostProcessingState_def normalize_steps_distinct)
  have h: "hasPendingPostProcessing (Some (clearPendingStep c s err now)) = (\<not> set (pp_pendingSteps c) \<subseteq> {s})"
    using clear_pending_set [of c s err now] clear_state [of c s err now]
    unfolding hasPendingPostProcessing_def option.case length_greater_0_conv
    by (metis Diff_eq_empty_iff pp_state.distinct(5) set_empty)
  have "pp_pendingSteps (clearPendingStep ?r0 s err now) = [] \<and> pp_state (clearPendingStep ?r0 s err now) = PPS_complete"
    if "set (pp_pendingSteps c) \<subseteq> fst ` set (todo @ [(s, err)])"
  proof -
    have "set (pp_pendingSteps c) \<subseteq> insert s (fst ` set todo)" using that by simp
    then have sub: "set (pp_pendingSteps ?r0) \<subseteq> {s}" unfolding clear_all_pending by blast
    then have "set (pp_pendingSteps ?r0) - {s} = {}" unfolding Diff_eq_empty_iff .
    then have "set (pp_pendingSteps (clearPendingStep ?r0 s err now)) = {}"
      unfolding clear_pending_set .
    then have "pp_pendingSteps (clearPendingStep ?r0 s err now) = []" unfolding set_empty .
    moreover have "pp_state (clearPendingStep ?r0 s err now) = PPS_complete"
      unfolding clear_state using sub by (rule if_P)
    ultimately show ?thesis by (rule conjI)
  qed
  moreover have "fold (\<lambda>(s, err). \<lambda>c. clearPendingStep c s err now) (todo @ [(s, err)]) c =
      clearPendingStep ?r0 s err now"
    by simp
  ultimately show ?thesis
    unfolding Let_def using clear_complete_error [of ?r0 s err now]
    by (intro conjI impI d h clear_pending_set) simp_all
qed

theorem clear_steps_complete_witness:
  "let c = \<lparr> pp_state = PPS_pending, pp_pendingSteps = [PP_resync, PP_apply], pp_lastError = None, pp_updatedAt = None \<rparr>;
       r = fold (\<lambda>(s, err). \<lambda>c. clearPendingStep c s err ''t'') ([(PP_apply, Some ''x'')] @ [(PP_resync, None)]) c
   in pp_pendingSteps r = [] \<and> pp_state r = PPS_complete"
proof -
  let ?c = "\<lparr> pp_state = PPS_pending, pp_pendingSteps = [PP_resync, PP_apply], pp_lastError = None, pp_updatedAt = None \<rparr>"
  show ?thesis
    using clear_steps_complete [of ?c PP_resync None "''t''" "[(PP_apply, Some ''x'')]"] by (simp add: Let_def)
qed

text \<open>A stored close or recovery settlement of moderate amounts reads back with a net return of the
  gross amount less the fee and a profit component of the gross amount less the principal, both
  floored at zero and exact to the micro-dollar; a fee event is among the default pending steps of
  a confirmed settlement exactly when the fee is positive.\<close>

theorem controller_settlement_amounts:
  assumes "readControllerSettlementState md key act now = Some s"
    and "moderate (js_number (get (to_record (get (to_record md) (settlement_key_str key))) ''grossAmountUsd''))"
    and "moderate (js_number (get (to_record (get (to_record md) (settlement_key_str key))) ''feeAmountUsd''))"
    and "moderate (js_number (get (to_record (get (to_record md) (settlement_key_str key))) ''principalReturnedUsd''))"
  shows "\<exists>g f p. 0 \<le> g \<and> 0 \<le> f \<and> 0 \<le> p \<and> cs_grossAmountUsd s = Fin (amt 6 g) \<and>
    cs_feeAmountUsd s = Fin (amt 6 f) \<and> cs_principalReturnedUsd s = Fin (amt 6 p) \<and>
    cs_netReturnedUsd s = Fin (amt 6 (max 0 (g - f))) \<and> cs_profitComponentUsd s = Fin (amt 6 (max 0 (g - p))) \<and>
    (PP_fee_event \<in> set (pp_pendingSteps (deriveDefaultPostProcessingState SS_confirmed (cs_feeAmountUsd s) None now))
      \<longleftrightarrow> 0 < amt 6 f)"
proof -
  let ?st = "to_record (get (to_record md) (settlement_key_str key))"
  obtain g where g: "0 \<le> g" "g \<le> 2 ^ 47" "usd_field ?st ''grossAmountUsd'' = Fin (amt 6 g)"
    using round6_non_neg [OF assms(2)] unfolding usd_field_def to_non_negative_def by blast
  obtain f where f: "0 \<le> f" "f \<le> 2 ^ 47" "usd_field ?st ''feeAmountUsd'' = Fin (amt 6 f)"
    using round6_non_neg [OF assms(3)] unfolding usd_field_def to_non_negative_def by blast
  obtain p where p: "0 \<le> p" "p \<le> 2 ^ 47" "usd_field ?st ''principalReturnedUsd'' = Fin (amt 6 p)"
    using round6_non_neg [OF assms(4)] unfolding usd_field_def to_non_negative_def by blast
  have s: "cs_grossAmountUsd s = Fin (amt 6 g)" "cs_feeAmountUsd s = Fin (amt 6 f)"
      "cs_principalReturnedUsd s = Fin (amt 6 p)"
      "cs_netReturnedUsd s = round_usd 6 (n_max (Fin 0) (n_sub (Fin (amt 6 g)) (Fin (amt 6 f))))"
      "cs_profitComponentUsd s = round_usd 6 (n_max (Fin 0) (n_sub (Fin (amt 6 g)) (Fin (amt 6 p))))"
    using assms(1) unfolding readControllerSettlementState_def Let_def g(3) f(3) p(3)
    by (auto split: if_splits option.splits)
  have "round_usd 6 (n_max (Fin 0) (n_sub (Fin (amt 6 g)) (Fin (amt 6 f)))) = Fin (amt 6 (max 0 (g - f)))"
    "round_usd 6 (n_max (Fin 0) (n_sub (Fin (amt 6 g)) (Fin (amt 6 p)))) = Fin (amt 6 (max 0 (g - p)))"
    using g f p by (intro round_monus_amt; simp)+
  moreover have "PP_fee_event \<in> set (pp_pendingSteps (deriveDefaultPostProcessingState SS_confirmed (Fin (amt 6 f)) None now))
      \<longleftrightarrow> 0 < amt 6 f"
    by (simp add: deriveDefaultPostProcessingState_def buildPostProcessingState_def normalize_steps_val)
  ultimately show ?thesis using s g f p by (intro exI [of _ g] exI [of _ f] exI [of _ p]) simp
qed

definition sample_metadata :: jsval where
  "sample_metadata = JObj [(''closeSettlement'', JObj [(''sourceAction'', JStr ''close_vault''),
     (''sourceKey'', JStr ''k''), (''grossAmountUsd'', JNum (Fin 120)), (''feeAmountUsd'', JNum (Fin 6)),
     (''principalReturnedUsd'', JNum (Fin 100)), (''stage'', JStr ''confirmed'')])]"

theorem controller_settlement_amounts_witness:
  "\<exists>s g f. readControllerSettlementState sample_metadata SK_closeSettlement SA_close_vault ''t'' = Some s \<and>
     cs_netReturnedUsd s = Fin (amt 6 (max 0 (g - f))) \<and> cs_grossAmountUsd s = Fin (amt 6 g)"
proof -
  have "readControllerSettlementState sample_metadata SK_closeSettlement SA_close_vault ''t'' \<noteq> None"
    by code_simp
  then obtain s where s: "readControllerSettlementState sample_metadata SK_closeSettlement SA_close_vault ''t'' = Some s"
    by blast
  show ?thesis
    using controller_settlement_amounts [OF s] s by (auto simp: sample_metadata_def moderate_def)
qed

end
