(* ===== verification/OperationState.thy ===== *)
theory OperationState
  imports FundingLifecycle Settlement
begin

text \<open>
  The operation state shown for a bot vault (apps/api/src/vaults/botVaultV3OperationState.ts, its
  types in botVaultFundingDisplay.ts): which step is under way, whether it can be retried and what
  to do next, derived from the contract balance reconciliation, the settlements, the finalisation
  records and the funding lifecycle of the row, in that order.
\<close>

section \<open>Types\<close>

datatype operation_step =
  OS_hyper_evm_deposit | OS_hypercore_funding | OS_hypercore_withdraw | OS_claim | OS_close | OS_recover

datatype operation_value =
  OV_pending | OV_submitted | OV_confirmed | OV_pending_reconciliation | OV_failed_retryable | OV_failed_final

datatype next_action =
  NA_submit | NA_wait | NA_retry | NA_retry_reconcile | NA_recover | NA_request_user_action | NA_none

record operation_state =
  op_step :: operation_step
  op_state :: operation_value
  op_reasonCode :: string
  op_detail :: "string option"
  op_nextRecommendedAction :: next_action
  op_canRetry :: bool
  op_amountUsd :: "jsnum option"
  op_txHash :: "string option"
  op_updatedAt :: "string option"

record operation_input =
  oi_step :: operation_step
  oi_state :: operation_value
  oi_reasonCode :: string
  oi_detail :: "string option"
  oi_amountUsd :: "jsnum option"
  oi_txHash :: "string option"
  oi_updatedAt :: "string option"

section \<open>Building a state\<close>

definition readOnchainBotVaultAddress :: "jsobj \<Rightarrow> string option" where
  "readOnchainBotVaultAddress record =
     to_nullable_string (coalesce (get record ''onchainBotVaultAddress'') (get record ''vaultAddress''))"

definition next_action_of :: "operation_input \<Rightarrow> next_action" where
  "next_action_of input =
     (case oi_state input of
        OV_pending \<Rightarrow> NA_submit
      | OV_submitted \<Rightarrow> NA_wait
      | OV_pending_reconciliation \<Rightarrow> NA_retry_reconcile
      | OV_failed_retryable \<Rightarrow> NA_retry
      | OV_failed_final \<Rightarrow>
          (let reason = str_lower (oi_reasonCode input @ '':'' @ opt_get (oi_detail input) '''')
           in if str_includes reason ''user_action'' \<or> str_includes reason ''insufficient''
                 \<or> str_includes reason ''missing''
              then NA_request_user_action else NA_recover)
      | OV_confirmed \<Rightarrow> NA_none)"

definition buildOperationState :: "operation_input \<Rightarrow> operation_state" where
  "buildOperationState input =
     \<lparr> op_step = oi_step input, op_state = oi_state input, op_reasonCode = oi_reasonCode input,
       op_detail = to_nullable_string (opt_val (oi_detail input)),
       op_nextRecommendedAction = next_action_of input,
       op_canRetry = (oi_state input = OV_pending_reconciliation \<or> oi_state input = OV_failed_retryable),
       op_amountUsd = map_option (\<lambda>a. round_usd 6 (non_neg a)) (oi_amountUsd input),
       op_txHash = to_nullable_string (opt_val (oi_txHash input)),
       op_updatedAt = to_nullable_string (opt_val (oi_updatedAt input)) \<rparr>"

section \<open>Settlements\<close>

definition pending_steps_text :: "post_processing \<Rightarrow> string option" where
  "pending_steps_text pp = nonempty (str_join '','' (map pp_step_str (pp_pendingSteps pp)))"

text \<open>
  The two settlement mappers of the source differ in the step, the action name of the reason code and
  the transaction hash only; the common body takes those and the settlement's fields.
\<close>

definition settlement_operation ::
  "operation_step \<Rightarrow> string \<Rightarrow> string option \<Rightarrow> settlement_stage \<Rightarrow> post_processing \<Rightarrow> string option \<Rightarrow> jsnum
    \<Rightarrow> string option \<Rightarrow> string option \<Rightarrow> string option \<Rightarrow> string option \<Rightarrow> operation_state" where
  "settlement_operation step action txHash stage pp lastError grossAmountUsd updatedAt appliedAt confirmedAt preparedAt =
     (if stage = SS_applied \<and> pp_state pp = PPS_complete then
        buildOperationState \<lparr> oi_step = step, oi_state = OV_confirmed, oi_reasonCode = action @ ''_confirmed'',
          oi_detail = None, oi_amountUsd = Some grossAmountUsd, oi_txHash = txHash,
          oi_updatedAt = opt_or updatedAt appliedAt \<rparr>
      else if lastError \<noteq> None then
        buildOperationState \<lparr> oi_step = step, oi_state = OV_pending_reconciliation,
          oi_reasonCode = action @ ''_pending_reconciliation'', oi_detail = lastError,
          oi_amountUsd = Some grossAmountUsd, oi_txHash = txHash, oi_updatedAt = updatedAt \<rparr>
      else if stage = SS_confirmed \<or> txHash \<noteq> None then
        buildOperationState \<lparr> oi_step = step,
          oi_state = (if pp_state pp = PPS_pending then OV_pending_reconciliation else OV_confirmed),
          oi_reasonCode = (if pp_state pp = PPS_pending then action @ ''_pending_reconciliation''
                           else action @ ''_confirmed''),
          oi_detail = pending_steps_text pp, oi_amountUsd = Some grossAmountUsd, oi_txHash = txHash,
          oi_updatedAt = opt_or updatedAt confirmedAt \<rparr>
      else
        buildOperationState \<lparr> oi_step = step, oi_state = OV_pending, oi_reasonCode = action @ ''_prepared'',
          oi_detail = None, oi_amountUsd = Some grossAmountUsd, oi_txHash = txHash,
          oi_updatedAt = opt_or updatedAt preparedAt \<rparr>)"

definition mapControllerSettlementOperationState ::
  "controller_settlement option \<Rightarrow> operation_step \<Rightarrow> operation_state option" where
  "mapControllerSettlementOperationState settlement step =
     map_option (\<lambda>s. settlement_operation step (settlement_action_str (cs_sourceAction s)) (cs_closeTxHash s)
       (cs_stage s) (cs_postProcessing s) (cs_lastError s) (cs_grossAmountUsd s) (cs_updatedAt s)
       (cs_appliedAt s) (cs_confirmedAt s) (cs_preparedAt s)) settlement"

definition mapClaimSettlementOperationState :: "claim_settlement option \<Rightarrow> operation_state option" where
  "mapClaimSettlementOperationState settlement =
     map_option (\<lambda>s. settlement_operation OS_claim ''claim_profit'' (cl_claimTxHash s)
       (cl_stage s) (cl_postProcessing s) (cl_lastError s) (cl_grossAmountUsd s) (cl_updatedAt s)
       (cl_appliedAt s) (cl_confirmedAt s) (cl_preparedAt s)) settlement"

section \<open>The records of the metadata\<close>

definition plain_string :: "jsval \<Rightarrow> string" where
  "plain_string v = js_string (coalesce v (JStr ''''))"

definition contract_balance_operation :: "jsobj \<Rightarrow> operation_state option" where
  "contract_balance_operation metadata =
     (let r = to_record (get metadata ''contractBalanceReconciliation'')
      in if get r ''state'' = JStr ''pending_reconciliation'' \<and> get r ''reasonCode'' = JStr ''insufficient_contract_balance''
         then (let action = plain_string (get r ''action'');
                   step = (if action = ''claim_profit'' then OS_claim
                           else if action = ''close_vault'' then OS_close
                           else if action = ''recover_closed_funds'' then OS_recover
                           else OS_hypercore_withdraw)
               in Some (buildOperationState \<lparr> oi_step = step, oi_state = OV_pending_reconciliation,
                    oi_reasonCode = ''insufficient_contract_balance'',
                    oi_detail = Some (''expected='' @ plain_string (get r ''expectedAmountAtomic'')
                                      @ '';actual='' @ plain_string (get r ''actualBalanceAtomic'')),
                    oi_amountUsd = Some (to_non_negative (get r ''expectedAmountUsd'')),
                    oi_txHash = None, oi_updatedAt = to_nullable_string (get r ''updatedAt'') \<rparr>))
         else None)"

definition reduce_margin_operation :: "jsobj \<Rightarrow> operation_state option" where
  "reduce_margin_operation metadata =
     (let r = to_record (get metadata ''reduceMarginFinalization'')
      in if r = [] then None
         else (let stage = norm_lower (get r ''stage'');
                   postReconcileState = norm_lower (get r ''postReconcileState'');
                   statusCategory = normalizeStatusCategory (get r ''statusCategory'');
                   st = (if postReconcileState = ''recovery_required'' \<or> statusCategory = Some SC_recovery_required
                           then OV_failed_final
                         else if postReconcileState = ''pending'' then OV_pending_reconciliation
                         else if stage = ''failed'' then OV_failed_retryable
                         else if stage = ''verified'' then OV_confirmed
                         else if stage = ''observed'' then OV_pending_reconciliation
                         else if stage = ''submitted'' then OV_submitted
                         else OV_pending)
               in Some (buildOperationState \<lparr> oi_step = OS_hypercore_withdraw, oi_state = st,
                    oi_reasonCode = opt_get (opt_or (to_nullable_string (get r ''postReconcileReason''))
                      (opt_or (to_nullable_string (get r ''verificationBlockingReason''))
                        (to_nullable_string (get r ''statusReason''))))
                      (''reduce_margin_'' @ (if stage \<noteq> '''' then stage else ''pending'')),
                    oi_detail = to_nullable_string (get r ''error''),
                    oi_amountUsd = Some (to_non_negative (get r ''releasedAmountUsd'')),
                    oi_txHash = opt_or (to_nullable_string (get r ''spotToEvmTransferTxHash''))
                      (to_nullable_string (get r ''transferTxHash'')),
                    oi_updatedAt = to_nullable_string (get r ''updatedAt'') \<rparr>)))"

definition margin_add_operation :: "jsobj \<Rightarrow> operation_state option" where
  "margin_add_operation metadata =
     (let r = to_record (get metadata ''marginAddFinalization'')
      in if r = [] then None
         else (let verificationState = norm_lower (get r ''verificationState'');
                   failureClass = norm_lower (get r ''hypeReserveFailureClass'');
                   st = (if get r ''fundingVerified'' = JBool True \<or> verificationState = ''funding_verified''
                           then OV_confirmed
                         else if failureClass = ''recovery_required''
                              \<or> get r ''hypeReserveRequiresRecovery'' = JBool True then OV_failed_final
                         else if failureClass = ''user_action_required''
                              \<or> get r ''hypeReserveNeedsUserAction'' = JBool True then OV_failed_final
                         else if failureClass = ''retryable'' then OV_failed_retryable
                         else if verificationState = ''transfer_observed'' \<or> verificationState = ''hype_reserve_pending''
                              \<or> verificationState = ''hype_reserve_retryable'' then OV_pending_reconciliation
                         else if verificationState = ''transfer_submitted'' then OV_submitted
                         else OV_pending)
               in Some (buildOperationState \<lparr> oi_step = OS_hypercore_funding, oi_state = st,
                    oi_reasonCode = opt_get (opt_or (to_nullable_string (get r ''verificationBlockingReason''))
                      (to_nullable_string (get r ''hypeReserveReasonCode'')))
                      (''margin_add_'' @ (if verificationState \<noteq> '''' then verificationState else ''pending'')),
                    oi_detail = to_nullable_string (get r ''hypeReserveError''),
                    oi_amountUsd = Some (to_non_negative (get r ''requestedAmountUsd'')),
                    oi_txHash = opt_or (to_nullable_string (get r ''transferTxHash''))
                      (opt_or (to_nullable_string (get r ''depositTxHash''))
                        (to_nullable_string (get r ''activateTxHash''))),
                    oi_updatedAt = to_nullable_string (get r ''updatedAt'') \<rparr>)))"

definition funding_intent_operation :: "jsobj \<Rightarrow> operation_state option" where
  "funding_intent_operation metadata =
     (let r = to_record (get metadata ''fundingIntent'')
      in if r = [] then None
         else (let actionStatus = norm_lower (get r ''actionStatus'');
                   st = (if actionStatus = ''confirmed'' then OV_confirmed
                         else if actionStatus = ''submitted'' then OV_submitted
                         else if actionStatus = ''failed'' \<or> actionStatus = ''timed_out'' then OV_failed_retryable
                         else OV_pending)
               in Some (buildOperationState \<lparr> oi_step = OS_hyper_evm_deposit, oi_state = st,
                    oi_reasonCode = opt_get (opt_or (to_nullable_string (get r ''timeoutReason''))
                      (to_nullable_string (get r ''lastError'')))
                      (''funding_'' @ (if actionStatus \<noteq> '''' then actionStatus else ''pending'')),
                    oi_detail = to_nullable_string (get r ''sourceKey''),
                    oi_amountUsd = Some (to_non_negative (get r ''amountUsd'')),
                    oi_txHash = to_nullable_string (get r ''txHash''),
                    oi_updatedAt = opt_or (to_nullable_string (get r ''updatedAt''))
                      (opt_or (to_nullable_string (get r ''timedOutAt''))
                        (opt_or (to_nullable_string (get r ''lastBoundAt''))
                          (to_nullable_string (get r ''requestedAt'')))) \<rparr>)))"

section \<open>The derivation\<close>

definition unconfirmed :: "operation_state option \<Rightarrow> operation_state option" where
  "unconfirmed o1 = (case o1 of None \<Rightarrow> None | Some s \<Rightarrow> if op_state s \<noteq> OV_confirmed then Some s else None)"

definition simple_operation ::
  "operation_step \<Rightarrow> operation_value \<Rightarrow> string \<Rightarrow> jsnum \<Rightarrow> string option \<Rightarrow> operation_state" where
  "simple_operation step st reasonCode amountUsd updatedAt =
     buildOperationState \<lparr> oi_step = step, oi_state = st, oi_reasonCode = reasonCode, oi_detail = None,
       oi_amountUsd = Some amountUsd, oi_txHash = None, oi_updatedAt = updatedAt \<rparr>"

text \<open>The last part: the lifecycle stage and the legacy columns; \<open>settled\<close> is what the settlements
  yielded.\<close>

definition lifecycle_operation ::
  "jsobj \<Rightarrow> funding_state \<Rightarrow> operation_state option \<Rightarrow> operation_state option" where
  "lifecycle_operation row lifecycle settled =
     (let fundingStatus = norm_lower (get row ''fundingStatus'');
          hypercoreFundingStatus = norm_lower (get row ''hypercoreFundingStatus'');
          onchainBotVaultAddress = readOnchainBotVaultAddress row;
          amountUsd = to_non_negative (coalesce (get row ''principalAllocated'')
            (coalesce (get row ''allocatedUsd'') (get row ''availableUsd'')));
          updatedAt = to_nullable_string (get row ''updatedAt'');
          stage = fs_stage lifecycle;
          lcUpdatedAt = opt_or (fs_updatedAt lifecycle) updatedAt
      in if stage = FS_failed \<or> stage = FS_recovery_required then
           (let hasEvmFundingEvidence =
                  (fundingStatus = ''hyper_evm_confirmed_onchain'' \<or> fundingStatus = ''hyper_evm_funded''
                   \<or> hypercoreFundingStatus = ''pending'' \<or> hypercoreFundingStatus = ''funded'')
            in Some (simple_operation
                 (if hasEvmFundingEvidence then OS_hypercore_funding else OS_hyper_evm_deposit)
                 (if stage = FS_failed then OV_failed_retryable else OV_failed_final)
                 (opt_get (opt_or (fs_recoveryReason lifecycle) (fs_failureReason lifecycle))
                   (''funding_'' @ stage_str stage)) amountUsd lcUpdatedAt))
         else if stage = FS_funding_requested \<or> fundingStatus = ''hyper_evm_funding_requested'' then
           Some (simple_operation OS_hyper_evm_deposit OV_pending ''funding_requested'' amountUsd lcUpdatedAt)
         else if onchainBotVaultAddress \<noteq> None \<and> stage = FS_deployed then
           Some (simple_operation OS_hyper_evm_deposit OV_pending ''funding_not_started'' amountUsd updatedAt)
         else if stage = FS_execution_ready then settled
         else if stage = FS_perp_margin_transferred \<or> stage = FS_hype_reserve_ready then
           Some (simple_operation OS_hypercore_funding OV_pending_reconciliation ''hypercore_final_state_unverified''
             amountUsd lcUpdatedAt)
         else if hypercoreFundingStatus = ''pending'' then
           Some (simple_operation OS_hypercore_funding OV_submitted ''hypercore_transfer_pending'' amountUsd lcUpdatedAt)
         else if stage = FS_hypercore_funded \<or> hypercoreFundingStatus = ''funded'' then
           Some (simple_operation OS_hypercore_funding OV_pending ''perp_margin_not_started'' amountUsd lcUpdatedAt)
         else if stage = FS_hyper_evm_confirmed \<or> fundingStatus = ''hyper_evm_confirmed_onchain''
              \<or> fundingStatus = ''hyper_evm_funded'' then
           Some (simple_operation OS_hypercore_funding OV_pending ''hypercore_funding_not_started'' amountUsd lcUpdatedAt)
         else settled)"

definition deriveOperationState :: "jsval \<Rightarrow> string \<Rightarrow> operation_state option" where
  "deriveOperationState row now =
     (let rowRecord = to_record row;
          metadata = to_record (get rowRecord ''executionMetadata'');
          recoveryState = mapControllerSettlementOperationState
            (readControllerSettlementState (JObj metadata) SK_recoverySettlement SA_recover_closed_funds now) OS_recover;
          closeState = mapControllerSettlementOperationState
            (readControllerSettlementState (JObj metadata) SK_closeSettlement SA_close_vault now) OS_close;
          claimState = mapClaimSettlementOperationState (readClaimSettlementState (JObj metadata) now);
          settled = opt_or recoveryState (opt_or closeState claimState);
          lifecycle = readFundingLifecycleState row
      in case contract_balance_operation metadata of Some s \<Rightarrow> Some s | None \<Rightarrow>
         case unconfirmed recoveryState of Some s \<Rightarrow> Some s | None \<Rightarrow>
         case unconfirmed closeState of Some s \<Rightarrow> Some s | None \<Rightarrow>
         case unconfirmed claimState of Some s \<Rightarrow> Some s | None \<Rightarrow>
         if fs_stage lifecycle = FS_settled \<or> norm_lower (get rowRecord ''executionStatus'') = ''closed'' then settled
         else case unconfirmed (reduce_margin_operation metadata) of Some s \<Rightarrow> Some s | None \<Rightarrow>
         case unconfirmed (margin_add_operation metadata) of Some s \<Rightarrow> Some s | None \<Rightarrow>
         case unconfirmed (funding_intent_operation metadata) of Some s \<Rightarrow> Some s | None \<Rightarrow>
         lifecycle_operation rowRecord lifecycle settled)"

section \<open>The funding display\<close>

datatype display_status =
    DS_deposit_pending_reconciliation | DS_withdraw_pending_reconciliation | DS_funding_confirmed
  | DS_funding_failed_retryable | DS_funding_failed_final | DS_funding_pending

fun display_status_str :: "display_status \<Rightarrow> string" where
  "display_status_str DS_deposit_pending_reconciliation = ''deposit_pending_reconciliation''"
| "display_status_str DS_withdraw_pending_reconciliation = ''withdraw_pending_reconciliation''"
| "display_status_str DS_funding_confirmed = ''funding_confirmed''"
| "display_status_str DS_funding_failed_retryable = ''funding_failed_retryable''"
| "display_status_str DS_funding_failed_final = ''funding_failed_final''"
| "display_status_str DS_funding_pending = ''funding_pending''"

record display_state =
  ds_status :: display_status
  ds_reasonCode :: string
  ds_detail :: "string option"
  ds_recoveryHint :: "recovery_hint option"
  ds_nextRecommendedAction :: next_action

definition normalizeDisplayRecoveryHint ::
  "display_status \<Rightarrow> operation_state option \<Rightarrow> recovery_hint option \<Rightarrow> recovery_hint option" where
  "normalizeDisplayRecoveryHint status operationState fallback =
     (let opst = map_option op_state operationState
      in if opst = Some OV_pending_reconciliation then Some RH_retry_reconcile
         else if opst = Some OV_failed_retryable then Some RH_retry_reconcile
         else if opst = Some OV_failed_final then
           (if map_option op_nextRecommendedAction operationState = Some NA_request_user_action
            then Some RH_request_user_action else Some RH_run_recovery)
         else if status = DS_funding_failed_retryable then Some RH_retry_reconcile
         else if status = DS_funding_failed_final then opt_or fallback (Some RH_run_recovery)
         else if status = DS_funding_confirmed then Some RH_none
         else opt_or fallback (Some RH_none))"

definition buildFundingDisplayState ::
  "display_status \<Rightarrow> string option \<Rightarrow> string option \<Rightarrow> recovery_hint option \<Rightarrow> next_action option
    \<Rightarrow> operation_state option \<Rightarrow> display_state" where
  "buildFundingDisplayState status reasonCode detail recoveryHint nextAction operationState =
     \<lparr> ds_status = status,
       ds_reasonCode = opt_get (to_nullable_string (opt_val reasonCode)) (display_status_str status),
       ds_detail = to_nullable_string (opt_val detail),
       ds_recoveryHint = normalizeDisplayRecoveryHint status operationState recoveryHint,
       ds_nextRecommendedAction =
         opt_get (opt_or nextAction (map_option op_nextRecommendedAction operationState))
           (if status = DS_funding_confirmed then NA_none
            else if status = DS_funding_pending then NA_submit else NA_wait) \<rparr>"

record display_params =
  dp_row :: jsval
  dp_operationState :: "operation_state option"
  dp_lifecycleStage :: "string option"
  dp_fundingStatus :: "string option"
  dp_hypercoreFundingStatus :: "string option"
  dp_executionReady :: "bool option"
  dp_statusCategory :: "string option"
  dp_statusReason :: "string option"
  dp_statusDetail :: "string option"
  dp_statusRecoveryHint :: "recovery_hint option"
  dp_executionMetadata :: jsval

definition from_operation :: "display_status \<Rightarrow> operation_state \<Rightarrow> display_state" where
  "from_operation status st =
     buildFundingDisplayState status (Some (op_reasonCode st)) (op_detail st) None None (Some st)"

definition waiting :: "operation_state \<Rightarrow> bool" where
  "waiting st \<longleftrightarrow> op_state st = OV_pending \<or> op_state st = OV_submitted \<or> op_state st = OV_pending_reconciliation"

definition deriveFundingDisplayState :: "display_params \<Rightarrow> display_state" where
  "deriveFundingDisplayState p =
     (let row = to_record (dp_row p);
          metadata = to_record (coalesce (dp_executionMetadata p) (get row ''executionMetadata''));
          lifecycleStage = norm_lower (JStr (opt_get (dp_lifecycleStage p)
            (if row \<noteq> [] then stage_str (fs_stage (readFundingLifecycleState (JObj row))) else '''')));
          fundingStatus = norm_lower (coalesce (opt_val (dp_fundingStatus p)) (get row ''fundingStatus''));
          hypercoreFundingStatus =
            norm_lower (coalesce (opt_val (dp_hypercoreFundingStatus p)) (get row ''hypercoreFundingStatus''));
          statusCategory = norm_lower (opt_val (dp_statusCategory p));
          lifecycleOverrideState = norm_lower (get metadata ''lifecycleOverrideState'');
          settlementStage = norm_lower (get metadata ''settlementStage'');
          cbr = to_record (get metadata ''contractBalanceReconciliation'');
          show_state = (\<lambda>status dflt hint act. buildFundingDisplayState status
            (Some (opt_get (dp_statusReason p) dflt)) (dp_statusDetail p)
            (opt_or (dp_statusRecoveryHint p) (Some hint)) (Some act) None);
          after_ready =
            (if lifecycleOverrideState = ''withdraw_pending'' \<or> lifecycleOverrideState = ''settling''
                \<or> settlementStage = ''perp_to_spot_pending'' \<or> settlementStage = ''spot_to_evm_pending''
                \<or> get cbr ''state'' = JStr ''pending_reconciliation'' then
               buildFundingDisplayState DS_withdraw_pending_reconciliation
                 (opt_or (dp_statusReason p) (opt_or (to_nullable_string (get cbr ''reasonCode'')) (Some settlementStage)))
                 (opt_or (dp_statusDetail p) (to_nullable_string (get cbr ''detail'')))
                 (opt_or (dp_statusRecoveryHint p) (Some RH_retry_reconcile)) (Some NA_retry_reconcile) None
             else if statusCategory = ''retryable'' \<or> lifecycleStage = ''failed'' then
               show_state DS_funding_failed_retryable ''funding_failed_retryable'' RH_retry_reconcile NA_retry
             else if statusCategory = ''recovery_required'' \<or> lifecycleStage = ''recovery_required'' then
               show_state DS_funding_failed_final ''funding_failed_final'' RH_run_recovery NA_recover
             else if lifecycleStage \<in> set [''funding_requested'', ''hyper_evm_confirmed'', ''hypercore_funded'',
                       ''perp_margin_transferred'', ''hype_reserve_ready'']
                  \<or> fundingStatus \<in> set [''hyper_evm_funding_requested'', ''hyper_evm_confirmed_onchain'', ''hyper_evm_funded'']
                  \<or> hypercoreFundingStatus = ''pending'' then
               show_state DS_deposit_pending_reconciliation ''deposit_pending_reconciliation''
                 RH_retry_reconcile NA_retry_reconcile
             else show_state DS_funding_pending ''funding_pending'' RH_none NA_submit);
          ready = (dp_executionReady p = Some True \<or> lifecycleStage = ''execution_ready'');
          confirmed = show_state DS_funding_confirmed ''funding_confirmed'' RH_none NA_none
      in if lifecycleStage = ''settled'' \<or> fundingStatus = ''settled'' \<or> hypercoreFundingStatus = ''withdrawn'' then
           buildFundingDisplayState DS_funding_confirmed (Some ''settled'')
             (Some (opt_get (dp_statusDetail p) ''closed'')) (Some RH_none) (Some NA_none) None
         else case dp_operationState p of
           None \<Rightarrow> if ready then confirmed else after_ready
         | Some st \<Rightarrow>
             if op_state st = OV_failed_retryable then from_operation DS_funding_failed_retryable st
             else if op_state st = OV_failed_final then from_operation DS_funding_failed_final st
             else if waiting st \<and> op_step st \<in> {OS_hypercore_withdraw, OS_claim, OS_close, OS_recover}
               then from_operation DS_withdraw_pending_reconciliation st
             else if ready then confirmed
             else if waiting st then from_operation DS_deposit_pending_reconciliation st
             else after_ready)"

section \<open>Lemmas\<close>

definition built :: "operation_state option \<Rightarrow> bool" where
  "built o1 \<longleftrightarrow> (case o1 of None \<Rightarrow> True | Some s \<Rightarrow> \<exists>i. s = buildOperationState i)"

named_theorems built_rules

lemma built_None [built_rules]: "built None"
  by (simp add: built_def)

lemma built_Some [built_rules]: "built (Some (buildOperationState i))"
  by (auto simp: built_def)

lemma built_settlement [built_rules]:
  "built (Some (settlement_operation step a tx st pp err amount u ap c pr))"
  by (simp add: settlement_operation_def built_rules)

lemma built_maps [built_rules]:
  "built (mapControllerSettlementOperationState x step)" "built (mapClaimSettlementOperationState y)"
  by (cases x; simp add: mapControllerSettlementOperationState_def built_rules)
    (cases y; simp add: mapClaimSettlementOperationState_def built_rules)

lemma built_records [built_rules]:
  "built (contract_balance_operation m)" "built (reduce_margin_operation m)"
  "built (margin_add_operation m)" "built (funding_intent_operation m)"
  by (simp_all add: contract_balance_operation_def reduce_margin_operation_def margin_add_operation_def
      funding_intent_operation_def Let_def built_rules)

lemma built_opt_or [built_rules]: "built x \<Longrightarrow> built y \<Longrightarrow> built (opt_or x y)"
  by (cases x) (simp_all add: opt_or_def)

lemma unconfirmed_Some: "unconfirmed x = Some s \<longleftrightarrow> x = Some s \<and> op_state s \<noteq> OV_confirmed"
  by (auto simp: unconfirmed_def split: option.splits if_splits)

lemma built_lifecycle [built_rules]: "built x \<Longrightarrow> built (lifecycle_operation row lc x)"
  by (simp add: lifecycle_operation_def Let_def simple_operation_def built_rules)

lemma built_unconfirmed [built_rules]: "built x \<Longrightarrow> built (unconfirmed x)"
  by (auto simp: built_def unconfirmed_def split: option.splits)

lemma built_case [built_rules]: "built x \<Longrightarrow> built y \<Longrightarrow> built (case x of None \<Rightarrow> y | Some s \<Rightarrow> Some s)"
  by (cases x) simp_all

lemma built_if [built_rules]: "built x \<Longrightarrow> built y \<Longrightarrow> built (if c then x else y)"
  by simp

lemma built_derive: "built (deriveOperationState row now)"
  unfolding deriveOperationState_def Let_def by (intro built_rules)

text \<open>A result that reports confirmed can only be what the settlements yielded.\<close>

definition confirmed_from :: "operation_state option \<Rightarrow> operation_state option \<Rightarrow> bool" where
  "confirmed_from settled o1 \<longleftrightarrow> (\<forall>s. o1 = Some s \<longrightarrow> op_state s = OV_confirmed \<longrightarrow> o1 = settled)"

named_theorems confirmed_rules

lemma confirmed_case [confirmed_rules]:
  "confirmed_from c y \<Longrightarrow> confirmed_from c (case unconfirmed x of None \<Rightarrow> y | Some s \<Rightarrow> Some s)"
  by (auto simp: confirmed_from_def unconfirmed_def split: option.splits if_splits)

lemma confirmed_if [confirmed_rules]:
  "confirmed_from c x \<Longrightarrow> confirmed_from c y \<Longrightarrow> confirmed_from c (if b then x else y)"
  by simp

lemma confirmed_refl [confirmed_rules]: "confirmed_from c c"
  by (simp add: confirmed_from_def)

lemma confirmed_simple [confirmed_rules]:
  "st \<noteq> OV_confirmed \<Longrightarrow> confirmed_from c (Some (simple_operation step st reason amount u))"
  by (simp add: confirmed_from_def simple_operation_def buildOperationState_def)

lemma confirmed_lifecycle [confirmed_rules]: "confirmed_from c (lifecycle_operation row lc c)"
  unfolding lifecycle_operation_def Let_def by (intro confirmed_rules) simp_all

lemma contract_balance_pending:
  "contract_balance_operation m = Some s \<Longrightarrow>
   op_state s = OV_pending_reconciliation \<and> op_reasonCode s = ''insufficient_contract_balance''"
  by (auto simp: contract_balance_operation_def Let_def buildOperationState_def split: if_splits)

lemma settlement_operation_step: "op_step (settlement_operation step a tx st pp err amount u ap c pr) = step"
  by (simp add: settlement_operation_def buildOperationState_def)

section \<open>Properties\<close>

text \<open>Whatever the row, a reported operation can be retried exactly when it is pending
  reconciliation or failed retryably, which is exactly when the recommended action is a retry or a
  reconcile retry; the user is asked to act, or a recovery recommended, only after a final failure,
  and nothing is recommended exactly when the operation is confirmed.\<close>

theorem operation_actions:
  assumes "deriveOperationState row now = Some s"
  shows "(op_canRetry s \<longleftrightarrow> op_state s \<in> {OV_pending_reconciliation, OV_failed_retryable}) \<and>
    (op_canRetry s \<longleftrightarrow> op_nextRecommendedAction s \<in> {NA_retry, NA_retry_reconcile}) \<and>
    (op_nextRecommendedAction s \<in> {NA_request_user_action, NA_recover} \<longleftrightarrow> op_state s = OV_failed_final) \<and>
    (op_nextRecommendedAction s = NA_none \<longleftrightarrow> op_state s = OV_confirmed)"
proof -
  obtain i where i: "s = buildOperationState i"
    using built_derive [of row now] assms by (auto simp: built_def)
  show ?thesis
    by (cases "oi_state i") (simp_all add: i buildOperationState_def next_action_of_def Let_def)
qed

definition sample_row :: jsval where
  "sample_row = JObj [(''executionMetadata'', JObj [(''fundingIntent'', JObj
     [(''actionStatus'', JStr ''timed_out''), (''amountUsd'', JNum (Fin 25))])])]"

theorem operation_actions_witness:
  "\<exists>s. deriveOperationState sample_row ''t'' = Some s \<and> op_canRetry s \<and>
     op_nextRecommendedAction s \<in> {NA_retry, NA_retry_reconcile} \<and> op_state s = OV_failed_retryable"
proof -
  have "map_option (\<lambda>s. (op_canRetry s, op_state s)) (deriveOperationState sample_row ''t'') =
      Some (True, OV_failed_retryable)" by code_simp
  then obtain s where "deriveOperationState sample_row ''t'' = Some s" "op_canRetry s" "op_state s = OV_failed_retryable"
    by auto
  with operation_actions [OF this(1)] show ?thesis by blast
qed

text \<open>A shortfall of the contract's balance takes precedence over everything else and is reported
  as pending reconciliation; an operation reported as confirmed is a recovery, close or claim
  settlement; and on a settled or closed row nothing but an open shortfall or settlement, or a
  confirmed settlement, is reported.\<close>

theorem operation_precedence:
  assumes "deriveOperationState row now = Some s"
  shows "(contract_balance_operation (to_record (get (to_record row) ''executionMetadata'')) \<noteq> None \<longrightarrow>
      op_state s = OV_pending_reconciliation \<and> op_reasonCode s = ''insufficient_contract_balance'') \<and>
    (op_state s = OV_confirmed \<longrightarrow> op_step s \<in> {OS_recover, OS_close, OS_claim}) \<and>
    (getFundingLifecycleStage row = FS_settled \<and>
     contract_balance_operation (to_record (get (to_record row) ''executionMetadata'')) = None \<longrightarrow>
      op_step s \<in> {OS_recover, OS_close, OS_claim})"
proof -
  let ?m = "to_record (get (to_record row) ''executionMetadata'')"
  define rs cs where "rs = mapControllerSettlementOperationState
      (readControllerSettlementState (JObj ?m) SK_recoverySettlement SA_recover_closed_funds now) OS_recover"
    and "cs = mapControllerSettlementOperationState
      (readControllerSettlementState (JObj ?m) SK_closeSettlement SA_close_vault now) OS_close"
  define ks where "ks = mapClaimSettlementOperationState (readClaimSettlementState (JObj ?m) now)"
  have "rs = Some y \<Longrightarrow> op_step y = OS_recover" "cs = Some y \<Longrightarrow> op_step y = OS_close"
      "ks = Some y \<Longrightarrow> op_step y = OS_claim" for y
    by (auto simp: rs_def cs_def ks_def mapControllerSettlementOperationState_def
        mapClaimSettlementOperationState_def settlement_operation_step)
  then have step: "x = Some y \<Longrightarrow> op_step y \<in> {OS_recover, OS_close, OS_claim}"
    if "x = rs \<or> x = cs \<or> x = ks \<or> x = opt_or rs (opt_or cs ks)" for x y
    using that by (auto simp: opt_or_def split: option.splits)
  note d = deriveOperationState_def [of row now, unfolded Let_def, folded rs_def cs_def, folded ks_def]
  show ?thesis
  proof (cases "contract_balance_operation ?m")
    case (Some c)
    then have "s = c" using assms by (simp add: d)
    then show ?thesis using contract_balance_pending [OF Some] Some by simp
  next
    case None
    have "confirmed_from (opt_or rs (opt_or cs ks)) (Some s)"
      using assms unfolding d None option.case by (metis confirmed_case confirmed_if confirmed_refl confirmed_lifecycle)
    then have "op_state s = OV_confirmed \<Longrightarrow> Some s = opt_or rs (opt_or cs ks)"
      by (auto simp: confirmed_from_def)
    then have A: "op_state s = OV_confirmed \<longrightarrow> op_step s \<in> {OS_recover, OS_close, OS_claim}"
      using step by metis
    have B: "op_step s \<in> {OS_recover, OS_close, OS_claim}" if "getFundingLifecycleStage row = FS_settled"
    proof -
      have "Some s = rs \<or> Some s = cs \<or> Some s = ks \<or> Some s = opt_or rs (opt_or cs ks)"
        using assms that None unfolding d
        by (auto simp: getFundingLifecycleStage_def unconfirmed_Some split: option.splits)
      then show ?thesis using step by metis
    qed
    show ?thesis using A B None by simp
  qed
qed

definition sample_shortfall :: jsval where
  "sample_shortfall = JObj [(''executionMetadata'', JObj [(''contractBalanceReconciliation'', JObj
     [(''state'', JStr ''pending_reconciliation''), (''reasonCode'', JStr ''insufficient_contract_balance''),
      (''action'', JStr ''close_vault'')])])]"

theorem operation_precedence_witness:
  "\<exists>s. deriveOperationState sample_shortfall ''t'' = Some s \<and> op_state s = OV_pending_reconciliation"
proof -
  have n: "contract_balance_operation (to_record (get (to_record sample_shortfall) ''executionMetadata'')) \<noteq> None"
    by (simp add: sample_shortfall_def contract_balance_operation_def Let_def)
  then obtain s where s: "deriveOperationState sample_shortfall ''t'' = Some s"
    by (auto simp: deriveOperationState_def Let_def split: option.splits)
  show ?thesis using operation_precedence [OF s] n s by blast
qed

text \<open>The lifecycle stage the display works on, and whether the vault is settled or withdrawn.\<close>

definition display_stage :: "display_params \<Rightarrow> string" where
  "display_stage p = norm_lower (JStr (opt_get (dp_lifecycleStage p)
     (if to_record (dp_row p) \<noteq> [] then stage_str (fs_stage (readFundingLifecycleState (JObj (to_record (dp_row p))))) else '''')))"

definition display_over :: "display_params \<Rightarrow> bool" where
  "display_over p \<longleftrightarrow> display_stage p = ''settled''
     \<or> norm_lower (coalesce (opt_val (dp_fundingStatus p)) (get (to_record (dp_row p)) ''fundingStatus'')) = ''settled''
     \<or> norm_lower (coalesce (opt_val (dp_hypercoreFundingStatus p))
         (get (to_record (dp_row p)) ''hypercoreFundingStatus'')) = ''withdrawn''"

text \<open>The display says funding_confirmed only for a settled or withdrawn vault, or for one that is
  execution ready without a failed operation and without an unfinished withdrawal, claim, close or
  recovery; a failed operation of a vault that is not settled is always displayed as failed, with
  a recovery hint of retrying, running recovery or asking the user.\<close>

theorem funding_display_safe:
  "(ds_status (deriveFundingDisplayState p) = DS_funding_confirmed \<longrightarrow>
      display_over p \<or> ((dp_executionReady p = Some True \<or> display_stage p = ''execution_ready'') \<and>
        (\<forall>st. dp_operationState p = Some st \<longrightarrow> op_state st \<notin> {OV_failed_retryable, OV_failed_final} \<and>
           \<not> (waiting st \<and> op_step st \<in> {OS_hypercore_withdraw, OS_claim, OS_close, OS_recover})))) \<and>
    (\<not> display_over p \<and> dp_operationState p = Some st \<and> op_state st = OV_failed_final \<longrightarrow>
      ds_status (deriveFundingDisplayState p) = DS_funding_failed_final \<and>
      ds_recoveryHint (deriveFundingDisplayState p) \<in> {Some RH_request_user_action, Some RH_run_recovery}) \<and>
    (\<not> display_over p \<and> dp_operationState p = Some st \<and> op_state st = OV_failed_retryable \<longrightarrow>
      ds_status (deriveFundingDisplayState p) = DS_funding_failed_retryable \<and>
      ds_recoveryHint (deriveFundingDisplayState p) = Some RH_retry_reconcile)"
proof -
  have sel: "ds_status (buildFundingDisplayState s r d h a o1) = s" for s r d h a o1
    by (simp add: buildFundingDisplayState_def)
  have hint: "ds_recoveryHint (from_operation s st) = normalizeDisplayRecoveryHint s (Some st) None" for s st
    by (simp add: from_operation_def buildFundingDisplayState_def)
  have from1: "ds_status (from_operation s st) = s" for s st by (simp add: from_operation_def sel)
  show ?thesis
    unfolding deriveFundingDisplayState_def Let_def display_over_def display_stage_def
    by (intro conjI impI; (elim conjE)?)
      (auto simp: sel hint from1 normalizeDisplayRecoveryHint_def split: option.splits if_splits)
qed

definition sample_failed :: operation_state where
  "sample_failed = buildOperationState \<lparr> oi_step = OS_hypercore_withdraw, oi_state = OV_failed_final,
     oi_reasonCode = ''x'', oi_detail = None, oi_amountUsd = None, oi_txHash = None, oi_updatedAt = None \<rparr>"

definition sample_display :: display_params where
  "sample_display = \<lparr> dp_row = JUndef, dp_operationState = Some sample_failed, dp_lifecycleStage = Some ''execution_ready'',
     dp_fundingStatus = None, dp_hypercoreFundingStatus = None, dp_executionReady = Some True,
     dp_statusCategory = None, dp_statusReason = None, dp_statusDetail = None, dp_statusRecoveryHint = None,
     dp_executionMetadata = JUndef \<rparr>"

theorem funding_display_safe_witness:
  "ds_status (deriveFundingDisplayState sample_display) = DS_funding_failed_final"
proof -
  have "\<not> display_over sample_display" by code_simp
  moreover have "dp_operationState sample_display = Some sample_failed" by (simp add: sample_display_def)
  moreover have "op_state sample_failed = OV_failed_final" by (simp add: sample_failed_def buildOperationState_def)
  ultimately show ?thesis using funding_display_safe [of sample_display sample_failed] by blast
qed

end
