(* ===== verification/UliqMath.thy ===== *)
theory UliqMath
  imports JsValue
begin

text \<open>
  Integer arithmetic of the token lock gate and its discounts (apps/api/src/uliq/math.ts). Big
  integers are \<open>int\<close>; numbers that the code tests with \<open>Number.isSafeInteger\<close> are JavaScript
  numbers, and dates are their time values, with an invalid date as NaN.
\<close>

section \<open>Safe integers\<close>

definition safe_int :: "jsnum \<Rightarrow> int option" where
  "safe_int n =
     (case n of Fin q \<Rightarrow> (if of_int \<lfloor>q\<rfloor> = q \<and> \<bar>\<lfloor>q\<rfloor>\<bar> \<le> 2 ^ 53 - 1 then Some \<lfloor>q\<rfloor> else None) | _ \<Rightarrow> None)"

text \<open>\<open>BigInt(number)\<close> throws a RangeError on a number that is not an integer.\<close>

definition big_int :: "jsnum \<Rightarrow> int option" where
  "big_int n = (case n of Fin q \<Rightarrow> (if of_int \<lfloor>q\<rfloor> = q then Some \<lfloor>q\<rfloor> else None) | _ \<Rightarrow> None)"

definition num :: "int \<Rightarrow> jsnum" where
  "num i = fl (of_int i)"

section \<open>The lock gate\<close>

datatype uliq_error =
    E_invalid_unsigned_ratio | E_invalid_lock_share_bps | E_invalid_lock_gate_price | E_invalid_lock_gate_input
  | E_invalid_base_amount | E_invalid_discount_bps | E_zero_amount_checkout_not_supported
  | E_empty_cart | E_invalid_line_amount | E_invalid_discount_amount | E_range_error

datatype gate_failure =
  GF_lock_required | GF_lock_amount_insufficient | GF_lock_term_insufficient | GF_lock_state_stale

record lock_position =
  lp_lockId :: string
  lp_amountRaw :: int
  lp_unlockAt :: jsnum
  lp_withdrawn :: bool

record gate_decision =
  gd_qualifies :: bool
  gd_requiredLockedRaw :: string
  gd_qualifyingLockedRaw :: string
  gd_qualifyingLockIds :: "string list"
  gd_requiredBenefitUntil :: jsnum
  gd_coverageShareBps :: jsnum
  gd_failureReason :: "gate_failure option"

definition REQUIRED_LOCK_SHARE_BPS :: jsnum where
  "REQUIRED_LOCK_SHARE_BPS = Fin 2500"

definition uliqCeilDiv :: "int \<Rightarrow> int \<Rightarrow> uliq_error + int" where
  "uliqCeilDiv v divisor =
     (if v < 0 \<or> divisor \<le> 0 then Inl E_invalid_unsigned_ratio
      else if v = 0 then Inr 0
      else Inr ((v + divisor - 1) div divisor))"

definition calculateRequiredLockRaw :: "int \<Rightarrow> int \<Rightarrow> jsnum option \<Rightarrow> uliq_error + int" where
  "calculateRequiredLockRaw tierMinimumUsdScaled referencePriceUsdScaled p_coverageShareBps =
     (case safe_int (opt_get p_coverageShareBps REQUIRED_LOCK_SHARE_BPS) of
        None \<Rightarrow> Inl E_invalid_lock_share_bps
      | Some coverageShareBps \<Rightarrow>
          if coverageShareBps < 0 \<or> 10000 < coverageShareBps then Inl E_invalid_lock_share_bps
          else if tierMinimumUsdScaled < 0 \<or> referencePriceUsdScaled \<le> 0 then Inl E_invalid_lock_gate_price
          else bind_sum (uliqCeilDiv (tierMinimumUsdScaled * 10 ^ 18) referencePriceUsdScaled)
                 (\<lambda>tierMinimumRaw. uliqCeilDiv (tierMinimumRaw * coverageShareBps) 10000))"

definition active_positions :: "lock_position list \<Rightarrow> lock_position list" where
  "active_positions positions = filter (\<lambda>p. \<not> lp_withdrawn p \<and> 0 < lp_amountRaw p) positions"

definition qualifying_positions :: "jsnum \<Rightarrow> lock_position list \<Rightarrow> lock_position list" where
  "qualifying_positions until positions =
     filter (\<lambda>p. n_le until (lp_unlockAt p)) (active_positions positions)"

definition locked_sum :: "lock_position list \<Rightarrow> int" where
  "locked_sum ps = fold (\<lambda>p s. s + lp_amountRaw p) ps 0"

definition decideUliqLockGate ::
  "int \<Rightarrow> jsnum \<Rightarrow> lock_position list \<Rightarrow> bool \<Rightarrow> jsnum option \<Rightarrow> uliq_error + gate_decision" where
  "decideUliqLockGate requiredLockedRaw requiredBenefitUntil positions stateFresh p_coverageShareBps =
     (if requiredLockedRaw < 0 \<or> requiredBenefitUntil = NaN then Inl E_invalid_lock_gate_input
      else
        let coverageShareBps = opt_get p_coverageShareBps REQUIRED_LOCK_SHARE_BPS;
            active = active_positions positions;
            qualifying = qualifying_positions requiredBenefitUntil positions;
            qualifyingLockedRaw = locked_sum qualifying;
            qualifies = (stateFresh \<and> 0 < length qualifying \<and> requiredLockedRaw \<le> qualifyingLockedRaw);
            failureReason =
              (if \<not> stateFresh then Some GF_lock_state_stale
               else if \<not> qualifies \<and> length active = 0 then Some GF_lock_required
               else if \<not> qualifies \<and> length qualifying = 0 then Some GF_lock_term_insufficient
               else if \<not> qualifies then Some GF_lock_amount_insufficient
               else None)
        in Inr \<lparr> gd_qualifies = qualifies, gd_requiredLockedRaw = int_str requiredLockedRaw,
                 gd_qualifyingLockedRaw = int_str qualifyingLockedRaw,
                 gd_qualifyingLockIds = map lp_lockId qualifying,
                 gd_requiredBenefitUntil = requiredBenefitUntil,
                 gd_coverageShareBps = coverageShareBps, gd_failureReason = failureReason \<rparr>)"

section \<open>Discounts\<close>

record discount_allocation =
  da_baseAmountCents :: jsnum
  da_discountAmountCents :: jsnum
  da_finalAmountCents :: jsnum

definition calculateUliqDiscountCents :: "jsnum \<Rightarrow> jsnum \<Rightarrow> uliq_error + discount_allocation" where
  "calculateUliqDiscountCents baseAmountCents discountBps =
     (case safe_int baseAmountCents of
        None \<Rightarrow> Inl E_invalid_base_amount
      | Some base \<Rightarrow>
          if base \<le> 0 then Inl E_invalid_base_amount
          else case safe_int discountBps of
            None \<Rightarrow> Inl E_invalid_discount_bps
          | Some bps \<Rightarrow>
              if bps < 0 \<or> 10000 < bps then Inl E_invalid_discount_bps
              else (let discountAmountCents = num (base * bps div 10000);
                        finalAmountCents = n_sub baseAmountCents discountAmountCents
                    in if n_le finalAmountCents (Fin 0) then Inl E_zero_amount_checkout_not_supported
                       else Inr \<lparr> da_baseAmountCents = baseAmountCents,
                                  da_discountAmountCents = discountAmountCents,
                                  da_finalAmountCents = finalAmountCents \<rparr>))"

text \<open>The map over the lines with the running sum \<open>allocated\<close>; the last line takes the rest.\<close>

fun allocate_lines :: "jsnum \<Rightarrow> jsnum \<Rightarrow> jsnum \<Rightarrow> jsnum list \<Rightarrow> uliq_error + discount_allocation list" where
  "allocate_lines discountAmountCents cart allocated [] = Inr []"
| "allocate_lines discountAmountCents cart allocated (base # rest) =
     (let share =
            (if rest = [] then Inr (n_sub discountAmountCents allocated)
             else case (big_int discountAmountCents, big_int base, big_int cart) of
                    (Some d, Some b, Some t) \<Rightarrow> Inr (num (d * b div t))
                  | _ \<Rightarrow> Inl E_range_error)
      in bind_sum share (\<lambda>discount.
           bind_sum (allocate_lines discountAmountCents cart (n_add allocated discount) rest) (\<lambda>ls.
             Inr (\<lparr> da_baseAmountCents = base, da_discountAmountCents = discount,
                    da_finalAmountCents = n_sub base discount \<rparr> # ls))))"

definition allocateUliqDiscountAcrossLines :: "jsnum list \<Rightarrow> jsnum \<Rightarrow> uliq_error + discount_allocation list" where
  "allocateUliqDiscountAcrossLines lines discountAmountCents =
     (if length lines = 0 then Inl E_empty_cart
      else if list_ex (\<lambda>v. safe_int v = None \<or> n_lt v (Fin 0)) lines then Inl E_invalid_line_amount
      else let total = fold (\<lambda>v s. n_add s v) lines (Fin 0)
           in if safe_int total = None \<or> n_le total (Fin 0) \<or> n_lt discountAmountCents (Fin 0)
                 \<or> n_le total discountAmountCents
              then Inl E_invalid_discount_amount
              else allocate_lines discountAmountCents total (Fin 0) lines)"

section \<open>Lemmas\<close>

lemma ceil_div_spec: "0 < d \<Longrightarrow> v \<le> (v + d - 1) div d * d \<and> (v + d - 1) div d * d < v + d" for v d :: int
proof -
  assume d: "0 < d"
  have "(v + d - 1) div d * d + (v + d - 1) mod d = v + d - 1" by simp
  moreover have "0 \<le> (v + d - 1) mod d" "(v + d - 1) mod d < d" using d by simp_all
  ultimately show ?thesis by linarith
qed

lemma uliq_ceil_Inr:
  "uliqCeilDiv v d = Inr q \<longleftrightarrow> 0 \<le> v \<and> 0 < d \<and> v \<le> q * d \<and> q * d < v + d"
proof -
  have unique: "q = r" if "0 < d" "v \<le> q * d" "q * d < v + d" "v \<le> r * d" "r * d < v + d" for r
  proof -
    have "q * d < (r + 1) * d" "r * d < (q + 1) * d" using that by (simp_all add: distrib_right)
    then have "q < r + 1" "r < q + 1" using that(1) by (simp_all add: mult_less_cancel_right)
    then show ?thesis by simp
  qed
  show ?thesis
    using ceil_div_spec [of d v] unique [of "(v + d - 1) div d"] unique [of 0]
    by (auto simp: uliqCeilDiv_def)
qed

lemma safe_int_Some: "safe_int n = Some i \<longleftrightarrow> n = Fin (of_int i) \<and> \<bar>i\<bar> \<le> 2 ^ 53 - 1"
  by (cases n) (auto simp: safe_int_def)

lemma num_safe: "\<bar>i\<bar> \<le> 2 ^ 53 \<Longrightarrow> num i = Fin (of_int i)"
proof -
  assume i: "\<bar>i\<bar> \<le> 2 ^ 53"
  have d: "dbl (of_int i) = of_int i" using i by (rule dbl_of_int)
  have "(of_int \<bar>i\<bar> :: rat) \<le> of_int (2 ^ 53)" using i by (simp only: of_int_le_iff)
  also have "\<dots> < pow2 1024" using pow2_less_iff [of 53 1024] by (simp add: pow2_def [of 53])
  finally show ?thesis by (simp add: num_def fl_def d)
qed

lemma locked_sum_acc: "fold (\<lambda>p s. s + lp_amountRaw p) ps a = a + sum_list (map lp_amountRaw ps)"
  by (induction ps arbitrary: a) simp_all

lemma locked_sum_eq: "locked_sum ps = sum_list (map lp_amountRaw ps)"
  by (simp add: locked_sum_def locked_sum_acc)

lemma qualifying_subset:
  "set (qualifying_positions t ps) = {p \<in> set ps. \<not> lp_withdrawn p \<and> 0 < lp_amountRaw p \<and> n_le t (lp_unlockAt p)}"
  by (auto simp: qualifying_positions_def active_positions_def)

lemma qualifying_append [simp]:
  "qualifying_positions t (ps @ qs) = qualifying_positions t ps @ qualifying_positions t qs"
  by (simp add: qualifying_positions_def active_positions_def)

lemma qualifying_sum_nonneg: "0 \<le> sum_list (map lp_amountRaw (qualifying_positions t ps))"
  by (rule sum_list_nonneg) (auto simp: qualifying_subset)

abbreviation cents :: "int \<Rightarrow> jsnum" where
  "cents i \<equiv> Fin (of_int i)"

text \<open>The loop over the lines: \<open>a\<close> is allocated so far to lines of sum \<open>p\<close>; the shares never
  exceed the discount.\<close>

lemma big_int_cents [simp]: "big_int (cents i) = Some i"
  by (simp add: big_int_def)

lemma safe_int_cents [simp]: "\<bar>i\<bar> \<le> 2 ^ 53 - 1 \<Longrightarrow> safe_int (cents i) = Some i"
  by (simp add: safe_int_Some)

lemma allocate_lines_shares:
  assumes "\<forall>b\<in>set bs. 0 \<le> b" "0 \<le> p" "p + sum_list bs = t" "0 \<le> D" "D < t" "t \<le> 2 ^ 53 - 1"
    and "0 \<le> a" "a * t \<le> D * p" "bs \<noteq> []"
  shows "\<exists>ls ds. allocate_lines (cents D) (cents t) (cents a) (map cents bs) = Inr ls \<and>
    map da_baseAmountCents ls = map cents bs \<and> map da_discountAmountCents ls = map cents ds \<and>
    map da_finalAmountCents ls = map cents (map2 (-) bs ds) \<and> length ds = length bs \<and>
    sum_list ds = D - a \<and> butlast ds = map (\<lambda>b. D * b div t) (butlast bs) \<and> (\<forall>d\<in>set ds. 0 \<le> d)"
  using assms
proof (induction bs arbitrary: a p)
  case (Cons b bs)
  have t: "0 < t" using Cons.prems by linarith
  have s: "0 \<le> sum_list bs" using Cons.prems(1) by (intro sum_list_nonneg) simp
  have pt: "p \<le> t" "b \<le> t" "0 \<le> b" using Cons.prems(1,2,3) s by simp_all
  have "a * t \<le> D * t" using Cons.prems(4,8) pt(1) by (meson mult_left_mono order_trans)
  then have a: "a \<le> D" using t by simp
  show ?case
  proof (cases "bs = []")
    case True
    have "n_sub (cents D) (cents a) = cents (D - a)" "n_sub (cents b) (cents (D - a)) = cents (b - (D - a))"
      using a pt Cons.prems(4-7) by (intro n_sub_safe; simp)+
    then show ?thesis using True a
      by (intro exI [of _ "[\<lparr> da_baseAmountCents = cents b, da_discountAmountCents = cents (D - a),
            da_finalAmountCents = cents (b - (D - a)) \<rparr>]"] exI [of _ "[D - a]"]) (simp add: bind_sum_def)
  next
    case False
    define d where "d = D * b div t"
    have "d * t = D * b - (D * b) mod t" by (simp add: d_def minus_mod_eq_div_mult)
    moreover have "0 \<le> (D * b) mod t" using t by simp
    ultimately have dt: "d * t \<le> D * b" by linarith
    have d0: "0 \<le> d" using t pt(3) Cons.prems(4) by (simp add: d_def pos_imp_zdiv_nonneg_iff)
    have ad: "(a + d) * t \<le> D * (p + b)" using Cons.prems(8) dt by (simp add: algebra_simps)
    also have "\<dots> \<le> D * t" using Cons.prems(3,4) s by (intro mult_left_mono) simp_all
    finally have adD: "a + d \<le> D" using t by simp
    obtain ls ds where IH: "allocate_lines (cents D) (cents t) (cents (a + d)) (map cents bs) = Inr ls"
      "map da_baseAmountCents ls = map cents bs" "map da_discountAmountCents ls = map cents ds"
      "map da_finalAmountCents ls = map cents (map2 (-) bs ds)" "length ds = length bs"
      "sum_list ds = D - (a + d)" "butlast ds = map (\<lambda>b. D * b div t) (butlast bs)" "\<forall>d\<in>set ds. 0 \<le> d"
      using Cons.IH [of "p + b" "a + d"] Cons.prems ad d0 False pt by auto
    have n: "num d = cents d" "n_add (cents a) (cents d) = cents (a + d)" "n_sub (cents b) (cents d) = cents (b - d)"
      using adD d0 pt Cons.prems(4-7) by (intro num_safe n_add_safe n_sub_safe; simp)+
    have step: "allocate_lines (cents D) (cents t) (cents a) (map cents (b # bs)) = Inr
        (\<lparr> da_baseAmountCents = cents b, da_discountAmountCents = cents d, da_finalAmountCents = cents (b - d) \<rparr> # ls)"
      using False IH(1) n by (simp add: bind_sum_def Let_def flip: d_def del: of_int_diff of_int_add)
    have "ds \<noteq> []" using IH(5) False by auto
    then show ?thesis
      using step IH False d0
      by (intro exI [of _ "\<lparr> da_baseAmountCents = cents b, da_discountAmountCents = cents d,
            da_finalAmountCents = cents (b - d) \<rparr> # ls"] exI [of _ "d # ds"])
        (simp add: d_def del: allocate_lines.simps)
  qed
qed simp

lemma fold_total:
  assumes "\<forall>b\<in>set bs. 0 \<le> b" "0 \<le> a" "a + sum_list bs \<le> 2 ^ 53 - 1"
  shows "fold (\<lambda>v s. n_add s v) (map cents bs) (cents a) = cents (a + sum_list bs)"
  using assms
proof (induction bs arbitrary: a)
  case (Cons b bs)
  have s: "0 \<le> sum_list bs" using Cons.prems(1) by (intro sum_list_nonneg) simp
  then have "n_add (cents a) (cents b) = cents (a + b)" using Cons.prems by (intro n_add_safe) simp
  moreover have "fold (\<lambda>v s. n_add s v) (map cents bs) (cents (a + b)) = cents (a + b + sum_list bs)"
    using Cons.prems by (intro Cons.IH) simp_all
  ultimately show ?case by (simp add: add.assoc)
qed simp

section \<open>Properties\<close>

text \<open>The required lock is the least integer number of raw units that covers the share of the least
  token amount worth the tier minimum at the reference price; a share outside 0 to 10000 basis
  points, a negative minimum or a price that is not positive is an error.\<close>

theorem required_lock_least:
  "(calculateRequiredLockRaw m price (Some (cents bps)) = Inr r \<longleftrightarrow>
     0 \<le> bps \<and> bps \<le> 10000 \<and> 0 \<le> m \<and> 0 < price \<and>
     (\<exists>q. m * 10 ^ 18 \<le> q * price \<and> q * price < m * 10 ^ 18 + price \<and>
          q * bps \<le> r * 10000 \<and> r * 10000 < q * bps + 10000))"
proof (cases "0 \<le> bps \<and> bps \<le> 10000 \<and> 0 \<le> m \<and> 0 < price")
  case False
  then have "\<exists>e. calculateRequiredLockRaw m price (Some (cents bps)) = Inl e"
    by (auto simp: calculateRequiredLockRaw_def opt_get_def split: option.splits dest!: safe_int_Some [THEN iffD1])
  then show ?thesis using False by auto
next
  case True
  have M: "0 \<le> m * 10 ^ 18" using True by simp
  have "\<exists>q. uliqCeilDiv (m * 10 ^ 18) price = Inr q"
    using True M by (cases "m = 0") (auto simp: uliqCeilDiv_def)
  then obtain q where q: "uliqCeilDiv (m * 10 ^ 18) price = Inr q" by blast
  then have q2: "m * 10 ^ 18 \<le> q * price" "q * price < m * 10 ^ 18 + price" by (simp_all only: uliq_ceil_Inr)
  have "0 \<le> q * price" using M q2 by linarith
  then have "0 \<le> q" using True by (simp add: zero_le_mult_iff)
  then have qb: "0 \<le> q * bps" using True by simp
  have u: "q' = q" if "m * 10 ^ 18 \<le> q' * price" "q' * price < m * 10 ^ 18 + price" for q'
    using that True M q uliq_ceil_Inr [of "m * 10 ^ 18" price q'] by simp
  have "calculateRequiredLockRaw m price (Some (cents bps)) = uliqCeilDiv (q * bps) 10000"
    using True q by (simp add: calculateRequiredLockRaw_def opt_get_def bind_sum_def)
  then have eq: "calculateRequiredLockRaw m price (Some (cents bps)) = Inr r \<longleftrightarrow>
      q * bps \<le> r * 10000 \<and> r * 10000 < q * bps + 10000"
    using qb by (simp add: uliq_ceil_Inr)
  show ?thesis unfolding eq using True q2 u by blast
qed

text \<open>The lock gate qualifies exactly when the state is fresh and some position that is not withdrawn,
  not empty and locked until the benefit's end exists and those positions sum up to the required
  amount; a decision has no failure reason exactly when it qualifies, a stale state is always the
  reason given first, and another position never turns a qualifying decision into a failing one.\<close>

theorem lock_gate_correct:
  assumes "decideUliqLockGate req until ps fresh share = Inr d"
  shows "(gd_qualifies d \<longleftrightarrow> fresh \<and> qualifying_positions until ps \<noteq> [] \<and>
      req \<le> sum_list (map lp_amountRaw (qualifying_positions until ps))) \<and>
    (gd_failureReason d = None \<longleftrightarrow> gd_qualifies d) \<and>
    (\<not> fresh \<longleftrightarrow> gd_failureReason d = Some GF_lock_state_stale) \<and>
    (gd_failureReason d = Some GF_lock_required \<longrightarrow> (\<forall>p\<in>set ps. lp_withdrawn p \<or> lp_amountRaw p \<le> 0)) \<and>
    (gd_failureReason d = Some GF_lock_term_insufficient \<longrightarrow>
      (\<forall>p\<in>set ps. lp_withdrawn p \<or> lp_amountRaw p \<le> 0 \<or> \<not> n_le until (lp_unlockAt p))) \<and>
    (gd_qualifies d \<longrightarrow> (\<exists>d'. decideUliqLockGate req until (ps @ extra) fresh share = Inr d' \<and> gd_qualifies d'))"
proof -
  have ok: "\<not> (req < 0 \<or> until = NaN)" using assms by (auto simp: decideUliqLockGate_def split: if_splits)
  have d: "d = \<lparr> gd_qualifies = fresh \<and> 0 < length (qualifying_positions until ps) \<and>
        req \<le> sum_list (map lp_amountRaw (qualifying_positions until ps)),
      gd_requiredLockedRaw = gd_requiredLockedRaw d, gd_qualifyingLockedRaw = gd_qualifyingLockedRaw d,
      gd_qualifyingLockIds = gd_qualifyingLockIds d, gd_requiredBenefitUntil = gd_requiredBenefitUntil d,
      gd_coverageShareBps = gd_coverageShareBps d, gd_failureReason = gd_failureReason d \<rparr>"
    and f: "gd_failureReason d =
      (if \<not> fresh then Some GF_lock_state_stale
       else if \<not> gd_qualifies d \<and> length (active_positions ps) = 0 then Some GF_lock_required
       else if \<not> gd_qualifies d \<and> length (qualifying_positions until ps) = 0 then Some GF_lock_term_insufficient
       else if \<not> gd_qualifies d then Some GF_lock_amount_insufficient else None)"
    using assms ok by (auto simp: decideUliqLockGate_def Let_def locked_sum_eq)
  have q: "gd_qualifies d \<longleftrightarrow> fresh \<and> qualifying_positions until ps \<noteq> [] \<and>
      req \<le> sum_list (map lp_amountRaw (qualifying_positions until ps))"
    using arg_cong [OF d, of gd_qualifies] by simp
  have a: "active_positions ps = [] \<longleftrightarrow> (\<forall>p\<in>set ps. lp_withdrawn p \<or> lp_amountRaw p \<le> 0)"
    by (auto simp: active_positions_def filter_empty_conv)
  have b: "qualifying_positions until ps = [] \<longleftrightarrow>
      (\<forall>p\<in>set ps. lp_withdrawn p \<or> lp_amountRaw p \<le> 0 \<or> \<not> n_le until (lp_unlockAt p))"
    by (auto simp: active_positions_def qualifying_positions_def filter_empty_conv)
  have m: "gd_qualifies d \<longrightarrow> (\<exists>d'. decideUliqLockGate req until (ps @ extra) fresh share = Inr d' \<and> gd_qualifies d')"
    using ok q qualifying_sum_nonneg [of until extra] by (auto simp: decideUliqLockGate_def Let_def locked_sum_eq)
  have f1: "gd_failureReason d = None \<longleftrightarrow> gd_qualifies d" using f q by (auto split: if_splits)
  have f2: "\<not> fresh \<longleftrightarrow> gd_failureReason d = Some GF_lock_state_stale" using f by (auto split: if_splits)
  have f3: "gd_failureReason d = Some GF_lock_required \<longrightarrow> active_positions ps = []"
    using f by (auto split: if_splits)
  have f4: "gd_failureReason d = Some GF_lock_term_insufficient \<longrightarrow> qualifying_positions until ps = []"
    using f by (auto split: if_splits)
  show ?thesis by (intro conjI q f1 f2 f3 [unfolded a] f4 [unfolded b] m)
qed

definition sample_position :: lock_position where
  "sample_position = \<lparr> lp_lockId = ''a'', lp_amountRaw = 5, lp_unlockAt = Fin 100, lp_withdrawn = False \<rparr>"

theorem lock_gate_correct_witness:
  "\<exists>d. decideUliqLockGate 5 (Fin 50) [sample_position] True None = Inr d \<and> gd_qualifies d \<and>
     gd_failureReason d = None"
proof -
  obtain d where d: "decideUliqLockGate 5 (Fin 50) [sample_position] True None = Inr d"
    by (simp add: decideUliqLockGate_def Let_def)
  have "qualifying_positions (Fin 50) [sample_position] = [sample_position]"
    by (simp add: sample_position_def qualifying_positions_def active_positions_def n_le_def)
  then show ?thesis using lock_gate_correct [OF d] d by (simp add: sample_position_def)
qed

text \<open>C38: On whole non-negative line amounts with a safe total and a whole discount below it, the
  allocation succeeds, its discounts are not negative and sum up to exactly the discount, every line
  but the last gets its proportional share rounded down, and each final amount is the line's base
  less its discount.\<close>

theorem discount_allocation_exact:
  assumes "bs \<noteq> []" "\<forall>b\<in>set bs. 0 \<le> b" "sum_list bs \<le> 2 ^ 53 - 1" "0 \<le> D" "D < sum_list bs"
  shows "\<exists>ls ds. allocateUliqDiscountAcrossLines (map cents bs) (cents D) = Inr ls \<and>
    map da_baseAmountCents ls = map cents bs \<and> map da_discountAmountCents ls = map cents ds \<and>
    map da_finalAmountCents ls = map cents (map2 (-) bs ds) \<and> length ds = length bs \<and>
    sum_list ds = D \<and> butlast ds = map (\<lambda>b. D * b div sum_list bs) (butlast bs) \<and> (\<forall>d\<in>set ds. 0 \<le> d)"
proof -
  have ne: "\<not> list_ex (\<lambda>v. safe_int v = None \<or> n_lt v (Fin 0)) (map cents bs)"
  proof -
    have "b \<le> sum_list bs" if "b \<in> set bs" for b
      using that assms(2) by (intro member_le_sum_list) auto
    then have "\<bar>b\<bar> \<le> 2 ^ 53 - 1" if "b \<in> set bs" for b using that assms(2,3) by fastforce
    then show ?thesis using assms(2) by (auto simp: list_ex_iff)
  qed
  have tot: "fold (\<lambda>v s. n_add s v) (map cents bs) (Fin 0) = cents (sum_list bs)"
    using fold_total [of bs 0] assms by simp
  have "allocateUliqDiscountAcrossLines (map cents bs) (cents D) =
      allocate_lines (cents D) (cents (sum_list bs)) (Fin 0) (map cents bs)"
    using assms ne unfolding allocateUliqDiscountAcrossLines_def Let_def tot by (simp add: n_le_def)
  then show ?thesis
    using allocate_lines_shares [of bs 0 "sum_list bs" D 0] assms by simp
qed

theorem discount_allocation_exact_witness:
  "\<exists>ls ds. allocateUliqDiscountAcrossLines (map cents [100, 50]) (cents 10) = Inr ls \<and>
     map da_discountAmountCents ls = map cents ds \<and> sum_list ds = 10"
  using discount_allocation_exact [of "[100, 50]" 10] by force

text \<open>The last line can get more discount than its base: four lines of 2, 2, 2 and 1 cents with a
  discount of 6 cents leave the last line with a final amount of minus 2 cents.\<close>

theorem discount_last_line_negative:
  "map_sum id (map da_finalAmountCents) (allocateUliqDiscountAcrossLines (map cents [2, 2, 2, 1]) (cents 6))
     = Inr [Fin 1, Fin 1, Fin 1, Fin (- 2)]"
  by code_simp

end
