(* ===== verification/AiPricing.thy ===== *)
theory AiPricing
  imports JsValue
begin

text \<open>
  The price of one model call (apps/api/src/ai/credits/pricing.ts): token counts and rates are big
  integers, multipliers and markup whole numbers of basis points (integer columns), dates ISO
  strings. Every division rounds up, so the price never falls below the exact one.
\<close>

definition MICROUSD_PER_CREDIT :: int where
  "MICROUSD_PER_CREDIT = 1000"

definition TOKENS_PER_PRICE_UNIT :: int where
  "TOKENS_PER_PRICE_UNIT = 1000000"

definition BPS_DENOMINATOR :: int where
  "BPS_DENOMINATOR = 10000"

datatype pricing_error = PE_invalid_integer | PE_input_breakdown_invalid

record token_usage =
  tu_inputTokens :: int
  tu_cachedInputTokens :: int
  tu_cacheWriteTokens :: int
  tu_outputTokens :: int
  tu_reasoningTokens :: int

record pricing_snapshot =
  ps_id :: string
  ps_model :: string
  ps_inputMicrousdPerMillion :: int
  ps_cachedInputMicrousdPerMillion :: int
  ps_cacheWriteMicrousdPerMillion :: "int option"
  ps_outputMicrousdPerMillion :: int
  ps_longContextThresholdTokens :: "int option"
  ps_longInputMultiplierBps :: "int option"
  ps_longOutputMultiplierBps :: "int option"
  ps_markupBps :: int
  ps_revision :: int
  ps_effectiveFrom :: string
  ps_effectiveUntil :: "string option"

record cost_breakdown =
  cb_uncachedInputMicrousd :: int
  cb_cachedInputMicrousd :: int
  cb_cacheWriteMicrousd :: int
  cb_outputMicrousd :: int
  cb_toolMicrousd :: int
  cb_providerCostMicrousd :: int
  cb_retailCostMicrousd :: int
  cb_longContext :: bool

text \<open>Big integer division truncates; the dividend is never negative here.\<close>

definition priceCeilDiv :: "int \<Rightarrow> int \<Rightarrow> pricing_error + int" where
  "priceCeilDiv v divisor =
     (if v < 0 \<or> divisor \<le> 0 then Inl PE_invalid_integer
      else if v = 0 then Inr 0 else Inr ((v - 1) div divisor + 1))"

definition nonNegative :: "int \<Rightarrow> int" where
  "nonNegative v = (if 0 < v then v else 0)"

definition tokenCost :: "int \<Rightarrow> int \<Rightarrow> int \<Rightarrow> pricing_error + int" where
  "tokenCost tokens rate multiplierBps =
     (if tokens \<le> 0 \<or> rate \<le> 0 then Inr 0
      else priceCeilDiv (tokens * rate * multiplierBps) (TOKENS_PER_PRICE_UNIT * BPS_DENOMINATOR))"

definition is_long_context :: "token_usage \<Rightarrow> pricing_snapshot \<Rightarrow> bool" where
  "is_long_context usage pricing =
     (case ps_longContextThresholdTokens pricing of
        None \<Rightarrow> False | Some threshold \<Rightarrow> threshold < nonNegative (tu_inputTokens usage))"

definition calculateAiUsageCost ::
  "token_usage \<Rightarrow> pricing_snapshot \<Rightarrow> int option \<Rightarrow> pricing_error + cost_breakdown" where
  "calculateAiUsageCost usage pricing p_toolMicrousd =
     (let cached = nonNegative (tu_cachedInputTokens usage);
          cacheWrite = nonNegative (tu_cacheWriteTokens usage);
          input = nonNegative (tu_inputTokens usage)
      in if input < cached + cacheWrite then Inl PE_input_breakdown_invalid
         else
           let output = nonNegative (tu_outputTokens usage);
               longContext = is_long_context usage pricing;
               inputMultiplier = (if longContext then opt_get (ps_longInputMultiplierBps pricing) 10000 else 10000);
               outputMultiplier = (if longContext then opt_get (ps_longOutputMultiplierBps pricing) 10000 else 10000);
               uncached = input - cached - cacheWrite
           in bind_sum (tokenCost uncached (ps_inputMicrousdPerMillion pricing) inputMultiplier) (\<lambda>uncachedInputMicrousd.
              bind_sum (tokenCost cached (ps_cachedInputMicrousdPerMillion pricing) inputMultiplier) (\<lambda>cachedInputMicrousd.
              bind_sum (tokenCost cacheWrite
                 (opt_get (ps_cacheWriteMicrousdPerMillion pricing) (ps_inputMicrousdPerMillion pricing)) inputMultiplier)
               (\<lambda>cacheWriteMicrousd.
              bind_sum (tokenCost output (ps_outputMicrousdPerMillion pricing) outputMultiplier) (\<lambda>outputMicrousd.
                let toolMicrousd = nonNegative (opt_get p_toolMicrousd 0);
                    providerCostMicrousd = uncachedInputMicrousd + cachedInputMicrousd + cacheWriteMicrousd
                      + outputMicrousd + toolMicrousd
                in bind_sum (priceCeilDiv (providerCostMicrousd * ps_markupBps pricing) BPS_DENOMINATOR)
                  (\<lambda>retailCostMicrousd.
                  Inr \<lparr> cb_uncachedInputMicrousd = uncachedInputMicrousd, cb_cachedInputMicrousd = cachedInputMicrousd,
                        cb_cacheWriteMicrousd = cacheWriteMicrousd, cb_outputMicrousd = outputMicrousd,
                        cb_toolMicrousd = toolMicrousd, cb_providerCostMicrousd = providerCostMicrousd,
                        cb_retailCostMicrousd = retailCostMicrousd, cb_longContext = longContext \<rparr>))))))"

definition creditsForRetailMicrousd :: "int \<Rightarrow> int \<Rightarrow> pricing_error + int" where
  "creditsForRetailMicrousd retailCostMicrousd minimum =
     (if retailCostMicrousd \<le> 0 then Inr 0
      else bind_sum (priceCeilDiv retailCostMicrousd MICROUSD_PER_CREDIT) (\<lambda>rounded.
             Inr (if rounded < minimum then minimum else rounded)))"

definition opt_int_val :: "int option \<Rightarrow> jsval" where
  "opt_int_val x = (case x of None \<Rightarrow> JNull | Some i \<Rightarrow> JNum (fl (of_int i)))"

definition serializePricingSnapshot :: "pricing_snapshot \<Rightarrow> jsobj" where
  "serializePricingSnapshot pricing =
     [(''id'', JStr (ps_id pricing)), (''provider'', JStr ''openai''), (''model'', JStr (ps_model pricing)),
      (''serviceTier'', JStr ''default''), (''processingRegion'', JStr ''global''),
      (''inputMicrousdPerMillion'', JStr (int_str (ps_inputMicrousdPerMillion pricing))),
      (''cachedInputMicrousdPerMillion'', JStr (int_str (ps_cachedInputMicrousdPerMillion pricing))),
      (''cacheWriteMicrousdPerMillion'',
        (case ps_cacheWriteMicrousdPerMillion pricing of None \<Rightarrow> JNull | Some i \<Rightarrow> JStr (int_str i))),
      (''outputMicrousdPerMillion'', JStr (int_str (ps_outputMicrousdPerMillion pricing))),
      (''longContextThresholdTokens'', opt_int_val (ps_longContextThresholdTokens pricing)),
      (''longInputMultiplierBps'', opt_int_val (ps_longInputMultiplierBps pricing)),
      (''longOutputMultiplierBps'', opt_int_val (ps_longOutputMultiplierBps pricing)),
      (''markupBps'', JNum (fl (of_int (ps_markupBps pricing)))),
      (''revision'', JNum (fl (of_int (ps_revision pricing)))),
      (''effectiveFrom'', JStr (ps_effectiveFrom pricing)), (''effectiveUntil'', opt_val (ps_effectiveUntil pricing))]"

section \<open>Lemmas\<close>

text \<open>The ceiling of a quotient, as the least integer not below it.\<close>

definition is_ceil :: "int \<Rightarrow> int \<Rightarrow> int \<Rightarrow> bool" where
  "is_ceil v d q \<longleftrightarrow> v \<le> q * d \<and> q * d < v + d"

lemma is_ceil_unique: "0 < d \<Longrightarrow> is_ceil v d q \<Longrightarrow> is_ceil v d r \<Longrightarrow> q = r"
proof -
  assume d: "0 < d" and "is_ceil v d q" "is_ceil v d r"
  then have "q * d < (r + 1) * d" "r * d < (q + 1) * d" by (simp_all add: is_ceil_def distrib_right)
  then have "q < r + 1" "r < q + 1" using d by (simp_all add: mult_less_cancel_right)
  then show "q = r" by simp
qed

lemma price_ceil:
  assumes "0 \<le> v" "0 < d"
  shows "\<exists>q. priceCeilDiv v d = Inr q \<and> is_ceil v d q \<and> 0 \<le> q"
proof (cases "v = 0")
  case True
  then show ?thesis using assms by (simp add: priceCeilDiv_def is_ceil_def)
next
  case False
  define k where "k = (v - 1) div d"
  have "k * d + (v - 1) mod d = v - 1" by (simp add: k_def)
  moreover have "0 \<le> (v - 1) mod d" "(v - 1) mod d < d" using assms by simp_all
  ultimately have "v \<le> k * d + d" "k * d < v" by linarith+
  moreover have "0 \<le> k" using False assms by (simp add: k_def pos_imp_zdiv_nonneg_iff)
  ultimately show ?thesis
    using assms False by (simp add: priceCeilDiv_def is_ceil_def distrib_right flip: k_def)
qed

lemma price_ceil_mono:
  assumes "v \<le> w" "0 < d" "priceCeilDiv v d = Inr q" "priceCeilDiv w d = Inr r"
  shows "q \<le> r"
proof -
  have v: "0 \<le> v" "0 \<le> w" using assms by (auto simp: priceCeilDiv_def split: if_splits)
  have q: "is_ceil v d q" using price_ceil [OF v(1) assms(2)] assms(3) by auto
  have r: "is_ceil w d r" using price_ceil [OF v(2) assms(2)] assms(4) by auto
  have "q * d < (r + 1) * d" using q r assms(1) by (simp add: is_ceil_def distrib_right)
  then have "q < r + 1" using assms(2) by (simp add: mult_less_cancel_right)
  then show ?thesis by simp
qed

lemma nonNegative_max: "nonNegative v = max 0 v"
  by (simp add: nonNegative_def)

definition unit_denominator :: int where
  "unit_denominator = TOKENS_PER_PRICE_UNIT * BPS_DENOMINATOR"

lemma unit_pos: "0 < unit_denominator"
  by (simp add: unit_denominator_def TOKENS_PER_PRICE_UNIT_def BPS_DENOMINATOR_def)

lemma token_cost:
  assumes "0 \<le> m"
  shows "\<exists>c. tokenCost t r m = Inr c \<and> 0 \<le> c \<and> is_ceil (max 0 t * max 0 r * m) unit_denominator c"
proof (cases "t \<le> 0 \<or> r \<le> 0")
  case True
  then show ?thesis using unit_pos by (auto simp: tokenCost_def is_ceil_def max_def)
next
  case False
  then have "0 \<le> t * r * m" using assms by simp
  from price_ceil [OF this unit_pos] False show ?thesis
    by (auto simp: tokenCost_def max_def simp flip: unit_denominator_def)
qed

lemma token_cost_mono:
  assumes "0 \<le> m" "t \<le> t'" "tokenCost t r m = Inr c" "tokenCost t' r m = Inr c'"
  shows "c \<le> c'"
proof -
  have c: "is_ceil (max 0 t * max 0 r * m) unit_denominator c" using token_cost [OF assms(1), of t r] assms(3) by auto
  have c': "is_ceil (max 0 t' * max 0 r * m) unit_denominator c'" using token_cost [OF assms(1), of t' r] assms(4) by auto
  have "max 0 t * max 0 r * m \<le> max 0 t' * max 0 r * m" using assms by (intro mult_right_mono) auto
  then have "c * unit_denominator < (c' + 1) * unit_denominator" using c c' by (simp add: is_ceil_def distrib_right)
  then show ?thesis using unit_pos by (simp add: mult_less_cancel_right)
qed

definition input_multiplier :: "token_usage \<Rightarrow> pricing_snapshot \<Rightarrow> int" where
  "input_multiplier u p = (if is_long_context u p then opt_get (ps_longInputMultiplierBps p) 10000 else 10000)"

definition output_multiplier :: "token_usage \<Rightarrow> pricing_snapshot \<Rightarrow> int" where
  "output_multiplier u p = (if is_long_context u p then opt_get (ps_longOutputMultiplierBps p) 10000 else 10000)"

section \<open>Properties\<close>

text \<open>C37: With multipliers and markup that are not negative, pricing fails exactly when the cached and
  cache-write tokens exceed the input; otherwise every token class, that is uncached input, cached input, cache writes and output, costs its
  tokens times rate times multiplier rounded up once (cache writes at the rate of the input when they have none of their own),
  the tools cost what was charged for them, the provider cost is the sum of the classes and the tools, and
  the retail cost is the provider cost with the markup rounded up, so never below the exact price.\<close>

theorem usage_cost_correct:
  assumes "0 \<le> input_multiplier u p" "0 \<le> output_multiplier u p" "0 \<le> ps_markupBps p"
  shows "if max 0 (tu_inputTokens u) < max 0 (tu_cachedInputTokens u) + max 0 (tu_cacheWriteTokens u)
    then calculateAiUsageCost u p tool = Inl PE_input_breakdown_invalid
    else (\<exists>c. calculateAiUsageCost u p tool = Inr c \<and>
      is_ceil ((max 0 (tu_inputTokens u) - max 0 (tu_cachedInputTokens u) - max 0 (tu_cacheWriteTokens u))
        * max 0 (ps_inputMicrousdPerMillion p) * input_multiplier u p) unit_denominator (cb_uncachedInputMicrousd c) \<and>
      is_ceil (max 0 (tu_cachedInputTokens u) * max 0 (ps_cachedInputMicrousdPerMillion p) * input_multiplier u p)
        unit_denominator (cb_cachedInputMicrousd c) \<and>
      is_ceil (max 0 (tu_cacheWriteTokens u) * max 0 (case ps_cacheWriteMicrousdPerMillion p of Some rate \<Rightarrow> rate
          | None \<Rightarrow> ps_inputMicrousdPerMillion p) * input_multiplier u p) unit_denominator (cb_cacheWriteMicrousd c) \<and>
      is_ceil (max 0 (tu_outputTokens u) * max 0 (ps_outputMicrousdPerMillion p) * output_multiplier u p)
        unit_denominator (cb_outputMicrousd c) \<and>
      cb_providerCostMicrousd c = cb_uncachedInputMicrousd c + cb_cachedInputMicrousd c
        + cb_cacheWriteMicrousd c + cb_outputMicrousd c + cb_toolMicrousd c \<and>
      cb_toolMicrousd c = max 0 (opt_get tool 0) \<and> 0 \<le> cb_providerCostMicrousd c \<and>
      is_ceil (cb_providerCostMicrousd c * ps_markupBps p) BPS_DENOMINATOR (cb_retailCostMicrousd c))"
proof (cases "max 0 (tu_inputTokens u) < max 0 (tu_cachedInputTokens u) + max 0 (tu_cacheWriteTokens u)")
  case True
  then show ?thesis by (simp add: calculateAiUsageCost_def nonNegative_max Let_def)
next
  case False
  let ?in = "max 0 (tu_inputTokens u) - max 0 (tu_cachedInputTokens u) - max 0 (tu_cacheWriteTokens u)"
  let ?wr = "opt_get (ps_cacheWriteMicrousdPerMillion p) (ps_inputMicrousdPerMillion p)"
  obtain a where a: "tokenCost ?in (ps_inputMicrousdPerMillion p) (input_multiplier u p) = Inr a" "0 \<le> a"
      "is_ceil (max 0 ?in * max 0 (ps_inputMicrousdPerMillion p) * input_multiplier u p) unit_denominator a"
    using token_cost [OF assms(1)] by blast
  obtain b where b: "tokenCost (max 0 (tu_cachedInputTokens u)) (ps_cachedInputMicrousdPerMillion p) (input_multiplier u p) = Inr b"
      "0 \<le> b" "is_ceil (max 0 (max 0 (tu_cachedInputTokens u)) * max 0 (ps_cachedInputMicrousdPerMillion p)
        * input_multiplier u p) unit_denominator b"
    using token_cost [OF assms(1)] by blast
  obtain w where w: "tokenCost (max 0 (tu_cacheWriteTokens u)) ?wr (input_multiplier u p) = Inr w" "0 \<le> w"
      "is_ceil (max 0 (max 0 (tu_cacheWriteTokens u)) * max 0 ?wr * input_multiplier u p) unit_denominator w"
    using token_cost [OF assms(1)] by blast
  obtain out where out: "tokenCost (max 0 (tu_outputTokens u)) (ps_outputMicrousdPerMillion p) (output_multiplier u p) = Inr out"
      "0 \<le> out" "is_ceil (max 0 (max 0 (tu_outputTokens u)) * max 0 (ps_outputMicrousdPerMillion p)
        * output_multiplier u p) unit_denominator out"
    using token_cost [OF assms(2)] by blast
  define prov where "prov = a + b + w + out + max 0 (opt_get tool 0)"
  have prov: "0 \<le> prov" using a b w out by (simp add: prov_def)
  obtain r where r: "priceCeilDiv (prov * ps_markupBps p) BPS_DENOMINATOR = Inr r"
      "is_ceil (prov * ps_markupBps p) BPS_DENOMINATOR r"
    using price_ceil [of "prov * ps_markupBps p" BPS_DENOMINATOR] prov assms(3) by (auto simp: BPS_DENOMINATOR_def)
  have "calculateAiUsageCost u p tool = Inr \<lparr> cb_uncachedInputMicrousd = a, cb_cachedInputMicrousd = b,
      cb_cacheWriteMicrousd = w, cb_outputMicrousd = out, cb_toolMicrousd = max 0 (opt_get tool 0),
      cb_providerCostMicrousd = prov, cb_retailCostMicrousd = r, cb_longContext = is_long_context u p \<rparr>"
    using False a(1) b(1) w(1) out(1) r(1)
    unfolding calculateAiUsageCost_def Let_def nonNegative_max input_multiplier_def [symmetric]
      output_multiplier_def [symmetric] prov_def [symmetric]
    by (simp add: bind_sum_def flip: prov_def)
  moreover have "max 0 ?in = ?in" using False by linarith
  moreover have "?wr = (case ps_cacheWriteMicrousdPerMillion p of Some rate \<Rightarrow> rate | None \<Rightarrow> ps_inputMicrousdPerMillion p)"
    by (simp add: opt_get_def)
  ultimately show ?thesis using False a b w out r prov by (simp add: prov_def)
qed

definition sample_pricing :: pricing_snapshot where
  "sample_pricing = \<lparr> ps_id = ''p'', ps_model = ''m'', ps_inputMicrousdPerMillion = 2000000,
     ps_cachedInputMicrousdPerMillion = 200000, ps_cacheWriteMicrousdPerMillion = None,
     ps_outputMicrousdPerMillion = 8000000, ps_longContextThresholdTokens = Some 100000,
     ps_longInputMultiplierBps = Some 20000, ps_longOutputMultiplierBps = Some 15000, ps_markupBps = 13000,
     ps_revision = 1, ps_effectiveFrom = ''2026'', ps_effectiveUntil = None \<rparr>"

definition sample_usage :: token_usage where
  "sample_usage = \<lparr> tu_inputTokens = 1500, tu_cachedInputTokens = 500, tu_cacheWriteTokens = 0,
     tu_outputTokens = 301, tu_reasoningTokens = 0 \<rparr>"

theorem usage_cost_correct_witness:
  "\<exists>c. calculateAiUsageCost sample_usage sample_pricing None = Inr c \<and>
     is_ceil (cb_providerCostMicrousd c * 13000) BPS_DENOMINATOR (cb_retailCostMicrousd c)"
proof -
  have "0 \<le> input_multiplier sample_usage sample_pricing" "0 \<le> output_multiplier sample_usage sample_pricing"
    "0 \<le> ps_markupBps sample_pricing" by code_simp+
  from usage_cost_correct [OF this, of None] show ?thesis
    by (auto simp: sample_usage_def sample_pricing_def)
qed

text \<open>Under the same price and the same context class, more output tokens, or more input tokens with
  the same cached part, never lower the retail cost; and the credits charged for a retail cost are
  the least that cover it at a thousand micro-dollars each, but never below the minimum.\<close>

theorem cost_and_credits_monotone:
  assumes "0 \<le> input_multiplier u p" "0 \<le> output_multiplier u p" "0 \<le> ps_markupBps p"
    and "is_long_context u' p = is_long_context u p" "tu_inputTokens u \<le> tu_inputTokens u'"
    and "tu_outputTokens u \<le> tu_outputTokens u'" "tu_cachedInputTokens u' = tu_cachedInputTokens u"
    and "tu_cacheWriteTokens u' = tu_cacheWriteTokens u"
    and "calculateAiUsageCost u p tool = Inr c" "calculateAiUsageCost u' p tool = Inr c'"
  shows "cb_retailCostMicrousd c \<le> cb_retailCostMicrousd c' \<and>
    (\<exists>k. creditsForRetailMicrousd (cb_retailCostMicrousd c) minimum = Inr k \<and>
      (0 < cb_retailCostMicrousd c \<longrightarrow> cb_retailCostMicrousd c \<le> k * 1000 \<and> minimum \<le> k \<and>
         (minimum < k \<longrightarrow> (k - 1) * 1000 < cb_retailCostMicrousd c)))"
proof -
  have m: "input_multiplier u' p = input_multiplier u p" "output_multiplier u' p = output_multiplier u p"
    using assms(4) by (simp_all add: input_multiplier_def output_multiplier_def)
  have cost: "\<exists>a b w out. tokenCost (max 0 (tu_inputTokens v) - max 0 (tu_cachedInputTokens v) - max 0 (tu_cacheWriteTokens v))
        (ps_inputMicrousdPerMillion p) (input_multiplier v p) = Inr a \<and>
      tokenCost (max 0 (tu_cachedInputTokens v)) (ps_cachedInputMicrousdPerMillion p) (input_multiplier v p) = Inr b \<and>
      tokenCost (max 0 (tu_cacheWriteTokens v)) (opt_get (ps_cacheWriteMicrousdPerMillion p) (ps_inputMicrousdPerMillion p))
        (input_multiplier v p) = Inr w \<and>
      tokenCost (max 0 (tu_outputTokens v)) (ps_outputMicrousdPerMillion p) (output_multiplier v p) = Inr out \<and>
      priceCeilDiv ((a + b + w + out + max 0 (opt_get tool 0)) * ps_markupBps p) BPS_DENOMINATOR
        = Inr (cb_retailCostMicrousd k)" if "calculateAiUsageCost v p tool = Inr k" for v k
    using that unfolding calculateAiUsageCost_def Let_def nonNegative_max input_multiplier_def [symmetric]
      output_multiplier_def [symmetric] bind_sum_def
    by (auto split: if_splits sum.splits)
  obtain a b w out where x: "tokenCost (max 0 (tu_inputTokens u) - max 0 (tu_cachedInputTokens u) - max 0 (tu_cacheWriteTokens u))
        (ps_inputMicrousdPerMillion p) (input_multiplier u p) = Inr a"
      "tokenCost (max 0 (tu_cachedInputTokens u)) (ps_cachedInputMicrousdPerMillion p) (input_multiplier u p) = Inr b"
      "tokenCost (max 0 (tu_cacheWriteTokens u)) (opt_get (ps_cacheWriteMicrousdPerMillion p) (ps_inputMicrousdPerMillion p))
        (input_multiplier u p) = Inr w"
      "tokenCost (max 0 (tu_outputTokens u)) (ps_outputMicrousdPerMillion p) (output_multiplier u p) = Inr out"
      "priceCeilDiv ((a + b + w + out + max 0 (opt_get tool 0)) * ps_markupBps p) BPS_DENOMINATOR = Inr (cb_retailCostMicrousd c)"
    using cost [OF assms(9)] by blast
  obtain a' b' w' out' where y: "tokenCost (max 0 (tu_inputTokens u') - max 0 (tu_cachedInputTokens u) - max 0 (tu_cacheWriteTokens u))
        (ps_inputMicrousdPerMillion p) (input_multiplier u p) = Inr a'"
      "tokenCost (max 0 (tu_cachedInputTokens u)) (ps_cachedInputMicrousdPerMillion p) (input_multiplier u p) = Inr b'"
      "tokenCost (max 0 (tu_cacheWriteTokens u)) (opt_get (ps_cacheWriteMicrousdPerMillion p) (ps_inputMicrousdPerMillion p))
        (input_multiplier u p) = Inr w'"
      "tokenCost (max 0 (tu_outputTokens u')) (ps_outputMicrousdPerMillion p) (output_multiplier u p) = Inr out'"
      "priceCeilDiv ((a' + b' + w' + out' + max 0 (opt_get tool 0)) * ps_markupBps p) BPS_DENOMINATOR = Inr (cb_retailCostMicrousd c')"
    using cost [OF assms(10)] unfolding m assms(7,8) by blast
  have "a \<le> a'" using assms(1,5) by (intro token_cost_mono [OF _ _ x(1) y(1)]) simp_all
  moreover have "out \<le> out'" using assms(2,6) by (intro token_cost_mono [OF _ _ x(4) y(4)]) simp_all
  moreover have "b = b'" "w = w'" using x(2,3) y(2,3) by simp_all
  ultimately have "(a + b + w + out + max 0 (opt_get tool 0)) * ps_markupBps p
      \<le> (a' + b' + w' + out' + max 0 (opt_get tool 0)) * ps_markupBps p"
    using assms(3) by (intro mult_right_mono) simp_all
  then have R: "cb_retailCostMicrousd c \<le> cb_retailCostMicrousd c'"
    by (rule price_ceil_mono [OF _ _ x(5) y(5)]) (simp add: BPS_DENOMINATOR_def)
  show ?thesis
  proof (cases "cb_retailCostMicrousd c \<le> 0")
    case False
    then obtain q where "priceCeilDiv (cb_retailCostMicrousd c) 1000 = Inr q" "is_ceil (cb_retailCostMicrousd c) 1000 q"
      using price_ceil [of "cb_retailCostMicrousd c" 1000] by auto
    then show ?thesis
      using R False by (auto simp: creditsForRetailMicrousd_def bind_sum_def MICROUSD_PER_CREDIT_def is_ceil_def)
  qed (use R in \<open>simp add: creditsForRetailMicrousd_def\<close>)
qed

theorem cost_and_credits_monotone_witness:
  "\<exists>c c'. calculateAiUsageCost sample_usage sample_pricing None = Inr c \<and>
     calculateAiUsageCost (sample_usage\<lparr> tu_outputTokens := 400 \<rparr>) sample_pricing None = Inr c' \<and>
     cb_retailCostMicrousd c \<le> cb_retailCostMicrousd c'"
proof -
  let ?u = "sample_usage\<lparr> tu_outputTokens := 400 \<rparr>"
  have n: "0 \<le> input_multiplier sample_usage sample_pricing" "0 \<le> output_multiplier sample_usage sample_pricing"
    "0 \<le> ps_markupBps sample_pricing" "is_long_context ?u sample_pricing = is_long_context sample_usage sample_pricing"
    by code_simp+
  have i: "isl (calculateAiUsageCost sample_usage sample_pricing None) = False" "isl (calculateAiUsageCost ?u sample_pricing None) = False"
    by code_simp+
  obtain c where c: "calculateAiUsageCost sample_usage sample_pricing None = Inr c" using i(1) by (auto simp: isl_def) (metis sum.exhaust)
  obtain c' where c': "calculateAiUsageCost ?u sample_pricing None = Inr c'" using i(2) by (auto simp: isl_def) (metis sum.exhaust)
  show ?thesis
    using cost_and_credits_monotone [OF n _ _ _ _ c c'] c c' by (auto simp: sample_usage_def)
qed

end
