(* ===== verification/AiCredits.thy ===== *)
theory AiCredits
  imports AiPricing
begin

text \<open>
  The credit account of the AI agent (apps/api/src/ai/credits/creditService.ts): reservation of
  credits before a run, usage records per model call, settlement and release. The database is a
  record of the tables the service touches, with the columns it reads or writes and the unique
  constraints of prisma/schema.prisma; dates are milliseconds since the epoch.

  A transaction body yields its result together with two states: the one with its own writes,
  committed when it returns, and the one without them, which is what remains when it throws. The
  parameter \<open>env\<close> is what other transactions commit between the reads of a body and its
  compare-and-set update.
\<close>

section \<open>Tables\<close>

datatype reservation_status =
  CR_ACTIVE | CR_SETTLED | CR_RELEASED | CR_EXPIRED | CR_RECONCILIATION_REQUIRED

datatype ledger_reason = USAGE_RESERVE | USAGE_SETTLE | USAGE_RELEASE

datatype usage_status = US_COMPLETED | US_FAILED | US_RECONCILIATION_REQUIRED

record subscription =
  sub_id :: string
  sub_userId :: string
  sub_balance :: int
  sub_reserved :: int
  sub_usedLifetime :: int
  sub_maxRun :: "int option"
  sub_daily :: "int option"
  sub_monthly :: "int option"

record reservation =
  cr_id :: string
  cr_userId :: string
  cr_subscriptionId :: string
  cr_agentRunId :: string
  cr_status :: reservation_status
  cr_reserved :: int
  cr_settled :: int
  cr_key :: string
  cr_expiresAt :: int
  cr_settledAt :: "int option"
  cr_releasedAt :: "int option"
  cr_reason :: "string option"

record ledger_entry =
  le_userId :: string
  le_subscriptionId :: string
  le_agentRunId :: string
  le_reservationId :: string
  le_reason :: ledger_reason
  le_key :: string
  le_delta :: int
  le_balanceAfter :: int
  le_reservedAfter :: int
  le_costs :: "(int \<times> int) option"
  le_meta :: jsobj

record agent_run =
  run_id :: string
  run_userId :: string
  run_completedAt :: "int option"
  run_reserved :: int
  run_charged :: int
  run_providerCost :: int
  run_retailCost :: int
  run_modelCallCount :: int
  run_model :: "(string \<times> string) option"

record usage_record =
  ur_id :: string
  ur_agentRunId :: string
  ur_callIndex :: int
  ur_model :: string
  ur_modelClass :: string
  ur_responseId :: "string option"
  ur_requestId :: "string option"
  ur_tokens :: token_usage
  ur_providerCost :: int
  ur_retailCost :: int
  ur_pricingRevisionId :: string
  ur_pricingSnapshot :: jsobj
  ur_status :: usage_status
  ur_errorCode :: "string option"
  ur_latencyMs :: "int option"

record pricing_row =
  pr_provider :: string
  pr_serviceTier :: string
  pr_processingRegion :: string
  pr_isActive :: bool
  pr_from :: int
  pr_until :: "int option"
  pr_snapshot :: pricing_snapshot

record db =
  db_subs :: "subscription list"
  db_reservations :: "reservation list"
  db_ledger :: "ledger_entry list"
  db_runs :: "agent_run list"
  db_usage :: "usage_record list"
  db_pricing :: "pricing_row list"

datatype ai_error = CreditError string nat | DbError string | PricingError pricing_error

section \<open>The tables' operations\<close>

definition upd_where :: "('a \<Rightarrow> bool) \<Rightarrow> ('a \<Rightarrow> 'a) \<Rightarrow> 'a list \<Rightarrow> 'a list" where
  "upd_where P f xs = map (\<lambda>x. if P x then f x else x) xs"

text \<open>\<open>update\<close> throws when no row matches, \<open>create\<close> when a unique column is taken,
  \<open>updateMany\<close> reports the number of rows.\<close>

definition update_reservation :: "string \<Rightarrow> (reservation \<Rightarrow> reservation) \<Rightarrow> db \<Rightarrow> ai_error + db" where
  "update_reservation rid f d =
     (if list_ex (\<lambda>r. cr_id r = rid) (db_reservations d)
      then Inr (d\<lparr> db_reservations := upd_where (\<lambda>r. cr_id r = rid) f (db_reservations d) \<rparr>)
      else Inl (DbError ''P2025''))"

definition update_run :: "string \<Rightarrow> (agent_run \<Rightarrow> agent_run) \<Rightarrow> db \<Rightarrow> ai_error + db" where
  "update_run rid f d =
     (if list_ex (\<lambda>r. run_id r = rid) (db_runs d)
      then Inr (d\<lparr> db_runs := upd_where (\<lambda>r. run_id r = rid) f (db_runs d) \<rparr>)
      else Inl (DbError ''P2025''))"

definition create_reservation :: "reservation \<Rightarrow> db \<Rightarrow> ai_error + db" where
  "create_reservation r d =
     (if list_ex (\<lambda>x. cr_id x = cr_id r \<or> cr_agentRunId x = cr_agentRunId r \<or> cr_key x = cr_key r) (db_reservations d)
      then Inl (DbError ''P2002'')
      else Inr (d\<lparr> db_reservations := db_reservations d @ [r] \<rparr>))"

definition create_ledger :: "ledger_entry \<Rightarrow> db \<Rightarrow> ai_error + db" where
  "create_ledger e d =
     (if list_ex (\<lambda>x. le_key x = le_key e) (db_ledger d) then Inl (DbError ''P2002'')
      else Inr (d\<lparr> db_ledger := db_ledger d @ [e] \<rparr>))"

definition create_usage :: "usage_record \<Rightarrow> db \<Rightarrow> ai_error + db" where
  "create_usage u d =
     (if list_ex (\<lambda>x. ur_id x = ur_id u
           \<or> (ur_agentRunId x = ur_agentRunId u \<and> ur_callIndex x = ur_callIndex u)
           \<or> (ur_responseId x \<noteq> None \<and> ur_responseId x = ur_responseId u)) (db_usage d)
      then Inl (DbError ''P2002'')
      else Inr (d\<lparr> db_usage := db_usage d @ [u] \<rparr>))"

definition cas_sub :: "string \<Rightarrow> (subscription \<Rightarrow> bool) \<Rightarrow> (subscription \<Rightarrow> subscription) \<Rightarrow> db \<Rightarrow> nat \<times> db" where
  "cas_sub sid cond f d =
     (length (filter (\<lambda>s. sub_id s = sid \<and> cond s) (db_subs d)),
      d\<lparr> db_subs := upd_where (\<lambda>s. sub_id s = sid \<and> cond s) f (db_subs d) \<rparr>)"

definition find_sub :: "string \<Rightarrow> db \<Rightarrow> subscription option" where
  "find_sub sid d = find (\<lambda>s. sub_id s = sid) (db_subs d)"

definition find_run_reservation :: "string \<Rightarrow> db \<Rightarrow> reservation option" where
  "find_run_reservation runId d = find (\<lambda>r. cr_agentRunId r = runId) (db_reservations d)"

type_synonym 'a tx = "(ai_error + 'a) \<times> db \<times> db"

definition run_tx :: "'a tx \<Rightarrow> (ai_error + 'a) \<times> db" where
  "run_tx t = (case t of (Inl e, mine, others) \<Rightarrow> (Inl e, others) | (Inr x, mine, others) \<Rightarrow> (Inr x, mine))"

section \<open>Time\<close>

definition DAY_MS :: int where
  "DAY_MS = 86400000"

definition utcStartOfDay :: "int \<Rightarrow> int" where
  "utcStartOfDay t = t div DAY_MS * DAY_MS"

text \<open>The day of the month of a day count since 1970, in the proleptic Gregorian calendar.\<close>

definition day_of_month :: "int \<Rightarrow> int" where
  "day_of_month days =
     (let doe = (days + 719468) mod 146097;
          yoe = (doe - doe div 1460 + doe div 36524 - doe div 146096) div 365;
          doy = doe - (365 * yoe + yoe div 4 - yoe div 100);
          mp = (5 * doy + 2) div 153
      in doy - (153 * mp + 2) div 5 + 1)"

definition utcStartOfMonth :: "int \<Rightarrow> int" where
  "utcStartOfMonth t = (t div DAY_MS - (day_of_month (t div DAY_MS) - 1)) * DAY_MS"

section \<open>Switches and pricing\<close>

definition isAiCreditBillingEnabled :: "jsval \<Rightarrow> bool" where
  "isAiCreditBillingEnabled v \<longleftrightarrow> norm_lower (coalesce v (JStr ''false'')) = ''true''"

definition isAiCreditBillingEnabledForDatabase :: "jsval \<Rightarrow> jsval option \<Rightarrow> bool" where
  "isAiCreditBillingEnabledForDatabase envVar row =
     (if \<not> isAiCreditBillingEnabled envVar then False
      else case row of
             Some (JObj o1) \<Rightarrow> get o1 ''aiCreditBillingEnabled'' \<noteq> JBool False
           | _ \<Rightarrow> True)"

text \<open>The two rows of the query decide only between none, one and several: the order of the rows
  matters in no case.\<close>

definition resolveAiPricing :: "db \<Rightarrow> string \<Rightarrow> int \<Rightarrow> ai_error + pricing_snapshot" where
  "resolveAiPricing d model at_ms =
     (let rows = filter (\<lambda>r. pr_provider r = ''openai'' \<and> ps_model (pr_snapshot r) = model
            \<and> pr_serviceTier r = ''default'' \<and> pr_processingRegion r = ''global'' \<and> pr_isActive r
            \<and> pr_from r \<le> at_ms \<and> (case pr_until r of None \<Rightarrow> True | Some u \<Rightarrow> at_ms < u)) (db_pricing d)
      in case rows of
           [] \<Rightarrow> Inl (CreditError ''ai_pricing_unavailable'' 503)
         | [row] \<Rightarrow> Inr (pr_snapshot row)
         | _ \<Rightarrow> Inl (CreditError ''ai_pricing_ambiguous'' 503))"

definition lift_pricing :: "pricing_error + 'a \<Rightarrow> ai_error + 'a" where
  "lift_pricing r = (case r of Inl e \<Rightarrow> Inl (PricingError e) | Inr x \<Rightarrow> Inr x)"

record routing =
  ro_model :: string
  ro_modelClass :: string
  ro_maxOutputTokens :: int
  ro_maxToolRounds :: int

record estimate =
  es_credits :: int
  es_providerCostMicrousd :: int
  es_retailCostMicrousd :: int
  es_pricing :: pricing_snapshot

text \<open>\<open>expectedInputTokens\<close> is a finite number; \<open>Math.trunc\<close> drops its fraction.\<close>

definition trunc_num :: "rat \<Rightarrow> int" where
  "trunc_num q = (if 0 \<le> q then \<lfloor>q\<rfloor> else - \<lfloor>- q\<rfloor>)"

definition estimated_usage :: "routing \<Rightarrow> rat \<Rightarrow> nat \<Rightarrow> token_usage" where
  "estimated_usage ro expected callIndex =
     \<lparr> tu_inputTokens = max 1 (trunc_num expected) + int callIndex * (ro_maxOutputTokens ro + 2000),
       tu_cachedInputTokens = 0, tu_cacheWriteTokens = 0, tu_outputTokens = ro_maxOutputTokens ro,
       tu_reasoningTokens = 0 \<rparr>"

fun estimate_calls ::
  "routing \<Rightarrow> rat \<Rightarrow> pricing_snapshot \<Rightarrow> int \<Rightarrow> nat list \<Rightarrow> int \<times> int \<Rightarrow> ai_error + int \<times> int" where
  "estimate_calls ro expected pricing tool [] acc = Inr acc"
| "estimate_calls ro expected pricing tool (i # is) acc =
     bind_sum (lift_pricing (calculateAiUsageCost (estimated_usage ro expected i) pricing (Some tool))) (\<lambda>cost.
       estimate_calls ro expected pricing tool is
         (fst acc + cb_providerCostMicrousd cost, snd acc + cb_retailCostMicrousd cost))"

definition estimateAiRunReservation :: "db \<Rightarrow> routing \<Rightarrow> rat \<Rightarrow> int option \<Rightarrow> int \<Rightarrow> ai_error + estimate" where
  "estimateAiRunReservation d ro expected toolPerCall at_ms =
     bind_sum (resolveAiPricing d (ro_model ro) at_ms) (\<lambda>pricing.
     bind_sum (estimate_calls ro expected pricing (opt_get toolPerCall 0) [0..<nat (max 1 (ro_maxToolRounds ro + 1))] (0, 0))
      (\<lambda>(provider, retail).
     bind_sum (lift_pricing (creditsForRetailMicrousd retail 1)) (\<lambda>credits.
       Inr \<lparr> es_credits = credits, es_providerCostMicrousd = provider, es_retailCostMicrousd = retail,
             es_pricing = pricing \<rparr>)))"

section \<open>Reservation\<close>

definition getSettledUsage :: "db \<Rightarrow> string \<Rightarrow> int \<Rightarrow> int" where
  "getSettledUsage d userId since =
     sum_list (map run_charged (filter (\<lambda>r. run_userId r = userId
       \<and> (case run_completedAt r of None \<Rightarrow> False | Some t \<Rightarrow> since \<le> t) \<and> 0 < run_charged r) (db_runs d)))"

record reserve_params =
  rp_userId :: string
  rp_agentRunId :: string
  rp_credits :: int
  rp_key :: string
  rp_ttlMs :: "int option"
  rp_newSubId :: string
  rp_newReservationId :: string

definition DEFAULT_RESERVATION_TTL_MS :: int where
  "DEFAULT_RESERVATION_TTL_MS = 15 * 60000"

definition new_subscription :: "reserve_params \<Rightarrow> subscription" where
  "new_subscription p = \<lparr> sub_id = rp_newSubId p, sub_userId = rp_userId p, sub_balance = 0, sub_reserved = 0,
     sub_usedLifetime = 0, sub_maxRun = None, sub_daily = None, sub_monthly = None \<rparr>"

definition upsert_sub :: "reserve_params \<Rightarrow> db \<Rightarrow> ai_error + subscription \<times> db" where
  "upsert_sub p d =
     (case find (\<lambda>s. sub_userId s = rp_userId p) (db_subs d) of
        Some s \<Rightarrow> Inr (s, d)
      | None \<Rightarrow>
          if list_ex (\<lambda>s. sub_id s = rp_newSubId p) (db_subs d) then Inl (DbError ''P2002'')
          else Inr (new_subscription p, d\<lparr> db_subs := db_subs d @ [new_subscription p] \<rparr>))"

definition over_limit :: "int option \<Rightarrow> int \<Rightarrow> bool" where
  "over_limit limit amount = (case limit of None \<Rightarrow> False | Some l \<Rightarrow> l < amount)"

text \<open>The guards in the order of the source; \<open>None\<close> when all pass.\<close>

definition reserve_guard :: "db \<Rightarrow> reserve_params \<Rightarrow> int \<Rightarrow> subscription \<Rightarrow> ai_error option" where
  "reserve_guard d p now s =
     (let credits = rp_credits p;
          dailyUsed = getSettledUsage d (rp_userId p) (utcStartOfDay now);
          monthlyUsed = getSettledUsage d (rp_userId p) (utcStartOfMonth now)
      in if sub_balance s - sub_reserved s < credits then Some (CreditError ''ai_credit_balance_exhausted'' 402)
         else if over_limit (sub_maxRun s) credits then Some (CreditError ''ai_run_limit_exceeded'' 402)
         else if over_limit (sub_daily s) (dailyUsed + sub_reserved s + credits)
           then Some (CreditError ''ai_daily_limit_exceeded'' 402)
         else if over_limit (sub_monthly s) (monthlyUsed + sub_reserved s + credits)
           then Some (CreditError ''ai_monthly_limit_exceeded'' 402)
         else None)"

definition new_reservation :: "reserve_params \<Rightarrow> int \<Rightarrow> subscription \<Rightarrow> reservation" where
  "new_reservation p now s =
     \<lparr> cr_id = rp_newReservationId p, cr_userId = rp_userId p, cr_subscriptionId = sub_id s,
       cr_agentRunId = rp_agentRunId p, cr_status = CR_ACTIVE, cr_reserved = rp_credits p, cr_settled = 0,
       cr_key = rp_key p, cr_expiresAt = now + max 60000 (opt_get (rp_ttlMs p) DEFAULT_RESERVATION_TTL_MS),
       cr_settledAt = None, cr_releasedAt = None, cr_reason = None \<rparr>"

definition reserve_ledger :: "reserve_params \<Rightarrow> subscription \<Rightarrow> ledger_entry" where
  "reserve_ledger p s =
     \<lparr> le_userId = rp_userId p, le_subscriptionId = sub_id s, le_agentRunId = rp_agentRunId p,
       le_reservationId = rp_newReservationId p, le_reason = USAGE_RESERVE, le_key = rp_key p @ '':ledger:reserve'',
       le_delta = 0, le_balanceAfter = sub_balance s, le_reservedAfter = sub_reserved s + rp_credits p,
       le_costs = None, le_meta = [(''reservedCredits'', JStr (int_str (rp_credits p)))] \<rparr>"

text \<open>The writes after a successful compare-and-set.\<close>

definition reserve_writes :: "reserve_params \<Rightarrow> int \<Rightarrow> subscription \<Rightarrow> db \<Rightarrow> ai_error + db" where
  "reserve_writes p now s d =
     bind_sum (create_reservation (new_reservation p now s) d) (\<lambda>d1.
     bind_sum (create_ledger (reserve_ledger p s) d1) (\<lambda>d2.
       update_run (rp_agentRunId p) (\<lambda>r. r\<lparr> run_reserved := rp_credits p \<rparr>) d2))"

text \<open>The compare-and-set on the row \<open>s\<close> that was read, and what follows it.\<close>

definition reserve_claim :: "reserve_params \<Rightarrow> int \<Rightarrow> subscription \<Rightarrow> db \<Rightarrow> reservation option tx" where
  "reserve_claim p now s others =
     (case upsert_sub p others of
        Inl e \<Rightarrow> (Inl e, others, others)
      | Inr (_, d0) \<Rightarrow>
          (let (count, d1) = cas_sub (sub_id s)
                 (\<lambda>x. sub_balance x = sub_balance s \<and> sub_reserved x = sub_reserved s)
                 (\<lambda>x. x\<lparr> sub_reserved := sub_reserved s + rp_credits p \<rparr>) d0
           in if count \<noteq> 1 then (Inr None, d1, others)
              else case reserve_writes p now s d1 of
                     Inl e \<Rightarrow> (Inl e, d1, others)
                   | Inr d2 \<Rightarrow> (Inr (Some (new_reservation p now s)), d2, others)))"

definition reserve_body :: "reserve_params \<Rightarrow> int \<Rightarrow> (db \<Rightarrow> db) \<Rightarrow> db \<Rightarrow> reservation option tx" where
  "reserve_body p now env d =
     (case find (\<lambda>r. cr_key r = rp_key p) (db_reservations d) of
        Some dup \<Rightarrow>
          (if cr_agentRunId dup \<noteq> rp_agentRunId p \<or> cr_reserved dup \<noteq> rp_credits p
           then (Inl (CreditError ''ai_credit_idempotency_conflict'' 409), d, d)
           else (Inr (Some dup), d, d))
      | None \<Rightarrow>
          case upsert_sub p d of
            Inl e \<Rightarrow> (Inl e, d, d)
          | Inr (s, _) \<Rightarrow>
              case reserve_guard d p now s of
                Some e \<Rightarrow> (Inl e, d, d)
              | None \<Rightarrow> reserve_claim p now s (env d))"

definition MAX_CAS_ATTEMPTS :: nat where
  "MAX_CAS_ATTEMPTS = 5"

text \<open>
  The attempts, with what others commit inside each: a credit error is thrown at once, any other
  error in the last attempt, and a lost compare-and-set is tried again.
\<close>

fun reserve_loop :: "reserve_params \<Rightarrow> int \<Rightarrow> (db \<Rightarrow> db) list \<Rightarrow> db \<Rightarrow> (ai_error + reservation) \<times> db" where
  "reserve_loop p now [] d = (Inl (CreditError ''ai_credit_reservation_failed'' 409), d)"
| "reserve_loop p now (env # envs) d =
     (case run_tx (reserve_body p now env d) of
        (Inr (Some r), d') \<Rightarrow> (Inr r, d')
      | (Inr None, d') \<Rightarrow> reserve_loop p now envs d'
      | (Inl (CreditError c n), d') \<Rightarrow> (Inl (CreditError c n), d')
      | (Inl e, d') \<Rightarrow> if envs = [] then (Inl e, d') else reserve_loop p now envs d')"

definition reserveAiCredits ::
  "bool \<Rightarrow> reserve_params \<Rightarrow> int \<Rightarrow> (db \<Rightarrow> db) list \<Rightarrow> db \<Rightarrow> (ai_error + reservation option) \<times> db" where
  "reserveAiCredits enabled p now envs d =
     (if \<not> enabled then (Inr None, d)
      else if rp_credits p \<le> 0 then (Inl (CreditError ''ai_credit_reservation_failed'' 409), d)
      else case reserve_loop p now (take MAX_CAS_ATTEMPTS envs) d of
             (Inl e, d') \<Rightarrow> (Inl e, d') | (Inr r, d') \<Rightarrow> (Inr (Some r), d'))"

section \<open>Usage records\<close>

record usage_params =
  up_agentRunId :: string
  up_callIndex :: int
  up_usage :: token_usage
  up_responseId :: "string option"
  up_requestId :: "string option"
  up_serviceTier :: "string option"
  up_latencyMs :: "int option"
  up_toolMicrousd :: "int option"
  up_status :: "usage_status option"
  up_errorCode :: "string option"
  up_newId :: string

definition new_usage :: "usage_params \<Rightarrow> routing \<Rightarrow> pricing_snapshot \<Rightarrow> cost_breakdown \<Rightarrow> usage_record" where
  "new_usage p ro pricing cost =
     \<lparr> ur_id = up_newId p, ur_agentRunId = up_agentRunId p, ur_callIndex = up_callIndex p, ur_model = ro_model ro,
       ur_modelClass = ro_modelClass ro, ur_responseId = up_responseId p, ur_requestId = up_requestId p,
       ur_tokens = up_usage p, ur_providerCost = cb_providerCostMicrousd cost,
       ur_retailCost = cb_retailCostMicrousd cost, ur_pricingRevisionId = ps_id pricing,
       ur_pricingSnapshot = serializePricingSnapshot pricing, ur_status = opt_get (up_status p) US_COMPLETED,
       ur_errorCode = up_errorCode p, ur_latencyMs = up_latencyMs p \<rparr>"

definition record_usage_body ::
  "usage_params \<Rightarrow> routing \<Rightarrow> pricing_snapshot \<Rightarrow> cost_breakdown \<Rightarrow> db \<Rightarrow> usage_record tx" where
  "record_usage_body p ro pricing cost d =
     (case find (\<lambda>u. ur_agentRunId u = up_agentRunId p \<and> ur_callIndex u = up_callIndex p) (db_usage d) of
        Some dup \<Rightarrow>
          (if ur_model dup \<noteq> ro_model ro \<or> opt_get (ur_responseId dup) '''' \<noteq> opt_get (up_responseId p) ''''
           then (Inl (CreditError ''ai_usage_idempotency_conflict'' 409), d, d)
           else (Inr dup, d, d))
      | None \<Rightarrow>
          (case bind_sum (create_usage (new_usage p ro pricing cost) d) (\<lambda>d1.
                  update_run (up_agentRunId p) (\<lambda>r. r\<lparr> run_model := Some (ro_model ro, ro_modelClass ro),
                    run_modelCallCount := run_modelCallCount r + 1,
                    run_providerCost := run_providerCost r + cb_providerCostMicrousd cost,
                    run_retailCost := run_retailCost r + cb_retailCostMicrousd cost \<rparr>) d1) of
             Inl e \<Rightarrow> (Inl e, d, d)
           | Inr d2 \<Rightarrow> (Inr (new_usage p ro pricing cost), d2, d)))"

definition recordAiUsage :: "usage_params \<Rightarrow> routing \<Rightarrow> int \<Rightarrow> db \<Rightarrow> (ai_error + usage_record) \<times> db" where
  "recordAiUsage p ro at_ms d =
     (case resolveAiPricing d (ro_model ro) at_ms of
        Inl e \<Rightarrow> (Inl e, d)
      | Inr pricing \<Rightarrow>
          if up_serviceTier p \<noteq> None \<and> up_serviceTier p \<noteq> Some '''' \<and> up_serviceTier p \<noteq> Some ''default''
          then (Inl (CreditError ''ai_pricing_unavailable'' 503), d)
          else case lift_pricing (calculateAiUsageCost (up_usage p) pricing (up_toolMicrousd p)) of
                 Inl e \<Rightarrow> (Inl e, d)
               | Inr cost \<Rightarrow> run_tx (record_usage_body p ro pricing cost d))"

section \<open>Settlement\<close>

record run_costs =
  rc_provider :: int
  rc_retail :: int
  rc_unresolved :: nat

definition aggregateRunCosts :: "db \<Rightarrow> string \<Rightarrow> run_costs" where
  "aggregateRunCosts d runId =
     (let us = filter (\<lambda>u. ur_agentRunId u = runId) (db_usage d)
      in \<lparr> rc_provider = sum_list (map ur_providerCost us), rc_retail = sum_list (map ur_retailCost us),
           rc_unresolved = length (filter (\<lambda>u. ur_status u = US_RECONCILIATION_REQUIRED) us) \<rparr>)"

record settle_result =
  st_chargedCredits :: int
  st_remainingBalance :: int

definition settle_ledger :: "reservation \<Rightarrow> subscription \<Rightarrow> string \<Rightarrow> int \<Rightarrow> run_costs \<Rightarrow> ledger_entry" where
  "settle_ledger r s runId charged costs =
     \<lparr> le_userId = cr_userId r, le_subscriptionId = sub_id s, le_agentRunId = runId, le_reservationId = cr_id r,
       le_reason = USAGE_SETTLE, le_key = cr_key r @ '':ledger:settle'', le_delta = - charged,
       le_balanceAfter = sub_balance s - charged, le_reservedAfter = sub_reserved s - cr_reserved r,
       le_costs = Some (rc_provider costs, rc_retail costs),
       le_meta = [(''reservedCredits'', JStr (int_str (cr_reserved r))),
                  (''releasedCredits'', JStr (int_str (cr_reserved r - charged)))] \<rparr>"

definition settle_release_ledger :: "reservation \<Rightarrow> subscription \<Rightarrow> string \<Rightarrow> int \<Rightarrow> ledger_entry" where
  "settle_release_ledger r s runId charged =
     \<lparr> le_userId = cr_userId r, le_subscriptionId = sub_id s, le_agentRunId = runId, le_reservationId = cr_id r,
       le_reason = USAGE_RELEASE, le_key = cr_key r @ '':ledger:release'', le_delta = 0,
       le_balanceAfter = sub_balance s - charged, le_reservedAfter = sub_reserved s - cr_reserved r,
       le_costs = None, le_meta = [(''releasedCredits'', JStr (int_str (cr_reserved r - charged)))] \<rparr>"

definition settled_row :: "int \<Rightarrow> int \<Rightarrow> reservation \<Rightarrow> reservation" where
  "settled_row now charged r =
     r\<lparr> cr_status := CR_SETTLED, cr_settled := charged, cr_settledAt := Some now,
        cr_releasedAt := (if cr_reserved r > charged then Some now else None) \<rparr>"

definition settle_writes ::
  "reservation \<Rightarrow> subscription \<Rightarrow> string \<Rightarrow> int \<Rightarrow> int \<Rightarrow> run_costs \<Rightarrow> db \<Rightarrow> ai_error + db" where
  "settle_writes r s runId now charged costs d =
     bind_sum (update_reservation (cr_id r) (settled_row now charged) d) (\<lambda>d1.
     bind_sum (create_ledger (settle_ledger r s runId charged costs) d1) (\<lambda>d2.
     bind_sum (if cr_reserved r > charged then create_ledger (settle_release_ledger r s runId charged) d2 else Inr d2) (\<lambda>d3.
       update_run runId (\<lambda>x. x\<lparr> run_charged := charged, run_providerCost := rc_provider costs,
         run_retailCost := rc_retail costs \<rparr>) d3)))"

definition to_reconciliation :: "string \<Rightarrow> reservation \<Rightarrow> reservation" where
  "to_reconciliation reason r = r\<lparr> cr_status := CR_RECONCILIATION_REQUIRED, cr_reason := Some reason \<rparr>"

text \<open>The update that precedes the throw, in the transaction's own writes.\<close>

definition flag_and_throw :: "reservation \<Rightarrow> string \<Rightarrow> ai_error \<Rightarrow> db \<Rightarrow> 'a tx" where
  "flag_and_throw r reason e d =
     (case update_reservation (cr_id r) (to_reconciliation reason) d of
        Inl e' \<Rightarrow> (Inl e', d, d)
      | Inr d1 \<Rightarrow> (Inl e, d1, d))"

definition settle_claim ::
  "reservation \<Rightarrow> string \<Rightarrow> int \<Rightarrow> run_costs \<Rightarrow> int \<Rightarrow> (db \<Rightarrow> db) \<Rightarrow> db \<Rightarrow> settle_result option tx" where
  "settle_claim r runId now costs charged env d =
     (case find_sub (cr_subscriptionId r) d of
        None \<Rightarrow> (Inl (CreditError ''ai_credit_reservation_failed'' 409), d, d)
      | Some s \<Rightarrow>
          if sub_balance s < charged \<or> sub_reserved s < cr_reserved r
          then (Inl (CreditError ''ai_usage_settlement_failed'' 409), d, d)
          else
            (let others = env d;
                 (count, d1) = cas_sub (sub_id s)
                   (\<lambda>x. sub_balance x = sub_balance s \<and> sub_reserved x = sub_reserved s)
                   (\<lambda>x. x\<lparr> sub_balance := sub_balance s - charged, sub_reserved := sub_reserved s - cr_reserved r,
                           sub_usedLifetime := sub_usedLifetime x + charged \<rparr>) others
             in if count \<noteq> 1 then (Inr None, d1, others)
                else case settle_writes r s runId now charged costs d1 of
                       Inl e \<Rightarrow> (Inl e, d1, others)
                     | Inr d2 \<Rightarrow> (Inr (Some \<lparr> st_chargedCredits = charged,
                                              st_remainingBalance = sub_balance s - charged \<rparr>), d2, others)))"

definition settle_body :: "string \<Rightarrow> int \<Rightarrow> (db \<Rightarrow> db) \<Rightarrow> db \<Rightarrow> settle_result option tx" where
  "settle_body runId now env d =
     (case find_run_reservation runId d of
        None \<Rightarrow> (Inl (CreditError ''ai_credit_reservation_failed'' 409), d, d)
      | Some r \<Rightarrow>
          if cr_status r = CR_SETTLED
          then (Inr (Some \<lparr> st_chargedCredits = cr_settled r,
                  st_remainingBalance = (case find_sub (cr_subscriptionId r) d of None \<Rightarrow> 0 | Some s \<Rightarrow> sub_balance s) \<rparr>), d, d)
          else if cr_status r \<noteq> CR_ACTIVE then (Inl (CreditError ''ai_usage_settlement_failed'' 409), d, d)
          else
            (let costs = aggregateRunCosts d runId
             in if rc_unresolved costs > 0
                then flag_and_throw r ''usage_unresolved'' (CreditError ''ai_usage_settlement_failed'' 503) d
                else case lift_pricing (creditsForRetailMicrousd (rc_retail costs) (if rc_retail costs > 0 then 1 else 0)) of
                       Inl e \<Rightarrow> (Inl e, d, d)
                     | Inr charged \<Rightarrow>
                         if charged > cr_reserved r
                         then flag_and_throw r ''reservation_exceeded'' (CreditError ''ai_run_limit_exceeded'' 503) d
                         else settle_claim r runId now costs charged env d))"

fun settle_loop :: "string \<Rightarrow> int \<Rightarrow> (db \<Rightarrow> db) list \<Rightarrow> db \<Rightarrow> (ai_error + settle_result) \<times> db" where
  "settle_loop runId now [] d = (Inl (CreditError ''ai_usage_settlement_failed'' 409), d)"
| "settle_loop runId now (env # envs) d =
     (case run_tx (settle_body runId now env d) of
        (Inr (Some x), d') \<Rightarrow> (Inr x, d')
      | (Inr None, d') \<Rightarrow> settle_loop runId now envs d'
      | (Inl e, d') \<Rightarrow> (Inl e, d'))"

definition settleAiRun ::
  "bool \<Rightarrow> string \<Rightarrow> int \<Rightarrow> (db \<Rightarrow> db) list \<Rightarrow> db \<Rightarrow> (ai_error + settle_result option) \<times> db" where
  "settleAiRun enabled runId now envs d =
     (if \<not> enabled then (Inr None, d)
      else case settle_loop runId now (take MAX_CAS_ATTEMPTS envs) d of
             (Inl e, d') \<Rightarrow> (Inl e, d') | (Inr x, d') \<Rightarrow> (Inr (Some x), d'))"

section \<open>Release\<close>

datatype release_final = FINAL_RELEASED | FINAL_EXPIRED

fun final_status :: "release_final option \<Rightarrow> reservation_status" where
  "final_status None = CR_RELEASED"
| "final_status (Some FINAL_RELEASED) = CR_RELEASED"
| "final_status (Some FINAL_EXPIRED) = CR_EXPIRED"

record release_params =
  lp_agentRunId :: string
  lp_reason :: string
  lp_final :: "release_final option"

definition released_row :: "release_params \<Rightarrow> int \<Rightarrow> reservation \<Rightarrow> reservation" where
  "released_row p now r =
     r\<lparr> cr_status := final_status (lp_final p), cr_releasedAt := Some now, cr_reason := Some (lp_reason p) \<rparr>"

definition release_ledger :: "release_params \<Rightarrow> reservation \<Rightarrow> subscription \<Rightarrow> ledger_entry" where
  "release_ledger p r s =
     \<lparr> le_userId = cr_userId r, le_subscriptionId = sub_id s, le_agentRunId = lp_agentRunId p, le_reservationId = cr_id r,
       le_reason = USAGE_RELEASE, le_key = cr_key r @ '':ledger:release'', le_delta = 0,
       le_balanceAfter = sub_balance s, le_reservedAfter = sub_reserved s - cr_reserved r, le_costs = None,
       le_meta = [(''reason'', JStr (lp_reason p)), (''releasedCredits'', JStr (int_str (cr_reserved r)))] \<rparr>"

definition release_body :: "release_params \<Rightarrow> int \<Rightarrow> (db \<Rightarrow> db) \<Rightarrow> db \<Rightarrow> bool tx" where
  "release_body p now env d =
     (case find_run_reservation (lp_agentRunId p) d of
        None \<Rightarrow> (Inr True, d, d)
      | Some r \<Rightarrow>
          if cr_status r = CR_RELEASED \<or> cr_status r = CR_SETTLED then (Inr True, d, d)
          else if cr_status r = CR_RECONCILIATION_REQUIRED
          then (Inl (CreditError ''ai_usage_settlement_failed'' 503), d, d)
          else case find_sub (cr_subscriptionId r) d of
                 None \<Rightarrow> (Inr True, d, d)
               | Some s \<Rightarrow>
                   if sub_reserved s < cr_reserved r then (Inl (CreditError ''ai_usage_settlement_failed'' 503), d, d)
                   else
                     (let others = env d;
                          (count, d1) = cas_sub (sub_id s) (\<lambda>x. sub_reserved x = sub_reserved s)
                            (\<lambda>x. x\<lparr> sub_reserved := sub_reserved s - cr_reserved r \<rparr>) others
                      in if count \<noteq> 1 then (Inr False, d1, others)
                         else case bind_sum (update_reservation (cr_id r) (released_row p now) d1)
                                     (create_ledger (release_ledger p r s)) of
                                Inl e \<Rightarrow> (Inl e, d1, others)
                              | Inr d2 \<Rightarrow> (Inr True, d2, others)))"

fun release_loop :: "release_params \<Rightarrow> int \<Rightarrow> (db \<Rightarrow> db) list \<Rightarrow> db \<Rightarrow> (ai_error + unit) \<times> db" where
  "release_loop p now [] d = (Inl (CreditError ''ai_credit_reservation_failed'' 409), d)"
| "release_loop p now (env # envs) d =
     (case run_tx (release_body p now env d) of
        (Inr True, d') \<Rightarrow> (Inr (), d')
      | (Inr False, d') \<Rightarrow> release_loop p now envs d'
      | (Inl e, d') \<Rightarrow> (Inl e, d'))"

definition releaseAiReservation ::
  "bool \<Rightarrow> release_params \<Rightarrow> int \<Rightarrow> (db \<Rightarrow> db) list \<Rightarrow> db \<Rightarrow> (ai_error + unit) \<times> db" where
  "releaseAiReservation enabled p now envs d =
     (if \<not> enabled then (Inr (), d) else release_loop p now (take MAX_CAS_ATTEMPTS envs) d)"

text \<open>The order of rows that expire at the same time is the database's choice; here it is the table's.\<close>

definition expired_rows :: "int \<Rightarrow> int \<Rightarrow> db \<Rightarrow> string list" where
  "expired_rows now n d =
     map cr_agentRunId (take (nat (min 1000 (max 1 n)))
       (sort_key cr_expiresAt (filter (\<lambda>r. cr_status r = CR_ACTIVE \<and> cr_expiresAt r \<le> now) (db_reservations d))))"

definition expire_params :: "string \<Rightarrow> release_params" where
  "expire_params runId = \<lparr> lp_agentRunId = runId, lp_reason = ''reservation_expired'', lp_final = Some FINAL_EXPIRED \<rparr>"

fun release_all :: "int \<Rightarrow> (db \<Rightarrow> db) list \<Rightarrow> string list \<Rightarrow> nat \<Rightarrow> db \<Rightarrow> (ai_error + nat) \<times> db" where
  "release_all now envs [] released d = (Inr released, d)"
| "release_all now envs (runId # rest) released d =
     (case releaseAiReservation True (expire_params runId) now envs d of
        (Inl e, d') \<Rightarrow> (Inl e, d')
      | (Inr u, d') \<Rightarrow> release_all now envs rest (released + 1) d')"

definition releaseExpiredAiReservations ::
  "bool \<Rightarrow> int \<Rightarrow> int option \<Rightarrow> (db \<Rightarrow> db) list \<Rightarrow> db \<Rightarrow> (ai_error + nat) \<times> db" where
  "releaseExpiredAiReservations enabled now n envs d =
     (if \<not> enabled then (Inr 0, d) else release_all now envs (expired_rows now (opt_get n 100) d) 0 d)"

definition markAiReservationForReconciliation :: "bool \<Rightarrow> string \<Rightarrow> string \<Rightarrow> db \<Rightarrow> db" where
  "markAiReservationForReconciliation enabled runId reason d =
     (if \<not> enabled then d
      else d\<lparr> db_reservations := upd_where (\<lambda>r. cr_agentRunId r = runId \<and> cr_status r = CR_ACTIVE)
                                   (to_reconciliation (take 191 reason)) (db_reservations d) \<rparr>)"

section \<open>Summary\<close>

record credit_summary =
  cs_balance :: int
  cs_reserved :: int
  cs_available :: int
  cs_usedLifetime :: int
  cs_usedToday :: int
  cs_usedThisMonth :: int
  cs_dailyLimit :: "int option"
  cs_monthlyLimit :: "int option"
  cs_maxRunCredits :: "int option"

definition getAiCreditSummary :: "db \<Rightarrow> string \<Rightarrow> int \<Rightarrow> credit_summary" where
  "getAiCreditSummary d userId now =
     (case find (\<lambda>s. sub_userId s = userId) (db_subs d) of
        None \<Rightarrow> \<lparr> cs_balance = 0, cs_reserved = 0, cs_available = 0, cs_usedLifetime = 0, cs_usedToday = 0,
                  cs_usedThisMonth = 0, cs_dailyLimit = None, cs_monthlyLimit = None, cs_maxRunCredits = None \<rparr>
      | Some s \<Rightarrow>
          \<lparr> cs_balance = sub_balance s, cs_reserved = sub_reserved s,
            cs_available = (if sub_balance s > sub_reserved s then sub_balance s - sub_reserved s else 0),
            cs_usedLifetime = sub_usedLifetime s,
            cs_usedToday = getSettledUsage d userId (utcStartOfDay now),
            cs_usedThisMonth = getSettledUsage d userId (utcStartOfMonth now),
            cs_dailyLimit = sub_daily s, cs_monthlyLimit = sub_monthly s, cs_maxRunCredits = sub_maxRun s \<rparr>)"

end
