(* ===== verification/AiCreditAccount.thy ===== *)
theory AiCreditAccount
  imports AiCredits
begin

text \<open>
  What the credit service keeps of the account: every subscription's reserved amount is the sum of
  the reservations it still holds, and never exceeds the balance. The operations keep this for any
  interleaving that itself keeps it, provided that no other transaction touches the reservation an
  operation settles or releases.
\<close>

section \<open>Table lemmas\<close>

lemma upd_where_nil [simp]: "upd_where P f [] = []"
  by (simp add: upd_where_def)

lemma upd_where_cons [simp]: "upd_where P f (x # xs) = (if P x then f x else x) # upd_where P f xs"
  by (simp add: upd_where_def)

lemma upd_where_keep: "(\<And>x. P x \<Longrightarrow> k (f x) = k x) \<Longrightarrow> map k (upd_where P f xs) = map k xs"
  by (induction xs) auto

lemma upd_where_id: "(\<And>x. x \<in> set xs \<Longrightarrow> \<not> P x) \<Longrightarrow> upd_where P f xs = xs"
  by (induction xs) auto

lemma in_upd_where: "y \<in> set (upd_where P f xs) \<longleftrightarrow> (\<exists>x\<in>set xs. y = (if P x then f x else x))"
  by (auto simp: upd_where_def)

lemma find_key: "distinct (map k xs) \<Longrightarrow> x \<in> set xs \<Longrightarrow> find (\<lambda>y. k y = k x) xs = Some x"
  by (induction xs) (auto simp: image_iff)

lemma find_snoc: "(\<And>x. x \<in> set xs \<Longrightarrow> \<not> P x) \<Longrightarrow> P r \<Longrightarrow> find P (xs @ [r]) = Some r"
  by (induction xs) auto

lemma find_upd_where:
  "(\<And>x. P x \<Longrightarrow> Q (f x) = Q x) \<Longrightarrow>
    find Q (upd_where P f xs) = map_option (\<lambda>x. if P x then f x else x) (find Q xs)"
  by (induction xs) auto

lemma sum_upd_where:
  assumes "distinct (map k xs)" "x \<in> set xs"
  shows "sum_list (map g (upd_where (\<lambda>y. k y = k x) f xs)) = sum_list (map g xs) - g x + (g (f x) :: int)"
  using assms
proof (induction xs)
  case (Cons a xs)
  have d: "distinct (map k xs)" "k a \<notin> k ` set xs" using Cons.prems(1) by simp_all
  show ?case
  proof (cases "k a = k x")
    case True
    then have "x \<notin> set xs" using d(2) by (metis imageI)
    moreover have "upd_where (\<lambda>y. k y = k x) f xs = xs"
      using d(2) True by (intro upd_where_id) (metis imageI)
    ultimately show ?thesis using Cons.prems(2) True by simp
  next
    case False
    then have "x \<in> set xs" using Cons.prems(2) by auto
    then show ?thesis using Cons.IH [OF d(1)] False by simp
  qed
qed simp

section \<open>The invariant\<close>

fun holds_credits :: "reservation_status \<Rightarrow> bool" where
  "holds_credits CR_ACTIVE = True"
| "holds_credits CR_RECONCILIATION_REQUIRED = True"
| "holds_credits CR_SETTLED = False"
| "holds_credits CR_RELEASED = False"
| "holds_credits CR_EXPIRED = False"

definition held_by :: "string \<Rightarrow> reservation \<Rightarrow> int" where
  "held_by sid r = (if cr_subscriptionId r = sid \<and> holds_credits (cr_status r) then cr_reserved r else 0)"

definition held :: "db \<Rightarrow> string \<Rightarrow> int" where
  "held d sid = sum_list (map (held_by sid) (db_reservations d))"

definition sub_ok :: "db \<Rightarrow> subscription \<Rightarrow> bool" where
  "sub_ok d s \<longleftrightarrow> sub_reserved s = held d (sub_id s) \<and> 0 \<le> sub_reserved s \<and> sub_reserved s \<le> sub_balance s"

definition has_ledger :: "string \<Rightarrow> db \<Rightarrow> bool" where
  "has_ledger key d \<longleftrightarrow> list_ex (\<lambda>e. le_key e = key) (db_ledger d)"

definition reservation_ok :: "db \<Rightarrow> reservation \<Rightarrow> bool" where
  "reservation_ok d r \<longleftrightarrow> 0 < cr_reserved r \<and> list_ex (\<lambda>s. sub_id s = cr_subscriptionId r) (db_subs d) \<and>
     (cr_status r = CR_EXPIRED \<longrightarrow> has_ledger (cr_key r @ '':ledger:release'') d)"

definition db_ok :: "db \<Rightarrow> bool" where
  "db_ok d \<longleftrightarrow> distinct (map sub_id (db_subs d)) \<and> distinct (map cr_id (db_reservations d)) \<and>
     list_all (sub_ok d) (db_subs d) \<and> list_all (reservation_ok d) (db_reservations d)"

lemmas db_ok_defs = db_ok_def list_all_iff sub_ok_def reservation_ok_def

lemma db_okI:
  assumes "distinct (map sub_id (db_subs d))" "distinct (map cr_id (db_reservations d))"
    "\<And>s. s \<in> set (db_subs d) \<Longrightarrow> sub_ok d s" "\<And>r. r \<in> set (db_reservations d) \<Longrightarrow> reservation_ok d r"
  shows "db_ok d"
  using assms by (simp add: db_ok_def list_all_iff)

lemma db_okD:
  assumes "db_ok d"
  shows "distinct (map sub_id (db_subs d))" "distinct (map cr_id (db_reservations d))"
    "s \<in> set (db_subs d) \<Longrightarrow> sub_ok d s" "r \<in> set (db_reservations d) \<Longrightarrow> reservation_ok d r"
  using assms by (simp_all add: db_ok_def list_all_iff)

lemma cas_one:
  assumes "distinct (map sub_id (db_subs d))" "cas_sub sid cond f d = (Suc 0, d1)"
  obtains x where "x \<in> set (db_subs d)" "sub_id x = sid" "cond x"
    "d1 = d\<lparr> db_subs := upd_where (\<lambda>s. sub_id s = sid) f (db_subs d) \<rparr>"
proof -
  from assms(2) have l: "length (filter (\<lambda>s. sub_id s = sid \<and> cond s) (db_subs d)) = Suc 0"
    and d1: "d1 = d\<lparr> db_subs := upd_where (\<lambda>s. sub_id s = sid \<and> cond s) f (db_subs d) \<rparr>"
    by (simp_all add: cas_sub_def)
  from l obtain x where x: "filter (\<lambda>s. sub_id s = sid \<and> cond s) (db_subs d) = [x]"
    by (auto simp: length_Suc_conv)
  then have "x \<in> set (filter (\<lambda>s. sub_id s = sid \<and> cond s) (db_subs d))" by simp
  then have m: "x \<in> set (db_subs d)" "sub_id x = sid" "cond x" by simp_all
  have "(sub_id s = sid \<and> cond s) = (sub_id s = sid)" if "s \<in> set (db_subs d)" for s
    using that m assms(1) by (auto simp: distinct_map dest: inj_onD)
  then have "upd_where (\<lambda>s. sub_id s = sid \<and> cond s) f (db_subs d) = upd_where (\<lambda>s. sub_id s = sid) f (db_subs d)"
    by (simp add: upd_where_def)
  then show thesis using that m d1 by simp
qed

lemma cas_lost:
  assumes "distinct (map sub_id (db_subs d))" "cas_sub sid cond f d = (n, d1)" "n \<noteq> Suc 0"
  shows "d1 = d"
proof -
  let ?l = "filter (\<lambda>s. sub_id s = sid \<and> cond s) (db_subs d)"
  have "distinct (map sub_id ?l)" using assms(1) by (simp add: distinct_map_filter)
  then have "card (set (map sub_id ?l)) = length ?l" using distinct_card by fastforce
  moreover have "card (set (map sub_id ?l)) \<le> card {sid}" by (rule card_mono) auto
  ultimately have "length ?l \<le> 1" by simp
  moreover have "length ?l \<noteq> 1" using assms(2,3) by (simp add: cas_sub_def)
  ultimately have "length ?l = 0" by linarith
  then have "?l = []" by (simp only: length_0_conv)
  then have "upd_where (\<lambda>s. sub_id s = sid \<and> cond s) f (db_subs d) = db_subs d"
    by (intro upd_where_id) (auto simp: filter_empty_conv)
  then show ?thesis using assms(2) by (simp add: cas_sub_def)
qed

lemma sub_ids_ex: "list_ex (\<lambda>s. sub_id s = i) xs \<longleftrightarrow> i \<in> set (map sub_id xs)"
  by (induction xs) auto

lemma move_credits:
  assumes "db_ok d" "db_subs d' = upd_where (\<lambda>s. sub_id s = sid) f (db_subs d)" "x \<in> set (db_subs d)" "sub_id x = sid"
    and "\<And>s. sub_id (f s) = sub_id s" "sub_reserved (f x) = held d' sid" "0 \<le> sub_reserved (f x)"
    and "sub_reserved (f x) \<le> sub_balance (f x)"
    and "\<And>t. t \<noteq> sid \<Longrightarrow> held d' t = held d t" "distinct (map cr_id (db_reservations d'))"
    and "\<And>r. r \<in> set (db_reservations d') \<Longrightarrow> reservation_ok d' r"
  shows "db_ok d'"
proof (rule db_okI)
  have "map sub_id (db_subs d') = map sub_id (db_subs d)" unfolding assms(2) by (rule upd_where_keep) (simp add: assms(5))
  then show "distinct (map sub_id (db_subs d'))" using db_okD(1) [OF assms(1)] by simp
  fix s assume "s \<in> set (db_subs d')"
  then obtain y where y: "y \<in> set (db_subs d)" "s = (if sub_id y = sid then f y else y)"
    unfolding assms(2) by (auto simp: in_upd_where)
  show "sub_ok d' s"
  proof (cases "sub_id y = sid")
    case True
    then have "y = x" using db_okD(1) [OF assms(1)] y(1) assms(3,4) by (auto simp: distinct_map dest: inj_onD)
    then show ?thesis using y(2) True assms(4-8) by (simp add: sub_ok_def)
  next
    case False
    then show ?thesis using db_okD(3) [OF assms(1) y(1)] y(2) assms(9) by (simp add: sub_ok_def)
  qed
qed (use assms in auto)

lemma close_reservation:
  assumes "db_ok d" "db_subs d' = upd_where (\<lambda>s. sub_id s = cr_subscriptionId r) f (db_subs d)"
    and "x \<in> set (db_subs d)" "sub_id x = cr_subscriptionId r" "\<And>s. sub_id (f s) = sub_id s"
    and "sub_reserved (f x) = sub_reserved x - cr_reserved r" "cr_reserved r \<le> sub_reserved x"
    and "sub_reserved (f x) \<le> sub_balance (f x)"
    and "r \<in> set (db_reservations d)" "holds_credits (cr_status r)" "\<not> holds_credits (cr_status (g r))"
    and "db_reservations d' = upd_where (\<lambda>y. cr_id y = cr_id r) g (db_reservations d)"
    and "\<And>y. cr_id (g y) = cr_id y \<and> cr_key (g y) = cr_key y \<and> cr_reserved (g y) = cr_reserved y
           \<and> cr_subscriptionId (g y) = cr_subscriptionId y"
    and "\<And>k. has_ledger k d \<Longrightarrow> has_ledger k d'"
    and "cr_status (g r) = CR_EXPIRED \<Longrightarrow> has_ledger (cr_key r @ '':ledger:release'') d'"
  shows "db_ok d'"
proof (rule move_credits [OF assms(1-5)])
  have h: "held d' t = held d t - held_by t r + held_by t (g r)" for t
    unfolding held_def assms(12) by (rule sum_upd_where [OF db_okD(2) [OF assms(1)] assms(9)])
  have "sub_reserved x = held d (cr_subscriptionId r)"
    using db_okD(3) [OF assms(1) assms(3)] assms(4) by (simp add: sub_ok_def)
  then show "sub_reserved (f x) = held d' (cr_subscriptionId r)"
    using h [of "cr_subscriptionId r"] assms(6,10,11) by (simp add: held_by_def)
  show "0 \<le> sub_reserved (f x)" using assms(6,7) by simp
  show "held d' t = held d t" if "t \<noteq> cr_subscriptionId r" for t
    using h [of t] that assms(13) by (simp add: held_by_def)
  show "distinct (map cr_id (db_reservations d'))"
    unfolding assms(12) by (subst upd_where_keep) (use assms(13) db_okD(2) [OF assms(1)] in auto)
  fix y assume "y \<in> set (db_reservations d')"
  then obtain z where z: "z \<in> set (db_reservations d)" "y = (if cr_id z = cr_id r then g z else z)"
    unfolding assms(12) by (auto simp: in_upd_where)
  have zr: "cr_id z = cr_id r \<Longrightarrow> z = r"
    using z(1) assms(9) db_okD(2) [OF assms(1)] by (auto simp: distinct_map dest: inj_onD)
  have "map sub_id (db_subs d') = map sub_id (db_subs d)"
    unfolding assms(2) by (rule upd_where_keep) (simp add: assms(5))
  then have ids: "list_ex (\<lambda>s. sub_id s = i) (db_subs d') = list_ex (\<lambda>s. sub_id s = i) (db_subs d)" for i
    unfolding sub_ids_ex by simp
  show "reservation_ok d' y"
    using db_okD(4) [OF assms(1) z(1)] z(2) zr assms(13,14,15) by (auto simp: reservation_ok_def ids)
qed (use assms in auto)

section \<open>The operations keep the invariant\<close>

lemma has_ledger_append: "has_ledger k d \<Longrightarrow> db_ledger d' = db_ledger d @ es \<Longrightarrow> has_ledger k d'"
  by (auto simp: has_ledger_def)

lemma bind_sum_Inr [simp]: "bind_sum r f = Inr y \<longleftrightarrow> (\<exists>x. r = Inr x \<and> f x = Inr y)"
  by (cases r) (simp_all add: bind_sum_def)

lemma settle_writes_Inr:
  assumes "settle_writes r s runId now charged costs d = Inr d'"
  shows "db_subs d' = db_subs d \<and> db_usage d' = db_usage d \<and>
    db_reservations d' = upd_where (\<lambda>y. cr_id y = cr_id r) (settled_row now charged) (db_reservations d) \<and>
    (\<exists>es. db_ledger d' = db_ledger d @ settle_ledger r s runId charged costs # es)"
  using assms unfolding settle_writes_def update_reservation_def create_ledger_def update_run_def
  by (auto split: if_splits)

lemma release_writes_Inr:
  assumes "bind_sum (update_reservation (cr_id r) (released_row p now) d) (create_ledger (release_ledger p r s)) = Inr d'"
  shows "\<not> has_ledger (cr_key r @ '':ledger:release'') d \<and> db_subs d' = db_subs d \<and>
    db_reservations d' = upd_where (\<lambda>y. cr_id y = cr_id r) (released_row p now) (db_reservations d) \<and>
    db_ledger d' = db_ledger d @ [release_ledger p r s]"
  using assms unfolding update_reservation_def create_ledger_def has_ledger_def
  by (auto simp: release_ledger_def split: if_splits)

lemma reserve_writes_Inr:
  assumes "reserve_writes p now s d = Inr d'"
  shows "db_subs d' = db_subs d \<and> db_reservations d' = db_reservations d @ [new_reservation p now s] \<and>
    \<not> list_ex (\<lambda>x. cr_id x = rp_newReservationId p \<or> cr_agentRunId x = rp_agentRunId p \<or> cr_key x = rp_key p) (db_reservations d) \<and>
    db_ledger d' = db_ledger d @ [reserve_ledger p s]"
  using assms unfolding reserve_writes_def create_reservation_def create_ledger_def update_run_def
  by (auto simp: new_reservation_def split: if_splits)

definition good_env :: "(db \<Rightarrow> db) \<Rightarrow> bool" where
  "good_env env \<longleftrightarrow> (\<forall>d. db_ok d \<longrightarrow> db_ok (env d))"

definition leaves_run :: "string \<Rightarrow> (db \<Rightarrow> db) \<Rightarrow> bool" where
  "leaves_run runId env \<longleftrightarrow> (\<forall>d. db_ok d \<longrightarrow> find_run_reservation runId (env d) = find_run_reservation runId d)"

lemma claim_row:
  assumes "others = env d" "good_env env" "db_ok d"
  shows "db_ok others"
  using assms by (simp add: good_env_def)

lemma settle_claim_ok:
  assumes "db_ok d" "good_env env" "leaves_run runId env" "find_run_reservation runId d = Some r"
    and "cr_status r = CR_ACTIVE" "charged \<le> cr_reserved r"
  shows "db_ok (snd (run_tx (settle_claim r runId now costs charged env d)))"
proof (cases "find_sub (cr_subscriptionId r) d")
  case (Some s)
  let ?o = "env d"
  have o: "db_ok ?o" using assms(1,2) by (simp add: good_env_def)
  have r: "r \<in> set (db_reservations ?o)"
    using assms(1,3,4) find_Some [of "\<lambda>r. cr_agentRunId r = runId" "db_reservations ?o" r]
    by (simp add: leaves_run_def find_run_reservation_def)
  have s: "sub_id s = cr_subscriptionId r" using find_Some [OF Some [unfolded find_sub_def]] by simp
  let ?f = "\<lambda>x. x\<lparr> sub_balance := sub_balance s - charged, sub_reserved := sub_reserved s - cr_reserved r,
                  sub_usedLifetime := sub_usedLifetime x + charged \<rparr>"
  let ?c = "\<lambda>x. sub_balance x = sub_balance s \<and> sub_reserved x = sub_reserved s"
  show ?thesis
  proof (cases "sub_balance s < charged \<or> sub_reserved s < cr_reserved r")
    case False
    obtain n d1 where c: "cas_sub (sub_id s) ?c ?f ?o = (n, d1)" by fastforce
    show ?thesis
    proof (cases "n = Suc 0")
      case True
      obtain x where x: "x \<in> set (db_subs ?o)" "sub_id x = sub_id s" "?c x"
        "d1 = ?o\<lparr> db_subs := upd_where (\<lambda>y. sub_id y = sub_id s) ?f (db_subs ?o) \<rparr>"
        using cas_one [OF db_okD(1) [OF o] c [unfolded True]] .
      have "db_ok d2" if w: "settle_writes r s runId now charged costs d1 = Inr d2" for d2
      proof (rule close_reservation [where x = x and f = ?f and r = r and g = "settled_row now charged", OF o])
        note W = settle_writes_Inr [OF w]
        show "db_subs d2 = upd_where (\<lambda>y. sub_id y = cr_subscriptionId r) ?f (db_subs ?o)" using W x(4) s by simp
        show "db_reservations d2 = upd_where (\<lambda>y. cr_id y = cr_id r) (settled_row now charged) (db_reservations ?o)"
          using W x(4) by simp
        show "\<And>k. has_ledger k ?o \<Longrightarrow> has_ledger k d2" using W x(4) by (auto simp: has_ledger_def)
        show "sub_reserved (?f x) \<le> sub_balance (?f x)"
          using db_okD(3) [OF o x(1)] x(3) assms(6) by (auto simp: sub_ok_def)
        show "cr_reserved r \<le> sub_reserved x" using False x(3) by simp
      qed (use x s r assms in \<open>simp_all add: settled_row_def\<close>)
      then show ?thesis
        using Some False c True o
        by (auto simp: settle_claim_def run_tx_def Let_def split: sum.splits)
    next
      case no: False
      then show ?thesis
        using Some False c o cas_lost [OF db_okD(1) [OF o] c no] by (simp add: settle_claim_def run_tx_def Let_def)
    qed
  qed (use Some assms(1) in \<open>auto simp: settle_claim_def run_tx_def\<close>)
qed (use assms(1) in \<open>simp add: settle_claim_def run_tx_def\<close>)

lemma settle_body_ok:
  assumes "db_ok d" "good_env env" "leaves_run runId env"
  shows "db_ok (snd (run_tx (settle_body runId now env d)))"
proof -
  have f: "db_ok (snd (run_tx (flag_and_throw r m e d :: settle_result option tx)))" for r m e
    using assms(1) by (simp add: flag_and_throw_def run_tx_def split: sum.splits)
  show ?thesis
  proof (cases "find_run_reservation runId d")
    case (Some r)
    then show ?thesis
      using assms(1) f settle_claim_ok [OF assms Some]
      unfolding settle_body_def Let_def by (auto simp: run_tx_def split: sum.splits)
  qed (use assms(1) in \<open>simp add: settle_body_def run_tx_def\<close>)
qed

lemma settle_loop_ok:
  "db_ok d \<Longrightarrow> (\<And>env. env \<in> set envs \<Longrightarrow> good_env env \<and> leaves_run runId env) \<Longrightarrow>
    db_ok (snd (settle_loop runId now envs d))"
proof (induction envs arbitrary: d)
  case (Cons env envs)
  have "db_ok (snd (run_tx (settle_body runId now env d)))"
    using Cons.prems by (intro settle_body_ok) auto
  then show ?case
    using Cons.IH Cons.prems(2) by (auto split: sum.splits option.splits prod.splits)
qed simp

lemma settle_ok:
  assumes "db_ok d" "\<And>env. env \<in> set envs \<Longrightarrow> good_env env \<and> leaves_run runId env"
  shows "db_ok (snd (settleAiRun enabled runId now envs d))"
proof -
  have "db_ok (snd (settle_loop runId now (take MAX_CAS_ATTEMPTS envs) d))"
    using assms by (intro settle_loop_ok) (auto dest: in_set_takeD)
  then show ?thesis using assms(1) by (auto simp: settleAiRun_def split: prod.splits sum.splits)
qed

lemma not_held_released: "\<not> holds_credits (final_status f)"
  by (cases f rule: final_status.cases) auto

lemma release_body_ok:
  assumes "db_ok d" "good_env env" "leaves_run (lp_agentRunId p) env"
  shows "db_ok (snd (run_tx (release_body p now env d)))"
proof (cases "find_run_reservation (lp_agentRunId p) d")
  case (Some r)
  let ?o = "env d"
  have o: "db_ok ?o" using assms(1,2) by (simp add: good_env_def)
  have r: "r \<in> set (db_reservations ?o)"
    using assms(1,3) Some find_Some [of "\<lambda>r. cr_agentRunId r = lp_agentRunId p" "db_reservations ?o" r]
    by (simp add: leaves_run_def find_run_reservation_def)
  show ?thesis
  proof (cases "cr_status r \<in> {CR_ACTIVE, CR_EXPIRED}")
    case st: True
    show ?thesis
    proof (cases "find_sub (cr_subscriptionId r) d")
      case S: (Some s)
      have s: "sub_id s = cr_subscriptionId r" using find_Some [OF S [unfolded find_sub_def]] by simp
      let ?f = "\<lambda>x. x\<lparr> sub_reserved := sub_reserved s - cr_reserved r \<rparr>"
      let ?c = "\<lambda>x. sub_reserved x = sub_reserved s"
      obtain n d1 where c: "cas_sub (sub_id s) ?c ?f ?o = (n, d1)" by fastforce
      show ?thesis
      proof (cases "sub_reserved s < cr_reserved r")
        case False
        show ?thesis
        proof (cases "n = Suc 0")
          case True
          obtain x where x: "x \<in> set (db_subs ?o)" "sub_id x = sub_id s" "?c x"
            "d1 = ?o\<lparr> db_subs := upd_where (\<lambda>y. sub_id y = sub_id s) ?f (db_subs ?o) \<rparr>"
            using cas_one [OF db_okD(1) [OF o] c [unfolded True]] .
          have "db_ok d2" if w: "bind_sum (update_reservation (cr_id r) (released_row p now) d1)
              (create_ledger (release_ledger p r s)) = Inr d2" for d2
          proof (rule close_reservation [where x = x and f = ?f and r = r and g = "released_row p now", OF o])
            note W = release_writes_Inr [OF w]
            show "db_subs d2 = upd_where (\<lambda>y. sub_id y = cr_subscriptionId r) ?f (db_subs ?o)" using W x(4) s by simp
            show "db_reservations d2 = upd_where (\<lambda>y. cr_id y = cr_id r) (released_row p now) (db_reservations ?o)"
              using W x(4) by simp
            show "\<And>k. has_ledger k ?o \<Longrightarrow> has_ledger k d2" using W x(4) by (auto simp: has_ledger_def)
            show "has_ledger (cr_key r @ '':ledger:release'') d2"
              using W by (auto simp: has_ledger_def release_ledger_def)
            show "sub_reserved (?f x) \<le> sub_balance (?f x)"
              using db_okD(3) [OF o x(1)] db_okD(4) [OF o r] x(3) by (simp add: sub_ok_def reservation_ok_def)
            have "\<not> has_ledger (cr_key r @ '':ledger:release'') ?o" using W x(4) by (simp add: has_ledger_def)
            then show "holds_credits (cr_status r)"
              using st db_okD(4) [OF o r] by (auto simp: reservation_ok_def)
          qed (use x s r False in \<open>simp_all add: released_row_def not_held_released\<close>)
          then show ?thesis
            using Some S False c True o st
            by (auto simp: release_body_def run_tx_def Let_def split: sum.splits)
        next
          case no: False
          then show ?thesis
            using Some S False c o st cas_lost [OF db_okD(1) [OF o] c no]
            by (auto simp: release_body_def run_tx_def Let_def)
        qed
      qed (use Some S st assms(1) in \<open>auto simp: release_body_def run_tx_def\<close>)
    qed (use Some st assms(1) in \<open>auto simp: release_body_def run_tx_def\<close>)
  next
    case False
    then show ?thesis using Some assms(1) by (cases "cr_status r") (auto simp: release_body_def run_tx_def)
  qed
qed (use assms(1) in \<open>simp add: release_body_def run_tx_def\<close>)

lemma release_loop_ok:
  "db_ok d \<Longrightarrow> (\<And>env. env \<in> set envs \<Longrightarrow> good_env env \<and> leaves_run (lp_agentRunId p) env) \<Longrightarrow>
    db_ok (snd (release_loop p now envs d))"
proof (induction envs arbitrary: d)
  case (Cons env envs)
  have "db_ok (snd (run_tx (release_body p now env d)))"
    using Cons.prems by (intro release_body_ok) auto
  then show ?case
    using Cons.IH Cons.prems(2) by (auto split: sum.splits bool.splits prod.splits)
qed simp

lemma release_ok:
  assumes "db_ok d" "\<And>env. env \<in> set envs \<Longrightarrow> good_env env \<and> leaves_run (lp_agentRunId p) env"
  shows "db_ok (snd (releaseAiReservation enabled p now envs d))"
  using assms unfolding releaseAiReservation_def by (auto intro!: release_loop_ok dest: in_set_takeD)

lemma held_zero:
  assumes "\<And>r. r \<in> set (db_reservations d) \<Longrightarrow> cr_subscriptionId r \<noteq> sid"
  shows "held d sid = 0"
proof -
  have "(\<And>r. r \<in> set rs \<Longrightarrow> cr_subscriptionId r \<noteq> sid) \<Longrightarrow> sum_list (map (held_by sid) rs) = 0" for rs
    by (induction rs) (auto simp: held_by_def)
  then show ?thesis using assms unfolding held_def by blast
qed

lemma upsert_ok:
  assumes "db_ok d" "upsert_sub p d = Inr (s, d')"
  shows "db_ok d' \<and> s \<in> set (db_subs d') \<and> db_reservations d' = db_reservations d \<and> db_ledger d' = db_ledger d"
proof (cases "find (\<lambda>s. sub_userId s = rp_userId p) (db_subs d)")
  case None
  have n: "d' = d\<lparr> db_subs := db_subs d @ [new_subscription p] \<rparr>" "s = new_subscription p"
    "rp_newSubId p \<notin> set (map sub_id (db_subs d))"
    using assms(2) None by (auto simp: upsert_sub_def sub_ids_ex split: if_splits)
  have z: "held d (rp_newSubId p) = 0"
  proof (rule held_zero)
    fix r assume "r \<in> set (db_reservations d)"
    from db_okD(4) [OF assms(1) this] have "cr_subscriptionId r \<in> set (map sub_id (db_subs d))"
      by (simp only: reservation_ok_def sub_ids_ex)
    then show "cr_subscriptionId r \<noteq> rp_newSubId p" using n(3) by metis
  qed
  have "db_ok d'"
    using assms(1) n z unfolding db_ok_defs held_def has_ledger_def by (auto simp: new_subscription_def)
  then show ?thesis using n by simp
next
  case (Some x)
  then show ?thesis using assms find_Some [OF Some] by (auto simp: upsert_sub_def)
qed

lemma reserve_claim_ok:
  assumes o: "db_ok others" and cr: "0 < rp_credits p" "rp_credits p \<le> sub_balance s - sub_reserved s"
  shows "db_ok (snd (run_tx (reserve_claim p now s others)))"
proof (cases "upsert_sub p others")
  case (Inr t)
  obtain u d0 where U: "upsert_sub p others = Inr (u, d0)" using Inr by (cases t) auto
  have d0: "db_ok d0" using upsert_ok [OF o U] by simp
  let ?f = "\<lambda>x. x\<lparr> sub_reserved := sub_reserved s + rp_credits p \<rparr>"
  let ?c = "\<lambda>x. sub_balance x = sub_balance s \<and> sub_reserved x = sub_reserved s"
  obtain n d1 where c: "cas_sub (sub_id s) ?c ?f d0 = (n, d1)" by fastforce
  show ?thesis
  proof (cases "n = Suc 0")
    case True
    obtain x where x: "x \<in> set (db_subs d0)" "sub_id x = sub_id s" "?c x"
      "d1 = d0\<lparr> db_subs := upd_where (\<lambda>y. sub_id y = sub_id s) ?f (db_subs d0) \<rparr>"
      using cas_one [OF db_okD(1) [OF d0] c [unfolded True]] .
    have "db_ok d2" if w: "reserve_writes p now s d1 = Inr d2" for d2
    proof (rule move_credits [where x = x and f = ?f and sid = "sub_id s", OF d0])
      note W = reserve_writes_Inr [OF w]
      have rs: "db_reservations d2 = db_reservations d0 @ [new_reservation p now s]" using W x(4) by simp
      have h: "held d2 t = held d0 t + (if t = sub_id s then rp_credits p else 0)" for t
        unfolding held_def rs by (simp add: held_by_def new_reservation_def)
      have okx: "sub_ok d0 x" using d0 x(1) by (rule db_okD(3))
      show subs: "db_subs d2 = upd_where (\<lambda>y. sub_id y = sub_id s) ?f (db_subs d0)" using W x(4) by simp
      show "sub_reserved (?f x) = held d2 (sub_id s)" using okx x h by (simp add: sub_ok_def)
      show "0 \<le> sub_reserved (?f x)" "sub_reserved (?f x) \<le> sub_balance (?f x)"
        using okx x cr by (simp_all add: sub_ok_def)
      show "held d2 t = held d0 t" if "t \<noteq> sub_id s" for t using h that by simp
      show "distinct (map cr_id (db_reservations d2))"
        using W x(4) db_okD(2) [OF d0] unfolding rs by (auto simp: list_ex_iff new_reservation_def)
      have ids: "map sub_id (db_subs d2) = map sub_id (db_subs d0)" unfolding subs by (rule upd_where_keep) simp
      fix r assume "r \<in> set (db_reservations d2)"
      then consider "r \<in> set (db_reservations d0)" | "r = new_reservation p now s" unfolding rs by auto
      then show "reservation_ok d2 r"
      proof cases
        case 1
        have "has_ledger k d0 \<Longrightarrow> has_ledger k d2" for k using W x(4) by (auto simp: has_ledger_def)
        then show ?thesis using db_okD(4) [OF d0 1] unfolding reservation_ok_def sub_ids_ex ids by blast
      next
        case 2
        have "sub_id s \<in> set (map sub_id (db_subs d0))" using x(1,2) by (metis image_eqI list.set_map)
        then show ?thesis using 2 cr(1) unfolding reservation_ok_def sub_ids_ex ids by (simp add: new_reservation_def)
      qed
    qed (use x in simp_all)
    then show ?thesis
      using U c True o by (auto simp: reserve_claim_def run_tx_def Let_def split: sum.splits)
  next
    case False
    then show ?thesis
      using U c d0 o cas_lost [OF db_okD(1) [OF d0] c False] by (simp add: reserve_claim_def run_tx_def)
  qed
qed (use o in \<open>simp add: reserve_claim_def run_tx_def\<close>)

lemma reserve_body_ok:
  assumes "db_ok d" "good_env env" "0 < rp_credits p"
  shows "db_ok (snd (run_tx (reserve_body p now env d)))"
proof (cases "find (\<lambda>r. cr_key r = rp_key p) (db_reservations d)")
  case None
  show ?thesis
  proof (cases "upsert_sub p d")
    case (Inr t)
    obtain s d0 where "upsert_sub p d = Inr (s, d0)" using Inr by (cases t) auto
    moreover have "rp_credits p \<le> sub_balance s - sub_reserved s" if "reserve_guard d p now s = None"
      using that by (simp add: reserve_guard_def Let_def split: if_splits)
    ultimately show ?thesis
      using None assms reserve_claim_ok [of "env d" p s now]
      by (auto simp: reserve_body_def good_env_def run_tx_def split: option.splits)
  qed (use None assms(1) in \<open>simp add: reserve_body_def run_tx_def\<close>)
qed (use assms(1) in \<open>simp add: reserve_body_def run_tx_def\<close>)

lemma reserve_loop_ok:
  "db_ok d \<Longrightarrow> (\<And>env. env \<in> set envs \<Longrightarrow> good_env env) \<Longrightarrow> 0 < rp_credits p \<Longrightarrow>
    db_ok (snd (reserve_loop p now envs d))"
proof (induction envs arbitrary: d)
  case (Cons env envs)
  have "db_ok (snd (run_tx (reserve_body p now env d)))"
    using Cons.prems by (intro reserve_body_ok) auto
  then show ?case
    using Cons.IH Cons.prems(2,3) by (auto split: sum.splits option.splits prod.splits ai_error.splits)
qed simp

lemma reserve_ok:
  assumes "db_ok d" "\<And>env. env \<in> set envs \<Longrightarrow> good_env env"
  shows "db_ok (snd (reserveAiCredits enabled p now envs d))"
proof (cases "0 < rp_credits p")
  case True
  have "db_ok (snd (reserve_loop p now (take MAX_CAS_ATTEMPTS envs) d))"
    using assms True by (intro reserve_loop_ok) (auto dest: in_set_takeD)
  then show ?thesis using assms(1) by (auto simp: reserveAiCredits_def split: prod.splits sum.splits)
qed (use assms(1) in \<open>simp add: reserveAiCredits_def\<close>)

section \<open>The account as a transition system\<close>

lemma release_all_ok:
  "db_ok d \<Longrightarrow> (\<And>env runId. env \<in> set envs \<Longrightarrow> runId \<in> set runs \<Longrightarrow> good_env env \<and> leaves_run runId env) \<Longrightarrow>
    db_ok (snd (release_all now envs runs n d))"
proof (induction runs arbitrary: n d)
  case (Cons runId rest)
  have "db_ok (snd (releaseAiReservation True (expire_params runId) now envs d))"
    using Cons.prems by (intro release_ok) (auto simp: expire_params_def)
  then show ?case using Cons.prems(2) by (auto split: sum.splits prod.splits intro!: Cons.IH)
qed simp

lemma db_ok_frame:
  assumes "db_ok d" "db_subs d' = db_subs d" "db_reservations d' = db_reservations d" "db_ledger d' = db_ledger d"
  shows "db_ok d'"
  using assms(1) unfolding db_ok_defs held_def has_ledger_def assms(2-4) .

lemma record_usage_ok:
  assumes "db_ok d"
  shows "db_ok (snd (recordAiUsage p ro at_ms d))"
proof -
  have "db_ok (snd (run_tx (record_usage_body p ro pricing cost d)))" for pricing cost
    using assms unfolding record_usage_body_def create_usage_def update_run_def run_tx_def bind_sum_def
    by (auto elim: db_ok_frame split: option.splits if_splits)
  then show ?thesis using assms by (auto simp: recordAiUsage_def split: sum.splits)
qed

lemma mark_ok:
  assumes "db_ok d"
  shows "db_ok (markAiReservationForReconciliation enabled runId reason d)"
proof (cases enabled)
  case True
  let ?P = "\<lambda>r. cr_agentRunId r = runId \<and> cr_status r = CR_ACTIVE"
  let ?d = "markAiReservationForReconciliation enabled runId reason d"
  have rs: "db_reservations ?d = upd_where ?P (to_reconciliation (take 191 reason)) (db_reservations d)"
    and same: "db_subs ?d = db_subs d" "db_ledger ?d = db_ledger d"
    using True by (simp_all add: markAiReservationForReconciliation_def)
  have "map (held_by t) (db_reservations ?d) = map (held_by t) (db_reservations d)" for t
    unfolding rs by (rule upd_where_keep) (simp add: held_by_def to_reconciliation_def)
  then have h: "held ?d t = held d t" for t unfolding held_def by simp
  have i: "map cr_id (db_reservations ?d) = map cr_id (db_reservations d)"
    unfolding rs by (rule upd_where_keep) (simp add: to_reconciliation_def)
  show ?thesis
  proof (rule db_okI)
    show "distinct (map sub_id (db_subs ?d))" "distinct (map cr_id (db_reservations ?d))"
      using db_okD(1,2) [OF assms] same i by simp_all
    show "sub_ok ?d s" if "s \<in> set (db_subs ?d)" for s
      using db_okD(3) [OF assms that [unfolded same]] unfolding sub_ok_def h .
    fix r assume "r \<in> set (db_reservations ?d)"
    then obtain z where z: "z \<in> set (db_reservations d)" "r = (if ?P z then to_reconciliation (take 191 reason) z else z)"
      unfolding rs in_upd_where by blast
    show "reservation_ok ?d r"
      using db_okD(4) [OF assms z(1)] z(2) same by (auto simp: reservation_ok_def to_reconciliation_def has_ledger_def)
  qed
qed (use assms in \<open>simp add: markAiReservationForReconciliation_def\<close>)

section \<open>What a call leaves of the other runs\<close>

lemma find_upd_where_other:
  "(\<And>x. x \<in> set xs \<Longrightarrow> Q x \<Longrightarrow> \<not> P x \<and> \<not> P (g x)) \<Longrightarrow> find P (upd_where Q g xs) = find P xs"
  by (induction xs) (auto simp: upd_where_def)

lemma find_run_append:
  "cr_agentRunId r \<noteq> runId \<Longrightarrow> db_reservations d' = db_reservations d @ [r] \<Longrightarrow>
    find_run_reservation runId d' = find_run_reservation runId d"
proof -
  have "find P (xs @ [r]) = find P xs" if "\<not> P r" for P xs using that by (induction xs) auto
  then show "cr_agentRunId r \<noteq> runId \<Longrightarrow> db_reservations d' = db_reservations d @ [r] \<Longrightarrow> ?thesis"
    by (simp add: find_run_reservation_def)
qed

lemma find_run_update:
  assumes "distinct (map cr_id (db_reservations d))" "r \<in> set (db_reservations d)" "cr_agentRunId r \<noteq> runId"
    and "db_reservations d' = upd_where (\<lambda>y. cr_id y = cr_id r) g (db_reservations d)"
    and "\<And>y. cr_agentRunId (g y) = cr_agentRunId y"
  shows "find_run_reservation runId d' = find_run_reservation runId d"
  unfolding find_run_reservation_def assms(4)
  by (rule find_upd_where_other) (use assms(1-3,5) in \<open>auto simp: distinct_map dest: inj_onD\<close>)

lemma find_run_subs [simp]: "find_run_reservation runId (d\<lparr> db_subs := ss \<rparr>) = find_run_reservation runId d"
  by (simp add: find_run_reservation_def)

lemma reserve_claim_leaves:
  assumes "rp_agentRunId p \<noteq> runId"
  shows "find_run_reservation runId (snd (run_tx (reserve_claim p now s others))) = find_run_reservation runId others"
proof (cases "upsert_sub p others")
  case (Inr t)
  obtain u d0 where U: "upsert_sub p others = Inr (u, d0)" using Inr by (cases t) auto
  have d0: "db_reservations d0 = db_reservations others" using U by (auto simp: upsert_sub_def split: option.splits if_splits)
  obtain n d1 where c: "cas_sub (sub_id s) (\<lambda>x. sub_balance x = sub_balance s \<and> sub_reserved x = sub_reserved s)
      (\<lambda>x. x\<lparr> sub_reserved := sub_reserved s + rp_credits p \<rparr>) d0 = (n, d1)" by fastforce
  then have d1: "db_reservations d1 = db_reservations others" using d0 by (auto simp: cas_sub_def)
  have "find_run_reservation runId d2 = find_run_reservation runId others" if "reserve_writes p now s d1 = Inr d2" for d2
    by (rule find_run_append [where r = "new_reservation p now s"])
      (use reserve_writes_Inr [OF that] d1 assms in \<open>simp_all add: new_reservation_def\<close>)
  then show ?thesis
    using U c d1 by (auto simp: reserve_claim_def run_tx_def Let_def find_run_reservation_def split: sum.splits)
qed (simp add: reserve_claim_def run_tx_def)

lemma reserve_body_leaves:
  assumes "db_ok d" "leaves_run runId env" "rp_agentRunId p \<noteq> runId"
  shows "find_run_reservation runId (snd (run_tx (reserve_body p now env d))) = find_run_reservation runId d"
  using assms reserve_claim_leaves [OF assms(3), of now _ "env d"]
  by (auto simp: reserve_body_def leaves_run_def run_tx_def split: option.splits sum.splits)

lemma reserve_loop_leaves:
  "db_ok d \<Longrightarrow> (\<And>env. env \<in> set envs \<Longrightarrow> good_env env \<and> leaves_run runId env) \<Longrightarrow> 0 < rp_credits p \<Longrightarrow>
    rp_agentRunId p \<noteq> runId \<Longrightarrow>
    find_run_reservation runId (snd (reserve_loop p now envs d)) = find_run_reservation runId d"
proof (induction envs arbitrary: d)
  case (Cons env envs)
  obtain r d' where b: "run_tx (reserve_body p now env d) = (r, d')" by fastforce
  have "find_run_reservation runId d' = find_run_reservation runId d" "db_ok d'"
    using reserve_body_leaves [of d runId env p now] reserve_body_ok [of d env p now] Cons.prems b by auto
  then show ?case
    using Cons.IH [of d'] Cons.prems(2-4) b by (auto split: sum.splits option.splits ai_error.splits)
qed simp

lemma reserve_leaves:
  assumes "\<And>env. env \<in> set envs \<Longrightarrow> good_env env \<and> leaves_run runId env" "rp_agentRunId p \<noteq> runId"
  shows "leaves_run runId (\<lambda>d. snd (reserveAiCredits enabled p now envs d))"
proof -
  have "find_run_reservation runId (snd (reserve_loop p now (take MAX_CAS_ATTEMPTS envs) d)) = find_run_reservation runId d"
    if "db_ok d" "0 < rp_credits p" for d
    using that assms by (intro reserve_loop_leaves) (auto dest: in_set_takeD)
  then show ?thesis by (fastforce simp: leaves_run_def reserveAiCredits_def split: prod.splits sum.splits)
qed

lemma settle_body_leaves:
  assumes "db_ok d" "good_env env" "leaves_run own env" "leaves_run runId env" "own \<noteq> runId"
  shows "find_run_reservation runId (snd (run_tx (settle_body own now env d))) = find_run_reservation runId d"
proof (cases "find_run_reservation own d")
  case (Some r)
  have rd: "r \<in> set (db_reservations d)" "cr_agentRunId r = own"
    using find_Some [OF Some [unfolded find_run_reservation_def]] by simp_all
  have ro: "r \<in> set (db_reservations (env d))"
    using assms(1,3) Some find_Some [of "\<lambda>r. cr_agentRunId r = own" "db_reservations (env d)" r]
    by (simp add: leaves_run_def find_run_reservation_def)
  have e: "db_ok (env d)" "find_run_reservation runId (env d) = find_run_reservation runId d"
    using assms(1,2,4) by (simp_all add: good_env_def leaves_run_def)
  have f: "find_run_reservation runId (snd (run_tx (flag_and_throw r m x d :: settle_result option tx)))
      = find_run_reservation runId d" for m x
    by (simp add: flag_and_throw_def run_tx_def split: sum.splits)
  have "find_run_reservation runId (snd (run_tx (settle_claim r own now costs charged env d))) = find_run_reservation runId d"
    for costs charged
  proof -
    have "find_run_reservation runId d2 = find_run_reservation runId (env d)"
      if "settle_writes r s own now charged costs d1 = Inr d2" "db_reservations d1 = db_reservations (env d)" for s d1 d2
      by (rule find_run_update [where r = r and g = "settled_row now charged"])
        (use settle_writes_Inr [OF that(1)] that(2) db_okD(2) [OF e(1)] ro rd(2) assms(5) in \<open>simp_all add: settled_row_def\<close>)
    then show ?thesis
      using e(2) unfolding settle_claim_def Let_def cas_sub_def
      by (auto simp: run_tx_def split: option.splits sum.splits)
  qed
  then show ?thesis using Some f unfolding settle_body_def Let_def by (auto simp: run_tx_def split: sum.splits)
qed (simp add: settle_body_def run_tx_def)

lemma settle_loop_leaves:
  "db_ok d \<Longrightarrow> (\<And>env. env \<in> set envs \<Longrightarrow> good_env env \<and> leaves_run own env \<and> leaves_run runId env) \<Longrightarrow> own \<noteq> runId \<Longrightarrow>
    find_run_reservation runId (snd (settle_loop own now envs d)) = find_run_reservation runId d"
proof (induction envs arbitrary: d)
  case (Cons env envs)
  obtain r d' where b: "run_tx (settle_body own now env d) = (r, d')" by fastforce
  have "find_run_reservation runId d' = find_run_reservation runId d" "db_ok d'"
    using settle_body_leaves [of d env own runId now] settle_body_ok [of d env own now] Cons.prems b by auto
  then show ?case using Cons.IH [of d'] Cons.prems(2,3) b by (auto split: sum.splits option.splits)
qed simp

lemma settle_leaves:
  assumes "\<And>env. env \<in> set envs \<Longrightarrow> good_env env \<and> leaves_run own env \<and> leaves_run runId env" "own \<noteq> runId"
  shows "leaves_run runId (\<lambda>d. snd (settleAiRun enabled own now envs d))"
proof -
  have "find_run_reservation runId (snd (settle_loop own now (take MAX_CAS_ATTEMPTS envs) d)) = find_run_reservation runId d"
    if "db_ok d" for d
    using that assms by (intro settle_loop_leaves) (auto dest: in_set_takeD)
  then show ?thesis by (fastforce simp: leaves_run_def settleAiRun_def split: prod.splits sum.splits)
qed

lemma release_body_leaves:
  assumes "db_ok d" "good_env env" "leaves_run (lp_agentRunId q) env" "leaves_run runId env" "lp_agentRunId q \<noteq> runId"
  shows "find_run_reservation runId (snd (run_tx (release_body q now env d))) = find_run_reservation runId d"
proof (cases "find_run_reservation (lp_agentRunId q) d")
  case (Some r)
  have rd: "cr_agentRunId r = lp_agentRunId q"
    using find_Some [OF Some [unfolded find_run_reservation_def]] by simp
  have ro: "r \<in> set (db_reservations (env d))"
    using assms(1,3) Some find_Some [of "\<lambda>r. cr_agentRunId r = lp_agentRunId q" "db_reservations (env d)" r]
    by (simp add: leaves_run_def find_run_reservation_def)
  have e: "db_ok (env d)" "find_run_reservation runId (env d) = find_run_reservation runId d"
    using assms(1,2,4) by (simp_all add: good_env_def leaves_run_def)
  have "find_run_reservation runId d2 = find_run_reservation runId (env d)"
    if "bind_sum (update_reservation (cr_id r) (released_row q now) d1) (create_ledger (release_ledger q r s)) = Inr d2"
      "db_reservations d1 = db_reservations (env d)" for s d1 d2
    by (rule find_run_update [where r = r and g = "released_row q now"])
      (use release_writes_Inr [OF that(1)] that(2) db_okD(2) [OF e(1)] ro rd assms(5) in \<open>simp_all add: released_row_def\<close>)
  then show ?thesis
    using Some e(2) unfolding release_body_def Let_def cas_sub_def
    by (auto simp: run_tx_def simp del: bind_sum_Inr split: option.splits sum.splits)
qed (simp add: release_body_def run_tx_def)

lemma release_loop_leaves:
  "db_ok d \<Longrightarrow> (\<And>env. env \<in> set envs \<Longrightarrow> good_env env \<and> leaves_run (lp_agentRunId q) env \<and> leaves_run runId env) \<Longrightarrow>
    lp_agentRunId q \<noteq> runId \<Longrightarrow>
    find_run_reservation runId (snd (release_loop q now envs d)) = find_run_reservation runId d"
proof (induction envs arbitrary: d)
  case (Cons env envs)
  obtain r d' where b: "run_tx (release_body q now env d) = (r, d')" by fastforce
  have "find_run_reservation runId d' = find_run_reservation runId d" "db_ok d'"
    using release_body_leaves [of d env q runId now] release_body_ok [of d env q now] Cons.prems b by auto
  then show ?case using Cons.IH [of d'] Cons.prems(2,3) b by (auto split: sum.splits bool.splits)
qed simp

lemma release_leaves:
  assumes "\<And>env. env \<in> set envs \<Longrightarrow> good_env env \<and> leaves_run (lp_agentRunId q) env \<and> leaves_run runId env"
    and "lp_agentRunId q \<noteq> runId"
  shows "leaves_run runId (\<lambda>d. snd (releaseAiReservation enabled q now envs d))"
  using assms unfolding leaves_run_def releaseAiReservation_def
  by (auto intro!: release_loop_leaves simp: leaves_run_def dest!: in_set_takeD)

section \<open>Interleaved calls\<close>

text \<open>
  What other requests commit while a call is between its read and its write: any sequence of calls of the service that are
  not for the runs \<open>R\<close>, each of them interrupted in the same way, where a settlement or a release is never interrupted
  by a call for its own run. An expiry is a sequence of releases.
\<close>

inductive others_commit :: "string set \<Rightarrow> (db \<Rightarrow> db) \<Rightarrow> bool" where
  nothing: "others_commit R id"
| reserved: "others_commit R env \<Longrightarrow> rp_agentRunId p \<notin> R \<Longrightarrow> (\<And>e. e \<in> set envs \<Longrightarrow> others_commit R e) \<Longrightarrow>
    others_commit R (\<lambda>d. snd (reserveAiCredits enabled p now envs (env d)))"
| used: "others_commit R env \<Longrightarrow> others_commit R (\<lambda>d. snd (recordAiUsage u ro now (env d)))"
| settled: "others_commit R env \<Longrightarrow> runId \<notin> R \<Longrightarrow> (\<And>e. e \<in> set envs \<Longrightarrow> others_commit (insert runId R) e) \<Longrightarrow>
    others_commit R (\<lambda>d. snd (settleAiRun enabled runId now envs (env d)))"
| released: "others_commit R env \<Longrightarrow> lp_agentRunId q \<notin> R \<Longrightarrow>
    (\<And>e. e \<in> set envs \<Longrightarrow> others_commit (insert (lp_agentRunId q) R) e) \<Longrightarrow>
    others_commit R (\<lambda>d. snd (releaseAiReservation enabled q now envs (env d)))"
| marked: "others_commit R env \<Longrightarrow> runId \<notin> R \<Longrightarrow>
    others_commit R (\<lambda>d. markAiReservationForReconciliation enabled runId reason (env d))"

lemma good_comp: "good_env f \<Longrightarrow> good_env g \<Longrightarrow> good_env (\<lambda>d. f (g d))"
  by (simp add: good_env_def)

lemma leaves_comp: "good_env g \<Longrightarrow> leaves_run r f \<Longrightarrow> leaves_run r g \<Longrightarrow> leaves_run r (\<lambda>d. f (g d))"
  by (simp add: good_env_def leaves_run_def)

lemma usage_leaves: "leaves_run runId (\<lambda>d. snd (recordAiUsage u ro now d))"
proof -
  have "find_run_reservation runId (snd (run_tx (record_usage_body u ro pricing cost d))) = find_run_reservation runId d"
    for pricing cost d
    unfolding record_usage_body_def create_usage_def update_run_def run_tx_def bind_sum_def
    by (auto simp: find_run_reservation_def split: option.splits if_splits)
  then show ?thesis by (auto simp: leaves_run_def recordAiUsage_def split: sum.splits)
qed

lemma mark_leaves:
  "own \<noteq> runId \<Longrightarrow> leaves_run runId (\<lambda>d. markAiReservationForReconciliation enabled own reason d)"
  unfolding leaves_run_def markAiReservationForReconciliation_def find_run_reservation_def
  by (auto intro!: find_upd_where_other simp: to_reconciliation_def)

lemma call_ok:
  assumes "good_env call" "\<And>r. r \<in> R \<Longrightarrow> leaves_run r call" "good_env env \<and> (\<forall>r\<in>R. leaves_run r env)"
  shows "good_env (\<lambda>d. call (env d)) \<and> (\<forall>r\<in>R. leaves_run r (\<lambda>d. call (env d)))"
  using assms good_comp leaves_comp by blast

lemma others_ok: "others_commit R env \<Longrightarrow> good_env env \<and> (\<forall>r\<in>R. leaves_run r env)"
proof (induction rule: others_commit.induct)
  case (reserved R env p envs enabled now)
  then show ?case
    by (intro call_ok [where call = "\<lambda>d. snd (reserveAiCredits enabled p now envs d)"])
      (auto simp: good_env_def [of "\<lambda>d. snd (reserveAiCredits enabled p now envs d)"] intro!: reserve_ok reserve_leaves)
next
  case (used R env u ro now)
  then show ?case
    by (intro call_ok [where call = "\<lambda>d. snd (recordAiUsage u ro now d)"])
      (auto simp: good_env_def [of "\<lambda>d. snd (recordAiUsage u ro now d)"] record_usage_ok usage_leaves)
next
  case (settled R env runId envs enabled now)
  then show ?case
    by (intro call_ok [where call = "\<lambda>d. snd (settleAiRun enabled runId now envs d)"])
      (auto simp: good_env_def [of "\<lambda>d. snd (settleAiRun enabled runId now envs d)"] intro!: settle_ok settle_leaves)
next
  case (released R env q envs enabled now)
  then show ?case
    by (intro call_ok [where call = "\<lambda>d. snd (releaseAiReservation enabled q now envs d)"])
      (auto simp: good_env_def [of "\<lambda>d. snd (releaseAiReservation enabled q now envs d)"] intro!: release_ok release_leaves)
next
  case (marked R env runId enabled reason)
  then show ?case
    by (intro call_ok [where call = "\<lambda>d. markAiReservationForReconciliation enabled runId reason d"])
      (auto simp: good_env_def [of "\<lambda>d. markAiReservationForReconciliation enabled runId reason d"] intro!: mark_ok mark_leaves)
qed (simp add: good_env_def leaves_run_def)

text \<open>
  One call of the service, during which other calls may commit: any calls while credits are reserved, calls for other runs
  while a run is settled or released, and calls for other runs than the expired ones during an expiry.
\<close>

inductive credit_step :: "db \<Rightarrow> db \<Rightarrow> bool" where
  reserve_step: "(\<And>env. env \<in> set envs \<Longrightarrow> others_commit {} env) \<Longrightarrow>
    credit_step d (snd (reserveAiCredits enabled p now envs d))"
| usage_step: "credit_step d (snd (recordAiUsage u ro now d))"
| settle_step: "(\<And>env. env \<in> set envs \<Longrightarrow> others_commit {runId} env) \<Longrightarrow>
    credit_step d (snd (settleAiRun enabled runId now envs d))"
| release_step: "(\<And>env. env \<in> set envs \<Longrightarrow> others_commit {lp_agentRunId q} env) \<Longrightarrow>
    credit_step d (snd (releaseAiReservation enabled q now envs d))"
| expire_step: "(\<And>env. env \<in> set envs \<Longrightarrow> others_commit (set (expired_rows now (opt_get n 100) d)) env) \<Longrightarrow>
    credit_step d (snd (releaseExpiredAiReservations enabled now n envs d))"
| mark_step: "credit_step d (markAiReservationForReconciliation enabled runId reason d)"

lemma credit_step_ok: "credit_step d d' \<Longrightarrow> db_ok d \<Longrightarrow> db_ok d'"
proof (induction rule: credit_step.induct)
  case (expire_step envs now n d enabled)
  then show ?case by (auto simp: releaseExpiredAiReservations_def dest: others_ok intro!: release_all_ok)
qed (auto dest!: others_ok intro: reserve_ok record_usage_ok settle_ok release_ok mark_ok)

definition no_reservations :: "db \<Rightarrow> bool" where
  "no_reservations d \<longleftrightarrow> distinct (map sub_id (db_subs d)) \<and> db_reservations d = [] \<and>
     list_all (\<lambda>s. sub_reserved s = 0 \<and> 0 \<le> sub_balance s) (db_subs d)"

lemma no_reservations_ok: "no_reservations d \<Longrightarrow> db_ok d"
  by (simp add: no_reservations_def db_ok_defs held_def)

text \<open>C3: From accounts without reservations, after any sequence of reservations, usage records, settlements,
  releases, expiries and reconciliation marks, the reserved credits of every subscription are exactly the sum of its open
  reservations, and they never exceed its balance. Other calls of the service may commit between the read and the write
  of a call, in any order and number; the exception is a call for the very run that is being settled, released or
  expired, with which the sum can be lost (see \<open>release_lost_update\<close>).\<close>

theorem credit_invariant:
  assumes "no_reservations d0" "credit_step\<^sup>*\<^sup>* d0 d" "s \<in> set (db_subs d)"
  shows "sub_reserved s = sum_list (map cr_reserved (filter (\<lambda>r. cr_subscriptionId r = sub_id s
             \<and> cr_status r \<in> {CR_ACTIVE, CR_RECONCILIATION_REQUIRED}) (db_reservations d)))
         \<and> 0 \<le> sub_reserved s \<and> sub_reserved s \<le> sub_balance s"
proof -
  from assms(2) have "db_ok d"
    by (induction rule: rtranclp_induct) (use assms(1) no_reservations_ok credit_step_ok in blast)+
  then have ok: "sub_ok d s" using assms(3) by (rule db_okD(3))
  have "held_by sid r = (if cr_subscriptionId r = sid \<and> cr_status r \<in> {CR_ACTIVE, CR_RECONCILIATION_REQUIRED}
      then cr_reserved r else 0)" for sid r
    by (cases "cr_status r") (simp_all add: held_by_def)
  then have m: "map (held_by (sub_id s)) (db_reservations d) = map (\<lambda>r. if cr_subscriptionId r = sub_id s
      \<and> cr_status r \<in> {CR_ACTIVE, CR_RECONCILIATION_REQUIRED} then cr_reserved r else 0) (db_reservations d)"
    by (intro map_cong refl)
  show ?thesis using ok unfolding sub_ok_def held_def m sum_list_map_filter' .
qed

definition sample_subscription :: subscription where
  "sample_subscription = \<lparr> sub_id = ''s1'', sub_userId = ''u1'', sub_balance = 100, sub_reserved = 0,
     sub_usedLifetime = 0, sub_maxRun = None, sub_daily = None, sub_monthly = Some 90 \<rparr>"

definition sample_run :: "string \<Rightarrow> agent_run" where
  "sample_run i = \<lparr> run_id = i, run_userId = ''u1'', run_completedAt = None, run_reserved = 0, run_charged = 0,
     run_providerCost = 0, run_retailCost = 0, run_modelCallCount = 0, run_model = None \<rparr>"

definition sample_usage_row :: "usage_status \<Rightarrow> usage_record" where
  "sample_usage_row st = \<lparr> ur_id = ''x1'', ur_agentRunId = ''r1'', ur_callIndex = 0, ur_model = ''m'', ur_modelClass = ''c'',
     ur_responseId = None, ur_requestId = None,
     ur_tokens = \<lparr> tu_inputTokens = 10, tu_cachedInputTokens = 0, tu_cacheWriteTokens = 0, tu_outputTokens = 5,
       tu_reasoningTokens = 0 \<rparr>,
     ur_providerCost = 4000, ur_retailCost = 4500, ur_pricingRevisionId = ''p'', ur_pricingSnapshot = [],
     ur_status = st, ur_errorCode = None, ur_latencyMs = None \<rparr>"

definition sample_db :: "usage_status \<Rightarrow> db" where
  "sample_db st = \<lparr> db_subs = [sample_subscription], db_reservations = [], db_ledger = [],
     db_runs = [sample_run ''r1'', sample_run ''r2''], db_usage = [sample_usage_row st], db_pricing = [] \<rparr>"

definition sample_reserve :: "string \<Rightarrow> int \<Rightarrow> reserve_params" where
  "sample_reserve i n = \<lparr> rp_userId = ''u1'', rp_agentRunId = i, rp_credits = n, rp_key = ''k'' @ i, rp_ttlMs = None,
     rp_newSubId = ''s2'', rp_newReservationId = ''c'' @ i \<rparr>"

definition sample_reserved_db :: "usage_status \<Rightarrow> int \<Rightarrow> db" where
  "sample_reserved_db st n = snd (reserveAiCredits True (sample_reserve ''r1'' n) 0 [id] (sample_db st))"

lemma good_id: "good_env id \<and> leaves_run runId id"
  by (simp add: good_env_def leaves_run_def)

text \<open>While \<open>r1\<close> is released, a reservation of five credits for \<open>r2\<close> commits.\<close>

definition sample_other :: "db \<Rightarrow> db" where
  "sample_other d = snd (reserveAiCredits True (sample_reserve ''r2'' 5) 0 [id] d)"

definition sample_released_db :: db where
  "sample_released_db = snd (releaseAiReservation True \<lparr> lp_agentRunId = ''r1'', lp_reason = ''cancelled'', lp_final = None \<rparr> 0
     [sample_other, id] (sample_reserved_db US_COMPLETED 8))"

theorem credit_invariant_witness:
  "\<exists>s\<in>set (db_subs sample_released_db). sub_reserved s = 5 \<and> sub_reserved s \<le> sub_balance s \<and>
     sub_reserved s = sum_list (map cr_reserved (filter (\<lambda>r. cr_subscriptionId r = sub_id s
             \<and> cr_status r \<in> {CR_ACTIVE, CR_RECONCILIATION_REQUIRED}) (db_reservations sample_released_db)))"
proof -
  let ?d = "sample_reserved_db US_COMPLETED 8" and ?s = "sample_subscription\<lparr> sub_reserved := 5 \<rparr>"
  have "no_reservations (sample_db US_COMPLETED)" by code_simp
  moreover have "credit_step (sample_db US_COMPLETED) ?d"
    unfolding sample_reserved_db_def by (rule reserve_step) (auto simp: others_commit.nothing)
  moreover have "others_commit {''r1''} (\<lambda>d. snd (reserveAiCredits True (sample_reserve ''r2'' 5) 0 [id] (id d)))"
    by (rule reserved [OF others_commit.nothing]) (simp_all add: others_commit.nothing sample_reserve_def)
  then have "others_commit {''r1''} sample_other" by (simp add: sample_other_def [abs_def])
  then have "credit_step ?d sample_released_db"
    unfolding sample_released_db_def by (intro release_step) (auto simp: others_commit.nothing)
  moreover have s: "?s \<in> set (db_subs sample_released_db)" by code_simp
  ultimately have "sub_reserved ?s = sum_list (map cr_reserved (filter (\<lambda>r. cr_subscriptionId r = sub_id ?s
      \<and> cr_status r \<in> {CR_ACTIVE, CR_RECONCILIATION_REQUIRED}) (db_reservations sample_released_db)))
      \<and> 0 \<le> sub_reserved ?s \<and> sub_reserved ?s \<le> sub_balance ?s"
    by (intro credit_invariant [of "sample_db US_COMPLETED"]) (blast intro: rtranclp.intros)+
  then show ?thesis using s by (intro bexI [of _ ?s]) simp_all
qed

text \<open>A reservation is idempotent: the same request, retried at any later time with whatever commits
  in between its attempts, returns the same reservation and changes nothing.\<close>

theorem reserve_idempotent:
  assumes "reserveAiCredits True p now envs d = (Inr (Some r), d')"
    and "rp_agentRunId q = rp_agentRunId p" "rp_credits q = rp_credits p" "rp_key q = rp_key p" "envs' \<noteq> []"
  shows "reserveAiCredits True q now' envs' d' = (Inr (Some r), d') \<and> cr_agentRunId r = rp_agentRunId p
    \<and> cr_reserved r = rp_credits p"
proof -
  have body: "find (\<lambda>x. cr_key x = rp_key p) (db_reservations d2) = Some r \<and> cr_agentRunId r = rp_agentRunId p
      \<and> cr_reserved r = rp_credits p" if "run_tx (reserve_body p now env d1) = (Inr (Some r), d2)" for env d1 d2
  proof (cases "find (\<lambda>x. cr_key x = rp_key p) (db_reservations d1)")
    case None
    note run = that
    obtain s d3 where c: "run_tx (reserve_claim p now s d3) = (Inr (Some r), d2)"
    proof (cases "upsert_sub p d1")
      case (Inl e)
      then show ?thesis using run None by (simp add: reserve_body_def run_tx_def)
    next
      case (Inr t)
      then show ?thesis using run None that
        by (cases t; cases "reserve_guard d1 p now (fst t)") (auto simp: reserve_body_def run_tx_def)
    qed
    then obtain d4 where w: "reserve_writes p now s d4 = Inr d2" "r = new_reservation p now s"
      by (auto simp: reserve_claim_def run_tx_def Let_def split: sum.splits prod.splits if_splits)
    note W = reserve_writes_Inr [OF w(1)]
    have "find (\<lambda>x. cr_key x = rp_key p) (db_reservations d4 @ [r]) = Some r"
      using w(2) W by (intro find_snoc) (auto simp: new_reservation_def list_ex_iff)
    then show ?thesis using W w(2) by (simp add: new_reservation_def)
  next
    case (Some x)
    then show ?thesis using that by (auto simp: reserve_body_def run_tx_def split: if_splits)
  qed
  have loop: "reserve_loop p now es d1 = (Inr r, d2) \<Longrightarrow> \<exists>env d3. run_tx (reserve_body p now env d3) = (Inr (Some r), d2)" for es d1 d2
  proof (induction es arbitrary: d1)
    case (Cons e es)
    show ?case using Cons.prems Cons.IH by (auto split: prod.splits sum.splits option.splits ai_error.splits if_splits)
  qed simp
  from assms(1) have pos: "0 < rp_credits p" and "reserve_loop p now (take MAX_CAS_ATTEMPTS envs) d = (Inr r, d')"
    by (auto simp: reserveAiCredits_def split: if_splits prod.splits sum.splits)
  then have F: "find (\<lambda>x. cr_key x = rp_key p) (db_reservations d') = Some r" "cr_agentRunId r = rp_agentRunId p"
    "cr_reserved r = rp_credits p" using loop body by blast+
  obtain e es where E: "envs' = e # es" using assms(5) by (cases envs') auto
  have "run_tx (reserve_body q now' e d') = (Inr (Some r), d')"
    using F assms(2-4) by (simp add: reserve_body_def run_tx_def)
  then show ?thesis
    using pos F assms(3) E by (simp add: reserveAiCredits_def MAX_CAS_ATTEMPTS_def)
qed

theorem reserve_idempotent_witness:
  "\<exists>r. reserveAiCredits True (sample_reserve ''r1'' 8) 7 [id] (sample_reserved_db US_COMPLETED 8)
     = (Inr (Some r), sample_reserved_db US_COMPLETED 8)"
proof -
  let ?r = "new_reservation (sample_reserve ''r1'' 8) 0 sample_subscription"
  have "reserveAiCredits True (sample_reserve ''r1'' 8) 0 [id] (sample_db US_COMPLETED) = (Inr (Some ?r), sample_reserved_db US_COMPLETED 8)"
    unfolding sample_reserved_db_def by code_simp
  from reserve_idempotent [OF this refl refl refl, of "[id]"] show ?thesis by blast
qed

section \<open>Settlement\<close>

lemma cas_hit:
  assumes "distinct (map sub_id (db_subs d))" "s \<in> set (db_subs d)" "sub_id s = sid" "cond s"
  shows "cas_sub sid cond f d = (Suc 0, d\<lparr> db_subs := upd_where (\<lambda>x. sub_id x = sid) f (db_subs d) \<rparr>)"
proof -
  let ?l = "filter (\<lambda>s. sub_id s = sid \<and> cond s) (db_subs d)"
  have eq: "(sub_id x = sid \<and> cond x) = (sub_id x = sid)" if "x \<in> set (db_subs d)" for x
    using that assms by (auto simp: distinct_map dest: inj_onD)
  have "distinct (map sub_id ?l)" using assms(1) by (simp add: distinct_map_filter)
  then have "card (set (map sub_id ?l)) = length ?l" using distinct_card by fastforce
  moreover have "set (map sub_id ?l) = {sid}" using assms(2-4) by auto
  ultimately have "length ?l = Suc 0" by simp
  moreover have "upd_where (\<lambda>s. sub_id s = sid \<and> cond s) f (db_subs d) = upd_where (\<lambda>x. sub_id x = sid) f (db_subs d)"
    unfolding upd_where_def by (rule map_cong) (simp_all only: eq)
  ultimately show ?thesis by (simp add: cas_sub_def)
qed

lemma find_sub_upd:
  "(\<And>s. sub_id (f s) = sub_id s) \<Longrightarrow> find_sub sid d = Some s \<Longrightarrow>
    db_subs d' = upd_where (\<lambda>x. sub_id x = sid) f (db_subs d) \<Longrightarrow> find_sub sid d' = Some (f s)"
  using find_Some [of "\<lambda>x. sub_id x = sid" "db_subs d" s] by (simp add: find_sub_def find_upd_where)

lemma flag_throws: "\<exists>e'. run_tx (flag_and_throw r m e d :: 'a tx) = (Inl e', d)"
  by (cases "update_reservation (cr_id r) (to_reconciliation m) d") (auto simp: flag_and_throw_def run_tx_def)

text \<open>What a successful settlement of an active reservation did.\<close>

lemma settle_success:
  assumes ok: "db_ok d" and r: "find_run_reservation runId d = Some r" "cr_status r = CR_ACTIVE"
    and run: "settleAiRun True runId now (id # envs) d = (Inr (Some x), d')"
  obtains s costs where "costs = aggregateRunCosts d runId" "rc_unresolved costs = 0"
    "creditsForRetailMicrousd (rc_retail costs) (if rc_retail costs > 0 then 1 else 0) = Inr (st_chargedCredits x)"
    "st_chargedCredits x \<le> cr_reserved r" "find_sub (cr_subscriptionId r) d = Some s"
    "st_remainingBalance x = sub_balance s - st_chargedCredits x"
    "find_sub (cr_subscriptionId r) d' = Some (s\<lparr> sub_balance := sub_balance s - st_chargedCredits x,
       sub_reserved := sub_reserved s - cr_reserved r, sub_usedLifetime := sub_usedLifetime s + st_chargedCredits x \<rparr>)"
    "find_run_reservation runId d' = Some (settled_row now (st_chargedCredits x) r)"
proof -
  let ?costs = "aggregateRunCosts d runId"
  have body: "run_tx (settle_body runId now id d) = (Inr (Some x), d') \<or>
      (\<exists>d1. run_tx (settle_body runId now id d) = (Inr None, d1))"
    using run by (auto simp: settleAiRun_def MAX_CAS_ATTEMPTS_def split: sum.splits option.splits prod.splits)
  have never: "run_tx (settle_body runId now id d) \<noteq> (Inl e, d1)" for e d1 using body by auto
  have u: "rc_unresolved ?costs = 0"
  proof (rule ccontr)
    assume "rc_unresolved ?costs \<noteq> 0"
    then have "settle_body runId now id d = flag_and_throw r ''usage_unresolved'' (CreditError ''ai_usage_settlement_failed'' 503) d"
      using r by (simp add: settle_body_def Let_def)
    then show False using never flag_throws by metis
  qed
  obtain charged where c: "creditsForRetailMicrousd (rc_retail ?costs) (if rc_retail ?costs > 0 then 1 else 0) = Inr charged"
    using body r u by (auto simp: settle_body_def Let_def run_tx_def lift_pricing_def split: sum.splits)
  have le: "charged \<le> cr_reserved r"
  proof (rule ccontr)
    assume "\<not> charged \<le> cr_reserved r"
    then have "settle_body runId now id d = flag_and_throw r ''reservation_exceeded'' (CreditError ''ai_run_limit_exceeded'' 503) d"
      using r u c by (simp add: settle_body_def Let_def lift_pricing_def)
    then show False using never flag_throws by metis
  qed
  have B: "settle_body runId now id d = settle_claim r runId now ?costs charged id d"
    using r u c le by (simp add: settle_body_def Let_def lift_pricing_def)
  obtain s where s: "find_sub (cr_subscriptionId r) d = Some s" "\<not> sub_balance s < charged" "\<not> sub_reserved s < cr_reserved r"
    using body unfolding B by (auto simp: settle_claim_def run_tx_def split: option.splits if_splits)
  have sid: "s \<in> set (db_subs d)" "sub_id s = cr_subscriptionId r"
    using find_Some [OF s(1) [unfolded find_sub_def]] by simp_all
  let ?f = "\<lambda>x. x\<lparr> sub_balance := sub_balance s - charged, sub_reserved := sub_reserved s - cr_reserved r,
                  sub_usedLifetime := sub_usedLifetime x + charged \<rparr>"
  let ?d1 = "d\<lparr> db_subs := upd_where (\<lambda>x. sub_id x = sub_id s) ?f (db_subs d) \<rparr>"
  have cas: "cas_sub (sub_id s) (\<lambda>x. sub_balance x = sub_balance s \<and> sub_reserved x = sub_reserved s) ?f d = (Suc 0, ?d1)"
    by (rule cas_hit [OF db_okD(1) [OF ok] sid(1)]) simp_all
  have w: "settle_writes r s runId now charged ?costs ?d1 = Inr d'" "x = \<lparr> st_chargedCredits = charged, st_remainingBalance = sub_balance s - charged \<rparr>"
    using body s cas unfolding B by (auto simp: settle_claim_def run_tx_def split: sum.splits)
  note W = settle_writes_Inr [OF w(1)]
  have "db_subs d' = upd_where (\<lambda>x. sub_id x = cr_subscriptionId r) ?f (db_subs d)" using W sid(2) by simp
  then have S: "find_sub (cr_subscriptionId r) d' = Some (?f s)" by (intro find_sub_upd [OF _ s(1)]) simp_all
  have "find_run_reservation runId d' = Some (settled_row now charged r)"
    using W r(1) unfolding find_run_reservation_def by (simp add: find_upd_where settled_row_def)
  then show thesis using that [OF refl u _ _ s(1)] c le S w(2) by simp
qed

lemma credits_cover:
  assumes "creditsForRetailMicrousd v (if v > 0 then 1 else 0) = Inr k"
  shows "(v \<le> 0 \<longrightarrow> k = 0) \<and> (0 < v \<longrightarrow> v \<le> k * 1000 \<and> (k - 1) * 1000 < v)"
proof (cases "v \<le> 0")
  case False
  then obtain q where "priceCeilDiv v 1000 = Inr q" "is_ceil v 1000 q" using price_ceil [of v 1000] by auto
  then show ?thesis using assms False
    by (auto simp: creditsForRetailMicrousd_def bind_sum_def MICROUSD_PER_CREDIT_def is_ceil_def split: if_splits)
qed (use assms in \<open>simp add: creditsForRetailMicrousd_def\<close>)

text \<open>C10: Settling a run charges the least number of credits that covers its retail cost and never more
  than was reserved; the subscription's balance falls by exactly that, its lifetime use rises by it,
  and the whole reservation is given back. Settling again returns the same and changes nothing.\<close>

theorem settle_exact:
  assumes "db_ok d" "find_run_reservation runId d = Some r" "cr_status r = CR_ACTIVE"
    and "settleAiRun True runId now (id # envs) d = (Inr (Some x), d')"
    and "v = sum_list (map ur_retailCost (filter (\<lambda>u. ur_agentRunId u = runId) (db_usage d)))" "envs' \<noteq> []"
  shows "(v \<le> 0 \<longrightarrow> st_chargedCredits x = 0) \<and>
    (0 < v \<longrightarrow> v \<le> st_chargedCredits x * 1000 \<and> (st_chargedCredits x - 1) * 1000 < v) \<and>
    st_chargedCredits x \<le> cr_reserved r \<and>
    (\<exists>s s'. find_sub (cr_subscriptionId r) d = Some s \<and> find_sub (cr_subscriptionId r) d' = Some s' \<and>
      sub_balance s' = sub_balance s - st_chargedCredits x \<and> sub_reserved s' = sub_reserved s - cr_reserved r \<and>
      sub_usedLifetime s' = sub_usedLifetime s + st_chargedCredits x \<and> st_remainingBalance x = sub_balance s') \<and>
    settleAiRun True runId now' envs' d' = (Inr (Some x), d')"
proof -
  obtain s costs where S: "costs = aggregateRunCosts d runId" "rc_unresolved costs = 0"
    "creditsForRetailMicrousd (rc_retail costs) (if rc_retail costs > 0 then 1 else 0) = Inr (st_chargedCredits x)"
    "st_chargedCredits x \<le> cr_reserved r" "find_sub (cr_subscriptionId r) d = Some s"
    "st_remainingBalance x = sub_balance s - st_chargedCredits x"
    "find_sub (cr_subscriptionId r) d' = Some (s\<lparr> sub_balance := sub_balance s - st_chargedCredits x,
       sub_reserved := sub_reserved s - cr_reserved r, sub_usedLifetime := sub_usedLifetime s + st_chargedCredits x \<rparr>)"
    "find_run_reservation runId d' = Some (settled_row now (st_chargedCredits x) r)"
    using settle_success [OF assms(1-4)] .
  have v: "rc_retail costs = v" using assms(5) S(1) by (simp add: aggregateRunCosts_def Let_def)
  obtain e es where e: "envs' = e # es" using assms(6) by (cases envs') auto
  have "run_tx (settle_body runId now' e d') = (Inr (Some x), d')"
    using S(6-8) by (simp add: settle_body_def run_tx_def settled_row_def)
  then have "settleAiRun True runId now' envs' d' = (Inr (Some x), d')"
    using e by (simp add: settleAiRun_def MAX_CAS_ATTEMPTS_def)
  then show ?thesis using S credits_cover [OF S(3)] unfolding v by auto
qed

theorem settle_exact_witness:
  "\<exists>x d'. settleAiRun True ''r1'' 5 [id] (sample_reserved_db US_COMPLETED 8) = (Inr (Some x), d') \<and>
     4500 \<le> st_chargedCredits x * 1000 \<and> (st_chargedCredits x - 1) * 1000 < 4500 \<and>
     settleAiRun True ''r1'' 9 [id] d' = (Inr (Some x), d')"
proof -
  let ?d = "sample_reserved_db US_COMPLETED 8" and ?x = "\<lparr> st_chargedCredits = 5, st_remainingBalance = 95 \<rparr>"
  let ?r = "new_reservation (sample_reserve ''r1'' 8) 0 sample_subscription"
  have "db_ok ?d" unfolding sample_reserved_db_def
    by (rule reserve_ok) (use no_reservations_ok [of "sample_db US_COMPLETED"] in \<open>code_simp, simp add: good_id\<close>)
  moreover have "find_run_reservation ''r1'' ?d = Some ?r" "cr_status ?r = CR_ACTIVE" by code_simp+
  moreover have "fst (settleAiRun True ''r1'' 5 [id] ?d) = Inr (Some ?x)" by code_simp
  then have "settleAiRun True ''r1'' 5 [id] ?d = (Inr (Some ?x), snd (settleAiRun True ''r1'' 5 [id] ?d))"
    by (metis prod.collapse)
  moreover have "4500 = sum_list (map ur_retailCost (filter (\<lambda>u. ur_agentRunId u = ''r1'') (db_usage ?d)))" by code_simp
  ultimately show ?thesis using settle_exact [of ?d "''r1''" ?r 5 "[]" ?x _ 4500 "[id]" 9] by fastforce
qed

text \<open>C33: A run with usage that is still to be reconciled, or whose cost exceeds its reservation, is not
  settled: the call fails and leaves the database as it was. The reservation stays active, for the
  mark written in the transaction is rolled back by the error that follows it.\<close>

theorem settle_failure_unchanged:
  assumes "find_run_reservation runId d = Some r" "cr_status r = CR_ACTIVE"
    and "0 < rc_unresolved (aggregateRunCosts d runId) \<or> cr_reserved r * 1000 < rc_retail (aggregateRunCosts d runId)"
    and "0 \<le> cr_reserved r"
  shows "\<exists>e. settleAiRun True runId now (env # envs) d = (Inl e, d)"
proof -
  let ?costs = "aggregateRunCosts d runId"
  have "\<exists>e. run_tx (settle_body runId now env d) = (Inl e, d)"
  proof (cases "0 < rc_unresolved ?costs")
    case True
    then have "settle_body runId now env d = flag_and_throw r ''usage_unresolved'' (CreditError ''ai_usage_settlement_failed'' 503) d"
      using assms(1,2) by (simp add: settle_body_def Let_def)
    then show ?thesis using flag_throws by metis
  next
    case False
    then have big: "cr_reserved r * 1000 < rc_retail ?costs" using assms(3) by simp
    show ?thesis
    proof (cases "creditsForRetailMicrousd (rc_retail ?costs) (if rc_retail ?costs > 0 then 1 else 0)")
      case (Inl e)
      then show ?thesis using False assms(1,2) by (simp add: settle_body_def Let_def lift_pricing_def run_tx_def)
    next
      case (Inr k)
      then have "cr_reserved r < k" using credits_cover [OF Inr] big assms(4) by simp
      then have "settle_body runId now env d = flag_and_throw r ''reservation_exceeded'' (CreditError ''ai_run_limit_exceeded'' 503) d"
        using False Inr assms(1,2) by (simp add: settle_body_def Let_def lift_pricing_def)
      then show ?thesis using flag_throws by metis
    qed
  qed
  then show ?thesis by (auto simp: settleAiRun_def MAX_CAS_ATTEMPTS_def)
qed

theorem settle_failure_unchanged_witness:
  "\<exists>e. settleAiRun True ''r1'' 5 [id] (sample_reserved_db US_RECONCILIATION_REQUIRED 8)
     = (Inl e, sample_reserved_db US_RECONCILIATION_REQUIRED 8)"
proof -
  let ?d = "sample_reserved_db US_RECONCILIATION_REQUIRED 8"
  let ?r = "new_reservation (sample_reserve ''r1'' 8) 0 sample_subscription"
  have "find_run_reservation ''r1'' ?d = Some ?r" "cr_status ?r = CR_ACTIVE" by code_simp+
  moreover have "0 < rc_unresolved (aggregateRunCosts ?d ''r1'')" by code_simp
  moreover have "0 \<le> cr_reserved ?r" by code_simp
  ultimately show ?thesis using settle_failure_unchanged by blast
qed

section \<open>A lost update\<close>

definition race_db :: db where
  "race_db = sample_reserved_db US_COMPLETED 5"

text \<open>While \<open>r1\<close> is being released, it is settled at its full five credits and \<open>r2\<close> reserves five.\<close>

definition race_env :: "db \<Rightarrow> db" where
  "race_env d = snd (reserveAiCredits True (sample_reserve ''r2'' 5) 0 [id] (snd (settleAiRun True ''r1'' 0 [id] d)))"

text \<open>The release compares only the reserved amount. When, between its read and its update, the same
  run is settled at its full amount and another run of the user reserves as much, the update
  succeeds: the account, in order before and kept in order by the others, ends with an active
  reservation of five credits and none reserved.\<close>

theorem release_lost_update:
  "db_ok race_db \<and> good_env race_env \<and>
   (\<exists>d. releaseAiReservation True \<lparr> lp_agentRunId = ''r1'', lp_reason = ''cancelled'', lp_final = None \<rparr> 0 [race_env] race_db
        = (Inr (), d) \<and>
      map sub_reserved (db_subs d) = [0] \<and>
      map (\<lambda>r. (cr_agentRunId r, cr_status r, cr_reserved r)) (db_reservations d)
        = [(''r1'', CR_RELEASED, 5), (''r2'', CR_ACTIVE, 5)])"
proof (intro conjI)
  show "db_ok race_db" unfolding race_db_def sample_reserved_db_def
    by (rule reserve_ok) (use no_reservations_ok [of "sample_db US_COMPLETED"] in \<open>code_simp, simp add: good_id\<close>)
  show "good_env race_env"
    unfolding good_env_def race_env_def by (intro allI impI reserve_ok settle_ok) (simp_all add: good_id)
  let ?t = "releaseAiReservation True \<lparr> lp_agentRunId = ''r1'', lp_reason = ''cancelled'', lp_final = None \<rparr> 0 [race_env] race_db"
  have "fst ?t = Inr ()" "map sub_reserved (db_subs (snd ?t)) = [0]"
    "map (\<lambda>r. (cr_agentRunId r, cr_status r, cr_reserved r)) (db_reservations (snd ?t))
      = [(''r1'', CR_RELEASED, 5), (''r2'', CR_ACTIVE, 5)]" by code_simp+
  then show "\<exists>d. ?t = (Inr (), d) \<and> map sub_reserved (db_subs d) = [0] \<and>
      map (\<lambda>r. (cr_agentRunId r, cr_status r, cr_reserved r)) (db_reservations d)
        = [(''r1'', CR_RELEASED, 5), (''r2'', CR_ACTIVE, 5)]"
    by (intro exI [of _ "snd ?t"]) (simp add: prod_eq_iff)
qed

end
