(* ===== verification/CompositeGraph.thy ===== *)
theory CompositeGraph
  imports JsValue
begin

text \<open>
  The graph of a composite strategy (apps/api/src/composite-strategies/graph.ts): how stored nodes
  and edges are read, how a graph is validated, and the order its nodes run in.
\<close>

section \<open>Data\<close>

datatype node_kind = LocalNode | AiNode
datatype edge_rule = RuleAlways | RuleSignalNotNeutral | RuleConfidenceGte

record comp_node =
  cn_id :: string
  cn_kind :: node_kind
  cn_refId :: string
  cn_refVersion :: "string option"
  cn_configOverrides :: "jsobj option"
  cn_position :: "(jsnum option \<times> jsnum option) option"

record comp_edge =
  ce_from :: string
  ce_to :: string
  ce_rule :: "edge_rule option"
  ce_confidenceGte :: "jsnum option"

datatype combine_mode = Pipeline | Vote
datatype output_policy = FirstNonNeutral | OverrideByConfidence | LocalSignalAiExplain

record comp_graph =
  cg_nodes :: "comp_node list"
  cg_edges :: "comp_edge list"
  cg_combineMode :: combine_mode
  cg_outputPolicy :: output_policy

record graph_validation =
  gv_valid :: bool
  gv_errors :: "string list"
  gv_warnings :: "string list"
  gv_topologicalOrder :: "string list"

text \<open>What the resolver of references answers, or that it throws.\<close>

datatype ref_resolution = RefThrows | RefBool bool | RefInfo bool "string option"

fun kind_str :: "node_kind \<Rightarrow> string" where
  "kind_str LocalNode = ''local''"
| "kind_str AiNode = ''ai''"

fun rule_str :: "edge_rule \<Rightarrow> string" where
  "rule_str RuleAlways = ''always''"
| "rule_str RuleSignalNotNeutral = ''if_signal_not_neutral''"
| "rule_str RuleConfidenceGte = ''if_confidence_gte''"

definition MAX_NODES :: nat where "MAX_NODES = 30"
definition MAX_EDGES :: nat where "MAX_EDGES = 120"

section \<open>Reading a stored graph\<close>

definition finite_num :: "jsval \<Rightarrow> jsnum option" where
  "finite_num v = (if is_finite (js_number v) then Some (js_number v) else None)"

definition node_kind_of :: "jsval \<Rightarrow> node_kind option" where
  "node_kind_of v = (if v = JStr ''local'' then Some LocalNode else if v = JStr ''ai'' then Some AiNode else None)"

definition normalizeNode :: "jsval \<Rightarrow> comp_node option" where
  "normalizeNode value =
     (case as_object value of
        None \<Rightarrow> None
      | Some row \<Rightarrow>
          (let nid = trimmed (get row ''id'');
               refId = trimmed (get row ''refId'');
               refVersion = opt_or (nonempty (trimmed (get row ''refVersion''))) (nonempty (trimmed (get row ''version'')))
           in case node_kind_of (get row ''kind'') of
                None \<Rightarrow> None
              | Some k \<Rightarrow>
                  if nid = '''' \<or> refId = '''' then None
                  else Some \<lparr> cn_id = nid, cn_kind = k, cn_refId = refId, cn_refVersion = refVersion,
                              cn_configOverrides = as_object (get row ''configOverrides''),
                              cn_position = map_option (\<lambda>p. (finite_num (get p ''x''), finite_num (get p ''y'')))
                                              (as_object (get row ''position'')) \<rparr>))"

definition edge_rule_of :: "jsval \<Rightarrow> edge_rule" where
  "edge_rule_of v =
     (let raw = (case as_str v of Some s \<Rightarrow> str_trim s | None \<Rightarrow> ''always'')
      in if raw = ''if_signal_not_neutral'' then RuleSignalNotNeutral
         else if raw = ''if_confidence_gte'' then RuleConfidenceGte else RuleAlways)"

definition clamp100 :: "jsnum \<Rightarrow> jsnum" where
  "clamp100 c = n_max (Fin 0) (n_min (Fin 100) c)"

definition normalizeEdge :: "jsval \<Rightarrow> comp_edge option" where
  "normalizeEdge value =
     (case as_object value of
        None \<Rightarrow> None
      | Some row \<Rightarrow>
          (let src = trimmed (get row ''from''); dst = trimmed (get row ''to'')
           in if src = '''' \<or> dst = '''' then None
              else Some \<lparr> ce_from = src, ce_to = dst, ce_rule = Some (edge_rule_of (get row ''rule'')),
                          ce_confidenceGte = map_option clamp100 (finite_num (get row ''confidenceGte'')) \<rparr>))"

definition combine_mode_of :: "jsval \<Rightarrow> combine_mode" where
  "combine_mode_of v = (if v = JStr ''vote'' then Vote else Pipeline)"

definition output_policy_of :: "jsval \<Rightarrow> output_policy" where
  "output_policy_of v =
     (let raw = (case as_str v of Some s \<Rightarrow> str_trim s | None \<Rightarrow> ''local_signal_ai_explain'')
      in if raw = ''first_non_neutral'' then FirstNonNeutral
         else if raw = ''override_by_confidence'' then OverrideByConfidence else LocalSignalAiExplain)"

definition normalizeCompositeGraph :: "jsval \<Rightarrow> jsval \<Rightarrow> jsval \<Rightarrow> jsval \<Rightarrow> comp_graph" where
  "normalizeCompositeGraph nodesJson edgesJson combineMode outputPolicy =
     \<lparr> cg_nodes = List.map_filter normalizeNode (opt_get (as_array nodesJson) []),
       cg_edges = List.map_filter normalizeEdge (opt_get (as_array edgesJson) []),
       cg_combineMode = combine_mode_of combineMode,
       cg_outputPolicy = output_policy_of outputPolicy \<rparr>"

section \<open>The order of the nodes\<close>

text \<open>The keys of a map in the order of their first insertion.\<close>

fun uniq_onto :: "string list \<Rightarrow> string list \<Rightarrow> string list" where
  "uniq_onto acc [] = acc"
| "uniq_onto acc (x # xs) = uniq_onto (if x \<in> set acc then acc else acc @ [x]) xs"

definition node_ids :: "comp_node list \<Rightarrow> string list" where
  "node_ids nodes = uniq_onto [] (map cn_id nodes)"

text \<open>The maps of in-degrees and successors; an edge with an unknown end is skipped.\<close>

fun add_edges ::
  "string list \<Rightarrow> comp_edge list \<Rightarrow> (string \<Rightarrow> int) \<Rightarrow> (string \<Rightarrow> string list) \<Rightarrow> (string \<Rightarrow> int) \<times> (string \<Rightarrow> string list)" where
  "add_edges ids [] deg adj = (deg, adj)"
| "add_edges ids (e # es) deg adj =
     (if ce_from e \<notin> set ids \<or> ce_to e \<notin> set ids then add_edges ids es deg adj
      else add_edges ids es (deg(ce_to e := deg (ce_to e) + 1)) (adj(ce_from e := adj (ce_from e) @ [ce_to e])))"

fun relax :: "string list \<Rightarrow> (string \<Rightarrow> int) \<Rightarrow> string list \<Rightarrow> (string \<Rightarrow> int) \<times> string list" where
  "relax [] deg queue = (deg, queue)"
| "relax (v # vs) deg queue =
     (let updated = deg v - 1
      in relax vs (deg(v := updated)) (if updated = 0 then queue @ [v] else queue))"

text \<open>The loop over the queue; \<open>None\<close> when it has not ended after the given number of turns.\<close>

fun topo_loop ::
  "nat \<Rightarrow> (string \<Rightarrow> string list) \<Rightarrow> (string \<Rightarrow> int) \<Rightarrow> string list \<Rightarrow> string list \<Rightarrow> string list option" where
  "topo_loop fuel adj deg [] order = Some order"
| "topo_loop 0 adj deg (x # queue) order = None"
| "topo_loop (Suc fuel) adj deg (x # queue) order =
     (case relax (adj x) deg queue of (deg', queue') \<Rightarrow> topo_loop fuel adj deg' queue' (order @ [x]))"

definition topologicalSort :: "comp_node list \<Rightarrow> comp_edge list \<Rightarrow> (string list \<times> bool) option" where
  "topologicalSort nodes edges =
     (let ids = node_ids nodes;
          (deg, adj) = add_edges ids edges (\<lambda>_. 0) (\<lambda>_. [])
      in map_option (\<lambda>order. (order, length order \<noteq> length nodes))
           (topo_loop (length ids) adj deg (filter (\<lambda>i. deg i = 0) ids) []))"

section \<open>Validation\<close>

fun duplicate_errors :: "string list \<Rightarrow> comp_node list \<Rightarrow> string list" where
  "duplicate_errors seen [] = []"
| "duplicate_errors seen (n # ns) =
     (if cn_id n \<in> set seen then (''node_id_duplicate:'' @ cn_id n) # duplicate_errors seen ns
      else duplicate_errors (cn_id n # seen) ns)"

definition edge_errors :: "string list \<Rightarrow> comp_edge \<Rightarrow> string list" where
  "edge_errors ids e =
     (if ce_from e \<notin> set ids then [''edge_from_missing:'' @ ce_from e] else []) @
     (if ce_to e \<notin> set ids then [''edge_to_missing:'' @ ce_to e] else []) @
     (if ce_from e = ce_to e then [''edge_self_loop:'' @ ce_from e] else []) @
     (if ce_rule e = Some RuleConfidenceGte \<and> (case ce_confidenceGte e of None \<Rightarrow> True | Some c \<Rightarrow> \<not> is_finite c)
      then [''edge_confidence_threshold_missing:'' @ ce_from e @ ''->'' @ ce_to e] else [])"

definition edge_key :: "comp_edge \<Rightarrow> string" where
  "edge_key e = ce_from e @ ''->'' @ ce_to e @ '':'' @ rule_str (opt_get (ce_rule e) RuleAlways)"

fun duplicate_warnings :: "string list \<Rightarrow> comp_edge list \<Rightarrow> string list" where
  "duplicate_warnings seen [] = []"
| "duplicate_warnings seen (e # es) =
     (if edge_key e \<in> set seen then [''edge_duplicate:'' @ edge_key e] else []) @
     duplicate_warnings (edge_key e # seen) es"

definition ref_error :: "string \<Rightarrow> comp_node \<Rightarrow> string" where
  "ref_error c n = c @ '':'' @ kind_str (cn_kind n) @ '':'' @ cn_refId n"

definition resolve_errors :: "(comp_node \<Rightarrow> ref_resolution) \<Rightarrow> comp_node \<Rightarrow> string list" where
  "resolve_errors resolveRef n =
     (case resolveRef n of
        RefThrows \<Rightarrow> [ref_error ''node_ref_validation_failed'' n]
      | r \<Rightarrow>
          (let present = (case r of RefBool b \<Rightarrow> b | RefInfo b _ \<Rightarrow> b | RefThrows \<Rightarrow> False);
               resolved = (case r of RefInfo _ (Some v) \<Rightarrow> nonempty (str_trim v) | _ \<Rightarrow> None)
           in if \<not> present then [ref_error ''node_ref_not_found'' n]
              else if cn_kind n = LocalNode \<and> resolved = None then [ref_error ''node_ref_version_missing'' n]
              else case (cn_refVersion n, resolved) of
                     (Some want, Some actual) \<Rightarrow>
                       if want \<noteq> '''' \<and> want \<noteq> actual
                       then [ref_error ''node_ref_version_mismatch'' n @ '':expected='' @ want @ '':actual='' @ actual] else []
                   | _ \<Rightarrow> []))"

definition validateCompositeGraph ::
  "comp_graph \<Rightarrow> (comp_node \<Rightarrow> ref_resolution) option \<Rightarrow> graph_validation option" where
  "validateCompositeGraph graph resolveRef =
     (let ns = cg_nodes graph; es = cg_edges graph
      in map_option (\<lambda>(order, hasCycle).
           let errors =
                 (if ns = [] then [''graph_nodes_empty''] else []) @
                 (if MAX_NODES < length ns then [''graph_nodes_exceed_limit''] else []) @
                 (if MAX_EDGES < length es then [''graph_edges_exceed_limit''] else []) @
                 duplicate_errors [] ns @ concat (map (edge_errors (node_ids ns)) es) @
                 (case resolveRef of None \<Rightarrow> [] | Some f \<Rightarrow> concat (map (resolve_errors f) ns)) @
                 (if hasCycle then [''graph_cycle_detected''] else []);
               warnings =
                 (if \<not> list_ex (\<lambda>n. cn_kind n = LocalNode) ns then [''graph_no_local_nodes''] else []) @
                 (if \<not> list_ex (\<lambda>n. cn_kind n = AiNode) ns then [''graph_no_ai_nodes''] else []) @
                 duplicate_warnings [] es
           in \<lparr> gv_valid = (errors = []), gv_errors = errors, gv_warnings = warnings, gv_topologicalOrder = order \<rparr>)
         (topologicalSort ns es))"

section \<open>Removing nodes in the order of their dependencies\<close>

definition targets :: "(string \<times> string) list \<Rightarrow> string \<Rightarrow> string list" where
  "targets E u = map snd (filter (\<lambda>p. fst p = u) E)"

definition open_in :: "(string \<times> string) list \<Rightarrow> string set \<Rightarrow> string \<Rightarrow> int" where
  "open_in E D v = int (length (filter (\<lambda>p. snd p = v \<and> fst p \<notin> D) E))"

lemma open_in_nonneg [simp]: "0 \<le> open_in E D v"
  by (simp add: open_in_def)

lemma open_in_zero: "open_in E D v = 0 \<longleftrightarrow> (\<forall>u. (u, v) \<in> set E \<longrightarrow> u \<in> D)"
  by (auto simp: open_in_def filter_empty_conv)

lemma open_in_insert: "x \<notin> D \<Longrightarrow> open_in E (insert x D) v = open_in E D v - int (count_list (targets E x) v)"
  by (induction E) (auto simp: open_in_def targets_def)

lemma relax_spec:
  "relax vs deg queue = (deg', queue') \<Longrightarrow>
    (\<forall>v. deg' v = deg v - int (count_list vs v)) \<and>
    (\<exists>news. queue' = queue @ news \<and> distinct news \<and> set news = {v. 0 < deg v \<and> deg v \<le> int (count_list vs v)})"
proof (induction vs arbitrary: deg queue)
  case (Cons x vs)
  let ?deg = "deg(x := deg x - 1)" and ?q = "if deg x - 1 = 0 then queue @ [x] else queue"
  from Cons.prems have "relax vs ?deg ?q = (deg', queue')" by (simp add: Let_def)
  from Cons.IH [OF this] obtain news where N: "\<forall>v. deg' v = ?deg v - int (count_list vs v)"
    "queue' = ?q @ news" "distinct news" "set news = {v. 0 < ?deg v \<and> ?deg v \<le> int (count_list vs v)}" by blast
  let ?n = "if deg x - 1 = 0 then x # news else news"
  have "set ?n = {v. 0 < deg v \<and> deg v \<le> int (count_list (x # vs) v)}"
  proof (rule set_eqI)
    fix v
    show "v \<in> set ?n \<longleftrightarrow> v \<in> {v. 0 < deg v \<and> deg v \<le> int (count_list (x # vs) v)}"
      using N(4) by (cases "v = x") auto
  qed
  moreover have "distinct ?n" "queue' = queue @ ?n" using N by auto
  ultimately show ?case using N(1) by auto
qed simp

text \<open>A graph on listed nodes, and what the loop keeps of its queue, its order and its degrees.\<close>

locale node_graph =
  fixes ids :: "string list" and E :: "(string \<times> string) list"
  assumes ids_distinct: "distinct ids"
    and ends_listed: "(u, v) \<in> set E \<Longrightarrow> u \<in> set ids \<and> v \<in> set ids"
begin

definition loop_inv :: "(string \<Rightarrow> int) \<Rightarrow> string list \<Rightarrow> string list \<Rightarrow> bool" where
  "loop_inv deg queue order \<longleftrightarrow>
     distinct (order @ queue) \<and> set (order @ queue) \<subseteq> set ids \<and>
     (\<forall>v\<in>set ids. deg v = open_in E (set order) v \<and> (deg v = 0 \<longleftrightarrow> v \<in> set (order @ queue))) \<and>
     (\<forall>i<length order. \<forall>u. (u, order ! i) \<in> set E \<longrightarrow> u \<in> set (take i order))"

lemma loop_inv_step:
  assumes I: "loop_inv deg (x # queue) order" and R: "relax (targets E x) deg queue = (deg', queue')"
  shows "loop_inv deg' queue' (order @ [x])"
proof -
  have x: "x \<notin> set order" "x \<in> set ids" "deg x = 0" using I by (auto simp: loop_inv_def)
  obtain news where N: "\<And>v. deg' v = deg v - int (count_list (targets E x) v)" "queue' = queue @ news"
    "distinct news" "set news = {v. 0 < deg v \<and> deg v \<le> int (count_list (targets E x) v)}"
    using relax_spec [OF R] by blast
  have D: "deg' v = open_in E (set (order @ [x])) v" if "v \<in> set ids" for v
    using N(1) [of v] open_in_insert [OF x(1)] I that by (simp add: loop_inv_def)
  have pos: "v \<in> set ids" if "v \<in> set news" for v
  proof -
    from that N(4) have "0 < count_list (targets E x) v" by auto
    then have "v \<in> set (targets E x)" using count_notin by fastforce
    then show ?thesis using ends_listed by (auto simp: targets_def)
  qed
  have Z: "deg' v = 0 \<longleftrightarrow> v \<in> set ((order @ [x]) @ queue')" if v: "v \<in> set ids" for v
  proof -
    have "0 \<le> deg' v" using D [OF v] by simp
    moreover have "0 \<le> deg v" "deg v = 0 \<longleftrightarrow> v \<in> set (order @ x # queue)" using I v by (auto simp: loop_inv_def)
    moreover have "v \<in> set news \<longleftrightarrow> 0 < deg v \<and> deg v \<le> int (count_list (targets E x) v)" using N(4) by simp
    ultimately show ?thesis unfolding N(2) N(1) by (cases "deg v = 0") auto
  qed
  have dis: "distinct ((order @ [x]) @ queue')"
  proof -
    have "v \<notin> set (order @ x # queue)" if "v \<in> set news" for v
      using that N(4) pos [OF that] I by (auto simp: loop_inv_def)
    then have "set (order @ x # queue) \<inter> set news = {}" by blast
    moreover have "distinct (order @ x # queue)" using I by (simp add: loop_inv_def)
    ultimately show ?thesis using N(3) unfolding N(2) by auto
  qed
  have pre: "\<forall>u. (u, (order @ [x]) ! i) \<in> set E \<longrightarrow> u \<in> set (take i (order @ [x]))" if "i < length (order @ [x])" for i
  proof (cases "i < length order")
    case True
    then show ?thesis using I by (simp add: loop_inv_def nth_append)
  next
    case False
    then have "i = length order" using that by simp
    moreover have "open_in E (set order) x = 0" using I x(2,3) by (simp add: loop_inv_def)
    ultimately show ?thesis by (simp add: open_in_zero nth_append)
  qed
  have "set ((order @ [x]) @ queue') \<subseteq> set ids" using I N(2) pos x(2) by (auto simp: loop_inv_def)
  then show ?thesis unfolding loop_inv_def using dis D Z pre by blast
qed

lemma loop_returns:
  "loop_inv deg queue order \<Longrightarrow> length ids \<le> fuel + length order \<Longrightarrow>
    \<exists>order' deg'. topo_loop fuel (targets E) deg queue order = Some order' \<and> loop_inv deg' [] order'"
proof (induction fuel "targets E" deg queue order rule: topo_loop.induct)
  case (2 deg x queue order)
  have "card (set (order @ x # queue)) \<le> card (set ids)" using 2(1) by (intro card_mono) (auto simp: loop_inv_def)
  then have "length (order @ x # queue) \<le> length ids"
    using 2(1) distinct_card [of "order @ x # queue"] distinct_card [OF ids_distinct] by (simp add: loop_inv_def)
  then show ?case using 2(2) by simp
next
  case (3 fuel deg x queue order)
  obtain deg' queue' where R: "relax (targets E x) deg queue = (deg', queue')" by fastforce
  show ?case using 3(1) [OF R [symmetric]] loop_inv_step [OF 3(2) R] 3(3) R by simp
qed auto

lemma order_complete:
  assumes "loop_inv deg [] order"
  shows "length order = length ids \<longleftrightarrow> acyclic (set E)"
proof
  assume "length order = length ids"
  moreover have o: "distinct order" "set order \<subseteq> set ids" using assms by (auto simp: loop_inv_def)
  ultimately have all: "set order = set ids"
    using distinct_card [OF o(1)] distinct_card [OF ids_distinct] card_subset_eq [of "set ids" "set order"] by simp
  let ?pos = "\<lambda>v. THE i. i < length order \<and> order ! i = v"
  have pos: "?pos (order ! i) = i" if "i < length order" for i
    using that o(1) by (auto intro!: the_equality simp: nth_eq_iff_index_eq)
  have "(u, v) \<in> set E \<Longrightarrow> ?pos u < ?pos v" for u v
  proof -
    assume e: "(u, v) \<in> set E"
    then obtain i where i: "i < length order" "order ! i = v" using ends_listed all by (metis in_set_conv_nth)
    then have "u \<in> set (take i order)" using assms e by (auto simp: loop_inv_def)
    then obtain j where "j < i" "order ! j = u" "j < length order" by (auto simp: in_set_conv_nth)
    then show ?thesis using pos i by auto
  qed
  then have "set E \<subseteq> measure ?pos" by auto
  then show "acyclic (set E)" using wf_subset wf_acyclic by blast
next
  assume ac: "acyclic (set E)"
  have o: "distinct order" "set order \<subseteq> set ids" using assms by (auto simp: loop_inv_def)
  have "set ids - set order = {}"
  proof (rule ccontr)
    let ?Q = "set ids - set order"
    assume "?Q \<noteq> {}"
    moreover have wf: "wf (set E)" using ac by (simp add: finite_acyclic_wf)
    ultimately obtain v where v: "v \<in> ?Q" "\<And>u. (u, v) \<in> set E \<Longrightarrow> u \<notin> ?Q" using wfE_min' [OF wf, of ?Q] by blast
    then have "open_in E (set order) v = 0" using ends_listed by (auto simp: open_in_zero)
    then show False using assms v(1) by (auto simp: loop_inv_def)
  qed
  then have "set order = set ids" using o by blast
  then show "length order = length ids" using distinct_card [OF o(1)] distinct_card [OF ids_distinct] by simp
qed

end

section \<open>The graph of the code\<close>

definition known_edges :: "comp_node list \<Rightarrow> comp_edge list \<Rightarrow> (string \<times> string) list" where
  "known_edges nodes edges =
     map (\<lambda>e. (ce_from e, ce_to e))
       (filter (\<lambda>e. ce_from e \<in> cn_id ` set nodes \<and> ce_to e \<in> cn_id ` set nodes) edges)"

lemma uniq_onto_set: "set (uniq_onto acc xs) = set acc \<union> set xs"
  by (induction xs arbitrary: acc) auto

lemma uniq_onto_distinct: "distinct acc \<Longrightarrow> distinct (uniq_onto acc xs)"
  by (induction xs arbitrary: acc) auto

lemma node_ids_set [simp]: "set (node_ids nodes) = cn_id ` set nodes"
  by (simp add: node_ids_def uniq_onto_set)

lemma node_ids_distinct [simp]: "distinct (node_ids nodes)"
  by (simp add: node_ids_def uniq_onto_distinct)

lemma node_ids_length: "length (node_ids nodes) = length nodes \<longleftrightarrow> distinct (map cn_id nodes)"
proof -
  have "length (node_ids nodes) = card (cn_id ` set nodes)" using distinct_card [OF node_ids_distinct] by simp
  then show ?thesis using card_distinct [of "map cn_id nodes"] distinct_card [of "map cn_id nodes"] by auto
qed

lemma add_edges_spec:
  "add_edges ids es deg adj = (deg', adj') \<Longrightarrow>
    E = map (\<lambda>e. (ce_from e, ce_to e)) (filter (\<lambda>e. ce_from e \<in> set ids \<and> ce_to e \<in> set ids) es) \<Longrightarrow>
    deg' v = deg v + open_in E {} v \<and> adj' u = adj u @ targets E u"
proof (induction es arbitrary: deg adj E)
  case (Cons e es)
  show ?case
  proof (cases "ce_from e \<in> set ids \<and> ce_to e \<in> set ids")
    case True
    let ?E = "map (\<lambda>e. (ce_from e, ce_to e)) (filter (\<lambda>e. ce_from e \<in> set ids \<and> ce_to e \<in> set ids) es)"
    from Cons.prems(1) True have
      "add_edges ids es (deg(ce_to e := deg (ce_to e) + 1)) (adj(ce_from e := adj (ce_from e) @ [ce_to e])) = (deg', adj')" by simp
    from Cons.IH [OF this refl] show ?thesis
      using True Cons.prems(2) by (simp add: open_in_def targets_def)
  next
    case False
    with Cons.prems have "add_edges ids es deg adj = (deg', adj')" by auto
    from Cons.IH [OF this refl] show ?thesis using False Cons.prems(2) by auto
  qed
qed (simp add: open_in_def targets_def)

interpretation topo: node_graph "node_ids nodes" "known_edges nodes edges" for nodes edges
  by unfold_locales (auto simp: known_edges_def)

lemma topologicalSort_spec:
  "\<exists>order deg. topologicalSort nodes edges = Some (order, length order \<noteq> length nodes) \<and>
    topo.loop_inv nodes edges deg [] order"
proof -
  let ?ids = "node_ids nodes" and ?E = "known_edges nodes edges"
  obtain deg adj where A: "add_edges ?ids edges (\<lambda>_. 0) (\<lambda>_. []) = (deg, adj)" by fastforce
  have E: "?E = map (\<lambda>e. (ce_from e, ce_to e)) (filter (\<lambda>e. ce_from e \<in> set ?ids \<and> ce_to e \<in> set ?ids) edges)"
    by (simp add: known_edges_def)
  have d: "deg = open_in ?E {}" and a: "adj = targets ?E"
    using add_edges_spec [OF A E] by auto
  have "topo.loop_inv nodes edges deg (filter (\<lambda>i. deg i = 0) ?ids) []"
    unfolding topo.loop_inv_def using d by auto
  from topo.loop_returns [OF this, of "length ?ids"] show ?thesis
    using A a by (auto simp: topologicalSort_def)
qed

text \<open>C15: The sort always returns. The order has no repetition, holds only nodes of the graph, and puts
  every node after all nodes it depends on; a cycle is reported exactly when two nodes share an
  identifier or the edges between known nodes form a cycle.\<close>

theorem topological_sort_correct:
  "\<exists>order hasCycle. topologicalSort nodes edges = Some (order, hasCycle) \<and>
     distinct order \<and> set order \<subseteq> cn_id ` set nodes \<and>
     (\<forall>i<length order. \<forall>e\<in>set edges. ce_to e = order ! i \<and> ce_from e \<in> cn_id ` set nodes \<longrightarrow> ce_from e \<in> set (take i order)) \<and>
     (hasCycle \<longleftrightarrow> \<not> distinct (map cn_id nodes) \<or> \<not> acyclic (set (known_edges nodes edges)))"
proof -
  obtain order deg where T: "topologicalSort nodes edges = Some (order, length order \<noteq> length nodes)"
    and I: "topo.loop_inv nodes edges deg [] order" using topologicalSort_spec by blast
  have o: "distinct order" "set order \<subseteq> cn_id ` set nodes" using I by (auto simp: topo.loop_inv_def)
  have fwd: "ce_from e \<in> set (take i order)"
    if "i < length order" "e \<in> set edges" "ce_to e = order ! i" "ce_from e \<in> cn_id ` set nodes" for i e
  proof -
    have "order ! i \<in> cn_id ` set nodes" using o(2) that(1) nth_mem by blast
    then have "(ce_from e, order ! i) \<in> set (known_edges nodes edges)"
      using that by (force simp: known_edges_def)
    then show ?thesis using I that(1) by (simp add: topo.loop_inv_def)
  qed
  have "card (set order) \<le> card (set (node_ids nodes))" using o(2) by (intro card_mono) simp_all
  then have le: "length order \<le> length (node_ids nodes)"
    using distinct_card [OF o(1)] distinct_card [OF node_ids_distinct [of nodes]] by simp
  have "length (node_ids nodes) \<le> length nodes"
    using distinct_card [OF node_ids_distinct [of nodes]] card_image_le [of "set nodes" cn_id] card_length [of nodes] by simp
  then have "length order = length nodes \<longleftrightarrow> distinct (map cn_id nodes) \<and> acyclic (set (known_edges nodes edges))"
    using le topo.order_complete [OF I] node_ids_length [of nodes] by auto
  then show ?thesis using T o fwd by auto
qed

definition sample_node :: "string \<Rightarrow> node_kind \<Rightarrow> comp_node" where
  "sample_node i k = \<lparr> cn_id = i, cn_kind = k, cn_refId = ''ref'', cn_refVersion = None, cn_configOverrides = None,
     cn_position = None \<rparr>"

definition sample_edge :: "string \<Rightarrow> string \<Rightarrow> comp_edge" where
  "sample_edge a b = \<lparr> ce_from = a, ce_to = b, ce_rule = Some RuleAlways, ce_confidenceGte = None \<rparr>"

theorem topological_sort_correct_witness:
  "\<exists>order. topologicalSort [sample_node ''b'' AiNode, sample_node ''a'' LocalNode] [sample_edge ''a'' ''b''] = Some (order, False) \<and>
     ''a'' \<in> set (take 1 order) \<and> order ! 1 = ''b''"
proof -
  let ?n = "[sample_node ''b'' AiNode, sample_node ''a'' LocalNode]" and ?e = "[sample_edge ''a'' ''b'']"
  have T: "topologicalSort ?n ?e = Some ([''a'', ''b''], False)" by code_simp
  have "ce_from (sample_edge ''a'' ''b'') \<in> set (take 1 [''a'', ''b''])"
    using topological_sort_correct [of ?n ?e] T by (auto simp: sample_edge_def sample_node_def)
  then show ?thesis using T by (simp add: sample_edge_def)
qed

lemma duplicate_errors_none: "duplicate_errors seen ns = [] \<longleftrightarrow> distinct (map cn_id ns) \<and> set seen \<inter> cn_id ` set ns = {}"
  by (induction seen ns rule: duplicate_errors.induct) auto

lemma topological_sort_total: "\<exists>r. topologicalSort nodes edges = Some r"
  using topologicalSort_spec by blast

lemma valid_graph_facts:
  assumes "validateCompositeGraph g resolveRef = Some v" "gv_valid v"
  shows "cg_nodes g \<noteq> [] \<and> length (cg_nodes g) \<le> 30 \<and> length (cg_edges g) \<le> 120 \<and>
    distinct (map cn_id (cg_nodes g)) \<and> distinct (gv_topologicalOrder v) \<and>
    set (gv_topologicalOrder v) = cn_id ` set (cg_nodes g) \<and>
    (\<forall>e\<in>set (cg_edges g). ce_from e \<noteq> ce_to e \<and>
      (\<exists>i j. i < j \<and> j < length (gv_topologicalOrder v) \<and> gv_topologicalOrder v ! i = ce_from e \<and> gv_topologicalOrder v ! j = ce_to e)) \<and>
    (\<forall>f. resolveRef = Some f \<longrightarrow> (\<forall>n\<in>set (cg_nodes g). resolve_errors f n = []))"
proof -
  let ?ns = "cg_nodes g" and ?es = "cg_edges g"
  obtain order deg where T: "topologicalSort ?ns ?es = Some (order, length order \<noteq> length ?ns)"
    and I: "topo.loop_inv ?ns ?es deg [] order" using topologicalSort_spec by blast
  have o: "gv_topologicalOrder v = order" using assms(1) T by (auto simp: validateCompositeGraph_def Let_def)
  have E: "?ns \<noteq> []" "length ?ns \<le> 30" "length ?es \<le> 120" "duplicate_errors [] ?ns = []"
    "\<forall>e\<in>set ?es. edge_errors (node_ids ?ns) e = []" "length order = length ?ns"
    "\<forall>f. resolveRef = Some f \<longrightarrow> (\<forall>n\<in>set ?ns. resolve_errors f n = [])"
    using assms T by (auto simp: validateCompositeGraph_def Let_def MAX_NODES_def MAX_EDGES_def split: if_splits)
  have d: "distinct (map cn_id ?ns)" using E(4) by (simp add: duplicate_errors_none)
  have ord: "distinct order" "set order \<subseteq> cn_id ` set ?ns" using I by (auto simp: topo.loop_inv_def)
  have "card (set order) = card (cn_id ` set ?ns)"
    using distinct_card [OF ord(1)] E(6) distinct_card [OF d] by simp
  then have all: "set order = cn_id ` set ?ns" using ord(2) by (intro card_subset_eq) simp_all
  have fwd: "ce_from e \<noteq> ce_to e \<and> (\<exists>i j. i < j \<and> j < length order \<and> order ! i = ce_from e \<and> order ! j = ce_to e)"
    if e: "e \<in> set ?es" for e
  proof -
    have k: "ce_from e \<in> cn_id ` set ?ns" "ce_to e \<in> cn_id ` set ?ns" "ce_from e \<noteq> ce_to e"
      using E(5) e by (auto simp: edge_errors_def split: if_splits)
    then obtain j where j: "j < length order" "order ! j = ce_to e" using all by (metis in_set_conv_nth)
    have "(ce_from e, order ! j) \<in> set (known_edges ?ns ?es)" using e k j by (force simp: known_edges_def)
    then have "ce_from e \<in> set (take j order)" using I j by (simp add: topo.loop_inv_def)
    then obtain i where "i < j" "order ! i = ce_from e" by (auto simp: in_set_conv_nth)
    then show ?thesis using j k by blast
  qed
  show ?thesis unfolding o using E d ord(1) all fwd by blast
qed

text \<open>C36: A graph found valid has between one and thirty nodes with distinct identifiers and at most 120
  edges, each between two different nodes of the graph; the order of a valid graph holds every node
  exactly once, with all edges pointing forward.\<close>

theorem valid_graph_sound:
  assumes "validateCompositeGraph g resolveRef = Some v" "gv_valid v"
  shows "cg_nodes g \<noteq> [] \<and> length (cg_nodes g) \<le> 30 \<and> length (cg_edges g) \<le> 120 \<and>
    distinct (map cn_id (cg_nodes g)) \<and> distinct (gv_topologicalOrder v) \<and>
    set (gv_topologicalOrder v) = cn_id ` set (cg_nodes g) \<and>
    (\<forall>e\<in>set (cg_edges g). ce_from e \<noteq> ce_to e \<and>
      (\<exists>i j. i < j \<and> j < length (gv_topologicalOrder v) \<and> gv_topologicalOrder v ! i = ce_from e \<and> gv_topologicalOrder v ! j = ce_to e)) \<and>
    (\<forall>f. resolveRef = Some f \<longrightarrow> (\<forall>n\<in>set (cg_nodes g). resolve_errors f n = []))"
  using valid_graph_facts [OF assms] .

theorem valid_graph_sound_witness:
  "\<exists>v. validateCompositeGraph \<lparr> cg_nodes = [sample_node ''b'' AiNode, sample_node ''a'' LocalNode],
        cg_edges = [sample_edge ''a'' ''b''], cg_combineMode = Pipeline, cg_outputPolicy = FirstNonNeutral \<rparr> None = Some v \<and>
     set (gv_topologicalOrder v) = {''a'', ''b''}"
proof -
  let ?g = "\<lparr> cg_nodes = [sample_node ''b'' AiNode, sample_node ''a'' LocalNode],
        cg_edges = [sample_edge ''a'' ''b''], cg_combineMode = Pipeline, cg_outputPolicy = FirstNonNeutral \<rparr>"
  have V: "validateCompositeGraph ?g None = Some \<lparr> gv_valid = True, gv_errors = [], gv_warnings = [],
      gv_topologicalOrder = [''a'', ''b''] \<rparr>" by code_simp
  show ?thesis using valid_graph_sound [OF V] V by (auto simp: sample_node_def)
qed

end
