(* ===== verification/QualityGate.thy ===== *)
theory QualityGate
  imports Money "HOL-Library.AList"
begin

text \<open>
  The gate that decides whether a prediction is worth a call of the language model
  (apps/api/src/ai/qualityGate.ts). A Date is its time in milliseconds. Parameters are
  \<open>hash\<close>, the digest of a value (a SHA-256 of its canonical JSON), and \<open>parse_date\<close>, the
  implementation-defined reading of date strings.
\<close>

section \<open>Data\<close>

datatype pred_signal = Up | Down | Neutral
datatype timeframe = TF5m | TF15m | TF1h | TF4h | TF1d
datatype gate_priority = PrioLow | PrioNormal | PrioHigh

fun signal_str :: "pred_signal \<Rightarrow> string" where
  "signal_str Up = ''up''" | "signal_str Down = ''down''" | "signal_str Neutral = ''neutral''"

fun timeframe_str :: "timeframe \<Rightarrow> string" where
  "timeframe_str TF5m = ''5m''" | "timeframe_str TF15m = ''15m''" | "timeframe_str TF1h = ''1h''"
| "timeframe_str TF4h = ''4h''" | "timeframe_str TF1d = ''1d''"

fun priority_str :: "gate_priority \<Rightarrow> string" where
  "priority_str PrioLow = ''low''" | "priority_str PrioNormal = ''normal''" | "priority_str PrioHigh = ''high''"

record gate_config =
  gc_enabled :: bool
  gc_minConfidenceForExplain :: jsnum
  gc_minConfidenceForNeutralExplain :: jsnum
  gc_confidenceJumpThreshold :: jsnum
  gc_keyLevelNearPct :: jsnum
  gc_recentEventBars :: "timeframe \<Rightarrow> jsnum"
  gc_highImportanceMin :: jsnum
  gc_aiCooldownSec :: "timeframe \<Rightarrow> jsnum"
  gc_maxHighPriorityPerHour :: jsnum
  gc_maxPredictionAgeSec :: "timeframe \<Rightarrow> jsnum"
  gc_budgetPressureConsecutiveCalls :: jsnum

text \<open>A partial configuration: a field that is absent is \<open>None\<close>.\<close>

record gate_overrides =
  go_enabled :: "bool option"
  go_minConfidenceForExplain :: "jsnum option"
  go_minConfidenceForNeutralExplain :: "jsnum option"
  go_confidenceJumpThreshold :: "jsnum option"
  go_keyLevelNearPct :: "jsnum option"
  go_recentEventBars :: "timeframe \<Rightarrow> jsnum option"
  go_highImportanceMin :: "jsnum option"
  go_aiCooldownSec :: "timeframe \<Rightarrow> jsnum option"
  go_maxHighPriorityPerHour :: "jsnum option"
  go_maxPredictionAgeSec :: "timeframe \<Rightarrow> jsnum option"
  go_budgetPressureConsecutiveCalls :: "jsnum option"

record rolling_state =
  rs_lastAiCallTs :: "jsnum option"
  rs_lastExplainedPredictionHash :: "string option"
  rs_lastExplainedHistoryHash :: "string option"
  rs_lastAiDecisionHash :: "string option"
  rs_windowStartedAt :: "jsnum option"
  rs_aiCallsLastHour :: jsnum
  rs_highPriorityCallsLastHour :: jsnum

datatype date_like = DateObj jsnum | DateVal jsval

record gate_prediction =
  gp_signal :: pred_signal
  gp_confidence :: jsnum
  gp_expectedMovePct :: jsnum
  gp_tsUpdated :: date_like

record gate_prev =
  gv_signal :: pred_signal
  gv_confidence :: jsnum
  gv_featureSnapshot :: jsobj

record gate_input =
  gi_timeframe :: timeframe
  gi_nowMs :: jsnum
  gi_prediction :: gate_prediction
  gi_featureSnapshot :: jsobj
  gi_prevState :: "gate_prev option"
  gi_gateState :: rolling_state
  gi_config :: "gate_overrides option"
  gi_budgetPressureConsecutive :: "jsnum option"

record window_state =
  ws_windowStartedAt :: jsnum
  ws_aiCallsLastHour :: jsnum
  ws_highPriorityCallsLastHour :: jsnum

record gate_decision =
  gd_allow :: bool
  gd_reasonCodes :: "string list"
  gd_priority :: gate_priority
  gd_recommendedCooldownSec :: jsnum
  gd_predictionHash :: string
  gd_historyHash :: string
  gd_decisionHash :: string
  gd_state :: window_state

record telemetry =
  tm_allow :: nat
  tm_block :: nat
  tm_reasons :: "(string \<times> nat) list"
  tm_priorities :: "gate_priority \<Rightarrow> nat"
  tm_saved :: nat

fun TF_MS :: "timeframe \<Rightarrow> rat" where
  "TF_MS TF5m = 300000" | "TF_MS TF15m = 900000" | "TF_MS TF1h = 3600000"
| "TF_MS TF4h = 14400000" | "TF_MS TF1d = 86400000"

fun default_bars :: "timeframe \<Rightarrow> jsnum" where
  "default_bars TF5m = Fin 6" | "default_bars TF15m = Fin 4" | "default_bars TF1h = Fin 2"
| "default_bars TF4h = Fin 2" | "default_bars TF1d = Fin 2"

fun default_cooldown :: "timeframe \<Rightarrow> jsnum" where
  "default_cooldown TF5m = Fin 120" | "default_cooldown TF15m = Fin 240" | "default_cooldown TF1h = Fin 900"
| "default_cooldown TF4h = Fin 1800" | "default_cooldown TF1d = Fin 3600"

fun default_max_age :: "timeframe \<Rightarrow> jsnum" where
  "default_max_age TF5m = Fin 1200" | "default_max_age TF15m = Fin 3600" | "default_max_age TF1h = Fin 14400"
| "default_max_age TF4h = Fin 43200" | "default_max_age TF1d = Fin 172800"

definition DEFAULT_CONFIG :: gate_config where
  "DEFAULT_CONFIG = \<lparr> gc_enabled = True, gc_minConfidenceForExplain = Fin 70, gc_minConfidenceForNeutralExplain = Fin 60,
     gc_confidenceJumpThreshold = Fin 10, gc_keyLevelNearPct = Fin (1 / 2), gc_recentEventBars = default_bars,
     gc_highImportanceMin = Fin 4, gc_aiCooldownSec = default_cooldown, gc_maxHighPriorityPerHour = Fin 12,
     gc_maxPredictionAgeSec = default_max_age, gc_budgetPressureConsecutiveCalls = Fin 3 \<rparr>"

section \<open>Numbers and dates\<close>

definition clamp :: "rat \<Rightarrow> rat \<Rightarrow> jsnum \<Rightarrow> jsnum" where
  "clamp lo hi x = n_max (Fin lo) (n_min (Fin hi) x)"

definition toNum :: "jsval \<Rightarrow> rat option" where
  "toNum value = (case js_number value of Fin a \<Rightarrow> Some a | _ \<Rightarrow> None)"

definition num_ms :: "rat \<Rightarrow> jsnum option" where
  "num_ms num = (if 1000000000000 < num then Some (n_trunc (Fin num))
                 else if 1000000000 < num then Some (n_trunc (n_mul (Fin num) (Fin 1000))) else None)"

definition toDateMs :: "(string \<Rightarrow> jsnum) \<Rightarrow> date_like \<Rightarrow> jsnum option" where
  "toDateMs parse_date value =
     (let finite = (\<lambda>ms. if is_finite ms then Some ms else None)
      in case value of
           DateObj ms \<Rightarrow> finite ms
         | DateVal (JStr s) \<Rightarrow> finite (parse_date s)
         | DateVal v \<Rightarrow> (case toNum v of None \<Rightarrow> None | Some num \<Rightarrow> num_ms num))"

definition confidenceToPct :: "jsnum \<Rightarrow> jsnum" where
  "confidenceToPct value =
     (if \<not> is_finite value then Fin 0
      else if n_le value (Fin 1) then clamp 0 100 (n_mul value (Fin 100))
      else clamp 0 100 value)"

definition no_overrides :: gate_overrides where
  "no_overrides = \<lparr> go_enabled = None, go_minConfidenceForExplain = None, go_minConfidenceForNeutralExplain = None,
     go_confidenceJumpThreshold = None, go_keyLevelNearPct = None, go_recentEventBars = (\<lambda>_. None),
     go_highImportanceMin = None, go_aiCooldownSec = (\<lambda>_. None), go_maxHighPriorityPerHour = None,
     go_maxPredictionAgeSec = (\<lambda>_. None), go_budgetPressureConsecutiveCalls = None \<rparr>"

definition normalizeConfig :: "gate_overrides option \<Rightarrow> gate_config" where
  "normalizeConfig config =
     (let o1 = opt_get config no_overrides; d = DEFAULT_CONFIG
      in \<lparr> gc_enabled = opt_get (go_enabled o1) (gc_enabled d),
           gc_minConfidenceForExplain = clamp 0 100 (opt_get (go_minConfidenceForExplain o1) (gc_minConfidenceForExplain d)),
           gc_minConfidenceForNeutralExplain =
             clamp 0 100 (opt_get (go_minConfidenceForNeutralExplain o1) (gc_minConfidenceForNeutralExplain d)),
           gc_confidenceJumpThreshold = clamp 0 100 (opt_get (go_confidenceJumpThreshold o1) (gc_confidenceJumpThreshold d)),
           gc_keyLevelNearPct = clamp (dbl (1 / 20)) 5 (opt_get (go_keyLevelNearPct o1) (gc_keyLevelNearPct d)),
           gc_recentEventBars = (\<lambda>tf. clamp 1 100 (n_trunc (opt_get (go_recentEventBars o1 tf) (gc_recentEventBars d tf)))),
           gc_highImportanceMin = clamp 1 5 (n_trunc (opt_get (go_highImportanceMin o1) (gc_highImportanceMin d))),
           gc_aiCooldownSec = (\<lambda>tf. clamp 0 86400 (n_trunc (opt_get (go_aiCooldownSec o1 tf) (gc_aiCooldownSec d tf)))),
           gc_maxHighPriorityPerHour =
             clamp 1 200 (n_trunc (opt_get (go_maxHighPriorityPerHour o1) (gc_maxHighPriorityPerHour d))),
           gc_maxPredictionAgeSec =
             (\<lambda>tf. clamp 60 2592000 (n_trunc (opt_get (go_maxPredictionAgeSec o1 tf) (gc_maxPredictionAgeSec d tf)))),
           gc_budgetPressureConsecutiveCalls =
             clamp 1 30 (n_trunc (opt_get (go_budgetPressureConsecutiveCalls o1) (gc_budgetPressureConsecutiveCalls d))) \<rparr>)"

section \<open>Hashes\<close>

text \<open>\<open>JSON.parse(JSON.stringify(x))\<close> of a value without big integers.\<close>

fun json_clone :: "jsval \<Rightarrow> jsval" where
  "json_clone (JNum n) = (if is_finite n then JNum n else JNull)"
| "json_clone (JArr vs) = JArr (map (\<lambda>v. if v = JUndef then JNull else json_clone v) vs)"
| "json_clone (JObj kvs) = JObj (filter (\<lambda>kv. snd kv \<noteq> JUndef) (map (\<lambda>kv. (fst kv, json_clone (snd kv))) kvs))"
| "json_clone v = v"

definition obj_set :: "jsobj \<Rightarrow> string \<Rightarrow> jsval \<Rightarrow> jsobj" where
  "obj_set ob k v = AList.update k v ob"

definition historyContext :: "jsobj \<Rightarrow> jsobj option" where
  "historyContext snapshot = as_object (get snapshot ''historyContext'')"

definition normalizeHistoryHash :: "(jsval \<Rightarrow> string) \<Rightarrow> jsobj \<Rightarrow> string" where
  "normalizeHistoryHash hash snapshot =
     (case historyContext snapshot of
        None \<Rightarrow> ''none''
      | Some raw \<Rightarrow>
          (let clone = to_record (json_clone (JObj raw))
           in case as_object (get clone ''bud'') of
                None \<Rightarrow> hash (JObj clone)
              | Some bud \<Rightarrow> hash (JObj (obj_set clone ''bud'' (JObj (obj_set bud ''bytes'' (JNum (Fin 0))))))))"

definition falsy_zero :: "jsnum \<Rightarrow> jsnum" where
  "falsy_zero n = (if n = NaN then Fin 0 else n)"

definition normalizePredictionHash :: "(jsval \<Rightarrow> string) \<Rightarrow> gate_prediction \<Rightarrow> string" where
  "normalizePredictionHash hash p =
     hash (JObj [(''signal'', JStr (signal_str (gp_signal p))),
                 (''confidence'', JNum (fixed_num 2 (confidenceToPct (gp_confidence p)))),
                 (''expectedMovePct'', JNum (fixed_num 3 (n_abs (falsy_zero (gp_expectedMovePct p)))))])"

section \<open>What the snapshot shows\<close>

definition sub_obj :: "jsobj option \<Rightarrow> string \<Rightarrow> jsobj option" where
  "sub_obj ob k = (case ob of None \<Rightarrow> None | Some o1 \<Rightarrow> as_object (get o1 k))"

definition sub_val :: "jsobj option \<Rightarrow> string \<Rightarrow> jsval" where
  "sub_val ob k = (case ob of None \<Rightarrow> JUndef | Some o1 \<Rightarrow> get o1 k)"

definition historyRegimeState :: "jsobj \<Rightarrow> string option" where
  "historyRegimeState snapshot =
     (case sub_obj (historyContext snapshot) ''reg'' of
        None \<Rightarrow> None
      | Some reg \<Rightarrow> nonempty (trimmed (get reg ''state'')))"

definition historyRegimeSinceMs :: "(string \<Rightarrow> jsnum) \<Rightarrow> jsobj \<Rightarrow> jsnum option" where
  "historyRegimeSinceMs parse_date snapshot =
     (case sub_obj (historyContext snapshot) ''reg'' of
        None \<Rightarrow> None
      | Some reg \<Rightarrow> toDateMs parse_date (DateVal (get reg ''since'')))"

definition eventTypeQualifies :: "string \<Rightarrow> bool" where
  "eventTypeQualifies ty =
     (let normalized = str_lower ty
      in normalized \<in> {''ema_stk'', ''ema_stack'', ''ema_stack_flip''}
         \<or> str_includes normalized ''sweep'' \<or> normalized = ''liq_sweep''
         \<or> normalized \<in> {''fvg_open'', ''fvg_fill''} \<or> normalized = ''vol_spike'')"

definition readCurrentPrice :: "jsobj \<Rightarrow> rat option" where
  "readCurrentPrice snapshot =
     (case List.map_filter (\<lambda>k. case toNum (get snapshot k) of Some n \<Rightarrow> if 0 < n then Some n else None | None \<Rightarrow> None)
             [''suggestedEntryPrice'', ''referencePrice'', ''lastPrice'', ''markPrice''] of
        n # _ \<Rightarrow> Some n
      | [] \<Rightarrow>
          (let rows = opt_get (as_array (sub_val (sub_obj (historyContext snapshot) ''lastBars'') ''ohlc'')) [];
               close = (if rows = [] then None else toNum (sub_val (as_object (last rows)) ''c''))
           in case close of Some c \<Rightarrow> if 0 < c then Some c else None | None \<Rightarrow> None))"

text \<open>\<open>Math.min\<close> of a non-empty list of finite numbers.\<close>

definition min_of :: "rat list \<Rightarrow> rat option" where
  "min_of xs = (case xs of [] \<Rightarrow> None | x # ys \<Rightarrow> Some (fold min ys x))"

definition nearestFvgDistancePct :: "jsobj \<Rightarrow> rat option" where
  "nearestFvgDistancePct snapshot =
     (case sub_obj (historyContext snapshot) ''fvg'' of
        None \<Rightarrow> None
      | Some fvg \<Rightarrow>
          min_of (map abs (List.map_filter id
            [toNum (sub_val (as_object (get fvg ''nb'')) ''d''), toNum (sub_val (as_object (get fvg ''ns'')) ''d'')])))"

definition levelList :: "jsobj \<Rightarrow> rat list" where
  "levelList snapshot =
     (case sub_obj (historyContext snapshot) ''lvl'' of
        None \<Rightarrow> []
      | Some levels \<Rightarrow>
          (let pivD = as_object (get levels ''pivD''); hiLo = as_object (get levels ''hiLo'');
               dayOpen = as_object (get levels ''do'')
           in filter (\<lambda>n. 0 < n) (List.map_filter id
                [toNum (sub_val pivD ''pp''), toNum (sub_val pivD ''r1''), toNum (sub_val pivD ''s1''),
                 toNum (sub_val hiLo ''yH''), toNum (sub_val hiLo ''yL''), toNum (sub_val hiLo ''wH''),
                 toNum (sub_val hiLo ''wL''), toNum (sub_val dayOpen ''p'')])))"

definition nearAnyLevel :: "jsobj \<Rightarrow> jsnum \<Rightarrow> bool" where
  "nearAnyLevel snapshot nearPct =
     (case readCurrentPrice snapshot of
        None \<Rightarrow> False
      | Some price \<Rightarrow>
          0 < price \<and> list_ex (\<lambda>level. n_le (n_abs (n_mul (n_sub (n_div (Fin price) (Fin level)) (Fin 1)) (Fin 100))) nearPct)
                        (levelList snapshot))"

definition hasNonTrivialSetup :: "jsobj \<Rightarrow> bool" where
  "hasNonTrivialSetup snapshot =
     (case historyContext snapshot of
        None \<Rightarrow> False
      | Some history \<Rightarrow>
          (let ema = as_object (get history ''ema''); vol = as_object (get history ''vol'');
               fvg = as_object (get history ''fvg''); ls = as_object (get history ''ls'');
               stk = opt_get (as_str (sub_val ema ''stk'')) ''unknown'';
               volZ = opt_get (toNum (sub_val vol ''z'')) 0;
               openGaps = n_add (Fin (opt_get (toNum (sub_val fvg ''ob'')) 0)) (Fin (opt_get (toNum (sub_val fvg ''os'')) 0))
           in (stk \<noteq> ''none'' \<and> stk \<noteq> ''unknown'') \<or> 3 / 2 \<le> volZ \<or> n_le (Fin 1) openGaps
              \<or> as_object (sub_val ls ''le'') \<noteq> None))"

definition event_qualifies ::
  "(string \<Rightarrow> jsnum) \<Rightarrow> rat option \<Rightarrow> jsnum \<Rightarrow> jsnum \<Rightarrow> jsnum \<Rightarrow> jsval \<Rightarrow> bool" where
  "event_qualifies parse_date nearestFvgDist nowMs recencyMs highImportanceMin row =
     (case as_object row of
        None \<Rightarrow> False
      | Some event \<Rightarrow>
          (let importance = opt_get (toNum (get event ''i'')) 0;
               ty = opt_get (as_str (get event ''ty'')) ''''
           in \<not> n_lt (Fin importance) highImportanceMin \<and> eventTypeQualifies ty \<and>
              (case toDateMs parse_date (DateVal (get event ''t'')) of
                 None \<Rightarrow> False
               | Some ts \<Rightarrow> \<not> n_lt recencyMs (n_sub nowMs ts) \<and> \<not> n_lt (n_add nowMs (Fin 60000)) ts) \<and>
              \<not> ((ty = ''fvg_open'' \<or> ty = ''fvg_fill'') \<and>
                 (case nearestFvgDist of None \<Rightarrow> False | Some fd \<Rightarrow> 1 < fd))))"

definition eventTriggeredRecently ::
  "(string \<Rightarrow> jsnum) \<Rightarrow> jsobj \<Rightarrow> timeframe \<Rightarrow> jsnum \<Rightarrow> jsnum \<Rightarrow> jsnum \<Rightarrow> bool" where
  "eventTriggeredRecently parse_date snapshot tf nowMs maxBars highImportanceMin =
     (case historyContext snapshot of
        None \<Rightarrow> False
      | Some history \<Rightarrow>
          list_ex (event_qualifies parse_date (nearestFvgDistancePct snapshot) nowMs
              (n_mul (n_max (Fin 1) maxBars) (Fin (TF_MS tf))) highImportanceMin)
            (opt_get (as_array (get history ''ev'')) []))"

section \<open>The window of an hour\<close>

definition normalizeWindowState :: "rolling_state \<Rightarrow> jsnum \<Rightarrow> window_state" where
  "normalizeWindowState rs nowMs =
     (let startMs = opt_get (rs_windowStartedAt rs) nowMs
      in if \<not> is_finite startMs \<or> n_le (Fin 3600000) (n_sub nowMs startMs)
         then \<lparr> ws_windowStartedAt = nowMs, ws_aiCallsLastHour = Fin 0, ws_highPriorityCallsLastHour = Fin 0 \<rparr>
         else \<lparr> ws_windowStartedAt = startMs,
                ws_aiCallsLastHour = n_max (Fin 0) (n_trunc (falsy_zero (rs_aiCallsLastHour rs))),
                ws_highPriorityCallsLastHour = n_max (Fin 0) (n_trunc (falsy_zero (rs_highPriorityCallsLastHour rs))) \<rparr>)"

definition applyAiQualityGateCallToState :: "window_state \<Rightarrow> gate_priority \<Rightarrow> window_state" where
  "applyAiQualityGateCallToState st priority =
     (let high = n_max (Fin 0) (n_trunc (ws_highPriorityCallsLastHour st))
      in \<lparr> ws_windowStartedAt = ws_windowStartedAt st,
           ws_aiCallsLastHour = n_add (n_max (Fin 0) (n_trunc (ws_aiCallsLastHour st))) (Fin 1),
           ws_highPriorityCallsLastHour = (if priority = PrioHigh then n_add high (Fin 1) else high) \<rparr>)"

section \<open>The decision\<close>

definition withReason :: "string list \<Rightarrow> string \<Rightarrow> string list" where
  "withReason codes value =
     (let normalized = str_trim value
      in if normalized = '''' \<or> normalized \<in> set codes then codes else codes @ [normalized])"

definition add_if :: "bool \<Rightarrow> string \<Rightarrow> string list \<Rightarrow> string list" where
  "add_if b value codes = (if b then withReason codes value else codes)"

definition logDecision :: "bool \<Rightarrow> string list \<Rightarrow> gate_priority \<Rightarrow> telemetry \<Rightarrow> telemetry" where
  "logDecision allow codes priority t =
     t\<lparr> tm_allow := tm_allow t + (if allow then 1 else 0), tm_block := tm_block t + (if allow then 0 else 1),
        tm_saved := tm_saved t + (if allow then 0 else 1),
        tm_priorities := (tm_priorities t)(priority := tm_priorities t priority + 1),
        tm_reasons := fold (\<lambda>r m. AList.update r (opt_get (map_of m r) 0 + 1) m) codes (tm_reasons t) \<rparr>"

text \<open>The six triggers, with the priority they raise.\<close>

definition raise_normal :: "gate_priority \<Rightarrow> gate_priority" where
  "raise_normal p = (if p \<noteq> PrioHigh then PrioNormal else p)"

definition signal_flip :: "gate_input \<Rightarrow> bool" where
  "signal_flip i =
     (case gi_prevState i of None \<Rightarrow> False
      | Some p \<Rightarrow> gv_signal p \<noteq> gp_signal (gi_prediction i) \<and> gp_signal (gi_prediction i) \<noteq> Neutral)"

definition confidence_jump :: "gate_config \<Rightarrow> gate_input \<Rightarrow> bool" where
  "confidence_jump c i =
     (case gi_prevState i of None \<Rightarrow> True
      | Some p \<Rightarrow> n_le (gc_confidenceJumpThreshold c)
          (n_abs (n_sub (confidenceToPct (gp_confidence (gi_prediction i))) (confidenceToPct (gv_confidence p)))))"

definition regime_changed :: "gate_input \<Rightarrow> bool" where
  "regime_changed i =
     (case gi_prevState i of None \<Rightarrow> False
      | Some p \<Rightarrow> (case (historyRegimeState (gv_featureSnapshot p), historyRegimeState (gi_featureSnapshot i)) of
                     (Some a, Some b) \<Rightarrow> a \<noteq> b | _ \<Rightarrow> False))"

definition regime_recent :: "(string \<Rightarrow> jsnum) \<Rightarrow> gate_input \<Rightarrow> bool" where
  "regime_recent parse_date i =
     (case historyRegimeSinceMs parse_date (gi_featureSnapshot i) of None \<Rightarrow> False
      | Some since \<Rightarrow> n_le (n_sub (gi_nowMs i) since) (Fin (2 * TF_MS (gi_timeframe i))) \<and> n_le since (gi_nowMs i))"

definition event_recent :: "(string \<Rightarrow> jsnum) \<Rightarrow> gate_config \<Rightarrow> gate_input \<Rightarrow> bool" where
  "event_recent parse_date c i =
     eventTriggeredRecently parse_date (gi_featureSnapshot i) (gi_timeframe i) (gi_nowMs i)
       (gc_recentEventBars c (gi_timeframe i)) (gc_highImportanceMin c)"

definition near_setup :: "gate_config \<Rightarrow> gate_input \<Rightarrow> bool" where
  "near_setup c i \<longleftrightarrow> nearAnyLevel (gi_featureSnapshot i) (gc_keyLevelNearPct c) \<and> hasNonTrivialSetup (gi_featureSnapshot i)"

definition gate_triggers :: "(string \<Rightarrow> jsnum) \<Rightarrow> gate_config \<Rightarrow> gate_input \<Rightarrow> string list \<times> gate_priority" where
  "gate_triggers parse_date c i =
     (let p1 = (if signal_flip i then PrioHigh else PrioLow);
          p2 = (if confidence_jump c i then raise_normal p1 else p1);
          p3 = (if regime_changed i then PrioHigh else p2);
          p4 = (if regime_recent parse_date i then PrioHigh else p3);
          p5 = (if event_recent parse_date c i then PrioHigh else p4);
          p6 = (if near_setup c i then raise_normal p5 else p5)
      in (add_if (near_setup c i) ''near_key_level_setup''
           (add_if (event_recent parse_date c i) ''high_importance_event_recent''
             (add_if (regime_recent parse_date i) ''regime_recent_switch''
               (add_if (regime_changed i) ''regime_state_changed''
                 (add_if (confidence_jump c i) ''confidence_jump''
                   (add_if (signal_flip i) ''signal_flip'' []))))), p6))"

definition stale_prediction :: "(string \<Rightarrow> jsnum) \<Rightarrow> gate_config \<Rightarrow> gate_input \<Rightarrow> bool" where
  "stale_prediction parse_date c i =
     n_lt (n_mul (gc_maxPredictionAgeSec c (gi_timeframe i)) (Fin 1000))
       (n_sub (gi_nowMs i) (opt_get (toDateMs parse_date (gp_tsUpdated (gi_prediction i))) (gi_nowMs i)))"

definition confidence_of :: "gate_input \<Rightarrow> jsnum" where
  "confidence_of i = confidenceToPct (gp_confidence (gi_prediction i))"

definition hashes_unchanged :: "(jsval \<Rightarrow> string) \<Rightarrow> gate_input \<Rightarrow> bool" where
  "hashes_unchanged hash i \<longleftrightarrow>
     rs_lastExplainedPredictionHash (gi_gateState i) = Some (normalizePredictionHash hash (gi_prediction i)) \<and>
     rs_lastExplainedHistoryHash (gi_gateState i) = Some (normalizeHistoryHash hash (gi_featureSnapshot i))"

definition under_budget_pressure :: "gate_config \<Rightarrow> gate_input \<Rightarrow> bool" where
  "under_budget_pressure c i =
     n_le (gc_budgetPressureConsecutiveCalls c)
       (case gi_budgetPressureConsecutive i of Some (Fin b) \<Rightarrow> Fin b | _ \<Rightarrow> Fin 0)"

definition cooldown_active :: "gate_config \<Rightarrow> gate_input \<Rightarrow> bool" where
  "cooldown_active c i =
     (case rs_lastAiCallTs (gi_gateState i) of None \<Rightarrow> False
      | Some t \<Rightarrow> is_finite t \<and> n_lt (n_sub (gi_nowMs i) t) (n_mul (gc_aiCooldownSec c (gi_timeframe i)) (Fin 1000)))"

definition gate_blocks ::
  "(jsval \<Rightarrow> string) \<Rightarrow> (string \<Rightarrow> jsnum) \<Rightarrow> gate_config \<Rightarrow> gate_input \<Rightarrow> window_state \<Rightarrow> gate_priority \<Rightarrow> string list \<Rightarrow> string list" where
  "gate_blocks hash parse_date c i st priority codes =
     (let neutral = (gp_signal (gi_prediction i) = Neutral)
      in add_if (priority = PrioHigh \<and> n_le (gc_maxHighPriorityPerHour c) (ws_highPriorityCallsLastHour st)) ''high_priority_hour_cap''
         (add_if (cooldown_active c i \<and> priority \<noteq> PrioHigh) ''cooldown_active''
         (add_if (under_budget_pressure c i \<and> priority \<noteq> PrioHigh) ''budget_pressure_requires_high_priority''
         (add_if (hashes_unchanged hash i) ''idempotent_hash_unchanged''
         (add_if (n_lt (confidence_of i) (gc_minConfidenceForExplain c) \<and> \<not> neutral) ''below_min_confidence''
         (add_if (neutral \<and> n_lt (confidence_of i) (gc_minConfidenceForNeutralExplain c)) ''neutral_low_confidence''
         (add_if (stale_prediction parse_date c i) ''stale_prediction''
         (add_if (codes = []) ''no_actionable_change'' codes))))))))"

definition BLOCKING_REASONS :: "string set" where
  "BLOCKING_REASONS = {''stale_prediction'', ''neutral_low_confidence'', ''below_min_confidence'',
     ''idempotent_hash_unchanged'', ''budget_pressure_requires_high_priority'', ''cooldown_active'',
     ''high_priority_hour_cap'', ''no_actionable_change''}"

definition decision_value ::
  "bool \<Rightarrow> gate_priority \<Rightarrow> string list \<Rightarrow> string \<Rightarrow> string \<Rightarrow> gate_input \<Rightarrow> jsval" where
  "decision_value allow priority codes predictionHash historyHash i =
     JObj [(''allow'', JBool allow), (''priority'', JStr (priority_str priority)), (''reasons'', JArr (map JStr codes)),
           (''predictionHash'', JStr predictionHash), (''historyHash'', JStr historyHash),
           (''timeframe'', JStr (timeframe_str (gi_timeframe i))), (''confidencePct'', JNum (fixed_num 2 (confidence_of i)))]"

definition disabled_value :: "string list \<Rightarrow> string \<Rightarrow> string \<Rightarrow> jsval" where
  "disabled_value codes predictionHash historyHash =
     JObj [(''allow'', JBool True), (''reasonCodes'', JArr (map JStr codes)), (''predictionHash'', JStr predictionHash),
           (''historyHash'', JStr historyHash), (''priority'', JStr (priority_str PrioLow))]"

definition shouldInvokeAiExplain ::
  "(jsval \<Rightarrow> string) \<Rightarrow> (string \<Rightarrow> jsnum) \<Rightarrow> gate_input \<Rightarrow> telemetry \<Rightarrow> gate_decision \<times> telemetry" where
  "shouldInvokeAiExplain hash parse_date i tm =
     (let c = normalizeConfig (gi_config i);
          st = normalizeWindowState (gi_gateState i) (gi_nowMs i);
          predictionHash = normalizePredictionHash hash (gi_prediction i);
          historyHash = normalizeHistoryHash hash (gi_featureSnapshot i);
          decide = (\<lambda>allow codes priority h.
            (\<lparr> gd_allow = allow, gd_reasonCodes = codes, gd_priority = priority,
               gd_recommendedCooldownSec = gc_aiCooldownSec c (gi_timeframe i), gd_predictionHash = predictionHash,
               gd_historyHash = historyHash, gd_decisionHash = h, gd_state = st \<rparr>, logDecision allow codes priority tm))
      in if \<not> gc_enabled c
         then (let codes = withReason [] ''gate_disabled''
               in decide True codes PrioLow (hash (disabled_value codes predictionHash historyHash)))
         else (let (triggers, priority) = gate_triggers parse_date c i;
                   codes = gate_blocks hash parse_date c i st priority triggers;
                   allow = (triggers \<noteq> [] \<and> \<not> list_ex (\<lambda>r. r \<in> BLOCKING_REASONS) codes)
               in decide allow codes priority (hash (decision_value allow priority codes predictionHash historyHash i))))"

section \<open>Telemetry\<close>

definition empty_telemetry :: telemetry where
  "empty_telemetry = \<lparr> tm_allow = 0, tm_block = 0, tm_reasons = [], tm_priorities = (\<lambda>_. 0), tm_saved = 0 \<rparr>"

definition resetAiQualityGateTelemetry :: "telemetry \<Rightarrow> telemetry" where
  "resetAiQualityGateTelemetry t = empty_telemetry"

section \<open>When the gate allows a call\<close>

lemma add_if_set: "str_trim v = v \<Longrightarrow> v \<noteq> '''' \<Longrightarrow> set (add_if b v codes) = (if b then insert v (set codes) else set codes)"
  by (auto simp: add_if_def withReason_def Let_def)

definition gate_codes :: "string list" where
  "gate_codes = [''signal_flip'', ''confidence_jump'', ''regime_state_changed'', ''regime_recent_switch'',
     ''high_importance_event_recent'', ''near_key_level_setup'', ''no_actionable_change'', ''stale_prediction'',
     ''neutral_low_confidence'', ''below_min_confidence'', ''idempotent_hash_unchanged'',
     ''budget_pressure_requires_high_priority'', ''cooldown_active'', ''high_priority_hour_cap'']"

lemma gate_codes_trimmed: "v \<in> set gate_codes \<Longrightarrow> str_trim v = v \<and> v \<noteq> ''''"
proof -
  have "list_all (\<lambda>v. str_trim v = v \<and> v \<noteq> '''') gate_codes" by code_simp
  then show "v \<in> set gate_codes \<Longrightarrow> str_trim v = v \<and> v \<noteq> ''''" by (simp add: list_all_iff)
qed

lemma add_code_set: "v \<in> set gate_codes \<Longrightarrow> set (add_if b v codes) = (if b then insert v (set codes) else set codes)"
  using gate_codes_trimmed [of v] by (simp add: add_if_set)

definition has_trigger :: "(string \<Rightarrow> jsnum) \<Rightarrow> gate_config \<Rightarrow> gate_input \<Rightarrow> bool" where
  "has_trigger parse_date c i \<longleftrightarrow> signal_flip i \<or> confidence_jump c i \<or> regime_changed i \<or> regime_recent parse_date i \<or>
     event_recent parse_date c i \<or> near_setup c i"

definition urgent :: "(string \<Rightarrow> jsnum) \<Rightarrow> gate_config \<Rightarrow> gate_input \<Rightarrow> bool" where
  "urgent parse_date c i \<longleftrightarrow> signal_flip i \<or> regime_changed i \<or> regime_recent parse_date i \<or> event_recent parse_date c i"

lemma trigger_codes:
  "set (fst (gate_triggers parse_date c i)) =
     (if signal_flip i then {''signal_flip''} else {}) \<union> (if confidence_jump c i then {''confidence_jump''} else {}) \<union>
     (if regime_changed i then {''regime_state_changed''} else {}) \<union> (if regime_recent parse_date i then {''regime_recent_switch''} else {}) \<union>
     (if event_recent parse_date c i then {''high_importance_event_recent''} else {}) \<union>
     (if near_setup c i then {''near_key_level_setup''} else {})"
  unfolding gate_triggers_def Let_def fst_conv by (simp add: add_code_set gate_codes_def)

lemma trigger_any: "fst (gate_triggers parse_date c i) \<noteq> [] \<longleftrightarrow> has_trigger parse_date c i"
  unfolding set_empty [symmetric] trigger_codes has_trigger_def by auto

lemma trigger_priority: "snd (gate_triggers parse_date c i) = PrioHigh \<longleftrightarrow> urgent parse_date c i"
  by (simp add: gate_triggers_def Let_def urgent_def raise_normal_def)

definition blocked :: "string list \<Rightarrow> bool" where
  "blocked codes \<longleftrightarrow> list_ex (\<lambda>r. r \<in> BLOCKING_REASONS) codes"

lemma blocking_trimmed: "v \<in> BLOCKING_REASONS \<Longrightarrow> str_trim v = v \<and> v \<noteq> ''''"
  by (rule gate_codes_trimmed) (auto simp: BLOCKING_REASONS_def gate_codes_def)

lemma blocked_add: "v \<in> BLOCKING_REASONS \<Longrightarrow> blocked (add_if b v codes) \<longleftrightarrow> b \<or> blocked codes"
  using blocking_trimmed [of v] by (auto simp: blocked_def add_if_def withReason_def Let_def list_ex_iff)

lemma blocking_members:
  "''stale_prediction'' \<in> BLOCKING_REASONS" "''neutral_low_confidence'' \<in> BLOCKING_REASONS"
  "''below_min_confidence'' \<in> BLOCKING_REASONS" "''idempotent_hash_unchanged'' \<in> BLOCKING_REASONS"
  "''budget_pressure_requires_high_priority'' \<in> BLOCKING_REASONS" "''cooldown_active'' \<in> BLOCKING_REASONS"
  "''high_priority_hour_cap'' \<in> BLOCKING_REASONS" "''no_actionable_change'' \<in> BLOCKING_REASONS"
  by (simp_all only: BLOCKING_REASONS_def insert_iff simp_thms)

lemma not_blocked_add: "v \<notin> BLOCKING_REASONS \<Longrightarrow> str_trim v = v \<Longrightarrow> blocked (add_if b v codes) \<longleftrightarrow> blocked codes"
  by (auto simp: blocked_def add_if_def withReason_def Let_def)

lemma trigger_members:
  "''signal_flip'' \<notin> BLOCKING_REASONS \<and> str_trim ''signal_flip'' = ''signal_flip''"
  "''confidence_jump'' \<notin> BLOCKING_REASONS \<and> str_trim ''confidence_jump'' = ''confidence_jump''"
  "''regime_state_changed'' \<notin> BLOCKING_REASONS \<and> str_trim ''regime_state_changed'' = ''regime_state_changed''"
  "''regime_recent_switch'' \<notin> BLOCKING_REASONS \<and> str_trim ''regime_recent_switch'' = ''regime_recent_switch''"
  "''high_importance_event_recent'' \<notin> BLOCKING_REASONS \<and> str_trim ''high_importance_event_recent'' = ''high_importance_event_recent''"
  "''near_key_level_setup'' \<notin> BLOCKING_REASONS \<and> str_trim ''near_key_level_setup'' = ''near_key_level_setup''"
  unfolding BLOCKING_REASONS_def by code_simp+

lemma triggers_not_blocked: "\<not> blocked (fst (gate_triggers parse_date c i))"
  by (simp add: gate_triggers_def Let_def not_blocked_add trigger_members blocked_def [of "[]"])

lemma block_codes:
  assumes "codes = fst (gate_triggers parse_date c i)"
  shows "blocked (gate_blocks hash parse_date c i st priority codes) \<longleftrightarrow>
    \<not> has_trigger parse_date c i \<or> stale_prediction parse_date c i \<or>
    n_lt (confidence_of i) (if gp_signal (gi_prediction i) = Neutral then gc_minConfidenceForNeutralExplain c
                            else gc_minConfidenceForExplain c) \<or>
    hashes_unchanged hash i \<or>
    (if priority = PrioHigh then n_le (gc_maxHighPriorityPerHour c) (ws_highPriorityCallsLastHour st)
     else under_budget_pressure c i \<or> cooldown_active c i)"
proof -
  have free: "\<not> blocked codes" unfolding assms by (rule triggers_not_blocked)
  have empty: "codes = [] \<longleftrightarrow> \<not> has_trigger parse_date c i" unfolding assms using trigger_any by blast
  show ?thesis
    unfolding gate_blocks_def Let_def blocked_add [OF blocking_members(1)] blocked_add [OF blocking_members(2)]
      blocked_add [OF blocking_members(3)] blocked_add [OF blocking_members(4)] blocked_add [OF blocking_members(5)]
      blocked_add [OF blocking_members(6)] blocked_add [OF blocking_members(7)] blocked_add [OF blocking_members(8)] empty
    using free by (cases "gp_signal (gi_prediction i) = Neutral"; cases "priority = PrioHigh") auto
qed

text \<open>An enabled gate allows a call exactly when something happened that is worth explaining, the
  prediction is fresh and confident enough for its signal, it was not explained before in the same
  form, and: an urgent call is within the cap of the hour, any other call is outside the cooldown
  and not under budget pressure.\<close>

theorem gate_allows_iff:
  assumes "c = normalizeConfig (gi_config i)" "gc_enabled c" "shouldInvokeAiExplain hash parse_date i tm = (d, tm')"
  shows "(gd_priority d = PrioHigh \<longleftrightarrow> urgent parse_date c i) \<and>
    (gd_allow d \<longleftrightarrow> has_trigger parse_date c i \<and> \<not> stale_prediction parse_date c i \<and>
      \<not> n_lt (confidence_of i) (if gp_signal (gi_prediction i) = Neutral then gc_minConfidenceForNeutralExplain c
                                else gc_minConfidenceForExplain c) \<and>
      \<not> hashes_unchanged hash i \<and>
      (if urgent parse_date c i
       then \<not> n_le (gc_maxHighPriorityPerHour c) (ws_highPriorityCallsLastHour (normalizeWindowState (gi_gateState i) (gi_nowMs i)))
       else \<not> under_budget_pressure c i \<and> \<not> cooldown_active c i))"
proof -
  let ?t = "gate_triggers parse_date c i" and ?st = "normalizeWindowState (gi_gateState i) (gi_nowMs i)"
  have p: "gd_priority d = snd ?t"
    and a: "gd_allow d \<longleftrightarrow> fst ?t \<noteq> [] \<and> \<not> blocked (gate_blocks hash parse_date c i ?st (snd ?t) (fst ?t))"
    using assms by (auto simp: shouldInvokeAiExplain_def Let_def blocked_def split: prod.splits)
  show ?thesis unfolding a p block_codes [OF refl] trigger_any trigger_priority by auto
qed

definition fresh_state :: rolling_state where
  "fresh_state = \<lparr> rs_lastAiCallTs = None, rs_lastExplainedPredictionHash = None, rs_lastExplainedHistoryHash = None,
     rs_lastAiDecisionHash = None, rs_windowStartedAt = None, rs_aiCallsLastHour = Fin 0,
     rs_highPriorityCallsLastHour = Fin 0 \<rparr>"

definition sample_input :: "pred_signal \<Rightarrow> rat \<Rightarrow> rat \<Rightarrow> gate_input" where
  "sample_input sig conf now =
     \<lparr> gi_timeframe = TF5m, gi_nowMs = Fin now,
       gi_prediction = \<lparr> gp_signal = sig, gp_confidence = Fin conf, gp_expectedMovePct = Fin 1, gp_tsUpdated = DateObj (Fin now) \<rparr>,
       gi_featureSnapshot = [], gi_prevState = Some \<lparr> gv_signal = Down, gv_confidence = Fin conf, gv_featureSnapshot = [] \<rparr>,
       gi_gateState = fresh_state, gi_config = None, gi_budgetPressureConsecutive = None \<rparr>"

theorem gate_allows_iff_witness:
  "gd_allow (fst (shouldInvokeAiExplain (\<lambda>_. ''h'') (\<lambda>_. NaN) (sample_input Up 80 1000) empty_telemetry))"
proof -
  let ?i = "sample_input Up 80 1000" and ?c = "normalizeConfig None"
  obtain d tm' where R: "shouldInvokeAiExplain (\<lambda>_. ''h'') (\<lambda>_. NaN) ?i empty_telemetry = (d, tm')" by fastforce
  have c: "?c = normalizeConfig (gi_config ?i)" by (simp add: sample_input_def)
  have "gc_enabled ?c" by (simp add: normalizeConfig_def DEFAULT_CONFIG_def no_overrides_def opt_get_def Let_def)
  from gate_allows_iff [OF c this R] have "gd_allow d"
  proof (elim conjE, subst (asm) HOL.eq_commute [of "gd_allow d"], elim iffD1, intro conjI)
    show "has_trigger (\<lambda>_. NaN) ?c ?i" by code_simp
    show "\<not> stale_prediction (\<lambda>_. NaN) ?c ?i" by code_simp
    show "\<not> n_lt (confidence_of ?i) (if gp_signal (gi_prediction ?i) = Neutral then gc_minConfidenceForNeutralExplain ?c
        else gc_minConfidenceForExplain ?c)" by code_simp
    show "\<not> hashes_unchanged (\<lambda>_. ''h'') ?i" by (simp add: hashes_unchanged_def sample_input_def fresh_state_def)
    show "if urgent (\<lambda>_. NaN) ?c ?i
        then \<not> n_le (gc_maxHighPriorityPerHour ?c) (ws_highPriorityCallsLastHour (normalizeWindowState (gi_gateState ?i) (gi_nowMs ?i)))
        else \<not> under_budget_pressure ?c ?i \<and> \<not> cooldown_active ?c ?i" by code_simp
  qed
  then show ?thesis using R by simp
qed

section \<open>The cap of the hour\<close>

text \<open>The state after a call, and a session of calls with what was called when.\<close>

definition state_after_call :: "rolling_state \<Rightarrow> jsnum \<Rightarrow> gate_decision \<Rightarrow> rolling_state" where
  "state_after_call rs now d =
     (let w = applyAiQualityGateCallToState (gd_state d) (gd_priority d)
      in rs\<lparr> rs_lastAiCallTs := Some now, rs_lastExplainedPredictionHash := Some (gd_predictionHash d),
             rs_lastExplainedHistoryHash := Some (gd_historyHash d), rs_lastAiDecisionHash := Some (gd_decisionHash d),
             rs_windowStartedAt := Some (ws_windowStartedAt w), rs_aiCallsLastHour := ws_aiCallsLastHour w,
             rs_highPriorityCallsLastHour := ws_highPriorityCallsLastHour w \<rparr>)"

fun gate_session ::
  "(jsval \<Rightarrow> string) \<Rightarrow> (string \<Rightarrow> jsnum) \<Rightarrow> rolling_state \<Rightarrow> (jsnum \<times> gate_priority) list \<Rightarrow> gate_input list \<Rightarrow>
     rolling_state \<times> (jsnum \<times> gate_priority) list" where
  "gate_session hash parse_date rs calls [] = (rs, calls)"
| "gate_session hash parse_date rs calls (i # is) =
     (let d = fst (shouldInvokeAiExplain hash parse_date (i\<lparr> gi_gateState := rs \<rparr>) empty_telemetry)
      in if gd_allow d
         then gate_session hash parse_date (state_after_call rs (gi_nowMs i) d) (calls @ [(gi_nowMs i, gd_priority d)]) is
         else gate_session hash parse_date rs calls is)"

definition urgent_since :: "jsnum \<Rightarrow> (jsnum \<times> gate_priority) list \<Rightarrow> nat" where
  "urgent_since w calls = length (filter (\<lambda>(t, p). p = PrioHigh \<and> n_le w t) calls)"

lemma trunc_of_nat: "n_trunc (Fin (of_nat k)) = Fin (of_nat k)"
  by (simp add: floor_of_nat [of k, where 'a = rat])

lemma cap_integer:
  assumes "gc_maxHighPriorityPerHour (normalizeConfig cfg) = Fin cap"
  shows "\<exists>m. cap = of_int m \<and> 1 \<le> m \<and> m \<le> 200"
proof -
  obtain x where x: "clamp 1 200 (n_trunc x) = Fin cap" using assms by (auto simp: normalizeConfig_def Let_def)
  show ?thesis
  proof (cases x)
    case (Fin a)
    define m where "m = (if 0 \<le> a then \<lfloor>a\<rfloor> else - \<lfloor>- a\<rfloor>)"
    have "cap = max 1 (min 200 (of_int m))" using x Fin unfolding m_def by (simp add: clamp_def n_fin split: if_splits)
    then have "cap = of_int (max 1 (min 200 m))" by (simp add: max_def min_def)
    then show ?thesis by (intro exI [of _ "max 1 (min 200 m)"]) simp
  qed (use x in \<open>auto simp: clamp_def n_max_def n_min_def intro: exI [of _ 200] exI [of _ 1]\<close>)
qed

text \<open>The counter of the state counts the urgent calls of its window, which is shorter than an hour.\<close>

definition window_ok :: "int \<Rightarrow> rolling_state \<Rightarrow> (jsnum \<times> gate_priority) list \<Rightarrow> int \<Rightarrow> bool" where
  "window_ok cap rs calls now \<longleftrightarrow>
     (case rs_windowStartedAt rs of
        None \<Rightarrow> calls = [] \<and> rs_highPriorityCallsLastHour rs = Fin 0
      | Some w \<Rightarrow> \<exists>s k. w = Fin (of_int s) \<and> 0 \<le> s \<and> s \<le> now \<and> int k \<le> cap \<and>
          rs_highPriorityCallsLastHour rs = Fin (of_nat k) \<and> k = urgent_since w calls \<and>
          (\<forall>(t, p)\<in>set calls. \<exists>z. t = Fin (of_int z) \<and> z < s + 3600000))"

lemma urgent_since_snoc:
  "urgent_since w (calls @ [(t, p)]) = urgent_since w calls + (if p = PrioHigh \<and> n_le w t then 1 else 0)"
  by (simp add: urgent_since_def)

lemma normalize_window:
  assumes "window_ok cap rs calls prev" "prev \<le> now" "now \<le> 8640000000000000" "1 \<le> cap" "0 \<le> now"
  shows "\<exists>s k. ws_windowStartedAt (normalizeWindowState rs (Fin (of_int now))) = Fin (of_int s) \<and> 0 \<le> s \<and> s \<le> now \<and>
    now < s + 3600000 \<and> int k \<le> cap \<and>
    ws_highPriorityCallsLastHour (normalizeWindowState rs (Fin (of_int now))) = Fin (of_nat k) \<and>
    k = urgent_since (Fin (of_int s)) calls \<and> (\<forall>(t, p)\<in>set calls. \<exists>z. t = Fin (of_int z) \<and> z < s + 3600000)"
proof (cases "rs_windowStartedAt rs")
  case None
  then show ?thesis using assms(1,3-5) n_sub_safe [of now now]
    by (intro exI [of _ now] exI [of _ 0])
      (simp add: window_ok_def normalizeWindowState_def opt_get_def falsy_zero_def n_fin urgent_since_def)
next
  case (Some w)
  then obtain s k where w: "w = Fin (of_int s)" "0 \<le> s" "s \<le> prev" "int k \<le> cap"
    "rs_highPriorityCallsLastHour rs = Fin (of_nat k)" "k = urgent_since w calls"
    "\<forall>(t, p)\<in>set calls. \<exists>z. t = Fin (of_int z) \<and> z < s + 3600000"
    using assms(1) by (auto simp: window_ok_def)
  have d: "n_sub (Fin (of_int now)) (Fin (of_int s)) = Fin (of_int (now - s))" using assms(2,3) w(2,3) by (intro n_sub_safe) simp
  show ?thesis
  proof (cases "3600000 \<le> now - s")
    case True
    have "urgent_since (Fin (of_int now)) calls = 0"
      using w(7) True by (fastforce simp: urgent_since_def filter_empty_conv n_le_Fin)
    moreover have "(3600000 :: rat) \<le> of_int (now - s)" using True by (metis of_int_le_iff of_int_numeral)
    moreover have "\<forall>(t, p)\<in>set calls. \<exists>z. t = Fin (of_int z) \<and> z < now + 3600000" using w(7) assms(2) w(3) by fastforce
    ultimately show ?thesis using Some w(1) d assms(4,5)
      by (intro exI [of _ now] exI [of _ 0]) (simp add: normalizeWindowState_def opt_get_def n_le_Fin)
  next
    case False
    then have "\<not> (3600000 :: rat) \<le> of_int (now - s)" by (metis of_int_le_iff of_int_numeral)
    then show ?thesis using Some w d False assms(2)
      by (intro exI [of _ s] exI [of _ k])
        (simp add: normalizeWindowState_def Let_def opt_get_def n_fin falsy_zero_def trunc_of_nat)
  qed
qed

lemma decision_state: "gd_state (fst (shouldInvokeAiExplain hash parse_date i tm)) = normalizeWindowState (gi_gateState i) (gi_nowMs i)"
  by (simp add: shouldInvokeAiExplain_def Let_def split: prod.split)

lemma call_keeps_window:
  assumes "window_ok cap rs calls prev" "prev \<le> now" "0 \<le> now" "now \<le> 8640000000000000"
    and "gi_nowMs i = Fin (of_int now)" "gi_gateState i = rs" "gc_enabled (normalizeConfig (gi_config i))"
    and "gc_maxHighPriorityPerHour (normalizeConfig (gi_config i)) = Fin (of_int cap)" "1 \<le> cap" "cap \<le> 200"
    and "d = fst (shouldInvokeAiExplain hash parse_date i tm)" "gd_allow d"
  shows "window_ok cap (state_after_call rs (gi_nowMs i) d) (calls @ [(gi_nowMs i, gd_priority d)]) now"
proof -
  let ?st = "normalizeWindowState rs (Fin (of_int now))"
  obtain s k where w: "ws_windowStartedAt ?st = Fin (of_int s)" "0 \<le> s" "s \<le> now" "now < s + 3600000" "int k \<le> cap"
    "ws_highPriorityCallsLastHour ?st = Fin (of_nat k)" "k = urgent_since (Fin (of_int s)) calls"
    "\<forall>(t, p)\<in>set calls. \<exists>z. t = Fin (of_int z) \<and> z < s + 3600000"
    using normalize_window [OF assms(1,2,4,9,3)] by blast
  have st: "gd_state d = ?st" using assms(5,6,11) by (simp add: decision_state)
  obtain tm' where R: "shouldInvokeAiExplain hash parse_date i tm = (d, tm')" using assms(11) by (metis prod.collapse)
  have cap: "int k < cap" if "gd_priority d = PrioHigh"
  proof -
    have "\<not> n_le (gc_maxHighPriorityPerHour (normalizeConfig (gi_config i)))
        (ws_highPriorityCallsLastHour (normalizeWindowState (gi_gateState i) (gi_nowMs i)))"
      using gate_allows_iff [OF refl assms(7) R] that assms(12) by (metis (full_types))
    then have "\<not> n_le (Fin (of_int cap)) (Fin (of_nat k))" unfolding assms(5,6,8) w(6) .
    then have "(of_int (int k) :: rat) < of_int cap" by (simp add: n_le_Fin)
    then show ?thesis by (simp only: of_int_less_iff)
  qed
  have add: "n_add (Fin (of_nat k)) (Fin 1) = Fin (of_nat (Suc k))"
    using n_add_safe [of "int k" 1] w(5) assms(10) by (simp add: add.commute)
  let ?rs = "state_after_call rs (gi_nowMs i) d"
  have "rs_windowStartedAt ?rs = Some (Fin (of_int s))"
    using w(1) st by (simp add: state_after_call_def applyAiQualityGateCallToState_def Let_def)
  moreover have "rs_highPriorityCallsLastHour ?rs = Fin (of_nat (if gd_priority d = PrioHigh then Suc k else k))"
    using w(6) st add by (simp add: state_after_call_def applyAiQualityGateCallToState_def Let_def trunc_of_nat n_max_Fin)
  moreover have "(if gd_priority d = PrioHigh then Suc k else k) = urgent_since (Fin (of_int s)) (calls @ [(gi_nowMs i, gd_priority d)])"
    using w(3,7) assms(5) by (simp add: urgent_since_snoc n_le_Fin)
  moreover have "\<forall>(t, p)\<in>set (calls @ [(gi_nowMs i, gd_priority d)]). \<exists>z. t = Fin (of_int z) \<and> z < s + 3600000"
    using w(4,8) assms(5) by auto
  moreover have "int (if gd_priority d = PrioHigh then Suc k else k) \<le> cap" using w(5) cap by auto
  ultimately show ?thesis
    unfolding window_ok_def using w(2,3)
    by (simp only: option.case) (intro exI [of _ s] exI [of _ "if gd_priority d = PrioHigh then Suc k else k"] conjI, simp_all)
qed

lemma window_later: "window_ok cap rs calls t \<Longrightarrow> t \<le> t' \<Longrightarrow> window_ok cap rs calls t'"
  by (force simp: window_ok_def split: option.splits)

lemma session_window:
  assumes "window_ok cap rs calls prev" "sorted (prev # ts)" "\<forall>t\<in>set ts. 0 \<le> t \<and> t \<le> 8640000000000000"
    and "map gi_nowMs is = map (\<lambda>t. Fin (of_int t)) ts" "\<forall>i\<in>set is. gi_config i = cfg"
    and "gc_enabled (normalizeConfig cfg)" "gc_maxHighPriorityPerHour (normalizeConfig cfg) = Fin (of_int cap)"
    and "1 \<le> cap" "cap \<le> 200" "gate_session hash parse_date rs calls is = (rs', calls')"
  shows "\<exists>t. window_ok cap rs' calls' t"
  using assms
proof (induction "is" arbitrary: rs calls prev ts)
  case (Cons i "is")
  obtain t ts' where ts: "ts = t # ts'" "gi_nowMs i = Fin (of_int t)" "map gi_nowMs is = map (\<lambda>t. Fin (of_int t)) ts'"
    using Cons.prems(4) by (cases ts) auto
  let ?i = "i\<lparr> gi_gateState := rs \<rparr>"
  let ?d = "fst (shouldInvokeAiExplain hash parse_date ?i empty_telemetry)"
  have rest: "sorted (t # ts')" "\<forall>t\<in>set ts'. 0 \<le> t \<and> t \<le> 8640000000000000" "\<forall>i\<in>set is. gi_config i = cfg" "prev \<le> t"
    using Cons.prems(2,3,5) ts(1) by auto
  show ?case
  proof (cases "gd_allow ?d")
    case True
    have "window_ok cap (state_after_call rs (gi_nowMs ?i) ?d) (calls @ [(gi_nowMs ?i, gd_priority ?d)]) t"
      by (rule call_keeps_window [OF Cons.prems(1) rest(4)]) (use Cons.prems True ts in simp_all)
    then have W: "window_ok cap (state_after_call rs (gi_nowMs i) ?d) (calls @ [(gi_nowMs i, gd_priority ?d)]) t" by simp
    show ?thesis
      using Cons.IH [OF W rest(1,2) ts(3) rest(3) Cons.prems(6-9)] Cons.prems(10) True by (simp add: Let_def)
  next
    case False
    have W: "window_ok cap rs calls t" using Cons.prems(1) rest(4) by (rule window_later)
    show ?thesis
      using Cons.IH [OF W rest(1,2) ts(3) rest(3) Cons.prems(6-9)] Cons.prems(10) False by (simp add: Let_def)
  qed
qed auto

text \<open>Over any sequence of requests in the order of time, with one configuration and an enabled gate,
  the urgent calls made since the start of the current window never exceed the configured cap.\<close>

theorem gate_hour_cap:
  assumes "sorted ts" "\<forall>t\<in>set ts. 0 \<le> t \<and> t \<le> 8640000000000000" "map gi_nowMs is = map (\<lambda>t. Fin (of_int t)) ts"
    and "\<forall>i\<in>set is. gi_config i = cfg" "gc_enabled (normalizeConfig cfg)"
    and "gc_maxHighPriorityPerHour (normalizeConfig cfg) = Fin cap"
    and "gate_session hash parse_date fresh_state [] is = (rs, calls)" "rs_windowStartedAt rs = Some w"
  shows "of_nat (urgent_since w calls) \<le> cap \<and> cap \<le> 200"
proof -
  obtain m where m: "cap = of_int m" "1 \<le> m" "m \<le> 200" using cap_integer [OF assms(6)] by blast
  have "window_ok m fresh_state [] 0" by (simp add: window_ok_def fresh_state_def)
  moreover have "sorted (0 # ts)" using assms(1,2) by simp
  ultimately obtain t where "window_ok m rs calls t"
    using session_window [of m fresh_state "[]" 0 ts "is" cfg hash parse_date rs calls] assms m by auto
  then have "int (urgent_since w calls) \<le> m" using assms(8) by (auto simp: window_ok_def)
  then have "(of_int (int (urgent_since w calls)) :: rat) \<le> of_int m" by (simp only: of_int_le_iff)
  then show ?thesis using m by simp
qed

theorem gate_hour_cap_witness:
  "\<exists>rs calls w. gate_session (\<lambda>_. ''h'') (\<lambda>_. NaN) fresh_state [] [sample_input Up 80 1000] = (rs, calls) \<and>
     calls \<noteq> [] \<and> rs_windowStartedAt rs = Some w \<and> urgent_since w calls \<le> 12"
proof -
  let ?is = "[sample_input Up 80 1000]"
  obtain rs calls where R: "gate_session (\<lambda>_. ''h'') (\<lambda>_. NaN) fresh_state [] ?is = (rs, calls)" by fastforce
  have e: "(rs_windowStartedAt (fst (gate_session (\<lambda>_. ''h'') (\<lambda>_. NaN) fresh_state [] ?is)),
      snd (gate_session (\<lambda>_. ''h'') (\<lambda>_. NaN) fresh_state [] ?is)) = (Some (Fin 1000), [(Fin 1000, PrioHigh)])" by code_simp
  have "gc_enabled (normalizeConfig None)" "gc_maxHighPriorityPerHour (normalizeConfig None) = Fin 12" by code_simp+
  from gate_hour_cap [of "[1000]" ?is None 12 _ _ rs calls "Fin 1000", OF _ _ _ _ this R]
  have "of_nat (urgent_since (Fin 1000) calls) \<le> (12 :: rat)" using e R by (simp add: sample_input_def)
  then have "urgent_since (Fin 1000) calls \<le> 12" by (metis of_nat_le_iff of_nat_numeral)
  then show ?thesis using R e by auto
qed

end
