(* ===== verification/CompositeRunner.thy ===== *)
theory CompositeRunner
  imports CompositeGraph QualityGate
begin

text \<open>
  Running a composite strategy (apps/api/src/composite-strategies/runner.ts): the nodes of a valid
  graph in topological order, each executed, skipped or failed, and the signal the output policy
  derives from their results. The injected services are the fields of \<open>runner_deps\<close>; they get the
  number of results so far, so that they may answer the same question differently later.
\<close>

section \<open>Data\<close>

datatype node_status = Executed | Skipped | Failed
datatype signal_source = SrcLocal | SrcAi | SrcPassthrough

record driver =
  dv_name :: string
  dv_value :: jsval

record trace_edge =
  te_from :: string
  te_rule :: edge_rule
  te_confidenceGte :: "jsnum option"
  te_source :: "(node_status \<times> pred_signal \<times> jsnum) option"

record input_trace =
  it_signal :: pred_signal
  it_confidence :: jsnum
  it_incomingEdges :: "trace_edge list"
  it_previousNodeId :: "string option"

record output_trace =
  ot_signal :: pred_signal
  ot_confidence :: jsnum
  ot_signalSource :: signal_source
  ot_expectedMovePct :: "jsnum option"
  ot_allow :: "bool option"

record ai_prediction =
  ap_signal :: jsval
  ap_confidence :: jsnum
  ap_expectedMovePct :: jsnum

datatype node_meta =
    MetaIncoming nat
  | MetaFailure string
  | MetaLocal string string bool "string list" string string jsnum
  | MetaBudget nat
  | MetaGate "string list" gate_priority string
  | MetaAi ai_prediction jsval string gate_priority string "string option"

record diagnostic =
  dg_code :: string
  dg_message :: string

record node_result =
  nr_nodeId :: string
  nr_kind :: node_kind
  nr_refId :: string
  nr_refVersion :: "string option"
  nr_status :: node_status
  nr_executed :: bool
  nr_skippedReason :: "string option"
  nr_inputSignal :: pred_signal
  nr_inputConfidence :: jsnum
  nr_outputSignal :: pred_signal
  nr_outputConfidence :: jsnum
  nr_tags :: "string list"
  nr_keyDrivers :: "driver list"
  nr_explanation :: string
  nr_inputTrace :: input_trace
  nr_outputTrace :: output_trace
  nr_diagnostics :: "diagnostic list"
  nr_meta :: node_meta

record base_prediction =
  bp_signal :: pred_signal
  bp_confidence :: jsnum
  bp_expectedMovePct :: jsnum
  bp_symbol :: string
  bp_marketType :: string
  bp_timeframe :: timeframe
  bp_tsCreated :: string

record run_input =
  ri_compositeId :: string
  ri_nodesJson :: jsval
  ri_edgesJson :: jsval
  ri_combineMode :: jsval
  ri_outputPolicy :: jsval
  ri_featureSnapshot :: jsobj
  ri_base :: base_prediction
  ri_gateConfig :: "gate_overrides option"
  ri_gateState :: "rolling_state option"

record local_result =
  lr_allow :: bool
  lr_score :: jsnum
  lr_strategyType :: string
  lr_version :: string
  lr_reasonCodes :: "string list"
  lr_tags :: "string list"
  lr_explanation :: string
  lr_configHash :: string
  lr_snapshotHash :: string

record runtime_prompt =
  pt_activePromptId :: "string option"
  pt_activePromptName :: "string option"

record explainer_output =
  ex_prediction :: ai_prediction
  ex_tags :: jsval
  ex_keyDrivers :: jsval
  ex_explanation :: jsval
  ex_disclaimer :: jsval

text \<open>A service that throws answers \<open>Inl\<close> of the message.\<close>

record runner_deps =
  rd_resolveLocal :: "(string \<Rightarrow> ref_resolution) option"
  rd_resolveAi :: "(string \<Rightarrow> ref_resolution) option"
  rd_runLocal :: "nat \<Rightarrow> string \<Rightarrow> pred_signal \<Rightarrow> node_result option \<Rightarrow> string + local_result"
  rd_prompt :: "nat \<Rightarrow> string \<Rightarrow> string + runtime_prompt"
  rd_generate :: "nat \<Rightarrow> pred_signal \<Rightarrow> jsnum \<Rightarrow> runtime_prompt \<Rightarrow> string + explainer_output"
  rd_gate :: "nat \<Rightarrow> gate_input \<Rightarrow> gate_decision"
  rd_budget :: "nat \<Rightarrow> jsnum"
  rd_now :: "nat \<Rightarrow> jsnum"
  rd_parseDate :: "string \<Rightarrow> jsnum"

section \<open>Helpers\<close>

definition toFinite :: "jsnum \<Rightarrow> jsnum \<Rightarrow> jsnum" where
  "toFinite fallback v = (if is_finite v then v else fallback)"

definition clampPct :: "jsnum \<Rightarrow> jsnum \<Rightarrow> jsnum" where
  "clampPct fallback v = n_max (Fin 0) (n_min (Fin 100) (toFinite fallback v))"

abbreviation pct :: "jsnum \<Rightarrow> jsnum" where
  "pct \<equiv> clampPct (Fin 0)"

definition normalizeSignal :: "jsval \<Rightarrow> pred_signal" where
  "normalizeSignal v = (if v = JStr ''up'' then Up else if v = JStr ''down'' then Down else Neutral)"

text \<open>Lower-case tags without repetition, up to a limit.\<close>

fun tag_loop :: "nat \<Rightarrow> string list \<Rightarrow> string list \<Rightarrow> string list" where
  "tag_loop limit out [] = out"
| "tag_loop limit out (x # xs) =
     (let normalized = str_lower (str_trim x)
      in if normalized = '''' \<or> normalized \<in> set out then tag_loop limit out xs
         else if limit \<le> length (out @ [normalized]) then out @ [normalized]
         else tag_loop limit (out @ [normalized]) xs)"

definition normalizeTags :: "jsval \<Rightarrow> string list" where
  "normalizeTags value = tag_loop 30 [] (List.map_filter as_str (opt_get (as_array value) []))"

definition mergeTags :: "string list \<Rightarrow> string list \<Rightarrow> string list" where
  "mergeTags base next = tag_loop 20 [] (base @ next)"

definition null_if_undef :: "jsval \<Rightarrow> jsval" where
  "null_if_undef v = coalesce v JNull"

definition normalizeDrivers :: "jsval \<Rightarrow> driver list" where
  "normalizeDrivers value =
     take 20 (List.map_filter (\<lambda>item.
       let row = as_object item; name = trimmed (sub_val row ''name'')
       in if name = '''' then None else Some \<lparr> dv_name = name, dv_value = null_if_undef (sub_val row ''value'') \<rparr>)
       (opt_get (as_array value) []))"

fun driver_loop :: "nat \<Rightarrow> driver list \<Rightarrow> driver list \<Rightarrow> driver list" where
  "driver_loop limit out [] = out"
| "driver_loop limit out (x # xs) =
     (let key = str_trim (dv_name x); next = \<lparr> dv_name = key, dv_value = null_if_undef (dv_value x) \<rparr>
      in if key = '''' \<or> key \<in> dv_name ` set out then driver_loop limit out xs
         else if limit \<le> length (out @ [next]) then out @ [next]
         else driver_loop limit (out @ [next]) xs)"

definition mergeDrivers :: "driver list \<Rightarrow> driver list \<Rightarrow> driver list" where
  "mergeDrivers base next = driver_loop 10 [] (base @ next)"

definition sanitizeText :: "string \<Rightarrow> jsval \<Rightarrow> string" where
  "sanitizeText fallback value =
     (case as_str value of None \<Rightarrow> fallback | Some s \<Rightarrow> if str_trim s = '''' then fallback else str_trim s)"

section \<open>Dependencies of a node\<close>

text \<open>The first reason not to execute, if any.\<close>

fun blocked_by :: "comp_edge list \<Rightarrow> (string \<Rightarrow> node_result option) \<Rightarrow> string option" where
  "blocked_by [] outputs = None"
| "blocked_by (e # es) outputs =
     (case outputs (ce_from e) of
        None \<Rightarrow> Some (''dependency_missing:'' @ ce_from e)
      | Some source \<Rightarrow>
          if nr_status source = Failed then Some (''dependency_failed:'' @ ce_from e)
          else if \<not> nr_executed source then Some (''dependency_not_executed:'' @ ce_from e)
          else case opt_get (ce_rule e) RuleAlways of
                 RuleAlways \<Rightarrow> blocked_by es outputs
               | RuleSignalNotNeutral \<Rightarrow>
                   if nr_outputSignal source = Neutral then Some (''edge_blocked_signal_neutral:'' @ ce_from e)
                   else blocked_by es outputs
               | RuleConfidenceGte \<Rightarrow>
                   if n_lt (nr_outputConfidence source) (clampPct (Fin 60) (opt_get (ce_confidenceGte e) NaN))
                   then Some (''edge_blocked_confidence:'' @ ce_from e)
                   else blocked_by es outputs)"

record run_state =
  st_results :: "node_result list"
  st_outputs :: "string \<Rightarrow> node_result option"
  st_signal :: pred_signal
  st_confidence :: jsnum
  st_tags :: "string list"
  st_drivers :: "driver list"
  st_explanation :: string
  st_previous :: "node_result option"
  st_aiCallsUsed :: nat
  st_gateState :: rolling_state

definition buildInputTrace :: "comp_edge list \<Rightarrow> run_state \<Rightarrow> input_trace" where
  "buildInputTrace incoming st =
     \<lparr> it_signal = st_signal st, it_confidence = st_confidence st,
       it_incomingEdges = map (\<lambda>e. \<lparr> te_from = ce_from e, te_rule = opt_get (ce_rule e) RuleAlways,
         te_confidenceGte = ce_confidenceGte e,
         te_source = map_option (\<lambda>s. (nr_status s, nr_outputSignal s, nr_outputConfidence s)) (st_outputs st (ce_from e)) \<rparr>) incoming,
       it_previousNodeId = map_option nr_nodeId (st_previous st) \<rparr>"

definition passthrough :: "run_state \<Rightarrow> output_trace" where
  "passthrough st = \<lparr> ot_signal = st_signal st, ot_confidence = st_confidence st, ot_signalSource = SrcPassthrough,
     ot_expectedMovePct = None, ot_allow = None \<rparr>"

text \<open>A result that changes nothing: a failure, or a node that was skipped for a reason.\<close>

definition idle_result ::
  "comp_node \<Rightarrow> comp_edge list \<Rightarrow> run_state \<Rightarrow> node_status \<Rightarrow> string option \<Rightarrow> string \<Rightarrow> diagnostic \<Rightarrow> node_meta \<Rightarrow> node_result" where
  "idle_result node incoming st status reason explanation dg meta =
     \<lparr> nr_nodeId = cn_id node, nr_kind = cn_kind node, nr_refId = cn_refId node, nr_refVersion = cn_refVersion node,
       nr_status = status, nr_executed = False, nr_skippedReason = reason,
       nr_inputSignal = st_signal st, nr_inputConfidence = st_confidence st,
       nr_outputSignal = st_signal st, nr_outputConfidence = st_confidence st,
       nr_tags = [], nr_keyDrivers = [], nr_explanation = explanation,
       nr_inputTrace = buildInputTrace incoming st, nr_outputTrace = passthrough st,
       nr_diagnostics = [dg], nr_meta = meta \<rparr>"

definition buildExecutionFailure :: "comp_node \<Rightarrow> comp_edge list \<Rightarrow> run_state \<Rightarrow> string \<Rightarrow> string \<Rightarrow> node_result" where
  "buildExecutionFailure node incoming st code_id message =
     idle_result node incoming st Failed None '''' \<lparr> dg_code = code_id, dg_message = message \<rparr> (MetaFailure (cn_refId node))"

definition skipped_result :: "comp_node \<Rightarrow> comp_edge list \<Rightarrow> run_state \<Rightarrow> string \<Rightarrow> string \<Rightarrow> diagnostic \<Rightarrow> node_meta \<Rightarrow> node_result" where
  "skipped_result node incoming st reason explanation dg meta =
     idle_result node incoming st Skipped (Some reason) explanation dg meta"

text \<open>Recording a result, and for an executed node also what it changes for the ones after it.\<close>

definition push_result :: "node_result \<Rightarrow> run_state \<Rightarrow> run_state" where
  "push_result r st = st\<lparr> st_results := st_results st @ [r], st_outputs := (st_outputs st)(nr_nodeId r \<mapsto> r),
     st_previous := Some r \<rparr>"

definition apply_execution :: "node_result \<Rightarrow> run_state \<Rightarrow> run_state" where
  "apply_execution r st =
     push_result r (st\<lparr> st_signal := nr_outputSignal r, st_confidence := nr_outputConfidence r,
       st_tags := mergeTags (st_tags st) (nr_tags r), st_drivers := mergeDrivers (st_drivers st) (nr_keyDrivers r),
       st_explanation := (if nr_explanation r = '''' then st_explanation st
         else if st_explanation st = '''' then nr_explanation r
         else st_explanation st @ [CHR 0x0A] @ nr_explanation r) \<rparr>)"

section \<open>Local nodes\<close>

definition executed_local :: "comp_node \<Rightarrow> comp_edge list \<Rightarrow> run_state \<Rightarrow> local_result \<Rightarrow> node_result" where
  "executed_local node incoming st lr =
     (let score = pct (lr_score lr);
          outSignal = (if lr_allow lr then st_signal st else Neutral);
          outConfidence = (if lr_allow lr then n_max (st_confidence st) score else n_min (st_confidence st) score)
      in \<lparr> nr_nodeId = cn_id node, nr_kind = cn_kind node, nr_refId = cn_refId node, nr_refVersion = cn_refVersion node,
           nr_status = Executed, nr_executed = True, nr_skippedReason = None,
           nr_inputSignal = st_signal st, nr_inputConfidence = st_confidence st,
           nr_outputSignal = outSignal, nr_outputConfidence = outConfidence,
           nr_tags = lr_tags lr,
           nr_keyDrivers = map (\<lambda>c. \<lparr> dv_name = ''local.'' @ lr_strategyType lr @ ''.'' @ c, dv_value = JBool True \<rparr>) (lr_reasonCodes lr),
           nr_explanation = lr_explanation lr, nr_inputTrace = buildInputTrace incoming st,
           nr_outputTrace = \<lparr> ot_signal = outSignal, ot_confidence = outConfidence, ot_signalSource = SrcLocal,
             ot_expectedMovePct = None, ot_allow = Some (lr_allow lr) \<rparr>,
           nr_diagnostics = [],
           nr_meta = MetaLocal (lr_strategyType lr) (lr_version lr) (lr_allow lr) (lr_reasonCodes lr) (lr_configHash lr)
             (lr_snapshotHash lr) score \<rparr>)"

definition local_step :: "runner_deps \<Rightarrow> comp_node \<Rightarrow> comp_edge list \<Rightarrow> run_state \<Rightarrow> run_state" where
  "local_step deps node incoming st =
     (case rd_runLocal deps (length (st_results st)) (cn_refId node) (st_signal st) (st_previous st) of
        Inl message \<Rightarrow> push_result (buildExecutionFailure node incoming st ''local_node_execution_failed'' message) st
      | Inr lr \<Rightarrow> apply_execution (executed_local node incoming st lr) st)"

section \<open>AI nodes\<close>

definition gate_request :: "runner_deps \<Rightarrow> run_input \<Rightarrow> run_state \<Rightarrow> gate_input" where
  "gate_request deps inp st =
     (let n = length (st_results st); base = ri_base inp
      in \<lparr> gi_timeframe = bp_timeframe base, gi_nowMs = rd_now deps n,
           gi_prediction = \<lparr> gp_signal = st_signal st, gp_confidence = st_confidence st,
             gp_expectedMovePct = bp_expectedMovePct base, gp_tsUpdated = DateVal (JStr (bp_tsCreated base)) \<rparr>,
           gi_featureSnapshot = ri_featureSnapshot inp,
           gi_prevState = map_option (\<lambda>r. \<lparr> gv_signal = nr_inputSignal r, gv_confidence = nr_inputConfidence r,
             gv_featureSnapshot = ri_featureSnapshot inp \<rparr>) (st_previous st),
           gi_gateState = st_gateState st, gi_config = ri_gateConfig inp,
           gi_budgetPressureConsecutive = Some (rd_budget deps n) \<rparr>)"

definition gate_after_call :: "gate_decision \<Rightarrow> jsnum \<Rightarrow> rolling_state" where
  "gate_after_call d now =
     \<lparr> rs_lastAiCallTs = Some now, rs_lastExplainedPredictionHash = Some (gd_predictionHash d),
       rs_lastExplainedHistoryHash = Some (gd_historyHash d), rs_lastAiDecisionHash = Some (gd_decisionHash d),
       rs_windowStartedAt = Some (ws_windowStartedAt (gd_state d)),
       rs_aiCallsLastHour = n_add (ws_aiCallsLastHour (gd_state d)) (Fin 1),
       rs_highPriorityCallsLastHour =
         n_add (ws_highPriorityCallsLastHour (gd_state d)) (Fin (if gd_priority d = PrioHigh then 1 else 0)) \<rparr>"

definition ai_pct :: "jsnum \<Rightarrow> jsnum" where
  "ai_pct c = pct (if n_le c (Fin 1) then n_mul c (Fin 100) else c)"

definition finite_opt :: "jsnum \<Rightarrow> jsnum option" where
  "finite_opt n = (if is_finite n then Some n else None)"

definition executed_ai ::
  "output_policy \<Rightarrow> comp_node \<Rightarrow> comp_edge list \<Rightarrow> run_state \<Rightarrow> gate_decision \<Rightarrow> runtime_prompt \<Rightarrow> explainer_output \<Rightarrow> node_result" where
  "executed_ai policy node incoming st gd prompt out =
     (let keep = (policy = LocalSignalAiExplain);
          outSignal = (if keep then st_signal st else normalizeSignal (ap_signal (ex_prediction out)));
          outConfidence = (if keep then st_confidence st else ai_pct (ap_confidence (ex_prediction out)))
      in \<lparr> nr_nodeId = cn_id node, nr_kind = cn_kind node, nr_refId = cn_refId node, nr_refVersion = cn_refVersion node,
           nr_status = Executed, nr_executed = True, nr_skippedReason = None,
           nr_inputSignal = st_signal st, nr_inputConfidence = st_confidence st,
           nr_outputSignal = outSignal, nr_outputConfidence = outConfidence,
           nr_tags = normalizeTags (ex_tags out), nr_keyDrivers = normalizeDrivers (ex_keyDrivers out),
           nr_explanation = sanitizeText '''' (ex_explanation out), nr_inputTrace = buildInputTrace incoming st,
           nr_outputTrace = \<lparr> ot_signal = outSignal, ot_confidence = outConfidence,
             ot_signalSource = (if keep then SrcPassthrough else SrcAi),
             ot_expectedMovePct = finite_opt (ap_expectedMovePct (ex_prediction out)), ot_allow = Some True \<rparr>,
           nr_diagnostics = [],
           nr_meta = MetaAi (ex_prediction out) (ex_disclaimer out) (gd_decisionHash gd) (gd_priority gd)
             (opt_get (pt_activePromptId prompt) (cn_refId node)) (pt_activePromptName prompt) \<rparr>)"

definition call_ai ::
  "runner_deps \<Rightarrow> nat \<Rightarrow> comp_node \<Rightarrow> run_state \<Rightarrow> string + runtime_prompt \<times> explainer_output" where
  "call_ai deps n node st =
     bind_sum (rd_prompt deps n (cn_refId node)) (\<lambda>prompt.
     bind_sum (rd_generate deps n (st_signal st) (st_confidence st) prompt) (\<lambda>out. Inr (prompt, out)))"

definition ai_step :: "runner_deps \<Rightarrow> run_input \<Rightarrow> output_policy \<Rightarrow> comp_node \<Rightarrow> comp_edge list \<Rightarrow> run_state \<Rightarrow> run_state" where
  "ai_step deps inp policy node incoming st =
     (if 1 \<le> st_aiCallsUsed st
      then push_result (skipped_result node incoming st ''ai_call_budget_exceeded'' ''''
             \<lparr> dg_code = ''ai_call_budget_exceeded'',
               dg_message = ''Composite AI node skipped because the per-run AI call budget was exhausted.'' \<rparr>
             (MetaBudget (st_aiCallsUsed st))) st
      else let n = length (st_results st); gd = rd_gate deps n (gate_request deps inp st)
           in if \<not> gd_allow gd
              then push_result (skipped_result node incoming st
                     (''ai_quality_gate_blocked:'' @ str_join '','' (gd_reasonCodes gd))
                     ''No major state change; awaiting clearer signal.''
                     \<lparr> dg_code = ''ai_quality_gate_blocked'', dg_message = ''Composite AI node was blocked by the quality gate.'' \<rparr>
                     (MetaGate (gd_reasonCodes gd) (gd_priority gd) (gd_decisionHash gd))) st
              else case call_ai deps n node st of
                     Inl message \<Rightarrow> push_result (buildExecutionFailure node incoming st ''ai_node_execution_failed'' message) st
                   | Inr (prompt, out) \<Rightarrow>
                       apply_execution (executed_ai policy node incoming st gd prompt out)
                         (st\<lparr> st_aiCallsUsed := st_aiCallsUsed st + 1, st_gateState := gate_after_call gd (rd_now deps n) \<rparr>))"

section \<open>One node, and all of them\<close>

definition incoming_edges :: "comp_graph \<Rightarrow> string \<Rightarrow> comp_edge list" where
  "incoming_edges g i = filter (\<lambda>e. ce_to e = i) (cg_edges g)"

text \<open>\<open>new Map\<close> of the nodes keeps the last node of an identifier.\<close>

definition node_by_id :: "comp_graph \<Rightarrow> string \<Rightarrow> comp_node option" where
  "node_by_id g i = find (\<lambda>n. cn_id n = i) (rev (cg_nodes g))"

definition node_step :: "runner_deps \<Rightarrow> run_input \<Rightarrow> comp_graph \<Rightarrow> string \<Rightarrow> run_state \<Rightarrow> run_state" where
  "node_step deps inp g nodeId st =
     (case node_by_id g nodeId of
        None \<Rightarrow> st
      | Some node \<Rightarrow>
          (let incoming = incoming_edges g (cn_id node)
           in case blocked_by incoming (st_outputs st) of
                Some reason \<Rightarrow>
                  push_result (skipped_result node incoming st reason ''''
                    \<lparr> dg_code = reason, dg_message = ''Node execution skipped by dependency or edge rule.'' \<rparr>
                    (MetaIncoming (length incoming))) st
              | None \<Rightarrow>
                  (case cn_kind node of
                     LocalNode \<Rightarrow> local_step deps node incoming st
                   | AiNode \<Rightarrow> ai_step deps inp (cg_outputPolicy g) node incoming st)))"

definition start_state :: "runner_deps \<Rightarrow> run_input \<Rightarrow> run_state" where
  "start_state deps inp =
     \<lparr> st_results = [], st_outputs = Map.empty, st_signal = bp_signal (ri_base inp),
       st_confidence = pct (bp_confidence (ri_base inp)), st_tags = normalizeTags (get (ri_featureSnapshot inp) ''tags''),
       st_drivers = [], st_explanation = '''', st_previous = None, st_aiCallsUsed = 0,
       st_gateState = opt_get (ri_gateState inp)
         \<lparr> rs_lastAiCallTs = None, rs_lastExplainedPredictionHash = None, rs_lastExplainedHistoryHash = None,
           rs_lastAiDecisionHash = None, rs_windowStartedAt = Some (rd_parseDate deps (bp_tsCreated (ri_base inp))),
           rs_aiCallsLastHour = Fin 0, rs_highPriorityCallsLastHour = Fin 0 \<rparr> \<rparr>"

definition run_nodes :: "runner_deps \<Rightarrow> run_input \<Rightarrow> comp_graph \<Rightarrow> string list \<Rightarrow> run_state" where
  "run_nodes deps inp g order = fold (node_step deps inp g) order (start_state deps inp)"

section \<open>The output policy\<close>

record derived_output =
  do_signal :: pred_signal
  do_confidence :: jsnum
  do_selectedNodeId :: "string option"
  do_rationale :: string
  do_source :: node_kind

definition select_node :: "string \<Rightarrow> node_result \<Rightarrow> derived_output" where
  "select_node rationale r =
     \<lparr> do_signal = nr_outputSignal r, do_confidence = pct (nr_outputConfidence r), do_selectedNodeId = Some (nr_nodeId r),
       do_rationale = rationale, do_source = nr_kind r \<rparr>"

definition no_selection :: "pred_signal \<Rightarrow> jsnum \<Rightarrow> string \<Rightarrow> derived_output" where
  "no_selection sig conf rationale =
     \<lparr> do_signal = sig, do_confidence = conf, do_selectedNodeId = None, do_rationale = rationale, do_source = LocalNode \<rparr>"

text \<open>The votes per signal in the order of their first vote: the total of the confidences, and the
  first node among those with the highest one.\<close>

type_synonym votes = "(pred_signal \<times> jsnum \<times> node_result) list"

definition add_vote :: "node_result \<Rightarrow> votes \<Rightarrow> votes" where
  "add_vote r vs =
     (let c = pct (nr_outputConfidence r)
      in case map_of vs (nr_outputSignal r) of
           None \<Rightarrow> vs @ [(nr_outputSignal r, n_add (Fin 0) c, r)]
         | Some (tot, rep) \<Rightarrow>
             AList.update (nr_outputSignal r)
               (n_add tot c, if n_lt (pct (nr_outputConfidence rep)) c then r else rep) vs)"

definition collect_votes :: "node_result list \<Rightarrow> votes" where
  "collect_votes executed = fold add_vote (filter (\<lambda>r. nr_outputSignal r \<noteq> Neutral) executed) []"

text \<open>The head of the stable sort: a later entry comes first only when it is strictly better.\<close>

definition better_vote :: "pred_signal \<times> jsnum \<times> node_result \<Rightarrow> pred_signal \<times> jsnum \<times> node_result \<Rightarrow> bool" where
  "better_vote a b =
     (case (a, b) of ((_, ta, ra), (_, tb, rb)) \<Rightarrow>
        if ta \<noteq> tb then n_lt tb ta else n_lt (pct (nr_outputConfidence rb)) (pct (nr_outputConfidence ra)))"

fun best_vote :: "pred_signal \<times> jsnum \<times> node_result \<Rightarrow> votes \<Rightarrow> pred_signal \<times> jsnum \<times> node_result" where
  "best_vote b [] = b"
| "best_vote b (v # vs) = best_vote (if better_vote v b then v else b) vs"

fun most_confident :: "node_result \<Rightarrow> node_result list \<Rightarrow> node_result" where
  "most_confident b [] = b"
| "most_confident b (r # rs) =
     most_confident (if n_lt (pct (nr_outputConfidence b)) (pct (nr_outputConfidence r)) then r else b) rs"

definition fold_conf :: "(jsnum \<Rightarrow> jsnum \<Rightarrow> jsnum) \<Rightarrow> jsnum \<Rightarrow> node_result list \<Rightarrow> jsnum" where
  "fold_conf f start rs = fold (\<lambda>r a. f a (pct (nr_outputConfidence r))) rs start"

definition policy_output :: "output_policy \<Rightarrow> pred_signal \<Rightarrow> jsnum \<Rightarrow> node_result list \<Rightarrow> derived_output" where
  "policy_output policy base_sig base_conf executed =
     (case policy of
        FirstNonNeutral \<Rightarrow>
          (case find (\<lambda>r. nr_outputSignal r \<noteq> Neutral) executed of
             Some r \<Rightarrow> select_node (''first_non_neutral:'' @ nr_nodeId r) r
           | None \<Rightarrow> no_selection Neutral (fold_conf n_min PInf executed) ''first_non_neutral_all_neutral'')
      | OverrideByConfidence \<Rightarrow>
          (case filter (\<lambda>r. nr_outputSignal r \<noteq> Neutral) executed of
             [] \<Rightarrow> no_selection Neutral (fold_conf n_max NInf executed) ''override_by_confidence_all_neutral''
           | r # rs \<Rightarrow> (let best = most_confident r rs
                       in select_node (''override_by_confidence:'' @ nr_nodeId best) best))
      | LocalSignalAiExplain \<Rightarrow>
          (case find (\<lambda>r. nr_kind r = LocalNode \<and> nr_outputSignal r \<noteq> Neutral) (rev executed) of
             Some r \<Rightarrow> (select_node (''local_signal_ai_explain:'' @ nr_nodeId r) r)\<lparr> do_source := LocalNode \<rparr>
           | None \<Rightarrow> no_selection base_sig (pct base_conf) ''base_prediction_used_no_local_override''))"

definition deriveOutputByPolicy ::
  "combine_mode \<Rightarrow> output_policy \<Rightarrow> pred_signal \<Rightarrow> jsnum \<Rightarrow> node_result list \<Rightarrow> derived_output" where
  "deriveOutputByPolicy mode policy base_sig base_conf nodes =
     (let executed = filter nr_executed nodes
      in if executed = [] then no_selection base_sig (pct base_conf) ''base_prediction_used_no_executed_nodes''
         else if mode = Vote
         then (case collect_votes executed of
                 v # vs \<Rightarrow> (case best_vote v vs of (s, _, r) \<Rightarrow>
                   (select_node (''vote_winner:'' @ signal_str s) r)\<lparr> do_signal := s \<rparr>)
               | [] \<Rightarrow> policy_output policy base_sig base_conf executed)
         else policy_output policy base_sig base_conf executed)"

section \<open>The run\<close>

record prediction_output =
  po_signal :: pred_signal
  po_confidence :: jsnum
  po_expectedMovePct :: jsnum
  po_signalSource :: node_kind
  po_explanation :: string
  po_tags :: "string list"
  po_keyDrivers :: "driver list"
  po_aiPrediction :: "(pred_signal \<times> jsnum \<times> jsnum) option"
  po_selectedNodeId :: "string option"

record decision_trace =
  dt_baseSignal :: pred_signal
  dt_baseConfidence :: jsnum
  dt_executedNodeIds :: "string list"
  dt_skippedNodeIds :: "string list"
  dt_failedNodeIds :: "string list"
  dt_selectedNodeId :: "string option"
  dt_selectedSignalSource :: node_kind
  dt_conflictingSignals :: "pred_signal list"
  dt_rationale :: string

record composite_result =
  rr_compositeId :: string
  rr_combineMode :: combine_mode
  rr_outputPolicy :: output_policy
  rr_signal :: pred_signal
  rr_confidence :: jsnum
  rr_tags :: "string list"
  rr_keyDrivers :: "driver list"
  rr_explanation :: string
  rr_aiCallsUsed :: nat
  rr_validation :: graph_validation
  rr_predictionOutput :: prediction_output
  rr_decisionTrace :: decision_trace
  rr_nodes :: "node_result list"

text \<open>The resolver the run hands to the validation: without a service every reference resolves to \<open>true\<close>.\<close>

definition run_resolver :: "runner_deps \<Rightarrow> comp_node \<Rightarrow> ref_resolution" where
  "run_resolver deps node =
     (case (case cn_kind node of LocalNode \<Rightarrow> rd_resolveLocal deps | AiNode \<Rightarrow> rd_resolveAi deps) of
        None \<Rightarrow> RefBool True
      | Some f \<Rightarrow> f (cn_refId node))"

definition invalid_result :: "run_input \<Rightarrow> comp_graph \<Rightarrow> graph_validation \<Rightarrow> composite_result" where
  "invalid_result inp g v =
     (let base = ri_base inp; sig = bp_signal base; conf = pct (bp_confidence base);
          tags = normalizeTags (get (ri_featureSnapshot inp) ''tags'');
          text1 = ''Composite graph validation failed; execution skipped.''
      in \<lparr> rr_compositeId = ri_compositeId inp, rr_combineMode = cg_combineMode g, rr_outputPolicy = cg_outputPolicy g,
           rr_signal = sig, rr_confidence = conf, rr_tags = tags, rr_keyDrivers = [], rr_explanation = text1,
           rr_aiCallsUsed = 0, rr_validation = v,
           rr_predictionOutput = \<lparr> po_signal = sig, po_confidence = conf,
             po_expectedMovePct = toFinite (Fin 0) (bp_expectedMovePct base), po_signalSource = LocalNode,
             po_explanation = text1, po_tags = tags, po_keyDrivers = [], po_aiPrediction = None, po_selectedNodeId = None \<rparr>,
           rr_decisionTrace = \<lparr> dt_baseSignal = sig, dt_baseConfidence = conf, dt_executedNodeIds = [],
             dt_skippedNodeIds = [], dt_failedNodeIds = [], dt_selectedNodeId = None, dt_selectedSignalSource = LocalNode,
             dt_conflictingSignals = [], dt_rationale = ''graph_validation_failed'' \<rparr>,
           rr_nodes = [] \<rparr>)"

fun meta_prediction :: "node_meta \<Rightarrow> ai_prediction option" where
  "meta_prediction (MetaAi p d h pr t n) = Some p"
| "meta_prediction m = None"

definition selected_prediction :: "string option \<Rightarrow> node_result list \<Rightarrow> ai_prediction option" where
  "selected_prediction selectedId results =
     (let selectedNode = (case selectedId of None \<Rightarrow> None | Some i \<Rightarrow> if i = '''' then None else find (\<lambda>r. nr_nodeId r = i) results);
          lastAi = find (\<lambda>r. nr_kind r = AiNode \<and> nr_executed r) (rev results);
          of_node = (\<lambda>r. case r of None \<Rightarrow> None | Some n \<Rightarrow> meta_prediction (nr_meta n))
      in opt_or (of_node selectedNode) (of_node lastAi))"

definition finished_result :: "run_input \<Rightarrow> comp_graph \<Rightarrow> graph_validation \<Rightarrow> run_state \<Rightarrow> composite_result" where
  "finished_result inp g v st =
     (let base = ri_base inp; results = st_results st;
          final = deriveOutputByPolicy (cg_combineMode g) (cg_outputPolicy g) (bp_signal base) (bp_confidence base) results;
          ap = selected_prediction (do_selectedNodeId final) results;
          move = (case (do_source final, ap) of
                    (AiNode, Some p) \<Rightarrow> if is_finite (ap_expectedMovePct p) then ap_expectedMovePct p
                                        else toFinite (Fin 0) (bp_expectedMovePct base)
                  | _ \<Rightarrow> toFinite (Fin 0) (bp_expectedMovePct base));
          expl = sanitizeText ''Composite run completed.'' (JStr (st_explanation st));
          ids = (\<lambda>s. map nr_nodeId (filter (\<lambda>r. nr_status r = s) results))
      in \<lparr> rr_compositeId = ri_compositeId inp, rr_combineMode = cg_combineMode g, rr_outputPolicy = cg_outputPolicy g,
           rr_signal = do_signal final, rr_confidence = pct (do_confidence final), rr_tags = st_tags st,
           rr_keyDrivers = st_drivers st, rr_explanation = expl, rr_aiCallsUsed = st_aiCallsUsed st, rr_validation = v,
           rr_predictionOutput = \<lparr> po_signal = do_signal final, po_confidence = pct (do_confidence final),
             po_expectedMovePct = move, po_signalSource = do_source final, po_explanation = expl, po_tags = st_tags st,
             po_keyDrivers = st_drivers st,
             po_aiPrediction = map_option (\<lambda>p. (normalizeSignal (ap_signal p), ai_pct (ap_confidence p),
               toFinite (Fin 0) (ap_expectedMovePct p))) ap,
             po_selectedNodeId = do_selectedNodeId final \<rparr>,
           rr_decisionTrace = \<lparr> dt_baseSignal = bp_signal base, dt_baseConfidence = pct (bp_confidence base),
             dt_executedNodeIds = ids Executed, dt_skippedNodeIds = ids Skipped, dt_failedNodeIds = ids Failed,
             dt_selectedNodeId = do_selectedNodeId final, dt_selectedSignalSource = do_source final,
             dt_conflictingSignals = rev (remdups (rev (map nr_outputSignal
               (filter (\<lambda>r. nr_executed r \<and> nr_outputSignal r \<noteq> Neutral) results)))),
             dt_rationale = do_rationale final \<rparr>,
           rr_nodes = results \<rparr>)"

definition runCompositeStrategy :: "run_input \<Rightarrow> runner_deps \<Rightarrow> composite_result option" where
  "runCompositeStrategy inp deps =
     (let g = normalizeCompositeGraph (ri_nodesJson inp) (ri_edgesJson inp) (ri_combineMode inp) (ri_outputPolicy inp)
      in map_option (\<lambda>v.
           if \<not> gv_valid v then invalid_result inp g v
           else finished_result inp g v (run_nodes deps inp g
             (if gv_topologicalOrder v \<noteq> [] then gv_topologicalOrder v else map cn_id (cg_nodes g))))
         (validateCompositeGraph g (Some (run_resolver deps))))"

section \<open>What a run keeps\<close>

definition in_pct :: "jsnum \<Rightarrow> bool" where
  "in_pct c \<longleftrightarrow> (\<exists>q. c = Fin q \<and> 0 \<le> q \<and> q \<le> 100)"

lemma pct_range: "is_finite f \<Longrightarrow> in_pct (clampPct f v)"
  by (cases v; cases f) (auto simp: clampPct_def toFinite_def n_fin in_pct_def)

lemma pct_finite [simp]: "in_pct (pct v)"
  by (rule pct_range) simp



lemma pct_of_pct [simp]: "in_pct c \<Longrightarrow> pct c = c"
  by (auto simp: in_pct_def clampPct_def toFinite_def n_fin)




















section \<open>Properties of a run\<close>

lemma run_cases:
  assumes "g = normalizeCompositeGraph (ri_nodesJson inp) (ri_edgesJson inp) (ri_combineMode inp) (ri_outputPolicy inp)"
  obtains v where "validateCompositeGraph g (Some (run_resolver deps)) = Some v" "\<not> gv_valid v"
      "runCompositeStrategy inp deps = Some (invalid_result inp g v)"
    | v where "validateCompositeGraph g (Some (run_resolver deps)) = Some v" "gv_valid v"
      "runCompositeStrategy inp deps = Some (finished_result inp g v (run_nodes deps inp g (gv_topologicalOrder v)))"
proof -
  obtain v where v: "validateCompositeGraph g (Some (run_resolver deps)) = Some v"
    using topological_sort_total [of "cg_nodes g" "cg_edges g"] by (auto simp: validateCompositeGraph_def Let_def)
  have "gv_topologicalOrder v \<noteq> []" if "gv_valid v"
    using valid_graph_facts [OF v that] by auto
  then show thesis using that v by (cases "gv_valid v") (auto simp: runCompositeStrategy_def Let_def assms)
qed

lemma finished_nodes [simp]:
  "rr_nodes (finished_result inp g v st) = st_results st" "rr_aiCallsUsed (finished_result inp g v st) = st_aiCallsUsed st"
  "rr_validation (finished_result inp g v st) = v"
  by (simp_all add: finished_result_def Let_def)

lemma invalid_nodes [simp]:
  "rr_nodes (invalid_result inp g v) = []" "rr_aiCallsUsed (invalid_result inp g v) = 0"
  "rr_validation (invalid_result inp g v) = v" "rr_signal (invalid_result inp g v) = bp_signal (ri_base inp)"
  by (simp_all add: invalid_result_def Let_def)


definition sample_run :: "jsval \<Rightarrow> run_input" where
  "sample_run policy = \<lparr> ri_compositeId = ''c'',
     ri_nodesJson = JArr [JObj [(''id'', JStr ''b''), (''kind'', JStr ''ai''), (''refId'', JStr ''p'')],
                          JObj [(''id'', JStr ''a''), (''kind'', JStr ''local''), (''refId'', JStr ''l'')]],
     ri_edgesJson = JArr [JObj [(''from'', JStr ''a''), (''to'', JStr ''b'')]],
     ri_combineMode = JStr ''pipeline'', ri_outputPolicy = policy, ri_featureSnapshot = [],
     ri_base = \<lparr> bp_signal = Up, bp_confidence = Fin 80, bp_expectedMovePct = Fin 1, bp_symbol = ''X'', bp_marketType = ''perp'',
       bp_timeframe = TF1h, bp_tsCreated = ''t'' \<rparr>,
     ri_gateConfig = None, ri_gateState = None \<rparr>"

definition sample_deps :: "bool \<Rightarrow> runner_deps" where
  "sample_deps allow = \<lparr> rd_resolveLocal = Some (\<lambda>_. RefInfo True (Some ''1'')), rd_resolveAi = None,
     rd_runLocal = (\<lambda>_ _ _ _. Inr \<lparr> lr_allow = allow, lr_score = Fin 70, lr_strategyType = ''s'', lr_version = ''1'',
       lr_reasonCodes = [], lr_tags = [], lr_explanation = '''', lr_configHash = ''h'', lr_snapshotHash = ''h'' \<rparr>),
     rd_prompt = (\<lambda>_ _. Inl ''down''), rd_generate = (\<lambda>_ _ _ _. Inl ''down''),
     rd_gate = (\<lambda>_ i. fst (shouldInvokeAiExplain (\<lambda>_. ''h'') (\<lambda>_. NaN) i empty_telemetry)),
     rd_budget = (\<lambda>_. Fin 0), rd_now = (\<lambda>n. Fin (of_nat n)), rd_parseDate = (\<lambda>_. Fin 0) \<rparr>"


text \<open>
  The README beside the runner promises at most one AI call in a run. The counter is raised only after a call that succeeded
  (runner.ts:878), so when the call for the first AI node fails the model is called again for the second.
\<close>

lemma failed_call_not_counted:
  assumes "call_ai deps (length (st_results st)) node st = Inl m"
  shows "st_aiCallsUsed (ai_step deps inp policy node incoming st) = st_aiCallsUsed st"
  using assms by (simp add: ai_step_def push_result_def Let_def)

definition flaky_deps :: runner_deps where
  "flaky_deps = (sample_deps True)\<lparr> rd_resolveAi := Some (\<lambda>_. RefInfo True (Some ''1'')),
     rd_prompt := (\<lambda>_ _. Inr \<lparr> pt_activePromptId = None, pt_activePromptName = None \<rparr>),
     rd_generate := (\<lambda>n _ _ _. if n = 0 then Inl ''timeout'' else
       Inr \<lparr> ex_prediction = \<lparr> ap_signal = JStr ''up'', ap_confidence = Fin 1, ap_expectedMovePct = Fin 1 \<rparr>,
         ex_tags = JNull, ex_keyDrivers = JNull, ex_explanation = JNull, ex_disclaimer = JNull \<rparr>),
     rd_gate := (\<lambda>n i. (rd_gate (sample_deps True) n i)\<lparr> gd_allow := True \<rparr>) \<rparr>"

definition two_ai_nodes :: run_input where
  "two_ai_nodes = (sample_run JNull)\<lparr> ri_nodesJson :=
     JArr [JObj [(''id'', JStr ''a''), (''kind'', JStr ''ai''), (''refId'', JStr ''p'')],
           JObj [(''id'', JStr ''b''), (''kind'', JStr ''ai''), (''refId'', JStr ''p'')]], ri_edgesJson := JArr [] \<rparr>"

lemma second_call_after_failure:
  "map_option (\<lambda>res. (map nr_status (rr_nodes res), rr_aiCallsUsed res)) (runCompositeStrategy two_ai_nodes flaky_deps) =
     Some ([Failed, Executed], 1)"
  by code_simp

section \<open>The default policy\<close>

definition keeps_base :: "pred_signal \<Rightarrow> run_state \<Rightarrow> bool" where
  "keeps_base b st \<longleftrightarrow> st_signal st \<in> {b, Neutral} \<and> nr_outputSignal ` set (st_results st) \<subseteq> {b, Neutral}"

lemma node_step_keeps_base:
  assumes "cg_outputPolicy g = LocalSignalAiExplain" "keeps_base b st"
  shows "keeps_base b (node_step deps inp g i st)"
proof -
  have push: "keeps_base b (push_result (idle_result node es st s rr ex dg m) st)" for node es s rr ex dg m
    using assms(2) by (simp add: keeps_base_def push_result_def idle_result_def)
  have "keeps_base b (local_step deps node es st)" for node es
    using push assms(2) unfolding local_step_def buildExecutionFailure_def
    by (auto simp: keeps_base_def apply_execution_def push_result_def executed_local_def Let_def split: sum.split)
  moreover have "keeps_base b (ai_step deps inp LocalSignalAiExplain node es st)" for node es
    using push assms(2) unfolding ai_step_def buildExecutionFailure_def skipped_result_def Let_def
    by (auto simp: keeps_base_def apply_execution_def push_result_def executed_ai_def Let_def split: sum.split)
  ultimately show ?thesis
    using push assms unfolding node_step_def skipped_result_def
    by (auto simp: Let_def split: option.split node_kind.split)
qed

lemma run_keeps_base:
  assumes "cg_outputPolicy g = LocalSignalAiExplain"
  shows "keeps_base (bp_signal (ri_base inp)) (run_nodes deps inp g order)"
proof -
  let ?b = "bp_signal (ri_base inp)"
  have "keeps_base ?b st \<Longrightarrow> keeps_base ?b (fold (node_step deps inp g) order st)" for st
    by (induction order arbitrary: st) (simp_all add: node_step_keeps_base [OF assms])
  then show ?thesis by (simp add: run_nodes_def keeps_base_def start_state_def)
qed

lemma vote_signals: "fst ` set (collect_votes rs) \<subseteq> nr_outputSignal ` set rs - {Neutral}"
proof -
  let ?f = "filter (\<lambda>r. nr_outputSignal r \<noteq> Neutral)"
  have keys: "fst ` set (AList.update k t vs) \<subseteq> insert k (fst ` set vs)" for k and t :: "jsnum \<times> node_result" and vs
  proof -
    have "set (map fst (AList.update k t vs)) \<subseteq> insert k (set (map fst vs))" unfolding update_keys by auto
    then show ?thesis by simp
  qed
  have one: "fst ` set (add_vote r vs) \<subseteq> insert (nr_outputSignal r) (fst ` set vs)" for r vs
    using keys [of "nr_outputSignal r" _ vs] unfolding add_vote_def Let_def
    by (cases "map_of vs (nr_outputSignal r)") (auto split: prod.split)
  have "fst ` set (fold add_vote xs vs) \<subseteq> nr_outputSignal ` set xs \<union> fst ` set vs" for xs vs
  proof (induction xs arbitrary: vs)
    case (Cons x xs)
    show ?case using Cons.IH [of "add_vote x vs"] one [of x vs] by auto
  qed simp
  from this [of "?f rs" "[]"] show ?thesis by (auto simp: collect_votes_def)
qed

lemma best_vote_in: "best_vote v vs \<in> insert v (set vs)"
  by (induction vs arbitrary: v) (auto split: if_splits)

lemma derive_keeps_base:
  assumes "nr_outputSignal ` set rs \<subseteq> {b, Neutral}"
  shows "do_signal (deriveOutputByPolicy mode LocalSignalAiExplain b c rs) = b"
proof -
  let ?ex = "filter nr_executed rs"
  have p: "do_signal (policy_output LocalSignalAiExplain b c ?ex) = b"
  proof (cases "find (\<lambda>r. nr_kind r = LocalNode \<and> nr_outputSignal r \<noteq> Neutral) (rev ?ex)")
    case (Some r)
    then show ?thesis using assms find_Some [OF Some] by (auto simp: policy_output_def select_node_def)
  qed (simp add: policy_output_def no_selection_def)
  have v: "do_signal (case best_vote v vs of (s, _, r) \<Rightarrow> (select_node (t s) r)\<lparr> do_signal := s \<rparr>) = b"
    if "collect_votes ?ex = v # vs" for v vs t
  proof -
    have "fst (best_vote v vs) \<in> fst ` set (collect_votes ?ex)" using that best_vote_in [of v vs] by auto
    then have "fst (best_vote v vs) \<in> {b, Neutral} - {Neutral}" using vote_signals [of ?ex] assms by auto
    then show ?thesis by (auto split: prod.split)
  qed
  show ?thesis
    using p v [of _ _ "\<lambda>s. ''vote_winner:'' @ signal_str s"]
    by (auto simp: deriveOutputByPolicy_def Let_def no_selection_def split: list.split)
qed

text \<open>Under the default policy, in either mode, a run always answers with the signal it was given: a
  local strategy that blocks turns its own output neutral and makes the run's signal no different.\<close>

theorem default_policy_keeps_base:
  assumes "output_policy_of (ri_outputPolicy inp) = LocalSignalAiExplain"
  shows "\<exists>res. runCompositeStrategy inp deps = Some res \<and> rr_signal res = bp_signal (ri_base inp)"
proof -
  let ?g = "normalizeCompositeGraph (ri_nodesJson inp) (ri_edgesJson inp) (ri_combineMode inp) (ri_outputPolicy inp)"
  have p: "cg_outputPolicy ?g = LocalSignalAiExplain" using assms by (simp add: normalizeCompositeGraph_def)
  show ?thesis
  proof (rule run_cases [OF refl, of inp deps])
    fix v assume "runCompositeStrategy inp deps = Some (finished_result inp ?g v (run_nodes deps inp ?g (gv_topologicalOrder v)))"
    moreover have "nr_outputSignal ` set (st_results (run_nodes deps inp ?g (gv_topologicalOrder v))) \<subseteq> {bp_signal (ri_base inp), Neutral}"
      using run_keeps_base [OF p] by (simp add: keeps_base_def)
    ultimately show ?thesis by (simp add: finished_result_def Let_def p derive_keeps_base)
  qed simp
qed

theorem default_policy_keeps_base_witness:
  "\<exists>res. runCompositeStrategy (sample_run JNull) (sample_deps False) = Some res \<and> rr_signal res = Up"
proof -
  have "output_policy_of (ri_outputPolicy (sample_run JNull)) = LocalSignalAiExplain" by code_simp
  from default_policy_keeps_base [OF this, of "sample_deps False"] show ?thesis by (simp add: sample_run_def)
qed

text \<open>A run carries its confidence in percent, while the gate reads numbers up to one as fractions: a
  node that reaches the gate at one percent counts as certain, one at two percent as two.\<close>

theorem gate_confidence_units:
  "confidence_of (gate_request deps inp (st\<lparr> st_confidence := Fin 1 \<rparr>)) = Fin 100 \<and>
   confidence_of (gate_request deps inp (st\<lparr> st_confidence := Fin 2 \<rparr>)) = Fin 2"
proof -
  have "confidenceToPct (Fin 1) = Fin 100" "confidenceToPct (Fin 2) = Fin 2" by code_simp+
  then show ?thesis by (simp add: confidence_of_def gate_request_def Let_def)
qed

end
