(* ===== verification/OrderSizing.thy ===== *)
theory OrderSizing
  imports Money
begin

text \<open>
  Sizing and validation of futures orders (packages/futures-core/src/sizing.ts, the error classes of
  errors.ts, the data of types.ts and the contract data of metadata.ts): tick and step size of a
  contract, rounding of prices and quantities to them, the validators, and the quantities derived
  from a notional or from a risk budget. A number or null is a \<open>jsnum option\<close>. The power
  \<open>10 ** n\<close>, which the language leaves to the implementation, is the parameter \<open>pow10\<close>.
\<close>

section \<open>Errors and contracts\<close>

datatype error_class =
    FuturesValidationError | TradingNotAllowedError | SymbolUnknownError | InvalidTickError | InvalidStepError
  | QtyOutOfRangeError | LeverageOutOfRangeError | OtherError string

record js_error =
  er_class :: error_class
  er_message :: string
  er_symbol :: string

fun error_name :: "error_class \<Rightarrow> string" where
  "error_name FuturesValidationError = ''FuturesValidationError''"
| "error_name TradingNotAllowedError = ''TradingNotAllowedError''"
| "error_name SymbolUnknownError = ''SymbolUnknownError''"
| "error_name InvalidTickError = ''InvalidTickError''"
| "error_name InvalidStepError = ''InvalidStepError''"
| "error_name QtyOutOfRangeError = ''QtyOutOfRangeError''"
| "error_name LeverageOutOfRangeError = ''LeverageOutOfRangeError''"
| "error_name (OtherError n) = n"

definition mk_error :: "error_class \<Rightarrow> string \<Rightarrow> string \<Rightarrow> js_error" where
  "mk_error c symbol message = \<lparr> er_class = c, er_message = message, er_symbol = symbol \<rparr>"

record contract_info =
  ct_canonicalSymbol :: string
  ct_exchangeSymbol :: string
  ct_apiAllowed :: bool
  ct_priceScale :: "jsnum option"
  ct_volScale :: "jsnum option"
  ct_priceUnit :: "jsnum option"
  ct_volUnit :: "jsnum option"
  ct_tickSize :: "jsnum option"
  ct_stepSize :: "jsnum option"
  ct_minVol :: "jsnum option"
  ct_maxVol :: "jsnum option"
  ct_minLeverage :: "jsnum option"
  ct_maxLeverage :: "jsnum option"
  ct_contractSize :: "jsnum option"

section \<open>Alignment\<close>

datatype rounding_mode = RoundDown | RoundUp | RoundNearest

fun n_ceil :: "jsnum \<Rightarrow> jsnum" where
  "n_ceil (Fin a) = Fin (of_int \<lceil>a\<rceil>)"
| "n_ceil x = x"

text \<open>The text after the first \<open>e-\<close>, and the index of the first dot.\<close>

fun after_exp :: "string \<Rightarrow> string" where
  "after_exp [] = []"
| "after_exp (c # cs) = (if prefix ''e-'' (c # cs) then drop 2 (c # cs) else after_exp cs)"

definition index_of_dot :: "string \<Rightarrow> nat option" where
  "index_of_dot s = (if CHR ''.'' \<in> set s then Some (length (takeWhile (\<lambda>c. c \<noteq> CHR ''.'') s)) else None)"

definition countDecimals :: "jsnum \<Rightarrow> jsnum" where
  "countDecimals v =
     (let s = str_lower (num_str v)
      in if str_includes s ''e-''
         then (let e = str_to_num (after_exp s) in if is_finite e then e else Fin 0)
         else case index_of_dot s of
                None \<Rightarrow> Fin 0
              | Some dot \<Rightarrow> of_nat_num (length s - dot - 1))"

text \<open>The digits argument of toFixed, an integer from 2 to 12 here.\<close>

fun digits_arg :: "jsnum \<Rightarrow> nat" where
  "digits_arg (Fin q) = nat \<lfloor>q\<rfloor>"
| "digits_arg _ = 0"

definition normalizeFloat :: "jsnum \<Rightarrow> jsnum \<Rightarrow> jsnum" where
  "normalizeFloat v increment =
     (let decimals = n_max (countDecimals increment) (Fin 0)
      in fixed_num (digits_arg (n_min (Fin 12) (n_add decimals (Fin 2)))) v)"

definition isValidIncrement :: "jsnum \<Rightarrow> bool" where
  "isValidIncrement increment \<longleftrightarrow> is_finite increment \<and> n_lt (Fin 0) increment"

definition align :: "jsnum \<Rightarrow> jsnum \<Rightarrow> rounding_mode \<Rightarrow> jsnum" where
  "align v increment mode =
     (if \<not> isValidIncrement increment then v
      else let ratio = n_div v increment
           in case mode of
                RoundDown \<Rightarrow> n_mul (n_floor ratio) increment
              | RoundUp \<Rightarrow> n_mul (n_ceil ratio) increment
              | RoundNearest \<Rightarrow> n_mul (n_round ratio) increment)"

definition isAligned :: "jsnum \<Rightarrow> jsnum \<Rightarrow> bool" where
  "isAligned v increment \<longleftrightarrow>
     isValidIncrement increment \<and>
     (let ratio = n_div v increment in n_le (n_abs (n_sub ratio (n_round ratio))) (fl (1 / 10 ^ 9)))"

section \<open>Increments of a contract\<close>

definition usable_increment :: "jsnum option \<Rightarrow> jsnum option" where
  "usable_increment x = (case x of Some n \<Rightarrow> if isValidIncrement n then Some n else None | None \<Rightarrow> None)"

definition scale_increment :: "(jsnum \<Rightarrow> jsnum) \<Rightarrow> jsnum option \<Rightarrow> jsnum option" where
  "scale_increment pow10 s =
     (case s of Some n \<Rightarrow> if n_le (Fin 0) n then Some (n_div (Fin 1) (pow10 n)) else None | None \<Rightarrow> None)"

definition deriveTickSize :: "(jsnum \<Rightarrow> jsnum) \<Rightarrow> contract_info \<Rightarrow> jsnum option" where
  "deriveTickSize pow10 c =
     opt_or (usable_increment (ct_tickSize c)) (opt_or (usable_increment (ct_priceUnit c)) (scale_increment pow10 (ct_priceScale c)))"

definition deriveStepSize :: "(jsnum \<Rightarrow> jsnum) \<Rightarrow> contract_info \<Rightarrow> jsnum option" where
  "deriveStepSize pow10 c =
     opt_or (usable_increment (ct_stepSize c)) (opt_or (usable_increment (ct_volUnit c)) (scale_increment pow10 (ct_volScale c)))"

definition roundPriceToTick :: "jsnum \<Rightarrow> jsnum \<Rightarrow> rounding_mode \<Rightarrow> jsnum" where
  "roundPriceToTick price tickSize mode =
     (if \<not> isValidIncrement tickSize then price else normalizeFloat (align price tickSize mode) tickSize)"

definition roundQtyToStep :: "jsnum \<Rightarrow> jsnum \<Rightarrow> rounding_mode \<Rightarrow> jsnum" where
  "roundQtyToStep qty stepSize mode =
     (if \<not> isValidIncrement stepSize then qty else normalizeFloat (align qty stepSize mode) stepSize)"

definition clampQty :: "jsnum \<Rightarrow> jsnum option \<Rightarrow> jsnum option \<Rightarrow> jsnum" where
  "clampQty qty minVol maxVol =
     (let v = (case minVol of None \<Rightarrow> qty | Some m \<Rightarrow> n_max qty m)
      in case maxVol of None \<Rightarrow> v | Some m \<Rightarrow> n_min v m)"

section \<open>Validators\<close>

text \<open>\<open>{ ok: true }\<close> is \<open>None\<close>.\<close>

definition validatePrice :: "jsnum \<Rightarrow> jsnum \<Rightarrow> string \<Rightarrow> js_error option" where
  "validatePrice price tickSize symbol =
     (if \<not> isValidIncrement tickSize
      then Some (mk_error InvalidTickError symbol (''Missing tick size for '' @ symbol))
      else if n_le price (Fin 0) \<or> \<not> is_finite price
      then Some (mk_error InvalidTickError symbol (''Invalid price '' @ num_str price @ '' for '' @ symbol))
      else if \<not> isAligned price tickSize
      then Some (mk_error InvalidTickError symbol
                   (''Price '' @ num_str price @ '' not aligned to tickSize '' @ num_str tickSize))
      else None)"

definition validate_max :: "jsnum \<Rightarrow> jsnum option \<Rightarrow> string \<Rightarrow> js_error option" where
  "validate_max qty maxVol symbol =
     (case maxVol of
        Some m \<Rightarrow>
          if n_lt m qty
          then Some (mk_error QtyOutOfRangeError symbol (''Quantity '' @ num_str qty @ '' above maxVol '' @ num_str m))
          else None
      | None \<Rightarrow> None)"

definition validateQty :: "jsnum \<Rightarrow> jsnum \<Rightarrow> jsnum option \<Rightarrow> jsnum option \<Rightarrow> string \<Rightarrow> js_error option" where
  "validateQty qty stepSize minVol maxVol symbol =
     (if \<not> isValidIncrement stepSize
      then Some (mk_error InvalidStepError symbol (''Missing step size for '' @ symbol))
      else if n_le qty (Fin 0) \<or> \<not> is_finite qty
      then Some (mk_error QtyOutOfRangeError symbol (''Quantity '' @ num_str qty @ '' is invalid for '' @ symbol))
      else if \<not> isAligned qty stepSize
      then Some (mk_error InvalidStepError symbol
                   (''Quantity '' @ num_str qty @ '' not aligned to stepSize '' @ num_str stepSize))
      else case minVol of
             Some m \<Rightarrow>
               if n_lt qty m
               then Some (mk_error QtyOutOfRangeError symbol (''Quantity '' @ num_str qty @ '' below minVol '' @ num_str m))
               else validate_max qty maxVol symbol
           | None \<Rightarrow> validate_max qty maxVol symbol)"

definition leverage_max :: "jsnum \<Rightarrow> contract_info \<Rightarrow> js_error + jsnum" where
  "leverage_max leverage c =
     (case ct_maxLeverage c of
        Some m \<Rightarrow>
          if n_lt m leverage
          then Inl (mk_error LeverageOutOfRangeError (ct_canonicalSymbol c)
                 (''Leverage '' @ num_str leverage @ '' above maxLeverage '' @ num_str m))
          else Inr leverage
      | None \<Rightarrow> Inr leverage)"

definition enforceLeverageBounds :: "jsnum \<Rightarrow> contract_info \<Rightarrow> js_error + jsnum" where
  "enforceLeverageBounds leverage c =
     (let sym = ct_canonicalSymbol c; err = (\<lambda>m. Inl (mk_error LeverageOutOfRangeError sym (''Leverage '' @ num_str leverage @ m)))
      in if \<not> is_finite leverage \<or> n_le leverage (Fin 0) then err '' is invalid''
         else case ct_minLeverage c of
           Some m \<Rightarrow> if n_lt leverage m then err ('' below minLeverage '' @ num_str m) else leverage_max leverage c
         | None \<Rightarrow> leverage_max leverage c)"

section \<open>Quantities from a notional or a risk budget\<close>

definition contract_size :: "contract_info \<Rightarrow> jsnum" where
  "contract_size c = (case ct_contractSize c of Some n \<Rightarrow> if n_lt (Fin 0) n then n else Fin 1 | None \<Rightarrow> Fin 1)"

definition positive :: "jsnum \<Rightarrow> bool" where
  "positive n \<longleftrightarrow> is_finite n \<and> \<not> n_le n (Fin 0)"

definition notionalFromQty :: "jsnum \<Rightarrow> jsnum \<Rightarrow> contract_info \<Rightarrow> jsnum" where
  "notionalFromQty qty markPrice c =
     (if \<not> positive qty \<or> \<not> positive markPrice then Fin 0
      else n_mul (n_mul qty markPrice) (contract_size c))"

definition qtyFromNotionalUsd :: "jsnum \<Rightarrow> jsnum \<Rightarrow> contract_info \<Rightarrow> jsnum" where
  "qtyFromNotionalUsd notionalUsd markPrice c =
     (if \<not> positive notionalUsd \<or> \<not> positive markPrice then Fin 0
      else n_div notionalUsd (n_mul markPrice (contract_size c)))"

definition marginRequired :: "jsnum \<Rightarrow> jsnum \<Rightarrow> jsnum" where
  "marginRequired notionalUsd leverage =
     (if \<not> positive notionalUsd then Fin 0 else if \<not> positive leverage then PInf else n_div notionalUsd leverage)"

definition qtyFromRisk :: "jsnum \<Rightarrow> jsnum \<Rightarrow> jsnum \<Rightarrow> contract_info \<Rightarrow> jsnum" where
  "qtyFromRisk riskUsd stopDistancePct markPrice c =
     (if \<not> positive riskUsd \<or> \<not> positive stopDistancePct then Fin 0
      else let stopFraction = n_div stopDistancePct (Fin 100)
           in if n_le stopFraction (Fin 0) then Fin 0
              else qtyFromNotionalUsd (n_div riskUsd stopFraction) markPrice c)"


section \<open>What the validators promise\<close>

lemma valid_increment_iff: "isValidIncrement v \<longleftrightarrow> (\<exists>s. v = Fin s \<and> 0 < s)"
  by (cases v) (auto simp: isValidIncrement_def)

lemma positive_iff: "positive v \<longleftrightarrow> (\<exists>q. v = Fin q \<and> 0 < q)"
  by (cases v) (auto simp: positive_def n_le_Fin)

text \<open>A whole number of steps, up to a few billionths of a step and the rounding of the quotient.\<close>

definition near_steps :: "rat \<Rightarrow> rat \<Rightarrow> bool" where
  "near_steps q s \<longleftrightarrow> (\<exists>k::int. \<bar>q / s - of_int k\<bar> \<le> 3 / 10 ^ 9 + \<bar>q / s\<bar> / 2 ^ 53)"

lemma dbl_less_billionth: "\<bar>dbl x\<bar> \<le> dbl (1 / 10 ^ 9) \<Longrightarrow> \<bar>x\<bar> < 2 / 10 ^ 9"
proof (rule ccontr)
  assume x: "\<bar>dbl x\<bar> \<le> dbl (1 / 10 ^ 9)" and "\<not> \<bar>x\<bar> < 2 / 10 ^ 9"
  then have "2 / 10 ^ 9 \<le> \<bar>x\<bar>" by simp
  then have "dbl (2 / 10 ^ 9) \<le> dbl \<bar>x\<bar>" by (rule dbl_mono)
  moreover have "dbl \<bar>x\<bar> = \<bar>dbl x\<bar>"
    using dbl_nonneg [of x] dbl_nonneg [of "- x"] by (cases "0 \<le> x") (auto simp: dbl_minus)
  moreover have "dbl (1 / 10 ^ 9) < dbl (2 / 10 ^ 9)" by code_simp
  ultimately show False using x by linarith
qed

lemma dbl_error_any: "\<bar>dbl q - q\<bar> \<le> \<bar>q\<bar> / 2 ^ 53 + pow2 (- 1021)"
proof (cases "pow2 (- 1022) \<le> \<bar>q\<bar>")
  case True
  then show ?thesis using dbl_error [of q] pow2_pos [of "- 1021"] by linarith
next
  case False
  then have "\<bar>dbl q\<bar> \<le> pow2 (- 1022)" by (intro dbl_abs_le) simp_all
  moreover have "pow2 (- 1021) = 2 * pow2 (- 1022)" by (simp add: pow2_def)
  ultimately have "\<bar>dbl q - q\<bar> \<le> pow2 (- 1021)" using False by linarith
  moreover have "0 \<le> \<bar>q\<bar> / 2 ^ 53" by simp
  ultimately show ?thesis by linarith
qed

lemma aligned_near:
  assumes "isAligned (Fin q) (Fin s)"
  shows "near_steps q s"
proof -
  have s: "0 < s" using assms by (auto simp: isAligned_def valid_increment_iff)
  have c: "n_le (n_abs (n_sub (fl (q / s)) (n_round (fl (q / s))))) (fl (1 / 10 ^ 9))"
    using assms s by (simp add: isAligned_def Let_def)
  then obtain r where r: "fl (q / s) = Fin r"
    by (cases "fl (q / s)") (auto simp: n_le_def n_sub_def)
  then have rd: "r = dbl (q / s)" by (rule fl_is_Fin)
  define k where "k = \<lfloor>r + 1 / 2\<rfloor>"
  have b: "fl (1 / 10 ^ 9) = Fin (dbl (1 / 10 ^ 9))" by code_simp
  have "n_le (n_abs (fl (r - of_int k))) (Fin (dbl (1 / 10 ^ 9)))" using c unfolding b by (simp add: r n_sub_def k_def)
  then obtain y where y: "fl (r - of_int k) = Fin y" "\<bar>y\<bar> \<le> dbl (1 / 10 ^ 9)"
    by (cases "fl (r - of_int k)") (auto simp: n_le_def)
  have "\<bar>r - of_int k\<bar> < 2 / 10 ^ 9"
    using y fl_is_Fin [OF y(1)] by (intro dbl_less_billionth) simp
  moreover have "\<bar>r - q / s\<bar> \<le> \<bar>q / s\<bar> / 2 ^ 53 + pow2 (- 1021)"
    using dbl_error_any [of "q / s"] rd by simp
  moreover have "pow2 (- 1021) \<le> 1 / 10 ^ 9" by code_simp
  moreover have "\<bar>q / s - of_int k\<bar> \<le> \<bar>r - q / s\<bar> + \<bar>r - of_int k\<bar>" by linarith
  ultimately have "\<bar>q / s - of_int k\<bar> \<le> 3 / 10 ^ 9 + \<bar>q / s\<bar> / 2 ^ 53" by linarith
  then show ?thesis unfolding near_steps_def by blast
qed

definition within_vol :: "jsnum option \<Rightarrow> jsnum option \<Rightarrow> jsnum \<Rightarrow> bool" where
  "within_vol minVol maxVol q \<longleftrightarrow>
     (case minVol of Some m \<Rightarrow> \<not> n_lt q m | None \<Rightarrow> True) \<and> (case maxVol of Some m \<Rightarrow> \<not> n_lt m q | None \<Rightarrow> True)"

lemma validateQty_None:
  "validateQty qty step mn mx sy = None \<longleftrightarrow> positive qty \<and> isAligned qty step \<and> within_vol mn mx qty"
  by (auto simp: validateQty_def validate_max_def within_vol_def positive_def isAligned_def split: option.splits if_splits)

lemma validatePrice_None: "validatePrice price tick sy = None \<longleftrightarrow> positive price \<and> isAligned price tick"
  by (auto simp: validatePrice_def positive_def isAligned_def split: if_splits)

lemma enforceLeverage_ok:
  "enforceLeverageBounds lev c = Inr l \<Longrightarrow> l = lev \<and> positive lev \<and> within_vol (ct_minLeverage c) (ct_maxLeverage c) lev"
  by (auto simp: enforceLeverageBounds_def leverage_max_def within_vol_def positive_def Let_def split: option.splits if_splits)

lemma validator_classes:
  "validateQty qty step mn mx sy = Some e \<Longrightarrow> er_class e \<in> {InvalidStepError, QtyOutOfRangeError}"
  "validatePrice price tick sy = Some e \<Longrightarrow> er_class e = InvalidTickError"
  "enforceLeverageBounds lev c = Inl e \<Longrightarrow> er_class e = LeverageOutOfRangeError"
  by (auto simp: validateQty_def validate_max_def validatePrice_def enforceLeverageBounds_def leverage_max_def mk_error_def Let_def
      split: option.splits if_splits)

section \<open>Rounding gives valid quantities, up to a million steps\<close>

fun step_count :: "rounding_mode \<Rightarrow> rat \<Rightarrow> int" where
  "step_count RoundDown r = \<lfloor>r\<rfloor>"
| "step_count RoundUp r = \<lceil>r\<rceil>"
| "step_count RoundNearest r = \<lfloor>r + 1 / 2\<rfloor>"

lemma align_count:
  assumes "fl (q / s) = Fin r" "0 < s"
  shows "align (Fin q) (Fin s) mode = fl (of_int (step_count mode r) * s)"
  using assms by (cases mode) (auto simp: align_def valid_increment_iff Let_def)

lemma step_count_bounds: "of_int (step_count mode r) - 1 \<le> r \<and> r \<le> of_int (step_count mode r) + 1"
  by (cases mode) (simp_all, linarith+)

text \<open>The decimal places of the increments \<open>1, 0.1, \<dots>, 1e-8\<close>, the last two in exponent form.\<close>

lemma nat_le8: "d \<le> 8 \<Longrightarrow> d \<in> {0, 1, 2, 3, 4, 5, 6, 7, 8 :: nat}"
  by auto

lemma increment_facts:
  "d \<le> 8 \<Longrightarrow> fl (1 / 10 ^ d) = Fin (dbl (1 / 10 ^ d)) \<and> 0 < dbl (1 / 10 ^ d) \<and>
     countDecimals (Fin (dbl (1 / 10 ^ d))) = Fin (of_nat d)"
proof -
  have "list_all (\<lambda>d. fl (1 / 10 ^ d) = Fin (dbl (1 / 10 ^ d)) \<and> 0 < dbl (1 / 10 ^ d) \<and>
     countDecimals (Fin (dbl (1 / 10 ^ d))) = Fin (of_nat d)) [0, 1, 2, 3, 4, 5, 6, 7, 8]" by code_simp
  then show "d \<le> 8 \<Longrightarrow> ?thesis" using nat_le8 [of d] by (auto simp: list_all_iff)
qed

lemma normalizeFloat_decimal:
  assumes "d \<le> 8" "0 \<le> k" "k \<le> 10 ^ 6" "\<bar>x - of_int k / 10 ^ d\<bar> \<le> 1 / 10 ^ (d + 3)"
  shows "normalizeFloat (Fin x) (Fin (dbl (1 / 10 ^ d))) = fl (of_int k / 10 ^ d)"
proof -
  have D: "countDecimals (Fin (dbl (1 / 10 ^ d))) = Fin (of_nat d)" using increment_facts assms(1) by blast
  have "n_add (Fin (of_nat d)) (Fin 2) = Fin (of_nat (d + 2))"
    using n_add_safe [of "int d" 2] assms(1) by simp
  moreover have "digits_arg (n_min (Fin 12) (Fin (of_nat (d + 2)))) = d + 2"
  proof -
    have "(of_nat (d + 2) :: rat) \<le> of_nat 12" using assms(1) by (simp only: of_nat_le_iff)
    then have "min 12 (of_nat (d + 2)) = (of_nat (d + 2) :: rat)" by simp
    then show ?thesis by (simp only: n_min_Fin digits_arg.simps floor_of_nat nat_int)
  qed
  ultimately have n: "normalizeFloat (Fin x) (Fin (dbl (1 / 10 ^ d))) = fixed_num (d + 2) (Fin x)"
    by (simp add: normalizeFloat_def D n_max_Fin Let_def del: n_add.simps fixed_num.simps)
  have p: "(0::rat) < 10 ^ d" by simp
  have "\<bar>x - of_int k / 10 ^ d\<bar> * 10 ^ (d + 2) \<le> 1 / 10"
    using assms(4) mult_right_mono [OF assms(4), of "10 ^ (d + 2)"] by (simp add: power_add)
  moreover have "(x - of_int k / 10 ^ d) * 10 ^ (d + 2) = x * 10 ^ (d + 2) - of_int (100 * k)"
    by (simp add: power_add field_simps)
  moreover have "\<bar>x - of_int k / 10 ^ d\<bar> * 10 ^ (d + 2) = \<bar>(x - of_int k / 10 ^ d) * 10 ^ (d + 2)\<bar>"
    by (simp add: abs_mult)
  ultimately have c: "\<bar>x * 10 ^ (d + 2) - of_int (100 * k)\<bar> \<le> 1 / 10" by simp
  have k: "(0::rat) \<le> of_int (100 * k)" using assms(2) by simp
  have "\<bar>\<bar>x\<bar> * 10 ^ (d + 2) - of_int (100 * k)\<bar> \<le> 1 / 10"
  proof -
    have e: "\<bar>x\<bar> * 10 ^ (d + 2) = \<bar>x * 10 ^ (d + 2)\<bar>" by (simp add: abs_mult)
    have "\<bar>\<bar>z\<bar> - m\<bar> \<le> \<bar>z - m\<bar>" if "0 \<le> m" for z m :: rat using that by (cases "0 \<le> z") simp_all
    from order_trans [OF this [OF k] c] show ?thesis unfolding e .
  qed
  then have f: "\<lfloor>\<bar>x\<bar> * 10 ^ (d + 2) + 1 / 2\<rfloor> = 100 * k" by (intro floor_unique) linarith+
  have small: "\<not> 10 ^ 21 \<le> \<bar>x\<bar>"
  proof -
    have "(1::rat) / 10 ^ (d + 3) \<le> 1" "of_int k / (10::rat) ^ d \<le> of_int k"
      using assms(2) by (simp_all add: divide_le_eq_1 divide_le_eq mult_le_cancel_left1)
    moreover have "of_int k \<le> (of_int (10 ^ 6) :: rat)" using assms(3) by (simp only: of_int_le_iff)
    moreover have "0 \<le> of_int k / (10::rat) ^ d" using assms(2) by simp
    ultimately have "\<bar>x\<bar> \<le> 1 + of_int (10 ^ 6)" using assms(4) by linarith
    then show ?thesis by simp
  qed
  have "x < 0 \<Longrightarrow> k = 0"
  proof -
    assume "x < 0"
    then have "x * 10 ^ (d + 2) \<le> 0" by (simp add: mult_nonpos_nonneg less_imp_le)
    then have "(of_int (100 * k) :: rat) \<le> 1 / 10" using c unfolding abs_le_iff by linarith
    then have "(of_int (100 * k) :: rat) < of_int 1" by simp
    then show "k = 0" using assms(2) by (simp only: of_int_less_iff)
  qed
  then have sg: "(if x < 0 then - (100 * k) else 100 * k) = 100 * k" by auto
  have "fixed_num (d + 2) (Fin x) = fl (of_int (100 * k) / 10 ^ (d + 2))"
    unfolding fixed_num.simps Let_def f sg using small by (simp only: if_False)
  also have "of_int (100 * k) / 10 ^ (d + 2) = (of_int k / 10 ^ d :: rat)" by (simp add: power_add)
  finally show ?thesis unfolding n .
qed


lemma quotient_error:
  fixes a b e c :: rat
  assumes "0 < e" "e \<le> 1 / 4" "1 \<le> c" "\<bar>a - 1\<bar> \<le> e" "\<bar>b - c\<bar> \<le> c * e"
  shows "\<bar>b / a - c\<bar> \<le> 3 * (c * e)"
proof -
  have a: "3 / 4 \<le> a" using assms(2,4) by (simp add: abs_le_iff)
  have ce: "0 \<le> c * e" using assms(1,3) by simp
  have "\<bar>c * (1 - a)\<bar> \<le> c * e" using assms(3,4) by (simp add: abs_mult abs_minus_commute)
  then have "\<bar>b - c * a\<bar> \<le> 2 * (c * e)" using assms(5) by (simp add: abs_le_iff algebra_simps)
  also have "\<dots> \<le> 3 * (c * e) * (3 / 4)" using ce by simp
  also have "\<dots> \<le> 3 * (c * e) * a" using ce by (intro mult_left_mono a) simp
  finally have "\<bar>b - c * a\<bar> / a \<le> 3 * (c * e)" using a by (simp add: divide_le_eq)
  moreover have "b / a - c = (b - c * a) / a" using a by (simp add: diff_divide_distrib)
  then have "\<bar>b / a - c\<bar> = \<bar>b - c * a\<bar> / a" using a by (simp add: abs_divide)
  ultimately show ?thesis by simp
qed

lemma fl_below: "\<bar>dbl y\<bar> \<le> of_int (10 ^ 7) \<Longrightarrow> fl y = Fin (dbl y)"
proof -
  assume "\<bar>dbl y\<bar> \<le> of_int (10 ^ 7)"
  moreover have "of_int (10 ^ 7) < pow2 1024" by code_simp
  ultimately show ?thesis by (simp add: fl_def del: of_int_power)
qed

definition unit_err :: rat where
  "unit_err = 1 / 2 ^ 53"

lemma unit_err: "0 < unit_err" "unit_err \<le> 12 / 10 ^ 17"
  by (simp_all add: unit_err_def)

lemma dbl_rel_err:
  assumes "1 / 1000000000 \<le> y"
  shows "\<bar>dbl y - y\<bar> \<le> y * unit_err"
proof -
  have "pow2 (- 1022) \<le> 1 / 1000000000" by code_simp
  then show ?thesis using dbl_error [of y] assms by (simp add: unit_err_def)
qed

lemma count_range:
  assumes "d \<le> 8" "0 < k" "k \<le> 10 ^ 6"
  shows "1 \<le> (10 :: rat) ^ d" "1 / 100000000 \<le> 1 / (10 :: rat) ^ d" "1 / (10 :: rat) ^ d \<le> of_int k / 10 ^ d"
    "1 \<le> (of_int k :: rat)" "(of_int k :: rat) \<le> of_int (10 ^ 6)"
proof -
  show p: "1 \<le> (10 :: rat) ^ d" by simp
  show K: "1 \<le> (of_int k :: rat)" using assms(2) by simp
  show "(of_int k :: rat) \<le> of_int (10 ^ 6)" using assms(3) by (simp only: of_int_le_iff)
  have "(10 :: rat) ^ d \<le> 10 ^ 8" using assms(1) by (intro power_increasing) simp_all
  then show "1 / 100000000 \<le> 1 / (10 :: rat) ^ d" by (simp add: divide_le_eq le_divide_eq)
  show "1 / (10 :: rat) ^ d \<le> of_int k / 10 ^ d" using K by (intro divide_right_mono) simp_all
qed

lemma product_decimal:
  assumes "d \<le> 8" "0 < k" "k \<le> 10 ^ 6"
  shows "fl (of_int k * dbl (1 / 10 ^ d)) = Fin (dbl (of_int k * dbl (1 / 10 ^ d)))"
    and "\<bar>dbl (of_int k * dbl (1 / 10 ^ d)) - of_int k / 10 ^ d\<bar> \<le> 1 / 10 ^ (d + 3)"
proof -
  note c = count_range [OF assms]
  define c p s e where "c = (of_int k :: rat)" and "p = (10 :: rat) ^ d" and "s = dbl (1 / p)" and "e = unit_err"
  have S: "\<bar>s - 1 / p\<bar> \<le> 1 / p * e" unfolding s_def p_def e_def using c(2) by (intro dbl_rel_err) linarith
  have p: "1 \<le> p" "1 / 100000000 \<le> 1 / p" "1 / p \<le> c / p" "1 \<le> c" "c \<le> 1000000" using c by (simp_all add: c_def p_def)
  have e: "0 < e" "e \<le> 12 / 100000000000000000" using unit_err by (simp_all add: e_def)
  have "\<bar>c * (s - 1 / p)\<bar> \<le> c * (1 / p * e)" using mult_left_mono [OF S, of c] p(4) by (simp add: abs_mult)
  then have A: "\<bar>c * s - c / p\<bar> \<le> c / p * e" by (simp add: algebra_simps)
  have ce: "c / p * e \<le> 12 / 100000000000 * (1 / p)"
  proof -
    have "c * e \<le> 1000000 * (12 / 100000000000000000)" using p e by (intro mult_mono) simp_all
    then have "c * e / p \<le> 12 / 100000000000 / p" using p(1) by (intro divide_right_mono) simp_all
    then show ?thesis by simp
  qed
  have q: "0 < 1 / p" using p(1) by simp
  have low: "1 / 1000000000 \<le> c * s" and high: "c * s \<le> 2 * (c / p)" using A ce q p(2,3) by linarith+
  have "\<bar>dbl (c * s) - c * s\<bar> \<le> c * s * e" unfolding e_def using low by (rule dbl_rel_err)
  also have "\<dots> \<le> 2 * (c / p * e)" using mult_right_mono [OF high, of e] e(1) by simp
  finally have B: "\<bar>dbl (c * s) - c / p\<bar> \<le> 1 / 1000 * (1 / p)" using A ce q by linarith
  then show "\<bar>dbl (of_int k * dbl (1 / 10 ^ d)) - of_int k / 10 ^ d\<bar> \<le> 1 / 10 ^ (d + 3)"
    by (simp add: c_def p_def s_def power_add)
  have "\<bar>dbl (c * s)\<bar> \<le> 2 * c"
  proof -
    have "1 / p \<le> 1" "c / p \<le> c" using p by (simp_all add: divide_le_eq mult_le_cancel_left1)
    then show ?thesis using B q p(3,4) by linarith
  qed
  also have "\<dots> \<le> of_int (10 ^ 7)" using p(5) by simp
  finally show "fl (of_int k * dbl (1 / 10 ^ d)) = Fin (dbl (of_int k * dbl (1 / 10 ^ d)))"
    unfolding c_def s_def p_def by (rule fl_below)
qed

lemma aligned_decimal:
  assumes "d \<le> 8" "0 < k" "k \<le> 10 ^ 6"
  shows "\<exists>v. fl (of_int k / 10 ^ d) = Fin v \<and> 0 < v \<and> isAligned (Fin v) (Fin (dbl (1 / 10 ^ d)))"
proof -
  define p s v where "p = (10::rat) ^ d" and "s = dbl (1 / p)" and "v = dbl (of_int k / p)"
  define e where "e = unit_err"
  have e: "0 < e" "e \<le> 12 / 10 ^ 17" using unit_err by (simp_all add: e_def)
  note c0 = count_range [OF assms, folded p_def]
  note p = c0(1) and K = c0(4,5)
  have "1 / 1000000000 \<le> 1 / p" "1 / 1000000000 \<le> of_int k / p" using c0(2,3) by linarith+
  then have S: "\<bar>s - 1 / p\<bar> \<le> 1 / p * e" and V: "\<bar>v - of_int k / p\<bar> \<le> of_int k / p * e"
    unfolding s_def v_def e_def by (simp_all only: dbl_rel_err)
  have sp: "1 - e \<le> s * p" "s * p \<le> 1 + e" and vp: "\<bar>v * p - of_int k\<bar> \<le> of_int k * e"
    using mult_right_mono [OF S, of p] mult_right_mono [OF V, of p] p
    by (auto simp: abs_le_iff field_simps)
  have s0: "0 < s" using sp e p zero_less_mult_pos2 [of s p] by simp
  define c where "c = (of_int k :: rat)"
  have ce: "c * e \<le> 12 / 10 ^ 11"
  proof -
    have "c * e \<le> of_int (10 ^ 6) * (12 / 10 ^ 17)" using K e unfolding c_def by (intro mult_mono) simp_all
    then show ?thesis by simp
  qed
  have "v / s = (v * p) / (s * p)" using p by simp
  then have Q: "\<bar>v / s - c\<bar> \<le> 3 * (c * e)"
    using quotient_error [of e c "s * p" "v * p"] e K(1) sp vp by (simp add: c_def abs_le_iff)
  define r where "r = dbl (v / s)"
  have c1: "1 \<le> c" "c \<le> of_int (10 ^ 6)" using K by (simp_all only: c_def)
  have low: "1 / 1000000000 \<le> v / s" and high: "v / s \<le> 2 * c" using Q ce c1(1) by (simp_all add: abs_le_iff)
  have "\<bar>r - v / s\<bar> \<le> v / s * e" unfolding r_def e_def using low by (rule dbl_rel_err)
  also have "\<dots> \<le> 2 * (c * e)" using mult_right_mono [OF high, of e] e(1) by simp
  finally have "\<bar>r - c\<bar> \<le> 5 * (c * e)" using Q by linarith
  also have "\<dots> \<le> 6 / 10 ^ 10" using ce by simp
  finally have R: "\<bar>r - c\<bar> \<le> 6 / 10 ^ 10" .
  have rb: "\<bar>r\<bar> \<le> of_int (10 ^ 7)" 
  proof -
    have "\<bar>r - c\<bar> \<le> 1" "c \<le> 1000000" using R c1 by simp_all
    then show ?thesis using c1(1) by (simp add: abs_le_iff)
  qed
  have k: "\<lfloor>r + 1 / 2\<rfloor> = k" 
  proof -
    have "\<bar>r - of_int k\<bar> \<le> 1 / 4" using R by (simp add: c_def)
    then show ?thesis by (intro floor_unique) linarith+
  qed
  have D: "\<bar>dbl (r - c)\<bar> \<le> dbl (1 / 10 ^ 9)"
  proof -
    have "\<bar>r - c\<bar> \<le> 1 / 10 ^ 9" using R by simp
    then have "dbl (r - c) \<le> dbl (1 / 10 ^ 9)" "dbl (- (r - c)) \<le> dbl (1 / 10 ^ 9)" by (intro dbl_mono; linarith)+
    then show ?thesis by (simp only: dbl_minus abs_le_iff)
  qed
  have vb: "of_int k / p * e \<le> of_int k"
    using mult_mono [of "of_int k / p" "of_int k" e 1] p K(1) e by (simp add: divide_le_eq mult_le_cancel_left1)
  have tol: "fl (1 / 10 ^ 9) = Fin (dbl (1 / 10 ^ 9))" "dbl (1 / 10 ^ 9) \<le> of_int (10 ^ 7)" by code_simp+
  have rat: "n_div (Fin v) (Fin s) = Fin r" using s0 fl_below [of "v / s"] rb by (simp add: r_def)
  have sub: "n_sub (Fin r) (Fin c) = Fin (dbl (r - c))" using fl_below [of "r - c"] D tol(2) by (simp add: n_sub_def)
  have "isAligned (Fin v) (Fin s)"
    unfolding isAligned_def Let_def rat tol(1) using s0 D sub
    by (simp only: n_round.simps k n_abs.simps n_le_Fin valid_increment_iff flip: c_def) simp
  moreover have "fl (of_int k / p) = Fin v" unfolding v_def
  proof (rule fl_below)
    have "\<bar>of_int k / p\<bar> \<le> of_int k" using p K(1) by (simp add: divide_le_eq mult_le_cancel_left1)
    then have "\<bar>v\<bar> \<le> 2 * of_int k" using V vb by linarith
    also have "\<dots> \<le> of_int (10 ^ 7)" using K(2) by simp
    finally show "\<bar>dbl (of_int k / p)\<bar> \<le> of_int (10 ^ 7)" unfolding v_def .
  qed
  moreover have "0 < v" using low s0 zero_less_divide_iff [of v s] by auto
  ultimately show ?thesis by (auto simp: p_def s_def)
qed


text \<open>C39: With a step of one down to 1e-8, a quantity of up to a million steps rounds, in every mode, to
  the double nearest to the whole number of steps, and the validator accepts what the rounding
  produced, the limits of the contract apart. The tolerance of the validator is absolute: a quantity of
  8388612 steps is rounded to one that the validator rejects as not aligned.\<close>

theorem rounded_qty_valid:
  assumes "d \<le> 8" "k = step_count mode (dbl (q / dbl (1 / 10 ^ d)))" "0 < k" "k \<le> 10 ^ 6"
    and "within_vol minVol maxVol (fl (of_int k / 10 ^ d))"
  shows "roundQtyToStep (Fin q) (fl (1 / 10 ^ d)) mode = fl (of_int k / 10 ^ d) \<and>
    validateQty (fl (of_int k / 10 ^ d)) (fl (1 / 10 ^ d)) minVol maxVol symbol = None \<and>
    validateQty (roundQtyToStep (fl (8388612 / 10)) (fl (1 / 10)) RoundNearest) (fl (1 / 10)) None None symbol \<noteq> None"
proof -
  define s where "s = dbl (1 / 10 ^ d)"
  have s: "fl (1 / 10 ^ d) = Fin s" "0 < s" using increment_facts [OF assms(1)] by (simp_all add: s_def)
  obtain v where v: "fl (of_int k / 10 ^ d) = Fin v" "0 < v" "isAligned (Fin v) (Fin s)"
    using aligned_decimal [OF assms(1,3,4)] by (auto simp: s_def)
  have n: "normalizeFloat (align (Fin q) (Fin s) mode) (Fin s) = fl (of_int k / 10 ^ d)"
  proof -
    have "\<bar>dbl (q / s)\<bar> \<le> of_int k + 1"
      using step_count_bounds [of mode "dbl (q / s)"] assms(2,3) by (simp add: s_def abs_le_iff)
    also have "\<dots> \<le> of_int (10 ^ 7)" using count_range(5) [OF assms(1,3,4)] by simp
    finally have "fl (q / s) = Fin (dbl (q / s))" by (rule fl_below)
    then have "align (Fin q) (Fin s) mode = fl (of_int k * s)" using s(2) by (simp add: align_count assms(2) s_def)
    then show ?thesis
      using product_decimal [OF assms(1,3,4)] normalizeFloat_decimal [OF assms(1) _ assms(4)] assms(3) by (simp add: s_def)
  qed
  have bad: "\<not> isAligned (roundQtyToStep (fl (8388612 / 10)) (fl (1 / 10)) RoundNearest) (fl (1 / 10))" by code_simp
  show ?thesis
    using n v s assms(5) bad by (simp add: roundQtyToStep_def validateQty_None valid_increment_iff positive_iff)
qed

theorem rounded_qty_valid_witness:
  "roundQtyToStep (Fin (5 / 4)) (fl (1 / 10 ^ 3)) RoundDown = fl (of_int 1250 / 10 ^ 3) \<and>
   validateQty (fl (of_int 1250 / 10 ^ 3)) (fl (1 / 10 ^ 3)) (Some (Fin 1)) (Some (Fin 100)) ''X'' = None"
proof -
  have "1250 = step_count RoundDown (dbl (5 / 4 / dbl (1 / 10 ^ 3)))" by code_simp
  moreover have "within_vol (Some (Fin 1)) (Some (Fin 100)) (fl (of_int 1250 / 10 ^ 3))" by code_simp
  ultimately show ?thesis using rounded_qty_valid [of 3 1250 RoundDown "5 / 4" "Some (Fin 1)" "Some (Fin 100)" "''X''"] by simp
qed

end
