(* ===== verification/Actions.thy ===== *)
theory Actions
  imports Main
begin

text \<open>
  Asynchronous code that calls the outside: an action threads the list of the calls made so far, a call
  is answered from that list by a parameter of the model, and an exception is a value. \<open>does\<close> states what
  an action returns and which calls it adds, whatever was called before; its rules follow the shape of
  the code.
\<close>

section \<open>Actions\<close>

type_synonym ('e, 'c, 'a) action = "'c list \<Rightarrow> ('e + 'a) \<times> 'c list"

definition ret :: "'a \<Rightarrow> ('e, 'c, 'a) action" where
  "ret x t = (Inr x, t)"

definition throw :: "'e \<Rightarrow> ('e, 'c, 'a) action" where
  "throw e t = (Inl e, t)"

definition bind :: "('e, 'c, 'a) action \<Rightarrow> ('a \<Rightarrow> ('e, 'c, 'b) action) \<Rightarrow> ('e, 'c, 'b) action" where
  "bind m k t = (case m t of (Inl e, t') \<Rightarrow> (Inl e, t') | (Inr x, t') \<Rightarrow> k x t')"

definition catch :: "('e, 'c, 'a) action \<Rightarrow> ('e \<Rightarrow> ('e, 'c, 'a) action) \<Rightarrow> ('e, 'c, 'a) action" where
  "catch m h t = (case m t of (Inl e, t') \<Rightarrow> h e t' | (Inr x, t') \<Rightarrow> (Inr x, t'))"

text \<open>A call to the outside: it is recorded, and answered from the calls before it.\<close>

definition perform :: "'c \<Rightarrow> ('c list \<Rightarrow> 'e + 'a) \<Rightarrow> ('e, 'c, 'a) action" where
  "perform c f t = (f t, t @ [c])"

definition of_sum :: "'e + 'a \<Rightarrow> ('e, 'c, 'a) action" where
  "of_sum r = (case r of Inl e \<Rightarrow> throw e | Inr x \<Rightarrow> ret x)"

section \<open>Reasoning about actions\<close>

text \<open>\<open>does m Q\<close>: whatever calls were made before, the result and the calls the action adds satisfy \<open>Q\<close>.\<close>

definition does :: "('e, 'c, 'a) action \<Rightarrow> ('e + 'a \<Rightarrow> 'c list \<Rightarrow> bool) \<Rightarrow> bool" where
  "does m Q \<longleftrightarrow> (\<forall>t. \<exists>cs. snd (m t) = t @ cs \<and> Q (fst (m t)) cs)"

named_theorems act_rules

lemma does_mono: "does m R \<Longrightarrow> (\<And>r cs. R r cs \<Longrightarrow> Q r cs) \<Longrightarrow> does m Q"
  unfolding does_def by blast

lemma does_ret [act_rules]: "Q (Inr x) [] \<Longrightarrow> does (ret x) Q"
  by (simp add: does_def ret_def)

lemma does_throw [act_rules]: "Q (Inl e) [] \<Longrightarrow> does (throw e) Q"
  by (simp add: does_def throw_def)

lemma does_of_sum [act_rules]: "Q r [] \<Longrightarrow> does (of_sum r) Q"
  by (cases r) (simp_all add: of_sum_def does_ret does_throw)

lemma does_perform [act_rules]: "(\<And>t. Q (f t) [c]) \<Longrightarrow> does (perform c f) Q"
  by (simp add: does_def perform_def)

lemma does_bind:
  assumes "does m R" "\<And>e cs. R (Inl e) cs \<Longrightarrow> Q (Inl e) cs"
    and "\<And>x cs. R (Inr x) cs \<Longrightarrow> does (k x) (\<lambda>r cs'. Q r (cs @ cs'))"
  shows "does (bind m k) Q"
  unfolding does_def
proof
  fix t
  obtain cs where m: "snd (m t) = t @ cs" "R (fst (m t)) cs" using assms(1) by (auto simp: does_def)
  show "\<exists>cs. snd (bind m k t) = t @ cs \<and> Q (fst (bind m k t)) cs"
  proof (cases "fst (m t)")
    case (Inl e)
    then have "m t = (Inl e, t @ cs)" using m(1) by (cases "m t") simp
    then show ?thesis using m(2) assms(2) by (simp add: bind_def)
  next
    case (Inr x)
    then have mt: "m t = (Inr x, t @ cs)" using m(1) by (cases "m t") simp
    then have "R (Inr x) cs" using m(2) by simp
    then obtain cs' where "snd (k x (t @ cs)) = (t @ cs) @ cs'" "Q (fst (k x (t @ cs))) (cs @ cs')"
      using assms(3) unfolding does_def by blast
    then show ?thesis by (simp add: bind_def mt)
  qed
qed

lemma does_catch:
  assumes "does m R" "\<And>e cs. R (Inl e) cs \<Longrightarrow> does (h e) (\<lambda>r cs'. Q r (cs @ cs'))" "\<And>x cs. R (Inr x) cs \<Longrightarrow> Q (Inr x) cs"
  shows "does (catch m h) Q"
  unfolding does_def
proof
  fix t
  obtain cs where m: "snd (m t) = t @ cs" "R (fst (m t)) cs" using assms(1) by (auto simp: does_def)
  show "\<exists>cs. snd (catch m h t) = t @ cs \<and> Q (fst (catch m h t)) cs"
  proof (cases "fst (m t)")
    case (Inl e)
    then have mt: "m t = (Inl e, t @ cs)" using m(1) by (cases "m t") simp
    then have "R (Inl e) cs" using m(2) by simp
    then obtain cs' where "snd (h e (t @ cs)) = (t @ cs) @ cs'" "Q (fst (h e (t @ cs))) (cs @ cs')"
      using assms(2) unfolding does_def by blast
    then show ?thesis by (simp add: catch_def mt)
  next
    case (Inr x)
    then have "m t = (Inr x, t @ cs)" using m(1) by (cases "m t") simp
    then show ?thesis using m(2) assms(3) by (simp add: catch_def)
  qed
qed

text \<open>A bind whose first action is one call, a lifted value or an action with a known contract.\<close>

lemma does_bind_perform:
  "(\<And>t e. f t = Inl e \<Longrightarrow> Q (Inl e) [c]) \<Longrightarrow> (\<And>t x. f t = Inr x \<Longrightarrow> does (k x) (\<lambda>r cs. Q r (c # cs)))
   \<Longrightarrow> does (bind (perform c f) k) Q"
  by (rule does_bind [where R = "\<lambda>r cs. cs = [c] \<and> (\<exists>t. r = f t)"]) (auto intro!: does_perform)

lemma does_bind_sum:
  "(\<And>e. s = Inl e \<Longrightarrow> Q (Inl e) []) \<Longrightarrow> (\<And>x. s = Inr x \<Longrightarrow> does (k x) Q) \<Longrightarrow> does (bind (of_sum s) k) Q"
  by (rule does_bind [where R = "\<lambda>r cs. cs = [] \<and> r = s"]) (auto intro!: does_of_sum)

lemma does_bind_ret: "does (k x) Q \<Longrightarrow> does (bind (ret x) k) Q"
  by (rule does_bind [where R = "\<lambda>r cs. cs = [] \<and> r = Inr x"]) (auto intro!: does_ret)

lemma doesD: "does m Q \<Longrightarrow> m t = (r, t @ cs) \<Longrightarrow> Q r cs"
  unfolding does_def by (metis fst_conv same_append_eq snd_conv)

lemma does_start: "does m Q \<Longrightarrow> m [] = (r, cs) \<Longrightarrow> Q r cs"
  using doesD [of m Q "[]" r cs] by simp

section \<open>Contracts that ignore negligible calls\<close>

text \<open>
  The contract of a component often does not mind some calls in front, the reads for example. The
  locale states that, and gives the rule that skips an action making only such calls.
\<close>

locale skips =
  fixes ok :: "'c list \<Rightarrow> bool" and Q :: "'e + 'a \<Rightarrow> 'c list \<Rightarrow> bool"
  assumes skip: "ok cs \<Longrightarrow> Q r cs' \<Longrightarrow> Q r (cs @ cs')"
begin

lemma skip_does:
  assumes "ok cs" "does m Q"
  shows "does m (\<lambda>r cs'. Q r (cs @ cs'))"
  using assms(2) by (rule does_mono) (rule skip [OF assms(1)])

lemma bind_after:
  assumes "does m (\<lambda>r cs. ok cs \<and> S r)" "\<And>e cs. ok cs \<Longrightarrow> S (Inl e) \<Longrightarrow> Q (Inl e) cs" "\<And>x. S (Inr x) \<Longrightarrow> does (k x) Q"
  shows "does (bind m k) Q"
  by (rule does_bind [OF assms(1)]) (auto intro: assms(2,3) skip_does)

lemma bind_answer:
  assumes "does m (\<lambda>r cs. ok cs \<and> (\<exists>x. r = Inr x \<and> S x))" "\<And>x. S x \<Longrightarrow> does (k x) Q"
  shows "does (bind m k) Q"
  by (rule bind_after [OF assms(1)]) (auto intro: assms(2))

end

section \<open>Contracts that know the calls before\<close>

text \<open>
  When the answers of the outside are tied to the calls before, as those of a database are, a contract
  needs a precondition on them: \<open>triple P m Q\<close> is the usual partial specification over the call list.
\<close>

definition triple :: "('c list \<Rightarrow> bool) \<Rightarrow> ('e, 'c, 'a) action \<Rightarrow> ('e + 'a \<Rightarrow> 'c list \<Rightarrow> bool) \<Rightarrow> bool" where
  "triple P m Q \<longleftrightarrow> (\<forall>t. P t \<longrightarrow> Q (fst (m t)) (snd (m t)))"

lemma triple_conseq: "triple P m R \<Longrightarrow> (\<And>t. P' t \<Longrightarrow> P t) \<Longrightarrow> (\<And>r t. R r t \<Longrightarrow> Q r t) \<Longrightarrow> triple P' m Q"
  by (auto simp: triple_def)

lemma triple_ret: "(\<And>t. P t \<Longrightarrow> Q (Inr x) t) \<Longrightarrow> triple P (ret x) Q"
  by (simp add: triple_def ret_def)

lemma triple_throw: "(\<And>t. P t \<Longrightarrow> Q (Inl e) t) \<Longrightarrow> triple P (throw e) Q"
  by (simp add: triple_def throw_def)

lemma triple_perform: "(\<And>t. P t \<Longrightarrow> Q (f t) (t @ [c])) \<Longrightarrow> triple P (perform c f) Q"
  by (simp add: triple_def perform_def)

lemma triple_bind:
  assumes "triple P m R" "\<And>x. triple (R (Inr x)) (k x) Q" "\<And>e t. R (Inl e) t \<Longrightarrow> Q (Inl e) t"
  shows "triple P (bind m k) Q"
  unfolding triple_def
proof (intro allI impI)
  fix t assume "P t"
  then have r: "R (fst (m t)) (snd (m t))" using assms(1) by (simp add: triple_def)
  then show "Q (fst (bind m k t)) (snd (bind m k t))"
    using assms(2,3) by (cases "m t"; cases "fst (m t)") (auto simp: bind_def triple_def)
qed

lemma triple_catch:
  assumes "triple P m R" "\<And>e. triple (R (Inl e)) (h e) Q" "\<And>x t. R (Inr x) t \<Longrightarrow> Q (Inr x) t"
  shows "triple P (catch m h) Q"
  unfolding triple_def
proof (intro allI impI)
  fix t assume "P t"
  then have r: "R (fst (m t)) (snd (m t))" using assms(1) by (simp add: triple_def)
  then show "Q (fst (catch m h t)) (snd (catch m h t))"
    using assms(2,3) by (cases "m t"; cases "fst (m t)") (auto simp: catch_def triple_def)
qed

lemma triple_if: "(b \<Longrightarrow> triple P m Q) \<Longrightarrow> (\<not> b \<Longrightarrow> triple P n Q) \<Longrightarrow> triple P (if b then m else n) Q"
  by simp

lemma tripleD: "triple P m Q \<Longrightarrow> P t \<Longrightarrow> m t = (r, t') \<Longrightarrow> Q r t'"
  by (auto simp: triple_def dest: spec [of _ t])

end
