(* ===== verification/FuturesEngine.thy ===== *)
theory FuturesEngine
  imports OrderSizing Actions
begin

text \<open>
  The futures engine (packages/futures-engine/src/engine.ts with the result test of
  packages/futures-exchange/src/futures-exchange.interface.ts): an intent of a strategy becomes calls
  of an exchange adapter, behind the kill switch, the contract checks and the sizing rules. The
  adapter, the callbacks of the caller, the clock and the process environment are parameters; an
  answer of theirs can depend on every call made before it, and can be an error. The calls made so
  far are the state an action threads through.
\<close>

section \<open>Intents, requests and results\<close>

datatype position_side = Long | Short
datatype order_side = Buy | Sell
datatype order_type = Market | Limit
datatype margin_mode = Isolated | Cross

record order_params =
  op_type :: "order_type option"
  op_qty :: "jsnum option"
  op_price :: "jsnum option"
  op_takeProfitPrice :: "jsnum option"
  op_stopLossPrice :: "jsnum option"
  op_reduceOnly :: "bool option"
  op_roundingMode :: "rounding_mode option"
  op_leverage :: "jsnum option"
  op_marginMode :: "margin_mode option"
  op_desiredNotionalUsd :: "jsnum option"
  op_riskUsd :: "jsnum option"
  op_stopDistancePct :: "jsnum option"
  op_markPrice :: "jsnum option"
  op_cancelOrderId :: "string option"
  op_clientOrderId :: "string option"

definition no_params :: order_params where
  "no_params = \<lparr> op_type = None, op_qty = None, op_price = None, op_takeProfitPrice = None, op_stopLossPrice = None,
     op_reduceOnly = None, op_roundingMode = None, op_leverage = None, op_marginMode = None,
     op_desiredNotionalUsd = None, op_riskUsd = None, op_stopDistancePct = None, op_markPrice = None,
     op_cancelOrderId = None, op_clientOrderId = None \<rparr>"

datatype trade_intent =
    OpenIntent string position_side "order_params option"
  | CloseIntent string "order_params option"
  | NoIntent

datatype risk_type = KILL_SWITCH_BLOCK | SYMBOL_UNKNOWN | TRADING_NOT_ALLOWED | ORDER_VALIDATION_BLOCK

record risk_event =
  rk_type :: risk_type
  rk_botId :: "string option"
  rk_timestamp :: string
  rk_message :: string
  rk_meta :: jsobj

datatype block_reason = KillSwitch | SymbolUnknown | TradingNotAllowed | Validation

datatype engine_result = Noop | Blocked block_reason | Accepted "string option"

record position =
  ps_symbol :: string
  ps_side :: position_side
  ps_size :: jsnum

record place_request =
  pr_symbol :: string
  pr_side :: order_side
  pr_type :: order_type
  pr_qty :: jsnum
  pr_price :: "jsnum option"
  pr_clientOrderId :: "string option"
  pr_takeProfitPrice :: "jsnum option"
  pr_stopLossPrice :: "jsnum option"
  pr_reduceOnly :: "bool option"
  pr_marginMode :: "margin_mode option"

text \<open>An order intent carries its context, a normalised one what the adapter made of it.\<close>

record order_intent = place_request +
  oi_source :: string
  oi_reason :: string

record norm_intent = order_intent +
  ni_exchangeSymbol :: string
  ni_normalizedQty :: jsnum
  ni_normalizedPrice :: "jsnum option"
  ni_metadata :: jsobj

datatype action_status = Confirmed | FailedAction | PendingTimeout

record place_result =
  pl_status :: action_status
  pl_orderId :: "string option"
  pl_errorCode :: "string option"
  pl_errorMessage :: "string option"

definition isConfirmedPlaceOrderResult :: "place_result \<Rightarrow> bool" where
  "isConfirmedPlaceOrderResult r \<longleftrightarrow>
     pl_status r = Confirmed \<and> (case pl_orderId r of Some i \<Rightarrow> str_trim i \<noteq> '''' | None \<Rightarrow> False)"

section \<open>Calls and actions\<close>

datatype call =
    ReadTradingEnabled
  | ReadContract string
  | ReadExchangeSymbol string
  | ReadPositions
  | SetLeverage string jsnum margin_mode
  | NormalizeIntent order_intent
  | ValidateIntent norm_intent
  | PlaceNormalized norm_intent
  | PlaceOrder place_request
  | CancelOrder string
  | EmitRisk risk_event

type_synonym 'a act = "(js_error, call, 'a) action"

section \<open>The adapter, the callbacks and the engine\<close>

record exchange =
  ad_setLeverage :: "string \<Rightarrow> jsnum \<Rightarrow> margin_mode \<Rightarrow> call list \<Rightarrow> js_error + unit"
  ad_placeOrder :: "place_request \<Rightarrow> call list \<Rightarrow> js_error + place_result"
  ad_cancelOrder :: "string \<Rightarrow> call list \<Rightarrow> js_error + unit"
  ad_getPositions :: "call list \<Rightarrow> js_error + position list"
  ad_normalizeOrderIntent :: "(order_intent \<Rightarrow> call list \<Rightarrow> js_error + norm_intent) option"
  ad_validateOrderIntent :: "(norm_intent \<Rightarrow> call list \<Rightarrow> js_error + unit) option"
  ad_placeNormalizedOrder :: "(norm_intent \<Rightarrow> call list \<Rightarrow> js_error + place_result) option"
  ad_getContractInfo :: "(string \<Rightarrow> call list \<Rightarrow> js_error + contract_info option) option"
  ad_toExchangeSymbol :: "(string \<Rightarrow> call list \<Rightarrow> js_error + string) option"
  ad_toCanonicalSymbol :: "(string \<Rightarrow> string option) option"

text \<open>\<open>isTradingEnabled\<close> is absent, a boolean or a function.\<close>

datatype trading_flag = TFUndefined | TFBool bool | TFFunction "call list \<Rightarrow> js_error + bool"

record engine_ctx =
  cx_botId :: "string option"
  cx_isTradingEnabled :: trading_flag
  cx_emitRiskEvent :: "(risk_event \<Rightarrow> call list \<Rightarrow> js_error + unit) option"
  cx_getContractInfo :: "(string \<Rightarrow> call list \<Rightarrow> js_error + contract_info option) option"

text \<open>The options of the constructor, and what the process gives: two variables of the environment,
  the text of a call stack, the clock and the power of ten.\<close>

record engine =
  en_ex :: exchange
  en_isTradingEnabled :: "(call list \<Rightarrow> js_error + bool) option"
  en_emitRiskEvent :: "(risk_event \<Rightarrow> call list \<Rightarrow> js_error + unit) option"
  en_getContractInfo :: "(string \<Rightarrow> call list \<Rightarrow> js_error + contract_info option) option"
  en_GLOBAL_TRADING_ENABLED :: "string option"
  en_NODE_ENV :: "string option"
  en_stack :: string
  en_now :: "call list \<Rightarrow> string"
  en_pow10 :: "jsnum \<Rightarrow> jsnum"

definition normalize :: "string option \<Rightarrow> string" where
  "normalize raw = str_lower (str_trim (opt_get raw ''''))"

fun toOrderSide :: "position_side \<Rightarrow> order_side" where
  "toOrderSide Long = Buy"
| "toOrderSide Short = Sell"

fun toCloseOrderSide :: "position_side \<Rightarrow> order_side" where
  "toCloseOrderSide Long = Sell"
| "toCloseOrderSide Short = Buy"

definition is_alnum :: "char \<Rightarrow> bool" where
  "is_alnum c \<longleftrightarrow> is_digit c \<or> (65 \<le> code c \<and> code c \<le> 90) \<or> (97 \<le> code c \<and> code c \<le> 122)"

definition toCanonicalFallbackSymbol :: "string \<Rightarrow> string" where
  "toCanonicalFallbackSymbol s = str_upper (filter is_alnum s)"

definition isGlobalTradingEnabled :: "string option \<Rightarrow> string option \<Rightarrow> bool" where
  "isGlobalTradingEnabled raw nodeEnv =
     (let n = normalize raw
      in if n = ''off'' \<or> n = ''false'' \<or> n = ''0'' then False
         else if n = ''on'' \<or> n = ''true'' \<or> n = ''1'' then True
         else if normalize nodeEnv = ''production'' then True else True)"

section \<open>The private operations of the engine\<close>

text \<open>The pattern \<open>[\\/](packages[\\/])?strategies[\\/]\<close>, case ignored: wherever the optional part
  matches, the rest matches without it.\<close>

definition is_slash :: "char \<Rightarrow> bool" where
  "is_slash c \<longleftrightarrow> code c = 92 \<or> code c = 47"

fun strategies_here :: "string \<Rightarrow> bool" where
  "strategies_here [] = False"
| "strategies_here (c # cs) =
     (is_slash c \<and> str_lower (take 10 cs) = ''strategies'' \<and> (case drop 10 cs of d # _ \<Rightarrow> is_slash d | [] \<Rightarrow> False))"

fun calledFromStrategies :: "string \<Rightarrow> bool" where
  "calledFromStrategies [] = False"
| "calledFromStrategies (c # cs) = (strategies_here (c # cs) \<or> calledFromStrategies cs)"

definition plain_error :: "string \<Rightarrow> js_error" where
  "plain_error message = mk_error (OtherError ''Error'') '''' message"

definition assertExecutionBoundary :: "engine \<Rightarrow> string \<Rightarrow> unit act" where
  "assertExecutionBoundary en meth =
     (if \<not> calledFromStrategies (en_stack en) then ret ()
      else if en_NODE_ENV en = Some ''production'' then ret ()
      else throw (plain_error (''Execution boundary violation: '' @ meth @ '' called from strategy code path'')))"

definition resolveTradingEnabled :: "engine \<Rightarrow> engine_ctx \<Rightarrow> bool act" where
  "resolveTradingEnabled en ctx =
     (case cx_isTradingEnabled ctx of
        TFBool b \<Rightarrow> ret b
      | TFFunction f \<Rightarrow> perform ReadTradingEnabled f
      | TFUndefined \<Rightarrow>
          (case en_isTradingEnabled en of
             Some f \<Rightarrow> perform ReadTradingEnabled f
           | None \<Rightarrow> ret (isGlobalTradingEnabled (en_GLOBAL_TRADING_ENABLED en) (en_NODE_ENV en))))"

definition emitRiskEvent :: "engine \<Rightarrow> engine_ctx \<Rightarrow> risk_event \<Rightarrow> unit act" where
  "emitRiskEvent en ctx ev =
     (case cx_emitRiskEvent ctx of
        Some f \<Rightarrow> perform (EmitRisk ev) (f ev)
      | None \<Rightarrow> (case en_emitRiskEvent en of
                   Some f \<Rightarrow> perform (EmitRisk ev) (f ev)
                 | None \<Rightarrow> ret ()))"

definition resolveContractInfo :: "engine \<Rightarrow> engine_ctx \<Rightarrow> string \<Rightarrow> contract_info option act" where
  "resolveContractInfo en ctx symbol =
     (case opt_or (cx_getContractInfo ctx) (opt_or (en_getContractInfo en) (ad_getContractInfo (en_ex en))) of
        Some f \<Rightarrow> perform (ReadContract symbol) (f symbol)
      | None \<Rightarrow> ret None)"

definition order_id_of :: "place_result \<Rightarrow> string act" where
  "order_id_of placed =
     (if \<not> isConfirmedPlaceOrderResult placed
      then throw (plain_error (opt_get (opt_or (pl_errorMessage placed) (pl_errorCode placed))
                    ''futures_engine_order_confirmation_pending''))
      else ret (opt_get (pl_orderId placed) ''''))"

definition to_intent :: "place_request \<Rightarrow> order_intent" where
  "to_intent p = place_request.extend p \<lparr> oi_source = ''runner'', oi_reason = ''futures_engine'' \<rparr>"

definition exchange_symbol :: "engine \<Rightarrow> string \<Rightarrow> string act" where
  "exchange_symbol en symbol =
     (case ad_toExchangeSymbol (en_ex en) of
        Some f \<Rightarrow> perform (ReadExchangeSymbol symbol) (f symbol)
      | None \<Rightarrow> ret symbol)"

text \<open>An empty client order identifier is not sent.\<close>

definition placeViaExchangeAdapter :: "engine \<Rightarrow> place_request \<Rightarrow> string act" where
  "placeViaExchangeAdapter en p =
     (let ex = en_ex en
      in case (ad_normalizeOrderIntent ex, ad_validateOrderIntent ex, ad_placeNormalizedOrder ex) of
           (Some nrm, Some val, Some place) \<Rightarrow>
             bind (perform (NormalizeIntent (to_intent p)) (nrm (to_intent p))) (\<lambda>ni.
             bind (perform (ValidateIntent ni) (val ni)) (\<lambda>_.
             bind (perform (PlaceNormalized ni) (place ni)) order_id_of))
         | _ \<Rightarrow>
             bind (exchange_symbol en (pr_symbol p)) (\<lambda>s.
               let req = p\<lparr> pr_symbol := s,
                 pr_clientOrderId := (if pr_clientOrderId p = Some '''' then None else pr_clientOrderId p) \<rparr>
               in bind (perform (PlaceOrder req) (ad_placeOrder ex req)) order_id_of))"

definition block :: "engine \<Rightarrow> engine_ctx \<Rightarrow> risk_type \<Rightarrow> block_reason \<Rightarrow> string \<Rightarrow> jsobj \<Rightarrow> engine_result act" where
  "block en ctx ty reason message meta t =
     bind (emitRiskEvent en ctx
       \<lparr> rk_type = ty, rk_botId = cx_botId ctx, rk_timestamp = en_now en t, rk_message = message, rk_meta = meta \<rparr>)
       (\<lambda>_. ret (Blocked reason)) t"

text \<open>Declared beside the others and called by none of them.\<close>

definition resolveExchangeSymbol :: "engine \<Rightarrow> string \<Rightarrow> contract_info \<Rightarrow> string act" where
  "resolveExchangeSymbol en symbol c =
     (case ad_toExchangeSymbol (en_ex en) of
        Some f \<Rightarrow> perform (ReadExchangeSymbol symbol) (f symbol)
      | None \<Rightarrow> ret (ct_exchangeSymbol c))"

definition unknown_symbol :: "engine \<Rightarrow> engine_ctx \<Rightarrow> string \<Rightarrow> engine_result act" where
  "unknown_symbol en ctx symbol =
     block en ctx SYMBOL_UNKNOWN SymbolUnknown (''Unknown symbol '' @ symbol) [(''symbol'', JStr symbol)]"

definition trading_disabled :: "engine \<Rightarrow> engine_ctx \<Rightarrow> contract_info \<Rightarrow> engine_result act" where
  "trading_disabled en ctx c =
     block en ctx TRADING_NOT_ALLOWED TradingNotAllowed
       (''Trading disabled for '' @ ct_canonicalSymbol c @ '' (apiAllowed=false)'')
       [(''symbol'', JStr (ct_canonicalSymbol c)), (''exchangeSymbol'', JStr (ct_exchangeSymbol c))]"

definition validation_block :: "engine \<Rightarrow> engine_ctx \<Rightarrow> contract_info \<Rightarrow> js_error \<Rightarrow> engine_result act" where
  "validation_block en ctx c e =
     block en ctx ORDER_VALIDATION_BLOCK Validation (er_message e)
       [(''symbol'', JStr (ct_canonicalSymbol c)), (''errorName'', JStr (error_name (er_class e)))]"

definition truthy_num :: "jsnum option \<Rightarrow> jsnum option" where
  "truthy_num n = (if n = Some (Fin 0) \<or> n = Some NaN then None else n)"

definition step_error :: "contract_info \<Rightarrow> js_error" where
  "step_error c = mk_error InvalidStepError (ct_canonicalSymbol c) (''Missing step size for '' @ ct_canonicalSymbol c)"

section \<open>Opening\<close>

text \<open>The quantity: given, from a notional, or from a risk budget; undefined otherwise.\<close>

definition sized_qty :: "order_params \<Rightarrow> contract_info \<Rightarrow> jsnum option" where
  "sized_qty od c =
     (let mark = opt_or (op_markPrice od) (op_price od)
      in case op_qty od of
           Some q \<Rightarrow> Some q
         | None \<Rightarrow>
             (case (op_desiredNotionalUsd od, mark) of
                (Some n, Some m) \<Rightarrow> Some (qtyFromNotionalUsd n m c)
              | _ \<Rightarrow> (case (op_riskUsd od, op_stopDistancePct od, mark) of
                         (Some r, Some d, Some m) \<Rightarrow> Some (qtyFromRisk r d m c)
                       | _ \<Rightarrow> None)))"

definition sizing_error :: "contract_info \<Rightarrow> js_error" where
  "sizing_error c = mk_error QtyOutOfRangeError (ct_canonicalSymbol c)
     (''Missing qty/sizing for '' @ ct_canonicalSymbol c @
      ''. Provide qty, desiredNotionalUsd+markPrice, or riskUsd+stopDistancePct+markPrice.'')"

definition round_mode :: "order_params \<Rightarrow> rounding_mode" where
  "round_mode od = opt_get (op_roundingMode od) RoundDown"

definition fail_if :: "js_error option \<Rightarrow> 'a \<Rightarrow> js_error + 'a" where
  "fail_if e x = (case e of Some err \<Rightarrow> Inl err | None \<Rightarrow> Inr x)"

text \<open>The price of a limit order, rounded and checked; a market order has none.\<close>

definition limit_price :: "engine \<Rightarrow> order_params \<Rightarrow> contract_info \<Rightarrow> js_error + jsnum option" where
  "limit_price en od c =
     (let s = ct_canonicalSymbol c
      in if opt_get (op_type od) Market = Market then Inr None
         else case op_price od of
                None \<Rightarrow> Inl (mk_error InvalidTickError s (''Limit order requires price for '' @ s))
              | Some price \<Rightarrow>
                  (case truthy_num (deriveTickSize (en_pow10 en) c) of
                     None \<Rightarrow> Inl (mk_error InvalidTickError s (''Missing tick size for '' @ s))
                   | Some tick \<Rightarrow>
                       (let p = roundPriceToTick price tick (round_mode od)
                        in fail_if (validatePrice p tick s) (Some p))))"

definition set_leverage :: "engine \<Rightarrow> order_params \<Rightarrow> contract_info \<Rightarrow> unit act" where
  "set_leverage en od c =
     (case op_leverage od of
        None \<Rightarrow> ret ()
      | Some lev \<Rightarrow>
          bind (of_sum (enforceLeverageBounds lev c)) (\<lambda>_.
            let s = ct_canonicalSymbol c; mode = opt_get (op_marginMode od) Cross
            in perform (SetLeverage s lev mode) (ad_setLeverage (en_ex en) s lev mode)))"

definition open_quantity :: "engine \<Rightarrow> order_params \<Rightarrow> contract_info \<Rightarrow> js_error + jsnum" where
  "open_quantity en od c =
     (case truthy_num (deriveStepSize (en_pow10 en) c) of
        None \<Rightarrow> Inl (step_error c)
      | Some step \<Rightarrow>
          (case sized_qty od c of
             None \<Rightarrow> Inl (sizing_error c)
           | Some qty \<Rightarrow>
               (let q = clampQty (roundQtyToStep qty step (round_mode od)) (ct_minVol c) (ct_maxVol c)
                in fail_if (validateQty q step (ct_minVol c) (ct_maxVol c) (ct_canonicalSymbol c)) q)))"

definition open_order :: "engine \<Rightarrow> position_side \<Rightarrow> order_params \<Rightarrow> contract_info \<Rightarrow> engine_result act" where
  "open_order en side od c =
     bind (set_leverage en od c) (\<lambda>_.
     bind (of_sum (open_quantity en od c)) (\<lambda>qty.
     bind (of_sum (limit_price en od c)) (\<lambda>price.
     bind (placeViaExchangeAdapter en
             \<lparr> pr_symbol = ct_canonicalSymbol c, pr_side = toOrderSide side, pr_type = opt_get (op_type od) Market,
               pr_qty = qty, pr_price = price, pr_clientOrderId = op_clientOrderId od,
               pr_takeProfitPrice = op_takeProfitPrice od, pr_stopLossPrice = op_stopLossPrice od,
               pr_reduceOnly = op_reduceOnly od, pr_marginMode = Some (opt_get (op_marginMode od) Cross) \<rparr>) (\<lambda>oid.
     ret (Accepted (Some oid))))))"

definition open_failure :: "engine \<Rightarrow> engine_ctx \<Rightarrow> contract_info \<Rightarrow> js_error \<Rightarrow> engine_result act" where
  "open_failure en ctx c e =
     (let meta = [(''symbol'', JStr (ct_canonicalSymbol c))]
      in case er_class e of
           SymbolUnknownError \<Rightarrow> block en ctx SYMBOL_UNKNOWN SymbolUnknown (er_message e) meta
         | TradingNotAllowedError \<Rightarrow> block en ctx TRADING_NOT_ALLOWED TradingNotAllowed (er_message e) meta
         | OtherError _ \<Rightarrow> throw e
         | _ \<Rightarrow> validation_block en ctx c e)"

definition executeOpenIntent :: "engine \<Rightarrow> engine_ctx \<Rightarrow> string \<Rightarrow> position_side \<Rightarrow> order_params option \<Rightarrow> engine_result act" where
  "executeOpenIntent en ctx symbol side order =
     bind (resolveContractInfo en ctx symbol) (\<lambda>ci.
       case ci of
         None \<Rightarrow> unknown_symbol en ctx symbol
       | Some c \<Rightarrow>
           if \<not> ct_apiAllowed c then trading_disabled en ctx c
           else catch (open_order en side (opt_get order no_params) c) (open_failure en ctx c))"

section \<open>Closing\<close>

definition canonical :: "engine \<Rightarrow> string \<Rightarrow> string" where
  "canonical en s =
     opt_get (case ad_toCanonicalSymbol (en_ex en) of Some f \<Rightarrow> f s | None \<Rightarrow> None) (toCanonicalFallbackSymbol s)"

definition open_position :: "engine \<Rightarrow> contract_info \<Rightarrow> position list \<Rightarrow> position option" where
  "open_position en c = find (\<lambda>p. canonical en (ps_symbol p) = ct_canonicalSymbol c \<and> n_lt (Fin 0) (ps_size p))"

text \<open>The checks of a close are the ones of an open, answered by a block instead of an exception.\<close>

definition close_quantity :: "engine \<Rightarrow> order_params \<Rightarrow> contract_info \<Rightarrow> position \<Rightarrow> js_error + jsnum" where
  "close_quantity en od c pos =
     (case truthy_num (deriveStepSize (en_pow10 en) c) of
        None \<Rightarrow> Inl (step_error c)
      | Some step \<Rightarrow>
          (let requested = opt_get (op_qty od) (ps_size pos); s = ct_canonicalSymbol c
           in if \<not> positive requested
              then Inl (mk_error QtyOutOfRangeError s (''Close qty must be > 0 for '' @ s))
              else let q = clampQty (n_min (roundQtyToStep requested step (round_mode od)) (ps_size pos)) (ct_minVol c) (ct_maxVol c)
                   in fail_if (validateQty q step (ct_minVol c) (ct_maxVol c) s) q))"

definition close_order :: "engine \<Rightarrow> engine_ctx \<Rightarrow> order_params \<Rightarrow> contract_info \<Rightarrow> position \<Rightarrow> engine_result act" where
  "close_order en ctx od c pos =
     (case bind_sum (close_quantity en od c pos) (\<lambda>q. bind_sum (limit_price en od c) (\<lambda>p. Inr (q, p))) of
        Inl e \<Rightarrow> validation_block en ctx c e
      | Inr (qty, price) \<Rightarrow>
          bind (placeViaExchangeAdapter en
                  \<lparr> pr_symbol = ct_canonicalSymbol c, pr_side = toCloseOrderSide (ps_side pos),
                    pr_type = opt_get (op_type od) Market, pr_qty = qty, pr_price = price,
                    pr_clientOrderId = op_clientOrderId od, pr_takeProfitPrice = None, pr_stopLossPrice = None,
                    pr_reduceOnly = Some (opt_get (op_reduceOnly od) True),
                    pr_marginMode = Some (opt_get (op_marginMode od) Cross) \<rparr>) (\<lambda>oid.
          ret (Accepted (Some oid))))"

definition close_on_exchange :: "engine \<Rightarrow> engine_ctx \<Rightarrow> string \<Rightarrow> order_params \<Rightarrow> engine_result act" where
  "close_on_exchange en ctx symbol od =
     bind (resolveContractInfo en ctx symbol) (\<lambda>ci.
       case ci of
         None \<Rightarrow> unknown_symbol en ctx symbol
       | Some c \<Rightarrow>
           if \<not> ct_apiAllowed c then trading_disabled en ctx c
           else bind (perform ReadPositions (ad_getPositions (en_ex en))) (\<lambda>positions.
             case open_position en c positions of
               None \<Rightarrow> ret (Accepted None)
             | Some pos \<Rightarrow> close_order en ctx od c pos))"

definition executeCloseIntent :: "engine \<Rightarrow> engine_ctx \<Rightarrow> string \<Rightarrow> order_params option \<Rightarrow> engine_result act" where
  "executeCloseIntent en ctx symbol order =
     (let od = opt_get order no_params
      in case op_cancelOrderId od of
           Some i \<Rightarrow> if i \<noteq> ''''
             then bind (perform (CancelOrder i) (ad_cancelOrder (en_ex en) i)) (\<lambda>_. ret (Accepted None))
             else close_on_exchange en ctx symbol od
         | None \<Rightarrow> close_on_exchange en ctx symbol od)"

section \<open>The public operation\<close>

definition intent_type :: "trade_intent \<Rightarrow> string" where
  "intent_type i = (case i of OpenIntent _ _ _ \<Rightarrow> ''open'' | CloseIntent _ _ \<Rightarrow> ''close'' | NoIntent \<Rightarrow> ''none'')"

definition intent_symbol :: "trade_intent \<Rightarrow> jsval" where
  "intent_symbol i = (case i of OpenIntent s _ _ \<Rightarrow> JStr s | CloseIntent s _ \<Rightarrow> JStr s | NoIntent \<Rightarrow> JNull)"

definition execute :: "engine \<Rightarrow> trade_intent \<Rightarrow> engine_ctx \<Rightarrow> engine_result act" where
  "execute en i ctx =
     bind (assertExecutionBoundary en ''execute'') (\<lambda>_.
       if i = NoIntent then ret Noop
       else bind (resolveTradingEnabled en ctx) (\<lambda>enabled.
         if \<not> enabled
         then block en ctx KILL_SWITCH_BLOCK KillSwitch ''Global kill switch is engaged. Trading action blocked.''
                [(''intentType'', JStr (intent_type i)), (''symbol'', intent_symbol i)]
         else case i of
                OpenIntent s side od \<Rightarrow> executeOpenIntent en ctx (canonical en s) side od
              | CloseIntent s od \<Rightarrow> executeCloseIntent en ctx (canonical en s) od
              | NoIntent \<Rightarrow> ret Noop))"


section \<open>The calls the parts make\<close>

text \<open>The calls that can change anything on the exchange, and the order a call hands over.\<close>

fun is_write :: "call \<Rightarrow> bool" where
  "is_write (SetLeverage _ _ _) = True"
| "is_write (PlaceNormalized _) = True"
| "is_write (PlaceOrder _) = True"
| "is_write (CancelOrder _) = True"
| "is_write _ = False"

fun is_risk :: "call \<Rightarrow> bool" where
  "is_risk (EmitRisk _) = True"
| "is_risk _ = False"

fun handed_over :: "call \<Rightarrow> place_request option" where
  "handed_over (PlaceOrder r) = Some r"
| "handed_over (NormalizeIntent i) = Some (place_request.truncate i)"
| "handed_over _ = None"

definition orders :: "call list \<Rightarrow> place_request list" where
  "orders cs = List.map_filter handed_over cs"

lemma orders_simps [simp]:
  "orders [] = []" "orders (c # cs) = (case handed_over c of Some r \<Rightarrow> [r] | None \<Rightarrow> []) @ orders cs"
  "orders (cs @ cs') = orders cs @ orders cs'"
  by (simp_all add: orders_def List.map_filter_def split: option.split)

lemma truncate_to_intent [simp]: "place_request.truncate (to_intent p) = p"
  by (simp add: to_intent_def place_request.defs)

text \<open>What reads and the reporting of a risk do: no write and no order.\<close>

definition harmless :: "call list \<Rightarrow> bool" where
  "harmless cs \<longleftrightarrow> (\<forall>c\<in>set cs. \<not> is_write c \<and> handed_over c = None)"

lemma harmless_simps [simp]:
  "harmless []" "harmless (c # cs) \<longleftrightarrow> \<not> is_write c \<and> handed_over c = None \<and> harmless cs"
  "harmless (cs @ cs') \<longleftrightarrow> harmless cs \<and> harmless cs'"
  by (auto simp: harmless_def)

lemma harmless_facts: "harmless cs \<Longrightarrow> orders cs = []" "harmless cs \<Longrightarrow> filter is_write cs = []"
  by (induction cs) simp_all

lemma emit_does: "does (emitRiskEvent en ctx ev) (\<lambda>r cs. cs = [] \<and> r = Inr () \<or> cs = [EmitRisk ev])"
  unfolding emitRiskEvent_def by (auto split: option.split intro!: act_rules)

lemma block_does:
  "does (block en ctx ty reason msg meta)
     (\<lambda>r cs. harmless cs \<and> (r = Inr (Blocked reason) \<or> (\<exists>e. r = Inl e)))"
proof -
  have "does (bind (emitRiskEvent en ctx ev) (\<lambda>_. ret (Blocked reason)))
      (\<lambda>r cs. harmless cs \<and> (r = Inr (Blocked reason) \<or> (\<exists>e. r = Inl e)))" for ev
    by (rule does_bind [OF emit_does]) (auto intro!: act_rules)
  then show ?thesis unfolding does_def block_def by blast
qed

lemma contract_does:
  "does (resolveContractInfo en ctx s) (\<lambda>r cs. harmless cs \<and> (\<exists>t. r = fst (resolveContractInfo en ctx s t)))"
  unfolding resolveContractInfo_def
  by (auto split: option.split intro!: act_rules simp: ret_def perform_def)


section \<open>What an order satisfies\<close>

definition quantity_ok :: "engine \<Rightarrow> contract_info \<Rightarrow> jsnum \<Rightarrow> bool" where
  "quantity_ok en c q \<longleftrightarrow>
     (\<exists>x s. deriveStepSize (en_pow10 en) c = Some (Fin s) \<and> 0 < s \<and> q = Fin x \<and> 0 < x \<and> near_steps x s) \<and>
     within_vol (ct_minVol c) (ct_maxVol c) q"

definition price_ok :: "engine \<Rightarrow> contract_info \<Rightarrow> order_type \<Rightarrow> jsnum option \<Rightarrow> bool" where
  "price_ok en c ty price \<longleftrightarrow>
     (if ty = Market then price = None
      else \<exists>x s. deriveTickSize (en_pow10 en) c = Some (Fin s) \<and> 0 < s \<and> price = Some (Fin x) \<and> 0 < x \<and> near_steps x s)"

lemma fail_if_Inr [simp]: "fail_if e x = Inr y \<longleftrightarrow> e = None \<and> x = y"
  by (cases e) (auto simp: fail_if_def)

lemma truthy_num_Some: "truthy_num n = Some x \<Longrightarrow> n = Some x"
  by (auto simp: truthy_num_def split: if_splits)

lemma aligned_positive:
  assumes "positive q" "isAligned q step"
  shows "\<exists>x s. step = Fin s \<and> 0 < s \<and> q = Fin x \<and> 0 < x \<and> near_steps x s"
proof -
  obtain x where x: "q = Fin x" "0 < x" using assms(1) by (auto simp: positive_iff)
  moreover obtain s where "step = Fin s" "0 < s" using assms(2) by (auto simp: isAligned_def valid_increment_iff)
  ultimately show ?thesis using assms(2) aligned_near by blast
qed

lemma valid_quantity_ok:
  assumes "deriveStepSize (en_pow10 en) c = Some step" "validateQty q step (ct_minVol c) (ct_maxVol c) sy = None"
  shows "quantity_ok en c q"
proof -
  have v: "positive q" "isAligned q step" "within_vol (ct_minVol c) (ct_maxVol c) q"
    using assms(2) by (simp_all add: validateQty_None)
  from aligned_positive [OF v(1,2)] v(3) show ?thesis using assms(1) by (auto simp: quantity_ok_def)
qed

lemma open_quantity_ok: "open_quantity en od c = Inr q \<Longrightarrow> quantity_ok en c q"
  by (auto simp: open_quantity_def Let_def split: option.splits dest!: truthy_num_Some intro: valid_quantity_ok)

lemma limit_price_ok: "limit_price en od c = Inr p \<Longrightarrow> price_ok en c (opt_get (op_type od) Market) p"
  by (auto simp: limit_price_def price_ok_def Let_def validatePrice_None split: option.splits if_splits
      dest!: truthy_num_Some dest: aligned_positive)

lemma n_le_total: "a \<noteq> NaN \<Longrightarrow> b \<noteq> NaN \<Longrightarrow> \<not> n_lt b a \<Longrightarrow> n_le a b"
  by (cases a; cases b) (auto simp: n_le_def)

lemma n_le_trans_lt: "n_lt a b \<Longrightarrow> n_le b c \<Longrightarrow> n_le a c"
  by (cases a; cases b; cases c) (auto simp: n_le_def)

lemma n_min_le: "n_min a b \<noteq> NaN \<Longrightarrow> n_le (n_min a b) b"
  by (auto simp: n_min_def n_le_total split: if_splits) (cases b; simp add: n_le_def)

text \<open>A clamped quantity inside the limits is the quantity lowered, or the least volume.\<close>

lemma clamp_cases:
  assumes "within_vol mn mx (clampQty w mn mx)" "positive (clampQty w mn mx)"
  shows "(w \<noteq> NaN \<and> n_le (clampQty w mn mx) w) \<or> mn = Some (clampQty w mn mx)"
proof -
  define v where "v = (case mn of None \<Rightarrow> w | Some m \<Rightarrow> n_max w m)"
  have q: "clampQty w mn mx = (case mx of None \<Rightarrow> v | Some m \<Rightarrow> n_min v m)" by (simp only: clampQty_def v_def Let_def)
  let ?q = "clampQty w mn mx"
  obtain x where x: "?q = Fin x" using assms(2) by (auto simp: positive_iff)
  have refl: "n_le (Fin x) (Fin x)" by (simp add: n_le_Fin)
  have "?q = v \<or> (n_lt ?q v \<and> mx = Some ?q)"
    using x unfolding q by (auto simp: n_min_def split: option.splits if_splits)
  then show ?thesis
  proof
    assume "?q = v"
    then show ?thesis using x refl by (auto simp: v_def n_max_def split: option.splits if_splits)
  next
    assume lt: "n_lt ?q v \<and> mx = Some ?q"
    then have "v \<noteq> NaN" using x by auto
    then have "v = w \<and> w \<noteq> NaN \<or> mn = Some v" by (auto simp: v_def n_max_def split: option.splits if_splits)
    then show ?thesis using lt assms(1) by (auto simp: n_le_def within_vol_def)
  qed
qed

lemma close_quantity_ok:
  assumes "close_quantity en od c pos = Inr q"
  shows "quantity_ok en c q \<and> (n_le q (ps_size pos) \<or> ct_minVol c = Some q)"
proof -
  obtain step where step: "deriveStepSize (en_pow10 en) c = Some step"
    and v: "validateQty q step (ct_minVol c) (ct_maxVol c) (ct_canonicalSymbol c) = None"
    and q: "q = clampQty (n_min (roundQtyToStep (opt_get (op_qty od) (ps_size pos)) step (round_mode od)) (ps_size pos)) (ct_minVol c) (ct_maxVol c)"
    using assms by (auto simp: close_quantity_def Let_def split: option.splits if_splits dest!: truthy_num_Some)
  have "n_le q w \<Longrightarrow> n_le w z \<Longrightarrow> n_le q z" for w z
    by (cases q; cases w; cases z) (auto simp: n_le_def)
  then show ?thesis
    using clamp_cases [of "ct_minVol c" "ct_maxVol c"] v valid_quantity_ok [OF step v] n_min_le unfolding q validateQty_None
    by metis
qed


section \<open>The calls of an order\<close>

fun is_place :: "call \<Rightarrow> bool" where
  "is_place (PlaceNormalized _) = True"
| "is_place (PlaceOrder _) = True"
| "is_place _ = False"

text \<open>The fields the engine decides; the adapter may name the symbol its own way.\<close>

definition same_order :: "place_request \<Rightarrow> place_request \<Rightarrow> bool" where
  "same_order p req \<longleftrightarrow> pr_side req = pr_side p \<and> pr_type req = pr_type p \<and> pr_qty req = pr_qty p \<and>
     pr_price req = pr_price p \<and> pr_reduceOnly req = pr_reduceOnly p \<and> pr_marginMode req = pr_marginMode p"

definition placing :: "place_request \<Rightarrow> js_error + string \<Rightarrow> call list \<Rightarrow> bool" where
  "placing p r cs \<longleftrightarrow> filter is_risk cs = [] \<and> (\<forall>x l m. SetLeverage x l m \<notin> set cs) \<and> (\<forall>i. CancelOrder i \<notin> set cs) \<and>
     (\<forall>req\<in>set (orders cs). same_order p req) \<and> length (orders cs) \<le> 1 \<and> length (filter is_place cs) \<le> 1 \<and>
     (\<forall>oid. r = Inr oid \<longrightarrow> length (filter is_place cs) = 1 \<and> length (orders cs) = 1 \<and> str_trim oid \<noteq> '''')"

lemma order_id_does: "does (order_id_of pl) (\<lambda>r cs. cs = [] \<and> (\<forall>oid. r = Inr oid \<longrightarrow> str_trim oid \<noteq> ''''))"
  unfolding order_id_of_def
  by (auto simp: isConfirmedPlaceOrderResult_def opt_get_def split: option.splits intro!: act_rules)

lemma exchange_symbol_does:
  "does (exchange_symbol en s) (\<lambda>r cs. cs = [] \<or> cs = [ReadExchangeSymbol s])"
  unfolding exchange_symbol_def by (auto split: option.split intro!: act_rules)

lemma place_normalized_does:
  "does (bind (perform (NormalizeIntent (to_intent p)) f) (\<lambda>ni. bind (perform (ValidateIntent ni) (g ni)) (\<lambda>_.
      bind (perform (PlaceNormalized ni) (h ni)) order_id_of))) (placing p)"
proof (rule does_bind_perform)
  fix ni
  show "does (bind (perform (ValidateIntent ni) (g ni)) (\<lambda>_. bind (perform (PlaceNormalized ni) (h ni)) order_id_of))
      (\<lambda>r cs. placing p r (NormalizeIntent (to_intent p) # cs))"
  proof (rule does_bind_perform)
    show "does (bind (perform (PlaceNormalized ni) (h ni)) order_id_of)
      (\<lambda>r cs. placing p r (NormalizeIntent (to_intent p) # ValidateIntent ni # cs))"
      by (rule does_bind_perform) (auto simp: placing_def same_order_def intro!: does_mono [OF order_id_does])
  qed (auto simp: placing_def same_order_def)
qed (auto simp: placing_def same_order_def)

lemma place_plain_does:
  "does (bind (exchange_symbol en (pr_symbol p)) (\<lambda>s.
      let req = p\<lparr> pr_symbol := s, pr_clientOrderId := i \<rparr> in bind (perform (PlaceOrder req) (f req)) order_id_of)) (placing p)"
proof (rule does_bind [OF exchange_symbol_does])
  fix s cs assume "cs = [] \<or> cs = [ReadExchangeSymbol (pr_symbol p)]"
  then show "does (let req = p\<lparr> pr_symbol := s, pr_clientOrderId := i \<rparr> in bind (perform (PlaceOrder req) (f req)) order_id_of)
      (\<lambda>r cs'. placing p r (cs @ cs'))"
    unfolding Let_def
    by (intro does_bind_perform does_mono [OF order_id_does]) (auto simp: placing_def same_order_def)
qed (auto simp: placing_def)

lemma place_does: "does (placeViaExchangeAdapter en p) (placing p)"
  unfolding placeViaExchangeAdapter_def Let_def [of "en_ex en"]
  by (simp only: prod.case split: option.split) (intro conjI allI impI place_normalized_does place_plain_does)


definition sent_ok :: "(place_request \<Rightarrow> bool) \<Rightarrow> (jsnum \<Rightarrow> bool) \<Rightarrow> js_error + engine_result \<Rightarrow> call list \<Rightarrow> bool" where
  "sent_ok P L r cs \<longleftrightarrow> (\<forall>i. CancelOrder i \<notin> set cs) \<and> (\<forall>x l m. SetLeverage x l m \<in> set cs \<longrightarrow> L l) \<and>
     (\<forall>req\<in>set (orders cs). P req) \<and> length (orders cs) \<le> 1 \<and> length (filter is_place cs) \<le> 1 \<and>
     (\<forall>oid. r = Inr (Accepted (Some oid)) \<longrightarrow> length (filter is_place cs) = 1 \<and> length (orders cs) = 1 \<and> str_trim oid \<noteq> '''')"

lemma harmless_sets:
  "harmless cs \<Longrightarrow> filter is_place cs = [] \<and> orders cs = [] \<and> CancelOrder i \<notin> set cs \<and> SetLeverage x l m \<notin> set cs"
  unfolding harmless_def by (induction cs) (auto elim!: is_place.elims(2))

lemma sent_ok_before: "harmless cs \<Longrightarrow> sent_ok P L r cs' \<Longrightarrow> sent_ok P L r (cs @ cs')"
  using harmless_sets [of cs] by (auto simp: sent_ok_def)

interpretation sent: skips harmless "sent_ok P L" for P L
  by unfold_locales (rule sent_ok_before)

lemma sent_ok_after:
  "harmless cs' \<Longrightarrow> sent_ok P L r cs \<Longrightarrow> (\<And>oid. r' \<noteq> Inr (Accepted (Some oid))) \<Longrightarrow> sent_ok P L r' (cs @ cs')"
  using harmless_sets [of cs'] by (auto simp: sent_ok_def)

lemma sent_ok_harmless: "harmless cs \<Longrightarrow> (\<And>oid. r \<noteq> Inr (Accepted (Some oid))) \<Longrightarrow> sent_ok P L r cs"
  using harmless_sets [of cs] by (auto simp: sent_ok_def)

lemma block_sent_ok: "does (block en ctx ty reason msg meta) (sent_ok P L)"
  by (rule does_mono [OF block_does]) (auto intro!: sent_ok_harmless)

lemma blocks_sent_ok [simp]:
  "does (unknown_symbol en ctx s) (sent_ok P L)" "does (trading_disabled en ctx c) (sent_ok P L)"
  "does (validation_block en ctx c e) (sent_ok P L)"
  by (simp_all add: unknown_symbol_def trading_disabled_def validation_block_def block_sent_ok)

lemma set_leverage_does:
  "does (set_leverage en od c) (\<lambda>r cs. cs = [] \<or>
     (\<exists>l m. cs = [SetLeverage (ct_canonicalSymbol c) l m] \<and> positive l \<and> within_vol (ct_minLeverage c) (ct_maxLeverage c) l))"
  unfolding set_leverage_def Let_def
  by (auto split: option.split intro!: act_rules does_bind_sum dest: enforceLeverage_ok)

definition open_ok :: "engine \<Rightarrow> contract_info \<Rightarrow> position_side \<Rightarrow> place_request \<Rightarrow> bool" where
  "open_ok en c side req \<longleftrightarrow>
     pr_side req = toOrderSide side \<and> quantity_ok en c (pr_qty req) \<and> price_ok en c (pr_type req) (pr_price req)"

definition leverage_ok :: "contract_info \<Rightarrow> jsnum \<Rightarrow> bool" where
  "leverage_ok c l \<longleftrightarrow> positive l \<and> within_vol (ct_minLeverage c) (ct_maxLeverage c) l"

lemma open_order_does: "does (open_order en side od c) (sent_ok (open_ok en c side) (leverage_ok c))"
  unfolding open_order_def
proof (rule does_bind [OF set_leverage_does], goal_cases)
  case (2 u cs)
  have placed: "does (bind (placeViaExchangeAdapter en p) (\<lambda>oid. ret (Accepted (Some oid))))
      (\<lambda>r cs'. sent_ok (open_ok en c side) (leverage_ok c) r (cs @ cs'))"
    if "open_ok en c side p" for p
    by (rule does_bind [OF place_does])
      (use 2 that in \<open>auto simp: placing_def sent_ok_def leverage_ok_def open_ok_def same_order_def intro!: act_rules\<close>)
  show ?case
    by (intro does_bind_sum placed)
      (use 2 in \<open>auto simp: sent_ok_def leverage_ok_def open_ok_def open_quantity_ok limit_price_ok\<close>)
qed (auto simp: sent_ok_def leverage_ok_def)

text \<open>A contract the engine can have read for a symbol, and which it may trade.\<close>

definition tradable :: "engine \<Rightarrow> engine_ctx \<Rightarrow> string \<Rightarrow> contract_info \<Rightarrow> bool" where
  "tradable en ctx symbol c \<longleftrightarrow> (\<exists>t. fst (resolveContractInfo en ctx symbol t) = Inr (Some c)) \<and> ct_apiAllowed c"

lemma sent_ok_mono: "sent_ok P L r cs \<Longrightarrow> (\<And>q. P q \<Longrightarrow> P' q) \<Longrightarrow> (\<And>l. L l \<Longrightarrow> L' l) \<Longrightarrow> sent_ok P' L' r cs"
  by (auto simp: sent_ok_def)

lemma open_intent_does:
  "does (executeOpenIntent en ctx symbol side order)
     (sent_ok (\<lambda>req. \<exists>c. tradable en ctx symbol c \<and> open_ok en c side req) (\<lambda>l. \<exists>c. tradable en ctx symbol c \<and> leverage_ok c l))"
  (is "does _ (sent_ok ?P ?L)")
  unfolding executeOpenIntent_def
proof (rule sent.bind_after [OF contract_does], goal_cases)
  case (2 ci)
  have "does (open_failure en ctx c e) (\<lambda>r cs'. harmless cs' \<and> (\<forall>oid. r \<noteq> Inr (Accepted (Some oid))))" for c e
    unfolding open_failure_def validation_block_def Let_def
    by (cases "er_class e") (auto intro!: act_rules does_mono [OF block_does])
  then have fail: "does (open_failure en ctx c e) (\<lambda>r cs'. sent_ok ?P ?L r (cs0 @ cs'))" if "sent_ok ?P ?L (Inl e) cs0" for c e cs0
    by (rule does_mono) (use that in \<open>auto intro: sent_ok_after\<close>)
  have "does (catch (open_order en side od c) (open_failure en ctx c)) (sent_ok ?P ?L)" if t: "tradable en ctx symbol c" for c od
  proof (rule does_catch)
    show "does (open_order en side od c) (sent_ok ?P ?L)"
      by (rule does_mono [OF open_order_does]) (erule sent_ok_mono; use t in blast)
  qed (auto intro: fail)
  note opened = this
  show ?case
  proof (cases ci)
    case (Some c)
    then have "ct_apiAllowed c \<Longrightarrow> tradable en ctx symbol c" using 2 by (auto simp: tradable_def intro: sym)
    then show ?thesis using Some opened by simp
  qed simp
qed (auto intro: sent_ok_harmless)


definition close_ok :: "engine \<Rightarrow> contract_info \<Rightarrow> order_params \<Rightarrow> position \<Rightarrow> place_request \<Rightarrow> bool" where
  "close_ok en c od pos req \<longleftrightarrow>
     pr_side req = toCloseOrderSide (ps_side pos) \<and> pr_reduceOnly req = Some (opt_get (op_reduceOnly od) True) \<and>
     quantity_ok en c (pr_qty req) \<and> price_ok en c (pr_type req) (pr_price req) \<and>
     (n_le (pr_qty req) (ps_size pos) \<or> ct_minVol c = Some (pr_qty req))"

text \<open>A position the adapter can have reported as open under the symbol of the contract.\<close>

definition held :: "engine \<Rightarrow> contract_info \<Rightarrow> position \<Rightarrow> bool" where
  "held en c pos \<longleftrightarrow> (\<exists>t ps. ad_getPositions (en_ex en) t = Inr ps \<and> pos \<in> set ps) \<and>
     canonical en (ps_symbol pos) = ct_canonicalSymbol c \<and> n_lt (Fin 0) (ps_size pos)"

lemma close_order_does: "does (close_order en ctx od c pos) (sent_ok (close_ok en c od pos) (\<lambda>_. False))"
proof (cases "bind_sum (close_quantity en od c pos) (\<lambda>q. bind_sum (limit_price en od c) (\<lambda>p. Inr (q, p)))")
  case (Inl e)
  then show ?thesis by (simp add: close_order_def)
next
  case (Inr qp)
  then obtain q p where qp: "qp = (q, p)" "close_quantity en od c pos = Inr q" "limit_price en od c = Inr p"
    by (auto simp: bind_sum_def split: sum.splits)
  have "does (bind (placeViaExchangeAdapter en pr) (\<lambda>oid. ret (Accepted (Some oid)))) (sent_ok (close_ok en c od pos) (\<lambda>_. False))"
    if "close_ok en c od pos pr" for pr
    by (rule does_bind [OF place_does])
      (use that in \<open>auto simp: placing_def sent_ok_def close_ok_def same_order_def intro!: act_rules\<close>)
  then show ?thesis using Inr qp close_quantity_ok [OF qp(2)] limit_price_ok [OF qp(3)] by (simp add: close_order_def close_ok_def)
qed

lemma close_exchange_does:
  "does (close_on_exchange en ctx symbol od)
     (sent_ok (\<lambda>req. \<exists>c pos. tradable en ctx symbol c \<and> held en c pos \<and> close_ok en c od pos req) (\<lambda>_. False))"
  (is "does _ (sent_ok ?P _)")
  unfolding close_on_exchange_def
proof (rule sent.bind_after [OF contract_does], goal_cases)
  case (2 ci)
  let ?k = "\<lambda>c positions. case open_position en c positions of None \<Rightarrow> ret (Accepted None) | Some pos \<Rightarrow> close_order en ctx od c pos"
  have pos: "does (?k c ps) (\<lambda>r cs'. sent_ok ?P (\<lambda>_. False) r (ReadPositions # cs'))"
    if t: "tradable en ctx symbol c" and ps: "ad_getPositions (en_ex en) t = Inr ps" for c ps t
  proof (cases "open_position en c ps")
    case None
    then show ?thesis by (auto simp: sent_ok_def intro!: act_rules)
  next
    case (Some p)
    then have "held en c p" using ps find_Some [OF Some [unfolded open_position_def]] by (auto simp: held_def)
    then have "does (close_order en ctx od c p) (sent_ok ?P (\<lambda>_. False))"
      by (intro does_mono [OF close_order_does]) (erule sent_ok_mono; use t in blast)
    then show ?thesis using Some sent.skip_does [of "[ReadPositions]"] by simp
  qed
  show ?case
  proof (cases ci)
    case (Some c)
    then have "ct_apiAllowed c \<Longrightarrow> tradable en ctx symbol c" using 2 by (auto simp: tradable_def intro: sym)
    then show ?thesis using Some pos by (auto intro!: does_bind_perform intro: sent_ok_harmless)
  qed simp
qed (auto intro: sent_ok_harmless)

section \<open>The execution of an intent\<close>

lemma boundary_does: "does (assertExecutionBoundary en meth) (\<lambda>r cs. harmless cs \<and> True)"
  unfolding assertExecutionBoundary_def by (auto intro!: act_rules)

lemma enabled_does: "does (resolveTradingEnabled en ctx) (\<lambda>r cs. harmless cs \<and> True)"
  unfolding resolveTradingEnabled_def by (auto split: trading_flag.split option.split intro!: act_rules)

lemma boundary_run: "assertExecutionBoundary en meth t = (r, t') \<Longrightarrow> t' = t"
  by (auto simp: assertExecutionBoundary_def ret_def throw_def split: if_splits)

lemma does_execute:
  assumes "i \<noteq> NoIntent"
    and "does (case i of OpenIntent s side od \<Rightarrow> executeOpenIntent en ctx (canonical en s) side od
       | CloseIntent s od \<Rightarrow> executeCloseIntent en ctx (canonical en s) od | NoIntent \<Rightarrow> ret Noop) (sent_ok P L)"
  shows "does (execute en i ctx) (sent_ok P L)"
  unfolding execute_def
proof (rule sent.bind_after [OF boundary_does], goal_cases)
  case (2 u)
  show ?case unfolding if_not_P [OF assms(1)]
    by (rule sent.bind_after [OF enabled_does]) (use assms(2) in \<open>auto intro: sent_ok_harmless simp: block_sent_ok\<close>)
qed (auto intro: sent_ok_harmless)

lemma execute_open_does:
  "does (execute en (OpenIntent s side order) ctx)
     (sent_ok (\<lambda>req. \<exists>c. tradable en ctx (canonical en s) c \<and> open_ok en c side req)
       (\<lambda>l. \<exists>c. tradable en ctx (canonical en s) c \<and> leverage_ok c l))"
  by (rule does_execute) (simp_all add: open_intent_does)

lemma execute_close_does:
  assumes "opt_get (op_cancelOrderId (opt_get order no_params)) '''' = ''''"
  shows "does (execute en (CloseIntent s order) ctx)
     (sent_ok (\<lambda>req. \<exists>c pos. tradable en ctx (canonical en s) c \<and> held en c pos \<and>
        close_ok en c (opt_get order no_params) pos req) (\<lambda>_. False))"
proof (rule does_execute)
  have "executeCloseIntent en ctx symbol order = close_on_exchange en ctx symbol (opt_get order no_params)" for symbol
    using assms by (auto simp: executeCloseIntent_def Let_def opt_get_def split: option.splits)
  then show "does (case CloseIntent s order of OpenIntent s side od \<Rightarrow> executeOpenIntent en ctx (canonical en s) side od
       | CloseIntent s od \<Rightarrow> executeCloseIntent en ctx (canonical en s) od | NoIntent \<Rightarrow> ret Noop)
     (sent_ok (\<lambda>req. \<exists>c pos. tradable en ctx (canonical en s) c \<and> held en c pos \<and>
        close_ok en c (opt_get order no_params) pos req) (\<lambda>_. False))"
    by (simp only: trade_intent.case close_exchange_does)
qed simp

section \<open>Properties\<close>

lemma block_cases:
  assumes "block en ctx ty reason msg meta t = (r, cs)"
  obtains "cx_emitRiskEvent ctx = None" "en_emitRiskEvent en = None" "r = Inr (Blocked reason)" "cs = t"
    | ev where "\<not> (cx_emitRiskEvent ctx = None \<and> en_emitRiskEvent en = None)" "rk_type ev = ty" "cs = t @ [EmitRisk ev]"
        "r = Inr (Blocked reason) \<or> (\<exists>e. r = Inl e)"
proof -
  define ev where "ev = \<lparr> rk_type = ty, rk_botId = cx_botId ctx, rk_timestamp = en_now en t, rk_message = msg, rk_meta = meta \<rparr>"
  have ev: "rk_type ev = ty" by (simp add: ev_def)
  have run: "bind (emitRiskEvent en ctx ev) (\<lambda>_. ret (Blocked reason)) t = (r, cs)"
    using assms unfolding block_def ev_def .
  show thesis
  proof (cases "cx_emitRiskEvent ctx = None \<and> en_emitRiskEvent en = None")
    case True
    then show thesis using run that(1) by (simp add: bind_def emitRiskEvent_def ret_def)
  next
    case False
    then show thesis using run that(2) [OF _ ev]
      by (auto simp: bind_def emitRiskEvent_def perform_def ret_def split: option.splits sum.splits)
  qed
qed

text \<open>C2: While the kill switch is engaged nothing is written to the exchange, an order, a leverage, a cancel
  or a close alike: an intent is answered with a block or with an error, and a block reports exactly one
  risk event of its kind.\<close>

theorem kill_switch_safe:
  assumes "execute en i ctx [] = (r, cs)" "fst (resolveTradingEnabled en ctx []) = Inr False" "i \<noteq> NoIntent"
  shows "filter is_write cs = [] \<and> orders cs = [] \<and> (r = Inr (Blocked KillSwitch) \<or> (\<exists>e. r = Inl e)) \<and>
    (\<forall>ev. EmitRisk ev \<in> set cs \<longrightarrow> rk_type ev = KILL_SWITCH_BLOCK) \<and> length (filter is_risk cs) \<le> 1 \<and>
    (r = Inr (Blocked KillSwitch) \<longrightarrow>
       length (filter is_risk cs) = (if cx_emitRiskEvent ctx = None \<and> en_emitRiskEvent en = None then 0 else 1))"
proof (cases "fst (assertExecutionBoundary en ''execute'' [])")
  case (Inl e)
  then show ?thesis using assms(1) boundary_run [of en "''execute''" "[]"]
    by (cases "assertExecutionBoundary en ''execute'' []") (auto simp: execute_def bind_def)
next
  case (Inr u)
  then have b: "assertExecutionBoundary en ''execute'' [] = (Inr (), [])"
    using boundary_run [of en "''execute''" "[]"] by (cases "assertExecutionBoundary en ''execute'' []") simp
  obtain t where t: "resolveTradingEnabled en ctx [] = (Inr False, t)" "harmless t" "filter is_risk t = []"
  proof -
    have "does (resolveTradingEnabled en ctx) (\<lambda>r cs. harmless cs \<and> filter is_risk cs = [])"
      unfolding resolveTradingEnabled_def by (auto split: trading_flag.split option.split intro!: act_rules)
    then show thesis using that assms(2) does_start by (cases "resolveTradingEnabled en ctx []") fastforce
  qed
  then have "EmitRisk ev \<notin> set t" for ev by (auto simp: filter_empty_conv)
  moreover have "block en ctx KILL_SWITCH_BLOCK KillSwitch ''Global kill switch is engaged. Trading action blocked.''
      [(''intentType'', JStr (intent_type i)), (''symbol'', intent_symbol i)] t = (r, cs)"
    using assms(1,3) b t(1) by (simp add: execute_def bind_def)
  ultimately show ?thesis using t harmless_facts [OF t(2)] by (elim block_cases) auto
qed

text \<open>C4: Every order that opening an intent hands to the adapter is for a contract the engine read as
  tradable, on the side of the intent, with a positive quantity inside the volume limits that is a whole
  number of steps and, for a limit order, a positive price that is a whole number of ticks. There is at
  most one, exactly one when the intent is accepted, and any leverage set on the way is inside its limits.\<close>

theorem open_sound:
  assumes "execute en (OpenIntent s side order) ctx [] = (r, cs)"
  shows "(\<forall>req\<in>set (orders cs). \<exists>c. tradable en ctx (canonical en s) c \<and> pr_side req = toOrderSide side \<and>
      quantity_ok en c (pr_qty req) \<and> price_ok en c (pr_type req) (pr_price req)) \<and>
    length (orders cs) \<le> 1 \<and> length (filter is_place cs) \<le> 1 \<and> (\<forall>i. CancelOrder i \<notin> set cs) \<and>
    (\<forall>oid. r = Inr (Accepted (Some oid)) \<longrightarrow> length (filter is_place cs) = 1 \<and> length (orders cs) = 1 \<and> str_trim oid \<noteq> '''') \<and>
    (\<forall>x l m. SetLeverage x l m \<in> set cs \<longrightarrow>
      (\<exists>c. tradable en ctx (canonical en s) c \<and> positive l \<and> within_vol (ct_minLeverage c) (ct_maxLeverage c) l))"
  using does_start [OF execute_open_does assms] by (simp add: sent_ok_def open_ok_def leverage_ok_def)

text \<open>C8: Every order that a close hands to the adapter is on the side opposite to a position held in a
  tradable contract, reduce-only unless the intent says otherwise, valid for the contract, and of at most
  the size of the position, except that it can be the least volume of the contract when that is larger.\<close>

theorem close_sound:
  assumes "execute en (CloseIntent s order) ctx [] = (r, cs)" "od = opt_get order no_params"
    and "opt_get (op_cancelOrderId od) '''' = ''''"
  shows "(\<forall>req\<in>set (orders cs). \<exists>c pos. tradable en ctx (canonical en s) c \<and> held en c pos \<and>
      pr_side req = toCloseOrderSide (ps_side pos) \<and> pr_reduceOnly req = Some (opt_get (op_reduceOnly od) True) \<and>
      quantity_ok en c (pr_qty req) \<and> price_ok en c (pr_type req) (pr_price req) \<and>
      (n_le (pr_qty req) (ps_size pos) \<or> ct_minVol c = Some (pr_qty req))) \<and>
    length (orders cs) \<le> 1 \<and> length (filter is_place cs) \<le> 1 \<and> (\<forall>i. CancelOrder i \<notin> set cs) \<and>
    (\<forall>x l m. SetLeverage x l m \<notin> set cs) \<and>
    (\<forall>oid. r = Inr (Accepted (Some oid)) \<longrightarrow> length (filter is_place cs) = 1 \<and> length (orders cs) = 1 \<and> str_trim oid \<noteq> '''')"
  using does_start [OF execute_close_does assms(1)] assms(2,3) by (simp add: sent_ok_def close_ok_def)

section \<open>Errors\<close>

definition answers :: "js_error + 'a \<Rightarrow> bool" where
  "answers r \<longleftrightarrow> (\<exists>x. r = Inr x)"

definition confirmed :: "js_error + place_result \<Rightarrow> bool" where
  "confirmed r \<longleftrightarrow> (\<exists>p. r = Inr p \<and> isConfirmedPlaceOrderResult p)"

text \<open>An adapter and callbacks that answer every call, and confirm every order.\<close>

definition quiet :: "engine \<Rightarrow> engine_ctx \<Rightarrow> bool" where
  "quiet en ctx \<longleftrightarrow>
     (let ex = en_ex en
      in (\<forall>s l m t. answers (ad_setLeverage ex s l m t)) \<and> (\<forall>p t. confirmed (ad_placeOrder ex p t)) \<and>
         (\<forall>i t. answers (ad_cancelOrder ex i t)) \<and> (\<forall>t. answers (ad_getPositions ex t)) \<and>
         (\<forall>f i t. ad_normalizeOrderIntent ex = Some f \<longrightarrow> answers (f i t)) \<and>
         (\<forall>f i t. ad_validateOrderIntent ex = Some f \<longrightarrow> answers (f i t)) \<and>
         (\<forall>f i t. ad_placeNormalizedOrder ex = Some f \<longrightarrow> confirmed (f i t)) \<and>
         (\<forall>f s t. ad_toExchangeSymbol ex = Some f \<longrightarrow> answers (f s t)) \<and>
         (\<forall>f s t. cx_getContractInfo ctx = Some f \<longrightarrow> answers (f s t)) \<and>
         (\<forall>f s t. en_getContractInfo en = Some f \<longrightarrow> answers (f s t)) \<and>
         (\<forall>f s t. ad_getContractInfo ex = Some f \<longrightarrow> answers (f s t)) \<and>
         (\<forall>f ev t. cx_emitRiskEvent ctx = Some f \<longrightarrow> answers (f ev t)) \<and>
         (\<forall>f ev t. en_emitRiskEvent en = Some f \<longrightarrow> answers (f ev t)) \<and>
         (\<forall>f t. cx_isTradingEnabled ctx = TFFunction f \<longrightarrow> answers (f t)) \<and>
         (\<forall>f t. en_isTradingEnabled en = Some f \<longrightarrow> answers (f t)))"

lemma quiet_facts:
  assumes "quiet en ctx"
  shows "ad_setLeverage (en_ex en) s l m t = Inr ()" "confirmed (ad_placeOrder (en_ex en) p t)"
    "ad_cancelOrder (en_ex en) i t = Inr ()" "\<exists>x. ad_getPositions (en_ex en) t = Inr x"
    "ad_normalizeOrderIntent (en_ex en) = Some f1 \<Longrightarrow> \<exists>x. f1 oi t = Inr x"
    "ad_validateOrderIntent (en_ex en) = Some f2 \<Longrightarrow> f2 ni t = Inr ()"
    "ad_placeNormalizedOrder (en_ex en) = Some f3 \<Longrightarrow> confirmed (f3 ni t)"
    "ad_toExchangeSymbol (en_ex en) = Some f4 \<Longrightarrow> \<exists>x. f4 s t = Inr x"
    "opt_or (cx_getContractInfo ctx) (opt_or (en_getContractInfo en) (ad_getContractInfo (en_ex en))) = Some f5 \<Longrightarrow> \<exists>x. f5 s t = Inr x"
    "cx_emitRiskEvent ctx = Some f6 \<Longrightarrow> f6 ev t = Inr ()" "en_emitRiskEvent en = Some f6 \<Longrightarrow> f6 ev t = Inr ()"
    "cx_isTradingEnabled ctx = TFFunction f7 \<Longrightarrow> \<exists>x. f7 t = Inr x" "en_isTradingEnabled en = Some f7 \<Longrightarrow> \<exists>x. f7 t = Inr x"
  using assms unfolding quiet_def Let_def answers_def by (auto simp: opt_or_def split: option.splits)

definition unreported :: "call list \<Rightarrow> bool" where
  "unreported cs \<longleftrightarrow> filter is_risk cs = []"

lemma unreported_simps [simp]:
  "unreported []" "unreported (c # cs) \<longleftrightarrow> \<not> is_risk c \<and> unreported cs" "unreported (cs @ cs') \<longleftrightarrow> unreported cs \<and> unreported cs'"
  by (simp_all add: unreported_def)

definition reported :: "engine \<Rightarrow> engine_ctx \<Rightarrow> js_error + engine_result \<Rightarrow> call list \<Rightarrow> bool" where
  "reported en ctx r cs \<longleftrightarrow> (\<exists>x. r = Inr x \<and> length (filter is_risk cs) =
     (case x of Blocked _ \<Rightarrow> if cx_emitRiskEvent ctx = None \<and> en_emitRiskEvent en = None then 0 else 1 | _ \<Rightarrow> 0))"

lemma reported_prefix: "unreported cs \<Longrightarrow> reported en ctx r cs' \<Longrightarrow> reported en ctx r (cs @ cs')"
  by (simp add: reported_def unreported_def)

lemma block_reported: "quiet en ctx \<Longrightarrow> does (block en ctx ty reason msg meta) (reported en ctx)"
proof -
  assume q: "quiet en ctx"
  have "does (bind (emitRiskEvent en ctx ev) (\<lambda>_. ret (Blocked reason))) (reported en ctx)" for ev
    unfolding emitRiskEvent_def
    by (auto simp: reported_def quiet_facts [OF q] split: option.split intro!: does_bind_perform does_bind_ret act_rules)
  then show ?thesis unfolding does_def block_def by blast
qed

lemma blocks_reported:
  assumes "quiet en ctx"
  shows "does (unknown_symbol en ctx s) (reported en ctx)" "does (trading_disabled en ctx c) (reported en ctx)"
    "does (validation_block en ctx c e) (reported en ctx)"
  by (simp_all add: unknown_symbol_def trading_disabled_def validation_block_def block_reported assms)

text \<open>Actions that return a value with \<open>R\<close> and report nothing, and what may follow them.\<close>

definition calm :: "('a \<Rightarrow> bool) \<Rightarrow> 'a act \<Rightarrow> bool" where
  "calm R m \<longleftrightarrow> does m (\<lambda>r cs. unreported cs \<and> (\<exists>x. r = Inr x \<and> R x))"

named_theorems calm_rules

lemma calm_ret [calm_rules]: "R x \<Longrightarrow> calm R (ret x)"
  by (auto simp: calm_def intro!: act_rules)

lemma calm_perform [calm_rules]: "(\<And>t. \<exists>x. f t = Inr x \<and> R x) \<Longrightarrow> \<not> is_risk c \<Longrightarrow> calm R (perform c f)"
  by (auto simp: calm_def intro!: act_rules)

interpretation calmly: skips unreported "\<lambda>r cs. unreported cs \<and> R r" for R
  by unfold_locales simp

interpretation reports: skips unreported "reported en ctx" for en ctx
  by unfold_locales (rule reported_prefix)

lemma calm_then:
  "calm S m \<Longrightarrow> (\<And>x. S x \<Longrightarrow> does (k x) (\<lambda>r cs. unreported cs \<and> R r)) \<Longrightarrow> does (bind m k) (\<lambda>r cs. unreported cs \<and> R r)"
  "calm S m \<Longrightarrow> (\<And>x. S x \<Longrightarrow> does (k' x) (reported en ctx)) \<Longrightarrow> does (bind m k') (reported en ctx)"
  unfolding calm_def by (rule calmly.bind_answer reports.bind_answer; assumption | blast)+

lemma calm_bind: "calm S m \<Longrightarrow> (\<And>x. S x \<Longrightarrow> calm R (k x)) \<Longrightarrow> calm R (bind m k)"
  unfolding calm_def [of R] by (rule calm_then)

lemma contract_calm: "quiet en ctx \<Longrightarrow> calm (\<lambda>_. True) (resolveContractInfo en ctx s)"
  unfolding resolveContractInfo_def by (auto simp: quiet_facts split: option.split intro!: calm_rules)

lemma place_calm:
  assumes "quiet en ctx"
  shows "calm (\<lambda>_. True) (placeViaExchangeAdapter en p)"
proof -
  have oid: "isConfirmedPlaceOrderResult pl \<Longrightarrow> calm (\<lambda>_. True) (order_id_of pl)" for pl
    unfolding order_id_of_def by (auto intro!: calm_rules)
  have sy: "calm (\<lambda>_. True) (exchange_symbol en s)" for s
    unfolding exchange_symbol_def using assms
    by (auto simp: quiet_def Let_def answers_def split: option.split intro!: calm_rules)
  note q = quiet_facts [OF assms, unfolded confirmed_def]
  show ?thesis
    unfolding placeViaExchangeAdapter_def Let_def
    by (simp only: prod.case split: option.split)
      (auto simp: q intro!: calm_bind [where S = "\<lambda>_. True"] calm_bind [where S = isConfirmedPlaceOrderResult] calm_perform sy oid)
qed

text \<open>The errors of the engine's own checks.\<close>

definition sizing_class :: "error_class \<Rightarrow> bool" where
  "sizing_class k \<longleftrightarrow> k \<in> {InvalidStepError, InvalidTickError, QtyOutOfRangeError, LeverageOutOfRangeError}"

lemma fail_if_Inl [simp]: "fail_if e x = Inl err \<longleftrightarrow> e = Some err"
  by (cases e) (auto simp: fail_if_def)

lemma own_errors:
  "open_quantity en od c = Inl e \<Longrightarrow> sizing_class (er_class e)" "limit_price en od c = Inl e \<Longrightarrow> sizing_class (er_class e)"
  "enforceLeverageBounds lev c = Inl e \<Longrightarrow> sizing_class (er_class e)"
  by (auto simp: open_quantity_def limit_price_def sizing_class_def step_error_def sizing_error_def mk_error_def Let_def
      split: option.splits if_splits dest: validator_classes)

lemma open_order_outcome:
  assumes "quiet en ctx"
  shows "does (open_order en side od c)
    (\<lambda>r cs. unreported cs \<and> ((\<exists>x. r = Inr (Accepted x)) \<or> (\<exists>e. r = Inl e \<and> sizing_class (er_class e))))" (is "does _ ?Q")
proof -
  have place: "does (bind (placeViaExchangeAdapter en p) (\<lambda>oid. ret (Accepted (Some oid)))) ?Q" for p
    by (rule calm_then [OF place_calm [OF assms]]) (auto intro!: act_rules)
  have rest: "does (bind (of_sum (open_quantity en od c)) (\<lambda>qty. bind (of_sum (limit_price en od c)) (\<lambda>price.
      bind (placeViaExchangeAdapter en (F qty price)) (\<lambda>oid. ret (Accepted (Some oid)))))) ?Q" for F
    by (intro does_bind_sum place) (auto intro: own_errors)
  have lev: "does (set_leverage en od c) (\<lambda>r cs. unreported cs \<and> (r = Inr () \<or> (\<exists>e. r = Inl e \<and> sizing_class (er_class e))))"
    unfolding set_leverage_def Let_def
    by (auto simp: quiet_facts [OF assms] split: option.split intro!: act_rules does_bind_sum intro: own_errors)
  show ?thesis
    unfolding open_order_def by (rule does_bind [OF lev]) (auto intro!: does_mono [OF rest])
qed

lemma reported_accepted: "unreported cs \<Longrightarrow> reported en ctx (Inr (Accepted x)) cs"
  by (simp add: reported_def unreported_def)

lemma open_intent_reported:
  assumes "quiet en ctx"
  shows "does (executeOpenIntent en ctx symbol side order) (reported en ctx)"
proof -
  have fail: "does (open_failure en ctx c e) (reported en ctx)" if "sizing_class (er_class e)" for c e
    using that by (auto simp: open_failure_def sizing_class_def Let_def blocks_reported [OF assms])
  have "does (catch (open_order en side od c) (open_failure en ctx c)) (reported en ctx)" for od c
    by (rule does_catch [OF open_order_outcome [OF assms]])
      (auto simp: reported_accepted intro!: does_mono [OF fail] reported_prefix)
  then show ?thesis
    unfolding executeOpenIntent_def
    by (intro calm_then [OF contract_calm [OF assms]]) (auto simp: blocks_reported [OF assms] reported_prefix split: option.split)
qed

lemma close_intent_reported:
  assumes "quiet en ctx"
  shows "does (executeCloseIntent en ctx symbol order) (reported en ctx)"
proof -
  have acc: "does (ret (Accepted x)) (reported en ctx)" for x by (auto simp: reported_def intro!: act_rules)
  have place: "does (bind (placeViaExchangeAdapter en p) (\<lambda>oid. ret (Accepted (Some oid)))) (reported en ctx)" for p
    by (rule calm_then [OF place_calm [OF assms]]) (auto simp: acc reported_prefix)
  have order: "does (close_order en ctx od c pos) (reported en ctx)" for od c pos
    unfolding close_order_def by (auto simp: blocks_reported [OF assms] place split: sum.split)
  have pos: "calm (\<lambda>_. True) (perform ReadPositions (ad_getPositions (en_ex en)))"
    by (auto simp: quiet_facts [OF assms] intro!: calm_rules)
  have "does (close_on_exchange en ctx symbol od) (reported en ctx)" for od
    unfolding close_on_exchange_def
    by (intro calm_then [OF contract_calm [OF assms]])
      (auto simp: blocks_reported [OF assms] reported_prefix acc order split: option.split intro!: calm_then [OF pos])
  moreover have "calm (\<lambda>_. True) (perform (CancelOrder i) (ad_cancelOrder (en_ex en) i))" for i
    by (auto simp: quiet_facts [OF assms] intro!: calm_rules)
  ultimately show ?thesis
    unfolding executeCloseIntent_def Let_def
    by (auto simp: acc reported_prefix split: option.split intro!: calm_then)
qed

section \<open>The answer to an intent\<close>

text \<open>The checks, stated apart from the code: the leverage, the quantity and the price that an order would have.\<close>

definition leverage_allowed :: "order_params \<Rightarrow> contract_info \<Rightarrow> bool" where
  "leverage_allowed od c \<longleftrightarrow> (\<forall>lev. op_leverage od = Some lev \<longrightarrow> positive lev \<and> within_vol (ct_minLeverage c) (ct_maxLeverage c) lev)"

definition quantity_allowed :: "engine \<Rightarrow> order_params \<Rightarrow> contract_info \<Rightarrow> (jsnum \<Rightarrow> jsnum) \<Rightarrow> jsnum option \<Rightarrow> bool" where
  "quantity_allowed en od c limit wanted \<longleftrightarrow>
     (\<exists>step w q. deriveStepSize (en_pow10 en) c = Some step \<and> wanted = Some w \<and>
        q = clampQty (limit (roundQtyToStep w step (round_mode od))) (ct_minVol c) (ct_maxVol c) \<and>
        positive q \<and> isAligned q step \<and> within_vol (ct_minVol c) (ct_maxVol c) q)"

definition price_allowed :: "engine \<Rightarrow> order_params \<Rightarrow> contract_info \<Rightarrow> bool" where
  "price_allowed en od c \<longleftrightarrow> opt_get (op_type od) Market = Market \<or>
     (\<exists>tick w p. deriveTickSize (en_pow10 en) c = Some tick \<and> op_price od = Some w \<and> p = roundPriceToTick w tick (round_mode od) \<and>
        positive p \<and> isAligned p tick)"

definition open_checks :: "engine \<Rightarrow> order_params \<Rightarrow> contract_info \<Rightarrow> bool" where
  "open_checks en od c \<longleftrightarrow> leverage_allowed od c \<and> quantity_allowed en od c (\<lambda>q. q) (sized_qty od c) \<and> price_allowed en od c"

definition close_checks :: "engine \<Rightarrow> order_params \<Rightarrow> contract_info \<Rightarrow> position \<Rightarrow> bool" where
  "close_checks en od c pos \<longleftrightarrow> positive (opt_get (op_qty od) (ps_size pos)) \<and> price_allowed en od c \<and>
     quantity_allowed en od c (\<lambda>q. n_min q (ps_size pos)) (Some (opt_get (op_qty od) (ps_size pos)))"

lemma aligned_truthy: "isAligned q step \<Longrightarrow> truthy_num (Some step) = Some step"
  by (auto simp: truthy_num_def isAligned_def valid_increment_iff)

lemma truthy_num_iff: "truthy_num n = Some x \<longleftrightarrow> n = Some x \<and> x \<noteq> Fin 0 \<and> x \<noteq> NaN"
  by (auto simp: truthy_num_def)

lemma open_quantity_iff: "(\<exists>q. open_quantity en od c = Inr q) \<longleftrightarrow> quantity_allowed en od c (\<lambda>q. q) (sized_qty od c)"
  unfolding open_quantity_def quantity_allowed_def
  by (cases "deriveStepSize (en_pow10 en) c"; cases "sized_qty od c")
    (auto simp: Let_def validateQty_None truthy_num_def isAligned_def valid_increment_iff split: option.splits)

lemma limit_price_iff: "(\<exists>p. limit_price en od c = Inr p) \<longleftrightarrow> price_allowed en od c"
  unfolding limit_price_def price_allowed_def
  by (cases "deriveTickSize (en_pow10 en) c"; cases "op_price od")
    (auto simp: Let_def validatePrice_None truthy_num_def isAligned_def valid_increment_iff split: option.splits)

lemma close_quantity_iff:
  "(\<exists>q. close_quantity en od c pos = Inr q) \<longleftrightarrow> positive (opt_get (op_qty od) (ps_size pos)) \<and>
     quantity_allowed en od c (\<lambda>q. n_min q (ps_size pos)) (Some (opt_get (op_qty od) (ps_size pos)))"
  unfolding close_quantity_def quantity_allowed_def
  by (cases "deriveStepSize (en_pow10 en) c")
    (auto simp: Let_def validateQty_None truthy_num_def isAligned_def valid_increment_iff split: option.splits)

lemma enforceLeverage_iff:
  "(\<exists>l. enforceLeverageBounds lev c = Inr l) \<longleftrightarrow> positive lev \<and> within_vol (ct_minLeverage c) (ct_maxLeverage c) lev"
  by (auto simp: enforceLeverageBounds_def leverage_max_def within_vol_def positive_def Let_def split: option.splits if_splits)

text \<open>What each intent is answered.\<close>

definition on_contract :: "(contract_info \<Rightarrow> engine_result \<Rightarrow> bool) \<Rightarrow> contract_info option \<Rightarrow> engine_result \<Rightarrow> bool" where
  "on_contract P ci x \<longleftrightarrow>
     (case ci of None \<Rightarrow> x = Blocked SymbolUnknown
      | Some c \<Rightarrow> if ct_apiAllowed c then P c x else x = Blocked TradingNotAllowed)"

definition checked :: "bool \<Rightarrow> engine_result \<Rightarrow> bool" where
  "checked ok x \<longleftrightarrow> (if ok then \<exists>oid. x = Accepted (Some oid) else x = Blocked Validation)"

definition close_answer :: "engine \<Rightarrow> order_params \<Rightarrow> contract_info \<Rightarrow> engine_result \<Rightarrow> bool" where
  "close_answer en od c x \<longleftrightarrow> (\<exists>t ps. ad_getPositions (en_ex en) t = Inr ps \<and>
     (case open_position en c ps of None \<Rightarrow> x = Accepted None | Some pos \<Rightarrow> checked (close_checks en od c pos) x))"

definition contract_read :: "engine \<Rightarrow> engine_ctx \<Rightarrow> string \<Rightarrow> contract_info option \<Rightarrow> bool" where
  "contract_read en ctx s ci \<longleftrightarrow> (\<exists>t. fst (resolveContractInfo en ctx s t) = Inr ci)"

definition intent_answer :: "engine \<Rightarrow> engine_ctx \<Rightarrow> trade_intent \<Rightarrow> engine_result \<Rightarrow> bool" where
  "intent_answer en ctx i x \<longleftrightarrow>
     (case i of NoIntent \<Rightarrow> x = Noop
      | OpenIntent s side order \<Rightarrow>
          (\<exists>ci. contract_read en ctx (canonical en s) ci \<and> on_contract (\<lambda>c. checked (open_checks en (opt_get order no_params) c)) ci x)
      | CloseIntent s order \<Rightarrow>
          if opt_get (op_cancelOrderId (opt_get order no_params)) '''' \<noteq> '''' then x = Accepted None
          else \<exists>ci. contract_read en ctx (canonical en s) ci \<and> on_contract (close_answer en (opt_get order no_params)) ci x)"

text \<open>Actions that answer with \<open>P\<close>.\<close>

definition says :: "(engine_result \<Rightarrow> bool) \<Rightarrow> js_error + engine_result \<Rightarrow> call list \<Rightarrow> bool" where
  "says P r cs \<longleftrightarrow> (\<exists>x. r = Inr x \<and> P x)"

lemma says_then: "calm S m \<Longrightarrow> (\<And>x. S x \<Longrightarrow> does (k x) (says P)) \<Longrightarrow> does (bind m k) (says P)"
  unfolding calm_def says_def [abs_def] by (erule does_bind) auto

lemma does_conj: "does m P \<Longrightarrow> does m Q \<Longrightarrow> does m (\<lambda>r cs. P r cs \<and> Q r cs)"
  unfolding does_def by (metis same_append_eq)

lemma block_says:
  assumes "quiet en ctx" "P (Blocked reason)"
  shows "does (block en ctx ty reason msg meta) (says P)"
proof (rule does_mono [OF does_conj [OF block_reported [OF assms(1)] block_does]])
  show "says P r cs" if "reported en ctx r cs \<and> harmless cs \<and> (r = Inr (Blocked reason) \<or> (\<exists>e. r = Inl e))" for r cs
    using that assms(2) by (auto simp: reported_def says_def)
qed

lemma blocks_say:
  assumes "quiet en ctx"
  shows "P (Blocked SymbolUnknown) \<Longrightarrow> does (unknown_symbol en ctx s) (says P)"
    "P (Blocked TradingNotAllowed) \<Longrightarrow> does (trading_disabled en ctx c) (says P)"
    "P (Blocked Validation) \<Longrightarrow> does (validation_block en ctx c e) (says P)"
  by (simp_all add: unknown_symbol_def trading_disabled_def validation_block_def block_says assms)

lemma contract_says:
  assumes "quiet en ctx"
  shows "calm (contract_read en ctx s) (resolveContractInfo en ctx s)"
  unfolding calm_def
  by (rule does_mono [OF does_conj [OF contract_calm [OF assms, unfolded calm_def] contract_does [of en ctx s]]])
    (auto simp: contract_read_def dest: sym)

lemma says_mono: "does m (says P) \<Longrightarrow> (\<And>x. P x \<Longrightarrow> Q x) \<Longrightarrow> does m (says Q)"
  by (erule does_mono) (auto simp: says_def)

lemma on_contract_says:
  assumes "quiet en ctx" "\<And>c. does (k c) (says (Q c))"
  shows "does (bind (resolveContractInfo en ctx s) (\<lambda>ci. case ci of None \<Rightarrow> unknown_symbol en ctx s
       | Some c \<Rightarrow> if \<not> ct_apiAllowed c then trading_disabled en ctx c else k c))
     (says (\<lambda>x. \<exists>ci. contract_read en ctx s ci \<and> on_contract Q ci x))"
proof (rule says_then [OF contract_says [OF assms(1)]])
  fix ci assume ci: "contract_read en ctx s ci"
  have "does (case ci of None \<Rightarrow> unknown_symbol en ctx s
       | Some c \<Rightarrow> if \<not> ct_apiAllowed c then trading_disabled en ctx c else k c) (says (on_contract Q ci))"
    by (auto simp: on_contract_def split: option.split intro!: blocks_say [OF assms(1)] says_mono [OF assms(2)])
  then show "does (case ci of None \<Rightarrow> unknown_symbol en ctx s
       | Some c \<Rightarrow> if \<not> ct_apiAllowed c then trading_disabled en ctx c else k c)
     (says (\<lambda>x. \<exists>ci. contract_read en ctx s ci \<and> on_contract Q ci x))"
    by (rule says_mono) (use ci in blast)
qed

lemma place_says:
  assumes "quiet en ctx"
  shows "does (bind (placeViaExchangeAdapter en p) (\<lambda>oid. ret (Accepted (Some oid)))) (says (checked True))"
  by (rule says_then [OF place_calm [OF assms]]) (auto simp: says_def checked_def intro!: act_rules)

lemma set_leverage_says:
  assumes "quiet en ctx"
  shows "does (set_leverage en od c) (\<lambda>r cs. if leverage_allowed od c then r = Inr () else \<exists>e. r = Inl e \<and> sizing_class (er_class e))"
proof (cases "op_leverage od")
  case None
  then show ?thesis by (auto simp: set_leverage_def leverage_allowed_def intro!: act_rules)
next
  case (Some lev)
  show ?thesis
  proof (cases "enforceLeverageBounds lev c")
    case (Inl e)
    moreover have "\<not> leverage_allowed od c" using Inl enforceLeverage_iff [of lev c] Some by (auto simp: leverage_allowed_def)
    ultimately show ?thesis using Some own_errors(3) by (auto simp: set_leverage_def intro!: does_bind_sum)
  next
    case (Inr l)
    moreover have "leverage_allowed od c" using Inr enforceLeverage_iff [of lev c] Some by (auto simp: leverage_allowed_def)
    ultimately show ?thesis
      using Some by (auto simp: set_leverage_def Let_def quiet_facts [OF assms] intro!: does_bind_sum act_rules)
  qed
qed

lemma open_order_says:
  assumes "quiet en ctx"
  shows "does (open_order en side od c) (\<lambda>r cs. if open_checks en od c then says (checked True) r cs
    else \<exists>e. r = Inl e \<and> sizing_class (er_class e))"
proof -
  note place = place_says [OF assms]
  have rest: "does (bind (of_sum (open_quantity en od c)) (\<lambda>qty. bind (of_sum (limit_price en od c)) (\<lambda>price.
      bind (placeViaExchangeAdapter en (F qty price)) (\<lambda>oid. ret (Accepted (Some oid))))))
    (\<lambda>r cs. if quantity_allowed en od c (\<lambda>q. q) (sized_qty od c) \<and> price_allowed en od c then says (checked True) r cs
       else \<exists>e. r = Inl e \<and> sizing_class (er_class e))" for F
    unfolding open_quantity_iff [symmetric] limit_price_iff [symmetric]
    by (intro does_bind_sum) (auto simp: place intro: own_errors)
  show ?thesis
    unfolding open_order_def
    by (rule does_bind [OF set_leverage_says [OF assms]])
      (auto simp: open_checks_def says_def split: if_splits intro!: does_mono [OF rest])
qed

lemma open_intent_says:
  assumes "quiet en ctx"
  shows "does (executeOpenIntent en ctx symbol side order)
    (says (\<lambda>x. \<exists>ci. contract_read en ctx symbol ci \<and> on_contract (\<lambda>c. checked (open_checks en (opt_get order no_params) c)) ci x))"
proof -
  let ?od = "opt_get order no_params"
  have fail: "does (open_failure en ctx c e) (says (checked False))" if "sizing_class (er_class e)" for c e
    using that by (auto simp: open_failure_def sizing_class_def Let_def checked_def blocks_say [OF assms])
  have "does (catch (open_order en side ?od c) (open_failure en ctx c)) (says (checked (open_checks en ?od c)))" for c
    by (rule does_catch [OF open_order_says [OF assms]])
      (auto simp: says_def split: if_splits intro!: fail [unfolded says_def [abs_def]])
  then show ?thesis
    unfolding executeOpenIntent_def by (rule on_contract_says [OF assms])
qed

lemma close_order_says:
  assumes "quiet en ctx"
  shows "does (close_order en ctx od c pos) (says (checked (close_checks en od c pos)))"
proof (cases "bind_sum (close_quantity en od c pos) (\<lambda>q. bind_sum (limit_price en od c) (\<lambda>p. Inr (q, p)))")
  case (Inl e)
  then have "\<not> close_checks en od c pos"
    unfolding close_checks_def limit_price_iff [symmetric] using close_quantity_iff [of en od c pos] by (auto simp: bind_sum_def)
  then show ?thesis using Inl by (simp add: close_order_def checked_def blocks_say [OF assms])
next
  case (Inr qp)
  then have "close_checks en od c pos"
    unfolding close_checks_def limit_price_iff [symmetric] using close_quantity_iff [of en od c pos]
    by (auto simp: bind_sum_def split: sum.splits)
  then show ?thesis using Inr place_says [OF assms] by (cases qp) (simp add: close_order_def)
qed

lemma close_intent_says:
  assumes "quiet en ctx"
  shows "does (executeCloseIntent en ctx symbol order)
    (says (\<lambda>x. if opt_get (op_cancelOrderId (opt_get order no_params)) '''' \<noteq> '''' then x = Accepted None
       else \<exists>ci. contract_read en ctx symbol ci \<and> on_contract (close_answer en (opt_get order no_params)) ci x))"
proof -
  let ?od = "opt_get order no_params"
  have pos: "calm (\<lambda>ps. \<exists>t. ad_getPositions (en_ex en) t = Inr ps) (perform ReadPositions (ad_getPositions (en_ex en)))"
  proof (rule calm_perform)
    show "\<exists>x. ad_getPositions (en_ex en) t = Inr x \<and> (\<exists>t. ad_getPositions (en_ex en) t = Inr x)" for t
      using quiet_facts(4) [OF assms, of t] by blast
  qed simp
  have held: "does (case open_position en c ps of None \<Rightarrow> ret (Accepted None) | Some pos \<Rightarrow> close_order en ctx ?od c pos)
      (says (close_answer en ?od c))" if read: "\<exists>t. ad_getPositions (en_ex en) t = Inr ps" for c ps
  proof -
    have "close_answer en ?od c x" if "case open_position en c ps of None \<Rightarrow> x = Accepted None | Some pos \<Rightarrow> checked (close_checks en ?od c pos) x" for x
      unfolding close_answer_def using read that by blast
    then show ?thesis
      by (cases "open_position en c ps")
        (auto simp: says_def [of _ "Inr _"] intro!: act_rules says_mono [OF close_order_says [OF assms]])
  qed
  have "does (bind (perform ReadPositions (ad_getPositions (en_ex en))) (\<lambda>positions.
      case open_position en c positions of None \<Rightarrow> ret (Accepted None) | Some pos \<Rightarrow> close_order en ctx ?od c pos))
      (says (close_answer en ?od c))" for c
    by (rule says_then [OF pos]) (rule held)
  then have "does (close_on_exchange en ctx symbol ?od)
      (says (\<lambda>x. \<exists>ci. contract_read en ctx symbol ci \<and> on_contract (close_answer en ?od) ci x))"
    unfolding close_on_exchange_def by (rule on_contract_says [OF assms])
  moreover have "does (bind (perform (CancelOrder i) (ad_cancelOrder (en_ex en) i)) (\<lambda>_. ret (Accepted None))) (says (\<lambda>x. x = Accepted None))" for i
    by (auto simp: says_def quiet_facts [OF assms] intro!: does_bind_perform act_rules)
  ultimately show ?thesis
    by (cases "op_cancelOrderId ?od") (simp_all add: executeCloseIntent_def Let_def opt_get_def [of "Some _"] opt_get_def [of None])
qed

text \<open>C19: When the adapter and the callbacks answer and confirm every order, an intent never ends in an
  exception, and its answer is decided by the checks: the kill switch blocks every intent; an unknown symbol, a contract closed
  to trading, and a leverage, quantity or price that fails its check are each blocked for that reason; an order
  that passes all of them is accepted with its identifier. An empty intent is a no-op, and a close without
  a position to close, or one that cancels an order, is accepted without an order. Exactly the blocks are reported,
  each as one risk event when a receiver is registered.\<close>

theorem engine_total:
  assumes "quiet en ctx" "\<not> calledFromStrategies (en_stack en)" "execute en i ctx [] = (r, cs)"
  shows "\<exists>x. r = Inr x \<and>
    (if i = NoIntent then x = Noop
     else \<exists>enabled. fst (resolveTradingEnabled en ctx []) = Inr enabled \<and>
       (if enabled then intent_answer en ctx i x else x = Blocked KillSwitch)) \<and>
    length (filter is_risk cs) =
    (case x of Blocked _ \<Rightarrow> if cx_emitRiskEvent ctx = None \<and> en_emitRiskEvent en = None then 0 else 1 | _ \<Rightarrow> 0)"
proof -
  have calm: "calm (\<lambda>_. True) (resolveTradingEnabled en ctx)"
    unfolding resolveTradingEnabled_def
    by (auto simp: quiet_facts [OF assms(1)] split: trading_flag.split option.split intro!: calm_rules)
  then have "does (execute en i ctx) (reported en ctx)"
    unfolding execute_def assertExecutionBoundary_def
    using assms(2) block_reported [OF assms(1)] open_intent_reported [OF assms(1)] close_intent_reported [OF assms(1)]
    by (auto simp: reported_prefix reported_def [of _ _ "Inr Noop"] split: trade_intent.split intro!: does_bind_ret calm_then act_rules)
  from does_start [OF this assms(3)] have rep: "reported en ctx r cs" .
  obtain t en' where t: "resolveTradingEnabled en ctx [] = (Inr en', t)"
    using calm by (cases "resolveTradingEnabled en ctx []") (auto simp: calm_def does_def dest: spec [of _ "[]"])
  have ans: "does (case i of OpenIntent s side od \<Rightarrow> executeOpenIntent en ctx (canonical en s) side od
      | CloseIntent s od \<Rightarrow> executeCloseIntent en ctx (canonical en s) od | NoIntent \<Rightarrow> ret Noop) (says (intent_answer en ctx i))"
    by (cases i) (auto simp: intent_answer_def says_def [of _ "Inr Noop"]
      intro!: says_mono [OF open_intent_says [OF assms(1)]] says_mono [OF close_intent_says [OF assms(1)]] act_rules split: if_splits)
  have kill: "does (block en ctx ty KillSwitch msg meta) (says (\<lambda>x. x = Blocked KillSwitch))" for ty msg meta
    by (rule block_says [OF assms(1)]) simp
  have "says (\<lambda>x. if i = NoIntent then x = Noop else if en' then intent_answer en ctx i x else x = Blocked KillSwitch) r cs"
  proof (cases "i = NoIntent")
    case True
    then show ?thesis using assms(2,3) by (auto simp: execute_def assertExecutionBoundary_def says_def bind_def ret_def)
  next
    case False
    have "does m (says P) \<Longrightarrow> m u = (r, w) \<Longrightarrow> says P r cs" for m P u w
      unfolding does_def says_def by (metis fst_conv)
    from this [OF ans] this [OF kill] show ?thesis
      using False assms(2,3) t by (auto simp: execute_def assertExecutionBoundary_def bind_def ret_def split: if_splits)
  qed
  then show ?thesis using rep t by (auto simp: reported_def says_def)
qed

section \<open>Runs of a concrete engine\<close>

definition sample_contract :: contract_info where
  "sample_contract = \<lparr> ct_canonicalSymbol = ''BTCUSDT'', ct_exchangeSymbol = ''BTC_USDT'', ct_apiAllowed = True,
     ct_priceScale = None, ct_volScale = None, ct_priceUnit = None, ct_volUnit = None, ct_tickSize = Some (Fin (1 / 2)),
     ct_stepSize = Some (Fin (1 / 4)), ct_minVol = Some (Fin 1), ct_maxVol = Some (Fin 100), ct_minLeverage = Some (Fin 1),
     ct_maxLeverage = Some (Fin 125), ct_contractSize = None \<rparr>"

definition sample_exchange :: exchange where
  "sample_exchange = \<lparr> ad_setLeverage = \<lambda>_ _ _ _. Inr (),
     ad_placeOrder = \<lambda>_ _. Inr \<lparr> pl_status = Confirmed, pl_orderId = Some ''1'', pl_errorCode = None, pl_errorMessage = None \<rparr>,
     ad_cancelOrder = \<lambda>_ _. Inr (), ad_getPositions = \<lambda>_. Inr [\<lparr> ps_symbol = ''BTC_USDT'', ps_side = Long, ps_size = Fin (1 / 2) \<rparr>],
     ad_normalizeOrderIntent = None, ad_validateOrderIntent = None, ad_placeNormalizedOrder = None,
     ad_getContractInfo = Some (\<lambda>_ _. Inr (Some sample_contract)), ad_toExchangeSymbol = None, ad_toCanonicalSymbol = None \<rparr>"

definition sample_engine :: "bool \<Rightarrow> engine" where
  "sample_engine enabled = \<lparr> en_ex = sample_exchange, en_isTradingEnabled = Some (\<lambda>_. Inr enabled),
     en_emitRiskEvent = Some (\<lambda>_ _. Inr ()), en_getContractInfo = None, en_GLOBAL_TRADING_ENABLED = None,
     en_NODE_ENV = None, en_stack = ''at runner/loop.js'', en_now = \<lambda>_. ''now'', en_pow10 = \<lambda>_. NaN \<rparr>"

definition sample_ctx :: engine_ctx where
  "sample_ctx = \<lparr> cx_botId = Some ''b'', cx_isTradingEnabled = TFUndefined, cx_emitRiskEvent = None, cx_getContractInfo = None \<rparr>"

definition sample_open :: trade_intent where
  "sample_open = OpenIntent ''btc-usdt'' Short (Some (no_params\<lparr> op_type := Some Limit, op_qty := Some (Fin (5 / 3)),
     op_price := Some (Fin (301 / 3)), op_leverage := Some (Fin 5) \<rparr>))"

lemma sample_quiet: "quiet (sample_engine b) sample_ctx"
  by (auto simp: quiet_def Let_def sample_engine_def sample_exchange_def sample_ctx_def answers_def confirmed_def
      isConfirmedPlaceOrderResult_def str_trim_def is_ws_def ws_chars_def)

theorem kill_switch_safe_witness:
  "filter is_write (snd (execute (sample_engine False) sample_open sample_ctx [])) = [] \<and>
   fst (execute (sample_engine False) sample_open sample_ctx []) = Inr (Blocked KillSwitch)"
proof -
  have "fst (resolveTradingEnabled (sample_engine False) sample_ctx []) = Inr False" by code_simp
  moreover have "fst (execute (sample_engine False) sample_open sample_ctx []) = Inr (Blocked KillSwitch)" by code_simp
  ultimately show ?thesis
    using kill_switch_safe [of "sample_engine False" sample_open sample_ctx] by (simp add: sample_open_def prod_eq_iff)
qed

theorem open_sound_witness:
  "\<exists>req. orders (snd (execute (sample_engine True) sample_open sample_ctx [])) = [req] \<and> pr_side req = Sell \<and>
     (\<exists>c. tradable (sample_engine True) sample_ctx ''BTCUSDT'' c \<and> quantity_ok (sample_engine True) c (pr_qty req))"
proof -
  let ?x = "execute (sample_engine True) sample_open sample_ctx []"
  have "map pr_side (orders (snd ?x)) = [Sell]" by code_simp
  then obtain req where r: "orders (snd ?x) = [req]" "pr_side req = Sell" by auto
  have "canonical (sample_engine True) ''btc-usdt'' = ''BTCUSDT''" by code_simp
  moreover have "?x = (fst ?x, snd ?x)" by simp
  note open_sound [OF this [unfolded sample_open_def], folded sample_open_def]
  ultimately show ?thesis using r by auto
qed

text \<open>A position of one half under a least volume of one: the order that closes it sells one.\<close>

theorem close_sound_witness:
  "\<exists>req. orders (snd (execute (sample_engine True) (CloseIntent ''BTCUSDT'' None) sample_ctx [])) = [req] \<and>
     pr_qty req = Fin 1 \<and> pr_reduceOnly req = Some True \<and>
     (\<exists>c pos. held (sample_engine True) c pos \<and> pr_side req = toCloseOrderSide (ps_side pos))"
proof -
  let ?x = "execute (sample_engine True) (CloseIntent ''BTCUSDT'' None) sample_ctx []"
  have "map pr_qty (orders (snd ?x)) = [Fin 1]" by code_simp
  then obtain req where r: "orders (snd ?x) = [req]" "pr_qty req = Fin 1" by auto
  show ?thesis
    using close_sound [of "sample_engine True" "''BTCUSDT''" None sample_ctx "fst ?x" "snd ?x", OF _ refl] r
    by (auto simp: no_params_def opt_get_def)
qed

theorem engine_total_witness:
  "fst (execute (sample_engine True) (OpenIntent ''BTCUSDT'' Long None) sample_ctx []) = Inr (Blocked Validation) \<and>
   length (filter is_risk (snd (execute (sample_engine True) (OpenIntent ''BTCUSDT'' Long None) sample_ctx []))) = 1"
proof -
  let ?x = "execute (sample_engine True) (OpenIntent ''BTCUSDT'' Long None) sample_ctx []"
  have b: "\<not> calledFromStrategies (en_stack (sample_engine True))" by code_simp
  have f: "fst ?x = Inr (Blocked Validation)" by code_simp
  from engine_total [OF sample_quiet b, of "OpenIntent ''BTCUSDT'' Long None" "fst ?x" "snd ?x"] f
  show ?thesis by (simp add: sample_engine_def sample_ctx_def)
qed

end
