(* ===== verification/ExecutionSettings.thy ===== *)
theory ExecutionSettings
  imports FuturesEngine
begin

text \<open>
  The execution settings of a bot (apps/runner/src/execution/config.ts), read from the parameters its
  owner stores as free JSON: the mode, the limits every mode shares and the settings of each mode, every
  number brought into its range.
\<close>

section \<open>Settings\<close>

datatype mode_name = ModeSimple | ModeDca | ModeGrid | ModeDipReversion

record common_config =
  ec_maxDailyExecutions :: int
  ec_cooldownSecAfterExecution :: int
  ec_maxNotionalPerSymbolUsd :: "jsnum option"
  ec_maxTotalNotionalUsd :: "jsnum option"
  ec_maxOpenPositions :: int
  ec_enforceReduceOnlyOnClose :: bool

record simple_config =
  es_orderType :: order_type
  es_limitOffsetBps :: jsnum

record dca_config =
  ed_maxEntries :: int
  ed_stepPct :: jsnum
  ed_sizeScale :: jsnum
  ed_entryOrderType :: order_type
  ed_takeProfitPct :: "jsnum option"
  ed_stopLossPct :: "jsnum option"
  ed_cancelPendingOnFlip :: bool

record grid_config =
  eg_levelsPerSide :: int
  eg_gridSpacingPct :: jsnum
  eg_baseOrderUsd :: jsnum
  eg_tpPctPerLevel :: jsnum
  eg_maxActiveOrders :: int
  eg_rebalanceThresholdPct :: jsnum

record dip_config =
  er_dipTriggerPct :: jsnum
  er_recoveryTakeProfitPct :: jsnum
  er_maxHoldMinutes :: int
  er_maxReentriesPerDay :: int
  er_entryScaleUsd :: jsnum

record execution_settings =
  st_mode :: mode_name
  st_common :: common_config
  st_simple :: simple_config
  st_dca :: dca_config
  st_grid :: grid_config
  st_dipReversion :: dip_config

definition DEFAULT_EXECUTION_SETTINGS :: execution_settings where
  "DEFAULT_EXECUTION_SETTINGS =
     \<lparr> st_mode = ModeSimple,
       st_common = \<lparr> ec_maxDailyExecutions = 200, ec_cooldownSecAfterExecution = 0, ec_maxNotionalPerSymbolUsd = None,
         ec_maxTotalNotionalUsd = None, ec_maxOpenPositions = 1, ec_enforceReduceOnlyOnClose = True \<rparr>,
       st_simple = \<lparr> es_orderType = Market, es_limitOffsetBps = Fin 2 \<rparr>,
       st_dca = \<lparr> ed_maxEntries = 3, ed_stepPct = fl (3 / 2), ed_sizeScale = fl (5 / 4), ed_entryOrderType = Limit,
         ed_takeProfitPct = Some (Fin 2), ed_stopLossPct = None, ed_cancelPendingOnFlip = True \<rparr>,
       st_grid = \<lparr> eg_levelsPerSide = 4, eg_gridSpacingPct = fl (1 / 2), eg_baseOrderUsd = Fin 100, eg_tpPctPerLevel = fl (4 / 10),
         eg_maxActiveOrders = 10, eg_rebalanceThresholdPct = fl (3 / 2) \<rparr>,
       st_dipReversion = \<lparr> er_dipTriggerPct = Fin 3, er_recoveryTakeProfitPct = fl (3 / 2), er_maxHoldMinutes = 720,
         er_maxReentriesPerDay = 2, er_entryScaleUsd = Fin 100 \<rparr> \<rparr>"

section \<open>Reading\<close>

fun toNumber :: "jsval \<Rightarrow> jsnum option" where
  "toNumber (JNum n) = (if is_finite n then Some n else None)"
| "toNumber (JStr s) = (if is_finite (str_to_num (str_trim s)) then Some (str_to_num (str_trim s)) else None)"
| "toNumber _ = None"

text \<open>The whole part of a finite number; \<open>Math.trunc\<close> of a double is an integer.\<close>

fun trunc_int :: "jsnum \<Rightarrow> int" where
  "trunc_int (Fin q) = (if 0 \<le> q then \<lfloor>q\<rfloor> else - \<lfloor>- q\<rfloor>)"
| "trunc_int _ = 0"

definition toInt :: "jsval \<Rightarrow> int option" where
  "toInt v = map_option trunc_int (toNumber v)"

definition clamp :: "jsnum \<Rightarrow> jsnum \<Rightarrow> jsnum \<Rightarrow> jsnum" where
  "clamp v lo hi = n_min hi (n_max lo v)"

definition bounded_int :: "int \<Rightarrow> int \<Rightarrow> jsval \<Rightarrow> int \<Rightarrow> int" where
  "bounded_int lo hi v d = max lo (min hi (opt_get (toInt v) d))"

definition parseNullablePositive :: "jsval \<Rightarrow> jsnum option" where
  "parseNullablePositive v =
     (case toNumber v of Some n \<Rightarrow> if n_le n (Fin 0) then None else Some n | None \<Rightarrow> None)"

definition parseMode :: "jsval \<Rightarrow> mode_name option" where
  "parseMode v =
     (let s = norm_lower v
      in if s = ''simple'' then Some ModeSimple
         else if s = ''dca'' then Some ModeDca
         else if s = ''grid'' then Some ModeGrid
         else if s = ''dip_reversion'' then Some ModeDipReversion
         else None)"

definition readExecutionRoot :: "jsval \<Rightarrow> jsobj" where
  "readExecutionRoot params = opt_get (as_object (get (opt_get (as_object params) []) ''execution'')) []"

definition readLegacyExecutionMode :: "jsval \<Rightarrow> mode_name option" where
  "readLegacyExecutionMode params =
     (let direct = norm_lower (get (opt_get (as_object params) []) ''executionMode'')
      in if direct = ''futures_engine'' \<or> direct = ''simple'' then Some ModeSimple
         else if direct = ''dca'' then Some ModeDca
         else if direct = ''grid'' then Some ModeGrid
         else if direct = ''dip_reversion'' then Some ModeDipReversion
         else None)"

fun bool_or :: "jsval \<Rightarrow> bool \<Rightarrow> bool" where
  "bool_or (JBool b) d = b"
| "bool_or _ d = d"

definition sub_config :: "jsobj \<Rightarrow> string \<Rightarrow> jsobj" where
  "sub_config rt k = opt_get (as_object (get rt k)) []"

definition parseCommonConfig :: "jsobj \<Rightarrow> common_config" where
  "parseCommonConfig rt =
     (let raw = sub_config rt ''common''; d = st_common DEFAULT_EXECUTION_SETTINGS
      in \<lparr> ec_maxDailyExecutions = bounded_int 1 10000 (get raw ''maxDailyExecutions'') (ec_maxDailyExecutions d),
           ec_cooldownSecAfterExecution =
             bounded_int 0 86400 (get raw ''cooldownSecAfterExecution'') (ec_cooldownSecAfterExecution d),
           ec_maxNotionalPerSymbolUsd = parseNullablePositive (get raw ''maxNotionalPerSymbolUsd''),
           ec_maxTotalNotionalUsd = parseNullablePositive (get raw ''maxTotalNotionalUsd''),
           ec_maxOpenPositions = bounded_int 1 100 (get raw ''maxOpenPositions'') (ec_maxOpenPositions d),
           ec_enforceReduceOnlyOnClose =
             bool_or (get raw ''enforceReduceOnlyOnClose'') (ec_enforceReduceOnlyOnClose d) \<rparr>)"

text \<open>\<open>String(value ?? default).trim().toLowerCase()\<close> with the name of an order type as the default.\<close>

definition order_type_is :: "string \<Rightarrow> jsval \<Rightarrow> string \<Rightarrow> bool" where
  "order_type_is name v d \<longleftrightarrow> norm_lower (coalesce v (JStr d)) = name"

definition parseSimpleConfig :: "jsobj \<Rightarrow> simple_config" where
  "parseSimpleConfig rt =
     (let raw = sub_config rt ''simple''
      in \<lparr> es_orderType = (if order_type_is ''limit'' (get raw ''orderType'') ''market'' then Limit else Market),
           es_limitOffsetBps = clamp (opt_get (toNumber (get raw ''limitOffsetBps''))
             (es_limitOffsetBps (st_simple DEFAULT_EXECUTION_SETTINGS))) (Fin 0) (Fin 500) \<rparr>)"

definition parseDcaConfig :: "jsobj \<Rightarrow> dca_config" where
  "parseDcaConfig rt =
     (let raw = sub_config rt ''dca''; d = st_dca DEFAULT_EXECUTION_SETTINGS
      in \<lparr> ed_maxEntries = bounded_int 1 20 (get raw ''maxEntries'') (ed_maxEntries d),
           ed_stepPct = clamp (opt_get (toNumber (get raw ''stepPct'')) (ed_stepPct d)) (fl (1 / 100)) (Fin 50),
           ed_sizeScale = clamp (opt_get (toNumber (get raw ''sizeScale'')) (ed_sizeScale d)) (Fin 1) (Fin 5),
           ed_entryOrderType = (if order_type_is ''market'' (get raw ''entryOrderType'') ''limit'' then Market else Limit),
           ed_takeProfitPct = opt_or (parseNullablePositive (get raw ''takeProfitPct'')) (ed_takeProfitPct d),
           ed_stopLossPct = opt_or (parseNullablePositive (get raw ''stopLossPct'')) (ed_stopLossPct d),
           ed_cancelPendingOnFlip = bool_or (get raw ''cancelPendingOnFlip'') (ed_cancelPendingOnFlip d) \<rparr>)"

definition parseGridConfig :: "jsobj \<Rightarrow> grid_config" where
  "parseGridConfig rt =
     (let raw = sub_config rt ''grid''; d = st_grid DEFAULT_EXECUTION_SETTINGS
      in \<lparr> eg_levelsPerSide = bounded_int 1 40 (get raw ''levelsPerSide'') (eg_levelsPerSide d),
           eg_gridSpacingPct = clamp (opt_get (toNumber (get raw ''gridSpacingPct'')) (eg_gridSpacingPct d)) (fl (1 / 100)) (Fin 10),
           eg_baseOrderUsd = n_max (Fin 1) (opt_get (toNumber (get raw ''baseOrderUsd'')) (eg_baseOrderUsd d)),
           eg_tpPctPerLevel = clamp (opt_get (toNumber (get raw ''tpPctPerLevel'')) (eg_tpPctPerLevel d)) (fl (1 / 100)) (Fin 20),
           eg_maxActiveOrders = bounded_int 1 200 (get raw ''maxActiveOrders'') (eg_maxActiveOrders d),
           eg_rebalanceThresholdPct = clamp (opt_get (toNumber (get raw ''rebalanceThresholdPct'')) (eg_rebalanceThresholdPct d))
             (fl (1 / 100)) (Fin 25) \<rparr>)"

definition parseDipReversionConfig :: "jsobj \<Rightarrow> dip_config" where
  "parseDipReversionConfig rt =
     (let raw = opt_get (opt_or (as_object (get rt ''dipReversion'')) (as_object (get rt ''dip_reversion''))) [];
          d = st_dipReversion DEFAULT_EXECUTION_SETTINGS
      in \<lparr> er_dipTriggerPct = clamp (opt_get (toNumber (get raw ''dipTriggerPct'')) (er_dipTriggerPct d)) (fl (1 / 10)) (Fin 30),
           er_recoveryTakeProfitPct = clamp (opt_get (toNumber (get raw ''recoveryTakeProfitPct'')) (er_recoveryTakeProfitPct d))
             (fl (1 / 10)) (Fin 30),
           er_maxHoldMinutes = bounded_int 1 20160 (get raw ''maxHoldMinutes'') (er_maxHoldMinutes d),
           er_maxReentriesPerDay = bounded_int 1 100 (get raw ''maxReentriesPerDay'') (er_maxReentriesPerDay d),
           er_entryScaleUsd = n_max (Fin 1) (opt_get (toNumber (get raw ''entryScaleUsd'')) (er_entryScaleUsd d)) \<rparr>)"

section \<open>The settings of a bot\<close>

text \<open>A bot counts with its strategy and its parameters.\<close>

definition readExplicitExecutionModeFromBot :: "string \<Rightarrow> jsval \<Rightarrow> mode_name option" where
  "readExplicitExecutionModeFromBot strategyKey params =
     (if strategyKey = ''prediction_copier'' then None
      else opt_or (parseMode (get (readExecutionRoot params) ''mode'')) (readLegacyExecutionMode params))"

text \<open>A total limit below the limit of one symbol is raised to it.\<close>

definition raise_total :: "common_config \<Rightarrow> common_config" where
  "raise_total c =
     (case (ec_maxNotionalPerSymbolUsd c, ec_maxTotalNotionalUsd c) of
        (Some p, Some t) \<Rightarrow> if n_lt t p then c\<lparr> ec_maxTotalNotionalUsd := Some p \<rparr> else c
      | _ \<Rightarrow> c)"

definition readExecutionSettings :: "string \<Rightarrow> jsval \<Rightarrow> execution_settings" where
  "readExecutionSettings strategyKey params =
     (let rt = readExecutionRoot params
      in \<lparr> st_mode = opt_get (readExplicitExecutionModeFromBot strategyKey params) (st_mode DEFAULT_EXECUTION_SETTINGS),
           st_common = raise_total (parseCommonConfig rt), st_simple = parseSimpleConfig rt,
           st_dca = parseDcaConfig rt, st_grid = parseGridConfig rt, st_dipReversion = parseDipReversionConfig rt \<rparr>)"

definition defaultExecutionSettings :: execution_settings where
  "defaultExecutionSettings = DEFAULT_EXECUTION_SETTINGS"

section \<open>The ranges\<close>

definition common_ok :: "common_config \<Rightarrow> bool" where
  "common_ok c \<longleftrightarrow>
     1 \<le> ec_maxDailyExecutions c \<and> ec_maxDailyExecutions c \<le> 10000 \<and>
     0 \<le> ec_cooldownSecAfterExecution c \<and> ec_cooldownSecAfterExecution c \<le> 86400 \<and>
     1 \<le> ec_maxOpenPositions c \<and> ec_maxOpenPositions c \<le> 100 \<and>
     (\<forall>p. ec_maxNotionalPerSymbolUsd c = Some p \<longrightarrow> (\<exists>q. p = Fin q \<and> 0 < q)) \<and>
     (\<forall>t. ec_maxTotalNotionalUsd c = Some t \<longrightarrow> (\<exists>q. t = Fin q \<and> 0 < q)) \<and>
     (\<forall>p t. ec_maxNotionalPerSymbolUsd c = Some p \<longrightarrow> ec_maxTotalNotionalUsd c = Some t \<longrightarrow> n_le p t)"

lemma toNumber_finite: "toNumber v = Some n \<Longrightarrow> \<exists>q. n = Fin q"
  by (cases v) (auto split: if_splits elim: is_finite.elims)

lemma bounded_int: "lo \<le> hi \<Longrightarrow> lo \<le> bounded_int lo hi v d \<and> bounded_int lo hi v d \<le> hi"
  by (simp add: bounded_int_def)

lemma nullable_positive: "parseNullablePositive v = Some n \<Longrightarrow> \<exists>q. n = Fin q \<and> 0 < q"
  using toNumber_finite [of v] by (force simp: parseNullablePositive_def n_le_def split: option.splits if_splits)

lemma common_ok [intro]: "common_ok (raise_total (parseCommonConfig rt))"
proof -
  let ?c = "parseCommonConfig rt"
  have pos: "(\<forall>p. ec_maxNotionalPerSymbolUsd ?c = Some p \<longrightarrow> (\<exists>q. p = Fin q \<and> 0 < q)) \<and>
      (\<forall>t. ec_maxTotalNotionalUsd ?c = Some t \<longrightarrow> (\<exists>q. t = Fin q \<and> 0 < q))"
    using nullable_positive by (auto simp: parseCommonConfig_def Let_def)
  have raised: "ec_maxNotionalPerSymbolUsd (raise_total c) = ec_maxNotionalPerSymbolUsd c"
    "ec_maxDailyExecutions (raise_total c) = ec_maxDailyExecutions c" "ec_maxOpenPositions (raise_total c) = ec_maxOpenPositions c"
    "ec_cooldownSecAfterExecution (raise_total c) = ec_cooldownSecAfterExecution c" for c
    by (simp_all add: raise_total_def split: option.split)
  have "\<exists>q. t = Fin q \<and> 0 < q \<and> (\<forall>p. ec_maxNotionalPerSymbolUsd ?c = Some p \<longrightarrow> n_le p t)"
    if "ec_maxTotalNotionalUsd (raise_total ?c) = Some t" for t
    using that pos by (fastforce simp: raise_total_def n_le_def split: option.splits if_splits)
  then have t: "(\<forall>t. ec_maxTotalNotionalUsd (raise_total ?c) = Some t \<longrightarrow> (\<exists>q. t = Fin q \<and> 0 < q)) \<and>
      (\<forall>p t. ec_maxNotionalPerSymbolUsd ?c = Some p \<longrightarrow> ec_maxTotalNotionalUsd (raise_total ?c) = Some t \<longrightarrow> n_le p t)"
    by metis
  have "1 \<le> ec_maxDailyExecutions ?c \<and> ec_maxDailyExecutions ?c \<le> 10000 \<and> 0 \<le> ec_cooldownSecAfterExecution ?c \<and>
      ec_cooldownSecAfterExecution ?c \<le> 86400 \<and> 1 \<le> ec_maxOpenPositions ?c \<and> ec_maxOpenPositions ?c \<le> 100"
    by (simp add: parseCommonConfig_def Let_def bounded_int)
  then show ?thesis unfolding common_ok_def raised using pos t by blast
qed

lemma clamp_between:
  assumes "\<exists>q. n = Fin q" "l = Fin lo" "h = Fin hi" "lo \<le> hi"
  shows "between lo (Some hi) (clamp n l h)"
  using assms by (auto simp: between_def clamp_def n_max_Fin n_min_Fin)

lemma at_least_between: "\<exists>q. n = Fin q \<Longrightarrow> between lo None (n_max (Fin lo) n)"
  by (auto simp: between_def n_max_Fin)

lemma opt_get_finite: "\<exists>q. d = Fin q \<Longrightarrow> \<exists>q. opt_get (toNumber v) d = Fin q"
  using toNumber_finite [of v] by (cases "toNumber v") (auto simp: opt_get_def)

text \<open>The least spacing and trigger: the doubles next to a hundredth and to a tenth.\<close>

definition hundredth :: rat where "hundredth = dbl (1 / 100)"
definition tenth :: rat where "tenth = dbl (1 / 10)"

lemma fl_consts:
  "fl (1 / 100) = Fin hundredth" "fl (1 / 10) = Fin tenth" "0 < hundredth" "hundredth \<le> 1" "0 < tenth" "tenth \<le> 30"
  "hundredth \<le> 10" "hundredth \<le> 20" "hundredth \<le> 25" "hundredth \<le> 50"
  unfolding hundredth_def tenth_def by code_simp+

lemma default_finite:
  "\<exists>q. es_limitOffsetBps (st_simple DEFAULT_EXECUTION_SETTINGS) = Fin q"
  "\<exists>q. ed_stepPct (st_dca DEFAULT_EXECUTION_SETTINGS) = Fin q" "\<exists>q. ed_sizeScale (st_dca DEFAULT_EXECUTION_SETTINGS) = Fin q"
  "\<exists>q. eg_gridSpacingPct (st_grid DEFAULT_EXECUTION_SETTINGS) = Fin q" "\<exists>q. eg_baseOrderUsd (st_grid DEFAULT_EXECUTION_SETTINGS) = Fin q"
  "\<exists>q. eg_tpPctPerLevel (st_grid DEFAULT_EXECUTION_SETTINGS) = Fin q"
  "\<exists>q. eg_rebalanceThresholdPct (st_grid DEFAULT_EXECUTION_SETTINGS) = Fin q"
  "\<exists>q. er_dipTriggerPct (st_dipReversion DEFAULT_EXECUTION_SETTINGS) = Fin q"
  "\<exists>q. er_recoveryTakeProfitPct (st_dipReversion DEFAULT_EXECUTION_SETTINGS) = Fin q"
  "\<exists>q. er_entryScaleUsd (st_dipReversion DEFAULT_EXECUTION_SETTINGS) = Fin q"
proof -
  have "is_finite (fl (3 / 2))" "is_finite (fl (5 / 4))" "is_finite (fl (1 / 2))" "is_finite (fl (4 / 10))" by code_simp+
  then have "\<exists>q. fl (3 / 2) = Fin q" "\<exists>q. fl (5 / 4) = Fin q" "\<exists>q. fl (1 / 2) = Fin q" "\<exists>q. fl (4 / 10) = Fin q"
    by (auto elim: is_finite.elims)
  then show "\<exists>q. es_limitOffsetBps (st_simple DEFAULT_EXECUTION_SETTINGS) = Fin q"
  "\<exists>q. ed_stepPct (st_dca DEFAULT_EXECUTION_SETTINGS) = Fin q" "\<exists>q. ed_sizeScale (st_dca DEFAULT_EXECUTION_SETTINGS) = Fin q"
  "\<exists>q. eg_gridSpacingPct (st_grid DEFAULT_EXECUTION_SETTINGS) = Fin q" "\<exists>q. eg_baseOrderUsd (st_grid DEFAULT_EXECUTION_SETTINGS) = Fin q"
  "\<exists>q. eg_tpPctPerLevel (st_grid DEFAULT_EXECUTION_SETTINGS) = Fin q"
  "\<exists>q. eg_rebalanceThresholdPct (st_grid DEFAULT_EXECUTION_SETTINGS) = Fin q"
  "\<exists>q. er_dipTriggerPct (st_dipReversion DEFAULT_EXECUTION_SETTINGS) = Fin q"
  "\<exists>q. er_recoveryTakeProfitPct (st_dipReversion DEFAULT_EXECUTION_SETTINGS) = Fin q"
  "\<exists>q. er_entryScaleUsd (st_dipReversion DEFAULT_EXECUTION_SETTINGS) = Fin q"
    unfolding DEFAULT_EXECUTION_SETTINGS_def by simp_all
qed

lemmas range_facts = clamp_between [OF opt_get_finite] at_least_between [OF opt_get_finite] default_finite fl_consts bounded_int

definition positive_opt :: "jsnum option \<Rightarrow> bool" where
  "positive_opt x \<longleftrightarrow> (\<forall>n. x = Some n \<longrightarrow> (\<exists>q. n = Fin q \<and> 0 < q))"

lemma simple_range: "between 0 (Some 500) (es_limitOffsetBps (parseSimpleConfig rt))"
  unfolding parseSimpleConfig_def Let_def by (simp add: range_facts)

lemma dca_range:
  "1 \<le> ed_maxEntries (parseDcaConfig rt)" "ed_maxEntries (parseDcaConfig rt) \<le> 20"
  "between hundredth (Some 50) (ed_stepPct (parseDcaConfig rt))" "between 1 (Some 5) (ed_sizeScale (parseDcaConfig rt))"
  by (simp_all add: parseDcaConfig_def Let_def range_facts)

lemma grid_range:
  "1 \<le> eg_levelsPerSide (parseGridConfig rt)" "eg_levelsPerSide (parseGridConfig rt) \<le> 40"
  "1 \<le> eg_maxActiveOrders (parseGridConfig rt)" "eg_maxActiveOrders (parseGridConfig rt) \<le> 200"
  "between hundredth (Some 10) (eg_gridSpacingPct (parseGridConfig rt))" "between 1 None (eg_baseOrderUsd (parseGridConfig rt))"
  "between hundredth (Some 20) (eg_tpPctPerLevel (parseGridConfig rt))"
  "between hundredth (Some 25) (eg_rebalanceThresholdPct (parseGridConfig rt))"
  by (simp_all add: parseGridConfig_def Let_def range_facts)

lemma dip_range:
  "between tenth (Some 30) (er_dipTriggerPct (parseDipReversionConfig rt))"
  "between tenth (Some 30) (er_recoveryTakeProfitPct (parseDipReversionConfig rt))"
  "1 \<le> er_maxHoldMinutes (parseDipReversionConfig rt)" "er_maxHoldMinutes (parseDipReversionConfig rt) \<le> 20160"
  "1 \<le> er_maxReentriesPerDay (parseDipReversionConfig rt)" "er_maxReentriesPerDay (parseDipReversionConfig rt) \<le> 100"
  "between 1 None (er_entryScaleUsd (parseDipReversionConfig rt))"
  by (simp_all add: parseDipReversionConfig_def Let_def range_facts)

text \<open>A take-profit of null or zero means the default: a bot cannot switch its take-profit off.\<close>

lemma take_profit_always:
  "\<exists>n. ed_takeProfitPct (st_dca (readExecutionSettings k params)) = Some n \<and> positive_opt (Some n)"
proof -
  have "ed_takeProfitPct (st_dca DEFAULT_EXECUTION_SETTINGS) = Some (Fin 2)" by (simp add: DEFAULT_EXECUTION_SETTINGS_def)
  then show ?thesis
    using nullable_positive
    by (auto simp: readExecutionSettings_def parseDcaConfig_def Let_def opt_or_def positive_opt_def split: option.split)
qed

lemma stop_loss_positive: "positive_opt (ed_stopLossPct (parseDcaConfig rt))"
proof -
  have "ed_stopLossPct (st_dca DEFAULT_EXECUTION_SETTINGS) = None" by (simp add: DEFAULT_EXECUTION_SETTINGS_def)
  then show ?thesis
    using nullable_positive by (auto simp: parseDcaConfig_def Let_def opt_or_def positive_opt_def split: option.split)
qed

text \<open>C34: Whatever JSON the parameters of a bot hold, every number read from them is usable. Of the common settings
  the counts lie in their ranges, the limits are positive and the total one is never below the one of a symbol.
  Of each mode every count lies in its range, every percentage, offset and scale is a finite number in its range,
  the size of a grid order and of a dip entry is at least one dollar, the stop-loss of the dca mode is positive
  when there is one, and its take-profit is always set and positive.\<close>

theorem settings_in_range:
  "let s = readExecutionSettings k params in common_ok (st_common s) \<and> between 0 (Some 500) (es_limitOffsetBps (st_simple s)) \<and>
    ed_maxEntries (st_dca s) \<in> {1..20} \<and> between hundredth (Some 50) (ed_stepPct (st_dca s)) \<and>
    between 1 (Some 5) (ed_sizeScale (st_dca s)) \<and>
    (\<exists>n. ed_takeProfitPct (st_dca s) = Some n \<and> positive_opt (Some n)) \<and> positive_opt (ed_stopLossPct (st_dca s)) \<and>
    eg_levelsPerSide (st_grid s) \<in> {1..40} \<and> eg_maxActiveOrders (st_grid s) \<in> {1..200} \<and>
    between hundredth (Some 10) (eg_gridSpacingPct (st_grid s)) \<and>
    between 1 None (eg_baseOrderUsd (st_grid s)) \<and> between hundredth (Some 20) (eg_tpPctPerLevel (st_grid s)) \<and>
    between hundredth (Some 25) (eg_rebalanceThresholdPct (st_grid s)) \<and>
    between tenth (Some 30) (er_dipTriggerPct (st_dipReversion s)) \<and>
    between tenth (Some 30) (er_recoveryTakeProfitPct (st_dipReversion s)) \<and>
    between 1 None (er_entryScaleUsd (st_dipReversion s)) \<and>
    er_maxHoldMinutes (st_dipReversion s) \<in> {1..20160} \<and>
    er_maxReentriesPerDay (st_dipReversion s) \<in> {1..100}"
proof -
  have tp: "\<exists>n. ed_takeProfitPct (parseDcaConfig (readExecutionRoot params)) = Some n \<and> positive_opt (Some n)"
    using take_profit_always [of k params] by (simp add: readExecutionSettings_def Let_def)
  show ?thesis
    unfolding readExecutionSettings_def Let_def
    using tp by (simp add: common_ok simple_range dca_range grid_range dip_range stop_loss_positive)
qed

end
