(* ===== verification/JsDate.thy ===== *)
theory JsDate
  imports JsValue
begin

text \<open>
  Dates of the language: a Date is its time in milliseconds, \<open>toISOString\<close> writes it, and a text in that
  format is read back to the same time. How other texts are read is left to the implementation and is
  a parameter of \<open>parse_date\<close>.
\<close>

section \<open>The calendar\<close>

text \<open>Years start in March, so the leap day is the last day of a year; an era is 400 years.\<close>

definition year_day :: "int \<Rightarrow> int \<times> int" where
  "year_day doe =
     (let c = min 3 (doe div 36524); r = doe - c * 36524; r2 = r mod 1461; y1 = min 3 (r2 div 365)
      in (100 * c + 4 * (r div 1461) + y1, r2 - 365 * y1))"

definition civil :: "int \<Rightarrow> int \<times> int \<times> int" where
  "civil d =
     (let z = d + 719468; (yoe, doy) = year_day (z mod 146097);
          mp = (5 * doy + 2) div 153; m = (if mp < 10 then mp + 3 else mp - 9)
      in (yoe + 400 * (z div 146097) + (if m \<le> 2 then 1 else 0), m, doy - (153 * mp + 2) div 5 + 1))"

definition days_of :: "int \<Rightarrow> int \<Rightarrow> int \<Rightarrow> int" where
  "days_of y m d =
     (let y' = (if m \<le> 2 then y - 1 else y); yoe = y' mod 400
      in y' div 400 * 146097 + (yoe * 365 + yoe div 4 - yoe div 100 + (153 * ((m + 9) mod 12) + 2) div 5 + d - 1) - 719468)"

lemma year_day:
  assumes "0 \<le> doe" "doe < 146097" "year_day doe = (yoe, doy)"
  shows "0 \<le> yoe \<and> yoe < 400 \<and> 0 \<le> doy \<and> doy \<le> 365 \<and> yoe * 365 + yoe div 4 - yoe div 100 + doy = doe"
proof -
  define c r where "c = min 3 (doe div 36524)" and "r = doe - c * 36524"
  define q r2 where "q = r div 1461" and "r2 = r mod 1461"
  define y1 where "y1 = min 3 (r2 div 365)"
  have y: "yoe = 100 * c + 4 * q + y1" "doy = r2 - 365 * y1"
    using assms(3) by (simp_all add: year_day_def Let_def c_def r_def q_def r2_def y1_def)
  have c: "0 \<le> c" "c \<le> 3" "0 \<le> r" "r \<le> 36524" using assms(1,2) unfolding c_def r_def by linarith+
  have q: "0 \<le> q" "q \<le> 24" "0 \<le> r2" "r2 \<le> 1460" "r = 1461 * q + r2"
    using c unfolding q_def r2_def by (linarith | simp)+
  have y1: "0 \<le> y1" "y1 \<le> 3" "365 * y1 \<le> r2" "r2 \<le> 365 * y1 + 365" using q(3,4) unfolding y1_def by linarith+
  have "yoe div 4 = 25 * c + q" "yoe div 100 = c" using y1 q c y(1) by linarith+
  then show ?thesis using y1 q c y r_def by linarith
qed

lemma days_of_civil:
  assumes "civil d = (y, m, dd)"
  shows "days_of y m dd = d \<and> 1 \<le> m \<and> m \<le> 12 \<and> 1 \<le> dd \<and> dd \<le> 31 \<and>
    400 * ((d + 719468) div 146097) \<le> y \<and> y \<le> 400 * ((d + 719468) div 146097) + 400"
proof -
  define z where "z = d + 719468"
  obtain yoe doy where yd: "year_day (z mod 146097) = (yoe, doy)" by fastforce
  have b: "0 \<le> yoe \<and> yoe < 400 \<and> 0 \<le> doy \<and> doy \<le> 365 \<and> yoe * 365 + yoe div 4 - yoe div 100 + doy = z mod 146097"
    by (rule year_day [OF _ _ yd]) simp_all
  define mp where "mp = (5 * doy + 2) div 153"
  have mp: "0 \<le> mp" "mp \<le> 11" "(153 * mp + 2) div 5 \<le> doy" "doy - (153 * mp + 2) div 5 \<le> 30" using b unfolding mp_def by linarith+
  have e: "m = (if mp < 10 then mp + 3 else mp - 9)" "y = yoe + 400 * (z div 146097) + (if m \<le> 2 then 1 else 0)"
    "dd = doy - (153 * mp + 2) div 5 + 1"
    using assms yd by (auto simp: civil_def Let_def mp_def z_def)
  have m: "(m + 9) mod 12 = mp" using mp(1,2) e(1) by (cases "mp < 10") simp_all
  have y': "(if m \<le> 2 then y - 1 else y) = yoe + z div 146097 * 400" using e(2) by simp
  have yd: "(yoe + z div 146097 * 400) div 400 = z div 146097" "(yoe + z div 146097 * 400) mod 400 = yoe" using b by simp_all
  have "days_of y m dd = z div 146097 * 146097 + (z mod 146097) - 719468"
    unfolding days_of_def Let_def y' yd m using b e(3) by linarith
  then have "days_of y m dd = d" unfolding div_mult_mod_eq z_def by simp
  then show ?thesis using mp e b unfolding z_def by (auto split: if_splits)
qed

section \<open>The format\<close>

fun fixed :: "nat \<Rightarrow> int \<Rightarrow> string" where
  "fixed 0 n = ''''"
| "fixed (Suc k) n = fixed k (n div 10) @ [digit (nat (n mod 10))]"

definition year_str :: "int \<Rightarrow> string" where
  "year_str y = (if 0 \<le> y \<and> y \<le> 9999 then fixed 4 y else if y < 0 then ''-'' @ fixed 6 (- y) else ''+'' @ fixed 6 y)"

definition toISOString :: "int \<Rightarrow> string" where
  "toISOString t =
     (let (y, m, d) = civil (t div 86400000); ms = t mod 86400000
      in year_str y @ ''-'' @ fixed 2 m @ ''-'' @ fixed 2 d @ ''T'' @ fixed 2 (ms div 3600000) @ '':'' @
         fixed 2 (ms div 60000 mod 60) @ '':'' @ fixed 2 (ms div 1000 mod 60) @ ''.'' @ fixed 3 (ms mod 1000) @ ''Z'')"

definition field :: "nat \<Rightarrow> nat \<Rightarrow> string \<Rightarrow> int" where
  "field i k s = digits_val 10 0 (take k (drop i s))"

definition iso_value :: "string \<Rightarrow> int" where
  "iso_value s = days_of (field 0 4 s) (field 5 2 s) (field 8 2 s) * 86400000 + field 11 2 s * 3600000 +
     field 14 2 s * 60000 + field 17 2 s * 1000 + field 20 3 s"

text \<open>\<open>new Date(text).getTime()\<close>: a text in the format is read, any other goes to the implementation.\<close>

definition parse_date :: "(string \<Rightarrow> jsnum) \<Rightarrow> string \<Rightarrow> jsnum" where
  "parse_date other s = (if toISOString (iso_value s) = s then Fin (of_int (iso_value s)) else other s)"

text \<open>The times the round trip is stated for, up to the year 8307.\<close>

definition in_span :: "int \<Rightarrow> bool" where
  "in_span t \<longleftrightarrow> 0 \<le> t \<and> t < 200000000000000"

lemma length_fixed [simp]: "length (fixed k n) = k"
  by (induction k n rule: fixed.induct) simp_all

lemma digits_append: "digits_val b acc (xs @ [c]) = b * digits_val b acc xs + digits_val b 0 [c]"
  by (induction xs arbitrary: acc) simp_all

lemma digit_value: "0 \<le> d \<Longrightarrow> d < 10 \<Longrightarrow> digits_val 10 0 [digit (nat d)] = d"
proof -
  assume "0 \<le> d" "d < 10"
  then have "d = 0 \<or> d = 1 \<or> d = 2 \<or> d = 3 \<or> d = 4 \<or> d = 5 \<or> d = 6 \<or> d = 7 \<or> d = 8 \<or> d = 9" by arith
  then show ?thesis by (elim disjE) (hypsubst, code_simp)+
qed

lemma fixed_value: "0 \<le> n \<Longrightarrow> n < 10 ^ k \<Longrightarrow> digits_val 10 0 (fixed k n) = n"
proof (induction k n rule: fixed.induct)
  case (2 k n)
  then have "digits_val 10 0 (fixed k (n div 10)) = n div 10" by simp
  moreover have "digits_val 10 0 (fixed (Suc k) n) = 10 * digits_val 10 0 (fixed k (n div 10)) + n mod 10"
    by (simp only: fixed.simps digits_append digit_value pos_mod_sign pos_mod_bound zero_less_numeral)
  ultimately show ?case by simp
qed simp

lemma iso_fields:
  assumes "length a = 4" "length b = 2" "length c = 2" "length d = 2" "length e = 2" "length f = 2" "length g = 3"
    and "s = a @ ''-'' @ b @ ''-'' @ c @ ''T'' @ d @ '':'' @ e @ '':'' @ f @ ''.'' @ g @ ''Z''"
  shows "field 0 4 s = digits_val 10 0 a" "field 5 2 s = digits_val 10 0 b" "field 8 2 s = digits_val 10 0 c"
    "field 11 2 s = digits_val 10 0 d" "field 14 2 s = digits_val 10 0 e" "field 17 2 s = digits_val 10 0 f"
    "field 20 3 s = digits_val 10 0 g"
  using assms(1-7) unfolding field_def assms(8) by (simp_all add: drop_Cons' take_Cons')

lemma clock_fields:
  fixes ms :: int
  shows "ms div 3600000 * 3600000 + ms div 60000 mod 60 * 60000 + ms div 1000 mod 60 * 1000 + ms mod 1000 = ms"
proof -
  define a where "a = ms div 1000"
  have "ms div 60000 = a div 60" "ms div 3600000 = a div 60 div 60" by (simp_all add: a_def flip: zdiv_zmult2_eq)
  moreover have *: "c * 3600000 + m3 * 60000 + m2 * 1000 + m1 = x"
    if "a * 1000 + m1 = x" "b * 60 + m2 = a" "c * 60 + m3 = b" for a b c m1 m2 m3 x :: int
    using that by simp
  have "a div 60 div 60 * 3600000 + a div 60 mod 60 * 60000 + a mod 60 * 1000 + ms mod 1000 = ms"
    by (rule * [OF _ div_mult_mod_eq div_mult_mod_eq]) (simp only: a_def div_mult_mod_eq)
  ultimately show ?thesis by (simp only: a_def)
qed

lemma iso_value:
  assumes "in_span t"
  shows "iso_value (toISOString t) = t"
proof -
  define ms where "ms = t mod 86400000"
  obtain y m d where c: "civil (t div 86400000) = (y, m, d)" by (cases "civil (t div 86400000)") auto
  note days = days_of_civil [OF c]
  have "0 \<le> t div 86400000" "t div 86400000 < 2314815" using assms unfolding in_span_def by linarith+
  then have y: "0 \<le> y" "y \<le> 9999" using days by linarith+
  have b: "0 \<le> ms" "ms < 86400000" by (simp_all add: ms_def)
  let ?s = "toISOString t"
  have s: "?s = fixed 4 y @ ''-'' @ fixed 2 m @ ''-'' @ fixed 2 d @ ''T'' @ fixed 2 (ms div 3600000) @ '':'' @
         fixed 2 (ms div 60000 mod 60) @ '':'' @ fixed 2 (ms div 1000 mod 60) @ ''.'' @ fixed 3 (ms mod 1000) @ ''Z''"
    using y by (simp add: toISOString_def c year_str_def ms_def Let_def)
  have v: "digits_val 10 0 (fixed 4 y) = y" "digits_val 10 0 (fixed 2 m) = m" "digits_val 10 0 (fixed 2 d) = d"
    "digits_val 10 0 (fixed 2 (ms div 3600000)) = ms div 3600000" "digits_val 10 0 (fixed 2 (ms div 60000 mod 60)) = ms div 60000 mod 60"
    "digits_val 10 0 (fixed 2 (ms div 1000 mod 60)) = ms div 1000 mod 60" "digits_val 10 0 (fixed 3 (ms mod 1000)) = ms mod 1000"
    using y days b by (intro fixed_value; simp; linarith)+
  have "days_of y m d * 86400000 + ms = t" using days by (simp add: ms_def)
  then show ?thesis
    unfolding iso_value_def iso_fields [OF length_fixed length_fixed length_fixed length_fixed length_fixed length_fixed length_fixed s] v
    using clock_fields [of ms] by linarith
qed

lemma parse_iso [simp]: "in_span t \<Longrightarrow> parse_date other (toISOString t) = Fin (of_int t)"
  by (simp add: parse_date_def iso_value)

lemma iso_inj: "in_span t \<Longrightarrow> in_span u \<Longrightarrow> toISOString t = toISOString u \<longleftrightarrow> t = u"
  using iso_value by metis

lemma iso_sample: "toISOString 951827696789 = ''2000-02-29T12:34:56.789Z''"
  by code_simp

section \<open>The date of a time\<close>

lemma iso_date:
  assumes "in_span t" "civil (t div 86400000) = (y, m, d)"
  shows "take 10 (toISOString t) = fixed 4 y @ ''-'' @ fixed 2 m @ ''-'' @ fixed 2 d \<and>
    0 \<le> y \<and> y \<le> 9999 \<and> 0 \<le> m \<and> m < 100 \<and> 0 \<le> d \<and> d < 100"
proof -
  note days = days_of_civil [OF assms(2)]
  have "0 \<le> t div 86400000" "t div 86400000 < 2314815" using assms(1) unfolding in_span_def by linarith+
  then have "0 \<le> y" "y \<le> 9999" using days by linarith+
  then show ?thesis using days by (simp add: toISOString_def assms(2) year_str_def Let_def take_Cons')
qed

lemma fixed_inj: "fixed k a = fixed k b \<Longrightarrow> 0 \<le> a \<Longrightarrow> a < 10 ^ k \<Longrightarrow> 0 \<le> b \<Longrightarrow> b < 10 ^ k \<Longrightarrow> a = b"
  by (metis fixed_value)

text \<open>Two times have the same date exactly when they lie on the same day.\<close>

lemma iso_date_eq:
  assumes "in_span t" "in_span u"
  shows "take 10 (toISOString t) = take 10 (toISOString u) \<longleftrightarrow> t div 86400000 = u div 86400000"
proof
  assume eq: "take 10 (toISOString t) = take 10 (toISOString u)"
  obtain y m d where c: "civil (t div 86400000) = (y, m, d)" by (cases "civil (t div 86400000)") auto
  obtain y' m' d' where c': "civil (u div 86400000) = (y', m', d')" by (cases "civil (u div 86400000)") auto
  note a = iso_date [OF assms(1) c] and b = iso_date [OF assms(2) c']
  then have "fixed 4 y @ ''-'' @ fixed 2 m @ ''-'' @ fixed 2 d = fixed 4 y' @ ''-'' @ fixed 2 m' @ ''-'' @ fixed 2 d'"
    using eq by metis
  then have "fixed 4 y = fixed 4 y'" "fixed 2 m = fixed 2 m'" "fixed 2 d = fixed 2 d'"
    by simp_all
  then have "y = y'" "m = m'" "d = d'"
    using a b by (auto elim!: fixed_inj)
  then show "t div 86400000 = u div 86400000" using days_of_civil [OF c] days_of_civil [OF c'] by metis
next
  assume eq: "t div 86400000 = u div 86400000"
  obtain y m d where c: "civil (t div 86400000) = (y, m, d)" by (cases "civil (t div 86400000)") auto
  then show "take 10 (toISOString t) = take 10 (toISOString u)"
    using iso_date [OF assms(1) c] iso_date [OF assms(2) c [unfolded eq]] by simp
qed

end
