(* ===== verification/Guardrails.thy ===== *)
theory Guardrails
  imports ExecutionSettings JsDate
begin

text \<open>
  The state a bot keeps between its executions and the guardrails over it
  (apps/runner/src/execution/risk/guardrails.ts): the state is read from stored JSON, an intent is checked
  against the limits, and a confirmed execution is counted. Times are milliseconds, dates their ISO text.
\<close>

section \<open>The state\<close>

datatype pending_status = SubmitPending | Submitted | OpenOnVenue | PendingFillConfirmation | FailedFinal
datatype intent_kind = OpenKind | CloseKind

record pending_order =
  po_clientOrderId :: string
  po_exchangeOrderId :: "string option"
  po_status :: pending_status
  po_intentType :: intent_kind
  po_symbol :: string
  po_side :: "position_side option"
  po_orderType :: order_type
  po_qty :: "jsnum option"
  po_price :: "jsnum option"
  po_reduceOnly :: bool
  po_attemptSeq :: int
  po_createdAt :: string
  po_updatedAt :: string
  po_lastCheckedAt :: "string option"
  po_lastReason :: "string option"
  po_recoveryHint :: "string option"

record dca_state =
  dm_side :: position_side
  dm_entryCount :: int
  dm_lastEntryPrice :: "jsnum option"
  dm_lastEntryAt :: "string option"

record grid_state =
  gm_side :: position_side
  gm_anchorPrice :: "jsnum option"
  gm_lastEntryPrice :: "jsnum option"
  gm_filledLevels :: int
  gm_activeOrders :: int

record dip_state =
  rm_referenceHigh :: "jsnum option"
  rm_referenceLow :: "jsnum option"
  rm_entriesTodayDate :: string
  rm_entriesTodayCount :: int
  rm_openSince :: "string option"
  rm_side :: "position_side option"

text \<open>An object used as a map keeps the order in which its keys were first set.\<close>

record mode_state =
  ms_dailyExecutionDate :: string
  ms_dailyExecutionCount :: int
  ms_cooldownUntil :: "string option"
  ms_openPositionSymbols :: "string list"
  ms_normalOrderSeq :: int
  ms_pendingOrders :: "(string \<times> pending_order) list"
  ms_lastReconciliationAt :: "string option"
  ms_lastBlockedReason :: "string option"
  ms_lastRecoveryHint :: "string option"
  ms_dca :: "(string \<times> dca_state) list"
  ms_grid :: "(string \<times> grid_state) list"
  ms_dipReversion :: "(string \<times> dip_state) list"
  ms_updatedAt :: string

section \<open>Reading a stored state\<close>

definition toUtcDate :: "int \<Rightarrow> string" where
  "toUtcDate now = take 10 (toISOString now)"

text \<open>\<open>String(item ?? "").trim()\<close>, the first of each kept up to the limit.\<close>

fun collect_strings :: "nat \<Rightarrow> string list \<Rightarrow> jsval list \<Rightarrow> string list" where
  "collect_strings limit out [] = out"
| "collect_strings limit out (v # vs) =
     (let n = norm_string v
      in if n = '''' \<or> n \<in> set out then collect_strings limit out vs
         else if limit \<le> length out + 1 then out @ [n]
         else collect_strings limit (out @ [n]) vs)"

definition normalizeStringArray :: "jsval \<Rightarrow> nat \<Rightarrow> string list" where
  "normalizeStringArray v limit = (case as_array v of Some vs \<Rightarrow> collect_strings limit [] vs | None \<Rightarrow> [])"

text \<open>A non-blank string, trimmed, or nothing.\<close>

definition text_of :: "jsval \<Rightarrow> string option" where
  "text_of v = nonempty (trimmed v)"

definition read_pending_status :: "string \<Rightarrow> pending_status" where
  "read_pending_status s =
     (if s = ''submitted'' then Submitted else if s = ''open_on_venue'' then OpenOnVenue
      else if s = ''pending_fill_confirmation'' then PendingFillConfirmation else if s = ''failed_final'' then FailedFinal
      else SubmitPending)"

definition read_side :: "string \<Rightarrow> position_side option" where
  "read_side s = (if s = ''long'' then Some Long else if s = ''short'' then Some Short else None)"

definition normalize_pending :: "string \<Rightarrow> jsobj \<Rightarrow> pending_order" where
  "normalize_pending cid item =
     \<lparr> po_clientOrderId = cid, po_exchangeOrderId = text_of (get item ''exchangeOrderId''),
       po_status = read_pending_status (norm_string (get item ''status'')),
       po_intentType = (if norm_string (get item ''intentType'') = ''close'' then CloseKind else OpenKind),
       po_symbol = norm_string (get item ''symbol''), po_side = read_side (norm_string (get item ''side'')),
       po_orderType = (if norm_string (get item ''orderType'') = ''limit'' then Limit else Market),
       po_qty = toNumber (get item ''qty''), po_price = toNumber (get item ''price''),
       po_reduceOnly = (get item ''reduceOnly'' = JBool True),
       po_attemptSeq = bounded_int 1 100000 (get item ''attemptSeq'') 1,
       po_createdAt = opt_get (text_of (get item ''createdAt'')) (toISOString 0),
       po_updatedAt = opt_get (text_of (get item ''updatedAt'')) (toISOString 0),
       po_lastCheckedAt = text_of (get item ''lastCheckedAt''), po_lastReason = text_of (get item ''lastReason''),
       po_recoveryHint = text_of (get item ''recoveryHint'') \<rparr>"

text \<open>Setting a key keeps the place of a key that is there.\<close>

fun put :: "string \<Rightarrow> 'a \<Rightarrow> (string \<times> 'a) list \<Rightarrow> (string \<times> 'a) list" where
  "put k v [] = [(k, v)]"
| "put k v ((k', v') # kvs) = (if k = k' then (k, v) # kvs else (k', v') # put k v kvs)"

definition pending_id :: "string \<Rightarrow> jsobj \<Rightarrow> string" where
  "pending_id key item = norm_string (coalesce (get item ''clientOrderId'') (JStr key))"

fun add_pending :: "(string \<times> pending_order) list \<Rightarrow> jsobj \<Rightarrow> (string \<times> pending_order) list" where
  "add_pending out [] = out"
| "add_pending out ((key, raw) # rows) =
     (case as_object raw of
        None \<Rightarrow> add_pending out rows
      | Some item \<Rightarrow>
          (let cid = pending_id key item
           in if cid = '''' then add_pending out rows else add_pending (put cid (normalize_pending cid item) out) rows))"

definition normalizePendingOrders :: "jsval \<Rightarrow> (string \<times> pending_order) list" where
  "normalizePendingOrders v = (case as_object v of Some row \<Rightarrow> add_pending [] row | None \<Rightarrow> [])"

text \<open>The entries of a mode, read one by one; a row that gives nothing is left out.\<close>

fun collect_rows :: "(jsobj \<Rightarrow> 'a option) \<Rightarrow> jsobj \<Rightarrow> (string \<times> 'a) list" where
  "collect_rows f [] = []"
| "collect_rows f ((key, raw) # rows) =
     (case as_object raw of
        None \<Rightarrow> collect_rows f rows
      | Some item \<Rightarrow> (case f item of None \<Rightarrow> collect_rows f rows | Some x \<Rightarrow> (key, x) # collect_rows f rows))"

definition read_rows :: "(jsobj \<Rightarrow> 'a option) \<Rightarrow> jsval \<Rightarrow> (string \<times> 'a) list" where
  "read_rows f v = (case as_object v of Some row \<Rightarrow> collect_rows f row | None \<Rightarrow> [])"

definition normalize_dca :: "jsobj \<Rightarrow> dca_state option" where
  "normalize_dca item =
     (case read_side (norm_lower (get item ''side'')) of
        None \<Rightarrow> None
      | Some side \<Rightarrow> Some \<lparr> dm_side = side, dm_entryCount = bounded_int 0 1000 (get item ''entryCount'') 0,
          dm_lastEntryPrice = toNumber (get item ''lastEntryPrice''), dm_lastEntryAt = text_of (get item ''lastEntryAt'') \<rparr>)"

definition normalize_grid :: "jsobj \<Rightarrow> grid_state option" where
  "normalize_grid item =
     (case read_side (norm_lower (get item ''side'')) of
        None \<Rightarrow> None
      | Some side \<Rightarrow> Some \<lparr> gm_side = side, gm_anchorPrice = toNumber (get item ''anchorPrice''),
          gm_lastEntryPrice = toNumber (get item ''lastEntryPrice''),
          gm_filledLevels = bounded_int 0 1000 (get item ''filledLevels'') 0,
          gm_activeOrders = bounded_int 0 5000 (get item ''activeOrders'') 0 \<rparr>)"

definition normalize_dip :: "int \<Rightarrow> jsobj \<Rightarrow> dip_state option" where
  "normalize_dip now item =
     Some \<lparr> rm_referenceHigh = toNumber (get item ''referenceHigh''), rm_referenceLow = toNumber (get item ''referenceLow''),
       rm_entriesTodayDate = opt_get (text_of (get item ''entriesTodayDate'')) (toUtcDate now),
       rm_entriesTodayCount = bounded_int 0 1000 (get item ''entriesTodayCount'') 0,
       rm_openSince = text_of (get item ''openSince''), rm_side = read_side (norm_lower (get item ''side'')) \<rparr>"

definition normalizeExecutionModeState :: "jsval \<Rightarrow> int \<Rightarrow> mode_state" where
  "normalizeExecutionModeState v now =
     (let row = opt_get (as_object v) []; today = toUtcDate now;
          date = opt_get (text_of (get row ''dailyExecutionDate'')) today;
          modes = opt_get (as_object (get row ''modes'')) []
      in \<lparr> ms_dailyExecutionDate = date,
           ms_dailyExecutionCount = (if date = today then bounded_int 0 100000 (get row ''dailyExecutionCount'') 0 else 0),
           ms_cooldownUntil = text_of (get row ''cooldownUntil''),
           ms_openPositionSymbols = normalizeStringArray (get row ''openPositionSymbols'') 256,
           ms_normalOrderSeq = bounded_int 1 1000000 (get row ''normalOrderSeq'') 1,
           ms_pendingOrders = normalizePendingOrders (get row ''pendingOrders''),
           ms_lastReconciliationAt = text_of (get row ''lastReconciliationAt''),
           ms_lastBlockedReason = text_of (get row ''lastBlockedReason''),
           ms_lastRecoveryHint = text_of (get row ''lastRecoveryHint''),
           ms_dca = read_rows normalize_dca (get modes ''dca''), ms_grid = read_rows normalize_grid (get modes ''grid''),
           ms_dipReversion = read_rows (normalize_dip now) (get modes ''dipReversion''),
           ms_updatedAt = opt_get (text_of (get row ''updatedAt'')) (toISOString now) \<rparr>)"

section \<open>The guardrails\<close>

definition ensureDailyState :: "mode_state \<Rightarrow> int \<Rightarrow> mode_state" where
  "ensureDailyState s now =
     (if ms_dailyExecutionDate s = toUtcDate now then s
      else s\<lparr> ms_dailyExecutionDate := toUtcDate now, ms_dailyExecutionCount := 0, ms_updatedAt := toISOString now \<rparr>)"

definition finite_opt :: "jsnum option \<Rightarrow> jsnum option" where
  "finite_opt n = (case n of Some x \<Rightarrow> if is_finite x then Some x else None | None \<Rightarrow> None)"

definition positive_num :: "jsnum option \<Rightarrow> jsnum option" where
  "positive_num n = (case finite_opt n of Some x \<Rightarrow> if n_lt (Fin 0) x then Some x else None | None \<Rightarrow> None)"

definition estimateIntentNotionalUsd :: "trade_intent \<Rightarrow> jsnum option" where
  "estimateIntentNotionalUsd i =
     (case i of
        OpenIntent _ _ order \<Rightarrow>
          (let od = opt_get order no_params
           in case positive_num (op_desiredNotionalUsd od) of
                Some d \<Rightarrow> Some d
              | None \<Rightarrow>
                  (case (positive_num (op_qty od), positive_num (opt_or (op_markPrice od) (op_price od))) of
                     (Some q, Some p) \<Rightarrow> Some (n_mul (n_abs q) p)
                   | _ \<Rightarrow> None))
      | _ \<Rightarrow> None)"

definition enforceCloseReduceOnly :: "trade_intent \<Rightarrow> trade_intent" where
  "enforceCloseReduceOnly i =
     (case i of
        CloseIntent s order \<Rightarrow>
          (let od = opt_get order no_params
           in if op_reduceOnly od = Some True then i else CloseIntent s (Some (od\<lparr> op_reduceOnly := Some True \<rparr>)))
      | _ \<Rightarrow> i)"

definition applyCommonIntentSafety :: "trade_intent \<Rightarrow> common_config \<Rightarrow> trade_intent" where
  "applyCommonIntentSafety i c = (if ec_enforceReduceOnlyOnClose c then enforceCloseReduceOnly i else i)"

text \<open>The answer: the state after the daily reset, and the reason and metadata of a refusal.\<close>

record guard_answer =
  ga_allow :: bool
  ga_reason :: "string option"
  ga_state :: mode_state
  ga_meta :: jsobj

definition int_val :: "int \<Rightarrow> jsval" where
  "int_val i = JNum (Fin (of_int i))"

definition cooldown_left :: "(string \<Rightarrow> jsnum) \<Rightarrow> mode_state \<Rightarrow> int \<Rightarrow> (string \<times> jsnum) option" where
  "cooldown_left other s now =
     (case ms_cooldownUntil s of
        None \<Rightarrow> None
      | Some u \<Rightarrow>
          (let ms = parse_date other u
           in if u \<noteq> '''' \<and> is_finite ms \<and> n_lt (Fin (of_int now)) ms then Some (u, n_sub ms (Fin (of_int now))) else None))"

definition over_limit :: "jsnum option \<Rightarrow> jsnum option \<Rightarrow> bool" where
  "over_limit est limit = (case (est, limit) of (Some e, Some l) \<Rightarrow> n_lt l e | _ \<Rightarrow> False)"

definition num_val :: "jsnum option \<Rightarrow> jsval" where
  "num_val n = (case n of Some x \<Rightarrow> JNum x | None \<Rightarrow> JNull)"

definition refuse :: "mode_state \<Rightarrow> string \<Rightarrow> jsobj \<Rightarrow> guard_answer" where
  "refuse s reason meta = \<lparr> ga_allow = False, ga_reason = Some reason, ga_state = s, ga_meta = meta \<rparr>"

definition projected :: "mode_state \<Rightarrow> string \<Rightarrow> int" where
  "projected s symbol =
     (if symbol \<in> set (ms_openPositionSymbols s) then int (length (ms_openPositionSymbols s))
      else int (length (ms_openPositionSymbols s)) + 1)"

text \<open>The checks of an intent that opens a position.\<close>

definition open_refusal :: "common_config \<Rightarrow> mode_state \<Rightarrow> trade_intent \<Rightarrow> (string \<times> jsobj) option" where
  "open_refusal c s i =
     (case i of
        OpenIntent symbol _ _ \<Rightarrow>
          (let est = estimateIntentNotionalUsd i
           in if ec_maxOpenPositions c < projected s symbol
              then Some (''execution_guard_max_open_positions_reached'',
                [(''currentOpenPositions'', int_val (int (length (ms_openPositionSymbols s)))),
                 (''projectedOpenPositions'', int_val (projected s symbol)),
                 (''maxOpenPositions'', int_val (ec_maxOpenPositions c)), (''symbol'', JStr symbol)])
              else if over_limit est (ec_maxNotionalPerSymbolUsd c)
              then Some (''execution_guard_symbol_notional_limit'',
                [(''estimatedNotional'', num_val est), (''maxNotionalPerSymbolUsd'', num_val (ec_maxNotionalPerSymbolUsd c)),
                 (''symbol'', JStr symbol)])
              else if over_limit est (ec_maxTotalNotionalUsd c)
              then Some (''execution_guard_total_notional_limit'',
                [(''estimatedNotional'', num_val est), (''maxTotalNotionalUsd'', num_val (ec_maxTotalNotionalUsd c)),
                 (''symbol'', JStr symbol)])
              else None)
      | _ \<Rightarrow> None)"

definition evaluateExecutionGuardrails ::
  "(string \<Rightarrow> jsnum) \<Rightarrow> trade_intent \<Rightarrow> common_config \<Rightarrow> mode_state \<Rightarrow> int \<Rightarrow> guard_answer" where
  "evaluateExecutionGuardrails other i c s0 now =
     (let s = ensureDailyState s0 now
      in case cooldown_left other s now of
           Some (u, left) \<Rightarrow>
             refuse s ''execution_guard_cooldown_active'' [(''cooldownUntil'', JStr u), (''remainingMs'', JNum left)]
         | None \<Rightarrow>
             (case open_refusal c s i of
                Some (reason, meta) \<Rightarrow> refuse s reason meta
              | None \<Rightarrow>
                  if ec_maxDailyExecutions c \<le> ms_dailyExecutionCount s
                  then refuse s ''execution_guard_max_daily_executions_reached''
                    [(''dailyExecutionCount'', int_val (ms_dailyExecutionCount s)),
                     (''maxDailyExecutions'', int_val (ec_maxDailyExecutions c))]
                  else \<lparr> ga_allow = True, ga_reason = None, ga_state = s, ga_meta = [] \<rparr>))"

text \<open>\<open>splice\<close> removes the first occurrence. Only intents that open or close get here.\<close>

definition next_symbols :: "trade_intent \<Rightarrow> string list \<Rightarrow> string list" where
  "next_symbols i xs =
     (case i of
        OpenIntent symbol _ _ \<Rightarrow> if symbol \<in> set xs then xs else xs @ [symbol]
      | CloseIntent symbol _ \<Rightarrow> remove1 symbol xs
      | NoIntent \<Rightarrow> xs)"

definition applyExecutionSuccessToState :: "trade_intent \<Rightarrow> common_config \<Rightarrow> mode_state \<Rightarrow> int \<Rightarrow> mode_state" where
  "applyExecutionSuccessToState i c s0 now =
     (let s = ensureDailyState s0 now; cooldown = max 0 (ec_cooldownSecAfterExecution c)
      in s\<lparr> ms_dailyExecutionDate := toUtcDate now, ms_dailyExecutionCount := ms_dailyExecutionCount s + 1,
            ms_cooldownUntil := (if 0 < cooldown then Some (toISOString (now + cooldown * 1000)) else None),
            ms_openPositionSymbols := next_symbols i (ms_openPositionSymbols s), ms_updatedAt := toISOString now \<rparr>)"

section \<open>The stored form\<close>

text \<open>The state is a plain object, and its JSON is what the database keeps.\<close>

fun pending_status_str :: "pending_status \<Rightarrow> string" where
  "pending_status_str SubmitPending = ''submit_pending''"
| "pending_status_str Submitted = ''submitted''"
| "pending_status_str OpenOnVenue = ''open_on_venue''"
| "pending_status_str PendingFillConfirmation = ''pending_fill_confirmation''"
| "pending_status_str FailedFinal = ''failed_final''"

fun intent_kind_str :: "intent_kind \<Rightarrow> string" where
  "intent_kind_str OpenKind = ''open''"
| "intent_kind_str CloseKind = ''close''"

fun side_str :: "position_side \<Rightarrow> string" where
  "side_str Long = ''long''"
| "side_str Short = ''short''"

fun type_str :: "order_type \<Rightarrow> string" where
  "type_str Market = ''market''"
| "type_str Limit = ''limit''"

definition pending_json :: "pending_order \<Rightarrow> jsval" where
  "pending_json p = JObj
     [(''clientOrderId'', JStr (po_clientOrderId p)), (''exchangeOrderId'', opt_val (po_exchangeOrderId p)),
      (''status'', JStr (pending_status_str (po_status p))), (''intentType'', JStr (intent_kind_str (po_intentType p))),
      (''symbol'', JStr (po_symbol p)), (''side'', opt_val (map_option side_str (po_side p))),
      (''orderType'', JStr (type_str (po_orderType p))), (''qty'', num_val (po_qty p)), (''price'', num_val (po_price p)),
      (''reduceOnly'', JBool (po_reduceOnly p)), (''attemptSeq'', int_val (po_attemptSeq p)),
      (''createdAt'', JStr (po_createdAt p)), (''updatedAt'', JStr (po_updatedAt p)),
      (''lastCheckedAt'', opt_val (po_lastCheckedAt p)), (''lastReason'', opt_val (po_lastReason p)),
      (''recoveryHint'', opt_val (po_recoveryHint p))]"

definition dca_json :: "dca_state \<Rightarrow> jsval" where
  "dca_json m = JObj
     [(''side'', JStr (side_str (dm_side m))), (''entryCount'', int_val (dm_entryCount m)),
      (''lastEntryPrice'', num_val (dm_lastEntryPrice m)), (''lastEntryAt'', opt_val (dm_lastEntryAt m))]"

definition grid_json :: "grid_state \<Rightarrow> jsval" where
  "grid_json m = JObj
     [(''side'', JStr (side_str (gm_side m))), (''anchorPrice'', num_val (gm_anchorPrice m)),
      (''lastEntryPrice'', num_val (gm_lastEntryPrice m)), (''filledLevels'', int_val (gm_filledLevels m)),
      (''activeOrders'', int_val (gm_activeOrders m))]"

definition dip_json :: "dip_state \<Rightarrow> jsval" where
  "dip_json m = JObj
     [(''referenceHigh'', num_val (rm_referenceHigh m)), (''referenceLow'', num_val (rm_referenceLow m)),
      (''entriesTodayDate'', JStr (rm_entriesTodayDate m)), (''entriesTodayCount'', int_val (rm_entriesTodayCount m)),
      (''openSince'', opt_val (rm_openSince m)), (''side'', opt_val (map_option side_str (rm_side m)))]"

definition map_json :: "('a \<Rightarrow> jsval) \<Rightarrow> (string \<times> 'a) list \<Rightarrow> jsval" where
  "map_json f kvs = JObj (map (\<lambda>(k, v). (k, f v)) kvs)"

definition state_json :: "mode_state \<Rightarrow> jsval" where
  "state_json s = JObj
     [(''version'', int_val 1), (''dailyExecutionDate'', JStr (ms_dailyExecutionDate s)),
      (''dailyExecutionCount'', int_val (ms_dailyExecutionCount s)), (''cooldownUntil'', opt_val (ms_cooldownUntil s)),
      (''openPositionSymbols'', JArr (map JStr (ms_openPositionSymbols s))), (''normalOrderSeq'', int_val (ms_normalOrderSeq s)),
      (''pendingOrders'', map_json pending_json (ms_pendingOrders s)),
      (''lastReconciliationAt'', opt_val (ms_lastReconciliationAt s)), (''lastBlockedReason'', opt_val (ms_lastBlockedReason s)),
      (''lastRecoveryHint'', opt_val (ms_lastRecoveryHint s)),
      (''modes'', JObj [(''dca'', map_json dca_json (ms_dca s)), (''grid'', map_json grid_json (ms_grid s)),
        (''dipReversion'', map_json dip_json (ms_dipReversion s))]),
      (''updatedAt'', JStr (ms_updatedAt s))]"

section \<open>Well-formed states\<close>

definition text_ok :: "string \<Rightarrow> bool" where
  "text_ok s \<longleftrightarrow> s \<noteq> '''' \<and> str_trim s = s"

definition opt_ok :: "('a \<Rightarrow> bool) \<Rightarrow> 'a option \<Rightarrow> bool" where
  "opt_ok P x \<longleftrightarrow> (case x of Some y \<Rightarrow> P y | None \<Rightarrow> True)"

definition pending_ok :: "string \<times> pending_order \<Rightarrow> bool" where
  "pending_ok kp \<longleftrightarrow> (case kp of (k, p) \<Rightarrow>
     po_clientOrderId p = k \<and> text_ok k \<and> opt_ok text_ok (po_exchangeOrderId p) \<and> str_trim (po_symbol p) = po_symbol p \<and>
     opt_ok is_finite (po_qty p) \<and> opt_ok is_finite (po_price p) \<and> 1 \<le> po_attemptSeq p \<and> po_attemptSeq p \<le> 100000 \<and>
     text_ok (po_createdAt p) \<and> text_ok (po_updatedAt p) \<and> opt_ok text_ok (po_lastCheckedAt p) \<and>
     opt_ok text_ok (po_lastReason p) \<and> opt_ok text_ok (po_recoveryHint p))"

definition dca_ok :: "dca_state \<Rightarrow> bool" where
  "dca_ok m \<longleftrightarrow> 0 \<le> dm_entryCount m \<and> dm_entryCount m \<le> 1000 \<and> opt_ok is_finite (dm_lastEntryPrice m) \<and> opt_ok text_ok (dm_lastEntryAt m)"

definition grid_ok :: "grid_state \<Rightarrow> bool" where
  "grid_ok m \<longleftrightarrow> opt_ok is_finite (gm_anchorPrice m) \<and> opt_ok is_finite (gm_lastEntryPrice m) \<and>
     0 \<le> gm_filledLevels m \<and> gm_filledLevels m \<le> 1000 \<and> 0 \<le> gm_activeOrders m \<and> gm_activeOrders m \<le> 5000"

definition dip_ok :: "dip_state \<Rightarrow> bool" where
  "dip_ok m \<longleftrightarrow> opt_ok is_finite (rm_referenceHigh m) \<and> opt_ok is_finite (rm_referenceLow m) \<and> text_ok (rm_entriesTodayDate m) \<and>
     0 \<le> rm_entriesTodayCount m \<and> rm_entriesTodayCount m \<le> 1000 \<and> opt_ok text_ok (rm_openSince m)"

definition state_ok :: "mode_state \<Rightarrow> bool" where
  "state_ok s \<longleftrightarrow>
     text_ok (ms_dailyExecutionDate s) \<and> 0 \<le> ms_dailyExecutionCount s \<and> ms_dailyExecutionCount s \<le> 100000 \<and>
     opt_ok text_ok (ms_cooldownUntil s) \<and> list_all text_ok (ms_openPositionSymbols s) \<and> distinct (ms_openPositionSymbols s) \<and>
     length (ms_openPositionSymbols s) \<le> 256 \<and> 1 \<le> ms_normalOrderSeq s \<and> ms_normalOrderSeq s \<le> 1000000 \<and>
     list_all pending_ok (ms_pendingOrders s) \<and> distinct (map fst (ms_pendingOrders s)) \<and>
     opt_ok text_ok (ms_lastReconciliationAt s) \<and> opt_ok text_ok (ms_lastBlockedReason s) \<and>
     opt_ok text_ok (ms_lastRecoveryHint s) \<and> list_all (dca_ok \<circ> snd) (ms_dca s) \<and> list_all (grid_ok \<circ> snd) (ms_grid s) \<and>
     list_all (dip_ok \<circ> snd) (ms_dipReversion s) \<and> text_ok (ms_updatedAt s)"

subsection \<open>What is read is well formed\<close>

lemma text_of_ok [simp]: "opt_ok text_ok (text_of v)"
  by (simp add: opt_ok_def text_of_def text_ok_def trimmed_def nonempty_def)

lemma opt_ok_get: "opt_ok P x \<Longrightarrow> P d \<Longrightarrow> P (opt_get x d)"
  by (simp add: opt_ok_def opt_get_def split: option.splits)

lemma toNumber_ok [simp]: "opt_ok is_finite (toNumber v)"
  by (cases v) (simp_all add: opt_ok_def)

lemma digit_not_ws: "d < 10 \<Longrightarrow> \<not> is_ws (digit d)"
  by (auto simp: is_ws_code digit_def code_char_of)

lemma fixed_not_ws: "c \<in> set (fixed k n) \<Longrightarrow> \<not> is_ws c"
  by (induction k n rule: fixed.induct) (auto simp: digit_not_ws nat_less_iff)

lemma trim_no_ws: "\<forall>c\<in>set s. \<not> is_ws c \<Longrightarrow> str_trim s = s"
proof -
  assume "\<forall>c\<in>set s. \<not> is_ws c"
  moreover have dw: "\<forall>c\<in>set t. \<not> is_ws c \<Longrightarrow> dropWhile is_ws t = t" for t by (cases t) simp_all
  ultimately show ?thesis using dw [of s] dw [of "rev s"] by (simp add: str_trim_def)
qed

lemma iso_marks: "\<not> is_ws CHR ''-''" "\<not> is_ws CHR ''+''" "\<not> is_ws CHR ''T''" "\<not> is_ws CHR '':''" "\<not> is_ws CHR ''.''" "\<not> is_ws CHR ''Z''"
  by code_simp+

lemma year_not_ws: "c \<in> set (year_str y) \<Longrightarrow> \<not> is_ws c"
  by (auto simp: year_str_def fixed_not_ws iso_marks split: if_splits)

lemma iso_not_ws: "c \<in> set (toISOString t) \<Longrightarrow> \<not> is_ws c"
  by (auto simp: toISOString_def Let_def fixed_not_ws year_not_ws iso_marks split: prod.splits)

lemma iso_ok [simp]: "text_ok (toISOString t)"
  by (auto simp: text_ok_def iso_not_ws intro!: trim_no_ws) (simp add: toISOString_def Let_def split: prod.splits)

lemma utc_date_ok [simp]: "text_ok (toUtcDate t)"
proof -
  have "toISOString t \<noteq> ''''" using iso_ok [of t] by (simp add: text_ok_def)
  then show ?thesis using iso_not_ws [of _ t]
    by (auto simp: toUtcDate_def text_ok_def dest: in_set_takeD intro!: trim_no_ws)
qed

lemma collect_strings_ok:
  "list_all text_ok out \<Longrightarrow> distinct out \<Longrightarrow> length out < limit \<Longrightarrow>
   list_all text_ok (collect_strings limit out vs) \<and> distinct (collect_strings limit out vs) \<and> length (collect_strings limit out vs) \<le> limit"
  by (induction limit out vs rule: collect_strings.induct) (auto simp: Let_def text_ok_def)

lemma symbols_ok:
  "list_all text_ok (normalizeStringArray v 256)" "distinct (normalizeStringArray v 256)" "length (normalizeStringArray v 256) \<le> 256"
  using collect_strings_ok [of "[]" 256] by (auto simp: normalizeStringArray_def split: option.split)

lemma put_keys [simp]: "fst ` set (put k v kvs) = insert k (fst ` set kvs)"
  by (induction k v kvs rule: put.induct) auto

lemma put_distinct: "distinct (map fst kvs) \<Longrightarrow> distinct (map fst (put k v kvs))"
  by (induction k v kvs rule: put.induct) auto

lemma put_all: "list_all P kvs \<Longrightarrow> P (k, v) \<Longrightarrow> list_all P (put k v kvs)"
  by (induction k v kvs rule: put.induct) auto

lemma pending_id_ok: "pending_id key item \<noteq> '''' \<Longrightarrow> text_ok (pending_id key item)"
  by (simp add: pending_id_def text_ok_def)

lemma normalize_pending_ok: "text_ok cid \<Longrightarrow> pending_ok (cid, normalize_pending cid item)"
  using bounded_int [of 1 100000] by (simp add: pending_ok_def normalize_pending_def opt_ok_get)

lemma add_pending_ok:
  "list_all pending_ok out \<Longrightarrow> distinct (map fst out) \<Longrightarrow>
   list_all pending_ok (add_pending out rows) \<and> distinct (map fst (add_pending out rows))"
  by (induction out rows rule: add_pending.induct)
    (auto simp: Let_def put_all put_distinct normalize_pending_ok pending_id_ok split: option.split)

lemma pendings_ok: "list_all pending_ok (normalizePendingOrders v)" "distinct (map fst (normalizePendingOrders v))"
  using add_pending_ok [of "[]"] by (auto simp: normalizePendingOrders_def split: option.split)

lemma collect_rows_ok: "(\<And>item x. f item = Some x \<Longrightarrow> P x) \<Longrightarrow> list_all (P \<circ> snd) (collect_rows f rows)"
  by (induction f rows rule: collect_rows.induct) (auto split: option.split)

lemma read_rows_ok: "(\<And>item x. f item = Some x \<Longrightarrow> P x) \<Longrightarrow> list_all (P \<circ> snd) (read_rows f v)"
  by (simp add: read_rows_def collect_rows_ok split: option.split)

lemma normalize_state_ok: "state_ok (normalizeExecutionModeState v now)"
proof -
  have "list_all (dca_ok \<circ> snd) (read_rows normalize_dca w)" for w
    by (rule read_rows_ok) (auto simp: normalize_dca_def dca_ok_def bounded_int split: option.splits)
  moreover have "list_all (grid_ok \<circ> snd) (read_rows normalize_grid w)" for w
    by (rule read_rows_ok) (auto simp: normalize_grid_def grid_ok_def bounded_int split: option.splits)
  moreover have "list_all (dip_ok \<circ> snd) (read_rows (normalize_dip now) w)" for w
    by (rule read_rows_ok) (auto simp: normalize_dip_def dip_ok_def bounded_int opt_ok_get)
  ultimately show ?thesis
    unfolding state_ok_def normalizeExecutionModeState_def Let_def
    by (simp add: symbols_ok pendings_ok bounded_int opt_ok_get)
qed

subsection \<open>What is stored is read back\<close>

lemma text_of_str [simp]: "text_ok s \<Longrightarrow> text_of (JStr s) = Some s"
  by (simp add: text_of_def trimmed_def text_ok_def opt_get_def)

lemma text_of_opt [simp]: "opt_ok text_ok x \<Longrightarrow> text_of (opt_val x) = x"
  by (cases x) (simp_all add: opt_ok_def opt_val_def text_of_def trimmed_def opt_get_def text_ok_def str_trim_def)

lemma toNumber_val [simp]: "opt_ok is_finite x \<Longrightarrow> toNumber (num_val x) = x"
  by (cases x) (simp_all add: opt_ok_def num_val_def)

lemma bounded_int_val [simp]: "lo \<le> i \<Longrightarrow> i \<le> hi \<Longrightarrow> bounded_int lo hi (int_val i) d = i"
  by (simp add: bounded_int_def toInt_def int_val_def opt_get_def)

lemma status_text [simp]: "str_trim (pending_status_str st) = pending_status_str st"
  by (cases st; hypsubst; code_simp)

lemma kind_text [simp]: "str_trim (intent_kind_str ik) = intent_kind_str ik"
  by (cases ik; hypsubst; code_simp)

lemma side_text [simp]: "str_trim (side_str sd) = side_str sd" "str_lower (side_str sd) = side_str sd"
  by (cases sd; hypsubst; code_simp)+

lemma type_text [simp]: "str_trim (type_str ty) = type_str ty"
  by (cases ty; hypsubst; code_simp)

lemma read_status [simp]: "read_pending_status (pending_status_str st) = st"
  by (cases st) (simp_all add: read_pending_status_def)

lemma read_kind [simp]: "(if intent_kind_str ik = ''close'' then CloseKind else OpenKind) = ik"
  by (cases ik) simp_all

lemma read_type [simp]: "(if type_str ty = ''limit'' then Limit else Market) = ty"
  by (cases ty) simp_all

lemma read_side_str [simp]: "read_side (side_str sd) = Some sd"
  by (cases sd) (simp_all add: read_side_def)

lemma read_side_none [simp]: "read_side '''' = None"
  by (simp add: read_side_def)

lemma read_side_opt [simp]:
  "read_side (norm_string (opt_val (map_option side_str x))) = x" "read_side (norm_lower (opt_val (map_option side_str x))) = x"
  by (cases x; simp add: opt_val_def norm_lower_str)+

lemma opt_get_Some [simp]: "opt_get (Some x) d = x"
  by (simp add: opt_get_def)

lemma pending_roundtrip:
  assumes "pending_ok (k, p)"
  shows "\<exists>item. pending_json p = JObj item \<and> pending_id k item = k \<and> normalize_pending k item = p"
proof -
  obtain item where i: "pending_json p = JObj item" by (simp add: pending_json_def)
  note ok = assms [unfolded pending_ok_def prod.case]
  have "pending_id k item = k"
    using ok i [symmetric] unfolding pending_json_def pending_id_def by (simp add: coalesce_def text_ok_def)
  moreover have "normalize_pending k item = p"
    using ok i [symmetric] unfolding pending_json_def normalize_pending_def
    by (intro pending_order.equality) simp_all
  ultimately show ?thesis using i by blast
qed

lemma put_new: "k \<notin> set (map fst kvs) \<Longrightarrow> put k v kvs = kvs @ [(k, v)]"
  by (induction k v kvs rule: put.induct) auto

lemma add_pending_back:
  "list_all pending_ok kvs \<Longrightarrow> distinct (map fst (out @ kvs)) \<Longrightarrow>
   add_pending out (map (\<lambda>(k, v). (k, pending_json v)) kvs) = out @ kvs"
proof (induction kvs arbitrary: out)
  case (Cons kv kvs)
  obtain k p where kv: "kv = (k, p)" by fastforce
  then obtain item where i: "pending_json p = JObj item" "pending_id k item = k" "normalize_pending k item = p"
    using pending_roundtrip [of k p] Cons.prems(1) by auto
  moreover have "k \<noteq> ''''" using Cons.prems(1) kv by (simp add: pending_ok_def text_ok_def)
  moreover have "put k p out = out @ [(k, p)]" using Cons.prems(2) kv by (intro put_new) auto
  moreover have "add_pending (out @ [(k, p)]) (map (\<lambda>(k, v). (k, pending_json v)) kvs) = (out @ [(k, p)]) @ kvs"
    using Cons.prems kv by (intro Cons.IH) auto
  ultimately show ?case by (simp add: kv)
qed simp

lemma collect_rows_back:
  "list_all (P \<circ> snd) kvs \<Longrightarrow> (\<And>x. P x \<Longrightarrow> \<exists>item. enc x = JObj item \<and> f item = Some x) \<Longrightarrow>
   collect_rows f (map (\<lambda>(k, v). (k, enc v)) kvs) = kvs"
proof (induction kvs)
  case (Cons kv kvs)
  then obtain item where "enc (snd kv) = JObj item" "f item = Some (snd kv)" by fastforce
  then show ?case using Cons by (cases kv) simp
qed simp

lemma rows_back:
  "list_all (dca_ok \<circ> snd) ds \<Longrightarrow> read_rows normalize_dca (map_json dca_json ds) = ds"
  "list_all (grid_ok \<circ> snd) gs \<Longrightarrow> read_rows normalize_grid (map_json grid_json gs) = gs"
  "list_all (dip_ok \<circ> snd) rs \<Longrightarrow> read_rows (normalize_dip now) (map_json dip_json rs) = rs"
  unfolding read_rows_def map_json_def
  by (simp_all, (rule collect_rows_back, assumption,
    auto simp: dca_json_def normalize_dca_def dca_ok_def grid_json_def normalize_grid_def grid_ok_def
      dip_json_def normalize_dip_def dip_ok_def norm_lower_str)+)

lemma collect_strings_back:
  "list_all text_ok xs \<Longrightarrow> distinct (out @ xs) \<Longrightarrow> length (out @ xs) \<le> limit \<Longrightarrow>
   collect_strings limit out (map JStr xs) = out @ xs"
proof (induction xs arbitrary: out)
  case (Cons x xs)
  have x: "x \<noteq> ''''" "str_trim x = x" "x \<notin> set out" using Cons.prems by (auto simp: text_ok_def)
  show ?case
  proof (cases "limit \<le> length out + 1")
    case True
    then have "xs = []" using Cons.prems(3) by (cases xs) simp_all
    then show ?thesis using x True by (simp add: Let_def)
  next
    case False
    then show ?thesis using x Cons.prems Cons.IH [of "out @ [x]"] by (simp add: Let_def)
  qed
qed simp

text \<open>The daily count of another date is dropped when a state is read.\<close>

definition today_count :: "int \<Rightarrow> mode_state \<Rightarrow> int" where
  "today_count now s = (if ms_dailyExecutionDate s = toUtcDate now then ms_dailyExecutionCount s else 0)"

text \<open>C11: Reading a stored state gives a well-formed one, whatever JSON is stored: counts in their
  ranges, symbols and pending orders without duplicates, texts trimmed. Storing a well-formed state and
  reading it back gives the same state, except that the count of another day reads as zero.\<close>

theorem mode_state_roundtrip:
  "state_ok (normalizeExecutionModeState v now) \<and>
   (state_ok s \<longrightarrow> normalizeExecutionModeState (state_json s) now = s\<lparr> ms_dailyExecutionCount := today_count now s \<rparr>)"
proof (intro conjI impI)
  assume s: "state_ok s"
  have sy: "normalizeStringArray (JArr (map JStr (ms_openPositionSymbols s))) 256 = ms_openPositionSymbols s"
    using s collect_strings_back [of "ms_openPositionSymbols s" "[]" 256] by (simp add: normalizeStringArray_def state_ok_def)
  have pe: "normalizePendingOrders (map_json pending_json (ms_pendingOrders s)) = ms_pendingOrders s"
    using s add_pending_back [of "ms_pendingOrders s" "[]"] by (simp add: normalizePendingOrders_def map_json_def state_ok_def)
  show "normalizeExecutionModeState (state_json s) now = s\<lparr> ms_dailyExecutionCount := today_count now s \<rparr>"
    using s unfolding state_ok_def
    by (intro mode_state.equality)
      (simp_all add: normalizeExecutionModeState_def state_json_def Let_def sy pe rows_back today_count_def)
qed (rule normalize_state_ok)

definition sample_json :: jsval where
  "sample_json = JObj
     [(''dailyExecutionDate'', JStr ''2024-05-01''), (''dailyExecutionCount'', JStr '' 7 ''),
      (''openPositionSymbols'', JArr [JStr '' BTCUSDT'', JStr ''BTCUSDT'', JNull]),
      (''pendingOrders'', JObj [(''a'', JObj [(''status'', JStr ''submitted''), (''qty'', JStr ''0.5'')]), (''b'', JNull)]),
      (''modes'', JObj [(''dca'', JObj [(''ETHUSDT'', JObj [(''side'', JStr ''LONG''), (''entryCount'', JNum (Fin 3))])])])]"

definition sample_now :: int where
  "sample_now = 1714557600000"

theorem mode_state_roundtrip_witness:
  "normalizeExecutionModeState (state_json (normalizeExecutionModeState sample_json sample_now)) sample_now =
     normalizeExecutionModeState sample_json sample_now \<and>
   ms_dailyExecutionCount (normalizeExecutionModeState sample_json sample_now) = 7 \<and>
   map fst (ms_pendingOrders (normalizeExecutionModeState sample_json sample_now)) = [''a''] \<and>
   ms_openPositionSymbols (normalizeExecutionModeState sample_json sample_now) = [''BTCUSDT'']"
proof -
  let ?s = "normalizeExecutionModeState sample_json sample_now"
  have "ms_dailyExecutionDate ?s = toUtcDate sample_now" "ms_dailyExecutionCount ?s = 7"
    "map fst (ms_pendingOrders ?s) = [''a'']" "ms_openPositionSymbols ?s = [''BTCUSDT'']" by code_simp+
  then show ?thesis
    using mode_state_roundtrip [of sample_json sample_now ?s] by (simp add: today_count_def)
qed

section \<open>What the guardrails let through\<close>

lemma ensure_facts [simp]:
  "ms_cooldownUntil (ensureDailyState s now) = ms_cooldownUntil s"
  "ms_openPositionSymbols (ensureDailyState s now) = ms_openPositionSymbols s"
  "ms_dailyExecutionDate (ensureDailyState s now) = toUtcDate now"
  "ms_dailyExecutionCount (ensureDailyState s now) = (if ms_dailyExecutionDate s = toUtcDate now then ms_dailyExecutionCount s else 0)"
  by (simp_all add: ensureDailyState_def)

lemma guard_state [simp]: "ga_state (evaluateExecutionGuardrails other i c s now) = ensureDailyState s now"
  by (simp add: evaluateExecutionGuardrails_def refuse_def Let_def split: option.split prod.split)

lemma projected_ensure [simp]: "projected (ensureDailyState s now) x = projected s x"
  by (simp add: projected_def)

lemma guard_allows:
  assumes "ga_allow (evaluateExecutionGuardrails other i c s now)"
  shows "cooldown_left other s now = None" "open_refusal c (ensureDailyState s now) i = None"
    "ms_dailyExecutionCount (ensureDailyState s now) < ec_maxDailyExecutions c"
  using assms
  by (auto simp: evaluateExecutionGuardrails_def refuse_def Let_def cooldown_left_def split: option.splits prod.splits if_splits)

lemma cooldown_over:
  assumes "cooldown_left other s now = None" "ms_cooldownUntil s = Some (toISOString u)" "in_span u"
  shows "u \<le> now"
proof -
  have "toISOString u \<noteq> ''''" using iso_ok [of u] by (simp add: text_ok_def)
  then show ?thesis using assms by (simp add: cooldown_left_def Let_def split: if_splits)
qed

lemma open_projected: "open_refusal c s (OpenIntent x side od) = None \<Longrightarrow> projected s x \<le> ec_maxOpenPositions c"
  by (auto simp: open_refusal_def Let_def split: if_splits)

text \<open>The executions of a day, and the time between two executions.\<close>

definition on_date :: "string \<Rightarrow> int list \<Rightarrow> nat" where
  "on_date d ts = length (filter (\<lambda>t. toUtcDate t = d) ts)"

definition wait_ms :: "common_config \<Rightarrow> int" where
  "wait_ms c = ec_cooldownSecAfterExecution c * 1000"

lemma utc_date_eq: "in_span t \<Longrightarrow> in_span u \<Longrightarrow> toUtcDate t = toUtcDate u \<longleftrightarrow> t div 86400000 = u div 86400000"
  by (simp add: toUtcDate_def iso_date_eq)

text \<open>When the date has changed since \<open>t\<close>, nothing up to \<open>t\<close> has the new date.\<close>

lemma new_date_unused:
  assumes "\<forall>e\<in>set ts. in_span e \<and> e \<le> t" "in_span t" "in_span now" "t \<le> now" "toUtcDate now \<noteq> toUtcDate t"
  shows "on_date (toUtcDate now) ts = 0"
proof -
  have "toUtcDate e \<noteq> toUtcDate now" if "e \<in> set ts" for e
  proof
    assume "toUtcDate e = toUtcDate now"
    then have "e div 86400000 = now div 86400000" using assms(1,3) that by (simp add: utc_date_eq)
    moreover have "e div 86400000 \<le> t div 86400000" "t div 86400000 \<le> now div 86400000"
      using assms(1,4) that by (simp_all add: zdiv_mono1)
    ultimately have "t div 86400000 = now div 86400000" by linarith
    then show False using assms(2,3,5) by (simp add: utc_date_eq)
  qed
  then show ?thesis by (simp add: on_date_def filter_empty_conv)
qed

definition sample_common :: common_config where
  "sample_common = \<lparr> ec_maxDailyExecutions = 2, ec_cooldownSecAfterExecution = 60, ec_maxNotionalPerSymbolUsd = None,
     ec_maxTotalNotionalUsd = None, ec_maxOpenPositions = 1, ec_enforceReduceOnlyOnClose = True \<rparr>"

definition unread :: "string \<Rightarrow> jsnum" where
  "unread s = NaN"

text \<open>An order sized by its risk has no estimate, so neither limit on the notional applies to it; and the
  total limit is compared with the order alone, whatever is already open.\<close>

lemma risk_sized_unlimited:
  assumes "op_desiredNotionalUsd od = None" "op_qty od = None"
  shows "open_refusal c s (OpenIntent x side (Some od)) =
    open_refusal (c\<lparr> ec_maxNotionalPerSymbolUsd := None, ec_maxTotalNotionalUsd := None \<rparr>) s (OpenIntent x side (Some od))"
  using assms
  by (simp add: open_refusal_def estimateIntentNotionalUsd_def positive_num_def finite_opt_def over_limit_def opt_get_def)

end
