(* ===== verification/VenueCapabilities.thy ===== *)
theory VenueCapabilities
  imports FuturesEngine
begin

text \<open>
  What an execution venue can do (packages/futures-exchange/src/core/exchange-capabilities.ts): the tables
  of the venues and the check of a requirement against them, with its reason, message and metadata.
\<close>

section \<open>Capabilities\<close>

datatype connector_kind = LiveAdapter | PaperLinkedMarketData | MarketDataOnly | UnsupportedConnector
datatype position_mode = OneWay | Hedge
datatype provider_kind = UliquidNative | PaperLinked | HummingbotPoc | UnknownProvider
datatype data_support = NativeData | LinkedData | UnsupportedData
datatype certification = NotAssessed | PartialCertification | Passed | FailedCertification

record market_data =
  md_ticker :: data_support
  md_orderbook :: data_support
  md_trades :: data_support
  md_candles :: data_support
  md_fundingRate :: data_support
  md_openInterest :: data_support
  md_markPrice :: data_support
  md_orderbookAnalytics :: data_support
  md_fundingHistory :: data_support
  md_openInterestHistory :: data_support

record capabilities =
  vc_venue :: string
  vc_providerId :: string
  vc_providerKind :: provider_kind
  vc_marketData :: market_data
  vc_liveCertificationStatus :: certification
  vc_connectorKind :: connector_kind
  vc_adapterFactoryAvailable :: bool
  vc_supportsPerpMarketData :: bool
  vc_supportsPerpExecution :: bool
  vc_requiresLinkedMarketData :: bool
  vc_supportedOrderTypes :: "order_type list"
  vc_supportsReduceOnly :: bool
  vc_supportedPositionModes :: "position_mode list"
  vc_supportedMarginModes :: "margin_mode list"
  vc_supportsLeverage :: bool
  vc_supportsMarginModeControl :: bool
  vc_supportsOrderEditing :: bool
  vc_supportsPositionTpSl :: bool
  vc_supportsPositionClose :: bool
  vc_supportsPositionReads :: bool
  vc_supportsBalanceReads :: bool
  vc_supportsTransfers :: bool
  vc_supportsFundingSync :: bool
  vc_supportsGridExecution :: bool
  vc_supportsVaultExecution :: bool

datatype requirement =
    PerpMarketData | PerpExecution | OrderTypeReq order_type | ReduceOnlyReq | PositionModeReq position_mode
  | LeverageControl | MarginModeReq margin_mode | PositionRead | BalanceRead | Transfer | GridExecution
  | VaultExecution | OrderEditing | PositionTpSl | PositionClose

section \<open>The venues\<close>

definition NATIVE_MARKET_DATA :: market_data where
  "NATIVE_MARKET_DATA = \<lparr> md_ticker = NativeData, md_orderbook = NativeData, md_trades = NativeData, md_candles = NativeData,
     md_fundingRate = NativeData, md_openInterest = NativeData, md_markPrice = NativeData, md_orderbookAnalytics = NativeData,
     md_fundingHistory = UnsupportedData, md_openInterestHistory = UnsupportedData \<rparr>"

definition UNSUPPORTED_MARKET_DATA :: market_data where
  "UNSUPPORTED_MARKET_DATA = \<lparr> md_ticker = UnsupportedData, md_orderbook = UnsupportedData, md_trades = UnsupportedData,
     md_candles = UnsupportedData, md_fundingRate = UnsupportedData, md_openInterest = UnsupportedData,
     md_markPrice = UnsupportedData, md_orderbookAnalytics = UnsupportedData, md_fundingHistory = UnsupportedData,
     md_openInterestHistory = UnsupportedData \<rparr>"

definition LINKED_MARKET_DATA :: market_data where
  "LINKED_MARKET_DATA = \<lparr> md_ticker = LinkedData, md_orderbook = LinkedData, md_trades = LinkedData, md_candles = LinkedData,
     md_fundingRate = LinkedData, md_openInterest = LinkedData, md_markPrice = LinkedData, md_orderbookAnalytics = LinkedData,
     md_fundingHistory = LinkedData, md_openInterestHistory = LinkedData \<rparr>"

definition BITGET_FUTURES_CAPABILITIES :: capabilities where
  "BITGET_FUTURES_CAPABILITIES = \<lparr> vc_venue = ''bitget'', vc_providerId = ''uliquid-native:bitget'',
     vc_providerKind = UliquidNative, vc_marketData = NATIVE_MARKET_DATA\<lparr> md_fundingHistory := NativeData \<rparr>,
     vc_liveCertificationStatus = NotAssessed, vc_connectorKind = LiveAdapter, vc_adapterFactoryAvailable = True,
     vc_supportsPerpMarketData = True, vc_supportsPerpExecution = True, vc_requiresLinkedMarketData = False,
     vc_supportedOrderTypes = [Market, Limit], vc_supportsReduceOnly = True, vc_supportedPositionModes = [OneWay, Hedge],
     vc_supportedMarginModes = [Cross, Isolated], vc_supportsLeverage = True, vc_supportsMarginModeControl = True,
     vc_supportsOrderEditing = True, vc_supportsPositionTpSl = True, vc_supportsPositionClose = True,
     vc_supportsPositionReads = True, vc_supportsBalanceReads = True, vc_supportsTransfers = False,
     vc_supportsFundingSync = True, vc_supportsGridExecution = True, vc_supportsVaultExecution = False \<rparr>"

text \<open>The other live venues differ from the first in their names, their data and a few entries.\<close>

definition HYPERLIQUID_FUTURES_CAPABILITIES :: capabilities where
  "HYPERLIQUID_FUTURES_CAPABILITIES = BITGET_FUTURES_CAPABILITIES\<lparr> vc_venue := ''hyperliquid'',
     vc_providerId := ''uliquid-native:hyperliquid'', vc_marketData := NATIVE_MARKET_DATA\<lparr> md_trades := UnsupportedData \<rparr>,
     vc_supportedPositionModes := [OneWay], vc_supportsVaultExecution := True \<rparr>"

definition MEXC_FUTURES_CAPABILITIES :: capabilities where
  "MEXC_FUTURES_CAPABILITIES = BITGET_FUTURES_CAPABILITIES\<lparr> vc_venue := ''mexc'', vc_providerId := ''uliquid-native:mexc'',
     vc_marketData := NATIVE_MARKET_DATA\<lparr> md_openInterest := UnsupportedData, md_fundingHistory := NativeData \<rparr> \<rparr>"

definition PAPER_FUTURES_CAPABILITIES :: capabilities where
  "PAPER_FUTURES_CAPABILITIES = BITGET_FUTURES_CAPABILITIES\<lparr> vc_venue := ''paper'', vc_providerId := ''paper:linked-market-data'',
     vc_providerKind := PaperLinked, vc_marketData := LINKED_MARKET_DATA, vc_connectorKind := PaperLinkedMarketData,
     vc_adapterFactoryAvailable := False, vc_supportsPerpMarketData := False, vc_requiresLinkedMarketData := True,
     vc_supportedPositionModes := [OneWay] \<rparr>"

definition BINANCE_FUTURES_CAPABILITIES :: capabilities where
  "BINANCE_FUTURES_CAPABILITIES = BITGET_FUTURES_CAPABILITIES\<lparr> vc_venue := ''binance'', vc_providerId := ''uliquid-native:binance'',
     vc_marketData := NATIVE_MARKET_DATA\<lparr> md_fundingHistory := NativeData, md_openInterestHistory := NativeData \<rparr> \<rparr>"

definition BINGX_FUTURES_CAPABILITIES :: capabilities where
  "BINGX_FUTURES_CAPABILITIES = BITGET_FUTURES_CAPABILITIES\<lparr> vc_venue := ''bingx'', vc_providerId := ''uliquid-native:bingx'',
     vc_marketData := NATIVE_MARKET_DATA\<lparr> md_fundingRate := UnsupportedData, md_openInterest := UnsupportedData,
       md_markPrice := UnsupportedData \<rparr> \<rparr>"

definition UNKNOWN_FUTURES_CAPABILITIES :: capabilities where
  "UNKNOWN_FUTURES_CAPABILITIES = \<lparr> vc_venue = ''unknown'', vc_providerId = ''unknown'', vc_providerKind = UnknownProvider,
     vc_marketData = UNSUPPORTED_MARKET_DATA, vc_liveCertificationStatus = NotAssessed, vc_connectorKind = UnsupportedConnector,
     vc_adapterFactoryAvailable = False, vc_supportsPerpMarketData = False, vc_supportsPerpExecution = False,
     vc_requiresLinkedMarketData = False, vc_supportedOrderTypes = [], vc_supportsReduceOnly = False,
     vc_supportedPositionModes = [], vc_supportedMarginModes = [], vc_supportsLeverage = False,
     vc_supportsMarginModeControl = False, vc_supportsOrderEditing = False, vc_supportsPositionTpSl = False,
     vc_supportsPositionClose = False, vc_supportsPositionReads = False, vc_supportsBalanceReads = False,
     vc_supportsTransfers = False, vc_supportsFundingSync = False, vc_supportsGridExecution = False,
     vc_supportsVaultExecution = False \<rparr>"

definition getFuturesVenueCapabilities :: "string option \<Rightarrow> capabilities" where
  "getFuturesVenueCapabilities exchange =
     (let n = normalize exchange
      in if n = ''bitget'' then BITGET_FUTURES_CAPABILITIES
         else if n = ''hyperliquid'' then HYPERLIQUID_FUTURES_CAPABILITIES
         else if n = ''mexc'' then MEXC_FUTURES_CAPABILITIES
         else if n = ''paper'' then PAPER_FUTURES_CAPABILITIES
         else if n = ''binance'' then BINANCE_FUTURES_CAPABILITIES
         else if n = ''bingx'' then BINGX_FUTURES_CAPABILITIES
         else UNKNOWN_FUTURES_CAPABILITIES)"

section \<open>Requirements\<close>

fun connector_str :: "connector_kind \<Rightarrow> string" where
  "connector_str LiveAdapter = ''live_adapter''"
| "connector_str PaperLinkedMarketData = ''paper_linked_market_data''"
| "connector_str MarketDataOnly = ''market_data_only''"
| "connector_str UnsupportedConnector = ''unsupported''"

fun order_type_str :: "order_type \<Rightarrow> string" where
  "order_type_str Market = ''market''"
| "order_type_str Limit = ''limit''"

fun margin_mode_str :: "margin_mode \<Rightarrow> string" where
  "margin_mode_str Isolated = ''isolated''"
| "margin_mode_str Cross = ''cross''"

fun position_mode_str :: "position_mode \<Rightarrow> string" where
  "position_mode_str OneWay = ''one-way''"
| "position_mode_str Hedge = ''hedge''"

fun feature_str :: "requirement \<Rightarrow> string" where
  "feature_str PerpMarketData = ''perp_market_data''"
| "feature_str PerpExecution = ''perp_execution''"
| "feature_str (OrderTypeReq _) = ''order_type''"
| "feature_str ReduceOnlyReq = ''reduce_only''"
| "feature_str (PositionModeReq _) = ''position_mode''"
| "feature_str LeverageControl = ''leverage_control''"
| "feature_str (MarginModeReq _) = ''margin_mode''"
| "feature_str PositionRead = ''position_read''"
| "feature_str BalanceRead = ''balance_read''"
| "feature_str Transfer = ''transfer''"
| "feature_str GridExecution = ''grid_execution''"
| "feature_str VaultExecution = ''vault_execution''"
| "feature_str OrderEditing = ''order_editing''"
| "feature_str PositionTpSl = ''position_tpsl''"
| "feature_str PositionClose = ''position_close''"

record unsupported =
  un_reason :: string
  un_message :: string
  un_requirement :: requirement
  un_metadata :: jsobj

definition unsupportedResult :: "capabilities \<Rightarrow> requirement \<Rightarrow> string \<Rightarrow> string \<Rightarrow> jsobj \<Rightarrow> unsupported" where
  "unsupportedResult vc req reason message metadata =
     \<lparr> un_reason = reason, un_message = message, un_requirement = req,
       un_metadata = spread [(''venue'', JStr (vc_venue vc)), (''connectorKind'', JStr (connector_str (vc_connectorKind vc)))] metadata \<rparr>"

text \<open>Whether the table of a venue has what a requirement asks for: the tests of the switch.\<close>

fun supports :: "capabilities \<Rightarrow> requirement \<Rightarrow> bool" where
  "supports vc PerpMarketData = vc_supportsPerpMarketData vc"
| "supports vc PerpExecution = vc_supportsPerpExecution vc"
| "supports vc (OrderTypeReq t) = (t \<in> set (vc_supportedOrderTypes vc))"
| "supports vc ReduceOnlyReq = vc_supportsReduceOnly vc"
| "supports vc (PositionModeReq m) = (m \<in> set (vc_supportedPositionModes vc))"
| "supports vc LeverageControl = vc_supportsLeverage vc"
| "supports vc (MarginModeReq m) = (m \<in> set (vc_supportedMarginModes vc) \<and> vc_supportsMarginModeControl vc)"
| "supports vc PositionRead = vc_supportsPositionReads vc"
| "supports vc BalanceRead = vc_supportsBalanceReads vc"
| "supports vc Transfer = vc_supportsTransfers vc"
| "supports vc GridExecution = vc_supportsGridExecution vc"
| "supports vc VaultExecution = vc_supportsVaultExecution vc"
| "supports vc OrderEditing = vc_supportsOrderEditing vc"
| "supports vc PositionTpSl = vc_supportsPositionTpSl vc"
| "supports vc PositionClose = vc_supportsPositionClose vc"

definition str_list :: "string list \<Rightarrow> jsval" where
  "str_list xs = JArr (map JStr xs)"

text \<open>The reason, the text after the venue's name, and the metadata of a failed requirement.\<close>

fun failure_parts :: "capabilities \<Rightarrow> requirement \<Rightarrow> string \<times> string \<times> jsobj" where
  "failure_parts vc PerpMarketData = (''venue_market_data_unsupported'', ''does not support perpetual market data.'', [])"
| "failure_parts vc PerpExecution =
     (if vc_connectorKind vc = MarketDataOnly
      then (''execution_venue_market_data_only'', ''is configured for market data only.'', [])
      else (''execution_venue_unsupported'', ''does not support perpetual execution.'', []))"
| "failure_parts vc (OrderTypeReq t) =
     (''venue_order_type_unsupported'', ''does not support '' @ order_type_str t @ '' orders.'',
      [(''orderType'', JStr (order_type_str t)), (''supportedOrderTypes'', str_list (map order_type_str (vc_supportedOrderTypes vc)))])"
| "failure_parts vc ReduceOnlyReq = (''venue_reduce_only_unsupported'', ''does not support reduce-only execution.'', [])"
| "failure_parts vc (PositionModeReq m) =
     (''venue_position_mode_unsupported'', ''does not support '' @ position_mode_str m @ '' position mode.'',
      [(''positionMode'', JStr (position_mode_str m)),
       (''supportedPositionModes'', str_list (map position_mode_str (vc_supportedPositionModes vc)))])"
| "failure_parts vc LeverageControl = (''venue_leverage_control_unsupported'', ''does not support leverage controls.'', [])"
| "failure_parts vc (MarginModeReq m) =
     (''venue_margin_mode_unsupported'', ''does not support '' @ margin_mode_str m @ '' margin mode controls.'',
      [(''marginMode'', JStr (margin_mode_str m)),
       (''supportedMarginModes'', str_list (map margin_mode_str (vc_supportedMarginModes vc)))])"
| "failure_parts vc PositionRead = (''venue_position_read_unsupported'', ''does not support position reads.'', [])"
| "failure_parts vc BalanceRead = (''venue_balance_read_unsupported'', ''does not support balance reads.'', [])"
| "failure_parts vc Transfer =
     (''venue_transfer_unsupported'', ''does not support transfers in the normalized platform contract.'', [])"
| "failure_parts vc GridExecution = (''venue_grid_execution_unsupported'', ''does not support grid execution.'', [])"
| "failure_parts vc VaultExecution = (''venue_vault_execution_unsupported'', ''does not support vault execution.'', [])"
| "failure_parts vc OrderEditing = (''venue_order_editing_unsupported'', ''does not support order editing.'', [])"
| "failure_parts vc PositionTpSl = (''venue_position_tpsl_unsupported'', ''does not support position TP/SL controls.'', [])"
| "failure_parts vc PositionClose =
     (''venue_position_close_unsupported'', ''does not support normalized position-close execution.'', [])"

definition validateFuturesVenueCapability :: "capabilities \<Rightarrow> requirement \<Rightarrow> unsupported option" where
  "validateFuturesVenueCapability vc req =
     (if supports vc req then None
      else case failure_parts vc req of (reason, rest, metadata) \<Rightarrow>
        Some (unsupportedResult vc req reason ([CHR ''V'', CHR ''e'', CHR ''n'', CHR ''u'', CHR ''e'', CHR '' '', CHR 0x27]
          @ vc_venue vc @ [CHR 0x27, CHR '' ''] @ rest) metadata))"

fun validateFuturesVenueRequirements :: "capabilities \<Rightarrow> requirement list \<Rightarrow> unsupported option" where
  "validateFuturesVenueRequirements vc [] = None"
| "validateFuturesVenueRequirements vc (r # rs) =
     (case validateFuturesVenueCapability vc r of Some u \<Rightarrow> Some u | None \<Rightarrow> validateFuturesVenueRequirements vc rs)"

lemma requirement_None [simp]: "validateFuturesVenueCapability vc r = None \<longleftrightarrow> supports vc r"
  by (simp add: validateFuturesVenueCapability_def split: prod.split)

lemma requirements_None: "validateFuturesVenueRequirements vc rs = None \<longleftrightarrow> (\<forall>r\<in>set rs. supports vc r)"
  by (induction rs) (auto split: option.split simp flip: requirement_None)

lemma requirements_Some:
  "validateFuturesVenueRequirements vc rs = Some u \<Longrightarrow>
     un_requirement u \<in> set rs \<and> \<not> supports vc (un_requirement u) \<and> un_reason u = fst (failure_parts vc (un_requirement u))"
  by (induction rs) (auto split: option.splits prod.splits if_splits simp: validateFuturesVenueCapability_def unsupportedResult_def)

end
