(* ===== verification/PaperRuntime.thy ===== *)
theory PaperRuntime
  imports Money
begin

text \<open>
  The context of simulated trading (packages/futures-exchange/src/core/paper-runtime.ts): which live
  venue a simulated account may take its prices from, and the policy of the simulation as it is read
  from the environment of the process, a parameter that maps a variable to its text.
\<close>

section \<open>Types\<close>

datatype paper_market = PaperSpot | PaperPerp

record paper_flags =
  pf_manualTradingSpotEnabled :: bool
  pf_mexcSpotEnabled :: bool
  pf_mexcPerpEnabled :: bool
  pf_binanceSpotEnabled :: bool
  pf_binancePerpEnabled :: bool
  pf_bingxSpotEnabled :: bool
  pf_bingxPerpEnabled :: bool

datatype support_code = ManualSpotTradingDisabled | PaperSpotRequiresSupportedMarketData | PaperPerpRequiresSupportedMarketData

record link_support =
  ls_supported :: bool
  ls_code :: "support_code option"

record linked_market_data =
  lm_exchangeAccountId :: "string option"
  lm_marketDataVenue :: "string option"
  lm_supported :: bool
  lm_supportCode :: "support_code option"

datatype funding_mode = FundingDisabled | FixedRate

record paper_policy =
  pp_feeBps :: jsnum
  pp_slippageBps :: jsnum
  pp_makerFeeBps :: jsnum
  pp_takerFeeBps :: jsnum
  pp_marketOrderSlippageBps :: jsnum
  pp_stopOrderSlippageBps :: jsnum
  pp_limitPartialFillRatio :: jsnum
  pp_initialMarginRatio :: jsnum
  pp_maintenanceMarginRatio :: jsnum
  pp_liquidationSlippageBps :: jsnum
  pp_fundingMode :: funding_mode
  pp_fundingRateBpsPerHour :: jsnum
  pp_fundingIntervalMinutes :: jsnum
  pp_startBalanceUsd :: jsnum

record paper_context =
  pc_marketType :: paper_market
  pc_supportedMarketTypes :: "paper_market list"
  pc_linkedMarketData :: linked_market_data
  pc_simulationPolicy :: paper_policy

definition PAPER_MARKET_TYPES :: "paper_market list" where
  "PAPER_MARKET_TYPES = [PaperSpot, PaperPerp]"

section \<open>Readers of the environment\<close>

type_synonym environment = "string \<Rightarrow> string option"

definition normalizeExchange :: "jsval \<Rightarrow> string" where
  "normalizeExchange v = norm_lower v"

definition readBoolEnv :: "environment \<Rightarrow> string \<Rightarrow> bool \<Rightarrow> bool" where
  "readBoolEnv env name fallback =
     (case env name of
        None \<Rightarrow> fallback
      | Some raw \<Rightarrow> norm_lower (JStr raw) \<notin> {''0'', ''false'', ''off'', ''no''})"

text \<open>The four readers of numbers differ only in how they limit a finite value.\<close>

definition read_env :: "(jsnum \<Rightarrow> jsnum) \<Rightarrow> environment \<Rightarrow> string \<Rightarrow> jsnum \<Rightarrow> jsnum" where
  "read_env limit env name fallback =
     (let parsed = (case env name of Some s \<Rightarrow> str_to_num s | None \<Rightarrow> fallback)
      in if \<not> is_finite parsed then fallback else limit parsed)"

definition readBpsEnv :: "environment \<Rightarrow> string \<Rightarrow> jsnum \<Rightarrow> jsnum" where
  "readBpsEnv = read_env (\<lambda>n. n_max (Fin 0) n)"

definition readRatioEnv :: "environment \<Rightarrow> string \<Rightarrow> jsnum \<Rightarrow> jsnum" where
  "readRatioEnv = read_env (\<lambda>n. n_max (Fin 0) (n_min (Fin 1) n))"

definition readPositiveIntegerEnv :: "environment \<Rightarrow> string \<Rightarrow> jsnum \<Rightarrow> jsnum" where
  "readPositiveIntegerEnv = read_env (\<lambda>n. n_max (Fin 1) (n_trunc n))"

definition readUsdEnv :: "environment \<Rightarrow> string \<Rightarrow> jsnum \<Rightarrow> jsnum" where
  "readUsdEnv = read_env (\<lambda>n. n_max (Fin 0) n)"

section \<open>Linked market data\<close>

definition isValidPaperLinkedMarketDataExchange :: "jsval \<Rightarrow> bool" where
  "isValidPaperLinkedMarketDataExchange exchange \<longleftrightarrow> normalizeExchange exchange \<noteq> '''' \<and> normalizeExchange exchange \<noteq> ''paper''"

definition linked :: link_support where
  "linked = \<lparr> ls_supported = True, ls_code = None \<rparr>"

definition unlinked :: "support_code \<Rightarrow> link_support" where
  "unlinked c = \<lparr> ls_supported = False, ls_code = Some c \<rparr>"

definition resolvePaperLinkedMarketDataSupport :: "paper_market \<Rightarrow> string option \<Rightarrow> paper_flags \<Rightarrow> link_support" where
  "resolvePaperLinkedMarketDataSupport marketType exchange flags =
     (let x = normalizeExchange (opt_val exchange)
      in if marketType = PaperSpot
         then (if \<not> pf_manualTradingSpotEnabled flags then unlinked ManualSpotTradingDisabled
               else if x = ''bitget'' \<or> x = ''hyperliquid'' then linked
               else if x = ''binance'' \<and> pf_binanceSpotEnabled flags then linked
               else if x = ''bingx'' \<and> pf_bingxSpotEnabled flags then linked
               else if x = ''mexc'' \<and> pf_mexcSpotEnabled flags then linked
               else unlinked PaperSpotRequiresSupportedMarketData)
         else if x = ''bitget'' \<or> x = ''hyperliquid'' \<or> (x = ''mexc'' \<and> pf_mexcPerpEnabled flags) \<or>
           (x = ''binance'' \<and> pf_binancePerpEnabled flags) \<or> (x = ''bingx'' \<and> pf_bingxPerpEnabled flags)
         then linked else unlinked PaperPerpRequiresSupportedMarketData)"

definition readPaperRuntimePolicyFlagsFromEnv :: "environment \<Rightarrow> paper_flags" where
  "readPaperRuntimePolicyFlagsFromEnv env =
     (let legacy = readBoolEnv env ''MEXC_FUTURES_ENABLED'' False
      in \<lparr> pf_manualTradingSpotEnabled =
             readBoolEnv env ''MANUAL_TRADING_SPOT_ENABLED'' (readBoolEnv env ''ENABLE_MANUAL_TRADING_SPOT'' True),
           pf_mexcSpotEnabled = readBoolEnv env ''MEXC_SPOT_ENABLED'' True,
           pf_mexcPerpEnabled = readBoolEnv env ''MEXC_PERP_ENABLED'' legacy,
           pf_binanceSpotEnabled = readBoolEnv env ''BINANCE_SPOT_ENABLED'' True,
           pf_binancePerpEnabled = readBoolEnv env ''BINANCE_PERP_ENABLED'' True,
           pf_bingxSpotEnabled = readBoolEnv env ''BINGX_SPOT_ENABLED'' True,
           pf_bingxPerpEnabled = readBoolEnv env ''BINGX_PERP_ENABLED'' True \<rparr>)"

section \<open>The simulation policy\<close>

definition resolvePaperSimulationPolicyFromEnv :: "environment \<Rightarrow> paper_policy" where
  "resolvePaperSimulationPolicyFromEnv env =
     (let fee = readBpsEnv env ''PAPER_TRADING_FEE_BPS'' NaN;
          slip = readBpsEnv env ''PAPER_TRADING_SLIPPAGE_BPS'' NaN;
          maker = (if is_finite fee then fee else readBpsEnv env ''PAPER_TRADING_MAKER_FEE_BPS'' (Fin 2));
          taker = (if is_finite fee then fee else readBpsEnv env ''PAPER_TRADING_TAKER_FEE_BPS'' (Fin 5));
          market = (if is_finite slip then slip else readBpsEnv env ''PAPER_TRADING_MARKET_SLIPPAGE_BPS'' (Fin 3));
          stop = (if is_finite slip then slip
                  else readBpsEnv env ''PAPER_TRADING_STOP_SLIPPAGE_BPS'' (n_max (Fin 4) market));
          rate = readBpsEnv env ''PAPER_TRADING_FUNDING_RATE_BPS_PER_HOUR'' (Fin 0);
          explicit = norm_lower (opt_val (env ''PAPER_TRADING_FUNDING_MODE''))
      in \<lparr> pp_feeBps = taker, pp_slippageBps = market, pp_makerFeeBps = maker, pp_takerFeeBps = taker,
           pp_marketOrderSlippageBps = market, pp_stopOrderSlippageBps = stop,
           pp_limitPartialFillRatio = readRatioEnv env ''PAPER_TRADING_LIMIT_PARTIAL_FILL_RATIO'' (Fin (1 / 2)),
           pp_initialMarginRatio = readRatioEnv env ''PAPER_TRADING_INITIAL_MARGIN_RATIO'' (fl (1 / 10)),
           pp_maintenanceMarginRatio = readRatioEnv env ''PAPER_TRADING_MAINTENANCE_MARGIN_RATIO'' (fl (1 / 20)),
           pp_liquidationSlippageBps = readBpsEnv env ''PAPER_TRADING_LIQUIDATION_SLIPPAGE_BPS'' (Fin 15),
           pp_fundingMode = (if explicit = ''fixed_rate'' \<or> n_lt (Fin 0) rate then FixedRate else FundingDisabled),
           pp_fundingRateBpsPerHour = rate,
           pp_fundingIntervalMinutes = readPositiveIntegerEnv env ''PAPER_TRADING_FUNDING_INTERVAL_MINUTES'' (Fin 60),
           pp_startBalanceUsd = readUsdEnv env ''PAPER_TRADING_START_BALANCE_USD'' (Fin 10000) \<rparr>)"

definition createPaperExecutionContext ::
  "environment \<Rightarrow> paper_market \<Rightarrow> string option \<Rightarrow> string option \<Rightarrow> paper_flags option \<Rightarrow> paper_policy option \<Rightarrow> paper_context" where
  "createPaperExecutionContext env marketType exchange accountId flags policy =
     (let support = resolvePaperLinkedMarketDataSupport marketType exchange (opt_get flags (readPaperRuntimePolicyFlagsFromEnv env))
      in \<lparr> pc_marketType = marketType, pc_supportedMarketTypes = PAPER_MARKET_TYPES,
           pc_linkedMarketData = \<lparr> lm_exchangeAccountId = accountId, lm_marketDataVenue = Some (normalizeExchange (opt_val exchange)),
             lm_supported = ls_supported support, lm_supportCode = ls_code support \<rparr>,
           pc_simulationPolicy = opt_get policy (resolvePaperSimulationPolicyFromEnv env) \<rparr>)"

section \<open>The limits of the policy\<close>

lemma read_env_between:
  "(\<And>q. between lo hi (limit (Fin q))) \<Longrightarrow> between lo hi fallback \<Longrightarrow> between lo hi (read_env limit env name fallback)"
  unfolding read_env_def Let_def by (cases "case env name of Some s \<Rightarrow> str_to_num s | None \<Rightarrow> fallback") simp_all

lemma readers_between:
  "between 0 None fallback \<Longrightarrow> between 0 None (readBpsEnv env name fallback)"
  "between 0 None fallback \<Longrightarrow> between 0 None (readUsdEnv env name fallback)"
  "between 0 (Some 1) fallback \<Longrightarrow> between 0 (Some 1) (readRatioEnv env name fallback)"
  "between 1 None fallback \<Longrightarrow> between 1 None (readPositiveIntegerEnv env name fallback)"
  unfolding readBpsEnv_def readUsdEnv_def readRatioEnv_def readPositiveIntegerEnv_def
  by (rule read_env_between; simp add: between_def n_fin)+

lemma readBps_finite: "is_finite (readBpsEnv env name f) \<Longrightarrow> \<not> is_finite f \<Longrightarrow> between 0 None (readBpsEnv env name f)"
  unfolding readBpsEnv_def read_env_def Let_def
  by (cases "case env name of Some s \<Rightarrow> str_to_num s | None \<Rightarrow> f") (auto simp: between_def n_fin)

text \<open>Whatever the environment holds, the policy of a simulation is usable: fees, slippages, the funding
  rate and the start balance are finite and not negative, the three ratios lie between zero and one, the
  funding interval is at least one minute, and funding is charged whenever a rate is set.\<close>

theorem paper_policy_bounds:
  assumes "p = resolvePaperSimulationPolicyFromEnv env"
  shows "between 0 None (pp_makerFeeBps p) \<and> between 0 None (pp_takerFeeBps p) \<and> pp_feeBps p = pp_takerFeeBps p \<and>
    between 0 None (pp_marketOrderSlippageBps p) \<and> between 0 None (pp_stopOrderSlippageBps p) \<and>
    pp_slippageBps p = pp_marketOrderSlippageBps p \<and> between 0 None (pp_liquidationSlippageBps p) \<and>
    between 0 (Some 1) (pp_limitPartialFillRatio p) \<and> between 0 (Some 1) (pp_initialMarginRatio p) \<and>
    between 0 (Some 1) (pp_maintenanceMarginRatio p) \<and> between 0 None (pp_fundingRateBpsPerHour p) \<and>
    between 1 None (pp_fundingIntervalMinutes p) \<and> between 0 None (pp_startBalanceUsd p) \<and>
    (pp_fundingMode p = FundingDisabled \<longrightarrow> pp_fundingRateBpsPerHour p = Fin 0)"
proof -
  have c: "fl (1 / 10) = Fin (dbl (1 / 10)) \<and> 0 \<le> dbl (1 / 10) \<and> dbl (1 / 10) \<le> 1"
    "fl (1 / 20) = Fin (dbl (1 / 20)) \<and> 0 \<le> dbl (1 / 20) \<and> dbl (1 / 20) \<le> 1" by code_simp+
  have r: "between 0 (Some 1) (fl (1 / 10))" "between 0 (Some 1) (fl (1 / 20))"
    using c by (auto simp: between_def)
  have b: "between 0 None (Fin k)" if "0 \<le> k" for k using that by (simp add: between_def)
  have h: "between 0 (Some 1) (Fin (1 / 2))" "between 1 None (Fin 60)" unfolding between_def by (auto intro!: exI [of _ "1 / 2"])
  have m: "between 0 None (n_max (Fin 4) x)" if "between 0 None x" for x using that by (auto simp: between_def n_fin)
  have z: "between 0 None x \<Longrightarrow> \<not> n_lt (Fin 0) x \<Longrightarrow> x = Fin 0" for x by (auto simp: between_def)
  show ?thesis
    unfolding assms resolvePaperSimulationPolicyFromEnv_def Let_def
    by (simp add: readers_between readBps_finite r b m h) (auto intro: readers_between b z)
qed

theorem paper_policy_bounds_witness:
  "between 0 (Some 1) (pp_limitPartialFillRatio (resolvePaperSimulationPolicyFromEnv (\<lambda>_. Some ''7''))) \<and>
   pp_limitPartialFillRatio (resolvePaperSimulationPolicyFromEnv (\<lambda>_. Some ''7'')) = Fin 1"
proof -
  have "pp_limitPartialFillRatio (resolvePaperSimulationPolicyFromEnv (\<lambda>_. Some ''7'')) = Fin 1" by code_simp
  then show ?thesis using paper_policy_bounds [OF refl, of "\<lambda>_. Some ''7''"] by simp
qed

end
