(* ===== verification/ExecutionPipeline.thy ===== *)
theory ExecutionPipeline
  imports VenueCapabilities PaperRuntime
begin

text \<open>
  The pipeline every domain of the platform runs an action through
  (packages/futures-engine/src/executionFoundation.ts): the request is translated, checked against the
  venue, passed through a guard and executed, its result is normalised, and each stage is announced to an
  event sink. Translation, guard, execution, result hook and sink are callbacks, answered from the calls
  made before as in the engine.
\<close>

section \<open>Requests and responses\<close>

datatype shared_status = StExecuted | StBlocked | StNoop | StFailed

text \<open>\<open>SharedExecutionAction\<close> is open: any string beside the named ones.\<close>

record shared_venue =
  sv_executionVenue :: "string option"
  sv_marketDataVenue :: "string option"
  sv_capabilities :: "capabilities option"
  sv_paperContext :: "paper_context option"
  sv_skipValidation :: bool

record shared_request =
  sq_domain :: string
  sq_action :: string
  sq_symbol :: "string option"
  sq_intent :: "trade_intent option"
  sq_venue :: "shared_venue option"
  sq_requirements :: "requirement list option"
  sq_metadata :: "jsobj option"

record venue_summary =
  vs_executionVenue :: "string option"
  vs_marketDataVenue :: "string option"
  vs_connectorKind :: "connector_kind option"
  vs_supportsPerpExecution :: "bool option"
  vs_requiresLinkedMarketData :: "bool option"

record shared_response =
  sp_status :: shared_status
  sp_reason :: string
  sp_orderIds :: "string list"
  sp_metadata :: jsobj
  sp_domain :: string
  sp_action :: string
  sp_symbol :: "string option"
  sp_venue :: venue_summary
  sp_intent :: "trade_intent option"

record result_input =
  in_status :: shared_status
  in_reason :: string
  in_orderIds :: "string list option"
  in_metadata :: "jsobj option"
  in_intent :: "trade_intent option"

datatype raw_result = RawEngine engine_result | RawInput result_input

text \<open>The type of the guard's result leaves blocked and noop as the states of a refusal.\<close>

datatype refusal = RefuseBlocked | RefuseNoop

fun refusal_status :: "refusal \<Rightarrow> shared_status" where
  "refusal_status RefuseBlocked = StBlocked"
| "refusal_status RefuseNoop = StNoop"

datatype guard_result = GuardAllow | GuardBlock string "refusal option" "jsobj option"

datatype phase = Requested | PhaseOf shared_status

record shared_event =
  ev_phase :: phase
  ev_request :: shared_request
  ev_response :: "shared_response option"
  ev_metadata :: jsobj

section \<open>Normalisation\<close>

definition normalizeSymbol :: "string option \<Rightarrow> string option" where
  "normalizeSymbol v = nonempty (toCanonicalFallbackSymbol (opt_get v ''''))"

definition normalizeVenueName :: "string option \<Rightarrow> string option" where
  "normalizeVenueName v = nonempty (normalize v)"

definition normalizeCapabilities :: "shared_venue option \<Rightarrow> capabilities option" where
  "normalizeCapabilities venue =
     (case venue of
        None \<Rightarrow> None
      | Some v \<Rightarrow>
          (case sv_capabilities v of
             Some vc \<Rightarrow> Some vc
           | None \<Rightarrow> map_option (\<lambda>n. getFuturesVenueCapabilities (Some n)) (normalizeVenueName (sv_executionVenue v))))"

definition resolveRequestSymbol :: "shared_request \<Rightarrow> string option" where
  "resolveRequestSymbol q =
     (case sq_intent q of
        Some (OpenIntent s _ _) \<Rightarrow> normalizeSymbol (Some s)
      | Some (CloseIntent s _) \<Rightarrow> normalizeSymbol (Some s)
      | _ \<Rightarrow> normalizeSymbol (sq_symbol q))"

definition toOrderIds :: "string list option \<Rightarrow> string list" where
  "toOrderIds v = filter (\<lambda>s. s \<noteq> '''') (map str_trim (opt_get v []))"

definition intent_order :: "trade_intent option \<Rightarrow> order_params option" where
  "intent_order i = (case i of Some (OpenIntent _ _ od) \<Rightarrow> od | Some (CloseIntent _ od) \<Rightarrow> od | _ \<Rightarrow> None)"

definition order_requirements :: "order_params \<Rightarrow> requirement list" where
  "order_requirements od =
     (case op_type od of Some t \<Rightarrow> [OrderTypeReq t] | None \<Rightarrow> []) @
     (if op_reduceOnly od = Some True then [ReduceOnlyReq] else []) @
     (case op_marginMode od of Some m \<Rightarrow> [MarginModeReq m] | None \<Rightarrow> []) @
     (case op_leverage od of Some l \<Rightarrow> if is_finite l \<and> n_lt (Fin 0) l then [LeverageControl] else [] | None \<Rightarrow> [])"

definition inferCapabilityRequirements :: "shared_request \<Rightarrow> requirement list" where
  "inferCapabilityRequirements q =
     opt_get (sq_requirements q) [] @
     (case intent_order (sq_intent q) of Some od \<Rightarrow> order_requirements od | None \<Rightarrow> []) @
     (if sq_action q = ''edit_order'' then [OrderEditing]
      else if sq_action q = ''set_position_tpsl'' then [PositionTpSl]
      else if sq_action q = ''set_leverage'' then [LeverageControl] else []) @
     (if sq_domain q = ''futures_grid'' then [GridExecution] else [])"

definition buildVenueMetadata :: "shared_request \<Rightarrow> venue_summary" where
  "buildVenueMetadata q =
     (let vc = normalizeCapabilities (sq_venue q);
          venue = (\<lambda>f. case sq_venue q of Some v \<Rightarrow> f v | None \<Rightarrow> None)
      in \<lparr> vs_executionVenue = normalizeVenueName (venue sv_executionVenue),
           vs_marketDataVenue = normalizeVenueName
             (opt_or (venue (\<lambda>v. case sv_paperContext v of Some c \<Rightarrow> lm_marketDataVenue (pc_linkedMarketData c) | None \<Rightarrow> None))
               (venue sv_marketDataVenue)),
           vs_connectorKind = map_option vc_connectorKind vc,
           vs_supportsPerpExecution = map_option vc_supportsPerpExecution vc,
           vs_requiresLinkedMarketData = map_option vc_requiresLinkedMarketData vc \<rparr>)"

definition opt_bool :: "bool option \<Rightarrow> jsval" where
  "opt_bool b = (case b of Some x \<Rightarrow> JBool x | None \<Rightarrow> JNull)"

definition buildSharedExecutionMetadata :: "shared_request \<Rightarrow> jsobj option \<Rightarrow> jsobj" where
  "buildSharedExecutionMetadata q extra =
     (let venue = buildVenueMetadata q
      in spread (spread
          [(''executionFoundation'', JStr ''shared_execution_pipeline_v1''), (''executionDomain'', JStr (sq_domain q)),
           (''executionAction'', JStr (sq_action q)), (''executionSymbol'', opt_val (resolveRequestSymbol q)),
           (''executionVenue'', opt_val (vs_executionVenue venue)), (''marketDataVenue'', opt_val (vs_marketDataVenue venue)),
           (''executionConnectorKind'', opt_val (map_option connector_str (vs_connectorKind venue))),
           (''venueSupportsPerpExecution'', opt_bool (vs_supportsPerpExecution venue)),
           (''venueRequiresLinkedMarketData'', opt_bool (vs_requiresLinkedMarketData venue))]
          (opt_get (sq_metadata q) [])) (opt_get extra []))"

definition buildSharedExecutionVenue ::
  "string option \<Rightarrow> string option \<Rightarrow> capabilities option \<Rightarrow> paper_context option \<Rightarrow> bool option \<Rightarrow> shared_venue" where
  "buildSharedExecutionVenue executionVenue marketDataVenue vc paper skip =
     \<lparr> sv_executionVenue = normalizeVenueName executionVenue, sv_marketDataVenue = normalizeVenueName marketDataVenue,
       sv_capabilities = vc, sv_paperContext = paper, sv_skipValidation = (skip = Some True) \<rparr>"

fun block_reason_str :: "block_reason \<Rightarrow> string" where
  "block_reason_str KillSwitch = ''kill_switch''"
| "block_reason_str SymbolUnknown = ''symbol_unknown''"
| "block_reason_str TradingNotAllowed = ''trading_not_allowed''"
| "block_reason_str Validation = ''validation''"

text \<open>An input that says blocked with one of the engine's reasons passes for a result of the engine.\<close>

fun isEngineExecutionResult :: "raw_result \<Rightarrow> bool" where
  "isEngineExecutionResult (RawEngine _) = True"
| "isEngineExecutionResult (RawInput i) =
     (in_status i = StBlocked \<and> in_reason i \<in> block_reason_str ` {KillSwitch, SymbolUnknown, TradingNotAllowed, Validation})"

definition blocked_input :: "string \<Rightarrow> result_input" where
  "blocked_input reason = \<lparr> in_status = StBlocked, in_reason = reason, in_orderIds = Some [],
     in_metadata = Some [(''engineStatus'', JStr ''blocked''), (''engineReason'', JStr reason)], in_intent = None \<rparr>"

fun toResultInput :: "raw_result \<Rightarrow> result_input" where
  "toResultInput (RawEngine (Accepted oid)) =
     \<lparr> in_status = StExecuted, in_reason = ''accepted'',
       in_orderIds = Some (case oid of Some i \<Rightarrow> if i \<noteq> '''' then [i] else [] | None \<Rightarrow> []),
       in_metadata = Some [(''engineStatus'', JStr ''accepted'')], in_intent = None \<rparr>"
| "toResultInput (RawEngine (Blocked r)) = blocked_input (block_reason_str r)"
| "toResultInput (RawEngine Noop) =
     \<lparr> in_status = StNoop, in_reason = ''noop'', in_orderIds = Some [], in_metadata = Some [(''engineStatus'', JStr ''noop'')],
       in_intent = None \<rparr>"
| "toResultInput (RawInput i) = (if isEngineExecutionResult (RawInput i) then blocked_input (in_reason i) else i)"

definition normalizeSharedExecutionResponse :: "shared_request \<Rightarrow> raw_result \<Rightarrow> shared_response" where
  "normalizeSharedExecutionResponse q result =
     (let n = toResultInput result
      in \<lparr> sp_status = in_status n, sp_reason = in_reason n, sp_orderIds = toOrderIds (in_orderIds n),
           sp_metadata = buildSharedExecutionMetadata q (in_metadata n),
           sp_domain = sq_domain q, sp_action = sq_action q, sp_symbol = resolveRequestSymbol q,
           sp_venue = buildVenueMetadata q, sp_intent = opt_or (in_intent n) (sq_intent q) \<rparr>)"

section \<open>The check of the venue\<close>

definition plain_input :: "shared_status \<Rightarrow> string \<Rightarrow> jsobj \<Rightarrow> result_input" where
  "plain_input status reason meta =
     \<lparr> in_status = status, in_reason = reason, in_orderIds = None, in_metadata = Some meta, in_intent = None \<rparr>"

definition blocked_response :: "shared_request \<Rightarrow> string \<Rightarrow> jsobj \<Rightarrow> shared_response" where
  "blocked_response q reason meta = normalizeSharedExecutionResponse q (RawInput (plain_input StBlocked reason meta))"

fun support_code_str :: "support_code \<Rightarrow> string" where
  "support_code_str ManualSpotTradingDisabled = ''manual_spot_trading_disabled''"
| "support_code_str PaperSpotRequiresSupportedMarketData = ''paper_spot_requires_supported_market_data''"
| "support_code_str PaperPerpRequiresSupportedMarketData = ''paper_perp_requires_supported_market_data''"

text \<open>The requirement as the metadata carries it.\<close>

definition requirement_obj :: "requirement \<Rightarrow> jsval" where
  "requirement_obj r = JObj ((''feature'', JStr (feature_str r)) #
     (case r of
        OrderTypeReq t \<Rightarrow> [(''orderType'', JStr (order_type_str t))]
      | PositionModeReq m \<Rightarrow> [(''positionMode'', JStr (position_mode_str m))]
      | MarginModeReq m \<Rightarrow> [(''marginMode'', JStr (margin_mode_str m))]
      | _ \<Rightarrow> []))"

definition unsupported_paper :: "shared_request \<Rightarrow> linked_market_data option" where
  "unsupported_paper q =
     (case sq_venue q of
        Some v \<Rightarrow> (case sv_paperContext v of
                     Some c \<Rightarrow> if lm_supported (pc_linkedMarketData c) then None else Some (pc_linkedMarketData c)
                   | None \<Rightarrow> None)
      | None \<Rightarrow> None)"

definition validateSharedExecutionVenue :: "shared_request \<Rightarrow> shared_response option" where
  "validateSharedExecutionVenue q =
     (if (case sq_venue q of Some v \<Rightarrow> sv_skipValidation v | None \<Rightarrow> False) then None
      else case normalizeCapabilities (sq_venue q) of
        None \<Rightarrow> None
      | Some vc \<Rightarrow>
          if \<not> vc_supportsPerpExecution vc
          then Some (blocked_response q
                 (if vc_connectorKind vc = MarketDataOnly then ''execution_venue_market_data_only'' else ''execution_venue_unsupported'')
                 [(''validationStage'', JStr ''venue_capability'')])
          else case unsupported_paper q of
            Some link \<Rightarrow>
              Some (blocked_response q
                (case lm_supportCode link of Some c \<Rightarrow> support_code_str c | None \<Rightarrow> ''paper_linked_market_data_unsupported'')
                [(''validationStage'', JStr ''paper_market_data_link'')])
          | None \<Rightarrow>
              (case validateFuturesVenueRequirements vc (inferCapabilityRequirements q) of
                 None \<Rightarrow> None
               | Some u \<Rightarrow>
                   Some (blocked_response q (un_reason u)
                     [(''validationStage'', JStr ''venue_capability''),
                      (''capabilityFeature'', JStr (feature_str (un_requirement u))),
                      (''capabilityRequirement'', requirement_obj (un_requirement u)),
                      (''capabilityMessage'', JStr (un_message u)), (''capabilityDetails'', JObj (un_metadata u))])))"

section \<open>The pipeline\<close>

text \<open>
  The callbacks are actions over any kind of calls. A guard gets the request object itself and can change
  it in place, so it also returns the request as it leaves it.
\<close>

record 'c pipeline =
  pi_request :: shared_request
  pi_translateRequest :: "(shared_request \<Rightarrow> (js_error, 'c, shared_request) action) option"
  pi_guard :: "(shared_request \<Rightarrow> (js_error, 'c, guard_result \<times> shared_request) action) option"
  pi_execute :: "shared_request \<Rightarrow> (js_error, 'c, raw_result) action"
  pi_emitEvent :: "(shared_event \<Rightarrow> (js_error, 'c, unit) action) option"
  pi_onResult :: "(shared_response \<Rightarrow> shared_request \<Rightarrow> (js_error, 'c, shared_response option) action) option"
  pi_rethrow :: bool

definition event_of :: "phase \<Rightarrow> shared_request \<Rightarrow> shared_response option \<Rightarrow> shared_event" where
  "event_of ph q resp = \<lparr> ev_phase = ph, ev_request = q, ev_response = resp,
     ev_metadata = (case resp of Some r \<Rightarrow> sp_metadata r | None \<Rightarrow> buildSharedExecutionMetadata q None) \<rparr>"

definition emitPipelineEvent ::
  "'c pipeline \<Rightarrow> phase \<Rightarrow> shared_request \<Rightarrow> shared_response option \<Rightarrow> (js_error, 'c, unit) action" where
  "emitPipelineEvent p ph q resp = (case pi_emitEvent p of None \<Rightarrow> ret () | Some f \<Rightarrow> f (event_of ph q resp))"

definition finish :: "'c pipeline \<Rightarrow> shared_request \<Rightarrow> shared_response \<Rightarrow> (js_error, 'c, shared_response) action" where
  "finish p q resp = bind (emitPipelineEvent p (PhaseOf (sp_status resp)) q (Some resp)) (\<lambda>_. ret resp)"

definition hooked :: "'c pipeline \<Rightarrow> shared_request \<Rightarrow> shared_response \<Rightarrow> (js_error, 'c, shared_response) action" where
  "hooked p q resp =
     (case pi_onResult p of
        None \<Rightarrow> ret resp
      | Some f \<Rightarrow> bind (f resp q) (\<lambda>o'. ret (opt_get o' resp)))"

definition run_execute :: "'c pipeline \<Rightarrow> shared_request \<Rightarrow> (js_error, 'c, shared_response) action" where
  "run_execute p q =
     bind (pi_execute p q) (\<lambda>raw.
     bind (hooked p q (normalizeSharedExecutionResponse q raw)) (finish p q))"

definition failed_response :: "shared_request \<Rightarrow> js_error \<Rightarrow> shared_response" where
  "failed_response q e =
     normalizeSharedExecutionResponse q (RawInput (plain_input StFailed (er_message e)
       [(''errorName'', JStr (error_name (er_class e)))]))"

definition execution_failed :: "'c pipeline \<Rightarrow> shared_request \<Rightarrow> js_error \<Rightarrow> (js_error, 'c, shared_response) action" where
  "execution_failed p q e =
     bind (finish p q (failed_response q e)) (\<lambda>failed. if pi_rethrow p then throw e else ret failed)"

definition refused_response :: "shared_request \<Rightarrow> string \<Rightarrow> refusal option \<Rightarrow> jsobj option \<Rightarrow> shared_response" where
  "refused_response q reason status meta =
     normalizeSharedExecutionResponse q (RawInput (plain_input (refusal_status (opt_get status RefuseBlocked)) reason
       (spread [(''validationStage'', JStr ''guardrail'')] (opt_get meta []))))"

definition guarded :: "'c pipeline \<Rightarrow> shared_request \<Rightarrow> (js_error, 'c, guard_result \<times> shared_request) action" where
  "guarded p q = (case pi_guard p of None \<Rightarrow> ret (GuardAllow, q) | Some f \<Rightarrow> f q)"

definition executeSharedExecutionPipeline :: "'c pipeline \<Rightarrow> (js_error, 'c, shared_response) action" where
  "executeSharedExecutionPipeline p =
     bind (case pi_translateRequest p of Some f \<Rightarrow> f (pi_request p) | None \<Rightarrow> ret (pi_request p)) (\<lambda>q.
     bind (emitPipelineEvent p Requested q None) (\<lambda>_.
       case validateSharedExecutionVenue q of
         Some resp \<Rightarrow> finish p q resp
       | None \<Rightarrow>
           bind (guarded p q) (\<lambda>(g, q'). case g of
               GuardBlock reason status meta \<Rightarrow> finish p q' (refused_response q' reason status meta)
             | GuardAllow \<Rightarrow> catch (run_execute p q') (execution_failed p q'))))"

section \<open>Observed pipelines\<close>

text \<open>
  A pipeline whose callbacks are calls of their own, answered from the calls before: what it calls, and
  in which order, can be read from the calls it makes.
\<close>

datatype stage =
    Translate shared_request
  | Guard shared_request
  | Execute shared_request
  | OnResult shared_response shared_request
  | Emit shared_event

record answers =
  an_request :: shared_request
  an_translateRequest :: "(shared_request \<Rightarrow> stage list \<Rightarrow> js_error + shared_request) option"
  an_guard :: "(shared_request \<Rightarrow> stage list \<Rightarrow> js_error + guard_result \<times> shared_request) option"
  an_execute :: "shared_request \<Rightarrow> stage list \<Rightarrow> js_error + raw_result"
  an_emitEvent :: "(shared_event \<Rightarrow> stage list \<Rightarrow> js_error + unit) option"
  an_onResult :: "(shared_response \<Rightarrow> shared_request \<Rightarrow> stage list \<Rightarrow> js_error + shared_response option) option"
  an_rethrow :: bool

definition observed :: "answers \<Rightarrow> stage pipeline" where
  "observed a = \<lparr> pi_request = an_request a,
     pi_translateRequest = map_option (\<lambda>f q. perform (Translate q) (f q)) (an_translateRequest a),
     pi_guard = map_option (\<lambda>f q. perform (Guard q) (f q)) (an_guard a),
     pi_execute = (\<lambda>q. perform (Execute q) (an_execute a q)),
     pi_emitEvent = map_option (\<lambda>f ev. perform (Emit ev) (f ev)) (an_emitEvent a),
     pi_onResult = map_option (\<lambda>f r q. perform (OnResult r q) (f r q)) (an_onResult a),
     pi_rethrow = an_rethrow a \<rparr>"

lemma observed_simps [simp]:
  "pi_request (observed a) = an_request a"
  "pi_translateRequest (observed a) = map_option (\<lambda>f q. perform (Translate q) (f q)) (an_translateRequest a)"
  "pi_guard (observed a) = map_option (\<lambda>f q. perform (Guard q) (f q)) (an_guard a)"
  "pi_execute (observed a) = (\<lambda>q. perform (Execute q) (an_execute a q))"
  "pi_emitEvent (observed a) = map_option (\<lambda>f ev. perform (Emit ev) (f ev)) (an_emitEvent a)"
  "pi_onResult (observed a) = map_option (\<lambda>f r q. perform (OnResult r q) (f r q)) (an_onResult a)"
  "pi_rethrow (observed a) = an_rethrow a"
  by (simp_all add: observed_def)

section \<open>What the pipeline calls\<close>

definition translated :: "answers \<Rightarrow> shared_request \<Rightarrow> bool" where
  "translated p q \<longleftrightarrow>
     (case an_translateRequest p of None \<Rightarrow> q = an_request p | Some f \<Rightarrow> \<exists>t. f (an_request p) t = Inr q)"

text \<open>The guard let a request pass and left it as \<open>q'\<close>.\<close>

definition allowed :: "answers \<Rightarrow> shared_request \<Rightarrow> shared_request \<Rightarrow> bool" where
  "allowed p q q' \<longleftrightarrow> (case an_guard p of None \<Rightarrow> q' = q | Some f \<Rightarrow> \<exists>t. f q t = Inr (GuardAllow, q'))"

definition announced :: "answers \<Rightarrow> phase \<Rightarrow> shared_request \<Rightarrow> shared_response option \<Rightarrow> stage list" where
  "announced p ph q resp = (case an_emitEvent p of None \<Rightarrow> [] | Some _ \<Rightarrow> [Emit (event_of ph q resp)])"

text \<open>The calls in front of the execution of a request.\<close>

definition before_execute :: "answers \<Rightarrow> shared_request \<Rightarrow> stage list" where
  "before_execute p q =
     (case an_translateRequest p of None \<Rightarrow> [] | Some _ \<Rightarrow> [Translate (an_request p)]) @
     announced p Requested q None @ (case an_guard p of None \<Rightarrow> [] | Some _ \<Rightarrow> [Guard q])"

fun is_execute :: "stage \<Rightarrow> bool" where
  "is_execute (Execute _) = True"
| "is_execute _ = False"

fun phase_of :: "stage \<Rightarrow> phase option" where
  "phase_of (Emit ev) = Some (ev_phase ev)"
| "phase_of _ = None"

definition phases :: "stage list \<Rightarrow> phase list" where
  "phases cs = map the (filter (\<lambda>x. x \<noteq> None) (map phase_of cs))"

definition executions :: "stage list \<Rightarrow> stage list" where
  "executions = filter is_execute"

lemma executions_simps [simp]:
  "executions [] = []" "executions (xs @ ys) = executions xs @ executions ys" "executions (Execute q # cs) = Execute q # executions cs"
  "executions (Emit ev # cs) = executions cs" "executions (OnResult a b # cs) = executions cs"
  "executions (Translate q # cs) = executions cs" "executions (Guard q # cs) = executions cs"
  by (simp_all add: executions_def)

lemma phases_simps [simp]:
  "phases [] = []" "phases (xs @ ys) = phases xs @ phases ys" "phases (Emit ev # cs) = ev_phase ev # phases cs"
  "phases (Execute q # cs) = phases cs" "phases (OnResult a b # cs) = phases cs"
  "phases (Translate q # cs) = phases cs" "phases (Guard q # cs) = phases cs"
  by (simp_all add: phases_def)

lemma event_phase [simp]: "ev_phase (event_of ph q resp) = ph"
  by (simp add: event_of_def)

lemma announced_facts [simp]:
  "executions (announced p ph q resp) = []"
  "phases (announced p ph q resp) = (if an_emitEvent p = None then [] else [ph])"
  by (simp_all add: announced_def split: option.split)

lemma before_facts [simp]:
  "executions (before_execute p q) = []"
  "phases (before_execute p q) = (if an_emitEvent p = None then [] else [Requested])"
  by (simp_all add: before_execute_def split: option.split)

text \<open>A sink that answers: the contracts below say what is announced when it does.\<close>

definition sink_answers :: "answers \<Rightarrow> bool" where
  "sink_answers p \<longleftrightarrow> (\<forall>f ev t. an_emitEvent p = Some f \<longrightarrow> (\<exists>u. f ev t = Inr u))"

lemma emit_event_does:
  "does (emitPipelineEvent (observed p) ph q resp) (\<lambda>r cs. cs = announced p ph q resp \<and> (sink_answers p \<longrightarrow> r = Inr ()))"
  by (auto simp: emitPipelineEvent_def announced_def sink_answers_def split: option.split intro!: act_rules)

lemma finish_does:
  "does (finish (observed p) q resp)
     (\<lambda>r cs. cs = announced p (PhaseOf (sp_status resp)) q (Some resp) \<and> (\<forall>x. r = Inr x \<longrightarrow> x = resp) \<and>
        (sink_answers p \<longrightarrow> r = Inr resp))"
  unfolding finish_def by (rule does_bind [OF emit_event_does]) (auto intro!: act_rules)

lemma hooked_does: "does (hooked (observed p) q resp) (\<lambda>r cs. executions cs = [] \<and> phases cs = [])"
  unfolding hooked_def by (auto split: option.split intro!: does_bind_perform act_rules)

text \<open>What the calls from the execution on look like, and what is announced when the sink answers.\<close>

definition executed_ok :: "answers \<Rightarrow> shared_request \<Rightarrow> js_error + shared_response \<Rightarrow> stage list \<Rightarrow> bool" where
  "executed_ok p q r cs \<longleftrightarrow>
     (\<exists>post. cs = Execute q # post \<and> executions post = []) \<and>
     (sink_answers p \<and> an_emitEvent p \<noteq> None \<longrightarrow>
        (case r of Inr resp \<Rightarrow> phases cs = [PhaseOf (sp_status resp)]
         | Inl e \<Rightarrow> phases cs = [PhaseOf StFailed] \<and> an_rethrow p))"

lemma run_execute_does:
  "does (run_execute (observed p) q)
     (\<lambda>r cs. (\<exists>post. cs = Execute q # post \<and> executions post = []) \<and>
        (sink_answers p \<and> an_emitEvent p \<noteq> None \<longrightarrow>
           phases cs = (case r of Inr resp \<Rightarrow> [PhaseOf (sp_status resp)] | Inl e \<Rightarrow> [])))"
  unfolding run_execute_def observed_simps
proof (rule does_bind_perform)
  fix t raw
  show "does (bind (hooked (observed p) q (normalizeSharedExecutionResponse q raw)) (finish (observed p) q))
    (\<lambda>r cs. (\<exists>post. Execute q # cs = Execute q # post \<and> executions post = []) \<and>
        (sink_answers p \<and> an_emitEvent p \<noteq> None \<longrightarrow>
           phases (Execute q # cs) = (case r of Inr resp \<Rightarrow> [PhaseOf (sp_status resp)] | Inl e \<Rightarrow> [])))"
    by (rule does_bind [OF hooked_does]) (auto intro!: does_mono [OF finish_does])
qed auto

lemma failed_status [simp]: "sp_status (failed_response q e) = StFailed"
  by (simp add: failed_response_def normalizeSharedExecutionResponse_def plain_input_def Let_def)

lemma failed_reply:
  "sp_reason (failed_response q e) = er_message e" "sp_orderIds (failed_response q e) = []"
  by (simp_all add: failed_response_def normalizeSharedExecutionResponse_def plain_input_def toOrderIds_def opt_get_def Let_def)

lemma execution_failed_does:
  "does (execution_failed (observed p) q e)
     (\<lambda>r cs. executions cs = [] \<and> phases cs = (if an_emitEvent p = None then [] else [PhaseOf StFailed]) \<and>
        (sink_answers p \<longrightarrow> r = (if an_rethrow p then Inl e else Inr (failed_response q e))))"
  unfolding execution_failed_def by (rule does_bind [OF finish_does]) (auto intro!: act_rules)

lemma catch_execute_does: "does (catch (run_execute (observed p) q) (execution_failed (observed p) q)) (executed_ok p q)"
  by (rule does_catch [OF run_execute_does])
    (auto simp: executed_ok_def intro!: does_mono [OF execution_failed_does] split: sum.splits if_splits)

lemma refusal_status_cases [simp]: "refusal_status st = StBlocked \<or> refusal_status st = StNoop"
  by (cases st) simp_all

lemma refusal_facts:
  "sp_status (normalizeSharedExecutionResponse q (RawInput (plain_input (refusal_status st) reason meta))) = refusal_status st"
  by (cases st) (simp_all add: normalizeSharedExecutionResponse_def plain_input_def blocked_input_def Let_def)

lemma refused_status [simp]: "sp_status (refused_response q reason st meta) = refusal_status (opt_get st RefuseBlocked)"
  by (simp add: refused_response_def refusal_facts)

lemma blocked_status [simp]: "sp_status (blocked_response q reason meta) = StBlocked"
  using refusal_facts [of q RefuseBlocked] by (simp add: blocked_response_def)

lemma validate_status: "validateSharedExecutionVenue q = Some resp \<Longrightarrow> sp_status resp = StBlocked"
  by (auto simp: validateSharedExecutionVenue_def split: if_splits option.splits)

text \<open>A venue the pipeline executes on: nothing is known of it, or it has all that the request asks for.\<close>

definition venue_ready :: "shared_request \<Rightarrow> bool" where
  "venue_ready q \<longleftrightarrow>
     (case sq_venue q of Some v \<Rightarrow> sv_skipValidation v | None \<Rightarrow> False) \<or>
     (case normalizeCapabilities (sq_venue q) of
        None \<Rightarrow> True
      | Some vc \<Rightarrow> vc_supportsPerpExecution vc \<and> unsupported_paper q = None \<and>
          (\<forall>req\<in>set (inferCapabilityRequirements q). supports vc req))"

lemma validate_ready: "validateSharedExecutionVenue q = None \<longleftrightarrow> venue_ready q"
  by (auto simp: validateSharedExecutionVenue_def venue_ready_def requirements_None [symmetric] split: option.splits)

text \<open>
  The contract of the whole pipeline, over a contract \<open>E\<close> of the part from the execution on: the request
  is refused without an execution, or the calls that lead to it are followed by what \<open>E\<close> says.
\<close>

definition piped ::
  "answers \<Rightarrow> (shared_request \<Rightarrow> js_error + shared_response \<Rightarrow> stage list \<Rightarrow> bool) \<Rightarrow> js_error + shared_response \<Rightarrow> stage list \<Rightarrow> bool"
where
  "piped p E r cs \<longleftrightarrow>
     executions cs = [] \<and>
       (\<forall>resp. r = Inr resp \<longrightarrow> (sp_status resp = StBlocked \<or> sp_status resp = StNoop) \<and>
          (an_emitEvent p \<noteq> None \<longrightarrow> phases cs = [Requested, PhaseOf (sp_status resp)])) \<or>
     (\<exists>q q' cs'. translated p q \<and> venue_ready q \<and> allowed p q q' \<and> cs = before_execute p q @ cs' \<and> E q' r cs')"

definition translate_calls :: "answers \<Rightarrow> stage list" where
  "translate_calls p = (case an_translateRequest p of None \<Rightarrow> [] | Some _ \<Rightarrow> [Translate (an_request p)])"

definition guard_calls :: "answers \<Rightarrow> shared_request \<Rightarrow> stage list" where
  "guard_calls p q = (case an_guard p of None \<Rightarrow> [] | Some _ \<Rightarrow> [Guard q])"

lemma call_facts [simp]:
  "executions (translate_calls p) = []" "phases (translate_calls p) = []"
  "executions (guard_calls p q) = []" "phases (guard_calls p q) = []"
  by (simp_all add: translate_calls_def guard_calls_def split: option.split)

lemma before_execute_calls: "before_execute p q = translate_calls p @ announced p Requested q None @ guard_calls p q"
  by (simp add: before_execute_def translate_calls_def guard_calls_def)

lemma translate_does:
  "does (case pi_translateRequest (observed p) of Some f \<Rightarrow> f (pi_request (observed p)) | None \<Rightarrow> ret (pi_request (observed p)))
     (\<lambda>r cs. cs = translate_calls p \<and> (\<forall>q. r = Inr q \<longrightarrow> translated p q))"
  by (auto simp: translate_calls_def translated_def split: option.split intro!: act_rules)

lemma guarded_does: "does (guarded (observed p) q) (\<lambda>r cs. cs = guard_calls p q \<and> (\<forall>q'. r = Inr (GuardAllow, q') \<longrightarrow> allowed p q q'))"
  by (auto simp: guarded_def guard_calls_def allowed_def split: option.split intro!: act_rules)

lemma refused_piped:
  assumes "sp_status resp = StBlocked \<or> sp_status resp = StNoop" "\<forall>x. r = Inr x \<longrightarrow> x = resp" "executions cs = []" "phases cs = []"
    and "executions cs' = []" "phases cs' = []"
  shows "piped p E r (cs @ announced p Requested q None @ cs' @ announced p (PhaseOf (sp_status resp)) q' (Some resp))"
  using assms by (auto simp: piped_def)

lemma guard_then_does:
  assumes "translated p q" "venue_ready q" "\<And>q. does (catch (run_execute (observed p) q) (execution_failed (observed p) q)) (E q)"
  shows "does (bind (guarded (observed p) q) (\<lambda>(g, q'). case g of
             GuardBlock reason status meta \<Rightarrow> finish (observed p) q' (refused_response q' reason status meta)
           | GuardAllow \<Rightarrow> catch (run_execute (observed p) q') (execution_failed (observed p) q')))
           (\<lambda>r cs. piped p E r (translate_calls p @ announced p Requested q None @ cs))"
proof (rule does_bind [OF guarded_does], goal_cases)
  case (2 g cs)
  obtain h q' where g: "g = (h, q')" by fastforce
  show ?case
  proof (cases h)
    case GuardAllow
    have "piped p E r (before_execute p q @ cs')" if "E q' r cs'" for r cs'
      using that 2 assms(1,2) GuardAllow unfolding piped_def g by blast
    then have "does (catch (run_execute (observed p) q') (execution_failed (observed p) q')) (\<lambda>r cs'. piped p E r (before_execute p q @ cs'))"
      by (rule does_mono [OF assms(3)])
    then show ?thesis using 2(1) by (simp add: g GuardAllow before_execute_calls)
  next
    case (GuardBlock reason status meta)
    have "does (finish (observed p) q' (refused_response q' reason status meta))
        (\<lambda>r cs'. piped p E r (translate_calls p @ announced p Requested q None @ guard_calls p q @ cs'))"
      by (rule does_mono [OF finish_does]) (elim conjE, hypsubst, rule refused_piped, simp_all)
    then show ?thesis using 2(1) by (simp add: g GuardBlock)
  qed
qed (simp add: piped_def)

lemma pipeline_does:
  assumes "\<And>q. does (catch (run_execute (observed p) q) (execution_failed (observed p) q)) (E q)"
  shows "does (executeSharedExecutionPipeline (observed p)) (piped p E)"
  unfolding executeSharedExecutionPipeline_def
proof (rule does_bind [OF translate_does], goal_cases)
  case (2 q cs)
  then have q: "translated p q" "cs = translate_calls p" by auto
  show ?case
  proof (rule does_bind [OF emit_event_does], goal_cases)
    case (2 u cs')
    then have cs': "cs' = announced p Requested q None" by simp
    show ?case
    proof (cases "validateSharedExecutionVenue q")
      case None
      then show ?thesis using guard_then_does [OF q(1) None [unfolded validate_ready] assms] by (simp add: q(2) cs')
    next
      case (Some resp)
      then show ?thesis using validate_status [OF Some] q cs'
        by (auto simp: piped_def intro!: does_mono [OF finish_does])
    qed
  qed (simp add: piped_def q)
qed (simp add: piped_def)

section \<open>Properties\<close>

text \<open>C7: The pipeline executes at most one request, after translation, announcement and an allowing
  guard in this order. It is the translated request as the guard leaves it, and the venue had all that the
  translated request asks for. The pipeline never answers executed or failed without that execution.\<close>

theorem pipeline_order:
  assumes "executeSharedExecutionPipeline (observed p) [] = (r, cs)"
  shows "length (executions cs) \<le> 1 \<and>
    (\<forall>q'. Execute q' \<in> set cs \<longrightarrow>
      (\<exists>q post. translated p q \<and> venue_ready q \<and> allowed p q q' \<and> cs = before_execute p q @ Execute q' # post)) \<and>
    (\<forall>resp. r = Inr resp \<and> (sp_status resp = StExecuted \<or> sp_status resp = StFailed) \<longrightarrow> (\<exists>q. Execute q \<in> set cs))"
proof -
  have ex: "Execute q \<in> set cs \<longleftrightarrow> Execute q \<in> set (executions cs)" for q by (simp add: executions_def)
  show ?thesis
    using does_start [OF pipeline_does [OF catch_execute_does] assms] unfolding ex piped_def executed_ok_def
    by (elim disjE exE conjE) auto
qed

text \<open>When the event sink answers, a response of the pipeline has been announced by exactly two
  events, the request and, last, the status the caller gets, on every path: a blocked venue, a refusing
  guard, an execution that returns and one that throws, and a result hook that changes the status.\<close>

theorem pipeline_announces:
  assumes "executeSharedExecutionPipeline (observed p) [] = (Inr resp, cs)" "sink_answers p" "an_emitEvent p \<noteq> None"
  shows "phases cs = [Requested, PhaseOf (sp_status resp)]"
  using does_start [OF pipeline_does [OF catch_execute_does] assms(1)] assms(2,3) by (auto simp: piped_def executed_ok_def)

text \<open>C32: An order the execution placed is lost when the event sink fails on its announcement: the event is
  sent inside the block whose handler reports a failed execution, so the caller gets the status failed with
  no order ids and the sink's error as the reason, after one execution that was accepted with an order id.\<close>

theorem pipeline_lost_order:
  assumes "executeSharedExecutionPipeline (observed p) [] = (Inr resp, cs)" "an_emitEvent p = Some f" "an_onResult p = None"
    and "\<And>q t. an_execute p q t = Inr (RawEngine (Accepted (Some oid)))"
    and "\<And>ev t. ev_phase ev = PhaseOf StExecuted \<Longrightarrow> f ev t = Inl err"
    and "Execute q \<in> set cs"
  shows "sp_status resp = StFailed \<and> sp_orderIds resp = [] \<and> sp_reason resp = er_message err \<and> length (executions cs) = 1"
proof -
  have run: "does (run_execute (observed p) q) (\<lambda>r cs. r = Inl err \<and> length (executions cs) = 1)" for q
    unfolding run_execute_def observed_simps
    by (rule does_bind_perform)
      (auto simp: assms(3,4) hooked_def finish_def emitPipelineEvent_def assms(2) event_of_def assms(5)
        normalizeSharedExecutionResponse_def Let_def intro!: does_bind_ret does_bind_perform act_rules)
  have failed: "does (execution_failed (observed p) q err) (\<lambda>r cs. executions cs = [] \<and> (\<forall>x. r = Inr x \<longrightarrow> x = failed_response q err))" for q
    unfolding execution_failed_def by (rule does_bind [OF finish_does]) (auto intro!: act_rules)
  have "does (catch (run_execute (observed p) q) (execution_failed (observed p) q))
      (\<lambda>r cs. length (executions cs) = 1 \<and> (\<forall>x. r = Inr x \<longrightarrow> x = failed_response q err))" for q
    by (rule does_catch [OF run]) (auto intro!: does_mono [OF failed])
  note start = does_start [OF pipeline_does [OF this] assms(1)]
  have "Execute q \<in> set (executions cs)" using assms(6) by (simp add: executions_def)
  then obtain q' where "resp = failed_response q' err" "length (executions cs) = 1"
    using start unfolding piped_def by (elim disjE exE conjE) auto
  then show ?thesis by (simp add: failed_reply)
qed

section \<open>Witnesses\<close>

definition sample_request :: shared_request where
  "sample_request = \<lparr> sq_domain = ''manual'', sq_action = ''place_order'', sq_symbol = Some ''BTC-USDT'', sq_intent = None,
     sq_venue = Some (buildSharedExecutionVenue (Some ''Bitget'') None None None None),
     sq_requirements = Some [OrderTypeReq Limit, LeverageControl], sq_metadata = None \<rparr>"

definition sink_error :: js_error where
  "sink_error = mk_error (OtherError ''Error'') '''' ''sink''"

text \<open>An execution that accepts the order, under a guard that allows it and a sink that fails on a phase.\<close>

definition sample_pipeline :: "phase option \<Rightarrow> answers" where
  "sample_pipeline broken =
     \<lparr> an_request = sample_request, an_translateRequest = Some (\<lambda>q _. Inr (q\<lparr>sq_symbol := Some ''ETHUSDT''\<rparr>)),
       an_guard = Some (\<lambda>q _. Inr (GuardAllow, q)), an_execute = \<lambda>_ _. Inr (RawEngine (Accepted (Some ''o-1''))),
       an_emitEvent = Some (\<lambda>ev _. if Some (ev_phase ev) = broken then Inl sink_error else Inr ()),
       an_onResult = None, an_rethrow = False \<rparr>"

definition sample_response :: "phase option \<Rightarrow> (shared_status \<times> string \<times> string list) option" where
  "sample_response broken =
     (case fst (executeSharedExecutionPipeline (observed (sample_pipeline broken)) []) of
        Inr r \<Rightarrow> Some (sp_status r, sp_reason r, sp_orderIds r)
      | Inl _ \<Rightarrow> None)"

lemma sample_accepted: "sample_response None = Some (StExecuted, ''accepted'', [''o-1''])"
  by code_simp

lemma sample_lost: "sample_response (Some (PhaseOf StExecuted)) = Some (StFailed, ''sink'', [])"
  by code_simp

lemma sample_answer:
  assumes "sample_response b = Some (st, re, ids)"
  obtains resp cs where "executeSharedExecutionPipeline (observed (sample_pipeline b)) [] = (Inr resp, cs)"
    "sp_status resp = st" "sp_reason resp = re" "sp_orderIds resp = ids"
  using assms by (cases "executeSharedExecutionPipeline (observed (sample_pipeline b)) []") (auto simp: sample_response_def split: sum.splits)

theorem pipeline_order_witness:
  "\<exists>q cs resp. executeSharedExecutionPipeline (observed (sample_pipeline None)) [] = (Inr resp, cs) \<and> Execute q \<in> set cs \<and>
     venue_ready q \<and> sq_symbol q = Some ''ETHUSDT''"
proof -
  obtain resp cs where run: "executeSharedExecutionPipeline (observed (sample_pipeline None)) [] = (Inr resp, cs)" "sp_status resp = StExecuted"
    by (rule sample_answer [OF sample_accepted]) auto
  then obtain q q' where "Execute q' \<in> set cs" "translated (sample_pipeline None) q" "venue_ready q"
      "allowed (sample_pipeline None) q q'"
    using pipeline_order [OF run(1)] by metis
  moreover from this have "q' = q" by (simp add: allowed_def sample_pipeline_def)
  moreover have "sq_symbol q = Some ''ETHUSDT''"
    using \<open>translated (sample_pipeline None) q\<close> by (auto simp: translated_def sample_pipeline_def)
  ultimately show ?thesis using run(1) by auto
qed

theorem pipeline_announces_witness:
  "\<exists>resp cs. executeSharedExecutionPipeline (observed (sample_pipeline None)) [] = (Inr resp, cs) \<and> phases cs = [Requested, PhaseOf StExecuted]"
proof -
  obtain resp cs where run: "executeSharedExecutionPipeline (observed (sample_pipeline None)) [] = (Inr resp, cs)" "sp_status resp = StExecuted"
    by (rule sample_answer [OF sample_accepted]) auto
  then show ?thesis
    using pipeline_announces [OF run(1)] by (auto simp: sink_answers_def sample_pipeline_def)
qed

theorem pipeline_lost_order_witness:
  "\<exists>resp cs. executeSharedExecutionPipeline (observed (sample_pipeline (Some (PhaseOf StExecuted)))) [] = (Inr resp, cs) \<and>
     sp_status resp = StFailed \<and> length (executions cs) = 1 \<and> sp_orderIds resp = []"
proof -
  let ?p = "sample_pipeline (Some (PhaseOf StExecuted))"
  obtain resp cs where run: "executeSharedExecutionPipeline (observed ?p) [] = (Inr resp, cs)" "sp_status resp = StFailed"
    by (rule sample_answer [OF sample_lost]) auto
  then obtain q where "Execute q \<in> set cs"
    using does_start [OF pipeline_does [OF catch_execute_does] run(1)] unfolding piped_def executed_ok_def
    by (elim disjE exE conjE) auto
  from pipeline_lost_order [OF run(1) _ _ _ _ this, of _ "''o-1''" sink_error]
  show ?thesis using run by (simp add: sample_pipeline_def)
qed

end
