(* ===== verification/SimpleExecution.thy ===== *)
theory SimpleExecution
  imports Guardrails ExecutionPipeline
begin

text \<open>
  The simple execution mode of the runner (apps/runner/src/execution/simpleExecutionMode.ts with
  sharedExecution.ts, the limit price of modeUtils.ts and the gate summary of runtime/decisionTrace.ts):
  one tick of a bot. The intent of a signal is checked by the guardrails, announced in the stored state as
  a pending order, handed to the engine through the shared pipeline, and counted once a position of the
  venue confirms it. The database, the venue, the engine and the plugins that may change the intent answer
  from the calls made before.
\<close>

section \<open>Signals, bots and results\<close>

record gate_summary =
  gs_applied :: bool
  gs_allow :: bool
  gs_reason :: string
  gs_sizeMultiplier :: jsnum
  gs_timeframe :: "string option"

definition defaultGateSummary :: gate_summary where
  "defaultGateSummary = \<lparr> gs_applied = False, gs_allow = True, gs_reason = ''gating_disabled'', gs_sizeMultiplier = Fin 1,
     gs_timeframe = None \<rparr>"

definition coerceGateSummary :: "jsval \<Rightarrow> gate_summary \<Rightarrow> gate_summary" where
  "coerceGateSummary v fallback =
     (case as_object v of
        None \<Rightarrow> fallback
      | Some row \<Rightarrow>
          (let tf = norm_string (get row ''timeframe''); size = js_number (get row ''sizeMultiplier'')
           in \<lparr> gs_applied = bool_or (get row ''applied'') (gs_applied fallback),
                gs_allow = bool_or (get row ''allow'') (gs_allow fallback),
                gs_reason = opt_get (text_of (get row ''reason'')) (gs_reason fallback),
                gs_sizeMultiplier = (if is_finite size then size else gs_sizeMultiplier fallback),
                gs_timeframe = (if tf \<in> {''5m'', ''15m'', ''1h'', ''4h'', ''1d''} then Some tf else None) \<rparr>))"

text \<open>Of a signal the mode reads the intent and the gate of its metadata.\<close>

record signal =
  sg_legacyIntent :: trade_intent
  sg_gate :: jsval

record bot =
  bt_id :: string
  bt_strategyKey :: string
  bt_paramsJson :: jsval
  bt_symbol :: string
  bt_exchange :: string
  bt_marketDataExchange :: "string option"
  bt_marketDataAccountId :: "string option"

datatype runner_status = RsExecuted | RsBlocked | RsNoop | RsError

record execution_result =
  xr_status :: runner_status
  xr_reason :: string
  xr_orderIds :: "string list option"
  xr_metadata :: jsobj
  xr_outcomeOk :: bool
  xr_intent :: trade_intent
  xr_gate :: gate_summary
  xr_shared :: "shared_response option"

fun mapSharedStatusToRunnerStatus :: "shared_status \<Rightarrow> runner_status" where
  "mapSharedStatusToRunnerStatus StExecuted = RsExecuted"
| "mapSharedStatusToRunnerStatus StBlocked = RsBlocked"
| "mapSharedStatusToRunnerStatus StNoop = RsNoop"
| "mapSharedStatusToRunnerStatus StFailed = RsError"

definition mapSharedStatusToLegacyOutcome :: "shared_status \<Rightarrow> bool" where
  "mapSharedStatusToLegacyOutcome st \<longleftrightarrow> \<not> (st = StBlocked \<or> st = StFailed)"

definition toRunnerExecutionResult :: "shared_response \<Rightarrow> trade_intent \<Rightarrow> gate_summary \<Rightarrow> execution_result" where
  "toRunnerExecutionResult resp i g =
     \<lparr> xr_status = mapSharedStatusToRunnerStatus (sp_status resp), xr_reason = sp_reason resp,
       xr_orderIds = (if sp_orderIds resp \<noteq> [] then Some (sp_orderIds resp) else None), xr_metadata = sp_metadata resp,
       xr_outcomeOk = mapSharedStatusToLegacyOutcome (sp_status resp), xr_intent = opt_get (sp_intent resp) i, xr_gate = g,
       xr_shared = Some resp \<rparr>"

section \<open>Calls\<close>

record diagnostic =
  dg_type :: string
  dg_message :: string
  dg_meta :: jsobj

datatype sim_call =
    ApplyExtensions trade_intent
  | WriteRisk diagnostic
  | GetState
  | PutState mode_state
  | GetPositions
  | RunEngine trade_intent

type_synonym 'a sim_act = "(js_error, sim_call, 'a) action"

text \<open>The engine of a tick: injected without an adapter, built with one, or neither with the reason.\<close>

datatype engine_choice = InjectedEngine | BuiltEngine | NoEngine string

record sim_env =
  sm_key :: string
  sm_engine :: engine_choice
  sm_extensions :: "trade_intent \<Rightarrow> sim_call list \<Rightarrow> js_error + trade_intent \<times> string list \<times> diagnostic list"
  sm_writeRisk :: "diagnostic \<Rightarrow> sim_call list \<Rightarrow> js_error + unit"
  sm_getState :: "sim_call list \<Rightarrow> js_error + jsval"
  sm_putState :: "mode_state \<Rightarrow> sim_call list \<Rightarrow> js_error + unit"
  sm_getPositions :: "sim_call list \<Rightarrow> js_error + position list"
  sm_runEngine :: "trade_intent \<Rightarrow> sim_call list \<Rightarrow> js_error + engine_result"
  sm_environment :: environment
  sm_parseDate :: "string \<Rightarrow> jsnum"

definition write_risk :: "sim_env \<Rightarrow> diagnostic \<Rightarrow> unit sim_act" where
  "write_risk en d = perform (WriteRisk d) (sm_writeRisk en d)"

fun write_risks :: "sim_env \<Rightarrow> diagnostic list \<Rightarrow> unit sim_act" where
  "write_risks en [] = ret ()"
| "write_risks en (d # ds) = bind (write_risk en d) (\<lambda>_. write_risks en ds)"

definition get_state :: "sim_env \<Rightarrow> int \<Rightarrow> mode_state sim_act" where
  "get_state en now = bind (perform GetState (sm_getState en)) (\<lambda>v. ret (normalizeExecutionModeState v now))"

definition put_state :: "sim_env \<Rightarrow> mode_state \<Rightarrow> unit sim_act" where
  "put_state en s = perform (PutState s) (sm_putState en s)"

section \<open>Intents\<close>

definition toOrderMarkPrice :: "trade_intent \<Rightarrow> jsnum option" where
  "toOrderMarkPrice i =
     (case i of
        OpenIntent _ _ order \<Rightarrow>
          (let od = opt_get order no_params in positive_num (opt_or (op_markPrice od) (op_price od)))
      | _ \<Rightarrow> None)"

definition applyLimitOffsetPrice :: "string \<Rightarrow> position_side \<Rightarrow> order_params option \<Rightarrow> jsnum \<Rightarrow> trade_intent" where
  "applyLimitOffsetPrice symbol side order offsetBps =
     (let i = OpenIntent symbol side order; od = opt_get order no_params
      in if opt_get (op_type od) Market \<noteq> Limit then i
         else if op_price od \<noteq> None then i
         else case toOrderMarkPrice i of
           None \<Rightarrow> i
         | Some mark \<Rightarrow>
             (let offset = n_div (n_max (Fin 0) offsetBps) (Fin 10000);
                  price = (if side = Long then n_mul mark (n_sub (Fin 1) offset) else n_mul mark (n_add (Fin 1) offset))
              in OpenIntent symbol side (Some (od\<lparr> op_price := Some price \<rparr>))))"

definition toIntentWithSimpleOverrides :: "trade_intent \<Rightarrow> execution_settings \<Rightarrow> trade_intent" where
  "toIntentWithSimpleOverrides i st =
     (case i of
        OpenIntent symbol side order \<Rightarrow>
          (let od = (opt_get order no_params)\<lparr> op_type := Some (es_orderType (st_simple st)) \<rparr>
           in if es_orderType (st_simple st) \<noteq> Limit then OpenIntent symbol side (Some od)
              else applyLimitOffsetPrice symbol side (Some od) (es_limitOffsetBps (st_simple st)))
      | _ \<Rightarrow> i)"

definition intentSymbol :: "trade_intent \<Rightarrow> string \<Rightarrow> string" where
  "intentSymbol i fallback = (case i of OpenIntent s _ _ \<Rightarrow> s | CloseIntent s _ \<Rightarrow> s | NoIntent \<Rightarrow> fallback)"

definition intentSide :: "trade_intent \<Rightarrow> position_side option" where
  "intentSide i = (case i of OpenIntent _ side _ \<Rightarrow> Some side | _ \<Rightarrow> None)"

definition intent_order_of :: "trade_intent \<Rightarrow> order_params" where
  "intent_order_of i = (case i of OpenIntent _ _ od \<Rightarrow> opt_get od no_params | CloseIntent _ od \<Rightarrow> opt_get od no_params | NoIntent \<Rightarrow> no_params)"

text \<open>The client order id, the state after its sequence number is used, and that number.\<close>

definition nextClientOrderId :: "string \<Rightarrow> string \<Rightarrow> mode_state \<Rightarrow> trade_intent \<Rightarrow> string \<Rightarrow> string \<times> mode_state \<times> int" where
  "nextClientOrderId botId key s i fallbackSymbol =
     (let existing = str_trim (opt_get (op_clientOrderId (intent_order_of i)) '''')
      in if existing \<noteq> '''' then (existing, s, 1)
         else
           (let sq = max 1 (ms_normalOrderSeq s);
                sym = toCanonicalFallbackSymbol (intentSymbol i fallbackSymbol);
                symbol = (if sym = '''' then ''SYMBOL'' else sym);
                side = (case intentSide i of Some sd \<Rightarrow> side_str sd | None \<Rightarrow> ''flat'')
            in (''normal-'' @ botId @ ''-'' @ key @ ''-'' @ symbol @ ''-'' @ intent_type i @ ''-'' @ side @ ''-'' @ int_str sq,
                s\<lparr> ms_normalOrderSeq := sq + 1 \<rparr>, sq)))"

definition withClientOrderId :: "trade_intent \<Rightarrow> string \<Rightarrow> trade_intent" where
  "withClientOrderId i cid =
     (case i of
        OpenIntent s side od \<Rightarrow> OpenIntent s side (Some ((opt_get od no_params)\<lparr> op_clientOrderId := Some cid \<rparr>))
      | CloseIntent s od \<Rightarrow> CloseIntent s (Some ((opt_get od no_params)\<lparr> op_clientOrderId := Some cid \<rparr>))
      | NoIntent \<Rightarrow> NoIntent)"

definition is_close :: "trade_intent \<Rightarrow> bool" where
  "is_close i \<longleftrightarrow> (case i of CloseIntent _ _ \<Rightarrow> True | _ \<Rightarrow> False)"

definition buildPendingOrder :: "trade_intent \<Rightarrow> string \<Rightarrow> int \<Rightarrow> int \<Rightarrow> pending_order" where
  "buildPendingOrder i cid sq now =
     (let od = intent_order_of i
      in \<lparr> po_clientOrderId = cid, po_exchangeOrderId = None, po_status = SubmitPending,
           po_intentType = (if is_close i then CloseKind else OpenKind), po_symbol = intentSymbol i '''',
           po_side = intentSide i, po_orderType = (if op_type od = Some Limit then Limit else Market),
           po_qty = finite_opt (op_qty od), po_price = finite_opt (op_price od),
           po_reduceOnly = (op_reduceOnly od = Some True \<or> is_close i), po_attemptSeq = sq,
           po_createdAt = toISOString now, po_updatedAt = toISOString now, po_lastCheckedAt = None, po_lastReason = None,
           po_recoveryHint = None \<rparr>)"

section \<open>Pending orders\<close>

definition unresolved_order :: "string \<times> pending_order \<Rightarrow> bool" where
  "unresolved_order kp \<longleftrightarrow> po_status (snd kp) \<noteq> FailedFinal"

definition listUnresolvedPendingOrders :: "mode_state \<Rightarrow> pending_order list" where
  "listUnresolvedPendingOrders s = map snd (filter unresolved_order (ms_pendingOrders s))"

definition isPendingConfirmationReason :: "string \<Rightarrow> bool" where
  "isPendingConfirmationReason reason \<longleftrightarrow>
     (let n = str_lower reason
      in str_includes n ''pending'' \<or> str_includes n ''timeout'' \<or> str_includes n ''unknown'' \<or> str_includes n ''confirmation'')"

definition findMatchingPosition :: "position list \<Rightarrow> string \<Rightarrow> position_side option \<Rightarrow> position option" where
  "findMatchingPosition ps symbol side =
     find (\<lambda>r. toCanonicalFallbackSymbol (ps_symbol r) = toCanonicalFallbackSymbol symbol \<and>
                (case side of Some sd \<Rightarrow> ps_side r = sd | None \<Rightarrow> True) \<and> n_lt (Fin 0) (ps_size r)) ps"

text \<open>A pending open is confirmed by a position of its symbol and side, a close by no position of its symbol.\<close>

definition confirmed_by :: "position list \<Rightarrow> pending_order \<Rightarrow> bool" where
  "confirmed_by ps p \<longleftrightarrow>
     (case po_intentType p of
        OpenKind \<Rightarrow> findMatchingPosition ps (po_symbol p) (po_side p) \<noteq> None
      | CloseKind \<Rightarrow> findMatchingPosition ps (po_symbol p) None = None)"

definition pending_intent :: "pending_order \<Rightarrow> trade_intent" where
  "pending_intent p =
     (let od = no_params\<lparr> op_type := Some (po_orderType p), op_qty := po_qty p, op_price := po_price p,
        op_clientOrderId := Some (po_clientOrderId p) \<rparr>
      in case po_intentType p of
           OpenKind \<Rightarrow> OpenIntent (po_symbol p) (opt_get (po_side p) Long) (Some (od\<lparr> op_reduceOnly := Some (po_reduceOnly p) \<rparr>))
         | CloseKind \<Rightarrow> CloseIntent (po_symbol p) (Some (od\<lparr> op_reduceOnly := Some True \<rparr>)))"

definition remove_key :: "string \<Rightarrow> (string \<times> 'a) list \<Rightarrow> (string \<times> 'a) list" where
  "remove_key k = filter (\<lambda>kv. fst kv \<noteq> k)"

definition still_pending :: "int \<Rightarrow> pending_order \<Rightarrow> pending_order" where
  "still_pending now p =
     p\<lparr> po_status := PendingFillConfirmation, po_updatedAt := toISOString now, po_lastCheckedAt := Some (toISOString now),
        po_lastReason := Some ''pending_fill_confirmation'',
        po_recoveryHint := Some ''wait_for_venue_fill_or_manual_reconcile'' \<rparr>"

definition reconcile_one :: "position list \<Rightarrow> common_config \<Rightarrow> int \<Rightarrow> pending_order \<Rightarrow> mode_state \<times> int \<Rightarrow> mode_state \<times> int" where
  "reconcile_one ps c now p sn =
     (case sn of (s, n) \<Rightarrow>
        if confirmed_by ps p
        then (applyExecutionSuccessToState (pending_intent p) c
                (s\<lparr> ms_pendingOrders := remove_key (po_clientOrderId p) (ms_pendingOrders s) \<rparr>) now, n + 1)
        else (s\<lparr> ms_pendingOrders := put (po_clientOrderId p) (still_pending now p) (ms_pendingOrders s) \<rparr>, n))"

definition reconciled :: "position list \<Rightarrow> common_config \<Rightarrow> int \<Rightarrow> mode_state \<Rightarrow> mode_state \<times> int" where
  "reconciled ps c now s0 =
     (case fold (reconcile_one ps c now) (listUnresolvedPendingOrders s0) (s0, 0) of
        (s, n) \<Rightarrow> (s\<lparr> ms_lastReconciliationAt := Some (toISOString now), ms_updatedAt := toISOString now \<rparr>, n))"

definition reconcilePendingOrders ::
  "sim_env \<Rightarrow> common_config \<Rightarrow> int \<Rightarrow> mode_state \<Rightarrow> (mode_state \<times> int \<times> pending_order list) sim_act" where
  "reconcilePendingOrders en c now s =
     bind (perform GetPositions (sm_getPositions en)) (\<lambda>ps.
       case reconciled ps c now s of (s', n) \<Rightarrow> ret (s', n, listUnresolvedPendingOrders s'))"

section \<open>A tick\<close>

definition buildBlockedExecutionResult :: "gate_summary \<Rightarrow> trade_intent \<Rightarrow> string \<Rightarrow> jsobj \<Rightarrow> execution_result" where
  "buildBlockedExecutionResult g i reason metadata =
     \<lparr> xr_status = RsBlocked, xr_reason = reason, xr_orderIds = None,
       xr_metadata = spread [(''preserveReason'', JBool True)] metadata, xr_outcomeOk = False, xr_intent = i, xr_gate = g,
       xr_shared = None \<rparr>"

definition buildNoopExecutionResult :: "gate_summary \<Rightarrow> trade_intent \<Rightarrow> jsobj \<Rightarrow> execution_result" where
  "buildNoopExecutionResult g i metadata =
     \<lparr> xr_status = RsNoop, xr_reason = ''noop'', xr_orderIds = None,
       xr_metadata = spread [(''engineStatus'', JStr ''noop'')] metadata, xr_outcomeOk = True, xr_intent = i, xr_gate = g,
       xr_shared = None \<rparr>"

text \<open>What a tick has fixed when it gets to the pipeline: the state after reconciliation, the intent, the
  answer of the guardrails, and the client order id with the state and the pending order it leads to.\<close>

record tick =
  tk_now :: int
  tk_settings :: execution_settings
  tk_gate :: gate_summary
  tk_state :: mode_state
  tk_intent :: trade_intent
  tk_pluginIds :: "string list"

fun mode_str :: "mode_name \<Rightarrow> string" where
  "mode_str ModeSimple = ''simple''"
| "mode_str ModeDca = ''dca''"
| "mode_str ModeGrid = ''grid''"
| "mode_str ModeDipReversion = ''dip_reversion''"

definition mode_meta :: "sim_env \<Rightarrow> execution_settings \<Rightarrow> jsobj" where
  "mode_meta en st = [(''mode'', JStr (mode_str (st_mode st))), (''executionModeKey'', JStr (sm_key en))]"

definition tick_guard :: "sim_env \<Rightarrow> tick \<Rightarrow> guard_answer" where
  "tick_guard en tk = evaluateExecutionGuardrails (sm_parseDate en) (tk_intent tk) (st_common (tk_settings tk)) (tk_state tk) (tk_now tk)"

definition tick_order :: "sim_env \<Rightarrow> bot \<Rightarrow> tick \<Rightarrow> string \<times> mode_state \<times> int" where
  "tick_order en bt tk = nextClientOrderId (bt_id bt) (sm_key en) (ga_state (tick_guard en tk)) (tk_intent tk) (bt_symbol bt)"

definition tick_cid :: "sim_env \<Rightarrow> bot \<Rightarrow> tick \<Rightarrow> string" where
  "tick_cid en bt tk = fst (tick_order en bt tk)"

definition sent_intent :: "sim_env \<Rightarrow> bot \<Rightarrow> tick \<Rightarrow> trade_intent" where
  "sent_intent en bt tk = withClientOrderId (tk_intent tk) (tick_cid en bt tk)"

definition tick_pending :: "sim_env \<Rightarrow> bot \<Rightarrow> tick \<Rightarrow> pending_order" where
  "tick_pending en bt tk =
     (case tick_order en bt tk of (cid, s, sq) \<Rightarrow> buildPendingOrder (sent_intent en bt tk) cid sq (tk_now tk))"

definition state_with_pending :: "sim_env \<Rightarrow> bot \<Rightarrow> tick \<Rightarrow> mode_state" where
  "state_with_pending en bt tk =
     (case tick_order en bt tk of (cid, s, sq) \<Rightarrow>
        s\<lparr> ms_pendingOrders := put cid (tick_pending en bt tk) (ms_pendingOrders s), ms_updatedAt := toISOString (tk_now tk) \<rparr>)"

definition tick_request :: "sim_env \<Rightarrow> bot \<Rightarrow> tick \<Rightarrow> shared_request" where
  "tick_request en bt tk =
     \<lparr> sq_domain = sm_key en, sq_action = (if is_close (tk_intent tk) then ''close_position'' else ''place_order''),
       sq_symbol = Some (intentSymbol (tk_intent tk) (bt_symbol bt)), sq_intent = Some (tk_intent tk),
       sq_venue = Some (buildSharedExecutionVenue (Some (bt_exchange bt)) (bt_marketDataExchange bt) None
         (if bt_exchange bt = ''paper''
          then Some (createPaperExecutionContext (sm_environment en) PaperPerp (bt_marketDataExchange bt) (bt_marketDataAccountId bt) None None)
          else None) None),
       sq_requirements = None,
       sq_metadata = Some (mode_meta en (tk_settings tk) @
         [(''exchangeExtensionPluginIds'', str_list (tk_pluginIds tk)), (''preserveReason'', JBool False)]) \<rparr>"

text \<open>The guard of the pipeline: it stores the pending order before the engine is called.\<close>

definition tick_guarded :: "sim_env \<Rightarrow> bot \<Rightarrow> tick \<Rightarrow> shared_request \<Rightarrow> (guard_result \<times> shared_request) sim_act" where
  "tick_guarded en bt tk q =
     (let g = tick_guard en tk
      in if ga_allow g
         then bind (put_state en (state_with_pending en bt tk)) (\<lambda>_.
           ret (GuardAllow, q\<lparr> sq_intent := Some (sent_intent en bt tk) \<rparr>))
         else bind (write_risk en \<lparr> dg_type = ''EXECUTION_GUARD_BLOCK'', dg_message = opt_get (ga_reason g) '''',
                dg_meta = spread (mode_meta en (tk_settings tk)) (ga_meta g) \<rparr>) (\<lambda>_.
           ret (GuardBlock (opt_get (ga_reason g) '''') (Some RefuseBlocked)
             (Some [(''guard'', JObj (ga_meta g)), (''preserveReason'', JBool True)]), q)))"

definition set_pending :: "string \<Rightarrow> pending_order \<Rightarrow> mode_state \<Rightarrow> mode_state" where
  "set_pending cid p s = s\<lparr> ms_pendingOrders := put cid p (ms_pendingOrders s) \<rparr>"

definition drop_pending :: "string \<Rightarrow> string \<Rightarrow> string \<Rightarrow> mode_state \<Rightarrow> mode_state" where
  "drop_pending cid reason hint s =
     s\<lparr> ms_pendingOrders := remove_key cid (ms_pendingOrders s), ms_lastBlockedReason := Some reason, ms_lastRecoveryHint := Some hint \<rparr>"

definition first_id :: "string list \<Rightarrow> string option \<Rightarrow> string option" where
  "first_id ids fallback = (case ids of i # _ \<Rightarrow> Some i | [] \<Rightarrow> fallback)"

definition awaiting :: "pending_order \<Rightarrow> pending_status \<Rightarrow> string option \<Rightarrow> int \<Rightarrow> string \<Rightarrow> string \<Rightarrow> pending_order" where
  "awaiting p st eid now reason hint =
     p\<lparr> po_status := st, po_exchangeOrderId := eid, po_updatedAt := toISOString now, po_lastCheckedAt := Some (toISOString now),
        po_lastReason := Some reason, po_recoveryHint := Some hint \<rparr>"

definition latest_pending :: "sim_env \<Rightarrow> bot \<Rightarrow> tick \<Rightarrow> mode_state \<Rightarrow> pending_order" where
  "latest_pending en bt tk latest =
     opt_get (map_of (ms_pendingOrders latest) (tick_cid en bt tk)) (tick_pending en bt tk)"

text \<open>The state after a response that executed nothing.\<close>

definition not_executed_state :: "sim_env \<Rightarrow> bot \<Rightarrow> tick \<Rightarrow> shared_response \<Rightarrow> mode_state \<Rightarrow> mode_state" where
  "not_executed_state en bt tk resp latest =
     (let cid = tick_cid en bt tk; p = latest_pending en bt tk latest
      in (if sp_status resp = StFailed \<and> isPendingConfirmationReason (sp_reason resp)
          then set_pending cid (awaiting p PendingFillConfirmation (first_id (sp_orderIds resp) (po_exchangeOrderId p)) (tk_now tk)
                 (sp_reason resp) ''wait_for_venue_confirmation'') latest
          else drop_pending cid (sp_reason resp)
                 (if sp_status resp = StBlocked then ''fix_execution_guard_or_order_validation'' else ''retry_after_final_error_review'')
                 latest)\<lparr> ms_updatedAt := toISOString (tk_now tk) \<rparr>)"

definition submitted_state :: "sim_env \<Rightarrow> bot \<Rightarrow> tick \<Rightarrow> shared_response \<Rightarrow> mode_state \<Rightarrow> mode_state" where
  "submitted_state en bt tk resp latest =
     (let p = latest_pending en bt tk latest
      in set_pending (tick_cid en bt tk) (awaiting p Submitted (first_id (sp_orderIds resp) (po_exchangeOrderId p)) (tk_now tk)
           ''accepted'' ''reconcile_fill_or_position'') latest)"

text \<open>The result hook: the state is read again, the order is marked as submitted and looked up at the venue.\<close>

definition tick_on_result :: "sim_env \<Rightarrow> bot \<Rightarrow> tick \<Rightarrow> shared_response \<Rightarrow> shared_request \<Rightarrow> (shared_response option) sim_act" where
  "tick_on_result en bt tk resp q =
     bind (get_state en (tk_now tk)) (\<lambda>latest.
       if sp_status resp \<noteq> StExecuted
       then bind (put_state en (not_executed_state en bt tk resp latest)) (\<lambda>_. ret (Some resp))
       else
         (let submitted = submitted_state en bt tk resp latest; cid = tick_cid en bt tk
          in bind (put_state en submitted) (\<lambda>_.
             if sm_engine en \<noteq> BuiltEngine then ret (Some resp)
             else bind (reconcilePendingOrders en (st_common (tk_settings tk)) (tk_now tk) submitted) (\<lambda>(s, n, unresolved).
               bind (put_state en s) (\<lambda>_.
                 if map_of (ms_pendingOrders s) cid = None
                 then ret (Some (resp\<lparr> sp_metadata := spread (sp_metadata resp)
                        [(''fillConfirmed'', JBool True), (''pendingOrderResolved'', JBool True), (''clientOrderId'', JStr cid)] \<rparr>))
                 else ret (Some (resp\<lparr> sp_status := StBlocked, sp_reason := ''pending_fill_confirmation'',
                        sp_metadata := spread (sp_metadata resp)
                          [(''preserveReason'', JBool True), (''orderAccepted'', JBool True), (''pendingOrder'', JBool True),
                           (''pendingOrderCount'', int_val (int (length unresolved))), (''clientOrderId'', JStr cid),
                           (''recoveryHint'', JStr ''wait_for_venue_fill_or_manual_reconcile'')] \<rparr>)))))))"

definition tick_pipeline :: "sim_env \<Rightarrow> bot \<Rightarrow> tick \<Rightarrow> sim_call pipeline" where
  "tick_pipeline en bt tk =
     \<lparr> pi_request = tick_request en bt tk, pi_translateRequest = None, pi_guard = Some (tick_guarded en bt tk),
       pi_execute = (\<lambda>_. bind (perform (RunEngine (sent_intent en bt tk)) (sm_runEngine en (sent_intent en bt tk))) (\<lambda>r. ret (RawEngine r))),
       pi_emitEvent = None, pi_onResult = Some (tick_on_result en bt tk), pi_rethrow = False \<rparr>"

text \<open>The pending order was announced when the venue check passed and the guardrails let the intent through.\<close>

definition announced_order :: "sim_env \<Rightarrow> bot \<Rightarrow> tick \<Rightarrow> bool" where
  "announced_order en bt tk \<longleftrightarrow> validateSharedExecutionVenue (tick_request en bt tk) = None \<and> ga_allow (tick_guard en tk)"

definition error_state :: "sim_env \<Rightarrow> bot \<Rightarrow> tick \<Rightarrow> string \<Rightarrow> mode_state \<Rightarrow> mode_state" where
  "error_state en bt tk reason latest =
     (let cid = tick_cid en bt tk; p = latest_pending en bt tk latest
      in (if isPendingConfirmationReason reason
          then set_pending cid (awaiting p PendingFillConfirmation (po_exchangeOrderId p) (tk_now tk) reason ''wait_for_venue_confirmation'') latest
          else drop_pending cid reason ''retry_after_final_error_review'' latest)\<lparr> ms_updatedAt := toISOString (tk_now tk) \<rparr>)"

definition after_pipeline :: "sim_env \<Rightarrow> bot \<Rightarrow> tick \<Rightarrow> shared_response \<Rightarrow> execution_result sim_act" where
  "after_pipeline en bt tk resp =
     (let xr = toRunnerExecutionResult resp (tk_intent tk) (tk_gate tk); g = tick_guard en tk
      in bind (if announced_order en bt tk \<and> xr_status xr = RsError
               then bind (get_state en (tk_now tk)) (\<lambda>latest. put_state en (error_state en bt tk (xr_reason xr) latest))
               else ret ()) (\<lambda>_.
         bind (if xr_status xr \<noteq> RsExecuted \<and> ms_updatedAt (ga_state g) \<noteq> ms_updatedAt (tk_state tk) \<and> \<not> announced_order en bt tk
               then put_state en (ga_state g) else ret ()) (\<lambda>_.
           ret xr)))"

definition blocked_state :: "mode_state \<Rightarrow> string \<Rightarrow> string \<Rightarrow> int \<Rightarrow> mode_state" where
  "blocked_state s reason hint now =
     s\<lparr> ms_lastBlockedReason := Some reason, ms_lastRecoveryHint := Some hint, ms_updatedAt := toISOString now \<rparr>"

definition unavailable :: "engine_choice \<Rightarrow> string" where
  "unavailable e = (case e of NoEngine reason \<Rightarrow> reason | _ \<Rightarrow> ''execution_adapter_unavailable'')"

text \<open>From the reconciled state on.\<close>

definition run_intent :: "sim_env \<Rightarrow> bot \<Rightarrow> tick \<Rightarrow> execution_result sim_act" where
  "run_intent en bt tk =
     (if tk_intent tk = NoIntent then ret (buildNoopExecutionResult (tk_gate tk) (tk_intent tk) (mode_meta en (tk_settings tk)))
      else
        (let g = tick_guard en tk
         in case (ga_allow g, sm_engine en) of
              (True, NoEngine reason) \<Rightarrow>
                bind (put_state en (blocked_state (ga_state g) ''execution_adapter_unavailable'' reason (tk_now tk))) (\<lambda>_.
                  ret (buildBlockedExecutionResult (tk_gate tk) (tk_intent tk) ''execution_adapter_unavailable''
                    (mode_meta en (tk_settings tk) @ [(''recoveryHint'', JStr reason)])))
            | _ \<Rightarrow> bind (executeSharedExecutionPipeline (tick_pipeline en bt tk)) (after_pipeline en bt tk)))"

definition reconciliation_blocked :: "sim_env \<Rightarrow> tick \<Rightarrow> int \<Rightarrow> jsobj \<Rightarrow> execution_result" where
  "reconciliation_blocked en tk n extra =
     buildBlockedExecutionResult (tk_gate tk) (tk_intent tk) ''pending_order_reconciliation''
       (mode_meta en (tk_settings tk) @ [(''pendingOrderCount'', int_val n)] @ extra)"

definition with_state :: "sim_env \<Rightarrow> bot \<Rightarrow> tick \<Rightarrow> execution_result sim_act" where
  "with_state en bt tk =
     (let n = int (length (listUnresolvedPendingOrders (tk_state tk)))
      in if n = 0 then run_intent en bt tk
         else if sm_engine en \<noteq> BuiltEngine
         then bind (put_state en (blocked_state (tk_state tk) ''pending_order_reconciliation'' (unavailable (sm_engine en)) (tk_now tk))) (\<lambda>_.
           ret (reconciliation_blocked en tk n [(''recoveryHint'', JStr (unavailable (sm_engine en)))]))
         else bind (reconcilePendingOrders en (st_common (tk_settings tk)) (tk_now tk) (tk_state tk)) (\<lambda>(s, resolved, unresolved).
           bind (put_state en s) (\<lambda>_.
             if unresolved \<noteq> []
             then ret (reconciliation_blocked en tk (int (length unresolved))
               [(''resolvedPendingOrderCount'', int_val resolved), (''recoveryHint'', JStr ''wait_for_venue_fill_or_manual_reconcile'')])
             else run_intent en bt (tk\<lparr> tk_state := s \<rparr>))))"

definition simple_execute :: "sim_env \<Rightarrow> signal \<Rightarrow> bot \<Rightarrow> int \<Rightarrow> execution_result sim_act" where
  "simple_execute en sg bt now =
     (let st = readExecutionSettings (bt_strategyKey bt) (bt_paramsJson bt); g = coerceGateSummary (sg_gate sg) defaultGateSummary
      in bind (perform (ApplyExtensions (sg_legacyIntent sg)) (sm_extensions en (sg_legacyIntent sg))) (\<lambda>(i0, ids, diags).
         bind (write_risks en diags) (\<lambda>_.
         bind (get_state en now) (\<lambda>s.
           with_state en bt \<lparr> tk_now = now, tk_settings = st, tk_gate = g, tk_state = s,
             tk_intent = applyCommonIntentSafety (toIntentWithSimpleOverrides i0 st) (st_common st), tk_pluginIds = ids \<rparr>))))"

section \<open>The database\<close>

text \<open>What the database holds after some calls: the last state whose write went through.\<close>

fun stored_rev :: "sim_env \<Rightarrow> jsval \<Rightarrow> sim_call list \<Rightarrow> jsval" where
  "stored_rev en v [] = v"
| "stored_rev en v (PutState s # t) = (if sm_putState en s (rev t) = Inr () then state_json s else stored_rev en v t)"
| "stored_rev en v (_ # t) = stored_rev en v t"

definition stored :: "sim_env \<Rightarrow> jsval \<Rightarrow> sim_call list \<Rightarrow> jsval" where
  "stored en v t = stored_rev en v (rev t)"

text \<open>A database that answers what it holds, or fails; a write that fails leaves it as it was.\<close>

definition db_ok :: "sim_env \<Rightarrow> jsval \<Rightarrow> bool" where
  "db_ok en v \<longleftrightarrow> (\<forall>t w. sm_getState en t = Inr w \<longrightarrow> w = stored en v t)"

lemma stored_snoc [simp]:
  "stored en v [] = v"
  "stored en v (t @ [PutState s]) = (if sm_putState en s t = Inr () then state_json s else stored en v t)"
  "stored en v (t @ [GetState]) = stored en v t" "stored en v (t @ [GetPositions]) = stored en v t"
  "stored en v (t @ [RunEngine i]) = stored en v t" "stored en v (t @ [WriteRisk d]) = stored en v t"
  "stored en v (t @ [ApplyExtensions i]) = stored en v t"
  by (simp_all add: stored_def)

section \<open>Open orders\<close>

text \<open>The client order ids of the orders of a stored state that are not resolved, and of a state.\<close>

definition ids :: "mode_state \<Rightarrow> string list" where
  "ids s = map fst (filter unresolved_order (ms_pendingOrders s))"

definition open_ids :: "jsval \<Rightarrow> string list" where
  "open_ids v = ids (normalizeExecutionModeState v 0)"

definition keyed :: "mode_state \<Rightarrow> bool" where
  "keyed s \<longleftrightarrow> list_all (\<lambda>(k, p). po_clientOrderId p = k \<and> text_ok k) (ms_pendingOrders s) \<and> distinct (map fst (ms_pendingOrders s))"

lemma normalize_pendings: "ms_pendingOrders (normalizeExecutionModeState v now) = normalizePendingOrders (get (opt_get (as_object v) []) ''pendingOrders'')"
  by (simp add: normalizeExecutionModeState_def Let_def)

lemma ids_normalize [simp]: "ids (normalizeExecutionModeState v now) = open_ids v"
  by (simp add: open_ids_def ids_def normalize_pendings)

lemma keyed_normalize [simp]: "keyed (normalizeExecutionModeState v now)"
  unfolding keyed_def normalize_pendings using pendings_ok
  by (auto simp: list_all_iff pending_ok_def)

lemma distinct_open_ids: "distinct (open_ids v)"
  using keyed_normalize [of v 0] by (auto simp: open_ids_def ids_def keyed_def intro: distinct_map_filter)

lemma unresolved_iff: "listUnresolvedPendingOrders s = [] \<longleftrightarrow> ids s = []"
  by (simp add: listUnresolvedPendingOrders_def ids_def)

text \<open>The status of a stored order is read back, whatever its other texts are.\<close>

lemma pending_stored:
  "\<exists>item. pending_json p = JObj item \<and> (text_ok (po_clientOrderId p) \<longrightarrow> pending_id k item = po_clientOrderId p) \<and>
     po_status (normalize_pending cid item) = po_status p"
  by (simp add: pending_json_def pending_id_def normalize_pending_def coalesce_def text_ok_def)

lemma add_pending_open:
  "list_all (\<lambda>(k, p). po_clientOrderId p = k \<and> text_ok k) kvs \<Longrightarrow> distinct (map fst (out @ kvs)) \<Longrightarrow>
   map fst (filter unresolved_order (add_pending out (map (\<lambda>(k, v). (k, pending_json v)) kvs))) =
   map fst (filter unresolved_order (out @ kvs))"
proof (induction kvs arbitrary: out)
  case (Cons kv kvs)
  obtain k p where kv: "kv = (k, p)" by fastforce
  then have k: "po_clientOrderId p = k" "text_ok k" using Cons.prems(1) by simp_all
  obtain item where i: "pending_json p = JObj item" "pending_id k item = k" "\<And>cid. po_status (normalize_pending cid item) = po_status p"
    using pending_stored [of p k] k by (metis jsval.inject(6))
  let ?p = "normalize_pending k item"
  have "put k ?p out = out @ [(k, ?p)]" using Cons.prems(2) kv by (intro put_new) auto
  moreover have "unresolved_order (k, ?p) = unresolved_order (k, p)" by (simp add: unresolved_order_def i)
  moreover have "k \<noteq> ''''" using k(2) by (simp add: text_ok_def)
  moreover have "map fst (filter unresolved_order (add_pending (out @ [(k, ?p)]) (map (\<lambda>(k, v). (k, pending_json v)) kvs))) =
      map fst (filter unresolved_order ((out @ [(k, ?p)]) @ kvs))"
    using Cons.prems kv by (intro Cons.IH) auto
  ultimately show ?case by (simp add: kv i(1,2))
qed simp

lemma open_ids_json: "keyed s \<Longrightarrow> open_ids (state_json s) = ids s"
  using add_pending_open [of "ms_pendingOrders s" "[]"]
  by (simp add: keyed_def open_ids_def ids_def normalize_pendings state_json_def normalizePendingOrders_def map_json_def opt_get_def)

subsection \<open>Keys\<close>

lemma keyed_put: "keyed s \<Longrightarrow> po_clientOrderId p = k \<Longrightarrow> text_ok k \<Longrightarrow> ms_pendingOrders s' = put k p (ms_pendingOrders s) \<Longrightarrow> keyed s'"
  by (simp add: keyed_def put_all put_distinct)

lemma keyed_remove: "keyed s \<Longrightarrow> ms_pendingOrders s' = remove_key k (ms_pendingOrders s) \<Longrightarrow> keyed s'"
  by (auto simp: keyed_def remove_key_def list_all_iff intro: distinct_map_filter)

lemma keyed_same: "keyed s \<Longrightarrow> ms_pendingOrders s' = ms_pendingOrders s \<Longrightarrow> keyed s'"
  by (simp add: keyed_def)

lemma put_open: "set (map fst (filter unresolved_order (put k p kvs))) \<subseteq> insert k (set (map fst (filter unresolved_order kvs)))"
  by (induction k p kvs rule: put.induct) auto

lemma ids_put: "ms_pendingOrders s' = put k p (ms_pendingOrders s) \<Longrightarrow> set (ids s') \<subseteq> insert k (set (ids s))"
  unfolding ids_def by (metis put_open)

lemma ids_remove: "ms_pendingOrders s' = remove_key k (ms_pendingOrders s) \<Longrightarrow> set (ids s') \<subseteq> set (ids s)"
  by (auto simp: ids_def remove_key_def)

lemma ids_same: "ms_pendingOrders s' = ms_pendingOrders s \<Longrightarrow> ids s' = ids s"
  by (simp add: ids_def)

lemma put_first: "filter unresolved_order kvs = [] \<Longrightarrow> unresolved_order (k, p) \<Longrightarrow> map fst (filter unresolved_order (put k p kvs)) = [k]"
  by (induction k p kvs rule: put.induct) (auto split: if_splits)

lemma success_pendings [simp]: "ms_pendingOrders (applyExecutionSuccessToState i c s now) = ms_pendingOrders s"
  by (simp add: applyExecutionSuccessToState_def ensureDailyState_def Let_def)

lemma ensure_pendings [simp]: "ms_pendingOrders (ensureDailyState s now) = ms_pendingOrders s"
  by (simp add: ensureDailyState_def)

text \<open>Reconciling opens nothing.\<close>

lemma reconcile_one_keyed:
  assumes "keyed (fst sn)" "text_ok (po_clientOrderId p)"
  shows "keyed (fst (reconcile_one ps c now p sn)) \<and>
    set (ids (fst (reconcile_one ps c now p sn))) \<subseteq> insert (po_clientOrderId p) (set (ids (fst sn)))"
proof (cases "confirmed_by ps p")
  case True
  let ?s = "fst (reconcile_one ps c now p sn)"
  have "ms_pendingOrders ?s = remove_key (po_clientOrderId p) (ms_pendingOrders (fst sn))"
    using True by (simp add: reconcile_one_def split: prod.split)
  then show ?thesis using keyed_remove [OF assms(1)] ids_remove by blast
next
  case False
  let ?s = "fst (reconcile_one ps c now p sn)"
  have "ms_pendingOrders ?s = put (po_clientOrderId p) (still_pending now p) (ms_pendingOrders (fst sn))"
    "po_clientOrderId (still_pending now p) = po_clientOrderId p"
    using False by (simp_all add: reconcile_one_def still_pending_def split: prod.split)
  then show ?thesis using keyed_put [OF assms(1) _ assms(2)] ids_put by blast
qed

lemma reconcile_fold_keyed:
  "keyed (fst sn) \<Longrightarrow> \<forall>p\<in>set L. text_ok (po_clientOrderId p) \<Longrightarrow>
   keyed (fst (fold (reconcile_one ps c now) L sn)) \<and>
   set (ids (fst (fold (reconcile_one ps c now) L sn))) \<subseteq> po_clientOrderId ` set L \<union> set (ids (fst sn))"
proof (induction L arbitrary: sn)
  case (Cons p L)
  have "keyed (fst (reconcile_one ps c now p sn)) \<and>
      set (ids (fst (reconcile_one ps c now p sn))) \<subseteq> insert (po_clientOrderId p) (set (ids (fst sn)))"
    by (rule reconcile_one_keyed) (use Cons.prems in simp_all)
  moreover from this have "keyed (fst (fold (reconcile_one ps c now) L (reconcile_one ps c now p sn))) \<and>
      set (ids (fst (fold (reconcile_one ps c now) L (reconcile_one ps c now p sn)))) \<subseteq>
        po_clientOrderId ` set L \<union> set (ids (fst (reconcile_one ps c now p sn)))"
    by (intro Cons.IH) (use Cons.prems in simp_all)
  ultimately show ?case by auto
qed simp

lemma reconciled_keyed:
  assumes "keyed s" "reconciled ps c now s = (s', n)"
  shows "keyed s' \<and> set (ids s') \<subseteq> set (ids s)"
proof -
  have k: "\<forall>p\<in>set (listUnresolvedPendingOrders s). text_ok (po_clientOrderId p) \<and> po_clientOrderId p \<in> set (ids s)"
  proof
    fix p assume "p \<in> set (listUnresolvedPendingOrders s)"
    then obtain q where q: "(q, p) \<in> set (ms_pendingOrders s)" "unresolved_order (q, p)"
      by (auto simp: listUnresolvedPendingOrders_def)
    then have "po_clientOrderId p = q" "text_ok q" using assms(1) by (auto simp: keyed_def list_all_iff)
    moreover have "q \<in> set (ids s)" using q by (force simp: ids_def)
    ultimately show "text_ok (po_clientOrderId p) \<and> po_clientOrderId p \<in> set (ids s)" by simp
  qed
  obtain s1 n1 where f: "fold (reconcile_one ps c now) (listUnresolvedPendingOrders s) (s, 0) = (s1, n1)" by fastforce
  then have s': "ms_pendingOrders s' = ms_pendingOrders s1" using assms(2) by (auto simp: reconciled_def)
  have "\<forall>p\<in>set (listUnresolvedPendingOrders s). text_ok (po_clientOrderId p)"
    "po_clientOrderId ` set (listUnresolvedPendingOrders s) \<subseteq> set (ids s)" using k by blast+
  then have "keyed s1 \<and> set (ids s1) \<subseteq> set (ids s)"
    using reconcile_fold_keyed [of "(s, 0)" "listUnresolvedPendingOrders s" ps c now, unfolded f fst_conv, OF assms(1)] by blast
  then show ?thesis using keyed_same [OF _ s'] ids_same [OF s'] by simp
qed

section \<open>One order in flight\<close>

text \<open>
  What a call may do: a write opens no order, or one when none was open; the engine is called right after
  a write that went through, of a state whose only open order has the client order id of the intent, and
  before which no order was open.
\<close>

definition put_ok :: "jsval \<Rightarrow> mode_state \<Rightarrow> bool" where
  "put_ok v s \<longleftrightarrow> set (open_ids (state_json s)) \<subseteq> set (open_ids v) \<or> open_ids v = [] \<and> length (open_ids (state_json s)) \<le> 1"

definition announced_by :: "sim_env \<Rightarrow> jsval \<Rightarrow> sim_call list \<Rightarrow> string \<Rightarrow> bool" where
  "announced_by en v t cid \<longleftrightarrow>
     (\<exists>t' s. t = t' @ [PutState s] \<and> sm_putState en s t' = Inr () \<and> open_ids (stored en v t') = [] \<and> open_ids (state_json s) = [cid])"

definition call_ok :: "sim_env \<Rightarrow> jsval \<Rightarrow> sim_call list \<Rightarrow> sim_call \<Rightarrow> bool" where
  "call_ok en v t c \<longleftrightarrow>
     (case c of
        PutState s \<Rightarrow> put_ok (stored en v t) s
      | RunEngine i \<Rightarrow> (\<exists>cid. op_clientOrderId (intent_order_of i) = Some cid \<and> announced_by en v t cid)
      | _ \<Rightarrow> True)"

definition safe :: "sim_env \<Rightarrow> jsval \<Rightarrow> sim_call list \<Rightarrow> bool" where
  "safe en v t \<longleftrightarrow> (\<forall>n<length t. call_ok en v (take n t) (t ! n))"

lemma safe_snoc [simp]: "safe en v (t @ [c]) \<longleftrightarrow> safe en v t \<and> call_ok en v t c"
  by (auto simp: safe_def nth_append less_Suc_eq)

lemma safe_Nil [simp]: "safe en v []"
  by (simp add: safe_def)

lemma call_ok_reads [simp]:
  "call_ok en v t GetState" "call_ok en v t GetPositions" "call_ok en v t (WriteRisk d)" "call_ok en v t (ApplyExtensions i)"
  "call_ok en v t (PutState s) \<longleftrightarrow> put_ok (stored en v t) s"
  by (simp_all add: call_ok_def)

text \<open>The assertion of the proof: everything so far is safe, and only orders of \<open>C\<close> can be open.\<close>

definition confined :: "sim_env \<Rightarrow> jsval \<Rightarrow> string set \<Rightarrow> sim_call list \<Rightarrow> bool" where
  "confined en v C t \<longleftrightarrow> safe en v t \<and> set (open_ids (stored en v t)) \<subseteq> C"

definition only :: "string set \<Rightarrow> mode_state \<Rightarrow> bool" where
  "only C s \<longleftrightarrow> keyed s \<and> set (ids s) \<subseteq> C"

lemma only_put: "only C s \<Longrightarrow> ms_pendingOrders s' = put k p (ms_pendingOrders s) \<Longrightarrow> po_clientOrderId p = k \<Longrightarrow> text_ok k \<Longrightarrow> k \<in> C \<Longrightarrow> only C s'"
  unfolding only_def using keyed_put [of s p k s'] ids_put [of s' k p s] by blast

lemma only_remove: "only C s \<Longrightarrow> ms_pendingOrders s' = remove_key k (ms_pendingOrders s) \<Longrightarrow> only C s'"
  unfolding only_def using keyed_remove [of s s' k] ids_remove [of s' k s] by blast

lemma only_same: "only C s \<Longrightarrow> ms_pendingOrders s' = ms_pendingOrders s \<Longrightarrow> only C s'"
  unfolding only_def using keyed_same [of s s'] ids_same [of s' s] by simp

lemma only_reconciled: "only C s \<Longrightarrow> reconciled ps c now s = (s', n) \<Longrightarrow> only C s'"
  unfolding only_def using reconciled_keyed [of s ps c now s' n] by blast

lemma only_open: "only C s \<Longrightarrow> set (open_ids (state_json s)) \<subseteq> C"
  by (simp add: only_def open_ids_json)

lemma at_most_one: "distinct xs \<Longrightarrow> set xs \<subseteq> {a} \<Longrightarrow> length xs \<le> 1"
  by (cases xs; cases "tl xs") auto

lemma only_one: "only {cid} s \<Longrightarrow> set (open_ids v) \<subseteq> {cid} \<Longrightarrow> put_ok v s"
  using only_open [of "{cid}" s] at_most_one [OF distinct_open_ids, of "state_json s" cid]
  by (cases "open_ids v") (auto simp: put_ok_def)

lemma get_confined:
  assumes "db_ok en v"
  shows "triple (confined en v C) (get_state en now) (\<lambda>r t. confined en v C t \<and> (\<forall>s. r = Inr s \<longrightarrow> only C s))"
  unfolding get_state_def
proof (rule triple_bind [where R = "\<lambda>r t. confined en v C t \<and> (\<forall>w. r = Inr w \<longrightarrow> w = stored en v t)"])
  show "triple (confined en v C) (perform GetState (sm_getState en)) (\<lambda>r t. confined en v C t \<and> (\<forall>w. r = Inr w \<longrightarrow> w = stored en v t))"
    using assms by (intro triple_perform) (auto simp: confined_def db_ok_def)
qed (auto intro!: triple_ret simp: confined_def only_def)

lemma put_confined:
  assumes "only {cid} s"
  shows "triple (confined en v {cid}) (put_state en s) (\<lambda>r. confined en v {cid})"
  unfolding put_state_def
  using only_one [OF assms] only_open [OF assms] by (intro triple_perform) (auto simp: confined_def)

lemma reconcile_confined:
  assumes "only C s"
  shows "triple (confined en v C) (reconcilePendingOrders en c now s)
    (\<lambda>r t. confined en v C t \<and> (\<forall>s' n u. r = Inr (s', n, u) \<longrightarrow> only C s' \<and> set (ids s') \<subseteq> set (ids s) \<and> (u = [] \<longleftrightarrow> ids s' = [])))"
  unfolding reconcilePendingOrders_def
proof (rule triple_bind [where R = "\<lambda>r. confined en v C"])
  show "triple (confined en v C) (perform GetPositions (sm_getPositions en)) (\<lambda>r. confined en v C)"
    by (rule triple_perform) (simp add: confined_def)
next
  fix ps
  obtain s' n where r: "reconciled ps c now s = (s', n)" by fastforce
  then show "triple (confined en v C) (case reconciled ps c now s of (s', n) \<Rightarrow> ret (s', n, listUnresolvedPendingOrders s'))
    (\<lambda>r t. confined en v C t \<and> (\<forall>s' n u. r = Inr (s', n, u) \<longrightarrow> only C s' \<and> set (ids s') \<subseteq> set (ids s) \<and> (u = [] \<longleftrightarrow> ids s' = [])))"
    using only_reconciled [OF assms r] reconciled_keyed [OF _ r] assms
    by (auto intro!: triple_ret simp: unresolved_iff only_def)
qed auto

subsection \<open>The order of a tick\<close>

lemma trim_ends: "s \<noteq> '''' \<Longrightarrow> \<not> is_ws (hd s) \<Longrightarrow> \<not> is_ws (last s) \<Longrightarrow> str_trim s = s"
  using dropWhile_eq_self_iff [of is_ws s] dropWhile_eq_self_iff [of is_ws "rev s"] by (simp add: str_trim_def hd_rev)

lemma nat_str_last: "0 \<le> n \<Longrightarrow> nat_str n \<noteq> '''' \<and> \<not> is_ws (last (nat_str n))"
  by (simp add: nat_str.simps [of n] digit_not_ws nat_less_iff)

lemma client_id_ok: "text_ok (fst (nextClientOrderId b k s i f))"
proof (cases "str_trim (opt_get (op_clientOrderId (intent_order_of i)) '''') = ''''")
  case True
  have "int_str (max 1 (ms_normalOrderSeq s)) \<noteq> '''' \<and> \<not> is_ws (last (int_str (max 1 (ms_normalOrderSeq s))))"
    using nat_str_last [of "max 1 (ms_normalOrderSeq s)"] by (simp add: int_str_def)
  moreover have "\<not> is_ws CHR ''n''" by code_simp
  ultimately show ?thesis using True
    unfolding nextClientOrderId_def Let_def text_ok_def by (auto simp del: append_assoc intro!: trim_ends)
next
  case False
  then show ?thesis by (simp add: nextClientOrderId_def Let_def text_ok_def)
qed

lemma tick_cid_ok [simp]: "text_ok (tick_cid en bt tk)"
  by (simp add: tick_cid_def tick_order_def client_id_ok)

lemma tick_pending_id [simp]: "po_clientOrderId (tick_pending en bt tk) = tick_cid en bt tk"
  by (simp add: tick_pending_def tick_cid_def buildPendingOrder_def Let_def split: prod.split)

lemma latest_pending_id: "only C s \<Longrightarrow> po_clientOrderId (latest_pending en bt tk s) = tick_cid en bt tk"
  by (auto simp: latest_pending_def opt_get_def only_def keyed_def list_all_iff split: option.split dest: map_of_SomeD)

lemma awaiting_id [simp]: "po_clientOrderId (awaiting p st e now r h) = po_clientOrderId p"
  by (simp add: awaiting_def)

lemma set_pending_only:
  "only {tick_cid en bt tk} s \<Longrightarrow> po_clientOrderId p = tick_cid en bt tk \<Longrightarrow> only {tick_cid en bt tk} (set_pending (tick_cid en bt tk) p s)"
  by (erule only_put [where k = "tick_cid en bt tk" and p = p]) (simp_all add: set_pending_def)

lemma drop_pending_only: "only C s \<Longrightarrow> only C (drop_pending cid r h s)"
  by (erule only_remove [where k = cid]) (simp add: drop_pending_def)

lemma after_states_only:
  assumes "only {tick_cid en bt tk} s"
  shows "only {tick_cid en bt tk} (not_executed_state en bt tk resp s)" "only {tick_cid en bt tk} (submitted_state en bt tk resp s)"
    "only {tick_cid en bt tk} (error_state en bt tk reason s)"
proof -
  note p = latest_pending_id [OF assms, of en bt tk]
  have u: "only {tick_cid en bt tk} x \<Longrightarrow> only {tick_cid en bt tk} (x\<lparr> ms_updatedAt := y \<rparr>)" for x y
    by (erule only_same) simp
  show "only {tick_cid en bt tk} (not_executed_state en bt tk resp s)" "only {tick_cid en bt tk} (submitted_state en bt tk resp s)"
    "only {tick_cid en bt tk} (error_state en bt tk reason s)"
    unfolding not_executed_state_def submitted_state_def error_state_def Let_def
    using set_pending_only [OF assms] drop_pending_only [OF assms] p by (auto intro!: u)
qed

lemma guard_pendings [simp]: "ms_pendingOrders (ga_state (tick_guard en tk)) = ms_pendingOrders (tk_state tk)"
  by (simp add: tick_guard_def)

lemma order_pendings: "tick_order en bt tk = (cid, s, sq) \<Longrightarrow> ms_pendingOrders s = ms_pendingOrders (tk_state tk)"
  by (auto simp: tick_order_def nextClientOrderId_def Let_def split: if_splits)

lemma announcing_state:
  assumes "keyed (tk_state tk)" "ids (tk_state tk) = []"
  shows "keyed (state_with_pending en bt tk)" "open_ids (state_json (state_with_pending en bt tk)) = [tick_cid en bt tk]"
proof -
  obtain cid s sq where o': "tick_order en bt tk = (cid, s, sq)" by (cases "tick_order en bt tk") auto
  note pe = order_pendings [OF o']
  have cid: "cid = tick_cid en bt tk" by (simp add: tick_cid_def o')
  have st: "ms_pendingOrders (state_with_pending en bt tk) = put cid (tick_pending en bt tk) (ms_pendingOrders (tk_state tk))"
    by (simp add: state_with_pending_def o' pe)
  show k: "keyed (state_with_pending en bt tk)" by (rule keyed_put [OF assms(1) _ _ st]) (simp_all add: cid)
  have "unresolved_order (cid, tick_pending en bt tk)"
    by (simp add: unresolved_order_def tick_pending_def buildPendingOrder_def o' Let_def)
  then have "ids (state_with_pending en bt tk) = [cid]"
    using assms(2) put_first [of "ms_pendingOrders (tk_state tk)" cid "tick_pending en bt tk"] by (simp add: ids_def st)
  then show "open_ids (state_json (state_with_pending en bt tk)) = [tick_cid en bt tk]" using k by (simp add: open_ids_json cid)
qed

lemma sent_client_id: "tk_intent tk \<noteq> NoIntent \<Longrightarrow> op_clientOrderId (intent_order_of (sent_intent en bt tk)) = Some (tick_cid en bt tk)"
  by (cases "tk_intent tk") (simp_all add: sent_intent_def withClientOrderId_def intent_order_of_def opt_get_def)

subsection \<open>The parts of a tick keep to it\<close>

lemma on_result_confined:
  assumes "db_ok en v"
  shows "triple (confined en v {tick_cid en bt tk}) (tick_on_result en bt tk resp q) (\<lambda>r. confined en v {tick_cid en bt tk})"
proof -
  let ?C = "{tick_cid en bt tk}"
  have put: "triple (confined en v ?C) (bind (put_state en s) (\<lambda>_. k)) (\<lambda>r. confined en v ?C)"
    if "only ?C s" "triple (confined en v ?C) k (\<lambda>r. confined en v ?C)" for s and k :: "(shared_response option) sim_act"
    by (rule triple_bind [OF put_confined [OF that(1)]]) (simp_all add: that(2))
  have done': "triple (confined en v ?C) (ret x) (\<lambda>r. confined en v ?C)" for x :: "shared_response option"
    by (rule triple_ret) simp
  show ?thesis
    unfolding tick_on_result_def
  proof (rule triple_bind [OF get_confined [OF assms]], goal_cases)
    case (1 latest)
    show ?case
    proof (cases "only ?C latest")
      case True
      note st = after_states_only [OF True]
      have rec: "triple (confined en v ?C) (bind (reconcilePendingOrders en (st_common (tk_settings tk)) (tk_now tk) (submitted_state en bt tk resp latest))
           (\<lambda>(s, n, unresolved). bind (put_state en s) (\<lambda>_. if map_of (ms_pendingOrders s) (tick_cid en bt tk) = None then ret (f s n unresolved) else ret (g s n unresolved))))
           (\<lambda>r. confined en v ?C)" for f g :: "mode_state \<Rightarrow> int \<Rightarrow> pending_order list \<Rightarrow> shared_response option"
      proof (rule triple_bind [OF reconcile_confined [OF st(2)]], goal_cases)
        case (1 x)
        obtain s n u where x: "x = (s, n, u)" by (cases x) auto
        show ?case
        proof (cases "only ?C s")
          case True
          show ?thesis unfolding x prod.case
            by (rule triple_conseq [OF put [OF True]]) (auto simp: done')
        qed (auto simp: x triple_def)
      qed simp
      show ?thesis
        unfolding Let_def
        by (rule triple_conseq [where P = "confined en v ?C" and R = "\<lambda>r. confined en v ?C"])
          (auto intro!: triple_if put st done' rec)
    qed (auto simp: triple_def)
  qed simp
qed

lemma bind_ret_left [simp]: "bind (ret x) k = k x"
  by (rule ext) (simp add: bind_def ret_def)

text \<open>Without translation and sink the pipeline is its guard, then its execution and result hook.\<close>

lemma tick_pipeline_simps [simp]:
  "pi_request (tick_pipeline en bt tk) = tick_request en bt tk" "pi_translateRequest (tick_pipeline en bt tk) = None"
  "pi_guard (tick_pipeline en bt tk) = Some (tick_guarded en bt tk)" "pi_emitEvent (tick_pipeline en bt tk) = None"
  "pi_onResult (tick_pipeline en bt tk) = Some (tick_on_result en bt tk)" "pi_rethrow (tick_pipeline en bt tk) = False"
  "pi_execute (tick_pipeline en bt tk) q =
     bind (perform (RunEngine (sent_intent en bt tk)) (sm_runEngine en (sent_intent en bt tk))) (\<lambda>r. ret (RawEngine r))"
  by (simp_all add: tick_pipeline_def)

lemma tick_emit [simp]: "emitPipelineEvent (tick_pipeline en bt tk) ph q resp = ret ()"
  by (simp add: emitPipelineEvent_def)

lemma tick_finish [simp]: "finish (tick_pipeline en bt tk) q = ret"
  by (rule ext) (simp add: finish_def)

lemma tick_failed [simp]: "execution_failed (tick_pipeline en bt tk) q = (\<lambda>e. ret (failed_response q e))"
  by (rule ext) (simp add: execution_failed_def)

lemma tick_pipeline_run:
  "executeSharedExecutionPipeline (tick_pipeline en bt tk) =
     (case validateSharedExecutionVenue (tick_request en bt tk) of
        Some resp \<Rightarrow> ret resp
      | None \<Rightarrow> bind (tick_guarded en bt tk (tick_request en bt tk)) (\<lambda>(g, q). case g of
            GuardBlock reason status meta \<Rightarrow> ret (refused_response q reason status meta)
          | GuardAllow \<Rightarrow> catch (run_execute (tick_pipeline en bt tk) q) (\<lambda>e. ret (failed_response q e))))"
  by (simp add: executeSharedExecutionPipeline_def guarded_def cong: guard_result.case_cong split: option.split)

lemma tick_run_execute:
  "run_execute (tick_pipeline en bt tk) q =
     bind (bind (perform (RunEngine (sent_intent en bt tk)) (sm_runEngine en (sent_intent en bt tk))) (\<lambda>r. ret (RawEngine r))) (\<lambda>raw.
     bind (bind (tick_on_result en bt tk (normalizeSharedExecutionResponse q raw) q)
       (\<lambda>o'. ret (opt_get o' (normalizeSharedExecutionResponse q raw)))) ret)"
  by (simp add: run_execute_def hooked_def)

lemma run_engine_confined:
  assumes "tk_intent tk \<noteq> NoIntent"
  shows "triple (\<lambda>t. safe en v t \<and> announced_by en v t (tick_cid en bt tk))
      (perform (RunEngine (sent_intent en bt tk)) (sm_runEngine en (sent_intent en bt tk))) (\<lambda>r. confined en v {tick_cid en bt tk})"
  using sent_client_id [OF assms, of en bt]
  by (intro triple_perform) (auto simp: confined_def call_ok_def announced_by_def)

lemma engine_confined:
  assumes "db_ok en v" "tk_intent tk \<noteq> NoIntent"
  shows "triple (\<lambda>t. safe en v t \<and> announced_by en v t (tick_cid en bt tk)) (run_execute (tick_pipeline en bt tk) q)
    (\<lambda>r. confined en v {tick_cid en bt tk})"
  unfolding tick_run_execute
proof (rule triple_bind [where R = "\<lambda>r. confined en v {tick_cid en bt tk}"])
  show "triple (\<lambda>t. safe en v t \<and> announced_by en v t (tick_cid en bt tk))
    (bind (perform (RunEngine (sent_intent en bt tk)) (sm_runEngine en (sent_intent en bt tk))) (\<lambda>r. ret (RawEngine r)))
    (\<lambda>r. confined en v {tick_cid en bt tk})"
    by (rule triple_bind [OF run_engine_confined [OF assms(2)]]) (auto intro: triple_ret)
next
  fix raw
  show "triple (confined en v {tick_cid en bt tk}) (bind (bind (tick_on_result en bt tk (normalizeSharedExecutionResponse q raw) q)
      (\<lambda>o'. ret (opt_get o' (normalizeSharedExecutionResponse q raw)))) ret) (\<lambda>r. confined en v {tick_cid en bt tk})"
    by (rule triple_bind [OF triple_bind [OF on_result_confined [OF assms(1)]]]) (auto intro: triple_ret)
qed simp

definition opened :: "sim_env \<Rightarrow> bot \<Rightarrow> tick \<Rightarrow> string set" where
  "opened en bt tk = (if announced_order en bt tk then {tick_cid en bt tk} else {})"

definition ends_in :: "sim_env \<Rightarrow> jsval \<Rightarrow> string set \<Rightarrow> js_error + 'a \<Rightarrow> sim_call list \<Rightarrow> bool" where
  "ends_in en v C r t \<longleftrightarrow> (case r of Inr _ \<Rightarrow> confined en v C t | Inl _ \<Rightarrow> safe en v t)"

lemma ends_in_simps [simp]: "ends_in en v C (Inr x) t = confined en v C t" "ends_in en v C (Inl e) t = safe en v t"
  by (simp_all add: ends_in_def)

lemma confined_safe: "confined en v C t \<Longrightarrow> safe en v t"
  by (simp add: confined_def)

lemma confined_ends: "confined en v C t \<Longrightarrow> ends_in en v C r t"
  by (cases r) (simp_all add: confined_safe)

lemma announce_triple:
  assumes "keyed (tk_state tk)" "ids (tk_state tk) = []"
  shows "triple (confined en v {}) (put_state en (state_with_pending en bt tk))
    (\<lambda>r t. safe en v t \<and> (r = Inr () \<longrightarrow> announced_by en v t (tick_cid en bt tk)))"
  unfolding put_state_def
proof (rule triple_perform)
  fix t assume "confined en v {} t"
  then have t: "safe en v t" "open_ids (stored en v t) = []" by (auto simp: confined_def)
  note st = announcing_state(2) [OF assms, of en bt]
  have "put_ok (stored en v t) (state_with_pending en bt tk)" by (simp add: put_ok_def t st)
  then show "safe en v (t @ [PutState (state_with_pending en bt tk)]) \<and>
      (sm_putState en (state_with_pending en bt tk) t = Inr () \<longrightarrow> announced_by en v (t @ [PutState (state_with_pending en bt tk)]) (tick_cid en bt tk))"
    using t st by (auto simp: announced_by_def)
qed

lemma guard_announces:
  assumes "keyed (tk_state tk)" "ids (tk_state tk) = []" "ga_allow (tick_guard en tk)"
  shows "triple (confined en v {}) (tick_guarded en bt tk q)
        (\<lambda>r t. safe en v t \<and> (\<forall>g q. r = Inr (g, q) \<longrightarrow> g = GuardAllow \<and> announced_by en v t (tick_cid en bt tk)))"
  unfolding tick_guarded_def Let_def using assms(3)
  by (simp, intro triple_bind [OF announce_triple [OF assms(1,2)]]) (auto intro!: triple_ret)

lemma guard_refuses:
  assumes "\<not> ga_allow (tick_guard en tk)"
  shows "triple (confined en v {}) (tick_guarded en bt tk q)
        (\<lambda>r t. confined en v {} t \<and> (\<forall>g q. r = Inr (g, q) \<longrightarrow> g \<noteq> GuardAllow))"
  unfolding tick_guarded_def Let_def write_risk_def using assms
  by (simp, intro triple_bind [where R = "\<lambda>r. confined en v {}"] triple_perform) (auto intro!: triple_ret simp: confined_def)

lemma pipeline_confined:
  assumes "db_ok en v" "tk_intent tk \<noteq> NoIntent" "keyed (tk_state tk)" "ids (tk_state tk) = []"
  shows "triple (confined en v {}) (executeSharedExecutionPipeline (tick_pipeline en bt tk)) (ends_in en v (opened en bt tk))"
proof (cases "validateSharedExecutionVenue (tick_request en bt tk)")
  case (Some resp)
  then show ?thesis by (auto simp: tick_pipeline_run opened_def announced_order_def intro!: triple_ret)
next
  case None
  show ?thesis
  proof (cases "ga_allow (tick_guard en tk)")
    case True
    then have o': "opened en bt tk = {tick_cid en bt tk}" using None by (simp add: opened_def announced_order_def)
    show ?thesis
      unfolding tick_pipeline_run None option.case o'
    proof (rule triple_bind [OF guard_announces [OF assms(3,4) True]], goal_cases)
      case (1 x)
      obtain h q where x: "x = (h, q)" by fastforce
      have c: "triple (\<lambda>t. safe en v t \<and> announced_by en v t (tick_cid en bt tk))
          (catch (run_execute (tick_pipeline en bt tk) q) (\<lambda>e. ret (failed_response q e))) (ends_in en v {tick_cid en bt tk})"
        by (rule triple_catch [OF engine_confined [OF assms(1,2)]]) (auto intro: triple_ret)
      show ?case
      proof (cases "h = GuardAllow")
        case True
        then show ?thesis unfolding x using c by (auto intro: triple_conseq)
      next
        case False
        then show ?thesis by (auto simp: x triple_def)
      qed
    qed simp
  next
    case False
    then have o': "opened en bt tk = {}" by (simp add: opened_def announced_order_def)
    show ?thesis
      unfolding tick_pipeline_run None option.case o'
    proof (rule triple_bind [OF guard_refuses [OF False]], goal_cases)
      case (1 x)
      then show ?case by (cases x; cases "fst x") (auto simp: triple_def ret_def)
    qed (simp add: confined_safe)
  qed
qed

lemma after_pipeline_safe:
  assumes "db_ok en v" "keyed (tk_state tk)" "ids (tk_state tk) = []"
  shows "triple (confined en v (opened en bt tk)) (after_pipeline en bt tk resp) (\<lambda>r. safe en v)"
proof (cases "announced_order en bt tk")
  case True
  then have o': "opened en bt tk = {tick_cid en bt tk}" by (simp add: opened_def)
  let ?C = "{tick_cid en bt tk}"
  have put: "triple (\<lambda>t. confined en v ?C t \<and> (\<forall>s. Inr latest = Inr s \<longrightarrow> only ?C s)) (put_state en (error_state en bt tk reason latest)) (\<lambda>r. confined en v ?C)"
    for latest :: mode_state and reason
  proof (cases "only ?C latest")
    case True
    then show ?thesis by (intro triple_conseq [OF put_confined [OF after_states_only(3)]]) auto
  qed (simp add: triple_def)
  have e: "triple (confined en v ?C) (bind (get_state en (tk_now tk)) (\<lambda>latest. put_state en (error_state en bt tk reason latest))) (\<lambda>r. confined en v ?C)"
    for reason
    by (rule triple_bind [OF get_confined [OF assms(1)]]) (use put in auto)
  show ?thesis
    unfolding after_pipeline_def Let_def o' using True
    by (intro triple_bind [where R = "\<lambda>r. confined en v ?C"]) (auto intro!: triple_ret triple_if e simp: confined_safe)
next
  case False
  then have o': "opened en bt tk = {}" by (simp add: opened_def)
  have k: "keyed (ga_state (tick_guard en tk))" "ids (ga_state (tick_guard en tk)) = []"
    using assms(2,3) keyed_same [OF assms(2) guard_pendings] ids_same [OF guard_pendings] by simp_all
  have "triple (confined en v {}) (put_state en (ga_state (tick_guard en tk))) (\<lambda>r. safe en v)"
    unfolding put_state_def
    by (rule triple_perform) (simp add: confined_def put_ok_def open_ids_json [OF k(1)] k(2))
  note put = this
  have "triple (confined en v {}) (if b then put_state en (ga_state (tick_guard en tk)) else ret ()) (\<lambda>r. safe en v)" for b
    using put by (intro triple_if triple_ret) (auto simp: confined_safe)
  note cond = this
  let ?x = "toRunnerExecutionResult resp (tk_intent tk) (tk_gate tk)"
  have "after_pipeline en bt tk resp =
      bind (if xr_status ?x \<noteq> RsExecuted \<and> ms_updatedAt (ga_state (tick_guard en tk)) \<noteq> ms_updatedAt (tk_state tk)
            then put_state en (ga_state (tick_guard en tk)) else ret ()) (\<lambda>_. ret ?x)"
    using False by (simp add: after_pipeline_def Let_def)
  then show ?thesis unfolding o' by (simp only:) (rule triple_bind [OF cond]; simp add: triple_def ret_def)
qed

lemma run_intent_safe:
  assumes "db_ok en v" "keyed (tk_state tk)" "ids (tk_state tk) = []"
  shows "triple (confined en v {}) (run_intent en bt tk) (\<lambda>r. safe en v)"
proof (cases "tk_intent tk = NoIntent")
  case True
  then show ?thesis by (auto simp: run_intent_def confined_safe intro: triple_ret)
next
  case False
  have p: "ms_pendingOrders (blocked_state (ga_state (tick_guard en tk)) r h n) = ms_pendingOrders (tk_state tk)" for r h n
    by (simp add: blocked_state_def)
  have k: "keyed (blocked_state (ga_state (tick_guard en tk)) r h n)" "ids (blocked_state (ga_state (tick_guard en tk)) r h n) = []" for r h n
    using assms(3) keyed_same [OF assms(2) p] ids_same [OF p] by metis+
  have put: "triple (confined en v {}) (put_state en (blocked_state (ga_state (tick_guard en tk)) r h n)) (\<lambda>r. safe en v)" for r h n
    unfolding put_state_def
    by (rule triple_perform) (simp add: confined_def put_ok_def open_ids_json [OF k(1)] k(2))
  have pipe: "triple (confined en v {}) (bind (executeSharedExecutionPipeline (tick_pipeline en bt tk)) (after_pipeline en bt tk)) (\<lambda>r. safe en v)"
    by (rule triple_bind [OF pipeline_confined [OF assms(1) False assms(2,3)]])
      (auto intro: triple_conseq [OF after_pipeline_safe [OF assms]])
  have refuse: "triple (confined en v {})
      (bind (put_state en (blocked_state (ga_state (tick_guard en tk)) r h n)) (\<lambda>_. ret x)) (\<lambda>r. safe en v)" for r h n x
    by (rule triple_bind [OF put]) (simp_all add: triple_def ret_def)
  show ?thesis
  proof (cases "ga_allow (tick_guard en tk)")
    case True
    then show ?thesis using False pipe refuse by (cases "sm_engine en") (simp_all add: run_intent_def Let_def)
  next
    case g: False
    then show ?thesis using False pipe by (simp add: run_intent_def Let_def)
  qed
qed

subsection \<open>Ticks\<close>

text \<open>A state as it is stored.\<close>

definition holds :: "sim_env \<Rightarrow> jsval \<Rightarrow> mode_state \<Rightarrow> sim_call list \<Rightarrow> bool" where
  "holds en v s t \<longleftrightarrow> safe en v t \<and> keyed s \<and> ids s = open_ids (stored en v t)"

lemma holds_safe: "holds en v s t \<Longrightarrow> safe en v t"
  by (simp add: holds_def)

lemma read_holds:
  assumes "db_ok en v"
  shows "triple (safe en v) (get_state en now) (\<lambda>r t. safe en v t \<and> (\<forall>s. r = Inr s \<longrightarrow> holds en v s t))"
  unfolding get_state_def
proof (rule triple_bind [where R = "\<lambda>r t. safe en v t \<and> (\<forall>w. r = Inr w \<longrightarrow> w = stored en v t)"])
  show "triple (safe en v) (perform GetState (sm_getState en)) (\<lambda>r t. safe en v t \<and> (\<forall>w. r = Inr w \<longrightarrow> w = stored en v t))"
    using assms by (intro triple_perform) (auto simp: db_ok_def)
qed (auto intro!: triple_ret simp: holds_def)

lemma write_holds:
  assumes "keyed s'" "set (ids s') \<subseteq> set (ids s)"
  shows "triple (holds en v s) (put_state en s') (\<lambda>r t. safe en v t \<and> (r = Inr () \<longrightarrow> holds en v s' t))"
  unfolding put_state_def
proof (rule triple_perform)
  fix t assume "holds en v s t"
  then show "safe en v (t @ [PutState s']) \<and> (sm_putState en s' t = Inr () \<longrightarrow> holds en v s' (t @ [PutState s']))"
    using assms by (auto simp: holds_def put_ok_def open_ids_json)
qed

lemma positions_holds: "triple (holds en v s) (perform GetPositions (sm_getPositions en)) (\<lambda>r. holds en v s)"
  by (rule triple_perform) (simp add: holds_def)

lemma holds_confined: "ids s = [] \<Longrightarrow> holds en v s t \<Longrightarrow> confined en v {} t"
  by (simp add: holds_def confined_def)

lemma run_intent_holds:
  assumes "db_ok en v" "keyed (tk_state tk)" "ids (tk_state tk) = []"
  shows "triple (holds en v (tk_state tk)) (run_intent en bt tk) (\<lambda>r. safe en v)"
  by (rule triple_conseq [OF run_intent_safe [OF assms]]) (auto intro: holds_confined [OF assms(3)])

lemma reconcile_holds:
  assumes "keyed s"
  shows "triple (holds en v s) (reconcilePendingOrders en c now s)
    (\<lambda>r t. holds en v s t \<and> (\<forall>s' n u. r = Inr (s', n, u) \<longrightarrow> keyed s' \<and> set (ids s') \<subseteq> set (ids s) \<and> (u = [] \<longleftrightarrow> ids s' = [])))"
  unfolding reconcilePendingOrders_def
proof (rule triple_bind [OF positions_holds], goal_cases)
  case (1 ps)
  obtain s' n where r: "reconciled ps c now s = (s', n)" by fastforce
  then show ?case using reconciled_keyed [OF assms r]
    by (auto intro!: triple_ret simp: unresolved_iff)
qed simp

lemma with_state_safe:
  assumes "db_ok en v" "keyed (tk_state tk)"
  shows "triple (holds en v (tk_state tk)) (with_state en bt tk) (\<lambda>r. safe en v)"
proof (cases "listUnresolvedPendingOrders (tk_state tk) = []")
  case True
  then show ?thesis
    using run_intent_holds [OF assms] by (simp add: with_state_def unresolved_iff)
next
  case pending: False
  show ?thesis
  proof (cases "sm_engine en = BuiltEngine")
    case True
    let ?s = "tk_state tk"
    let ?k = "\<lambda>(s, resolved, unresolved). bind (put_state en s) (\<lambda>_.
       if unresolved \<noteq> []
       then ret (reconciliation_blocked en tk (int (length unresolved))
         [(''resolvedPendingOrderCount'', int_val resolved), (''recoveryHint'', JStr ''wait_for_venue_fill_or_manual_reconcile'')])
       else run_intent en bt (tk\<lparr> tk_state := s \<rparr>))"
    have "triple (holds en v ?s) (bind (reconcilePendingOrders en (st_common (tk_settings tk)) (tk_now tk) ?s) ?k) (\<lambda>r. safe en v)"
    proof (rule triple_bind [OF reconcile_holds [OF assms(2)]], goal_cases)
      case (1 x)
      obtain s n u where x: "x = (s, n, u)" by (cases x) auto
      show ?case
      proof (cases "keyed s \<and> set (ids s) \<subseteq> set (ids ?s) \<and> (u = [] \<longleftrightarrow> ids s = [])")
        case True
        let ?next = "\<lambda>y. if u \<noteq> [] then ret y else run_intent en bt (tk\<lparr> tk_state := s \<rparr>)"
        have rest: "triple (holds en v s) (?next y) (\<lambda>r. safe en v)" for y
          using run_intent_holds [OF assms(1), of "tk\<lparr> tk_state := s \<rparr>" bt] True
          by (auto intro!: triple_ret holds_safe)
        have "triple (holds en v ?s) (bind (put_state en s) (\<lambda>_. ?next y)) (\<lambda>r. safe en v)" for y
        proof (rule triple_bind [OF write_holds])
          show "triple (\<lambda>t. safe en v t \<and> (Inr z = (Inr () :: js_error + unit) \<longrightarrow> holds en v s t)) (?next y) (\<lambda>r. safe en v)" for z
            by (rule triple_conseq [OF rest]) simp_all
        qed (use True in simp_all)
        then show ?thesis unfolding x prod.case by (rule triple_conseq) auto
      qed (auto simp: x triple_def)
    qed (simp add: holds_safe)
    then show ?thesis using pending True by (simp add: with_state_def Let_def)
  next
    case False
    have p: "ms_pendingOrders (blocked_state (tk_state tk) r h n) = ms_pendingOrders (tk_state tk)" for r h n
      by (simp add: blocked_state_def)
    have w: "triple (holds en v (tk_state tk)) (put_state en (blocked_state (tk_state tk) r h n)) (\<lambda>x. safe en v)" for r h n
      by (rule triple_conseq [OF write_holds [OF keyed_same [OF assms(2) p]]]) (auto simp: ids_same [OF p])
    have "triple (holds en v (tk_state tk)) (bind (put_state en (blocked_state (tk_state tk) r h n)) (\<lambda>_. ret y)) (\<lambda>x. safe en v)" for r h n y
      by (rule triple_bind [OF w]) (simp_all add: triple_def ret_def)
    then show ?thesis using pending False by (simp add: with_state_def Let_def)
  qed
qed

lemma write_risks_safe: "triple (safe en v) (write_risks en ds) (\<lambda>r. safe en v)"
proof (induction ds)
  case (Cons d ds)
  have "triple (safe en v) (write_risk en d) (\<lambda>r. safe en v)"
    unfolding write_risk_def by (rule triple_perform) simp
  then show ?case using Cons by (auto intro: triple_bind)
qed (simp add: triple_ret)

lemma simple_execute_safe:
  assumes "db_ok en v"
  shows "triple (safe en v) (simple_execute en sg bt now) (\<lambda>r. safe en v)"
proof -
  have ext: "triple (safe en v) (perform (ApplyExtensions i) f) (\<lambda>r. safe en v)" for i and f :: "sim_call list \<Rightarrow> js_error + trade_intent \<times> string list \<times> diagnostic list"
    by (rule triple_perform) simp
  have st: "triple (\<lambda>t. safe en v t \<and> (\<forall>s'. Inr s = Inr s' \<longrightarrow> holds en v s' t)) (with_state en bt (mk s)) (\<lambda>r. safe en v)"
    if "\<And>s. tk_state (mk s) = s" for s :: mode_state and mk
  proof (cases "keyed s")
    case True
    then show ?thesis
      using with_state_safe [OF assms, of "mk s" bt] that by (auto intro: triple_conseq)
  qed (simp add: triple_def holds_def)
  have read: "triple (safe en v) (bind (get_state en now) (\<lambda>s. with_state en bt (mk s))) (\<lambda>r. safe en v)" if "\<And>s. tk_state (mk s) = s" for mk
    by (rule triple_bind [OF read_holds [OF assms] st [OF that]]) simp
  show ?thesis
    unfolding simple_execute_def Let_def
  proof (rule triple_bind [OF ext], goal_cases)
    case (1 x)
    obtain i ids ds where x: "x = (i, ids, ds)" by (cases x) auto
    show ?case unfolding x prod.case
      by (rule triple_bind [OF write_risks_safe], rule read) simp_all
  qed simp
qed

text \<open>Ticks of a bot one after the other; each tick has its signal, the bot as it is loaded and its time.\<close>

fun run_ticks :: "sim_env \<Rightarrow> (signal \<times> bot \<times> int) list \<Rightarrow> sim_call list \<Rightarrow> sim_call list" where
  "run_ticks en [] t = t"
| "run_ticks en ((sg, bt, now) # ticks) t = run_ticks en ticks (snd (simple_execute en sg bt now t))"

lemma run_ticks_safe: "db_ok en v \<Longrightarrow> safe en v t \<Longrightarrow> safe en v (run_ticks en ticks t)"
proof (induction en ticks t rule: run_ticks.induct)
  case (2 en sg bt now ticks t)
  then show ?case using simple_execute_safe [OF 2(2), of sg bt now] by (simp add: triple_def)
qed simp

lemma subset_length: "distinct xs \<Longrightarrow> set xs \<subseteq> set ys \<Longrightarrow> length xs \<le> length ys"
  by (metis card_length card_mono distinct_card le_trans List.finite_set)

lemma put_ok_length: "put_ok v s \<Longrightarrow> length (open_ids v) \<le> 1 \<Longrightarrow> length (open_ids (state_json s)) \<le> 1"
  using subset_length [OF distinct_open_ids, of "state_json s" "open_ids v"] by (auto simp: put_ok_def)

lemma safe_length: "safe en v t \<Longrightarrow> length (open_ids v) \<le> 1 \<Longrightarrow> length (open_ids (stored en v t)) \<le> 1"
proof (induction t rule: rev_induct)
  case (snoc c t)
  then show ?case by (cases c) (auto dest: put_ok_length simp del: One_nat_def)
qed simp

lemma safe_take: "safe en v t \<Longrightarrow> safe en v (take n t)"
  by (simp add: safe_def)

lemma safe_engine:
  assumes "safe en v t" "n < length t" "t ! n = RunEngine i"
  shows "\<exists>s cid. 0 < n \<and> t ! (n - 1) = PutState s \<and> sm_putState en s (take (n - 1) t) = Inr () \<and>
    open_ids (stored en v (take (n - 1) t)) = [] \<and> open_ids (state_json s) = [cid] \<and>
    op_clientOrderId (intent_order_of i) = Some cid"
proof -
  have "call_ok en v (take n t) (RunEngine i)" using assms by (auto simp: safe_def)
  then obtain cid t' s where a: "op_clientOrderId (intent_order_of i) = Some cid" "take n t = t' @ [PutState s]"
      "sm_putState en s t' = Inr ()" "open_ids (stored en v t') = []" "open_ids (state_json s) = [cid]"
    by (auto simp: call_ok_def announced_by_def)
  have n: "n = length t' + 1" using arg_cong [OF a(2), of length] assms(2) by simp
  then have "t' = take (n - 1) t" "t ! (n - 1) = PutState s"
    using arg_cong [OF a(2), of "take (n - 1)"] arg_cong [OF a(2), of "\<lambda>l. l ! (n - 1)"] by (simp_all add: nth_append)
  then show ?thesis using a n by auto
qed

section \<open>Properties\<close>

text \<open>Over any sequence of ticks of a bot, with a database that returns what was last written, with any
  venue, engine and plugins answering or failing in any way, the stored state never has more than one order
  in flight, and the engine is only called right after the order was written to the database, at a moment
  when no other order was in flight, with the client order id of the order written.
\<close>

theorem one_order_in_flight:
  assumes "db_ok en v" "length (open_ids v) \<le> 1"
  shows "let t = run_ticks en ticks [] in (\<forall>n. length (open_ids (stored en v (take n t))) \<le> 1) \<and>
    (\<forall>n i. n < length t \<longrightarrow> t ! n = RunEngine i \<longrightarrow>
       (\<exists>s cid. 0 < n \<and> t ! (n - 1) = PutState s \<and> sm_putState en s (take (n - 1) t) = Inr () \<and>
          open_ids (stored en v (take (n - 1) t)) = [] \<and> open_ids (state_json s) = [cid] \<and>
          op_clientOrderId (intent_order_of i) = Some cid))"
proof -
  have s: "safe en v (run_ticks en ticks [])" using run_ticks_safe [OF assms(1)] by simp
  show ?thesis unfolding Let_def using safe_length [OF safe_take [OF s] assms(2)] safe_engine [OF s] by blast
qed


text \<open>An outside whose database never fails, for the examples: it answers the state last written.\<close>

fun last_written :: "jsval \<Rightarrow> sim_call list \<Rightarrow> jsval" where
  "last_written v [] = v"
| "last_written v (PutState s # t) = state_json s"
| "last_written v (_ # t) = last_written v t"

definition sample_env :: "engine_choice \<Rightarrow> (sim_call list \<Rightarrow> js_error + position list) \<Rightarrow> sim_env" where
  "sample_env eng ps =
     \<lparr> sm_key = ''simple'', sm_engine = eng, sm_extensions = (\<lambda>i t. Inr (i, [], [])), sm_writeRisk = (\<lambda>d t. Inr ()),
       sm_getState = (\<lambda>t. Inr (last_written JNull (rev t))), sm_putState = (\<lambda>s t. Inr ()), sm_getPositions = ps,
       sm_runEngine = (\<lambda>i t. Inr (Accepted (Some ''7''))), sm_environment = (\<lambda>k. None), sm_parseDate = unread \<rparr>"

lemma sample_stored: "(\<forall>s t. sm_putState en s t = Inr ()) \<Longrightarrow> stored en v t = last_written v (rev t)"
  unfolding stored_def
proof (induction t rule: rev_induct)
  case (snoc c t)
  then show ?case by (cases c) simp_all
qed simp

definition sample_bot :: bot where
  "sample_bot = \<lparr> bt_id = ''b1'', bt_strategyKey = ''dummy'', bt_paramsJson = JNull, bt_symbol = ''BTCUSDT'',
     bt_exchange = ''hyperliquid'', bt_marketDataExchange = None, bt_marketDataAccountId = None \<rparr>"

definition sample_signal :: signal where
  "sample_signal = \<lparr> sg_legacyIntent = OpenIntent ''BTCUSDT'' Long None, sg_gate = JNull \<rparr>"

text \<open>The venue shows a position from the second time it is asked.\<close>

definition filled_later :: "sim_call list \<Rightarrow> js_error + position list" where
  "filled_later t =
     Inr (if GetPositions \<in> set t then [\<lparr> ps_symbol = ''BTCUSDT'', ps_side = Long, ps_size = Fin 1 \<rparr>] else [])"

section \<open>Accepted orders\<close>

text \<open>A database that never fails.\<close>

definition steady :: "sim_env \<Rightarrow> jsval \<Rightarrow> bool" where
  "steady en v \<longleftrightarrow> (\<forall>s t. sm_putState en s t = Inr ()) \<and> (\<forall>t. sm_getState en t = Inr (stored en v t))"

lemma steady_db: "steady en v \<Longrightarrow> db_ok en v"
  by (simp add: steady_def db_ok_def)

lemma steady_put [simp]: "steady en v \<Longrightarrow> put_state en s t = (Inr (), t @ [PutState s])"
  by (simp add: steady_def put_state_def perform_def)

lemma steady_get [simp]: "steady en v \<Longrightarrow> get_state en now t = (Inr (normalizeExecutionModeState (stored en v t) now), t @ [GetState])"
  by (simp add: steady_def get_state_def perform_def bind_def ret_def)

lemma steady_stored [simp]: "steady en v \<Longrightarrow> stored en v (t @ [PutState s]) = state_json s"
  by (simp add: steady_def)

lemma steady_bind [simp]:
  "steady en v \<Longrightarrow> bind (put_state en s) k t = k () (t @ [PutState s])"
  "steady en v \<Longrightarrow> bind (get_state en now) f t = f (normalizeExecutionModeState (stored en v t) now) (t @ [GetState])"
  by (simp_all add: bind_def)

text \<open>A tick whose intent the guardrails let through and whose order the engine accepts.\<close>

definition accepts :: "sim_env \<Rightarrow> bot \<Rightarrow> tick \<Rightarrow> sim_call list \<Rightarrow> bool" where
  "accepts en bt tk t \<longleftrightarrow>
     tk_intent tk \<noteq> NoIntent \<and> keyed (tk_state tk) \<and> ids (tk_state tk) = [] \<and> announced_order en bt tk \<and>
     (\<exists>oid. sm_runEngine en (sent_intent en bt tk) (t @ [PutState (state_with_pending en bt tk)]) = Inr (Accepted oid))"

definition sent_request :: "sim_env \<Rightarrow> bot \<Rightarrow> tick \<Rightarrow> shared_request" where
  "sent_request en bt tk = (tick_request en bt tk)\<lparr> sq_intent := Some (sent_intent en bt tk) \<rparr>"

definition sent_calls :: "sim_env \<Rightarrow> bot \<Rightarrow> tick \<Rightarrow> sim_call list" where
  "sent_calls en bt tk = [PutState (state_with_pending en bt tk), RunEngine (sent_intent en bt tk)]"

lemma sent_calls_in [simp]: "RunEngine (sent_intent en bt tk) \<in> set (sent_calls en bt tk)"
  by (simp add: sent_calls_def)

lemma sent_stored: "steady en v \<Longrightarrow> stored en v (t @ sent_calls en bt tk) = state_json (state_with_pending en bt tk)"
proof -
  assume "steady en v"
  then have "stored en v (t @ [PutState (state_with_pending en bt tk)]) = state_json (state_with_pending en bt tk)" by (rule steady_stored)
  then have "stored en v ((t @ [PutState (state_with_pending en bt tk)]) @ [RunEngine (sent_intent en bt tk)]) =
      state_json (state_with_pending en bt tk)" by (simp only: stored_snoc)
  then show ?thesis by (simp add: sent_calls_def)
qed

lemma accepted_pipeline:
  assumes "steady en v" "accepts en bt tk t"
  shows "\<exists>resp. sp_status resp = StExecuted \<and>
    executeSharedExecutionPipeline (tick_pipeline en bt tk) t =
      (case tick_on_result en bt tk resp (sent_request en bt tk) (t @ sent_calls en bt tk) of
         (Inl e, t') \<Rightarrow> (Inr (failed_response (sent_request en bt tk) e), t')
       | (Inr o', t') \<Rightarrow> (Inr (opt_get o' resp), t'))"
proof -
  obtain oid where e: "sm_runEngine en (sent_intent en bt tk) (t @ [PutState (state_with_pending en bt tk)]) = Inr (Accepted oid)"
    using assms(2) by (auto simp: accepts_def)
  have a: "ga_allow (tick_guard en tk)" "validateSharedExecutionVenue (tick_request en bt tk) = None"
    using assms(2) by (simp_all add: accepts_def announced_order_def)
  let ?resp = "normalizeSharedExecutionResponse (sent_request en bt tk) (RawEngine (Accepted oid))"
  have g: "tick_guarded en bt tk (tick_request en bt tk) t = (Inr (GuardAllow, sent_request en bt tk), t @ [PutState (state_with_pending en bt tk)])"
    using a assms(1) by (simp add: tick_guarded_def Let_def bind_def ret_def sent_request_def)
  have "executeSharedExecutionPipeline (tick_pipeline en bt tk) t =
      (case tick_on_result en bt tk ?resp (sent_request en bt tk) (t @ sent_calls en bt tk) of
         (Inl e, t') \<Rightarrow> (Inr (failed_response (sent_request en bt tk) e), t')
       | (Inr o', t') \<Rightarrow> (Inr (opt_get o' ?resp), t'))"
    unfolding tick_pipeline_run a(2) option.case
    by (subst bind_def) (simp add: g catch_def tick_run_execute bind_def perform_def e ret_def sent_calls_def split: prod.split sum.split)
  then show ?thesis by (intro exI [of _ ?resp]) (simp add: normalizeSharedExecutionResponse_def Let_def)
qed

text \<open>The state the result hook reads, and the one it writes.\<close>

definition hook_state :: "sim_env \<Rightarrow> bot \<Rightarrow> tick \<Rightarrow> shared_response \<Rightarrow> mode_state" where
  "hook_state en bt tk resp =
     submitted_state en bt tk resp (normalizeExecutionModeState (state_json (state_with_pending en bt tk)) (tk_now tk))"

lemma hook_state_only:
  assumes "keyed (tk_state tk)" "ids (tk_state tk) = []"
  shows "only {tick_cid en bt tk} (hook_state en bt tk resp)"
  unfolding hook_state_def using announcing_state [OF assms, of en bt] by (intro after_states_only(2)) (simp add: only_def)

lemma put_in: "distinct (map fst kvs) \<Longrightarrow> k \<in> set (map fst (filter unresolved_order (put k p kvs))) \<longleftrightarrow> unresolved_order (k, p) \<or>
   k \<in> set (map fst (filter unresolved_order (remove_key k kvs)))"
proof (induction k p kvs rule: put.induct)
  case (2 k p k' v kvs)
  then have "remove_key k kvs = kvs" if "k' = k" using that by (auto simp: remove_key_def filter_id_conv)
  then show ?case using 2 by (auto simp: remove_key_def intro: image_eqI [where x = "(k, p)"])
qed (simp add: remove_key_def)

lemma hook_state_ids:
  assumes "keyed (tk_state tk)" "ids (tk_state tk) = []"
  shows "ids (hook_state en bt tk resp) = [tick_cid en bt tk]"
proof -
  let ?cid = "tick_cid en bt tk"
  let ?s = "hook_state en bt tk resp"
  note o' = hook_state_only [OF assms, of en bt resp]
  have "unresolved_order (?cid, awaiting p Submitted e n r h)" for p e n r h
    by (simp add: unresolved_order_def awaiting_def)
  moreover have "distinct (map fst (ms_pendingOrders (normalizeExecutionModeState w n)))" for w n
    using keyed_normalize [of w n] by (simp add: keyed_def)
  ultimately have "?cid \<in> set (ids ?s)"
    by (simp add: ids_def hook_state_def submitted_state_def set_pending_def put_in Let_def del: set_map)
  moreover have "distinct (ids ?s)" using o' by (auto simp: only_def keyed_def ids_def intro: distinct_map_filter)
  moreover have "set (ids ?s) \<subseteq> {?cid}" using o' by (simp add: only_def)
  ultimately show ?thesis using at_most_one [of "ids ?s" ?cid] by (cases "ids ?s"; cases "tl (ids ?s)") auto
qed

lemma hook_injected:
  assumes "steady en v" "sp_status resp = StExecuted" "sm_engine en = InjectedEngine"
  shows "tick_on_result en bt tk resp q (t @ sent_calls en bt tk) =
    (Inr (Some resp), t @ sent_calls en bt tk @ [GetState, PutState (hook_state en bt tk resp)])"
  using assms by (simp add: tick_on_result_def sent_stored Let_def hook_state_def [symmetric] ret_def)

lemma hook_positions_fail:
  assumes "steady en v" "sp_status resp = StExecuted" "sm_engine en = BuiltEngine" "\<forall>t. sm_getPositions en t = Inl e"
  shows "tick_on_result en bt tk resp q (t @ sent_calls en bt tk) =
    (Inl e, t @ sent_calls en bt tk @ [GetState, PutState (hook_state en bt tk resp), GetPositions])"
proof -
  have "bind (reconcilePendingOrders en c now s) k u = (Inl e, u @ [GetPositions])"
    for c now s u and k :: "mode_state \<times> int \<times> pending_order list \<Rightarrow> (shared_response option) sim_act"
    using assms(4) by (simp add: reconcilePendingOrders_def bind_def perform_def)
  then show ?thesis
    using assms(1-3) by (simp add: tick_on_result_def sent_stored Let_def hook_state_def [symmetric])
qed

lemma drop_pending_ids: "only {cid} s \<Longrightarrow> ids (drop_pending cid r h s) = []"
  by (auto simp: only_def ids_def drop_pending_def remove_key_def filter_empty_conv)

lemma accepted_run:
  assumes "accepts en bt tk t" "sm_engine en = InjectedEngine \<or> sm_engine en = BuiltEngine"
  shows "run_intent en bt tk t = bind (executeSharedExecutionPipeline (tick_pipeline en bt tk)) (after_pipeline en bt tk) t"
  using assms by (auto simp: run_intent_def accepts_def announced_order_def Let_def)

lemma after_run:
  assumes "steady en v" "announced_order en bt tk"
  defines "x resp \<equiv> toRunnerExecutionResult resp (tk_intent tk) (tk_gate tk)"
  shows "after_pipeline en bt tk resp t =
    (if sp_status resp = StFailed
     then (Inr (x resp), t @ [GetState, PutState (error_state en bt tk (sp_reason resp) (normalizeExecutionModeState (stored en v t) (tk_now tk)))])
     else (Inr (x resp), t))"
proof -
  have "xr_status (x resp) = RsError \<longleftrightarrow> sp_status resp = StFailed" "xr_reason (x resp) = sp_reason resp"
    by (cases "sp_status resp"; simp add: x_def toRunnerExecutionResult_def)+
  then show ?thesis
    using assms(1,2) by (simp add: after_pipeline_def Let_def x_def [symmetric] bind_def ret_def)
qed

lemma failed_response_status [simp]: "sp_status (failed_response q e) = StFailed" "sp_reason (failed_response q e) = er_message e"
  by (simp_all add: failed_response_def normalizeSharedExecutionResponse_def plain_input_def Let_def)

lemma steady_hook:
  assumes "steady en v"
  shows "stored en v (t @ sent_calls en bt tk @ [GetState, PutState s]) = state_json s"
    "stored en v (t @ sent_calls en bt tk @ [GetState, PutState s, GetPositions]) = state_json s"
    "stored en v (t @ sent_calls en bt tk @ [GetState, PutState s, GetPositions, GetState, PutState s']) = state_json s'"
proof -
  let ?u = "(t @ sent_calls en bt tk) @ [GetState]"
  have a: "stored en v (?u @ [PutState s]) = state_json s" by (rule steady_stored [OF assms])
  have b: "stored en v ((?u @ [PutState s]) @ [GetPositions]) = state_json s" using a by (simp only: stored_snoc)
  have c: "stored en v ((((?u @ [PutState s]) @ [GetPositions]) @ [GetState]) @ [PutState s']) = state_json s'"
    by (rule steady_stored [OF assms])
  from a b c show "stored en v (t @ sent_calls en bt tk @ [GetState, PutState s]) = state_json s"
    "stored en v (t @ sent_calls en bt tk @ [GetState, PutState s, GetPositions]) = state_json s"
    "stored en v (t @ sent_calls en bt tk @ [GetState, PutState s, GetPositions, GetState, PutState s']) = state_json s'"
    by simp_all
qed

text \<open>C27: When the engine has accepted the order of a tick and the lookup of the positions that follows fails
  with a message that mentions no pending state, the tick reports an error and the order is gone from the
  stored state: no later tick will wait for it or look it up.
\<close>

theorem accepted_order_forgotten:
  assumes "steady en v" "accepts en bt tk t" "sm_engine en = BuiltEngine"
    and "\<forall>t. sm_getPositions en t = Inl e" "\<not> isPendingConfirmationReason (er_message e)"
  shows "\<exists>r t'. run_intent en bt tk t = (Inr r, t') \<and> xr_status r = RsError \<and> xr_reason r = er_message e \<and>
    RunEngine (sent_intent en bt tk) \<in> set t' \<and> open_ids (stored en v t') = []"
proof -
  have tk: "keyed (tk_state tk)" "ids (tk_state tk) = []" "announced_order en bt tk" using assms(2) by (simp_all add: accepts_def)
  obtain resp where resp: "sp_status resp = StExecuted"
    and run: "executeSharedExecutionPipeline (tick_pipeline en bt tk) t =
      (case tick_on_result en bt tk resp (sent_request en bt tk) (t @ sent_calls en bt tk) of
         (Inl e, t') \<Rightarrow> (Inr (failed_response (sent_request en bt tk) e), t')
       | (Inr o', t') \<Rightarrow> (Inr (opt_get o' resp), t'))"
    using accepted_pipeline [OF assms(1,2)] by blast
  let ?h = "hook_state en bt tk resp"
  let ?f = "failed_response (sent_request en bt tk) e"
  let ?t = "t @ sent_calls en bt tk @ [GetState, PutState ?h, GetPositions]"
  let ?l = "normalizeExecutionModeState (state_json ?h) (tk_now tk)"
  let ?e = "error_state en bt tk (er_message e) ?l"
  have "executeSharedExecutionPipeline (tick_pipeline en bt tk) t = (Inr ?f, ?t)"
    unfolding run hook_positions_fail [OF assms(1) resp assms(3,4)] by simp
  then have r: "run_intent en bt tk t =
      (Inr (toRunnerExecutionResult ?f (tk_intent tk) (tk_gate tk)), ?t @ [GetState, PutState ?e])"
    using assms(3) by (simp add: accepted_run [OF assms(2)] bind_def after_run [OF assms(1) tk(3)] steady_hook [OF assms(1)])
  have "only {tick_cid en bt tk} ?h" by (rule hook_state_only [OF tk(1,2)])
  then have "only {tick_cid en bt tk} ?l" by (simp add: only_def open_ids_json)
  then have o': "only {tick_cid en bt tk} ?e"
    "ids (drop_pending (tick_cid en bt tk) (er_message e) ''retry_after_final_error_review'' ?l) = []"
    by (rule after_states_only(3), rule drop_pending_ids)
  from o'(2) have "ids ?e = []" using assms(5) by (simp add: error_state_def Let_def ids_def)
  then have "open_ids (stored en v (?t @ [GetState, PutState ?e])) = []"
    using steady_hook(3) [OF assms(1)] o'(1) by (simp add: only_def open_ids_json)
  moreover have "RunEngine (sent_intent en bt tk) \<in> set (?t @ [GetState, PutState ?e])" by simp
  ultimately show ?thesis
    using r by (intro exI conjI) (assumption | simp add: toRunnerExecutionResult_def)+
qed

lemma injected_run:
  assumes "steady en v" "accepts en bt tk t" "sm_engine en = InjectedEngine"
  shows "\<exists>resp. sp_status resp = StExecuted \<and>
    run_intent en bt tk t = (Inr (toRunnerExecutionResult resp (tk_intent tk) (tk_gate tk)),
      t @ sent_calls en bt tk @ [GetState, PutState (hook_state en bt tk resp)])"
proof -
  obtain resp where resp: "sp_status resp = StExecuted"
    and run: "executeSharedExecutionPipeline (tick_pipeline en bt tk) t =
      (case tick_on_result en bt tk resp (sent_request en bt tk) (t @ sent_calls en bt tk) of
         (Inl e, t') \<Rightarrow> (Inr (failed_response (sent_request en bt tk) e), t')
       | (Inr o', t') \<Rightarrow> (Inr (opt_get o' resp), t'))"
    using accepted_pipeline [OF assms(1,2)] by blast
  let ?t = "t @ sent_calls en bt tk @ [GetState, PutState (hook_state en bt tk resp)]"
  have "announced_order en bt tk" using assms(2) by (simp add: accepts_def)
  note after = after_run [OF assms(1) this]
  have "executeSharedExecutionPipeline (tick_pipeline en bt tk) t = (Inr resp, ?t)"
    unfolding run hook_injected [OF assms(1) resp assms(3)] by (simp add: opt_get_def)
  then have "run_intent en bt tk t = (Inr (toRunnerExecutionResult resp (tk_intent tk) (tk_gate tk)), ?t)"
    using assms(3) resp by (simp add: accepted_run [OF assms(2)] bind_def after)
  then show ?thesis using resp by blast
qed

text \<open>A tick with plugins that do nothing, on a state with no order in flight, is the run of its intent.\<close>

lemma simple_plain:
  assumes "steady en v" "\<forall>i t. sm_extensions en i t = Inr (i, [], [])" "open_ids (stored en v t) = []"
  shows "simple_execute en sg bt now t =
    (let st = readExecutionSettings (bt_strategyKey bt) (bt_paramsJson bt); i = sg_legacyIntent sg
     in run_intent en bt \<lparr> tk_now = now, tk_settings = st, tk_gate = coerceGateSummary (sg_gate sg) defaultGateSummary,
          tk_state = normalizeExecutionModeState (stored en v t) now,
          tk_intent = applyCommonIntentSafety (toIntentWithSimpleOverrides i st) (st_common st), tk_pluginIds = [] \<rparr>
          (t @ [ApplyExtensions i, GetState]))"
proof -
  let ?st = "readExecutionSettings (bt_strategyKey bt) (bt_paramsJson bt)"
  let ?i = "sg_legacyIntent sg"
  have p: "perform (ApplyExtensions ?i) (sm_extensions en ?i) t = (Inr (?i, [], []), t @ [ApplyExtensions ?i])"
    using assms(2) by (simp add: perform_def)
  have "stored en v (t @ [ApplyExtensions ?i]) = stored en v t" by simp
  moreover have "with_state en bt tk = run_intent en bt tk" if "ids (tk_state tk) = []" for tk
    using that by (simp add: with_state_def unresolved_iff)
  ultimately show ?thesis
    unfolding simple_execute_def Let_def
    using assms(1,3) by (subst bind_def) (simp add: p)
qed

text \<open>A state with an order in flight, an engine that was not built for the bot: the database's open orders stay.\<close>

definition idle_calls :: "sim_call list \<Rightarrow> bool" where
  "idle_calls cs \<longleftrightarrow> (\<forall>i. RunEngine i \<notin> set cs)"

definition stuck :: "sim_env \<Rightarrow> jsval \<Rightarrow> sim_call list \<Rightarrow> sim_call list \<Rightarrow> bool" where
  "stuck en v t0 t \<longleftrightarrow> (\<exists>cs. t = t0 @ cs \<and> idle_calls cs) \<and> open_ids (stored en v t) = open_ids (stored en v t0)"

lemma stuck_refl: "stuck en v t t"
  by (simp add: stuck_def idle_calls_def)

lemma stuck_trans: "stuck en v t0 t1 \<Longrightarrow> stuck en v t1 t2 \<Longrightarrow> stuck en v t0 t2"
  by (auto simp: stuck_def idle_calls_def)

lemma stuck_snoc:
  "stuck en v t0 t \<Longrightarrow> c \<in> {GetState, GetPositions} \<union> range WriteRisk \<union> range ApplyExtensions \<Longrightarrow> stuck en v t0 (t @ [c])"
proof -
  assume t: "stuck en v t0 t" and c: "c \<in> {GetState, GetPositions} \<union> range WriteRisk \<union> range ApplyExtensions"
  have "stored en v (t @ [c]) = stored en v t" using c by auto
  moreover have "idle_calls [c]" using c by (auto simp: idle_calls_def)
  ultimately show ?thesis using t by (auto simp: stuck_def idle_calls_def)
qed

lemma stuck_put:
  "stuck en v t0 t \<Longrightarrow> open_ids (state_json s) = open_ids (stored en v t0) \<Longrightarrow> stuck en v t0 (t @ [PutState s])"
  by (auto simp: stuck_def idle_calls_def)

lemma stuck_risks: "triple (stuck en v t0) (write_risks en ds) (\<lambda>r. stuck en v t0)"
proof (induction ds)
  case (Cons d ds)
  have "triple (stuck en v t0) (write_risk en d) (\<lambda>r. stuck en v t0)"
    unfolding write_risk_def by (rule triple_perform) (simp add: stuck_snoc)
  then show ?case using Cons by (auto intro: triple_bind)
qed (simp add: triple_ret)

definition blocked_pending :: "js_error + execution_result \<Rightarrow> bool" where
  "blocked_pending r \<longleftrightarrow> (\<forall>x. r = Inr x \<longrightarrow> xr_status x = RsBlocked \<and> xr_reason x = ''pending_order_reconciliation'')"

lemma stuck_execute:
  assumes "db_ok en v" "sm_engine en \<noteq> BuiltEngine" "open_ids (stored en v t0) \<noteq> []"
  shows "triple (stuck en v t0) (simple_execute en sg bt now) (\<lambda>r t. stuck en v t0 t \<and> blocked_pending r)"
proof -
  let ?Q = "\<lambda>r t. stuck en v t0 t \<and> blocked_pending r"
  have read: "triple (stuck en v t0) (get_state en now)
      (\<lambda>r t. stuck en v t0 t \<and> (\<forall>s. r = Inr s \<longrightarrow> keyed s \<and> ids s = open_ids (stored en v t0)))"
    unfolding get_state_def
  proof (rule triple_bind [where R = "\<lambda>r t. stuck en v t0 t \<and> (\<forall>w. r = Inr w \<longrightarrow> w = stored en v t)"])
    show "triple (stuck en v t0) (perform GetState (sm_getState en)) (\<lambda>r t. stuck en v t0 t \<and> (\<forall>w. r = Inr w \<longrightarrow> w = stored en v t))"
      using assms(1) by (intro triple_perform) (auto simp: db_ok_def stuck_snoc)
  qed (auto intro!: triple_ret simp: stuck_def)
  have st: "triple (stuck en v t0) (with_state en bt tk) ?Q" if "keyed (tk_state tk)" "ids (tk_state tk) = open_ids (stored en v t0)" for tk
  proof -
    have p: "ms_pendingOrders (blocked_state (tk_state tk) r h n) = ms_pendingOrders (tk_state tk)" for r h n
      by (simp add: blocked_state_def)
    have "open_ids (state_json (blocked_state (tk_state tk) r h n)) = open_ids (stored en v t0)" for r h n
      using open_ids_json [OF keyed_same [OF that(1) p]] ids_same [OF p] that(2) by simp
    then have w: "triple (stuck en v t0) (put_state en (blocked_state (tk_state tk) r h n)) (\<lambda>x. stuck en v t0)" for r h n
      unfolding put_state_def by (intro triple_perform stuck_put)
    have "triple (stuck en v t0) (bind (put_state en (blocked_state (tk_state tk) r h n)) (\<lambda>_. ret (reconciliation_blocked en tk m ys)))
        (\<lambda>r t. stuck en v t0 t \<and> (\<forall>x. r = Inr x \<longrightarrow> xr_status x = RsBlocked \<and> xr_reason x = ''pending_order_reconciliation''))" for r h n m ys
      by (rule triple_bind [OF w]) (simp_all add: triple_def ret_def reconciliation_blocked_def buildBlockedExecutionResult_def)
    moreover have "listUnresolvedPendingOrders (tk_state tk) \<noteq> []" using that(2) assms(3) by (simp add: unresolved_iff)
    ultimately show ?thesis using assms(2) by (simp add: with_state_def Let_def blocked_pending_def)
  qed
  have rest: "triple (stuck en v t0) (bind (get_state en now) (\<lambda>s. with_state en bt (mk s))) ?Q" if "\<And>s. tk_state (mk s) = s" for mk
  proof (rule triple_bind [OF read])
    show "triple (\<lambda>t. stuck en v t0 t \<and> (\<forall>s'. Inr s = (Inr s' :: js_error + mode_state) \<longrightarrow> keyed s' \<and> ids s' = open_ids (stored en v t0)))
        (with_state en bt (mk s)) ?Q" for s
      using st [of "mk s"] that by (cases "keyed s \<and> ids s = open_ids (stored en v t0)") (auto simp: triple_def)
  qed (simp add: blocked_pending_def)
  show ?thesis
    unfolding simple_execute_def Let_def
  proof (rule triple_bind [where R = "\<lambda>r. stuck en v t0"], goal_cases)
    case 1
    show ?case by (rule triple_perform) (simp add: stuck_snoc)
  next
    case (2 x)
    obtain i ids ds where x: "x = (i, ids, ds)" by (cases x) auto
    show ?case unfolding x prod.case
      by (rule triple_bind [OF stuck_risks], rule rest) (simp_all add: blocked_pending_def)
  qed (simp add: blocked_pending_def)
qed

lemma stuck_ticks:
  assumes "db_ok en v" "sm_engine en \<noteq> BuiltEngine" "open_ids (stored en v t0) \<noteq> []"
  shows "stuck en v t0 t \<Longrightarrow> stuck en v t0 (run_ticks en ticks t)"
proof (induction ticks arbitrary: t)
  case (Cons x ticks)
  obtain sg bt now where x: "x = (sg, bt, now)" by (cases x) auto
  show ?case using Cons stuck_execute [OF assms, of sg bt now] by (simp add: x triple_def)
qed simp

text \<open>C28: With an engine handed to the mode from outside, as the backtest does, the first accepted order is never
  resolved: it stays in flight, the engine is never called again, and every later tick is refused while
  waiting for it.
\<close>

theorem injected_engine_stuck:
  assumes "steady en v" "accepts en bt tk t" "sm_engine en = InjectedEngine"
  shows "let t' = snd (run_intent en bt tk t)
    in open_ids (stored en v t') = [tick_cid en bt tk] \<and>
       (\<forall>ticks. \<exists>cs. run_ticks en ticks t' = t' @ cs \<and> idle_calls cs \<and>
          (\<forall>sg bt' now. blocked_pending (fst (simple_execute en sg bt' now (t' @ cs)))))"
proof -
  have tk: "keyed (tk_state tk)" "ids (tk_state tk) = []" using assms(2) by (simp_all add: accepts_def)
  obtain resp where r: "run_intent en bt tk t = (Inr (toRunnerExecutionResult resp (tk_intent tk) (tk_gate tk)),
      t @ sent_calls en bt tk @ [GetState, PutState (hook_state en bt tk resp)])"
    using injected_run [OF assms] by blast
  let ?h = "hook_state en bt tk resp"
  let ?t = "t @ sent_calls en bt tk @ [GetState, PutState ?h]"
  have h: "keyed ?h" using hook_state_only [OF tk(1,2)] by (simp add: only_def)
  have o': "open_ids (stored en v ?t) = [tick_cid en bt tk]"
    by (simp add: steady_hook(1) [OF assms(1)] open_ids_json [OF h] hook_state_ids [OF tk(1,2)])
  then have ne: "sm_engine en \<noteq> BuiltEngine" "open_ids (stored en v ?t) \<noteq> []" using assms(3) by simp_all
  note ticks = stuck_ticks [OF steady_db [OF assms(1)] ne stuck_refl]
  note one = stuck_execute [OF steady_db [OF assms(1)] ne]
  have "\<exists>cs. run_ticks en ticks ?t = ?t @ cs \<and> idle_calls cs \<and>
      (\<forall>sg bt' now. blocked_pending (fst (simple_execute en sg bt' now (?t @ cs))))" for ticks
  proof -
    obtain cs where cs: "run_ticks en ticks ?t = ?t @ cs" "idle_calls cs" using ticks [of ticks] unfolding stuck_def by blast
    have "blocked_pending (fst (simple_execute en sg bt' now (?t @ cs)))" for sg bt' now
      using one [of sg bt' now] ticks [of ticks] unfolding triple_def cs(1) by blast
    then show ?thesis using cs by blast
  qed
  then show ?thesis using o' by (simp add: r Let_def)
qed


section \<open>Examples\<close>

definition sample_tick :: tick where
  "sample_tick = \<lparr> tk_now = sample_now,
     tk_settings = (readExecutionSettings ''dummy'' JNull)\<lparr> st_mode := ModeSimple, st_common := sample_common \<rparr>,
     tk_gate = defaultGateSummary, tk_state = normalizeExecutionModeState JNull sample_now,
     tk_intent = OpenIntent ''BTCUSDT'' Long None, tk_pluginIds = [] \<rparr>"

lemma sample_allowed:
  "ga_allow (evaluateExecutionGuardrails unread (OpenIntent ''BTCUSDT'' Long None) sample_common (normalizeExecutionModeState JNull sample_now) sample_now)"
  by code_simp

lemma sample_venue: "validateSharedExecutionVenue
   \<lparr> sq_domain = ''simple'', sq_action = ''place_order'', sq_symbol = Some ''BTCUSDT'', sq_intent = Some (OpenIntent ''BTCUSDT'' Long None),
     sq_venue = Some (buildSharedExecutionVenue (Some ''hyperliquid'') None None None None), sq_requirements = None, sq_metadata = m \<rparr> = None"
  by code_simp

lemma sample_accepts: "accepts (sample_env eng ps) sample_bot sample_tick []"
proof -
  have "announced_order (sample_env eng ps) sample_bot sample_tick"
    using sample_allowed sample_venue
    by (simp add: announced_order_def tick_guard_def tick_request_def sample_env_def sample_tick_def sample_bot_def is_close_def intentSymbol_def)
  moreover have "open_ids JNull = []" by code_simp
  ultimately show ?thesis by (simp add: accepts_def sample_tick_def sample_env_def)
qed

lemma sample_steady: "steady (sample_env eng ps) JNull"
proof -
  have "stored (sample_env eng ps) JNull t = last_written JNull (rev t)" for t
    by (rule sample_stored) (simp add: sample_env_def)
  then show ?thesis by (simp add: steady_def) (simp add: sample_env_def)
qed

definition lost_connection :: js_error where
  "lost_connection = \<lparr> er_class = OtherError ''TypeError'', er_message = ''fetch failed'', er_symbol = '''' \<rparr>"

theorem accepted_order_forgotten_witness:
  "\<exists>r t'. run_intent (sample_env BuiltEngine (\<lambda>t. Inl lost_connection)) sample_bot sample_tick [] = (Inr r, t') \<and>
     xr_status r = RsError \<and> xr_reason r = ''fetch failed'' \<and>
     RunEngine (sent_intent (sample_env BuiltEngine (\<lambda>t. Inl lost_connection)) sample_bot sample_tick) \<in> set t' \<and>
     open_ids (stored (sample_env BuiltEngine (\<lambda>t. Inl lost_connection)) JNull t') = []"
proof -
  let ?en = "sample_env BuiltEngine (\<lambda>t. Inl lost_connection)"
  have "\<not> isPendingConfirmationReason (er_message lost_connection)" by code_simp
  moreover have "sm_engine ?en = BuiltEngine" "\<forall>t. sm_getPositions ?en t = Inl lost_connection" by (simp_all add: sample_env_def)
  ultimately show ?thesis
    using accepted_order_forgotten [OF sample_steady sample_accepts, of BuiltEngine "\<lambda>t. Inl lost_connection" lost_connection]
    by (simp add: lost_connection_def)
qed

theorem injected_engine_stuck_witness:
  "let t' = snd (run_intent (sample_env InjectedEngine filled_later) sample_bot sample_tick [])
   in (\<forall>n. idle_calls (drop (length t') (run_ticks (sample_env InjectedEngine filled_later)
        (replicate n (sample_signal, sample_bot, sample_now + 60000)) t')))"
proof -
  let ?en = "sample_env InjectedEngine filled_later"
  let ?t = "snd (run_intent ?en sample_bot sample_tick [])"
  have "sm_engine ?en = InjectedEngine" by (simp add: sample_env_def)
  then have "\<exists>cs. run_ticks ?en ticks ?t = ?t @ cs \<and> idle_calls cs" for ticks
    using injected_engine_stuck [OF sample_steady sample_accepts, of InjectedEngine filled_later] unfolding Let_def by blast
  then show ?thesis unfolding Let_def by (metis append_eq_conv_conj)
qed

theorem one_order_in_flight_witness:
  "let en = sample_env BuiltEngine filled_later; t = run_ticks en [(sample_signal, sample_bot, sample_now)] []
   in \<forall>n. length (open_ids (stored en JNull (take n t))) \<le> 1"
proof -
  have "length (open_ids JNull) \<le> 1" by code_simp
  from one_order_in_flight [OF steady_db [OF sample_steady] this, of BuiltEngine filled_later "[(sample_signal, sample_bot, sample_now)]"]
  show ?thesis unfolding Let_def by blast
qed

end
