(* ===== verification/TradeModes.thy ===== *)
theory TradeModes
  imports SimpleExecution
begin

text \<open>
  The execution modes built on the simple one (apps/runner/src/execution/dcaExecutionMode.ts,
  gridExecutionMode.ts, dipReversionExecutionMode.ts and the helpers of modeUtils.ts): each decides from
  the part of the stored state it keeps per symbol whether a signal becomes an order, shapes the intent,
  hands it to the simple mode and records the execution. They read and write the same stored state. The
  power function of the language is a parameter.
\<close>

section \<open>Intents\<close>

definition buildModeNoopResult :: "signal \<Rightarrow> string \<Rightarrow> jsobj \<Rightarrow> execution_result" where
  "buildModeNoopResult sg reason metadata =
     \<lparr> xr_status = RsNoop, xr_reason = reason, xr_orderIds = None, xr_metadata = spread [(''preserveReason'', JBool True)] metadata,
       xr_outcomeOk = True, xr_intent = NoIntent, xr_gate = coerceGateSummary (sg_gate sg) defaultGateSummary, xr_shared = None \<rparr>"

definition withLegacyIntent :: "signal \<Rightarrow> trade_intent \<Rightarrow> signal" where
  "withLegacyIntent sg i = sg\<lparr> sg_legacyIntent := i \<rparr>"

definition runSimpleExecutionWithCustomIntent :: "sim_env \<Rightarrow> signal \<Rightarrow> trade_intent \<Rightarrow> bot \<Rightarrow> int \<Rightarrow> execution_result sim_act" where
  "runSimpleExecutionWithCustomIntent en sg i bt now = simple_execute en (withLegacyIntent sg i) bt now"

definition positive_finite :: "jsnum \<Rightarrow> bool" where
  "positive_finite x \<longleftrightarrow> is_finite x \<and> n_lt (Fin 0) x"

definition estimateAdverseMoveReached :: "position_side \<Rightarrow> jsnum \<Rightarrow> jsnum \<Rightarrow> jsnum \<Rightarrow> bool" where
  "estimateAdverseMoveReached side ref mark step \<longleftrightarrow>
     positive_finite ref \<and> positive_finite mark \<and> positive_finite step \<and>
     (let factor = n_div step (Fin 100)
      in case side of
           Long \<Rightarrow> n_le mark (n_mul ref (n_sub (Fin 1) factor))
         | Short \<Rightarrow> n_le (n_mul ref (n_add (Fin 1) factor)) mark)"

definition millionth :: jsnum where
  "millionth = fl (1 / 1000000)"

definition withDesiredNotionalUsd :: "order_params option \<Rightarrow> jsnum \<Rightarrow> order_params option" where
  "withDesiredNotionalUsd order usd =
     Some ((opt_get order no_params)\<lparr> op_desiredNotionalUsd := Some (n_max millionth usd), op_qty := None, op_riskUsd := None,
       op_stopDistancePct := None \<rparr>)"

definition positive_pct :: "jsnum option \<Rightarrow> jsnum option" where
  "positive_pct p = (case p of Some x \<Rightarrow> if n_lt (Fin 0) x then Some x else None | None \<Rightarrow> None)"

definition moved :: "jsnum \<Rightarrow> jsnum \<Rightarrow> bool \<Rightarrow> jsnum" where
  "moved mark pct up = (let factor = n_div pct (Fin 100) in n_mul mark (if up then n_add (Fin 1) factor else n_sub (Fin 1) factor))"

definition withTpSlFromPct ::
  "position_side \<Rightarrow> order_params option \<Rightarrow> jsnum option \<Rightarrow> jsnum option \<Rightarrow> jsnum option \<Rightarrow> order_params option" where
  "withTpSlFromPct side order markPrice takeProfitPct stopLossPct =
     (case positive_pct markPrice of
        None \<Rightarrow> order
      | Some mark \<Rightarrow>
          (let od = opt_get order no_params;
               tp = (case positive_pct takeProfitPct of Some p \<Rightarrow> Some (moved mark p (side = Long)) | None \<Rightarrow> op_takeProfitPrice od);
               sl = (case positive_pct stopLossPct of Some p \<Rightarrow> Some (moved mark p (side = Short)) | None \<Rightarrow> op_stopLossPrice od)
           in Some (od\<lparr> op_takeProfitPrice := tp, op_stopLossPrice := sl \<rparr>)))"

definition scaleOpenIntent :: "order_params option \<Rightarrow> jsnum \<Rightarrow> order_params option" where
  "scaleOpenIntent order multiplier =
     (let scale = (if is_finite multiplier then n_max millionth multiplier else Fin 1); od = opt_get order no_params;
          times = map_option (\<lambda>x. n_mul x scale)
      in Some (od\<lparr> op_qty := times (op_qty od), op_desiredNotionalUsd := times (op_desiredNotionalUsd od),
           op_riskUsd := times (op_riskUsd od) \<rparr>))"

definition with_order_type :: "order_params option \<Rightarrow> order_type \<Rightarrow> order_params option" where
  "with_order_type order ty = Some ((opt_get order no_params)\<lparr> op_type := Some ty \<rparr>)"

text \<open>The metadata a mode adds to the result of the simple mode.\<close>

definition staged :: "execution_settings \<Rightarrow> string \<Rightarrow> jsobj \<Rightarrow> execution_result \<Rightarrow> execution_result" where
  "staged st stage extra r =
     r\<lparr> xr_metadata := spread (xr_metadata r) ([(''mode'', JStr (mode_str (st_mode st))), (''modeStage'', JStr stage)] @ extra) \<rparr>"

definition mode_of :: "execution_settings \<Rightarrow> string \<times> jsval" where
  "mode_of st = (''mode'', JStr (mode_str (st_mode st)))"

text \<open>What follows an execution: the state is read again, its part changed and written.\<close>

definition record_execution :: "sim_env \<Rightarrow> int \<Rightarrow> (mode_state \<Rightarrow> mode_state) \<Rightarrow> execution_result \<Rightarrow> unit sim_act" where
  "record_execution en now f r =
     (if xr_status r = RsExecuted
      then bind (get_state en now) (\<lambda>s. put_state en ((f s)\<lparr> ms_updatedAt := toISOString now \<rparr>))
      else ret ())"

section \<open>Dollar cost averaging\<close>

text \<open>The entries made on the side of the intent so far.\<close>

definition dca_entries :: "mode_state \<Rightarrow> string \<Rightarrow> position_side \<Rightarrow> int" where
  "dca_entries s symbol side =
     (case map_of (ms_dca s) symbol of Some d \<Rightarrow> if dm_side d = side then dm_entryCount d else 0 | None \<Rightarrow> 0)"

definition dca_last_price :: "mode_state \<Rightarrow> string \<Rightarrow> jsnum option" where
  "dca_last_price s symbol =
     (case map_of (ms_dca s) symbol of
        Some d \<Rightarrow> (case dm_lastEntryPrice d of Some x \<Rightarrow> if x = Fin 0 \<or> x = NaN then None else Some x | None \<Rightarrow> None)
      | None \<Rightarrow> None)"

text \<open>The reason not to make an entry.\<close>

definition dca_refusal :: "execution_settings \<Rightarrow> mode_state \<Rightarrow> string \<Rightarrow> position_side \<Rightarrow> jsnum option \<Rightarrow> (string \<times> jsobj) option" where
  "dca_refusal st s symbol side mark =
     (let n = dca_entries s symbol side; max = ed_maxEntries (st_dca st)
      in if max \<le> n
         then Some (''dca_max_entries_reached'', [mode_of st, (''maxEntries'', int_val max), (''entryCount'', int_val n)])
         else if n \<le> 0 then None
         else case (mark, dca_last_price s symbol) of
                (Some m, Some l) \<Rightarrow>
                  if estimateAdverseMoveReached side l m (ed_stepPct (st_dca st)) then None
                  else Some (''dca_step_not_reached'', [mode_of st, (''entryCount'', int_val n), (''stepPct'', JNum (ed_stepPct (st_dca st))),
                         (''lastEntryPrice'', JNum l), (''markPrice'', JNum m)])
              | _ \<Rightarrow> Some (''dca_waiting_mark_price'', [mode_of st, (''entryCount'', int_val n)]))"

definition dca_order ::
  "(jsnum \<Rightarrow> int \<Rightarrow> jsnum) \<Rightarrow> execution_settings \<Rightarrow> int \<Rightarrow> position_side \<Rightarrow> order_params option \<Rightarrow> jsnum option \<Rightarrow> order_params option" where
  "dca_order pow st n side order mark =
     (let c = st_dca st
      in withTpSlFromPct side (with_order_type (scaleOpenIntent order (pow (ed_sizeScale c) n)) (ed_entryOrderType c)) mark
           (ed_takeProfitPct c) (ed_stopLossPct c))"

definition dca_entered :: "string \<Rightarrow> position_side \<Rightarrow> int \<Rightarrow> jsnum option \<Rightarrow> int \<Rightarrow> mode_state \<Rightarrow> mode_state" where
  "dca_entered symbol side n mark now s =
     s\<lparr> ms_dca := put symbol \<lparr> dm_side = side, dm_entryCount = n + 1, dm_lastEntryPrice = mark, dm_lastEntryAt = Some (toISOString now) \<rparr>
        (ms_dca s) \<rparr>"

definition dca_execute :: "(jsnum \<Rightarrow> int \<Rightarrow> jsnum) \<Rightarrow> sim_env \<Rightarrow> signal \<Rightarrow> bot \<Rightarrow> int \<Rightarrow> execution_result sim_act" where
  "dca_execute pow en sg bt now =
     (let st = readExecutionSettings (bt_strategyKey bt) (bt_paramsJson bt); i = sg_legacyIntent sg
      in if bt_strategyKey bt = ''prediction_copier'' then simple_execute en sg bt now
         else case i of
           NoIntent \<Rightarrow> simple_execute en sg bt now
         | CloseIntent symbol order \<Rightarrow>
             bind (get_state en now) (\<lambda>s.
             bind (runSimpleExecutionWithCustomIntent en sg i bt now) (\<lambda>r.
             bind (record_execution en now (\<lambda>s. s\<lparr> ms_dca := remove_key symbol (ms_dca s) \<rparr>) r) (\<lambda>_.
               ret (staged st ''dca_close'' [] r))))
         | OpenIntent symbol side order \<Rightarrow>
             bind (get_state en now) (\<lambda>s.
               let mark = toOrderMarkPrice i; n = dca_entries s symbol side
               in case dca_refusal st s symbol side mark of
                    Some (reason, meta) \<Rightarrow> ret (buildModeNoopResult sg reason meta)
                  | None \<Rightarrow>
                      bind (runSimpleExecutionWithCustomIntent en sg (OpenIntent symbol side (dca_order pow st n side order mark)) bt now) (\<lambda>r.
                      bind (record_execution en now (dca_entered symbol side n mark now) r) (\<lambda>_.
                        ret (staged st ''dca_open'' [(''dcaEntryCountBefore'', int_val n)] r)))))"

section \<open>Grid\<close>

definition grid_row :: "mode_state \<Rightarrow> string \<Rightarrow> position_side \<Rightarrow> grid_state option" where
  "grid_row s symbol side = (case map_of (ms_grid s) symbol of Some g \<Rightarrow> if gm_side g = side then Some g else None | None \<Rightarrow> None)"

definition grid_refusal :: "execution_settings \<Rightarrow> mode_state \<Rightarrow> string \<Rightarrow> position_side \<Rightarrow> jsnum \<Rightarrow> (string \<times> jsobj) option" where
  "grid_refusal st s symbol side mark =
     (let c = st_grid st; row = grid_row s symbol side;
          levels = (case row of Some g \<Rightarrow> gm_filledLevels g | None \<Rightarrow> 0); orders = (case row of Some g \<Rightarrow> gm_activeOrders g | None \<Rightarrow> 0)
      in if eg_levelsPerSide c \<le> levels
         then Some (''grid_levels_per_side_reached'', [mode_of st, (''activeLevels'', int_val levels), (''levelsPerSide'', int_val (eg_levelsPerSide c))])
         else if eg_maxActiveOrders c \<le> orders
         then Some (''grid_max_active_orders_reached'', [mode_of st, (''activeOrders'', int_val orders), (''maxActiveOrders'', int_val (eg_maxActiveOrders c))])
         else case (case row of Some g \<Rightarrow> gm_lastEntryPrice g | None \<Rightarrow> None) of
                Some l \<Rightarrow>
                  if l \<noteq> Fin 0 \<and> l \<noteq> NaN \<and> 0 < levels \<and> \<not> estimateAdverseMoveReached side l mark (eg_gridSpacingPct c)
                  then Some (''grid_spacing_not_reached'', [mode_of st, (''gridSpacingPct'', JNum (eg_gridSpacingPct c)),
                         (''lastEntryPrice'', JNum l), (''markPrice'', JNum mark)])
                  else None
              | None \<Rightarrow> None)"

definition grid_order :: "execution_settings \<Rightarrow> position_side \<Rightarrow> order_params option \<Rightarrow> jsnum \<Rightarrow> order_params option" where
  "grid_order st side order mark =
     withTpSlFromPct side (with_order_type (withDesiredNotionalUsd order (eg_baseOrderUsd (st_grid st))) Limit) (Some mark)
       (Some (eg_tpPctPerLevel (st_grid st))) None"

definition grid_entered :: "execution_settings \<Rightarrow> string \<Rightarrow> position_side \<Rightarrow> jsnum \<Rightarrow> mode_state \<Rightarrow> mode_state" where
  "grid_entered st symbol side mark s =
     (let previous = map_of (ms_grid s) symbol;
          levels = (case grid_row s symbol side of Some g \<Rightarrow> gm_filledLevels g | None \<Rightarrow> 0)
      in s\<lparr> ms_grid := put symbol
           \<lparr> gm_side = side,
             gm_anchorPrice = opt_or (case previous of Some g \<Rightarrow> gm_anchorPrice g | None \<Rightarrow> None) (Some mark),
             gm_lastEntryPrice = Some mark, gm_filledLevels = levels + 1,
             gm_activeOrders = min (eg_maxActiveOrders (st_grid st)) ((case previous of Some g \<Rightarrow> gm_activeOrders g | None \<Rightarrow> 0) + 1) \<rparr>
           (ms_grid s) \<rparr>)"

definition grid_execute :: "sim_env \<Rightarrow> signal \<Rightarrow> bot \<Rightarrow> int \<Rightarrow> execution_result sim_act" where
  "grid_execute en sg bt now =
     (let st = readExecutionSettings (bt_strategyKey bt) (bt_paramsJson bt); i = sg_legacyIntent sg
      in if bt_strategyKey bt = ''prediction_copier'' then simple_execute en sg bt now
         else case i of
           NoIntent \<Rightarrow> simple_execute en sg bt now
         | CloseIntent symbol order \<Rightarrow>
             bind (get_state en now) (\<lambda>s.
             bind (runSimpleExecutionWithCustomIntent en sg i bt now) (\<lambda>r.
             bind (record_execution en now (\<lambda>s. s\<lparr> ms_grid := remove_key symbol (ms_grid s) \<rparr>) r) (\<lambda>_.
               ret (staged st ''grid_close'' [] r))))
         | OpenIntent symbol side order \<Rightarrow>
             bind (get_state en now) (\<lambda>s.
               case toOrderMarkPrice i of
                 None \<Rightarrow> ret (buildModeNoopResult sg ''grid_missing_mark_price'' [mode_of st])
               | Some mark \<Rightarrow>
                   (case grid_refusal st s symbol side mark of
                      Some (reason, meta) \<Rightarrow> ret (buildModeNoopResult sg reason meta)
                    | None \<Rightarrow>
                        bind (runSimpleExecutionWithCustomIntent en sg (OpenIntent symbol side (grid_order st side order mark)) bt now) (\<lambda>r.
                        bind (record_execution en now (grid_entered st symbol side mark) r) (\<lambda>_.
                          ret (staged st ''grid_open'' [(''gridSpacingPct'', JNum (eg_gridSpacingPct (st_grid st)))] r))))))"

section \<open>Dip reversion\<close>

definition computeDipTriggerReached :: "position_side \<Rightarrow> jsnum \<Rightarrow> jsnum option \<Rightarrow> jsnum option \<Rightarrow> jsnum \<Rightarrow> bool \<times> jsnum" where
  "computeDipTriggerReached side mark high low triggerPct =
     (let threshold = n_max millionth triggerPct;
          ref = opt_get (positive_pct (case side of Long \<Rightarrow> high | Short \<Rightarrow> low)) mark;
          move = (case side of Long \<Rightarrow> n_sub ref mark | Short \<Rightarrow> n_sub mark ref);
          movePct = n_mul (n_div move ref) (Fin 100)
      in (n_le threshold movePct, movePct))"

text \<open>The row of the symbol with the mark price of the signal and the day taken in.\<close>

definition dip_row :: "mode_state \<Rightarrow> string \<Rightarrow> jsnum option \<Rightarrow> int \<Rightarrow> dip_state" where
  "dip_row s symbol mark now =
     (let today = toUtcDate now;
          r0 = opt_get (map_of (ms_dipReversion s) symbol)
                 \<lparr> rm_referenceHigh = None, rm_referenceLow = None, rm_entriesTodayDate = today, rm_entriesTodayCount = 0,
                   rm_openSince = None, rm_side = None \<rparr>;
          r1 = (case mark of
                  Some m \<Rightarrow> r0\<lparr> rm_referenceHigh := Some (case rm_referenceHigh r0 of Some h \<Rightarrow> n_max h m | None \<Rightarrow> m),
                               rm_referenceLow := Some (case rm_referenceLow r0 of Some l \<Rightarrow> n_min l m | None \<Rightarrow> m) \<rparr>
                | None \<Rightarrow> r0)
      in if rm_entriesTodayDate r1 = today then r1 else r1\<lparr> rm_entriesTodayDate := today, rm_entriesTodayCount := 0 \<rparr>)"

text \<open>The state that was read at the start of the tick, with the row of the symbol: this is what the mode writes.\<close>

definition with_dip_row :: "mode_state \<Rightarrow> string \<Rightarrow> dip_state \<Rightarrow> int \<Rightarrow> mode_state" where
  "with_dip_row s symbol row now = s\<lparr> ms_dipReversion := put symbol row (ms_dipReversion s), ms_updatedAt := toISOString now \<rparr>"

definition record_dip :: "sim_env \<Rightarrow> mode_state \<Rightarrow> string \<Rightarrow> dip_state \<Rightarrow> int \<Rightarrow> execution_result \<Rightarrow> unit sim_act" where
  "record_dip en s symbol row now r =
     (if xr_status r = RsExecuted then put_state en (with_dip_row s symbol row now) else ret ())"

definition closed_row :: "dip_state \<Rightarrow> dip_state" where
  "closed_row row = row\<lparr> rm_openSince := None, rm_side := None \<rparr>"

definition entered_row :: "dip_state \<Rightarrow> position_side \<Rightarrow> int \<Rightarrow> dip_state" where
  "entered_row row side now =
     row\<lparr> rm_entriesTodayDate := toUtcDate now, rm_entriesTodayCount := rm_entriesTodayCount row + 1,
          rm_openSince := Some (toISOString now), rm_side := Some side \<rparr>"

definition held_too_long :: "sim_env \<Rightarrow> execution_settings \<Rightarrow> dip_state \<Rightarrow> int \<Rightarrow> bool" where
  "held_too_long en st row now \<longleftrightarrow>
     (case (rm_openSince row, rm_side row) of
        (Some since, Some _) \<Rightarrow>
          (let opened = parse_date (sm_parseDate en) since
           in positive_finite opened \<and>
              n_le (Fin (of_int (er_maxHoldMinutes (st_dipReversion st) * 60000))) (n_sub (Fin (of_int now)) opened))
      | _ \<Rightarrow> False)"

definition dip_order :: "execution_settings \<Rightarrow> position_side \<Rightarrow> order_params option \<Rightarrow> jsnum \<Rightarrow> order_params option" where
  "dip_order st side order mark =
     withTpSlFromPct side (withDesiredNotionalUsd order (er_entryScaleUsd (st_dipReversion st))) (Some mark)
       (Some (er_recoveryTakeProfitPct (st_dipReversion st))) None"

definition forced_close :: "string \<Rightarrow> trade_intent" where
  "forced_close symbol = CloseIntent symbol (Some (no_params\<lparr> op_reduceOnly := Some True \<rparr>))"

definition dip_execute :: "sim_env \<Rightarrow> signal \<Rightarrow> bot \<Rightarrow> int \<Rightarrow> execution_result sim_act" where
  "dip_execute en sg bt now =
     (let st = readExecutionSettings (bt_strategyKey bt) (bt_paramsJson bt); i = sg_legacyIntent sg
      in if bt_strategyKey bt = ''prediction_copier'' then simple_execute en sg bt now
         else bind (get_state en now) (\<lambda>s.
           let symbol = intentSymbol i (bt_symbol bt); mark = toOrderMarkPrice i; row = dip_row s symbol mark now
           in case i of
                NoIntent \<Rightarrow>
                  if held_too_long en st row now
                  then bind (simple_execute en (withLegacyIntent sg (forced_close symbol)) bt now) (\<lambda>r.
                       bind (record_dip en s symbol (closed_row row) now r) (\<lambda>_.
                         ret (staged st ''dip_reversion_forced_close'' [] r)))
                  else bind (put_state en (with_dip_row s symbol row now)) (\<lambda>_. simple_execute en sg bt now)
              | CloseIntent _ order \<Rightarrow>
                  bind (runSimpleExecutionWithCustomIntent en sg i bt now) (\<lambda>r.
                  bind (record_dip en s symbol (closed_row row) now r) (\<lambda>_.
                    ret (staged st ''dip_reversion_close'' [] r)))
              | OpenIntent _ side order \<Rightarrow>
                  (case mark of
                     None \<Rightarrow> ret (buildModeNoopResult sg ''dip_reversion_missing_mark_price'' [mode_of st])
                   | Some m \<Rightarrow>
                       (case computeDipTriggerReached side m (rm_referenceHigh row) (rm_referenceLow row) (er_dipTriggerPct (st_dipReversion st)) of
                          (reached, movePct) \<Rightarrow>
                            if \<not> reached
                            then bind (put_state en (with_dip_row s symbol row now)) (\<lambda>_.
                                 ret (buildModeNoopResult sg ''dip_reversion_trigger_not_reached''
                                   [mode_of st, (''movePct'', JNum movePct), (''dipTriggerPct'', JNum (er_dipTriggerPct (st_dipReversion st)))]))
                            else if er_maxReentriesPerDay (st_dipReversion st) \<le> rm_entriesTodayCount row
                            then ret (buildModeNoopResult sg ''dip_reversion_reentry_limit_reached''
                                   [mode_of st, (''entriesTodayCount'', int_val (rm_entriesTodayCount row)),
                                    (''maxReentriesPerDay'', int_val (er_maxReentriesPerDay (st_dipReversion st)))])
                            else bind (runSimpleExecutionWithCustomIntent en sg (OpenIntent symbol side (dip_order st side order m)) bt now) (\<lambda>r.
                                 bind (record_dip en s symbol (entered_row row side now) now r) (\<lambda>_.
                                   ret (staged st ''dip_reversion_open'' [(''dipMovePct'', JNum movePct)] r)))))))"

section \<open>What is handed to the engine\<close>

text \<open>The intents the engine is called with while an action runs.\<close>

definition sends :: "(trade_intent \<Rightarrow> bool) \<Rightarrow> sim_call list \<Rightarrow> bool" where
  "sends P cs \<longleftrightarrow> (\<forall>i. RunEngine i \<in> set cs \<longrightarrow> P i)"

lemma sends_simps [simp]:
  "sends P (cs @ cs') \<longleftrightarrow> sends P cs \<and> sends P cs'" "sends P (c # cs) \<longleftrightarrow> sends P [c] \<and> sends P cs" "sends P []"
  by (auto simp: sends_def)

definition sends_only :: "(trade_intent \<Rightarrow> bool) \<Rightarrow> 'a sim_act \<Rightarrow> bool" where
  "sends_only P m \<longleftrightarrow> does m (\<lambda>r. sends P)"

named_theorems sends_rules

lemma sends_ret [sends_rules]: "sends_only P (ret x)"
  unfolding sends_only_def by (rule does_ret) (simp add: sends_def)

lemma sends_perform [sends_rules]: "(\<And>i. c = RunEngine i \<Longrightarrow> P i) \<Longrightarrow> sends_only P (perform c f)"
  unfolding sends_only_def by (rule does_perform) (auto simp: sends_def)

lemma sends_bind [sends_rules]: "sends_only P m \<Longrightarrow> (\<And>x. sends_only P (k x)) \<Longrightarrow> sends_only P (bind m k)"
  unfolding sends_only_def
proof (rule does_bind [where R = "\<lambda>r. sends P"])
qed simp_all

lemma sends_catch [sends_rules]: "sends_only P m \<Longrightarrow> (\<And>e. sends_only P (h e)) \<Longrightarrow> sends_only P (catch m h)"
  unfolding sends_only_def
proof (rule does_catch [where R = "\<lambda>r. sends P"])
qed simp_all

lemma sends_if [sends_rules]: "(b \<Longrightarrow> sends_only P m) \<Longrightarrow> (\<not> b \<Longrightarrow> sends_only P n) \<Longrightarrow> sends_only P (if b then m else n)"
  by simp

lemma sends_put [sends_rules]: "sends_only P (put_state en s)"
  unfolding put_state_def by (rule sends_perform) simp

lemma sends_get [sends_rules]: "sends_only P (get_state en now)"
  unfolding get_state_def by (intro sends_bind sends_perform sends_ret) simp

lemma sends_risk [sends_rules]: "sends_only P (write_risk en d)" "sends_only P (write_risks en ds)"
proof -
  show "sends_only P (write_risk en d)" for d unfolding write_risk_def by (rule sends_perform) simp
  then show "sends_only P (write_risks en ds)" by (induction ds) (auto intro: sends_rules)
qed

lemma sends_reconcile [sends_rules]: "sends_only P (reconcilePendingOrders en c now s)"
  by (auto simp: reconcilePendingOrders_def intro!: sends_bind sends_perform sends_ret split: prod.split)

lemma sends_on_result [sends_rules]: "sends_only P (tick_on_result en bt tk resp q)"
  by (auto simp: tick_on_result_def Let_def split: prod.split intro!: sends_rules)

lemma sends_pipeline [sends_rules]:
  assumes "P (sent_intent en bt tk)"
  shows "sends_only P (executeSharedExecutionPipeline (tick_pipeline en bt tk))"
proof (cases "validateSharedExecutionVenue (tick_request en bt tk)")
  case (Some resp)
  then show ?thesis by (simp add: tick_pipeline_run sends_ret)
next
  case None
  have run: "sends_only P (run_execute (tick_pipeline en bt tk) q)" for q
    unfolding tick_run_execute using assms by (intro sends_rules) auto
  have guard: "sends_only P (tick_guarded en bt tk q)" for q
    by (auto simp: tick_guarded_def Let_def intro!: sends_rules)
  show ?thesis
    unfolding tick_pipeline_run None option.case
    by (intro sends_bind guard) (auto split: prod.split guard_result.split intro!: sends_rules run)
qed

lemma sends_after [sends_rules]: "sends_only P (after_pipeline en bt tk resp)"
  unfolding after_pipeline_def Let_def by (intro sends_rules)

lemma sends_run_intent: "P (sent_intent en bt tk) \<Longrightarrow> sends_only P (run_intent en bt tk)"
  unfolding run_intent_def Let_def
  by (auto split: bool.split engine_choice.split intro!: sends_rules)

lemma sends_with_state:
  assumes "\<forall>s. P (sent_intent en bt (tk\<lparr> tk_state := s \<rparr>))"
  shows "sends_only P (with_state en bt tk)"
proof -
  have r: "sends_only P (run_intent en bt (tk\<lparr> tk_state := s \<rparr>))" for s
    by (rule sends_run_intent) (simp add: assms)
  from r [of "tk_state tk"] have "sends_only P (run_intent en bt tk)" by simp
  then show ?thesis
    unfolding with_state_def Let_def
    by (auto split: prod.split intro!: sends_rules r)
qed

text \<open>Plugins that leave the intent as it is.\<close>

definition plain_extensions :: "sim_env \<Rightarrow> bool" where
  "plain_extensions en \<longleftrightarrow> (\<forall>i t r ids ds. sm_extensions en i t = Inr (r, ids, ds) \<longrightarrow> r = i)"

text \<open>The intent the simple mode makes of the intent of a signal.\<close>

definition shaped :: "execution_settings \<Rightarrow> trade_intent \<Rightarrow> trade_intent" where
  "shaped st i = applyCommonIntentSafety (toIntentWithSimpleOverrides i st) (st_common st)"

definition shaped_from :: "execution_settings \<Rightarrow> trade_intent \<Rightarrow> trade_intent \<Rightarrow> bool" where
  "shaped_from st i j \<longleftrightarrow> (\<exists>cid. j = withClientOrderId (shaped st i) cid)"

lemma simple_sends:
  assumes "plain_extensions en"
  shows "sends_only (shaped_from (readExecutionSettings (bt_strategyKey bt) (bt_paramsJson bt)) (sg_legacyIntent sg)) (simple_execute en sg bt now)"
proof -
  let ?P = "shaped_from (readExecutionSettings (bt_strategyKey bt) (bt_paramsJson bt)) (sg_legacyIntent sg)"
  let ?i = "sg_legacyIntent sg"
  have rest: "sends_only ?P (bind (write_risks en ds) (\<lambda>_. bind (get_state en now) (\<lambda>s.
      with_state en bt \<lparr> tk_now = now, tk_settings = readExecutionSettings (bt_strategyKey bt) (bt_paramsJson bt),
        tk_gate = coerceGateSummary (sg_gate sg) defaultGateSummary, tk_state = s,
        tk_intent = shaped (readExecutionSettings (bt_strategyKey bt) (bt_paramsJson bt)) ?i, tk_pluginIds = ids \<rparr>)))" for ds ids
    by (intro sends_bind sends_rules sends_with_state) (auto simp: shaped_from_def sent_intent_def)
  show ?thesis
    unfolding sends_only_def simple_execute_def Let_def
  proof (rule does_bind_perform)
    fix t e show "sends ?P [ApplyExtensions ?i]" by (simp add: sends_def)
  next
    fix t x assume "sm_extensions en ?i t = Inr x"
    then obtain ids ds where x: "x = (?i, ids, ds)" using assms unfolding plain_extensions_def by (metis prod.exhaust)
    show "does (case x of (i0, ids, diags) \<Rightarrow> bind (write_risks en diags) (\<lambda>_. bind (get_state en now) (\<lambda>s.
        with_state en bt \<lparr> tk_now = now, tk_settings = readExecutionSettings (bt_strategyKey bt) (bt_paramsJson bt),
          tk_gate = coerceGateSummary (sg_gate sg) defaultGateSummary, tk_state = s,
          tk_intent = applyCommonIntentSafety (toIntentWithSimpleOverrides i0 (readExecutionSettings (bt_strategyKey bt) (bt_paramsJson bt)))
            (st_common (readExecutionSettings (bt_strategyKey bt) (bt_paramsJson bt))), tk_pluginIds = ids \<rparr>)))
        (\<lambda>r cs. sends ?P (ApplyExtensions ?i # cs))"
      unfolding x prod.case shaped_def [symmetric]
      using rest [of ds ids] unfolding sends_only_def by (rule does_mono) (simp add: sends_def)
  qed
qed

text \<open>Running from given calls.\<close>

definition sends_from :: "(trade_intent \<Rightarrow> bool) \<Rightarrow> 'a sim_act \<Rightarrow> sim_call list \<Rightarrow> bool" where
  "sends_from P m t \<longleftrightarrow> (\<exists>cs. snd (m t) = t @ cs \<and> sends P cs)"

lemma sends_only_from: "sends_only P m \<Longrightarrow> sends_from P m t"
  by (auto simp: sends_only_def sends_from_def does_def)

lemma sends_only_mono: "sends_only Q m \<Longrightarrow> (\<And>i. Q i \<Longrightarrow> P i) \<Longrightarrow> sends_only P m"
  unfolding sends_only_def by (erule does_mono) (auto simp: sends_def)

lemma sends_from_read:
  assumes "db_ok en v" "sends_from P (k (normalizeExecutionModeState (stored en v t) now)) (t @ [GetState])"
  shows "sends_from P (bind (get_state en now) k) t"
proof (cases "sm_getState en t")
  case (Inl e)
  then show ?thesis
    by (intro exI [of _ "[GetState]"] sends_from_def [THEN iffD2]) (simp add: get_state_def bind_def perform_def sends_def)
next
  case (Inr w)
  then have "w = stored en v t" using assms(1) by (auto simp: db_ok_def)
  then have "bind (get_state en now) k t = k (normalizeExecutionModeState (stored en v t) now) (t @ [GetState])"
    using Inr by (simp add: get_state_def bind_def perform_def ret_def)
  moreover obtain cs where "snd (k (normalizeExecutionModeState (stored en v t) now) (t @ [GetState])) = (t @ [GetState]) @ cs" "sends P cs"
    using assms(2) by (auto simp: sends_from_def)
  ultimately show ?thesis
    by (intro exI [of _ "GetState # cs"] sends_from_def [THEN iffD2]) (simp add: sends_def)
qed

lemma sends_fromD: "sends_from P m t \<Longrightarrow> m t = (r, t @ cs) \<Longrightarrow> RunEngine i \<in> set cs \<Longrightarrow> P i"
  by (auto simp: sends_from_def sends_def)

lemma shaped_open:
  assumes "shaped_from st (OpenIntent symbol side (Some od)) i"
  shows "\<exists>o'. i = OpenIntent symbol side (Some o') \<and> op_type o' = Some (es_orderType (st_simple st)) \<and> op_qty o' = op_qty od \<and>
    op_takeProfitPrice o' = op_takeProfitPrice od \<and> op_stopLossPrice o' = op_stopLossPrice od \<and>
    op_desiredNotionalUsd o' = op_desiredNotionalUsd od \<and> op_riskUsd o' = op_riskUsd od"
  using assms
  by (auto simp: shaped_from_def shaped_def applyCommonIntentSafety_def enforceCloseReduceOnly_def toIntentWithSimpleOverrides_def
      applyLimitOffsetPrice_def withClientOrderId_def opt_get_def Let_def split: option.splits if_splits)

lemma sends_record [sends_rules]: "sends_only P (record_execution en now f r)"
  unfolding record_execution_def by (intro sends_rules)

lemma sends_custom:
  assumes "plain_extensions en"
    and "\<And>j. shaped_from (readExecutionSettings (bt_strategyKey bt) (bt_paramsJson bt)) i j \<Longrightarrow> P j"
  shows "sends_only P (runSimpleExecutionWithCustomIntent en sg i bt now)"
  unfolding runSimpleExecutionWithCustomIntent_def
  using simple_sends [OF assms(1), of bt "withLegacyIntent sg i" now]
  by (rule sends_only_mono) (auto simp: withLegacyIntent_def intro: assms(2))

lemma dca_order_fields:
  "\<exists>od. dca_order pow (readExecutionSettings key params) n side order mark = Some od \<and>
    op_qty od = map_option (\<lambda>x. n_mul x (if is_finite (pow (ed_sizeScale (st_dca (readExecutionSettings key params))) n)
        then n_max millionth (pow (ed_sizeScale (st_dca (readExecutionSettings key params))) n) else Fin 1)) (op_qty (opt_get order no_params)) \<and>
    (\<forall>m. mark = Some m \<longrightarrow> positive_finite m \<longrightarrow> (\<exists>p. ed_takeProfitPct (st_dca (readExecutionSettings key params)) = Some p \<and>
       op_takeProfitPrice od = Some (moved m p (side = Long))))"
proof -
  obtain p where p: "ed_takeProfitPct (st_dca (readExecutionSettings key params)) = Some p" "positive_opt (Some p)"
    using take_profit_always by blast
  then have "positive_pct (Some p) = Some p" by (auto simp: positive_pct_def positive_opt_def)
  then show ?thesis
    unfolding dca_order_def Let_def p(1)
    by (auto simp: withTpSlFromPct_def with_order_type_def scaleOpenIntent_def Let_def opt_get_def positive_pct_def positive_finite_def
        split: option.split)
qed

lemma mark_positive: "toOrderMarkPrice i = Some m \<Longrightarrow> positive_finite m"
  by (auto simp: toOrderMarkPrice_def positive_num_def finite_opt_def positive_finite_def Let_def split: trade_intent.splits option.splits if_splits)

lemma dca_allowed:
  assumes "dca_refusal st s symbol side mark = None"
  shows "dca_entries s symbol side < ed_maxEntries (st_dca st) \<and>
    (0 < dca_entries s symbol side \<longrightarrow> (\<exists>l m. dca_last_price s symbol = Some l \<and> mark = Some m \<and>
       estimateAdverseMoveReached side l m (ed_stepPct (st_dca st))))"
  using assms by (auto simp: dca_refusal_def Let_def split: if_splits option.splits)

text \<open>C24: Whatever the database, the venue and the engine answer, an order of the dollar cost averaging mode is
  sent only while the entries of its side are below the limit and, from the second entry on, only after the
  mark price has moved against the last entry by the step; its quantity is scaled by the number of entries
  and it carries the take profit. Its type is the order type of the simple mode: the order type configured
  for the entries of the mode never reaches the engine.
\<close>

theorem dca_order_sound:
  assumes "db_ok en v" "plain_extensions en" "bt_strategyKey bt \<noteq> ''prediction_copier''"
    and "sg_legacyIntent sg = OpenIntent symbol side order"
    and "dca_execute pow en sg bt now t = (r, t @ cs)" "RunEngine i \<in> set cs"
  shows "let st = readExecutionSettings (bt_strategyKey bt) (bt_paramsJson bt); c = st_dca st;
      s = normalizeExecutionModeState (stored en v t) now; n = dca_entries s symbol side;
      mark = toOrderMarkPrice (sg_legacyIntent sg); scale = pow (ed_sizeScale c) n
    in n < ed_maxEntries c \<and>
       (0 < n \<longrightarrow> (\<exists>l m. dca_last_price s symbol = Some l \<and> mark = Some m \<and> estimateAdverseMoveReached side l m (ed_stepPct c))) \<and>
       (\<exists>od. i = OpenIntent symbol side (Some od) \<and> op_type od = Some (es_orderType (st_simple st)) \<and>
          op_qty od = map_option (\<lambda>x. n_mul x (if is_finite scale then n_max millionth scale else Fin 1)) (op_qty (opt_get order no_params)) \<and>
          (\<forall>m. mark = Some m \<longrightarrow> (\<exists>p. ed_takeProfitPct c = Some p \<and> op_takeProfitPrice od = Some (moved m p (side = Long)))))"
proof -
  define st where "st = readExecutionSettings (bt_strategyKey bt) (bt_paramsJson bt)"
  define s where "s = normalizeExecutionModeState (stored en v t) now"
  define mark where "mark = toOrderMarkPrice (OpenIntent symbol side order)"
  define n where "n = dca_entries s symbol side"
  define scale where "scale = pow (ed_sizeScale (st_dca st)) n"
  define P where "P = (\<lambda>i. n < ed_maxEntries (st_dca st) \<and>
       (0 < n \<longrightarrow> (\<exists>l m. dca_last_price s symbol = Some l \<and> mark = Some m \<and> estimateAdverseMoveReached side l m (ed_stepPct (st_dca st)))) \<and>
       (\<exists>od. i = OpenIntent symbol side (Some od) \<and> op_type od = Some (es_orderType (st_simple st)) \<and>
          op_qty od = map_option (\<lambda>x. n_mul x (if is_finite scale then n_max millionth scale else Fin 1)) (op_qty (opt_get order no_params)) \<and>
          (\<forall>m. mark = Some m \<longrightarrow> (\<exists>p. ed_takeProfitPct (st_dca st) = Some p \<and> op_takeProfitPrice od = Some (moved m p (side = Long))))))"
  obtain od where od: "dca_order pow st n side order mark = Some od"
      "op_qty od = map_option (\<lambda>x. n_mul x (if is_finite scale then n_max millionth scale else Fin 1)) (op_qty (opt_get order no_params))"
      "\<forall>m. mark = Some m \<longrightarrow> (\<exists>p. ed_takeProfitPct (st_dca st) = Some p \<and> op_takeProfitPrice od = Some (moved m p (side = Long)))"
    using dca_order_fields [of pow "bt_strategyKey bt" "bt_paramsJson bt" n side order mark] mark_positive [of "OpenIntent symbol side order"]
    unfolding scale_def st_def [symmetric] mark_def [symmetric] by blast
  let ?k = "\<lambda>s. let mark = toOrderMarkPrice (sg_legacyIntent sg); n = dca_entries s symbol side
     in case dca_refusal st s symbol side mark of
          Some (reason, meta) \<Rightarrow> ret (buildModeNoopResult sg reason meta)
        | None \<Rightarrow>
            bind (runSimpleExecutionWithCustomIntent en sg (OpenIntent symbol side (dca_order pow st n side order mark)) bt now) (\<lambda>r.
            bind (record_execution en now (dca_entered symbol side n mark now) r) (\<lambda>_.
              ret (staged st ''dca_open'' [(''dcaEntryCountBefore'', int_val n)] r)))"
  have k: "sends_only P (?k s)"
  proof (cases "dca_refusal st s symbol side mark")
    case None
    have "sends_only P (runSimpleExecutionWithCustomIntent en sg (OpenIntent symbol side (dca_order pow st n side order mark)) bt now)"
    proof (rule sends_custom [OF assms(2)])
      fix j assume "shaped_from (readExecutionSettings (bt_strategyKey bt) (bt_paramsJson bt)) (OpenIntent symbol side (dca_order pow st n side order mark)) j"
      from shaped_open [OF this [folded st_def, unfolded od(1)]] show "P j"
        unfolding P_def using od(2,3) dca_allowed [OF None] unfolding n_def by auto
    qed
    then have "sends_only P (bind (runSimpleExecutionWithCustomIntent en sg (OpenIntent symbol side (dca_order pow st n side order mark)) bt now) (\<lambda>r.
        bind (record_execution en now (dca_entered symbol side n mark now) r) (\<lambda>_.
          ret (staged st ''dca_open'' [(''dcaEntryCountBefore'', int_val n)] r))))"
      by (intro sends_rules)
    then show ?thesis using None by (simp add: assms(4) mark_def [symmetric] n_def [symmetric])
  next
    case (Some x)
    then show ?thesis unfolding Let_def by (cases x) (simp add: assms(4) mark_def [symmetric] sends_ret)
  qed
  have "dca_execute pow en sg bt now = bind (get_state en now) ?k"
    unfolding dca_execute_def Let_def st_def using assms(3,4) by simp
  then have "sends_from P (dca_execute pow en sg bt now) t"
    using sends_from_read [OF assms(1), of P ?k t now] sends_only_from [OF k] by (simp add: s_def)
  from sends_fromD [OF this assms(5,6)] show ?thesis
    unfolding P_def Let_def st_def [symmetric] s_def [symmetric] assms(4) mark_def [symmetric] n_def [symmetric] scale_def [symmetric] .
qed

lemma grid_order_fields:
  assumes "positive_finite mark"
  shows "\<exists>od. grid_order st side order mark = Some od \<and> op_qty od = None \<and>
    op_desiredNotionalUsd od = Some (n_max millionth (eg_baseOrderUsd (st_grid st))) \<and>
    (n_lt (Fin 0) (eg_tpPctPerLevel (st_grid st)) \<longrightarrow>
       op_takeProfitPrice od = Some (moved mark (eg_tpPctPerLevel (st_grid st)) (side = Long)))"
proof -
  have "positive_pct (Some mark) = Some mark" using assms by (simp add: positive_pct_def positive_finite_def)
  then show ?thesis
    by (auto simp: grid_order_def withTpSlFromPct_def with_order_type_def withDesiredNotionalUsd_def Let_def opt_get_def positive_pct_def)
qed

definition grid_levels :: "mode_state \<Rightarrow> string \<Rightarrow> position_side \<Rightarrow> int" where
  "grid_levels s symbol side = (case grid_row s symbol side of Some g \<Rightarrow> gm_filledLevels g | None \<Rightarrow> 0)"

definition grid_active :: "mode_state \<Rightarrow> string \<Rightarrow> position_side \<Rightarrow> int" where
  "grid_active s symbol side = (case grid_row s symbol side of Some g \<Rightarrow> gm_activeOrders g | None \<Rightarrow> 0)"

definition grid_last_price :: "mode_state \<Rightarrow> string \<Rightarrow> position_side \<Rightarrow> jsnum option" where
  "grid_last_price s symbol side = (case grid_row s symbol side of Some g \<Rightarrow> gm_lastEntryPrice g | None \<Rightarrow> None)"

lemma grid_allowed:
  assumes "grid_refusal st s symbol side mark = None"
  shows "grid_levels s symbol side < eg_levelsPerSide (st_grid st) \<and> grid_active s symbol side < eg_maxActiveOrders (st_grid st) \<and>
    (0 < grid_levels s symbol side \<longrightarrow> (\<forall>l. grid_last_price s symbol side = Some l \<longrightarrow> l \<notin> {Fin 0, NaN} \<longrightarrow>
       estimateAdverseMoveReached side l mark (eg_gridSpacingPct (st_grid st))))"
  using assms by (auto simp: grid_refusal_def grid_levels_def grid_active_def grid_last_price_def Let_def split: if_splits option.splits)

text \<open>C25: An order of the grid mode is sent only with a mark price, while the filled levels and the active orders of
  its side are below their limits, and from the second level on only after the mark price has moved against the last entry by the
  spacing; it asks for the notional of a level instead of a quantity and carries the take profit of the level.
  The limit type the mode asks for is replaced by the order type of the simple mode.\<close>

theorem grid_order_sound:
  assumes "db_ok en v" "plain_extensions en" "bt_strategyKey bt \<noteq> ''prediction_copier''"
    and "sg_legacyIntent sg = OpenIntent symbol side order"
    and "grid_execute en sg bt now t = (r, t @ cs)" "RunEngine i \<in> set cs"
  shows "let st = readExecutionSettings (bt_strategyKey bt) (bt_paramsJson bt); c = st_grid st;
      s = normalizeExecutionModeState (stored en v t) now; n = grid_levels s symbol side
    in n < eg_levelsPerSide c \<and> grid_active s symbol side < eg_maxActiveOrders c \<and>
       (\<exists>mark. toOrderMarkPrice (sg_legacyIntent sg) = Some mark \<and>
          (0 < n \<longrightarrow> (\<forall>l. grid_last_price s symbol side = Some l \<longrightarrow> l \<notin> {Fin 0, NaN} \<longrightarrow>
             estimateAdverseMoveReached side l mark (eg_gridSpacingPct c))) \<and>
          (\<exists>od. i = OpenIntent symbol side (Some od) \<and> op_type od = Some (es_orderType (st_simple st)) \<and> op_qty od = None \<and>
             op_desiredNotionalUsd od = Some (n_max millionth (eg_baseOrderUsd c)) \<and>
             (n_lt (Fin 0) (eg_tpPctPerLevel c) \<longrightarrow> op_takeProfitPrice od = Some (moved mark (eg_tpPctPerLevel c) (side = Long)))))"
proof -
  define st where "st = readExecutionSettings (bt_strategyKey bt) (bt_paramsJson bt)"
  define s where "s = normalizeExecutionModeState (stored en v t) now"
  define P where "P = (\<lambda>i. grid_levels s symbol side < eg_levelsPerSide (st_grid st) \<and> grid_active s symbol side < eg_maxActiveOrders (st_grid st) \<and>
       (\<exists>mark. toOrderMarkPrice (OpenIntent symbol side order) = Some mark \<and>
          (0 < grid_levels s symbol side \<longrightarrow> (\<forall>l. grid_last_price s symbol side = Some l \<longrightarrow> l \<notin> {Fin 0, NaN} \<longrightarrow>
             estimateAdverseMoveReached side l mark (eg_gridSpacingPct (st_grid st)))) \<and>
          (\<exists>od. i = OpenIntent symbol side (Some od) \<and> op_type od = Some (es_orderType (st_simple st)) \<and> op_qty od = None \<and>
             op_desiredNotionalUsd od = Some (n_max millionth (eg_baseOrderUsd (st_grid st))) \<and>
             (n_lt (Fin 0) (eg_tpPctPerLevel (st_grid st)) \<longrightarrow>
                op_takeProfitPrice od = Some (moved mark (eg_tpPctPerLevel (st_grid st)) (side = Long))))))"
  define k where "k = (\<lambda>s. case toOrderMarkPrice (OpenIntent symbol side order) of
       None \<Rightarrow> ret (buildModeNoopResult sg ''grid_missing_mark_price'' [mode_of st])
     | Some mark \<Rightarrow>
         (case grid_refusal st s symbol side mark of
            Some (reason, meta) \<Rightarrow> ret (buildModeNoopResult sg reason meta)
          | None \<Rightarrow>
              bind (runSimpleExecutionWithCustomIntent en sg (OpenIntent symbol side (grid_order st side order mark)) bt now) (\<lambda>r.
              bind (record_execution en now (grid_entered st symbol side mark) r) (\<lambda>_.
                ret (staged st ''grid_open'' [(''gridSpacingPct'', JNum (eg_gridSpacingPct (st_grid st)))] r)))))"
  have run: "sends_only P (runSimpleExecutionWithCustomIntent en sg (OpenIntent symbol side (grid_order st side order mark)) bt now)"
    if m: "toOrderMarkPrice (OpenIntent symbol side order) = Some mark" and g: "grid_refusal st s symbol side mark = None" for mark
  proof (rule sends_custom [OF assms(2)])
    fix j assume j: "shaped_from (readExecutionSettings (bt_strategyKey bt) (bt_paramsJson bt)) (OpenIntent symbol side (grid_order st side order mark)) j"
    obtain od where od: "grid_order st side order mark = Some od" "op_qty od = None"
        "op_desiredNotionalUsd od = Some (n_max millionth (eg_baseOrderUsd (st_grid st)))"
        "n_lt (Fin 0) (eg_tpPctPerLevel (st_grid st)) \<longrightarrow> op_takeProfitPrice od = Some (moved mark (eg_tpPctPerLevel (st_grid st)) (side = Long))"
      using grid_order_fields [OF mark_positive [OF m], of st side order] by blast
    from shaped_open [OF j [folded st_def, unfolded od(1)]] show "P j"
      unfolding P_def using od(2-4) grid_allowed [OF g] m by auto
  qed
  have "sends_only P (k s)"
  proof (cases "toOrderMarkPrice (OpenIntent symbol side order)")
    case (Some mark)
    then show ?thesis
      using run [OF Some] by (cases "grid_refusal st s symbol side mark") (auto simp: k_def intro!: sends_rules)
  qed (simp add: k_def sends_ret)
  moreover have "grid_execute en sg bt now = bind (get_state en now) k"
    unfolding grid_execute_def Let_def k_def st_def using assms(3,4) by simp
  ultimately have "sends_from P (grid_execute en sg bt now) t"
    using sends_from_read [OF assms(1), of P k t now] sends_only_from [of P "k s"] by (simp add: s_def)
  from sends_fromD [OF this assms(5,6)] show ?thesis
    unfolding P_def Let_def st_def [symmetric] s_def [symmetric] assms(4) .
qed

end
