(* ===== verification/ModeSafety.thy ===== *)
theory ModeSafety
  imports TradeModes
begin

text \<open>
  What the execution modes keep together: over any ticks in any of the modes at most one order of a bot is in
  flight, and what the dip reversion mode, which writes the state it read before the execution, loses. The
  last section runs the modes on a small outside and holds the witnesses of this theory and of TradeModes.
\<close>

section \<open>One order in flight in every mode\<close>

subsection \<open>An execution leaves no order in flight\<close>

text \<open>With an engine built for the bot, an order counts as executed only when the venue has confirmed it.\<close>

definition clear :: "sim_env \<Rightarrow> jsval \<Rightarrow> sim_call list \<Rightarrow> bool" where
  "clear en v t \<longleftrightarrow> open_ids (stored en v t) = []"

definition response_clear :: "sim_env \<Rightarrow> jsval \<Rightarrow> js_error + shared_response \<Rightarrow> sim_call list \<Rightarrow> bool" where
  "response_clear en v r t \<longleftrightarrow> (\<forall>x. r = Inr x \<longrightarrow> sp_status x = StExecuted \<longrightarrow> clear en v t)"

definition result_clear :: "sim_env \<Rightarrow> jsval \<Rightarrow> js_error + execution_result \<Rightarrow> sim_call list \<Rightarrow> bool" where
  "result_clear en v r t \<longleftrightarrow> (\<forall>x. r = Inr x \<longrightarrow> xr_status x = RsExecuted \<longrightarrow> clear en v t)"

lemma clear_simps [simp]: "response_clear en v (Inl e) t" "result_clear en v (Inl e) t"
  by (simp_all add: response_clear_def result_clear_def)

lemma triple_any: "(\<And>t. Q (fst (m t)) (snd (m t))) \<Longrightarrow> triple P m Q"
  by (simp add: triple_def)

lemma unannounced:
  assumes "sp_status x \<noteq> StExecuted" shows "triple P (ret x) (response_clear en v)"
  by (rule triple_ret) (simp add: response_clear_def assms)

lemma resolved_ids: "only {cid} s \<Longrightarrow> map_of (ms_pendingOrders s) cid = None \<Longrightarrow> ids s = []"
  by (force simp: only_def ids_def map_of_eq_None_iff filter_empty_conv)

lemma on_result_clear:
  assumes "db_ok en v" "sm_engine en = BuiltEngine"
  shows "triple (confined en v {tick_cid en bt tk}) (tick_on_result en bt tk resp q)
    (\<lambda>r t. \<forall>o'. r = Inr o' \<longrightarrow> (\<exists>x. o' = Some x \<and> (sp_status x = StExecuted \<longrightarrow> clear en v t)))"
    (is "triple _ _ ?Q")
proof (cases "sp_status resp = StExecuted")
  case False
  have any: "triple P (bind (put_state en s) (\<lambda>_. ret (Some resp))) ?Q" for P s
    by (rule triple_any) (auto simp: bind_def ret_def False split: sum.splits prod.splits)
  show ?thesis
    unfolding tick_on_result_def using False
    by simp (rule triple_bind [OF get_confined [OF assms(1)] any], simp)
next
  case True
  let ?C = "{tick_cid en bt tk}"
  show ?thesis
    unfolding tick_on_result_def
  proof (rule triple_bind [OF get_confined [OF assms(1)]], goal_cases)
    case (1 latest)
    show ?case
    proof (cases "only ?C latest")
      case o': True
      note st = after_states_only [OF o']
      let ?s = "submitted_state en bt tk resp latest"
      let ?rest = "\<lambda>(s, n, unresolved :: pending_order list). bind (put_state en s) (\<lambda>_.
         if map_of (ms_pendingOrders s) (tick_cid en bt tk) = None
         then ret (Some (resp\<lparr> sp_metadata := spread (sp_metadata resp)
                [(''fillConfirmed'', JBool True), (''pendingOrderResolved'', JBool True), (''clientOrderId'', JStr (tick_cid en bt tk))] \<rparr>))
         else ret (Some (resp\<lparr> sp_status := StBlocked, sp_reason := ''pending_fill_confirmation'',
                sp_metadata := spread (sp_metadata resp)
                  [(''preserveReason'', JBool True), (''orderAccepted'', JBool True), (''pendingOrder'', JBool True),
                   (''pendingOrderCount'', int_val (int (length unresolved))), (''clientOrderId'', JStr (tick_cid en bt tk)),
                   (''recoveryHint'', JStr ''wait_for_venue_fill_or_manual_reconcile'')] \<rparr>)))"
      have fin: "triple (confined en v ?C) (?rest (s, n, u)) ?Q" if s: "only ?C s" for s n u
        unfolding prod.case put_state_def
      proof (rule triple_bind [where R = "\<lambda>r t. r = Inr () \<longrightarrow> stored en v t = state_json s"])
        show "triple (confined en v ?C) (perform (PutState s) (sm_putState en s)) (\<lambda>r t. r = Inr () \<longrightarrow> stored en v t = state_json s)"
          by (rule triple_perform) simp
      qed (use s resolved_ids [OF s] open_ids_json [of s] in \<open>auto intro!: triple_if triple_ret simp: clear_def only_def\<close>)
      have "triple (confined en v ?C) (bind (put_state en ?s) (\<lambda>_. bind (reconcilePendingOrders en (st_common (tk_settings tk)) (tk_now tk) ?s) ?rest)) ?Q"
      proof (rule triple_bind [OF put_confined [OF st(2)]])
        show "triple (confined en v ?C) (bind (reconcilePendingOrders en (st_common (tk_settings tk)) (tk_now tk) ?s) ?rest) ?Q"
        proof (rule triple_bind [OF reconcile_confined [OF st(2)]], goal_cases)
          case (1 x)
          obtain s n u where x: "x = (s, n, u)" by (cases x) auto
          show ?case
          proof (cases "only ?C s")
            case True
            then show ?thesis unfolding x by (intro triple_conseq [OF fin [OF True]]) auto
          qed (auto simp: x triple_def)
        qed simp
      qed simp
      then show ?thesis using True assms(2) by (auto simp: Let_def intro: triple_conseq)
    qed (auto simp: triple_def)
  qed simp
qed

lemma normalized_engine_status: "sp_status (normalizeSharedExecutionResponse q raw) = in_status (toResultInput raw)"
  by (simp add: normalizeSharedExecutionResponse_def Let_def)

lemma execute_clear:
  assumes "db_ok en v" "tk_intent tk \<noteq> NoIntent" "sm_engine en = BuiltEngine"
  shows "triple (\<lambda>t. safe en v t \<and> announced_by en v t (tick_cid en bt tk)) (run_execute (tick_pipeline en bt tk) q) (response_clear en v)"
  unfolding tick_run_execute
proof (rule triple_bind [where R = "\<lambda>r. confined en v {tick_cid en bt tk}"])
  show "triple (\<lambda>t. safe en v t \<and> announced_by en v t (tick_cid en bt tk))
    (bind (perform (RunEngine (sent_intent en bt tk)) (sm_runEngine en (sent_intent en bt tk))) (\<lambda>r. ret (RawEngine r)))
    (\<lambda>r. confined en v {tick_cid en bt tk})"
    by (rule triple_bind [OF run_engine_confined [OF assms(2)]]) (auto intro: triple_ret)
next
  fix raw
  have "triple (confined en v {tick_cid en bt tk}) (bind (tick_on_result en bt tk (normalizeSharedExecutionResponse q raw) q)
      (\<lambda>o'. ret (opt_get o' (normalizeSharedExecutionResponse q raw)))) (response_clear en v)"
    by (rule triple_bind [OF on_result_clear [OF assms(1,3)]]) (auto simp: triple_def ret_def response_clear_def)
  then show "triple (confined en v {tick_cid en bt tk}) (bind (bind (tick_on_result en bt tk (normalizeSharedExecutionResponse q raw) q)
      (\<lambda>o'. ret (opt_get o' (normalizeSharedExecutionResponse q raw)))) ret) (response_clear en v)"
    by (rule triple_bind) (auto simp: triple_def ret_def)
qed simp


lemma pipeline_clear:
  assumes "db_ok en v" "tk_intent tk \<noteq> NoIntent" "keyed (tk_state tk)" "ids (tk_state tk) = []" "sm_engine en = BuiltEngine"
  shows "triple (confined en v {}) (executeSharedExecutionPipeline (tick_pipeline en bt tk)) (response_clear en v)"
proof (cases "validateSharedExecutionVenue (tick_request en bt tk)")
  case (Some resp)
  then show ?thesis using validate_status [OF Some] by (simp add: tick_pipeline_run unannounced)
next
  case None
  have refused: "triple P (ret (refused_response q reason status meta)) (response_clear en v)" for P q reason status meta
    by (intro unannounced, cases "opt_get status RefuseBlocked") simp_all
  show ?thesis
  proof (cases "ga_allow (tick_guard en tk)")
    case True
    show ?thesis
      unfolding tick_pipeline_run None option.case
    proof (rule triple_bind [OF guard_announces [OF assms(3,4) True]], goal_cases)
      case (1 x)
      obtain h q where x: "x = (h, q)" by fastforce
      have c: "triple (\<lambda>t. safe en v t \<and> announced_by en v t (tick_cid en bt tk))
          (catch (run_execute (tick_pipeline en bt tk) q) (\<lambda>e. ret (failed_response q e))) (response_clear en v)"
        by (rule triple_catch [OF execute_clear [OF assms(1,2,5)]]) (auto intro: unannounced)
      show ?case
      proof (cases "h = GuardAllow")
        case True
        then show ?thesis unfolding x using c by (auto intro: triple_conseq)
      qed (auto simp: x triple_def)
    qed simp
  next
    case False
    show ?thesis
      unfolding tick_pipeline_run None option.case
    proof (rule triple_bind [OF guard_refuses [OF False]], goal_cases)
      case (1 x)
      obtain h q where x: "x = (h, q)" by fastforce
      show ?case
      proof (cases h)
        case GuardAllow
        then show ?thesis by (simp add: x triple_def)
      qed (simp add: x refused)
    qed simp
  qed
qed

lemma executed_status [simp]: "xr_status (toRunnerExecutionResult resp i g) = RsExecuted \<longleftrightarrow> sp_status resp = StExecuted"
  by (cases "sp_status resp") (simp_all add: toRunnerExecutionResult_def)

lemma after_pipeline_clear: "triple (response_clear en v (Inr resp)) (after_pipeline en bt tk resp) (result_clear en v)"
proof (cases "sp_status resp = StExecuted")
  case True
  then have "xr_status (toRunnerExecutionResult resp (tk_intent tk) (tk_gate tk)) \<noteq> RsError" by (simp add: toRunnerExecutionResult_def)
  then have "after_pipeline en bt tk resp = ret (toRunnerExecutionResult resp (tk_intent tk) (tk_gate tk))"
    using True by (simp add: after_pipeline_def Let_def)
  then show ?thesis using True by (auto intro!: triple_ret simp: result_clear_def response_clear_def)
next
  case False
  show ?thesis
    by (rule triple_any)
      (auto simp: after_pipeline_def Let_def bind_def ret_def result_clear_def False split: sum.splits prod.splits)
qed

lemma run_intent_clear:
  assumes "db_ok en v" "keyed (tk_state tk)" "ids (tk_state tk) = []" "sm_engine en = BuiltEngine"
  shows "triple (confined en v {}) (run_intent en bt tk) (result_clear en v)"
proof (cases "tk_intent tk = NoIntent")
  case True
  then show ?thesis by (simp add: run_intent_def) (rule triple_ret, simp add: result_clear_def buildNoopExecutionResult_def)
next
  case False
  have "triple (confined en v {}) (bind (executeSharedExecutionPipeline (tick_pipeline en bt tk)) (after_pipeline en bt tk)) (result_clear en v)"
    by (rule triple_bind [OF pipeline_clear [OF assms(1) False assms(2-4)] after_pipeline_clear]) simp
  then show ?thesis using False assms(4) by (simp add: run_intent_def Let_def split: bool.split)
qed

text \<open>An execution found no order in flight, or has left none.\<close>

definition ends_clear :: "sim_env \<Rightarrow> jsval \<Rightarrow> string list \<Rightarrow> js_error + execution_result \<Rightarrow> sim_call list \<Rightarrow> bool" where
  "ends_clear en v S r t \<longleftrightarrow> (\<forall>x. r = Inr x \<longrightarrow> xr_status x = RsExecuted \<longrightarrow> S = [] \<or> clear en v t)"

lemma ends_clear_simps [simp]:
  "ends_clear en v [] r t" "ends_clear en v S (Inl e) t" "xr_status x \<noteq> RsExecuted \<Longrightarrow> ends_clear en v S (Inr x) t"
  by (simp_all add: ends_clear_def)

lemma with_state_clear:
  assumes "db_ok en v" "keyed (tk_state tk)"
  shows "triple (holds en v (tk_state tk)) (with_state en bt tk) (ends_clear en v (ids (tk_state tk)))"
proof (cases "ids (tk_state tk) = []")
  case True
  then show ?thesis by (auto intro: triple_any)
next
  case pending: False
  let ?S = "ids (tk_state tk)"
  have n: "listUnresolvedPendingOrders (tk_state tk) \<noteq> []" using pending by (simp add: unresolved_iff)
  have blocked: "triple P (ret (reconciliation_blocked en tk m ys)) (ends_clear en v ?S)" for P m ys
    by (rule triple_ret) (simp add: reconciliation_blocked_def buildBlockedExecutionResult_def)
  show ?thesis
  proof (cases "sm_engine en = BuiltEngine")
    case True
    let ?s = "tk_state tk"
    let ?rest = "\<lambda>s resolved u. if u \<noteq> []
       then ret (reconciliation_blocked en tk (int (length u))
         [(''resolvedPendingOrderCount'', int_val resolved), (''recoveryHint'', JStr ''wait_for_venue_fill_or_manual_reconcile'')])
       else run_intent en bt (tk\<lparr> tk_state := s \<rparr>)"
    have "triple (holds en v ?s) (bind (reconcilePendingOrders en (st_common (tk_settings tk)) (tk_now tk) ?s)
        (\<lambda>(s, resolved, u). bind (put_state en s) (\<lambda>_. ?rest s resolved u))) (ends_clear en v ?S)"
    proof (rule triple_bind [OF reconcile_holds [OF assms(2)]], goal_cases)
      case (1 x)
      obtain s n u where x: "x = (s, n, u)" by (cases x) auto
      show ?case
      proof (cases "keyed s \<and> set (ids s) \<subseteq> set ?S \<and> (u = [] \<longleftrightarrow> ids s = [])")
        case ok: True
        have run: "triple (holds en v s) (run_intent en bt (tk\<lparr> tk_state := s \<rparr>)) (ends_clear en v ?S)" if "ids s = []"
          using run_intent_clear [OF assms(1), of "tk\<lparr> tk_state := s \<rparr>" bt] ok that True holds_confined [OF that]
          by (auto intro!: triple_conseq [of "confined en v {}" _ "result_clear en v"] simp: ends_clear_def result_clear_def)
        have rest: "triple (holds en v s) (?rest s n u) (ends_clear en v ?S)"
          using run ok by (intro triple_if blocked) auto
        have "triple (holds en v ?s) (bind (put_state en s) (\<lambda>_. ?rest s n u)) (ends_clear en v ?S)"
        proof (rule triple_bind [OF write_holds])
          show "triple (\<lambda>t. safe en v t \<and> (Inr z = (Inr () :: js_error + unit) \<longrightarrow> holds en v s t)) (?rest s n u) (ends_clear en v ?S)" for z
            by (rule triple_conseq [OF rest]) simp_all
        qed (use ok in simp_all)
        then show ?thesis unfolding x prod.case by (rule triple_conseq) auto
      qed (auto simp: x triple_def)
    qed simp
    then show ?thesis using n True by (simp add: with_state_def Let_def)
  next
    case False
    have "triple P (bind (put_state en s) (\<lambda>_. ret (reconciliation_blocked en tk m ys))) (ends_clear en v ?S)" for P s m ys
      by (rule triple_bind [where R = "\<lambda>_ _. True"]) (auto intro: triple_any blocked)
    then show ?thesis using n False by (simp add: with_state_def Let_def)
  qed
qed


lemma simple_execute_clear:
  assumes "db_ok en v"
  shows "triple (\<lambda>t. safe en v t \<and> open_ids (stored en v t) = S) (simple_execute en sg bt now) (ends_clear en v S)"
proof -
  let ?P = "\<lambda>t. safe en v t \<and> open_ids (stored en v t) = S"
  have ext: "triple ?P (perform (ApplyExtensions i) f) (\<lambda>r. ?P)" for i and f :: "sim_call list \<Rightarrow> js_error + trade_intent \<times> string list \<times> diagnostic list"
    by (rule triple_perform) simp
  have risks: "triple ?P (write_risks en ds) (\<lambda>r. ?P)" for ds
  proof (induction ds)
    case (Cons d ds)
    have "triple ?P (write_risk en d) (\<lambda>r. ?P)" unfolding write_risk_def by (rule triple_perform) simp
    then show ?case using Cons by (auto intro: triple_bind)
  qed (simp add: triple_ret)
  have read: "triple ?P (get_state en now) (\<lambda>r t. \<forall>s. r = Inr s \<longrightarrow> holds en v s t \<and> ids s = S)"
    unfolding get_state_def
  proof (rule triple_bind [where R = "\<lambda>r t. ?P t \<and> (\<forall>w. r = Inr w \<longrightarrow> w = stored en v t)"])
    show "triple ?P (perform GetState (sm_getState en)) (\<lambda>r t. ?P t \<and> (\<forall>w. r = Inr w \<longrightarrow> w = stored en v t))"
      using assms by (intro triple_perform) (auto simp: db_ok_def)
  qed (auto intro!: triple_ret simp: holds_def)
  have st: "triple (\<lambda>t. \<forall>s'. Inr s = (Inr s' :: js_error + mode_state) \<longrightarrow> holds en v s' t \<and> ids s' = S) (with_state en bt (mk s)) (ends_clear en v S)"
    if "\<And>s. tk_state (mk s) = s" for s :: mode_state and mk
  proof (cases "keyed s \<and> ids s = S")
    case True
    then show ?thesis
      using with_state_clear [OF assms, of "mk s" bt] that by (auto intro: triple_conseq)
  qed (auto simp: triple_def holds_def)
  have rest: "triple ?P (bind (get_state en now) (\<lambda>s. with_state en bt (mk s))) (ends_clear en v S)" if "\<And>s. tk_state (mk s) = s" for mk
    by (rule triple_bind [OF read st [OF that]]) simp
  show ?thesis
    unfolding simple_execute_def Let_def
  proof (rule triple_bind [OF ext], goal_cases)
    case (1 x)
    obtain i ids ds where x: "x = (i, ids, ds)" by (cases x) auto
    show ?case unfolding x prod.case
      by (rule triple_bind [OF risks], rule rest) simp_all
  qed simp
qed

subsection \<open>The modes\<close>

lemma custom_safe: "db_ok en v \<Longrightarrow> triple (safe en v) (runSimpleExecutionWithCustomIntent en sg i bt now) (\<lambda>r. safe en v)"
  by (simp add: runSimpleExecutionWithCustomIntent_def simple_execute_safe)

lemma get_safe: "db_ok en v \<Longrightarrow> triple (safe en v) (get_state en now) (\<lambda>r. safe en v)"
  by (rule triple_conseq [OF read_holds]) auto

lemma ret_safe: "triple (safe en v) (ret x) (\<lambda>r. safe en v)"
  by (rule triple_ret)

lemma record_safe:
  assumes "db_ok en v" "\<And>s. ms_pendingOrders (f s) = ms_pendingOrders s"
  shows "triple (safe en v) (record_execution en now f r) (\<lambda>r. safe en v)"
proof -
  have p: "ms_pendingOrders ((f s)\<lparr> ms_updatedAt := u \<rparr>) = ms_pendingOrders s" for s u by (simp add: assms(2))
  have w: "triple (holds en v s) (put_state en ((f s)\<lparr> ms_updatedAt := u \<rparr>)) (\<lambda>r. safe en v)" for s u
  proof (cases "keyed s")
    case True
    show ?thesis
      by (rule triple_conseq [OF write_holds [OF keyed_same [OF True p]]]) (auto simp: ids_same [OF p])
  qed (simp add: triple_def holds_def)
  have "triple (safe en v) (bind (get_state en now) (\<lambda>s. put_state en ((f s)\<lparr> ms_updatedAt := u \<rparr>))) (\<lambda>r. safe en v)" for u
    by (rule triple_bind [OF read_holds [OF assms(1)]]) (auto intro: triple_conseq [OF w])
  then show ?thesis unfolding record_execution_def by (intro triple_if ret_safe)
qed

lemma recorded_safe:
  assumes "db_ok en v" "\<And>s. ms_pendingOrders (f s) = ms_pendingOrders s"
  shows "triple (safe en v) (bind (runSimpleExecutionWithCustomIntent en sg i bt now) (\<lambda>r.
      bind (record_execution en now f r) (\<lambda>_. ret (staged st stage extra r)))) (\<lambda>r. safe en v)"
  by (rule triple_bind [OF custom_safe [OF assms(1)]], rule triple_bind [OF record_safe [OF assms]]) (simp_all add: ret_safe)

lemma dca_entered_pendings [simp]: "ms_pendingOrders (dca_entered symbol side n mark now s) = ms_pendingOrders s"
  by (simp add: dca_entered_def)

lemma grid_entered_pendings [simp]: "ms_pendingOrders (grid_entered st symbol side mark s) = ms_pendingOrders s"
  by (simp add: grid_entered_def Let_def)

lemma dca_safe:
  assumes "db_ok en v"
  shows "triple (safe en v) (dca_execute pow en sg bt now) (\<lambda>r. safe en v)"
proof -
  have k: "triple (safe en v) (case dca_refusal st s symbol side mark of
        Some (reason, meta) \<Rightarrow> ret (buildModeNoopResult sg reason meta)
      | None \<Rightarrow> bind (runSimpleExecutionWithCustomIntent en sg i bt now) (\<lambda>r.
          bind (record_execution en now (dca_entered symbol side n mark now) r) (\<lambda>_. ret (staged st stage extra r)))) (\<lambda>r. safe en v)"
    for st s symbol side mark i n stage extra
    by (cases "dca_refusal st s symbol side mark") (auto intro: ret_safe recorded_safe [OF assms])
  have read: "triple (safe en v) (bind (get_state en now) f) (\<lambda>r. safe en v)"
    if "\<And>s. triple (safe en v) (f s) (\<lambda>r. safe en v)" for f :: "mode_state \<Rightarrow> execution_result sim_act"
    by (rule triple_bind [OF get_safe [OF assms] that]) simp
  show ?thesis
    using simple_execute_safe [OF assms]
    by (cases "sg_legacyIntent sg") (auto simp: dca_execute_def Let_def intro!: triple_if read k recorded_safe [OF assms])
qed

lemma grid_safe:
  assumes "db_ok en v"
  shows "triple (safe en v) (grid_execute en sg bt now) (\<lambda>r. safe en v)"
proof -
  have k: "triple (safe en v) (case toOrderMarkPrice j of
        None \<Rightarrow> ret x
      | Some mark \<Rightarrow> (case grid_refusal st s symbol side mark of
          Some (reason, meta) \<Rightarrow> ret (buildModeNoopResult sg reason meta)
        | None \<Rightarrow> bind (runSimpleExecutionWithCustomIntent en sg (i mark) bt now) (\<lambda>r.
            bind (record_execution en now (grid_entered st symbol side mark) r) (\<lambda>_. ret (staged st stage extra r))))) (\<lambda>r. safe en v)"
    for st s symbol side j i x stage extra
    by (auto split: option.split prod.split intro!: ret_safe recorded_safe [OF assms])
  have read: "triple (safe en v) (bind (get_state en now) f) (\<lambda>r. safe en v)"
    if "\<And>s. triple (safe en v) (f s) (\<lambda>r. safe en v)" for f :: "mode_state \<Rightarrow> execution_result sim_act"
    by (rule triple_bind [OF get_safe [OF assms] that]) simp
  show ?thesis
    using simple_execute_safe [OF assms]
    by (cases "sg_legacyIntent sg") (auto simp: grid_execute_def Let_def intro!: triple_if read k recorded_safe [OF assms])
qed

text \<open>
  The dip mode writes the state it read before the execution. Its pending orders are those of that moment, at
  most one, and after an execution none is in flight or none was: no second order gets into the state.
\<close>

lemma stale_write:
  assumes "keyed s" "length (ids s) \<le> 1"
  shows "triple (\<lambda>t. safe en v t \<and> (ids s = [] \<or> clear en v t)) (put_state en (with_dip_row s symbol row now)) (\<lambda>r. safe en v)"
  unfolding put_state_def
proof (rule triple_perform)
  fix t assume t: "safe en v t \<and> (ids s = [] \<or> clear en v t)"
  have p: "ms_pendingOrders (with_dip_row s symbol row now) = ms_pendingOrders s" by (simp add: with_dip_row_def)
  have "open_ids (state_json (with_dip_row s symbol row now)) = ids s"
    using open_ids_json [OF keyed_same [OF assms(1) p]] ids_same [OF p] by simp
  then show "safe en v (t @ [PutState (with_dip_row s symbol row now)])"
    using t assms(2) by (auto simp: put_ok_def clear_def)
qed

lemma triple_both: "triple P m Q \<Longrightarrow> triple P m Q' \<Longrightarrow> triple P m (\<lambda>r t. Q r t \<and> Q' r t)"
  by (simp add: triple_def)

lemma dip_recorded_safe:
  assumes "db_ok en v" "keyed s" "length (ids s) \<le> 1"
  shows "triple (holds en v s) (bind (runSimpleExecutionWithCustomIntent en sg i bt now) (\<lambda>r.
      bind (record_dip en s symbol row now r) (\<lambda>_. ret (staged st stage extra r)))) (\<lambda>r. safe en v)"
proof (rule triple_bind)
  show "triple (holds en v s) (runSimpleExecutionWithCustomIntent en sg i bt now) (\<lambda>r t. safe en v t \<and> ends_clear en v (ids s) r t)"
    unfolding runSimpleExecutionWithCustomIntent_def
    by (rule triple_both; rule triple_conseq [OF simple_execute_safe [OF assms(1)]] triple_conseq [OF simple_execute_clear [OF assms(1), where S = "ids s"]])
      (auto simp: holds_def)
next
  fix r :: execution_result
  have "triple (\<lambda>t. safe en v t \<and> ends_clear en v (ids s) (Inr r) t) (record_dip en s symbol row now r) (\<lambda>r. safe en v)"
    unfolding record_dip_def
    by (intro triple_if triple_conseq [OF stale_write [OF assms(2,3)]] triple_ret) (auto simp: ends_clear_def)
  then show "triple (\<lambda>t. safe en v t \<and> ends_clear en v (ids s) (Inr r) t)
      (bind (record_dip en s symbol row now r) (\<lambda>_. ret (staged st stage extra r))) (\<lambda>r. safe en v)"
    by (rule triple_bind) (auto intro: ret_safe)
qed simp


lemma dip_write:
  assumes "keyed s" "triple (safe en v) m (\<lambda>r. safe en v)"
  shows "triple (holds en v s) (bind (put_state en (with_dip_row s symbol row now)) (\<lambda>_. m)) (\<lambda>r. safe en v)"
proof -
  have p: "ms_pendingOrders (with_dip_row s symbol row now) = ms_pendingOrders s" by (simp add: with_dip_row_def)
  show ?thesis
    by (rule triple_bind [OF triple_conseq [OF write_holds [OF keyed_same [OF assms(1) p]]] assms(2)]) (auto simp: ids_same [OF p])
qed

lemma ret_holds: "triple (holds en v s) (ret x) (\<lambda>r. safe en v)"
  by (rule triple_ret) (rule holds_safe)

lemma read_short:
  assumes "db_ok en v"
  shows "triple (\<lambda>t. safe en v t \<and> length (open_ids (stored en v t)) \<le> 1) (get_state en now)
    (\<lambda>r t. safe en v t \<and> (\<forall>s. r = Inr s \<longrightarrow> holds en v s t \<and> length (ids s) \<le> 1))"
  unfolding get_state_def
proof (rule triple_bind [where R = "\<lambda>r t. safe en v t \<and> length (open_ids (stored en v t)) \<le> 1 \<and> (\<forall>w. r = Inr w \<longrightarrow> w = stored en v t)"])
  show "triple (\<lambda>t. safe en v t \<and> length (open_ids (stored en v t)) \<le> 1) (perform GetState (sm_getState en))
      (\<lambda>r t. safe en v t \<and> length (open_ids (stored en v t)) \<le> 1 \<and> (\<forall>w. r = Inr w \<longrightarrow> w = stored en v t))"
    using assms by (intro triple_perform) (auto simp: db_ok_def)
qed (auto intro!: triple_ret simp: holds_def)

lemma dip_safe:
  assumes "db_ok en v"
  shows "triple (\<lambda>t. safe en v t \<and> length (open_ids (stored en v t)) \<le> 1) (dip_execute en sg bt now) (\<lambda>r. safe en v)"
proof (cases "bt_strategyKey bt = ''prediction_copier''")
  case True
  then show ?thesis
    by (auto simp: dip_execute_def Let_def intro: triple_conseq [OF simple_execute_safe [OF assms]])
next
  case False
  let ?st = "readExecutionSettings (bt_strategyKey bt) (bt_paramsJson bt)"
  have read: "triple (\<lambda>t. safe en v t \<and> length (open_ids (stored en v t)) \<le> 1) (bind (get_state en now) f) (\<lambda>r. safe en v)"
    if "\<And>s. keyed s \<Longrightarrow> length (ids s) \<le> 1 \<Longrightarrow> triple (holds en v s) (f s) (\<lambda>r. safe en v)" for f :: "mode_state \<Rightarrow> execution_result sim_act"
  proof (rule triple_bind [OF read_short [OF assms]], goal_cases)
    case (1 s)
    show ?case
    proof (cases "keyed s \<and> length (ids s) \<le> 1")
      case True
      then show ?thesis using that [of s] by (auto intro: triple_conseq)
    qed (auto simp: triple_def holds_def)
  qed simp
  show ?thesis
  proof (cases "sg_legacyIntent sg")
    case (OpenIntent symbol side order)
    show ?thesis
      unfolding dip_execute_def Let_def using False OpenIntent
      by (auto simp del: One_nat_def split: option.split prod.split intro!: read triple_if dip_recorded_safe [OF assms] dip_write ret_holds ret_safe)
  next
    case (CloseIntent symbol order)
    show ?thesis
      unfolding dip_execute_def Let_def using False CloseIntent
      by (auto simp del: One_nat_def intro!: read dip_recorded_safe [OF assms])
  next
    case NoIntent
    have w: "triple (holds en v s) (bind (put_state en (with_dip_row s symbol row now)) (\<lambda>_. simple_execute en sg bt now)) (\<lambda>r. safe en v)"
      if "keyed s" for s symbol row
      by (rule dip_write [OF that simple_execute_safe [OF assms]])
    show ?thesis
      unfolding dip_execute_def Let_def using False NoIntent
      by (auto simp del: One_nat_def intro!: read triple_if w
          dip_recorded_safe [OF assms, where sg = sg, unfolded runSimpleExecutionWithCustomIntent_def])
  qed
qed

text \<open>The modes the registry offers under these names (apps/runner/src/execution/registry.ts), each with the key of
  its simple mode.\<close>

definition mode_execute :: "(jsnum \<Rightarrow> int \<Rightarrow> jsnum) \<Rightarrow> sim_env \<Rightarrow> mode_name \<Rightarrow> signal \<Rightarrow> bot \<Rightarrow> int \<Rightarrow> execution_result sim_act" where
  "mode_execute pow en m =
     (case m of
        ModeSimple \<Rightarrow> simple_execute (en\<lparr> sm_key := ''simple'' \<rparr>)
      | ModeDca \<Rightarrow> dca_execute pow (en\<lparr> sm_key := ''simple_delegate_for_dca'' \<rparr>)
      | ModeGrid \<Rightarrow> grid_execute (en\<lparr> sm_key := ''simple_delegate_for_grid'' \<rparr>)
      | ModeDipReversion \<Rightarrow> dip_execute (en\<lparr> sm_key := ''simple_delegate_for_dip_reversion'' \<rparr>))"

lemma stored_key [simp]: "stored (en\<lparr> sm_key := k \<rparr>) v t = stored en v t"
  unfolding stored_def
proof (induction t rule: rev_induct)
  case (snoc c t)
  then show ?case by (cases c) simp_all
qed simp

lemma db_ok_key [simp]: "db_ok (en\<lparr> sm_key := k \<rparr>) v = db_ok en v"
  by (simp add: db_ok_def)

lemma safe_key [simp]: "safe (en\<lparr> sm_key := k \<rparr>) v t = safe en v t"
proof -
  have "call_ok (en\<lparr> sm_key := k \<rparr>) v u c = call_ok en v u c" for u c
    by (simp add: call_ok_def announced_by_def split: sim_call.split)
  then show ?thesis by (simp add: safe_def)
qed

lemma mode_execute_safe:
  assumes "db_ok en v"
  shows "triple (\<lambda>t. safe en v t \<and> length (open_ids (stored en v t)) \<le> 1) (mode_execute pow en m sg bt now) (\<lambda>r. safe en v)"
proof -
  let ?P = "\<lambda>t. safe en v t \<and> length (open_ids (stored en v t)) \<le> 1"
  have db: "db_ok (en\<lparr> sm_key := k \<rparr>) v" for k by (simp add: assms)
  have weaken: "triple (safe (en\<lparr> sm_key := k \<rparr>) v) a (\<lambda>r. safe (en\<lparr> sm_key := k \<rparr>) v) \<Longrightarrow> triple ?P a (\<lambda>r. safe en v)"
    for k and a :: "execution_result sim_act"
    by (erule triple_conseq) simp_all
  show ?thesis
    using weaken [OF simple_execute_safe [OF db]] weaken [OF dca_safe [OF db]] weaken [OF grid_safe [OF db]]
      dip_safe [OF db, unfolded safe_key stored_key]
    by (cases m) (simp_all add: mode_execute_def)
qed

text \<open>Ticks of a bot one after the other, each with the mode its settings name at that moment.\<close>

fun run_mode_ticks :: "(jsnum \<Rightarrow> int \<Rightarrow> jsnum) \<Rightarrow> sim_env \<Rightarrow> (mode_name \<times> signal \<times> bot \<times> int) list \<Rightarrow> sim_call list \<Rightarrow> sim_call list" where
  "run_mode_ticks pow en [] t = t"
| "run_mode_ticks pow en ((m, sg, bt, now) # ticks) t = run_mode_ticks pow en ticks (snd (mode_execute pow en m sg bt now t))"

lemma run_mode_ticks_safe:
  "db_ok en v \<Longrightarrow> length (open_ids v) \<le> 1 \<Longrightarrow> safe en v t \<Longrightarrow> safe en v (run_mode_ticks pow en ticks t)"
proof (induction pow en ticks t rule: run_mode_ticks.induct)
  case (2 pow en m sg bt now ticks t)
  have "safe en v (snd (mode_execute pow en m sg bt now t))"
    using mode_execute_safe [OF 2(2), of pow m sg bt now] safe_length [OF 2(4,3)] 2(4) by (simp add: triple_def)
  then show ?case using 2 by simp
qed simp

text \<open>C1: Over any sequence of ticks of a bot in any of the modes simple, dollar cost averaging, grid and dip reversion,
  the mode changing as it may from tick to tick, with any venue, engine and plugins, the stored state never has
  more than one order in flight, and the engine is only called right after its order was stored while no
  other order was in flight.\<close>

theorem modes_one_order:
  assumes "db_ok en v" "length (open_ids v) \<le> 1"
  shows "let t = run_mode_ticks pow en ticks [] in (\<forall>n. length (open_ids (stored en v (take n t))) \<le> 1) \<and>
    (\<forall>n i. n < length t \<longrightarrow> t ! n = RunEngine i \<longrightarrow>
       (\<exists>s cid. 0 < n \<and> t ! (n - 1) = PutState s \<and> sm_putState en s (take (n - 1) t) = Inr () \<and>
          open_ids (stored en v (take (n - 1) t)) = [] \<and> open_ids (state_json s) = [cid] \<and>
          op_clientOrderId (intent_order_of i) = Some cid))"
proof -
  have s: "safe en v (run_mode_ticks pow en ticks [])" using run_mode_ticks_safe [OF assms] by simp
  show ?thesis unfolding Let_def using safe_length [OF safe_take [OF s] assms(2)] safe_engine [OF s] by blast
qed


section \<open>Executions the dip mode forgets\<close>

lemma dip_recorded:
  assumes "steady en v" "xr_status r = RsExecuted"
    and "bind m (\<lambda>r. bind (record_dip en s symbol row now r) (\<lambda>_. ret (staged st stage extra r))) t = (Inr r, t')"
  shows "\<exists>u. t' = u @ [PutState (with_dip_row s symbol row now)]"
proof -
  obtain r0 u where m: "m t = (Inr r0, u)"
    using assms(3) by (cases "m t"; cases "fst (m t)") (auto simp: bind_def)
  then have b: "bind (record_dip en s symbol row now r0) (\<lambda>_. ret (staged st stage extra r0)) u = (Inr r, t')"
    using assms(3) by (simp add: bind_def)
  have "xr_status r0 = RsExecuted"
  proof (rule ccontr)
    assume "xr_status r0 \<noteq> RsExecuted"
    then show False using b assms(2) by (auto simp: record_dip_def ret_def staged_def)
  qed
  then show ?thesis using b assms(1) by (auto simp: record_dip_def ret_def)
qed

lemma noop_result [simp]: "xr_status (buildModeNoopResult sg reason meta) = RsNoop"
  by (simp add: buildModeNoopResult_def)

text \<open>C26: After a tick of the dip reversion mode has executed an open or a close, the state it leaves in the database is the
  one it read before the execution, apart from its own row: the execution is not counted against the daily
  limit, no cooldown starts, the symbols held do not change, the order number is given out again and the
  orders in flight are those of before.\<close>

theorem dip_execution_uncounted:
  assumes "steady en v" "bt_strategyKey bt \<noteq> ''prediction_copier''" "sg_legacyIntent sg \<noteq> NoIntent"
    and "dip_execute en sg bt now t = (Inr r, t')" "xr_status r = RsExecuted"
  shows "\<exists>u s'. t' = u @ [PutState s'] \<and> stored en v t' = state_json s' \<and>
    (let s = normalizeExecutionModeState (stored en v t) now
     in ms_dailyExecutionDate s' = ms_dailyExecutionDate s \<and> ms_dailyExecutionCount s' = ms_dailyExecutionCount s \<and>
        ms_cooldownUntil s' = ms_cooldownUntil s \<and> ms_openPositionSymbols s' = ms_openPositionSymbols s \<and>
        ms_normalOrderSeq s' = ms_normalOrderSeq s \<and> ms_pendingOrders s' = ms_pendingOrders s)"
proof -
  define s where "s = normalizeExecutionModeState (stored en v t) now"
  have "\<exists>u symbol row. t' = u @ [PutState (with_dip_row s symbol row now)]"
  proof (cases "sg_legacyIntent sg")
    case (OpenIntent symbol side order)
    obtain m where m: "toOrderMarkPrice (OpenIntent symbol side order) = Some m"
      using assms(1,2,4,5) OpenIntent
      by (cases "toOrderMarkPrice (OpenIntent symbol side order)") (auto simp: dip_execute_def Let_def ret_def)
    let ?st = "readExecutionSettings (bt_strategyKey bt) (bt_paramsJson bt)"
    let ?row = "dip_row s symbol (Some m) now"
    obtain reached movePct where trig: "computeDipTriggerReached side m (rm_referenceHigh ?row) (rm_referenceLow ?row)
        (er_dipTriggerPct (st_dipReversion ?st)) = (reached, movePct)" by fastforce
    have "bind (runSimpleExecutionWithCustomIntent en sg (OpenIntent symbol side (dip_order ?st side order m)) bt now) (\<lambda>r.
        bind (record_dip en s symbol (entered_row ?row side now) now r) (\<lambda>_.
          ret (staged ?st ''dip_reversion_open'' [(''dipMovePct'', JNum movePct)] r))) (t @ [GetState]) = (Inr r, t')"
      using assms(1,2,4,5) OpenIntent m trig
      by (auto simp: dip_execute_def Let_def ret_def intentSymbol_def s_def [symmetric] split: if_splits)
    from dip_recorded [OF assms(1,5) this] show ?thesis by blast
  next
    case (CloseIntent symbol order)
    have "bind (runSimpleExecutionWithCustomIntent en sg (sg_legacyIntent sg) bt now) (\<lambda>r.
        bind (record_dip en s symbol (closed_row (dip_row s symbol None now)) now r) (\<lambda>_.
          ret (staged (readExecutionSettings (bt_strategyKey bt) (bt_paramsJson bt)) ''dip_reversion_close'' [] r))) (t @ [GetState]) = (Inr r, t')"
      using assms(1,2,4) CloseIntent
      by (simp add: dip_execute_def Let_def intentSymbol_def toOrderMarkPrice_def s_def [symmetric])
    from dip_recorded [OF assms(1,5) this] show ?thesis by blast
  qed (simp add: assms(3))
  then obtain u symbol row where u: "t' = u @ [PutState (with_dip_row s symbol row now)]" by blast
  then show ?thesis
    using steady_stored [OF assms(1), of u "with_dip_row s symbol row now"]
    by (intro exI [of _ u] exI [of _ "with_dip_row s symbol row now"]) (simp add: with_dip_row_def s_def [symmetric] Let_def)
qed


section \<open>Examples\<close>

text \<open>A tick on an empty state whose order an injected engine accepts.\<close>

definition sample_settings :: execution_settings where
  "sample_settings = readExecutionSettings ''dummy'' JNull"

definition sample_sg :: "trade_intent \<Rightarrow> signal" where
  "sample_sg i = \<lparr> sg_legacyIntent = i, sg_gate = JNull \<rparr>"

definition passes :: "trade_intent \<Rightarrow> bool" where
  "passes i \<longleftrightarrow> i \<noteq> NoIntent \<and>
     ga_allow (evaluateExecutionGuardrails unread i (st_common sample_settings) (normalizeExecutionModeState JNull sample_now) sample_now) \<and>
     (\<forall>m. validateSharedExecutionVenue
        \<lparr> sq_domain = ''simple'', sq_action = (if is_close i then ''close_position'' else ''place_order''),
          sq_symbol = Some (intentSymbol i ''BTCUSDT''), sq_intent = Some i,
          sq_venue = Some (buildSharedExecutionVenue (Some ''hyperliquid'') None None None None), sq_requirements = None, sq_metadata = m \<rparr> = None)"

lemma sample_run:
  assumes "passes (shaped sample_settings i)" "stored (sample_env InjectedEngine ps) JNull t = JNull"
  shows "\<exists>x u j. simple_execute (sample_env InjectedEngine ps) (withLegacyIntent (sample_sg orig) i) sample_bot sample_now t = (Inr x, t @ u) \<and>
    xr_status x = RsExecuted \<and> RunEngine j \<in> set u"
proof -
  let ?en = "sample_env InjectedEngine ps"
  let ?tk = "\<lparr> tk_now = sample_now, tk_settings = sample_settings, tk_gate = coerceGateSummary JNull defaultGateSummary,
    tk_state = normalizeExecutionModeState JNull sample_now, tk_intent = shaped sample_settings i, tk_pluginIds = [] \<rparr>"
  let ?t = "t @ [ApplyExtensions i, GetState]"
  have e: "open_ids JNull = []" by code_simp
  have "announced_order ?en sample_bot ?tk"
    using assms(1)
    by (simp add: passes_def announced_order_def tick_guard_def tick_request_def sample_env_def sample_bot_def)
  then have "accepts ?en sample_bot ?tk ?t"
    using assms(1) e by (simp add: accepts_def passes_def) (simp add: sample_env_def)
  moreover have "sm_engine ?en = InjectedEngine" "\<forall>i t. sm_extensions ?en i t = Inr (i, [], [])" by (simp_all add: sample_env_def)
  moreover have "bt_strategyKey sample_bot = ''dummy''" "bt_paramsJson sample_bot = JNull" by (simp_all add: sample_bot_def)
  ultimately obtain resp u where "sp_status resp = StExecuted"
    "simple_execute ?en (withLegacyIntent (sample_sg orig) i) sample_bot sample_now t =
      (Inr (toRunnerExecutionResult resp (tk_intent ?tk) (tk_gate ?tk)), ?t @ sent_calls ?en sample_bot ?tk @ u)"
    using injected_run [OF sample_steady, of InjectedEngine ps sample_bot ?tk ?t] simple_plain [OF sample_steady, of InjectedEngine ps t "withLegacyIntent (sample_sg orig) i" sample_bot sample_now]
      assms(2) e
    by (fastforce simp: withLegacyIntent_def sample_sg_def shaped_def [symmetric] sample_settings_def Let_def)
  then show ?thesis
    by (intro exI [of _ "toRunnerExecutionResult resp (tk_intent ?tk) (tk_gate ?tk)"] exI [of _ "[ApplyExtensions i, GetState] @ sent_calls ?en sample_bot ?tk @ u"]
        exI [of _ "sent_intent ?en sample_bot ?tk"]) simp
qed

lemma sample_default: "sample_settings = DEFAULT_EXECUTION_SETTINGS"
  by code_simp

lemma passesI:
  assumes "i \<noteq> NoIntent"
    and "ga_allow (evaluateExecutionGuardrails unread i (st_common DEFAULT_EXECUTION_SETTINGS) (normalizeExecutionModeState JNull sample_now) sample_now)"
    and "\<And>m. validateSharedExecutionVenue
        \<lparr> sq_domain = ''simple'', sq_action = (if is_close i then ''close_position'' else ''place_order''),
          sq_symbol = Some (intentSymbol i ''BTCUSDT''), sq_intent = Some i,
          sq_venue = Some (buildSharedExecutionVenue (Some ''hyperliquid'') None None None None), sq_requirements = None, sq_metadata = m \<rparr> = None"
  shows "passes i"
  using assms by (simp add: passes_def sample_default)

lemma sample_close_passes: "passes (shaped sample_settings (CloseIntent ''BTCUSDT'' None))"
proof -
  have c: "shaped DEFAULT_EXECUTION_SETTINGS (CloseIntent ''BTCUSDT'' None) = CloseIntent ''BTCUSDT'' (Some (no_params\<lparr> op_reduceOnly := Some True \<rparr>))" by code_simp
  show ?thesis unfolding sample_default c by (rule passesI; code_simp)
qed

lemma hyperliquid:
  "normalizeCapabilities (Some (buildSharedExecutionVenue (Some ''hyperliquid'') None None None None)) = Some HYPERLIQUID_FUTURES_CAPABILITIES"
  "vc_supportsPerpExecution HYPERLIQUID_FUTURES_CAPABILITIES"
  "validateFuturesVenueRequirements HYPERLIQUID_FUTURES_CAPABILITIES [OrderTypeReq Market] = None"
  by code_simp+

text \<open>A plain market order of an open passes.\<close>

lemma open_passes:
  assumes "op_type od = Some Market" "op_reduceOnly od = None" "op_marginMode od = None" "op_leverage od = None"
  shows "passes (OpenIntent ''BTCUSDT'' side (Some od))"
proof -
  let ?s = "normalizeExecutionModeState JNull sample_now"
  have s: "ms_dailyExecutionDate ?s = toUtcDate sample_now" "ms_dailyExecutionCount ?s = 0" "ms_cooldownUntil ?s = None" "ms_openPositionSymbols ?s = []"
    by code_simp+
  have g: "ga_allow (evaluateExecutionGuardrails unread (OpenIntent ''BTCUSDT'' side (Some od)) (st_common sample_settings) ?s sample_now)"
    by (simp add: sample_default DEFAULT_EXECUTION_SETTINGS_def evaluateExecutionGuardrails_def ensureDailyState_def s cooldown_left_def
      open_refusal_def projected_def over_limit_def refuse_def Let_def split: option.split)
  have r: "order_requirements od = [OrderTypeReq Market]" by (simp add: order_requirements_def assms)
  let ?q = "\<lambda>m. \<lparr> sq_domain = ''simple'', sq_action = ''place_order'', sq_symbol = Some ''BTCUSDT'', sq_intent = Some (OpenIntent ''BTCUSDT'' side (Some od)),
        sq_venue = Some (buildSharedExecutionVenue (Some ''hyperliquid'') None None None None), sq_requirements = None, sq_metadata = m \<rparr>"
  have i: "inferCapabilityRequirements (?q m) = [OrderTypeReq Market]" for m
    by (simp add: inferCapabilityRequirements_def intent_order_def r opt_get_def)
  have u: "unsupported_paper (?q m) = None" for m
    by (simp add: unsupported_paper_def buildSharedExecutionVenue_def)
  have "\<not> sv_skipValidation (buildSharedExecutionVenue (Some ''hyperliquid'') None None None None)"
    by (simp add: buildSharedExecutionVenue_def)
  then have "validateSharedExecutionVenue (?q m) = None" for m
    unfolding validateSharedExecutionVenue_def i u by (simp add: hyperliquid del: validateFuturesVenueRequirements.simps)
  then show ?thesis using g by (simp add: passes_def is_close_def intentSymbol_def)
qed

text \<open>A power function for the examples, and an open intent with a mark price.\<close>

definition no_power :: "jsnum \<Rightarrow> int \<Rightarrow> jsnum" where
  "no_power x n = Fin 1"

definition sample_params :: order_params where
  "sample_params = no_params\<lparr> op_markPrice := Some (Fin 100) \<rparr>"

definition sample_open :: trade_intent where
  "sample_open = OpenIntent ''BTCUSDT'' Long (Some sample_params)"

lemma sample_mark: "toOrderMarkPrice (OpenIntent ''BTCUSDT'' Long (Some sample_params)) = Some (Fin 100)"
  by (simp add: toOrderMarkPrice_def sample_params_def no_params_def opt_get_def opt_or_def positive_num_def finite_opt_def)

lemma plain_passes:
  assumes "op_reduceOnly od = None" "op_marginMode od = None" "op_leverage od = None"
  shows "passes (shaped sample_settings (OpenIntent ''BTCUSDT'' side (Some od)))"
proof -
  have "shaped sample_settings (OpenIntent ''BTCUSDT'' side (Some od)) = OpenIntent ''BTCUSDT'' side (Some (od\<lparr> op_type := Some Market \<rparr>))"
    by (simp add: shaped_def sample_default DEFAULT_EXECUTION_SETTINGS_def toIntentWithSimpleOverrides_def applyCommonIntentSafety_def
      enforceCloseReduceOnly_def opt_get_def Let_def)
  then show ?thesis using open_passes [of "od\<lparr> op_type := Some Market \<rparr>" side] assms by simp
qed

lemma dca_passes: "passes (shaped sample_settings (OpenIntent ''BTCUSDT'' Long (dca_order no_power sample_settings 0 Long (Some sample_params) mark)))"
proof -
  have "\<exists>od. dca_order no_power sample_settings 0 Long (Some sample_params) mark = Some od \<and> op_reduceOnly od = None \<and> op_marginMode od = None \<and> op_leverage od = None"
    by (cases "positive_pct mark")
      (simp_all add: dca_order_def withTpSlFromPct_def with_order_type_def scaleOpenIntent_def Let_def opt_get_def sample_params_def no_params_def)
  then show ?thesis using plain_passes by auto
qed

lemma grid_passes: "passes (shaped sample_settings (OpenIntent ''BTCUSDT'' Long (grid_order sample_settings Long (Some sample_params) mark)))"
proof -
  have "\<exists>od. grid_order sample_settings Long (Some sample_params) mark = Some od \<and> op_reduceOnly od = None \<and> op_marginMode od = None \<and> op_leverage od = None"
    by (cases "positive_pct (Some mark)")
      (simp_all add: grid_order_def withTpSlFromPct_def with_order_type_def withDesiredNotionalUsd_def Let_def opt_get_def sample_params_def no_params_def)
  then show ?thesis using plain_passes by auto
qed

text \<open>The samples of the modes: the state is empty, the engine accepts.\<close>

definition sample_en :: sim_env where
  "sample_en = sample_env InjectedEngine filled_later"

lemma sample_en_facts: "steady sample_en JNull" "db_ok sample_en JNull" "plain_extensions sample_en"
  by (simp_all add: sample_en_def sample_steady steady_db [OF sample_steady]) (simp add: plain_extensions_def sample_env_def)

lemma sample_empty:
  "map_of (ms_dca (normalizeExecutionModeState JNull sample_now)) symbol = None"
  "map_of (ms_grid (normalizeExecutionModeState JNull sample_now)) symbol = None"
proof -
  have "ms_dca (normalizeExecutionModeState JNull sample_now) = []" "ms_grid (normalizeExecutionModeState JNull sample_now) = []" by code_simp+
  then show "map_of (ms_dca (normalizeExecutionModeState JNull sample_now)) symbol = None"
    "map_of (ms_grid (normalizeExecutionModeState JNull sample_now)) symbol = None" by simp_all
qed

lemma sample_bot_simps [simp]: "bt_strategyKey sample_bot = ''dummy''" "bt_paramsJson sample_bot = JNull"
  by (simp_all add: sample_bot_def)

lemma sample_custom:
  assumes "passes (shaped sample_settings i)"
  shows "\<exists>x u j. runSimpleExecutionWithCustomIntent sample_en (sample_sg orig) i sample_bot sample_now [GetState] = (Inr x, [GetState] @ u) \<and>
    xr_status x = RsExecuted \<and> RunEngine j \<in> set u"
  unfolding runSimpleExecutionWithCustomIntent_def sample_en_def
  by (rule sample_run [OF assms]) (simp add: stored_def)

text \<open>What follows the execution only adds calls.\<close>

lemma sample_recorded:
  assumes "passes (shaped sample_settings i)"
  shows "\<exists>r cs j. bind (runSimpleExecutionWithCustomIntent sample_en (sample_sg orig) i sample_bot sample_now) (\<lambda>r.
      bind (record_execution sample_en sample_now f r) (\<lambda>_. ret (staged st stage extra r))) [GetState] = (Inr r, [GetState] @ cs) \<and> RunEngine j \<in> set cs"
proof -
  obtain x u j where x: "runSimpleExecutionWithCustomIntent sample_en (sample_sg orig) i sample_bot sample_now [GetState] = (Inr x, [GetState] @ u)"
      "xr_status x = RsExecuted" "RunEngine j \<in> set u"
    using sample_custom [OF assms] by blast
  note s = sample_en_facts(1)
  define s' where "s' = (f (normalizeExecutionModeState (stored sample_en JNull (GetState # u)) sample_now))\<lparr> ms_updatedAt := toISOString sample_now \<rparr>"
  have "bind (runSimpleExecutionWithCustomIntent sample_en (sample_sg orig) i sample_bot sample_now) (\<lambda>r.
      bind (record_execution sample_en sample_now f r) (\<lambda>_. ret (staged st stage extra r))) [GetState] =
      (Inr (staged st stage extra x), [GetState] @ u @ [GetState, PutState s'])"
    using s by (subst bind_def) (simp add: x record_execution_def bind_def [of "bind a b" for a b] ret_def s'_def)
  then show ?thesis using x(3) by (intro exI conjI) (assumption, simp)
qed

lemma sample_read: "stored sample_en JNull [] = JNull"
  by (simp add: stored_def)

lemma sample_limits:
  "ed_maxEntries (st_dca sample_settings) = 3" "eg_levelsPerSide (st_grid sample_settings) = 4"
  "eg_maxActiveOrders (st_grid sample_settings) = 10" "es_orderType (st_simple sample_settings) = Market"
  by (simp_all add: sample_default DEFAULT_EXECUTION_SETTINGS_def)

theorem dca_order_sound_witness:
  "\<exists>r cs i od p. dca_execute no_power sample_en (sample_sg sample_open) sample_bot sample_now [] = (r, cs) \<and> RunEngine i \<in> set cs \<and>
     i = OpenIntent ''BTCUSDT'' Long (Some od) \<and> op_type od = Some Market \<and> op_takeProfitPrice od = Some (moved (Fin 100) p True)"
proof -
  let ?s = "normalizeExecutionModeState JNull sample_now"
  have n: "dca_entries ?s ''BTCUSDT'' Long = 0" by (simp add: dca_entries_def sample_empty)
  then have "dca_refusal sample_settings ?s ''BTCUSDT'' Long (Some (Fin 100)) = None"
    by (simp add: dca_refusal_def Let_def sample_limits)
  then have "dca_execute no_power sample_en (sample_sg sample_open) sample_bot sample_now [] =
      bind (runSimpleExecutionWithCustomIntent sample_en (sample_sg sample_open)
        (OpenIntent ''BTCUSDT'' Long (dca_order no_power sample_settings 0 Long (Some sample_params) (Some (Fin 100)))) sample_bot sample_now) (\<lambda>r.
      bind (record_execution sample_en sample_now (dca_entered ''BTCUSDT'' Long 0 (Some (Fin 100)) sample_now) r) (\<lambda>_.
        ret (staged sample_settings ''dca_open'' [(''dcaEntryCountBefore'', int_val 0)] r))) [GetState]"
    using sample_en_facts(1) n
    by (simp add: dca_execute_def Let_def sample_sg_def sample_open_def sample_settings_def [symmetric] sample_mark sample_read)
  then obtain r cs j where run: "dca_execute no_power sample_en (sample_sg sample_open) sample_bot sample_now [] = (Inr r, [] @ [GetState] @ cs)"
      "RunEngine j \<in> set cs"
    using sample_recorded [OF dca_passes [of "Some (Fin 100)"], where orig = sample_open and f = "dca_entered ''BTCUSDT'' Long 0 (Some (Fin 100)) sample_now"
        and st = sample_settings and stage = "''dca_open''" and extra = "[(''dcaEntryCountBefore'', int_val 0)]"] by auto
  then have "RunEngine j \<in> set ([GetState] @ cs)" by simp
  from dca_order_sound [OF sample_en_facts(2,3) _ _ run(1) this, of "''BTCUSDT''" Long "Some sample_params"]
  obtain od p where "j = OpenIntent ''BTCUSDT'' Long (Some od)" "op_type od = Some Market" "op_takeProfitPrice od = Some (moved (Fin 100) p True)"
    by (auto simp: Let_def sample_sg_def sample_open_def sample_mark sample_settings_def [symmetric] sample_limits)
  then show ?thesis using run by auto
qed

theorem grid_order_sound_witness:
  "\<exists>r cs i od. grid_execute sample_en (sample_sg sample_open) sample_bot sample_now [] = (r, cs) \<and> RunEngine i \<in> set cs \<and>
     i = OpenIntent ''BTCUSDT'' Long (Some od) \<and> op_type od = Some Market \<and> op_qty od = None \<and>
     grid_active (normalizeExecutionModeState JNull sample_now) ''BTCUSDT'' Long < 10"
proof -
  let ?s = "normalizeExecutionModeState JNull sample_now"
  have "grid_refusal sample_settings ?s ''BTCUSDT'' Long (Fin 100) = None"
    by (simp add: grid_refusal_def grid_row_def sample_empty Let_def sample_limits)
  then have "grid_execute sample_en (sample_sg sample_open) sample_bot sample_now [] =
      bind (runSimpleExecutionWithCustomIntent sample_en (sample_sg sample_open)
        (OpenIntent ''BTCUSDT'' Long (grid_order sample_settings Long (Some sample_params) (Fin 100))) sample_bot sample_now) (\<lambda>r.
      bind (record_execution sample_en sample_now (grid_entered sample_settings ''BTCUSDT'' Long (Fin 100)) r) (\<lambda>_.
        ret (staged sample_settings ''grid_open'' [(''gridSpacingPct'', JNum (eg_gridSpacingPct (st_grid sample_settings)))] r))) [GetState]"
    using sample_en_facts(1)
    by (simp add: grid_execute_def Let_def sample_sg_def sample_open_def sample_settings_def [symmetric] sample_mark sample_read)
  then obtain r cs j where run: "grid_execute sample_en (sample_sg sample_open) sample_bot sample_now [] = (Inr r, [] @ [GetState] @ cs)"
      "RunEngine j \<in> set cs"
    using sample_recorded [OF grid_passes [of "Fin 100"], where orig = sample_open and f = "grid_entered sample_settings ''BTCUSDT'' Long (Fin 100)"
        and st = sample_settings and stage = "''grid_open''" and extra = "[(''gridSpacingPct'', JNum (eg_gridSpacingPct (st_grid sample_settings)))]"] by auto
  then have "RunEngine j \<in> set ([GetState] @ cs)" by simp
  from grid_order_sound [OF sample_en_facts(2,3) _ _ run(1) this, of "''BTCUSDT''" Long "Some sample_params"]
  obtain od where "j = OpenIntent ''BTCUSDT'' Long (Some od)" "op_type od = Some Market" "op_qty od = None" "grid_active ?s ''BTCUSDT'' Long < 10"
    by (auto simp: Let_def sample_sg_def sample_open_def sample_mark sample_settings_def [symmetric] sample_limits sample_read)
  then show ?thesis using run by auto
qed

theorem modes_one_order_witness:
  "let t = run_mode_ticks no_power sample_en [(ModeDca, sample_sg sample_open, sample_bot, sample_now), (ModeDipReversion, sample_sg NoIntent, sample_bot, sample_now)] []
   in \<forall>n. length (open_ids (stored sample_en JNull (take n t))) \<le> 1"
proof -
  have "length (open_ids JNull) \<le> 1" by code_simp
  from modes_one_order [OF sample_en_facts(2) this, of no_power
      "[(ModeDca, sample_sg sample_open, sample_bot, sample_now), (ModeDipReversion, sample_sg NoIntent, sample_bot, sample_now)]"]
  show ?thesis unfolding Let_def by blast
qed

theorem dip_execution_uncounted_witness:
  "\<exists>r u s'. dip_execute sample_en (sample_sg (CloseIntent ''BTCUSDT'' None)) sample_bot sample_now [] = (Inr r, u @ [PutState s']) \<and>
     xr_status r = RsExecuted \<and> ms_dailyExecutionCount s' = 0 \<and> ms_normalOrderSeq s' = 1 \<and> ms_pendingOrders s' = []"
proof -
  let ?s = "normalizeExecutionModeState JNull sample_now"
  let ?i = "CloseIntent ''BTCUSDT'' None"
  have s: "ms_dailyExecutionCount ?s = 0" "ms_normalOrderSeq ?s = 1" "ms_pendingOrders ?s = []" by code_simp+
  obtain x u where x: "runSimpleExecutionWithCustomIntent sample_en (sample_sg ?i) ?i sample_bot sample_now [GetState] = (Inr x, [GetState] @ u)"
      "xr_status x = RsExecuted"
    using sample_custom [OF sample_close_passes] by blast
  let ?row = "closed_row (dip_row ?s ''BTCUSDT'' None sample_now)"
  have "dip_execute sample_en (sample_sg ?i) sample_bot sample_now [] =
      bind (runSimpleExecutionWithCustomIntent sample_en (sample_sg ?i) ?i sample_bot sample_now) (\<lambda>r.
      bind (record_dip sample_en ?s ''BTCUSDT'' ?row sample_now r) (\<lambda>_.
        ret (staged sample_settings ''dip_reversion_close'' [] r))) [GetState]"
    using sample_en_facts(1)
    by (simp add: dip_execute_def Let_def intentSymbol_def toOrderMarkPrice_def sample_sg_def sample_settings_def [symmetric] sample_read)
  also have "\<dots> = (Inr (staged sample_settings ''dip_reversion_close'' [] x), ([GetState] @ u) @ [PutState (with_dip_row ?s ''BTCUSDT'' ?row sample_now)])"
    using sample_en_facts(1) by (subst bind_def) (simp add: x record_dip_def ret_def)
  finally have run: "dip_execute sample_en (sample_sg ?i) sample_bot sample_now [] =
      (Inr (staged sample_settings ''dip_reversion_close'' [] x), ([GetState] @ u) @ [PutState (with_dip_row ?s ''BTCUSDT'' ?row sample_now)])" .
  have "xr_status (staged sample_settings ''dip_reversion_close'' [] x) = RsExecuted" by (simp add: staged_def x)
  from dip_execution_uncounted [OF sample_en_facts(1) _ _ run this]
  show ?thesis using run x by (auto simp: Let_def sample_sg_def sample_read s staged_def)
qed

end
