(* ===== verification/ModeRegistry.thy ===== *)
theory ModeRegistry
  imports ModeSafety
begin

text \<open>
  The registry of the execution modes (apps/runner/src/execution/registry.ts) and its choice for a bot: the mode
  named by its parameters, the one bound to its strategy, or the default. The loop of the runner does not ask
  it but takes the mode of the plugin that \<open>PluginResolution\<close> selects. The bindings and the default a caller may hand
  in are parameters; the ones built in are \<open>DEFAULT_BINDINGS\<close> and the simple mode.
\<close>

section \<open>Resolution\<close>

datatype mode_key = BuiltinMode mode_name | FuturesEngineMode | PredictionCopierMode | FuturesGridMode

definition isExecutionModeKey :: "string \<Rightarrow> mode_key option" where
  "isExecutionModeKey s =
     (if s = ''simple'' then Some (BuiltinMode ModeSimple)
      else if s = ''dca'' then Some (BuiltinMode ModeDca)
      else if s = ''grid'' then Some (BuiltinMode ModeGrid)
      else if s = ''dip_reversion'' then Some (BuiltinMode ModeDipReversion)
      else if s = ''futures_engine'' then Some FuturesEngineMode
      else if s = ''prediction_copier'' then Some PredictionCopierMode
      else if s = ''futures_grid'' then Some FuturesGridMode
      else None)"

text \<open>The key named by the parameters of the prediction copier.\<close>

definition nested_mode_key :: "jsobj \<Rightarrow> mode_key option" where
  "nested_mode_key row =
     (case as_object (get row ''predictionCopier'') of
        Some nested \<Rightarrow> isExecutionModeKey (norm_lower (get nested ''executionMode''))
      | None \<Rightarrow> None)"

definition readExecutionModeOverrideFromParams :: "string \<Rightarrow> jsval \<Rightarrow> mode_key option" where
  "readExecutionModeOverrideFromParams strategyKey params =
     (case readExplicitExecutionModeFromBot strategyKey params of
        Some m \<Rightarrow> Some (BuiltinMode m)
      | None \<Rightarrow>
          (case as_object params of
             None \<Rightarrow> None
           | Some row \<Rightarrow> opt_or (isExecutionModeKey (norm_lower (get row ''executionMode''))) (nested_mode_key row)))"

definition DEFAULT_BINDINGS :: "string \<Rightarrow> mode_key option" where
  "DEFAULT_BINDINGS = [''prediction_copier'' \<mapsto> PredictionCopierMode, ''futures_grid'' \<mapsto> FuturesGridMode]"

definition resolveExecutionModeKeyForBot :: "(string \<Rightarrow> mode_key option) \<Rightarrow> mode_key option \<Rightarrow> string \<Rightarrow> jsval \<Rightarrow> mode_key" where
  "resolveExecutionModeKeyForBot bindings defaultModeKey strategyKey params =
     opt_get (readExecutionModeOverrideFromParams strategyKey params)
       (opt_get (bindings (norm_lower (JStr strategyKey))) (opt_get defaultModeKey (BuiltinMode ModeSimple)))"

section \<open>The mode that runs and the mode of the settings\<close>

lemma override_explicit:
  "strategyKey \<noteq> ''prediction_copier'' \<Longrightarrow> readExplicitExecutionModeFromBot strategyKey params = None \<Longrightarrow>
   isExecutionModeKey (norm_lower (get (opt_get (as_object params) []) ''executionMode'')) \<in> {None, Some PredictionCopierMode, Some FuturesGridMode}"
  by (auto simp: readExplicitExecutionModeFromBot_def readLegacyExecutionMode_def isExecutionModeKey_def Let_def opt_or_def
      split: if_splits option.splits)

text \<open>A bot of another strategy than the prediction copier, and without parameters of the prediction copier that
  name a mode, runs the mode its settings name whenever one of the four trading modes is resolved for it, and the
  futures engine mode is never resolved for it, not even when its parameters name it.\<close>

theorem mode_resolution:
  assumes "strategyKey \<noteq> ''prediction_copier''" "nested_mode_key (opt_get (as_object params) []) = None"
  shows "(case resolveExecutionModeKeyForBot DEFAULT_BINDINGS None strategyKey params of
      BuiltinMode m \<Rightarrow> st_mode (readExecutionSettings strategyKey params) = m
    | FuturesEngineMode \<Rightarrow> False
    | _ \<Rightarrow> readExplicitExecutionModeFromBot strategyKey params = None)"
proof (cases "readExplicitExecutionModeFromBot strategyKey params")
  case (Some m)
  then show ?thesis
    by (simp add: resolveExecutionModeKeyForBot_def readExecutionModeOverrideFromParams_def readExecutionSettings_def opt_get_def Let_def)
next
  case None
  have "resolveExecutionModeKeyForBot DEFAULT_BINDINGS None strategyKey params \<in> {BuiltinMode ModeSimple, PredictionCopierMode, FuturesGridMode}"
    using override_explicit [OF assms(1) None] assms(2)
    by (auto simp: resolveExecutionModeKeyForBot_def readExecutionModeOverrideFromParams_def None DEFAULT_BINDINGS_def opt_get_def opt_or_def
        split: option.splits)
  then show ?thesis
    using None by (auto simp: readExecutionSettings_def DEFAULT_EXECUTION_SETTINGS_def opt_get_def Let_def)
qed

theorem mode_resolution_witness:
  "st_mode (readExecutionSettings ''dummy'' (JObj [(''executionMode'', JStr ''Futures_Engine'')])) = ModeSimple \<and>
   resolveExecutionModeKeyForBot DEFAULT_BINDINGS None ''dummy'' (JObj [(''executionMode'', JStr ''Futures_Engine'')]) = BuiltinMode ModeSimple"
proof -
  let ?p = "JObj [(''executionMode'', JStr ''Futures_Engine'')]"
  have r: "resolveExecutionModeKeyForBot DEFAULT_BINDINGS None ''dummy'' ?p = BuiltinMode ModeSimple" by code_simp
  have "nested_mode_key (opt_get (as_object ?p) []) = None" by code_simp
  from mode_resolution [OF _ this, of "''dummy''"] r show ?thesis by simp
qed

text \<open>The parameters of the prediction copier can name a mode the settings do not.\<close>

lemma nested_mode_diverges:
  "let params = JObj [(''predictionCopier'', JObj [(''executionMode'', JStr ''dca'')])]
   in resolveExecutionModeKeyForBot DEFAULT_BINDINGS None ''dummy'' params = BuiltinMode ModeDca \<and>
      st_mode (readExecutionSettings ''dummy'' params) = ModeSimple"
  by code_simp

end
