(* ===== verification/ModeLimits.thy ===== *)
theory ModeLimits
  imports ModeSafety
begin

text \<open>
  The guardrails in the modes: whatever the modes, signals, plugins, venue and engine do, an order reaches the engine only
  when the state the database held right before it was announced allows one more execution.
\<close>

section \<open>Limits of an order\<close>

definition tick_limits :: "bot \<Rightarrow> common_config" where
  "tick_limits bt = st_common (readExecutionSettings (bt_strategyKey bt) (bt_paramsJson bt))"

text \<open>What the limits of a bot ask of the state and the intent of an order.\<close>

definition within_limits :: "common_config \<Rightarrow> int \<Rightarrow> mode_state \<Rightarrow> trade_intent \<Rightarrow> bool" where
  "within_limits c now s i \<longleftrightarrow>
     today_count now s < ec_maxDailyExecutions c \<and>
     (\<forall>e. in_span e \<longrightarrow> ms_cooldownUntil s = Some (toISOString e) \<longrightarrow> e \<le> now) \<and>
     (\<forall>x side od. i = OpenIntent x side od \<longrightarrow> projected s x \<le> ec_maxOpenPositions c \<and>
        (\<forall>e l. estimateIntentNotionalUsd i = Some e \<longrightarrow>
           ec_maxNotionalPerSymbolUsd c = Some l \<or> ec_maxTotalNotionalUsd c = Some l \<longrightarrow> \<not> n_lt l e))"

lemma estimate_with_id [simp]: "estimateIntentNotionalUsd (withClientOrderId i cid) = estimateIntentNotionalUsd i"
  by (auto simp: estimateIntentNotionalUsd_def withClientOrderId_def opt_get_def no_params_def positive_num_def finite_opt_def
      split: trade_intent.splits option.splits)

lemma open_refusal_limits:
  assumes "open_refusal c s (OpenIntent x side od) = None" "estimateIntentNotionalUsd (OpenIntent x side od) = Some e"
    and "ec_maxNotionalPerSymbolUsd c = Some l \<or> ec_maxTotalNotionalUsd c = Some l"
  shows "\<not> n_lt l e"
  using assms by (auto simp: open_refusal_def over_limit_def Let_def split: if_splits)

lemma with_id_open: "withClientOrderId i cid = OpenIntent x side od \<Longrightarrow> \<exists>od'. i = OpenIntent x side od'"
  by (auto simp: withClientOrderId_def split: trade_intent.splits)

lemma guard_within:
  assumes "ga_allow (evaluateExecutionGuardrails other i c s now)"
  shows "within_limits c now s (withClientOrderId i cid)"
proof -
  note g = guard_allows [OF assms]
  have "projected s x \<le> ec_maxOpenPositions c" "estimateIntentNotionalUsd (withClientOrderId i cid) = Some e \<Longrightarrow>
      ec_maxNotionalPerSymbolUsd c = Some l \<or> ec_maxTotalNotionalUsd c = Some l \<Longrightarrow> \<not> n_lt l e"
    if o: "withClientOrderId i cid = OpenIntent x side od" for x side od e l
  proof -
    obtain od' where i: "i = OpenIntent x side od'" using with_id_open [OF o] by blast
    show "projected s x \<le> ec_maxOpenPositions c" using open_projected [OF g(2) [unfolded i]] by simp
    show "\<not> n_lt l e" if "estimateIntentNotionalUsd (withClientOrderId i cid) = Some e"
      "ec_maxNotionalPerSymbolUsd c = Some l \<or> ec_maxTotalNotionalUsd c = Some l"
      using open_refusal_limits [OF g(2) [unfolded i]] that i by simp
  qed
  then show ?thesis
    using g(3) cooldown_over [OF g(1)] unfolding within_limits_def by (auto simp: today_count_def)
qed

section \<open>The calls of a tick\<close>

text \<open>From the \<open>j\<close>th call on, the engine is called right after a write that went through, from a state within the limits of
  its tick.\<close>

definition fresh :: "sim_env \<Rightarrow> jsval \<Rightarrow> int \<Rightarrow> mode_state \<Rightarrow> sim_call list \<Rightarrow> bool" where
  "fresh en v now s t \<longleftrightarrow> s = normalizeExecutionModeState (stored en v t) now \<or> stored en v t = state_json s"

definition order_ok :: "sim_env \<Rightarrow> jsval \<Rightarrow> (bot \<times> int) set \<Rightarrow> sim_call list \<Rightarrow> trade_intent \<Rightarrow> bool" where
  "order_ok en v T t i \<longleftrightarrow>
     (\<exists>u s' bt now s. t = u @ [PutState s'] \<and> sm_putState en s' u = Inr () \<and> (bt, now) \<in> T \<and> fresh en v now s u \<and>
        within_limits (tick_limits bt) now s i)"

definition limited :: "sim_env \<Rightarrow> jsval \<Rightarrow> nat \<Rightarrow> (bot \<times> int) set \<Rightarrow> sim_call list \<Rightarrow> bool" where
  "limited en v j T t \<longleftrightarrow> (\<forall>n i. j \<le> n \<longrightarrow> n < length t \<longrightarrow> t ! n = RunEngine i \<longrightarrow> order_ok en v T (take n t) i)"

lemma limited_start: "length t \<le> j \<Longrightarrow> limited en v j T t"
  by (simp add: limited_def)

lemma limited_snoc:
  "limited en v j T (t @ [c]) \<longleftrightarrow> limited en v j T t \<and> (\<forall>i. c = RunEngine i \<longrightarrow> j \<le> length t \<longrightarrow> order_ok en v T t i)"
  by (auto simp: limited_def nth_append less_Suc_eq)

lemma limited_quiet: "limited en v j T t \<Longrightarrow> \<forall>i. RunEngine i \<notin> set cs \<Longrightarrow> limited en v j T (t @ cs)"
proof (induction cs rule: rev_induct)
  case (snoc c cs)
  then have "limited en v j T (t @ cs)" by simp
  then show ?case using snoc.prems(2) limited_snoc [where t = "t @ cs" and c = c] by auto
qed simp

definition keeps :: "sim_env \<Rightarrow> jsval \<Rightarrow> nat \<Rightarrow> (bot \<times> int) set \<Rightarrow> 'a sim_act \<Rightarrow> bool" where
  "keeps en v j T m \<longleftrightarrow> triple (limited en v j T) m (\<lambda>r. limited en v j T)"

named_theorems keeps_rules

lemma keeps_quiet: "sends_only (\<lambda>i. False) m \<Longrightarrow> keeps en v j T m"
  unfolding keeps_def triple_def sends_only_def does_def sends_def using limited_quiet by metis

lemma keeps_ret [keeps_rules]: "keeps en v j T (ret x)"
  and keeps_get [keeps_rules]: "keeps en v j T (get_state en' now)"
  and keeps_put [keeps_rules]: "keeps en v j T (put_state en' s)"
  and keeps_risks [keeps_rules]: "keeps en v j T (write_risks en' ds)"
  and keeps_record [keeps_rules]: "keeps en v j T (record_execution en' now f r)"
  and keeps_dip [keeps_rules]: "keeps en v j T (record_dip en' s symbol row now r)"
  by (intro keeps_quiet sends_rules | (unfold record_dip_def, intro keeps_quiet sends_rules))+

lemma keeps_bind [keeps_rules]: "keeps en v j T m \<Longrightarrow> (\<And>x. keeps en v j T (k x)) \<Longrightarrow> keeps en v j T (bind m k)"
  unfolding keeps_def by (rule triple_bind)

lemma keeps_if [keeps_rules]: "(b \<Longrightarrow> keeps en v j T m) \<Longrightarrow> (\<not> b \<Longrightarrow> keeps en v j T n) \<Longrightarrow> keeps en v j T (if b then m else n)"
  by simp

text \<open>From a state that was just read or written on, a tick announces its order and sends it.\<close>

lemma guarded_announces:
  assumes "(bt, tk_now tk) \<in> T" "st_common (tk_settings tk) = tick_limits bt"
  shows "triple (\<lambda>t. limited en v j T t \<and> fresh en v (tk_now tk) (tk_state tk) t) (tick_guarded en bt tk q)
    (\<lambda>r t. limited en v j T t \<and> (\<forall>q'. r = Inr (GuardAllow, q') \<longrightarrow> order_ok en v T t (sent_intent en bt tk)))"
proof (cases "ga_allow (tick_guard en tk)")
  case True
  have w: "within_limits (tick_limits bt) (tk_now tk) (tk_state tk) (sent_intent en bt tk)"
    using True assms(2) guard_within by (simp add: tick_guard_def sent_intent_def)
  show ?thesis
    unfolding tick_guarded_def put_state_def using True
  proof (simp, intro triple_bind)
    show "triple (\<lambda>t. limited en v j T t \<and> fresh en v (tk_now tk) (tk_state tk) t)
      (perform (PutState (state_with_pending en bt tk)) (sm_putState en (state_with_pending en bt tk)))
      (\<lambda>r t. limited en v j T t \<and> (r = Inr () \<longrightarrow> order_ok en v T t (sent_intent en bt tk)))"
      using w assms(1) by (intro triple_perform) (auto simp: limited_snoc order_ok_def)
  qed (auto intro!: triple_ret)
next
  case False
  show ?thesis
    unfolding tick_guarded_def write_risk_def Let_def using False
    by (simp, intro triple_bind [where R = "\<lambda>r. limited en v j T"] triple_perform triple_ret) (auto simp: limited_snoc)
qed

lemma run_intent_limited:
  assumes "(bt, tk_now tk) \<in> T" "st_common (tk_settings tk) = tick_limits bt"
  shows "triple (\<lambda>t. limited en v j T t \<and> fresh en v (tk_now tk) (tk_state tk) t) (run_intent en bt tk) (\<lambda>r. limited en v j T)"
proof -
  let ?P = "\<lambda>t. limited en v j T t \<and> fresh en v (tk_now tk) (tk_state tk) t" and ?L = "limited en v j T"
  have k: "triple ?L m (\<lambda>r. ?L)" if "sends_only (\<lambda>i. False) m" for m :: "'a sim_act"
    using keeps_quiet [OF that] by (simp add: keeps_def)
  have quiet: "triple ?P m (\<lambda>r. ?L)" if "sends_only (\<lambda>i. False) m" for m :: "'a sim_act"
    by (rule triple_conseq [OF k [OF that]]) simp_all
  have execute: "triple (\<lambda>t. ?L t \<and> order_ok en v T t (sent_intent en bt tk)) (run_execute (tick_pipeline en bt tk) q) (\<lambda>r. ?L)" for q
    unfolding tick_run_execute
  proof (rule triple_bind [OF triple_bind])
    show "triple (\<lambda>t. ?L t \<and> order_ok en v T t (sent_intent en bt tk))
        (perform (RunEngine (sent_intent en bt tk)) (sm_runEngine en (sent_intent en bt tk))) (\<lambda>r. ?L)"
      by (rule triple_perform) (simp add: limited_snoc)
  qed (auto intro!: k sends_rules)
  have pipeline: "triple ?P (executeSharedExecutionPipeline (tick_pipeline en bt tk)) (\<lambda>r. ?L)"
    unfolding tick_pipeline_run
  proof (cases "validateSharedExecutionVenue (tick_request en bt tk)")
    case None
    have catched: "triple (\<lambda>t. ?L t \<and> order_ok en v T t (sent_intent en bt tk))
        (catch (run_execute (tick_pipeline en bt tk) q) (\<lambda>e. ret (failed_response q e))) (\<lambda>r. ?L)" for q
      by (rule triple_catch [OF execute]) (auto intro!: k sends_rules)
    have "triple (\<lambda>t. ?L t \<and> (\<forall>q'. Inr x = (Inr (GuardAllow, q') :: js_error + guard_result \<times> shared_request) \<longrightarrow> order_ok en v T t (sent_intent en bt tk)))
        (case x of (g, q) \<Rightarrow> (case g of GuardBlock reason status meta \<Rightarrow> ret (refused_response q reason status meta)
          | GuardAllow \<Rightarrow> catch (run_execute (tick_pipeline en bt tk) q) (\<lambda>e. ret (failed_response q e)))) (\<lambda>r. ?L)" for x
      by (cases x; cases "fst x") (auto intro!: triple_ret triple_conseq [OF catched])
    then show "triple ?P (case validateSharedExecutionVenue (tick_request en bt tk) of Some resp \<Rightarrow> ret resp
      | None \<Rightarrow> bind (tick_guarded en bt tk (tick_request en bt tk)) (\<lambda>(g, q). case g of
            GuardBlock reason status meta \<Rightarrow> ret (refused_response q reason status meta)
          | GuardAllow \<Rightarrow> catch (run_execute (tick_pipeline en bt tk) q) (\<lambda>e. ret (failed_response q e)))) (\<lambda>r. ?L)"
      unfolding None option.case by (rule triple_bind [OF guarded_announces [OF assms]]) auto
  qed (auto intro: quiet sends_rules)
  have "triple ?P (bind (executeSharedExecutionPipeline (tick_pipeline en bt tk)) (after_pipeline en bt tk)) (\<lambda>r. ?L)"
    by (rule triple_bind [OF pipeline]) (auto intro!: k sends_rules)
  then show ?thesis
    unfolding run_intent_def Let_def by (auto split: bool.split engine_choice.split intro!: quiet sends_rules)
qed

lemma with_state_limited:
  assumes "(bt, tk_now tk) \<in> T" "st_common (tk_settings tk) = tick_limits bt"
  shows "triple (\<lambda>t. limited en v j T t \<and> fresh en v (tk_now tk) (tk_state tk) t) (with_state en bt tk) (\<lambda>r. limited en v j T)"
proof -
  let ?P = "\<lambda>t. limited en v j T t \<and> fresh en v (tk_now tk) (tk_state tk) t" and ?L = "limited en v j T"
  have k: "triple ?L m (\<lambda>r. ?L)" if "sends_only (\<lambda>i. False) m" for m :: "'a sim_act"
    using keeps_quiet [OF that] by (simp add: keeps_def)
  have quiet: "triple ?P m (\<lambda>r. ?L)" if "sends_only (\<lambda>i. False) m" for m :: "'a sim_act"
    by (rule triple_conseq [OF k [OF that]]) simp_all
  have put: "triple ?L (put_state en s) (\<lambda>r t. ?L t \<and> (r = Inr () \<longrightarrow> fresh en v (tk_now tk) s t))" for s
    unfolding put_state_def by (rule triple_perform) (simp add: limited_snoc fresh_def)
  have run: "triple (\<lambda>t. ?L t \<and> fresh en v (tk_now tk) s t) (run_intent en bt (tk\<lparr> tk_state := s \<rparr>)) (\<lambda>r. ?L)" for s
    using run_intent_limited [of bt "tk\<lparr> tk_state := s \<rparr>"] assms by simp
  have resumed: "triple ?L (bind (put_state en s) (\<lambda>_. if u then ret x else run_intent en bt (tk\<lparr> tk_state := s \<rparr>))) (\<lambda>r. ?L)" for s u x
  proof (rule triple_bind [OF put])
    show "triple (\<lambda>t. ?L t \<and> (Inr y = (Inr () :: js_error + unit) \<longrightarrow> fresh en v (tk_now tk) s t))
        (if u then ret x else run_intent en bt (tk\<lparr> tk_state := s \<rparr>)) (\<lambda>r. ?L)" for y
      by (intro triple_if triple_ret triple_conseq [OF run]) auto
  qed simp
  have built: "triple ?P (bind (reconcilePendingOrders en (st_common (tk_settings tk)) (tk_now tk) (tk_state tk)) (\<lambda>(s, n, u).
      bind (put_state en s) (\<lambda>_. if u \<noteq> [] then ret (f n u) else run_intent en bt (tk\<lparr> tk_state := s \<rparr>)))) (\<lambda>r. ?L)" for f
  proof (rule triple_bind [OF quiet [OF sends_reconcile]], goal_cases)
    case (1 x)
    then show ?case unfolding case_prod_unfold by (rule resumed)
  qed simp
  have "triple ?P (bind (put_state en s) (\<lambda>_. ret x)) (\<lambda>r. ?L)" for s and x :: execution_result
    by (intro quiet sends_rules)
  then show ?thesis
    unfolding with_state_def Let_def using run_intent_limited [OF assms, of en v j] built by (auto intro!: triple_if)
qed

lemma simple_limited:
  assumes "db_ok en v" "(bt, now) \<in> T"
  shows "keeps en v j T (simple_execute en sg bt now)"
proof -
  let ?L = "limited en v j T"
  have k: "triple ?L m (\<lambda>r. ?L)" if "sends_only (\<lambda>i. False) m" for m :: "'a sim_act"
    using keeps_quiet [OF that] by (simp add: keeps_def)
  have read: "triple ?L (get_state en now) (\<lambda>r t. ?L t \<and> (\<forall>s. r = Inr s \<longrightarrow> fresh en v now s t))"
    unfolding get_state_def
  proof (rule triple_bind [where R = "\<lambda>r t. ?L t \<and> (\<forall>w. r = Inr w \<longrightarrow> w = stored en v t)"])
    show "triple ?L (perform GetState (sm_getState en)) (\<lambda>r t. ?L t \<and> (\<forall>w. r = Inr w \<longrightarrow> w = stored en v t))"
      using assms(1) by (intro triple_perform) (auto simp: db_ok_def limited_snoc)
  qed (auto intro!: triple_ret simp: fresh_def)
  have st: "triple (\<lambda>t. ?L t \<and> (\<forall>s'. Inr s = (Inr s' :: js_error + mode_state) \<longrightarrow> fresh en v now s' t)) (with_state en bt (mk s)) (\<lambda>r. ?L)"
    if "\<And>s. tk_state (mk s) = s \<and> tk_now (mk s) = now \<and> st_common (tk_settings (mk s)) = tick_limits bt" for s mk
    using with_state_limited [of bt "mk s" T en v j] that [of s] assms(2) by (auto intro: triple_conseq)
  have rest: "triple ?L (bind (get_state en now) (\<lambda>s. with_state en bt (mk s))) (\<lambda>r. ?L)"
    if "\<And>s. tk_state (mk s) = s \<and> tk_now (mk s) = now \<and> st_common (tk_settings (mk s)) = tick_limits bt" for mk
    by (rule triple_bind [OF read st [OF that]]) simp
  have ext: "triple ?L (perform (ApplyExtensions i) f) (\<lambda>r. ?L)"
    for i and f :: "sim_call list \<Rightarrow> js_error + trade_intent \<times> string list \<times> diagnostic list"
    by (rule triple_perform) (simp add: limited_snoc)
  show ?thesis
    unfolding keeps_def simple_execute_def Let_def
  proof (rule triple_bind [OF ext], goal_cases)
    case (1 x)
    obtain i ids ds where x: "x = (i, ids, ds)" by (cases x) auto
    show ?case unfolding x prod.case
      by (rule triple_bind [OF k [OF sends_risk(2)]], rule rest) (simp_all add: tick_limits_def)
  qed simp
qed

lemma custom_limited: "db_ok en v \<Longrightarrow> (bt, now) \<in> T \<Longrightarrow> keeps en v j T (runSimpleExecutionWithCustomIntent en sg i bt now)"
  by (simp add: runSimpleExecutionWithCustomIntent_def simple_limited)

lemma dca_limited: "db_ok en v \<Longrightarrow> (bt, now) \<in> T \<Longrightarrow> keeps en v j T (dca_execute pow en sg bt now)"
  unfolding dca_execute_def Let_def
  by (auto split: trade_intent.split option.split intro!: keeps_rules simple_limited custom_limited)

lemma grid_limited: "db_ok en v \<Longrightarrow> (bt, now) \<in> T \<Longrightarrow> keeps en v j T (grid_execute en sg bt now)"
  unfolding grid_execute_def Let_def
  by (auto split: trade_intent.split option.split intro!: keeps_rules simple_limited custom_limited)

lemma dip_limited: "db_ok en v \<Longrightarrow> (bt, now) \<in> T \<Longrightarrow> keeps en v j T (dip_execute en sg bt now)"
  unfolding dip_execute_def Let_def
  by (auto split: trade_intent.split option.split prod.split intro!: keeps_rules simple_limited custom_limited)

lemma limited_key [simp]: "limited (en\<lparr> sm_key := k \<rparr>) v j T t = limited en v j T t"
  by (simp add: limited_def order_ok_def fresh_def)

lemma mode_execute_limited:
  assumes "db_ok en v" "(bt, now) \<in> T" "limited en v j T t"
  shows "limited en v j T (snd (mode_execute pow en m sg bt now t))"
proof -
  have k: "limited en v j T (snd (m t))" if "keeps (en\<lparr> sm_key := k \<rparr>) v j T m" for k and m :: "execution_result sim_act"
    using that assms(3) by (simp add: keeps_def triple_def)
  have db: "db_ok (en\<lparr> sm_key := k \<rparr>) v" for k by (simp add: assms(1))
  show ?thesis
    using k [OF simple_limited [OF db assms(2)]] k [OF dca_limited [OF db assms(2)]]
      k [OF grid_limited [OF db assms(2)]] k [OF dip_limited [OF db assms(2)]]
    by (cases m) (simp_all add: mode_execute_def)
qed

text \<open>C29: In a tick of any of the modes, whatever calls, ticks and modes came before and whatever the venue, engine, plugins
  and signal do, every order handed to the engine is announced by the write right before, and the state the database
  held before that write is within the limits the bot has at that tick: fewer executions are counted for the day than
  the daily limit, the cooldown is over, and, when the order opens a position, the number of symbols open with it
  is at most the limit of open positions and its estimated notional exceeds neither the limit of the symbol nor
  the total one.\<close>

theorem modes_within_limits:
  assumes "db_ok en v" "mode_execute pow en m sg bt now t = (r, t')"
    and "length t \<le> n" "n < length t'" "t' ! n = RunEngine i"
  shows "\<exists>s s'. 0 < n \<and> t' ! (n - 1) = PutState s' \<and>
    (s = normalizeExecutionModeState (stored en v (take (n - 1) t')) now \<or> stored en v (take (n - 1) t') = state_json s) \<and>
    (let c = st_common (readExecutionSettings (bt_strategyKey bt) (bt_paramsJson bt))
     in today_count now s < ec_maxDailyExecutions c \<and>
        (\<forall>e. in_span e \<longrightarrow> ms_cooldownUntil s = Some (toISOString e) \<longrightarrow> e \<le> now) \<and>
        (\<forall>x side od. i = OpenIntent x side od \<longrightarrow> projected s x \<le> ec_maxOpenPositions c \<and>
           (\<forall>e l. estimateIntentNotionalUsd i = Some e \<longrightarrow>
              ec_maxNotionalPerSymbolUsd c = Some l \<or> ec_maxTotalNotionalUsd c = Some l \<longrightarrow> \<not> n_lt l e)))"
proof -
  have "limited en v (length t) {(bt, now)} t'"
    using mode_execute_limited [OF assms(1) singletonI limited_start [OF order_refl], where pow = pow and m = m and sg = sg] assms(2)
    by (metis snd_conv)
  then have "order_ok en v {(bt, now)} (take n t') i" using assms(3-5) by (simp add: limited_def)
  then obtain u s' s where o: "take n t' = u @ [PutState s']" "fresh en v now s u" "within_limits (tick_limits bt) now s i"
    by (auto simp: order_ok_def)
  have n: "n = Suc (length u)" using arg_cong [OF o(1), of length] assms(4) by simp
  moreover have "u = take (n - 1) t'" using arg_cong [OF o(1), of "take (length u)"] n by simp
  moreover have "t' ! (n - 1) = PutState s'" using arg_cong [OF o(1), of "\<lambda>l. l ! length u"] n by simp
  ultimately show ?thesis
    using o(2,3) unfolding fresh_def within_limits_def tick_limits_def Let_def by (intro exI [of _ s] exI [of _ s']) simp
qed

text \<open>A tick of the simple mode that sends a market order.\<close>

theorem modes_within_limits_witness:
  "\<exists>r t' n i s. mode_execute no_power sample_en ModeSimple (withLegacyIntent (sample_sg NoIntent) sample_open) sample_bot sample_now [] = (r, t') \<and>
     n < length t' \<and> t' ! n = RunEngine i \<and> 0 < n \<and> today_count sample_now s < 200"
proof -
  have o: "sample_en\<lparr> sm_key := ''simple'' \<rparr> = sample_en" by (simp add: sample_en_def sample_env_def)
  have "passes (shaped sample_settings sample_open)"
    unfolding sample_open_def by (rule plain_passes) (simp_all add: sample_params_def no_params_def)
  from sample_run [OF this, of filled_later "[]" NoIntent] obtain x u j where
    u: "simple_execute sample_en (withLegacyIntent (sample_sg NoIntent) sample_open) sample_bot sample_now [] = (Inr x, u)" "RunEngine j \<in> set u"
    by (auto simp: sample_en_def)
  then have m: "mode_execute no_power sample_en ModeSimple (withLegacyIntent (sample_sg NoIntent) sample_open) sample_bot sample_now [] = (Inr x, u)"
    by (simp add: mode_execute_def o)
  obtain n where n: "n < length u" "u ! n = RunEngine j" using u(2) by (auto simp: in_set_conv_nth)
  from modes_within_limits [OF sample_en_facts(2) m _ n] obtain s where "0 < n" "today_count sample_now s < ec_maxDailyExecutions (st_common sample_settings)"
    by (auto simp: Let_def sample_settings_def)
  then show ?thesis using m n by (auto simp: sample_default DEFAULT_EXECUTION_SETTINGS_def)
qed

end
