(* ===== verification/ModeTally.thy ===== *)
theory ModeTally
  imports ModeLimits
begin

text \<open>
  The guardrails over time: in the modes simple, dollar cost averaging and grid, with an engine built for the bot, every execution
  a tick reports is counted and starts the cooldown, so the ticks of a day that execute are limited and apart.
\<close>

section \<open>What a state has counted\<close>

text \<open>At least \<open>K\<close> executions are counted for the day, and nothing is sent before \<open>E\<close>.\<close>

definition waits :: "int \<Rightarrow> int \<Rightarrow> mode_state \<Rightarrow> bool" where
  "waits E now s \<longleftrightarrow> E \<le> now \<or> (\<exists>e\<ge>E. in_span e \<and> ms_cooldownUntil s = Some (toISOString e))"

definition tallied :: "int \<Rightarrow> int \<Rightarrow> int \<Rightarrow> mode_state \<Rightarrow> bool" where
  "tallied K E now s \<longleftrightarrow> K \<le> today_count now s \<and> waits E now s"

definition holds_tally :: "sim_env \<Rightarrow> jsval \<Rightarrow> int \<Rightarrow> int \<Rightarrow> int \<Rightarrow> sim_call list \<Rightarrow> bool" where
  "holds_tally en v K E now t \<longleftrightarrow> tallied K E now (normalizeExecutionModeState (stored en v t) now)"

lemma tallied_same:
  assumes "tallied K E now s" "ms_dailyExecutionDate s' = ms_dailyExecutionDate s"
    "ms_dailyExecutionCount s' = ms_dailyExecutionCount s" "ms_cooldownUntil s' = ms_cooldownUntil s"
  shows "tallied K E now s'"
  using assms by (simp add: tallied_def today_count_def waits_def split: if_splits)

lemma tallied_ensure [simp]: "tallied K E now (ensureDailyState s now) = tallied K E now s"
  by (auto simp: tallied_def today_count_def waits_def)

lemma normalized_date [simp]:
  "0 \<le> today_count now (normalizeExecutionModeState v now)"
  by (simp add: today_count_def normalizeExecutionModeState_def Let_def bounded_int)

lemma count_stored:
  assumes "K \<le> today_count now s" "K \<le> 100000"
  shows "K \<le> today_count now (normalizeExecutionModeState (state_json s) now)"
proof (cases "ms_dailyExecutionDate s = toUtcDate now")
  case True
  then show ?thesis
    using assms by (simp add: today_count_def normalizeExecutionModeState_def state_json_def Let_def opt_get_def bounded_int_def toInt_def int_val_def)
next
  case False
  then have "K \<le> 0" using assms(1) by (simp add: today_count_def)
  then show ?thesis using normalized_date order_trans by blast
qed

lemma tallied_stored:
  assumes "tallied K E now s" "K \<le> 100000"
  shows "tallied K E now (normalizeExecutionModeState (state_json s) now)"
proof -
  have "ms_cooldownUntil (normalizeExecutionModeState (state_json s) now) = text_of (opt_val (ms_cooldownUntil s))"
    by (simp add: normalizeExecutionModeState_def state_json_def Let_def opt_get_def)
  moreover have "opt_ok text_ok (Some (toISOString e))" for e by (simp add: opt_ok_def)
  ultimately have "waits E now (normalizeExecutionModeState (state_json s) now)"
    using assms(1) by (auto simp: tallied_def waits_def)
  then show ?thesis using assms count_stored by (simp add: tallied_def)
qed

lemma guard_tally:
  assumes "ga_allow (evaluateExecutionGuardrails other i c s now)" "tallied K E now s"
  shows "K < ec_maxDailyExecutions c \<and> E \<le> now"
proof -
  note g = guard_allows [OF assms(1)]
  have "E \<le> now" using assms(2) cooldown_over [OF g(1)] by (fastforce simp: tallied_def waits_def)
  then show ?thesis using g(3) assms(2) by (simp add: tallied_def today_count_def)
qed

lemma success_tally:
  assumes "tallied K E now s" "E \<le> now + wait_ms c" "0 \<le> wait_ms c" "in_span (now + wait_ms c)"
  shows "tallied (K + 1) (now + wait_ms c) now (applyExecutionSuccessToState i c s now) \<and>
    tallied K E now (applyExecutionSuccessToState i c s now)"
  using assms
  by (auto simp: tallied_def today_count_def waits_def applyExecutionSuccessToState_def wait_ms_def Let_def)


subsection \<open>Reconciliation\<close>

definition next_allowed :: "common_config \<Rightarrow> int \<Rightarrow> int \<Rightarrow> bool" where
  "next_allowed c E now \<longleftrightarrow> E \<le> now + wait_ms c \<and> 0 \<le> wait_ms c \<and> in_span (now + wait_ms c)"

lemma reconcile_one_tally:
  assumes "tallied K E now (fst sn)" "next_allowed c E now"
  shows "tallied K E now (fst (reconcile_one ps c now p sn)) \<and>
    (confirmed_by ps p \<longrightarrow> tallied (K + 1) (now + wait_ms c) now (fst (reconcile_one ps c now p sn)))"
proof -
  obtain s n where sn: "sn = (s, n)" by fastforce
  have k: "tallied K E now (s\<lparr> ms_pendingOrders := x \<rparr>)" for x
    by (rule tallied_same [of K E now s]) (use assms(1) sn in simp_all)
  show ?thesis
    using success_tally [OF k] k assms(2) by (auto simp: reconcile_one_def sn next_allowed_def)
qed

lemma reconcile_fold_tally:
  "tallied K E now (fst sn) \<Longrightarrow> next_allowed c E now \<Longrightarrow>
   tallied K E now (fst (fold (reconcile_one ps c now) L sn)) \<and>
   ((\<exists>p\<in>set L. confirmed_by ps p) \<longrightarrow> tallied (K + 1) (now + wait_ms c) now (fst (fold (reconcile_one ps c now) L sn)))"
proof (induction L arbitrary: K E sn)
  case (Cons p L)
  note o' = reconcile_one_tally [OF Cons.prems, of ps p]
  have "next_allowed c (now + wait_ms c) now" using Cons.prems(2) by (simp add: next_allowed_def)
  then show ?case
    using Cons.IH [of K E "reconcile_one ps c now p sn"] Cons.IH [of "K + 1" "now + wait_ms c" "reconcile_one ps c now p sn"] o' Cons.prems(2)
    by auto
qed simp

lemma unconfirmed_stay:
  "\<forall>p\<in>set L. \<not> confirmed_by ps p \<Longrightarrow>
   fst ` set (ms_pendingOrders (fst sn)) \<subseteq> fst ` set (ms_pendingOrders (fst (fold (reconcile_one ps c now) L sn)))"
proof (induction L arbitrary: sn)
  case (Cons p L)
  have "fst ` set (ms_pendingOrders (fst sn)) \<subseteq> fst ` set (ms_pendingOrders (fst (reconcile_one ps c now p sn)))"
    using Cons.prems by (auto simp: reconcile_one_def split: prod.split)
  then show ?case using Cons.IH [of "reconcile_one ps c now p sn"] Cons.prems by auto
qed simp

text \<open>An order that is gone after a reconciliation was counted by it.\<close>

lemma reconciled_tally:
  assumes "reconciled ps c now s = (s', n)" "tallied K E now s" "next_allowed c E now"
  shows "tallied K E now s' \<and>
    (cid \<in> set (ids s) \<longrightarrow> map_of (ms_pendingOrders s') cid = None \<longrightarrow> tallied (K + 1) (now + wait_ms c) now s')"
proof -
  let ?L = "listUnresolvedPendingOrders s"
  obtain s1 n1 where f: "fold (reconcile_one ps c now) ?L (s, 0) = (s1, n1)" by fastforce
  then have s': "s' = s1\<lparr> ms_lastReconciliationAt := Some (toISOString now), ms_updatedAt := toISOString now \<rparr>"
    using assms(1) by (auto simp: reconciled_def)
  have same: "tallied k e now s1 \<Longrightarrow> tallied k e now s'" for k e
    by (rule tallied_same [of k e now s1]) (simp_all add: s')
  have t: "tallied K E now s1" "(\<exists>p\<in>set ?L. confirmed_by ps p) \<longrightarrow> tallied (K + 1) (now + wait_ms c) now s1"
    using reconcile_fold_tally [of K E now "(s, 0)" c ps ?L] assms(2,3) f by simp_all
  have "\<exists>p\<in>set ?L. confirmed_by ps p" if "cid \<in> set (ids s)" "map_of (ms_pendingOrders s') cid = None"
  proof (rule ccontr)
    assume "\<not> ?thesis"
    then have "fst ` set (ms_pendingOrders s) \<subseteq> fst ` set (ms_pendingOrders s1)"
      using unconfirmed_stay [of ?L ps "(s, 0)" c now] f by simp
    moreover have "cid \<in> fst ` set (ms_pendingOrders s)" using that(1) by (auto simp: ids_def)
    ultimately show False using that(2) by (auto simp: s' map_of_eq_None_iff)
  qed
  then show ?thesis using t same by blast
qed

section \<open>What a tick keeps\<close>

abbreviation tally_kept :: "sim_env \<Rightarrow> jsval \<Rightarrow> int \<Rightarrow> int \<Rightarrow> int \<Rightarrow> 'a sim_act \<Rightarrow> bool" where
  "tally_kept en v K E now m \<equiv> triple (holds_tally en v K E now) m (\<lambda>r. holds_tally en v K E now)"

lemma tally_quiet [simp]:
  "holds_tally en v K E now (t @ [GetState]) = holds_tally en v K E now t"
  "holds_tally en v K E now (t @ [GetPositions]) = holds_tally en v K E now t"
  "holds_tally en v K E now (t @ [RunEngine i]) = holds_tally en v K E now t"
  "holds_tally en v K E now (t @ [WriteRisk d]) = holds_tally en v K E now t"
  "holds_tally en v K E now (t @ [ApplyExtensions i]) = holds_tally en v K E now t"
  by (simp_all add: holds_tally_def)

named_theorems tally_rules

lemma tally_ret [tally_rules]: "tally_kept en v K E now (ret x)"
  by (rule triple_ret)

lemma tally_risks [tally_rules]: "tally_kept en v K E now (write_risk en d)" "tally_kept en v K E now (write_risks en ds)"
proof -
  show k: "tally_kept en v K E now (write_risk en d)" for d unfolding write_risk_def by (rule triple_perform) simp
  show "tally_kept en v K E now (write_risks en ds)" by (induction ds) (auto intro: tally_ret triple_bind [OF k])
qed

lemma tally_put [tally_rules]:
  assumes "tallied K E now s" "K \<le> 100000"
  shows "tally_kept en v K E now (put_state en s)"
  unfolding put_state_def using tallied_stored [OF assms] by (intro triple_perform) (simp add: holds_tally_def)

lemma tally_put_up:
  assumes "tallied K E now s" "tallied (K + 1) E' now s" "K < 100000"
  shows "triple (holds_tally en v K E now) (put_state en s) (\<lambda>r t. holds_tally en v K E now t \<and>
    (r = Inr () \<longrightarrow> holds_tally en v (K + 1) E' now t))"
  unfolding put_state_def using tallied_stored [OF assms(1)] tallied_stored [OF assms(2)] assms(3)
  by (intro triple_perform) (simp add: holds_tally_def)

lemma tally_get:
  assumes "db_ok en v"
  shows "triple (holds_tally en v K E now) (get_state en now)
    (\<lambda>r t. holds_tally en v K E now t \<and> (\<forall>s. r = Inr s \<longrightarrow> tallied K E now s))"
  unfolding get_state_def
proof (rule triple_bind [where R = "\<lambda>r t. holds_tally en v K E now t \<and> (\<forall>w. r = Inr w \<longrightarrow> w = stored en v t)"])
  show "triple (holds_tally en v K E now) (perform GetState (sm_getState en))
      (\<lambda>r t. holds_tally en v K E now t \<and> (\<forall>w. r = Inr w \<longrightarrow> w = stored en v t))"
    using assms by (intro triple_perform) (auto simp: db_ok_def)
qed (auto intro!: triple_ret simp: holds_tally_def)

text \<open>What is done with a state that was read.\<close>

lemma tally_read:
  assumes "db_ok en v" "\<And>s. tallied K E now s \<Longrightarrow> triple (holds_tally en v K E now) (k s) Q" "\<And>e t. holds_tally en v K E now t \<Longrightarrow> Q (Inl e) t"
  shows "triple (holds_tally en v K E now) (bind (get_state en now) k) Q"
proof (rule triple_bind [OF tally_get [OF assms(1)]])
  fix s
  show "triple (\<lambda>t. holds_tally en v K E now t \<and> (\<forall>s'. Inr s = (Inr s' :: js_error + mode_state) \<longrightarrow> tallied K E now s')) (k s) Q"
    using assms(2) [of s] by (cases "tallied K E now s") (auto simp: triple_def)
qed (use assms(3) in simp)

lemma tally_reconcile:
  assumes "tallied K E now s" "next_allowed c E now"
  shows "triple (holds_tally en v K E now) (reconcilePendingOrders en c now s)
    (\<lambda>r t. holds_tally en v K E now t \<and> (\<forall>s' n u. r = Inr (s', n, u) \<longrightarrow> tallied K E now s' \<and>
       (\<forall>cid\<in>set (ids s). map_of (ms_pendingOrders s') cid = None \<longrightarrow> tallied (K + 1) (now + wait_ms c) now s')))"
  unfolding reconcilePendingOrders_def
proof (rule triple_bind [where R = "\<lambda>r. holds_tally en v K E now"])
  show "triple (holds_tally en v K E now) (perform GetPositions (sm_getPositions en)) (\<lambda>r. holds_tally en v K E now)"
    by (rule triple_perform) simp
  fix ps
  obtain s' n where "reconciled ps c now s = (s', n)" by fastforce
  with reconciled_tally [OF this assms]
  show "triple (holds_tally en v K E now) (case reconciled ps c now s of (s', n) \<Rightarrow> ret (s', n, listUnresolvedPendingOrders s'))
    (\<lambda>r t. holds_tally en v K E now t \<and> (\<forall>s' n u. r = Inr (s', n, u) \<longrightarrow> tallied K E now s' \<and>
       (\<forall>cid\<in>set (ids s). map_of (ms_pendingOrders s') cid = None \<longrightarrow> tallied (K + 1) (now + wait_ms c) now s')))"
    by (auto intro!: triple_ret)
qed simp

subsection \<open>The states a tick writes\<close>

lemma tallied_cong:
  "ms_dailyExecutionDate s' = ms_dailyExecutionDate s \<and> ms_dailyExecutionCount s' = ms_dailyExecutionCount s \<and>
    ms_cooldownUntil s' = ms_cooldownUntil s \<Longrightarrow> tallied K E now s' = tallied K E now s"
  by (simp add: tallied_def today_count_def waits_def)

lemma tallied_written [simp]:
  "tallied K E now (submitted_state en bt tk resp s) = tallied K E now s"
  "tallied K E now (not_executed_state en bt tk resp s) = tallied K E now s"
  "tallied K E now (error_state en bt tk reason s) = tallied K E now s"
  "tallied K E now (blocked_state s reason hint now') = tallied K E now s"
  by (rule tallied_cong, simp add: submitted_state_def not_executed_state_def error_state_def blocked_state_def
      set_pending_def drop_pending_def Let_def)+

lemma tallied_announced [simp]:
  "tallied K E (tk_now tk) (state_with_pending en bt tk) = tallied K E (tk_now tk) (tk_state tk)"
proof -
  have "tallied K E now (case nextClientOrderId b k s i f of (cid, s', sq) \<Rightarrow> s'\<lparr> ms_pendingOrders := g cid s', ms_updatedAt := u \<rparr>) =
      tallied K E now s" for now b k s i f g u
    by (simp add: nextClientOrderId_def Let_def tallied_def today_count_def waits_def)
  moreover have "state_with_pending en bt tk = (case nextClientOrderId (bt_id bt) (sm_key en) (ga_state (tick_guard en tk)) (tk_intent tk) (bt_symbol bt)
      of (cid, s', sq) \<Rightarrow> s'\<lparr> ms_pendingOrders := put cid (tick_pending en bt tk) (ms_pendingOrders s'), ms_updatedAt := toISOString (tk_now tk) \<rparr>)"
    by (simp add: state_with_pending_def tick_order_def)
  ultimately show ?thesis by (simp add: tick_guard_def)
qed

lemma put_in_set: "(k, p) \<in> set (put k p kvs)"
  by (induction k p kvs rule: put.induct) auto

lemma submitted_in_flight: "tick_cid en bt tk \<in> set (ids (submitted_state en bt tk resp s))"
proof -
  have "submitted_state en bt tk resp s = set_pending (tick_cid en bt tk)
      (awaiting (latest_pending en bt tk s) Submitted (first_id (sp_orderIds resp) (po_exchangeOrderId (latest_pending en bt tk s))) (tk_now tk)
        ''accepted'' ''reconcile_fill_or_position'') s"
    by (simp add: submitted_state_def Let_def)
  moreover have "k \<in> set (ids (set_pending k (awaiting p Submitted e n r h) s))" for k p e n r h
  proof -
    have "(k, awaiting p Submitted e n r h) \<in> set (filter unresolved_order (put k (awaiting p Submitted e n r h) (ms_pendingOrders s)))"
      using put_in_set by (simp add: unresolved_order_def awaiting_def)
    then show ?thesis by (simp add: ids_def set_pending_def del: set_filter) (metis fst_conv image_eqI)
  qed
  ultimately show ?thesis by simp
qed

subsection \<open>From the engine to the end of a tick\<close>

text \<open>An executed response or result was permitted, and leaves one more execution counted and the cooldown started.\<close>

definition permitted :: "common_config \<Rightarrow> int \<Rightarrow> int \<Rightarrow> int \<Rightarrow> bool" where
  "permitted c K E now \<longleftrightarrow> K + 1 \<le> ec_maxDailyExecutions c \<and> E \<le> now"

definition counted :: "sim_env \<Rightarrow> jsval \<Rightarrow> int \<Rightarrow> int \<Rightarrow> int \<Rightarrow> common_config \<Rightarrow> bool \<Rightarrow> sim_call list \<Rightarrow> bool" where
  "counted en v K E now c ex t \<longleftrightarrow>
     (ex \<longrightarrow> permitted c K E now \<and> holds_tally en v (K + 1) (now + wait_ms c) now t)"

lemma counted_False [simp]: "counted en v K E now c False t"
  by (simp add: counted_def)

definition executed :: "js_error + execution_result \<Rightarrow> bool" where
  "executed r \<longleftrightarrow> (case r of Inr x \<Rightarrow> xr_status x = RsExecuted | Inl e \<Rightarrow> False)"

lemma executed_simps [simp]: "\<not> executed (Inl e)" "executed (Inr x) \<longleftrightarrow> xr_status x = RsExecuted"
  by (simp_all add: executed_def)

definition response_executed :: "js_error + shared_response \<Rightarrow> bool" where
  "response_executed r \<longleftrightarrow> (\<exists>x. r = Inr x \<and> sp_status x = StExecuted)"

lemma response_executed_simps [simp]: "\<not> response_executed (Inl e)" "response_executed (Inr x) \<longleftrightarrow> sp_status x = StExecuted"
  by (simp_all add: response_executed_def)

text \<open>What the result hook promises of a response it gives back, and its last write after a reconciliation.\<close>

definition answered :: "sim_env \<Rightarrow> jsval \<Rightarrow> int \<Rightarrow> int \<Rightarrow> tick \<Rightarrow> js_error + shared_response option \<Rightarrow> sim_call list \<Rightarrow> bool" where
  "answered en v K E tk r t \<longleftrightarrow> holds_tally en v K E (tk_now tk) t \<and> (\<forall>o'. r = Inr o' \<longrightarrow> (\<exists>x. o' = Some x \<and>
     counted en v K E (tk_now tk) (st_common (tk_settings tk)) (sp_status x = StExecuted) t))"

lemma answered_simps [simp]:
  "answered en v K E tk (Inl e) t = holds_tally en v K E (tk_now tk) t"
  "answered en v K E tk (Inr (Some x)) t = (holds_tally en v K E (tk_now tk) t \<and>
     counted en v K E (tk_now tk) (st_common (tk_settings tk)) (sp_status x = StExecuted) t)"
  by (simp_all add: answered_def)

lemma answer_unexecuted:
  assumes "tallied K E (tk_now tk) s" "K \<le> 100000" "sp_status x \<noteq> StExecuted"
  shows "triple (holds_tally en v K E (tk_now tk)) (bind (put_state en s) (\<lambda>_. ret (Some x))) (answered en v K E tk)"
  by (rule triple_bind [OF tally_put [OF assms(1,2)]]) (use assms(3) in \<open>auto intro!: triple_ret\<close>)

lemma answer_after_reconcile:
  assumes "tallied K E (tk_now tk) s" "permitted (st_common (tk_settings tk)) K E (tk_now tk)" "K < 100000" "sp_status y \<noteq> StExecuted"
    and "map_of (ms_pendingOrders s) cid = None \<Longrightarrow> tallied (K + 1) (tk_now tk + wait_ms (st_common (tk_settings tk))) (tk_now tk) s"
  shows "triple (holds_tally en v K E (tk_now tk))
    (bind (put_state en s) (\<lambda>_. if map_of (ms_pendingOrders s) cid = None then ret (Some x) else ret (Some y))) (answered en v K E tk)"
proof (cases "map_of (ms_pendingOrders s) cid = None")
  case True
  have "triple (holds_tally en v K E (tk_now tk)) (bind (put_state en s) (\<lambda>_. ret (Some x))) (answered en v K E tk)"
    by (rule triple_bind [OF tally_put_up [OF assms(1) assms(5) [OF True] assms(3)]]) (use assms(2) in \<open>auto intro!: triple_ret simp: counted_def\<close>)
  then show ?thesis by (simp only: True if_True refl)
next
  case False
  have "K \<le> 100000" using assms(3) by simp
  then show ?thesis
    unfolding if_not_P [OF False] by (intro answer_unexecuted assms(1,4))
qed

lemma on_result_tally:
  assumes "db_ok en v" "sm_engine en = BuiltEngine" "next_allowed (st_common (tk_settings tk)) E (tk_now tk)"
    and "permitted (st_common (tk_settings tk)) K E (tk_now tk)" "K < 100000"
  shows "triple (holds_tally en v K E (tk_now tk)) (tick_on_result en bt tk resp q) (answered en v K E tk)"
  unfolding tick_on_result_def
proof (rule tally_read [OF assms(1)], goal_cases)
  case (1 latest)
  let ?c = "st_common (tk_settings tk)" and ?s = "submitted_state en bt tk resp latest" and ?H = "holds_tally en v K E (tk_now tk)"
  have rec: "triple ?H (bind (reconcilePendingOrders en ?c (tk_now tk) ?s) (\<lambda>(s', n, u).
      bind (put_state en s') (\<lambda>_. if map_of (ms_pendingOrders s') (tick_cid en bt tk) = None then ret (Some x) else ret (Some (y u)))))
      (answered en v K E tk)" if "\<And>u. sp_status (y u) \<noteq> StExecuted" for x y
  proof (rule triple_bind [OF tally_reconcile [OF _ assms(3)]], goal_cases)
    case (2 z)
    obtain s' n u where z: "z = (s', n, u)" by (cases z) auto
    show ?case
    proof (cases "tallied K E (tk_now tk) s' \<and>
        (map_of (ms_pendingOrders s') (tick_cid en bt tk) = None \<longrightarrow> tallied (K + 1) (tk_now tk + wait_ms ?c) (tk_now tk) s')")
      case True
      have "triple ?H (bind (put_state en s') (\<lambda>_. if map_of (ms_pendingOrders s') (tick_cid en bt tk) = None then ret (Some x)
          else ret (Some (y u)))) (answered en v K E tk)"
        by (rule answer_after_reconcile) (use True assms(4,5) that in simp_all)
      then show ?thesis unfolding z prod.case by (rule triple_conseq) auto
    next
      case False
      then show ?thesis using submitted_in_flight [of en bt tk resp latest] by (auto simp: z triple_def)
    qed
  qed (use 1 in simp_all)
  have "triple ?H (bind (put_state en ?s) (\<lambda>_. bind (reconcilePendingOrders en ?c (tk_now tk) ?s) (\<lambda>(s', n, u).
      bind (put_state en s') (\<lambda>_. if map_of (ms_pendingOrders s') (tick_cid en bt tk) = None then ret (Some x) else ret (Some (y u))))))
      (answered en v K E tk)" if "\<And>u. sp_status (y u) \<noteq> StExecuted" for x y
    by (rule triple_bind [OF tally_put rec [OF that]]) (use 1 assms(5) in simp_all)
  then show ?case
    using answer_unexecuted [of K E tk "not_executed_state en bt tk resp latest" resp en v] 1 assms(2,5) by (simp add: Let_def)
qed simp

text \<open>The end of an action: the tally it began with, and one more when it executed.\<close>

definition ended :: "sim_env \<Rightarrow> jsval \<Rightarrow> int \<Rightarrow> int \<Rightarrow> int \<Rightarrow> common_config \<Rightarrow> bool \<Rightarrow> sim_call list \<Rightarrow> bool" where
  "ended en v K E now c ex t \<longleftrightarrow> holds_tally en v K E now t \<and> counted en v K E now c ex t"

lemma ended_False [simp]: "ended en v K E now c False t = holds_tally en v K E now t"
  by (simp add: ended_def)

lemma ended_holds: "ended en v K E now c ex t \<Longrightarrow> holds_tally en v K E now t"
  by (simp add: ended_def)

definition ready :: "sim_env \<Rightarrow> jsval \<Rightarrow> int \<Rightarrow> int \<Rightarrow> tick \<Rightarrow> bool" where
  "ready en v K E tk \<longleftrightarrow> db_ok en v \<and> sm_engine en = BuiltEngine \<and> next_allowed (st_common (tk_settings tk)) E (tk_now tk) \<and>
     K < 100000 \<and> tallied K E (tk_now tk) (tk_state tk)"

abbreviation tick_ended :: "sim_env \<Rightarrow> jsval \<Rightarrow> int \<Rightarrow> int \<Rightarrow> tick \<Rightarrow> bool \<Rightarrow> sim_call list \<Rightarrow> bool" where
  "tick_ended en v K E tk \<equiv> ended en v K E (tk_now tk) (st_common (tk_settings tk))"

lemma execute_tally:
  assumes "ready en v K E tk" "permitted (st_common (tk_settings tk)) K E (tk_now tk)"
  shows "triple (holds_tally en v K E (tk_now tk)) (run_execute (tick_pipeline en bt tk) q) (\<lambda>r. tick_ended en v K E tk (response_executed r))"
  unfolding tick_run_execute
proof (rule triple_bind [where R = "\<lambda>r. holds_tally en v K E (tk_now tk)"])
  show "triple (holds_tally en v K E (tk_now tk))
      (bind (perform (RunEngine (sent_intent en bt tk)) (sm_runEngine en (sent_intent en bt tk))) (\<lambda>r. ret (RawEngine r)))
      (\<lambda>r. holds_tally en v K E (tk_now tk))"
    by (rule triple_bind [OF triple_perform [where Q = "\<lambda>r. holds_tally en v K E (tk_now tk)"]]) (auto intro: triple_ret)
next
  fix raw
  have r: "db_ok en v" "sm_engine en = BuiltEngine" "next_allowed (st_common (tk_settings tk)) E (tk_now tk)" "K < 100000"
    using assms(1) by (simp_all add: ready_def)
  have "triple (holds_tally en v K E (tk_now tk)) (bind (tick_on_result en bt tk (normalizeSharedExecutionResponse q raw) q)
      (\<lambda>o'. ret (opt_get o' (normalizeSharedExecutionResponse q raw)))) (\<lambda>r. tick_ended en v K E tk (response_executed r))"
    by (rule triple_bind [OF on_result_tally [OF r(1-3) assms(2) r(4)]]) (auto simp: triple_def ret_def answered_def ended_def)
  then show "triple (holds_tally en v K E (tk_now tk)) (bind (bind (tick_on_result en bt tk (normalizeSharedExecutionResponse q raw) q)
      (\<lambda>o'. ret (opt_get o' (normalizeSharedExecutionResponse q raw)))) ret) (\<lambda>r. tick_ended en v K E tk (response_executed r))"
    by (rule triple_bind) (auto simp: triple_def ret_def)
qed simp

lemma guarded_tally:
  assumes "ready en v K E tk"
  shows "triple (holds_tally en v K E (tk_now tk)) (tick_guarded en bt tk q)
    (\<lambda>r t. holds_tally en v K E (tk_now tk) t \<and> (\<forall>q'. r = Inr (GuardAllow, q') \<longrightarrow> ga_allow (tick_guard en tk)))"
proof (cases "ga_allow (tick_guard en tk)")
  case True
  have "tally_kept en v K E (tk_now tk) (put_state en (state_with_pending en bt tk))"
    by (rule tally_put) (use assms in \<open>simp_all add: ready_def\<close>)
  then show ?thesis
    using True by (auto simp: tick_guarded_def Let_def intro!: triple_bind triple_ret)
next
  case False
  then show ?thesis
    by (auto simp: tick_guarded_def Let_def intro!: triple_bind [OF tally_risks(1)] triple_ret)
qed

lemma pipeline_tally:
  assumes "ready en v K E tk"
  shows "triple (holds_tally en v K E (tk_now tk)) (executeSharedExecutionPipeline (tick_pipeline en bt tk))
    (\<lambda>r. tick_ended en v K E tk (response_executed r))"
proof (cases "validateSharedExecutionVenue (tick_request en bt tk)")
  case (Some resp)
  then show ?thesis using validate_status [OF Some] by (auto simp: tick_pipeline_run intro!: triple_ret)
next
  case None
  have refused: "refusal_status status \<noteq> StExecuted" for status by (cases status) simp_all
  have allowed: "permitted (st_common (tk_settings tk)) K E (tk_now tk)" if "ga_allow (tick_guard en tk)"
    using guard_tally that assms by (force simp: tick_guard_def ready_def permitted_def)
  have run: "triple (\<lambda>t. holds_tally en v K E (tk_now tk) t \<and> ga_allow (tick_guard en tk))
      (catch (run_execute (tick_pipeline en bt tk) q) (\<lambda>e. ret (failed_response q e))) (\<lambda>r. tick_ended en v K E tk (response_executed r))" for q
  proof (cases "ga_allow (tick_guard en tk)")
    case True
    show ?thesis
      by (rule triple_conseq [OF triple_catch [OF execute_tally [OF assms allowed [OF True]]]]) (auto intro!: triple_ret)
  qed (simp add: triple_def)
  show ?thesis
    unfolding tick_pipeline_run None option.case
  proof (rule triple_bind [OF guarded_tally [OF assms]], goal_cases)
    case (1 x)
    obtain g q where x: "x = (g, q)" by fastforce
    show ?case
      by (cases g) (auto simp: x refused intro!: triple_ret triple_conseq [OF run])
  qed simp
qed

lemma after_tally:
  assumes "ready en v K E tk"
  shows "triple (tick_ended en v K E tk (sp_status resp = StExecuted)) (after_pipeline en bt tk resp) (\<lambda>r. tick_ended en v K E tk (executed r))"
proof (cases "sp_status resp = StExecuted")
  case True
  then have "after_pipeline en bt tk resp = ret (toRunnerExecutionResult resp (tk_intent tk) (tk_gate tk))"
    by (simp add: after_pipeline_def Let_def toRunnerExecutionResult_def)
  then show ?thesis using True by (auto intro!: triple_ret)
next
  case False
  let ?H = "holds_tally en v K E (tk_now tk)"
  have r: "db_ok en v" "K \<le> 100000" "tallied K E (tk_now tk) (tk_state tk)" using assms by (simp_all add: ready_def)
  have g: "tallied K E (tk_now tk) (ga_state (tick_guard en tk))" using r(3) by (simp add: tick_guard_def)
  have "triple ?H (bind (if b then bind (get_state en (tk_now tk)) (\<lambda>latest. put_state en (error_state en bt tk reason latest)) else ret ())
      (\<lambda>_. bind (if b' then put_state en (ga_state (tick_guard en tk)) else ret ()) (\<lambda>_. ret x))) (\<lambda>r. ?H)" for b b' reason and x :: execution_result
    by (rule triple_bind [where R = "\<lambda>r. ?H"], rule triple_if, rule tally_read [OF r(1)])
      (auto intro!: tally_put triple_ret triple_bind [where R = "\<lambda>r. ?H"] r(2) g)
  then have "tally_kept en v K E (tk_now tk) (after_pipeline en bt tk resp)"
    by (simp add: after_pipeline_def Let_def)
  moreover have "\<not> executed (fst (after_pipeline en bt tk resp t))" for t
    by (auto simp: executed_def after_pipeline_def Let_def bind_def ret_def False split: sum.splits prod.splits)
  ultimately show ?thesis using False by (auto simp: triple_def)
qed

lemma run_intent_tally:
  assumes "ready en v K E tk"
  shows "triple (holds_tally en v K E (tk_now tk)) (run_intent en bt tk) (\<lambda>r. tick_ended en v K E tk (executed r))"
proof -
  have "triple (holds_tally en v K E (tk_now tk)) (bind (executeSharedExecutionPipeline (tick_pipeline en bt tk)) (after_pipeline en bt tk))
      (\<lambda>r. tick_ended en v K E tk (executed r))"
    by (rule triple_bind [OF pipeline_tally [OF assms]]) (use after_tally [OF assms] in auto)
  moreover have "sm_engine en = BuiltEngine" using assms by (simp add: ready_def)
  ultimately show ?thesis
    by (auto simp: run_intent_def Let_def buildNoopExecutionResult_def split: bool.split intro!: triple_ret)
qed

lemma with_state_tally:
  assumes "ready en v K E tk"
  shows "triple (holds_tally en v K E (tk_now tk)) (with_state en bt tk) (\<lambda>r. tick_ended en v K E tk (executed r))"
proof -
  let ?H = "holds_tally en v K E (tk_now tk)" and ?E = "\<lambda>r. tick_ended en v K E tk (executed r)"
  have r: "sm_engine en = BuiltEngine" "K \<le> 100000" "tallied K E (tk_now tk) (tk_state tk)" "next_allowed (st_common (tk_settings tk)) E (tk_now tk)"
    using assms by (simp_all add: ready_def)
  have blocked: "triple ?H (ret (reconciliation_blocked en tk n m)) ?E" for n m
    by (rule triple_ret) (simp add: reconciliation_blocked_def buildBlockedExecutionResult_def)
  have resumed: "triple ?H (bind (put_state en s) (\<lambda>_. if u then ret (reconciliation_blocked en tk n m)
      else run_intent en bt (tk\<lparr> tk_state := s \<rparr>))) ?E" if "tallied K E (tk_now tk) s" for s u n m
  proof (rule triple_bind [OF tally_put [OF that r(2)]])
    have "ready en v K E (tk\<lparr> tk_state := s \<rparr>)" using assms that by (simp add: ready_def)
    from run_intent_tally [OF this]
    show "triple ?H (if u then ret (reconciliation_blocked en tk n m) else run_intent en bt (tk\<lparr> tk_state := s \<rparr>)) ?E"
      by (intro triple_if blocked) simp
  qed simp
  have "triple ?H (bind (reconcilePendingOrders en (st_common (tk_settings tk)) (tk_now tk) (tk_state tk)) (\<lambda>(s, resolved, unresolved).
      bind (put_state en s) (\<lambda>_. if unresolved \<noteq> [] then ret (reconciliation_blocked en tk (f unresolved) (g resolved))
        else run_intent en bt (tk\<lparr> tk_state := s \<rparr>)))) ?E" for f g
  proof (rule triple_bind [OF tally_reconcile [OF r(3,4)]], goal_cases)
    case (1 x)
    obtain s n u where x: "x = (s, n, u)" by (cases x) auto
    show ?case
    proof (cases "tallied K E (tk_now tk) s")
      case True
      then show ?thesis unfolding x prod.case by (intro triple_conseq [OF resumed]) auto
    qed (auto simp: x triple_def)
  qed simp
  then show ?thesis
    using r(1) run_intent_tally [OF assms] by (simp add: with_state_def Let_def)
qed

section \<open>The modes\<close>

text \<open>A mode keeps the tally, counts what it executes, and executes only within the limits of the bot.\<close>

definition mode_tallies :: "sim_env \<Rightarrow> jsval \<Rightarrow> int \<Rightarrow> int \<Rightarrow> bot \<Rightarrow> int \<Rightarrow> execution_result sim_act \<Rightarrow> bool" where
  "mode_tallies en v K E bt now m \<longleftrightarrow> triple (holds_tally en v K E now) m (\<lambda>r. ended en v K E now (tick_limits bt) (executed r))"

definition may_tick :: "sim_env \<Rightarrow> jsval \<Rightarrow> int \<Rightarrow> int \<Rightarrow> bot \<Rightarrow> int \<Rightarrow> bool" where
  "may_tick en v K E bt now \<longleftrightarrow> db_ok en v \<and> sm_engine en = BuiltEngine \<and> next_allowed (tick_limits bt) E now \<and> K < 100000"

lemma simple_tally:
  assumes "may_tick en v K E bt now"
  shows "mode_tallies en v K E bt now (simple_execute en sg bt now)"
proof -
  let ?H = "holds_tally en v K E now" and ?Q = "\<lambda>r. ended en v K E now (tick_limits bt) (executed r)"
  have db: "db_ok en v" using assms by (simp add: may_tick_def)
  have st: "triple ?H (with_state en bt (mk s)) ?Q"
    if "tallied K E now s" "\<And>s. tk_state (mk s) = s \<and> tk_now (mk s) = now \<and> st_common (tk_settings (mk s)) = tick_limits bt" for s mk
    using with_state_tally [of en v K E "mk s" bt] that assms by (simp add: ready_def may_tick_def)
  have rest: "triple ?H (bind (get_state en now) (\<lambda>s. with_state en bt (mk s))) ?Q"
    if "\<And>s. tk_state (mk s) = s \<and> tk_now (mk s) = now \<and> st_common (tk_settings (mk s)) = tick_limits bt" for mk
    by (rule tally_read [OF db st [OF _ that]]) simp_all
  have ext: "triple ?H (perform (ApplyExtensions i) f) (\<lambda>r. ?H)"
    for i and f :: "sim_call list \<Rightarrow> js_error + trade_intent \<times> string list \<times> diagnostic list"
    by (rule triple_perform) simp
  show ?thesis
    unfolding mode_tallies_def simple_execute_def Let_def
  proof (rule triple_bind [OF ext], goal_cases)
    case (1 x)
    obtain i ids ds where x: "x = (i, ids, ds)" by (cases x) auto
    show ?case unfolding x prod.case
      by (rule triple_bind [OF tally_risks(2)], rule rest) (simp_all add: tick_limits_def)
  qed simp
qed

lemma record_tally:
  assumes "db_ok en v" "K \<le> 100000"
    and "\<And>s. ms_dailyExecutionDate (f s) = ms_dailyExecutionDate s \<and> ms_dailyExecutionCount (f s) = ms_dailyExecutionCount s \<and>
      ms_cooldownUntil (f s) = ms_cooldownUntil s"
  shows "tally_kept en v K E now (record_execution en now f r)"
proof -
  have "tallied K E now ((f s)\<lparr> ms_updatedAt := u \<rparr>) = tallied K E now s" for s u
    by (rule tallied_cong) (simp add: assms(3))
  then have "tally_kept en v K E now (bind (get_state en now) (\<lambda>s. put_state en ((f s)\<lparr> ms_updatedAt := u \<rparr>)))" for u
    by (intro tally_read [OF assms(1)] tally_put) (simp_all add: assms(2))
  then show ?thesis unfolding record_execution_def by (intro triple_if tally_ret)
qed

lemma staged_status [simp]: "xr_status (staged st stage extra r) = xr_status r"
  by (simp add: staged_def)

lemma recorded_tally:
  assumes "may_tick en v K E bt now"
    and "\<And>s. ms_dailyExecutionDate (f s) = ms_dailyExecutionDate s \<and> ms_dailyExecutionCount (f s) = ms_dailyExecutionCount s \<and>
      ms_cooldownUntil (f s) = ms_cooldownUntil s"
  shows "mode_tallies en v K E bt now (bind (runSimpleExecutionWithCustomIntent en sg i bt now) (\<lambda>r.
      bind (record_execution en now f r) (\<lambda>_. ret (staged st stage extra r))))"
  unfolding mode_tallies_def
proof (rule triple_bind)
  let ?c = "tick_limits bt"
  show "triple (holds_tally en v K E now) (runSimpleExecutionWithCustomIntent en sg i bt now) (\<lambda>r. ended en v K E now ?c (executed r))"
    using simple_tally [OF assms(1)] by (simp add: mode_tallies_def runSimpleExecutionWithCustomIntent_def)
  fix r
  have rec: "tally_kept en v K' E' now (record_execution en now f r)" if "K' \<le> 100000" for K' E'
    using record_tally [OF _ that assms(2)] assms(1) by (simp add: may_tick_def)
  have k: "K \<le> 100000" "K + 1 \<le> 100000" using assms(1) by (simp_all add: may_tick_def)
  have "triple (ended en v K E now ?c b) (record_execution en now f r) (\<lambda>_. ended en v K E now ?c b)" for b
    using rec [OF k(1), of E] rec [OF k(2), of "now + wait_ms ?c"] by (auto simp: triple_def ended_def counted_def)
  then show "triple (ended en v K E now ?c (executed (Inr r))) (bind (record_execution en now f r) (\<lambda>_. ret (staged st stage extra r)))
      (\<lambda>r. ended en v K E now ?c (executed r))"
    by (rule triple_bind) (auto intro!: triple_ret dest: ended_holds)
qed simp

lemma noop_tally: "mode_tallies en v K E bt now (ret (buildModeNoopResult sg reason meta))"
  unfolding mode_tallies_def by (rule triple_ret) simp

lemma mode_read:
  assumes "may_tick en v K E bt now" "\<And>s. mode_tallies en v K E bt now (k s)"
  shows "mode_tallies en v K E bt now (bind (get_state en now) k)"
  using assms unfolding mode_tallies_def may_tick_def by (intro tally_read) auto

lemma dca_tally:
  assumes "may_tick en v K E bt now"
  shows "mode_tallies en v K E bt now (dca_execute pow en sg bt now)"
  using simple_tally [OF assms] unfolding dca_execute_def Let_def
  by (auto split: trade_intent.split option.split intro!: mode_read [OF assms] recorded_tally [OF assms] noop_tally
      simp: dca_entered_def)

lemma grid_tally:
  assumes "may_tick en v K E bt now"
  shows "mode_tallies en v K E bt now (grid_execute en sg bt now)"
  using simple_tally [OF assms] unfolding grid_execute_def Let_def
  by (auto split: trade_intent.split option.split intro!: mode_read [OF assms] recorded_tally [OF assms] noop_tally
      simp: grid_entered_def Let_def)

lemma holds_tally_key [simp]: "holds_tally (en\<lparr> sm_key := k \<rparr>) v K E now t = holds_tally en v K E now t"
  by (simp add: holds_tally_def)

lemma mode_tally:
  assumes "may_tick en v K E bt now" "m \<noteq> ModeDipReversion" "holds_tally en v K E now t" "mode_execute pow en m sg bt now t = (r, t')"
  shows "ended en v K E now (tick_limits bt) (executed r) t'"
proof -
  have k: "may_tick (en\<lparr> sm_key := k \<rparr>) v K E bt now" for k using assms(1) by (simp add: may_tick_def)
  have e: "ended en v K E now (tick_limits bt) (executed r) t'"
    if "mode_tallies (en\<lparr> sm_key := k \<rparr>) v K E bt now a" "a t = (r, t')" for k a
    using tripleD [OF that(1) [unfolded mode_tallies_def] _ that(2)] assms(3) by (simp add: ended_def counted_def)
  show ?thesis
    using assms(2,4) e [OF simple_tally [OF k]] e [OF dca_tally [OF k]] e [OF grid_tally [OF k]]
    by (cases m) (simp_all add: mode_execute_def)
qed

section \<open>Ticks of a bot\<close>

text \<open>The time of each tick and whether it reported an execution.\<close>

fun run_outcomes :: "(jsnum \<Rightarrow> int \<Rightarrow> jsnum) \<Rightarrow> sim_env \<Rightarrow> (mode_name \<times> signal \<times> bot \<times> int) list \<Rightarrow> sim_call list \<Rightarrow> (int \<times> bool) list" where
  "run_outcomes pow en [] t = []"
| "run_outcomes pow en ((m, sg, bt, now) # ticks) t =
     (case mode_execute pow en m sg bt now t of (r, t') \<Rightarrow> (now, executed r) # run_outcomes pow en ticks t')"

definition execution_times :: "(int \<times> bool) list \<Rightarrow> int list" where
  "execution_times rs = map fst (filter snd rs)"

lemma tally_later:
  assumes "holds_tally en v K E now t" "now \<le> now'"
  shows "holds_tally en v (if toUtcDate now' = toUtcDate now then K else 0) E now' t"
proof -
  have "today_count now' (normalizeExecutionModeState w now') = today_count now (normalizeExecutionModeState w now)"
    if "toUtcDate now' = toUtcDate now" for w
    using that by (simp add: today_count_def normalizeExecutionModeState_def Let_def)
  moreover have "ms_cooldownUntil (normalizeExecutionModeState w now') = ms_cooldownUntil (normalizeExecutionModeState w now)" for w
    by (simp add: normalizeExecutionModeState_def Let_def)
  ultimately show ?thesis using assms by (auto simp: holds_tally_def tallied_def waits_def)
qed

text \<open>What is kept from tick to tick: \<open>ts\<close> are the executions so far, none after \<open>p\<close>.\<close>

definition last_wait :: "common_config \<Rightarrow> int list \<Rightarrow> int" where
  "last_wait c ts = (if ts = [] then 0 else last ts + wait_ms c)"

definition run_ok :: "sim_env \<Rightarrow> jsval \<Rightarrow> common_config \<Rightarrow> int \<Rightarrow> int list \<Rightarrow> sim_call list \<Rightarrow> bool" where
  "run_ok en v c p ts t \<longleftrightarrow>
     (\<forall>e\<in>set ts. in_span e \<and> e \<le> p) \<and> holds_tally en v (int (on_date (toUtcDate p) ts)) (last_wait c ts) p t \<and>
     (\<forall>d. int (on_date d ts) \<le> ec_maxDailyExecutions c) \<and> sorted_wrt (\<lambda>a b. a + wait_ms c \<le> b) ts"

lemma on_date_snoc [simp]: "on_date d (ts @ [e]) = on_date d ts + (if toUtcDate e = d then 1 else 0)"
  by (simp add: on_date_def)

lemma run_ok_later:
  assumes "run_ok en v c p ts t" "p \<le> now" "in_span p" "in_span now"
  shows "run_ok en v c now ts t"
proof (cases "toUtcDate now = toUtcDate p")
  case True
  then show ?thesis
    using assms tally_later [of en v "int (on_date (toUtcDate p) ts)" "last_wait c ts" p t now] by (auto simp: run_ok_def)
next
  case False
  moreover have "on_date (toUtcDate now) ts = 0"
    using assms False by (intro new_date_unused [of ts p now]) (auto simp: run_ok_def)
  ultimately show ?thesis
    using assms tally_later [of en v "int (on_date (toUtcDate p) ts)" "last_wait c ts" p t now] by (auto simp: run_ok_def)
qed

lemma run_ok_tick:
  assumes "run_ok en v c now ts t" "db_ok en v" "sm_engine en = BuiltEngine" "tick_limits bt = c" "m \<noteq> ModeDipReversion"
    and "in_span now" "in_span (now + 86400000)" "mode_execute pow en m sg bt now t = (r, t')"
  shows "run_ok en v c now (if executed r then ts @ [now] else ts) t'"
proof -
  let ?K = "int (on_date (toUtcDate now) ts)" and ?E = "last_wait c ts"
  have c: "common_ok c" using assms(4) common_ok by (auto simp: tick_limits_def readExecutionSettings_def Let_def)
  then have w: "0 \<le> wait_ms c" "wait_ms c \<le> 86400000" by (simp_all add: common_ok_def wait_ms_def)
  have l: "\<forall>e\<in>set ts. e \<le> now" "?K \<le> ec_maxDailyExecutions c" "holds_tally en v ?K ?E now t"
    using assms(1) by (simp_all add: run_ok_def)
  have "?E \<le> now + wait_ms c" using l(1) w(1) assms(6) by (auto simp: last_wait_def in_span_def)
  moreover have "in_span (now + wait_ms c)" using assms(6,7) w by (simp add: in_span_def)
  moreover have "?K < 100000" using l(2) c by (simp add: common_ok_def)
  ultimately have "may_tick en v ?K ?E bt now" using assms(2-4) w(1) by (simp add: may_tick_def next_allowed_def)
  from mode_tally [OF this assms(5) l(3) assms(8)] have e: "ended en v ?K ?E now c (executed r) t'" using assms(4) by simp
  show ?thesis
  proof (cases "executed r")
    case True
    then have p: "?K + 1 \<le> ec_maxDailyExecutions c" "?E \<le> now" "holds_tally en v (?K + 1) (now + wait_ms c) now t'"
      using e by (simp_all add: ended_def counted_def permitted_def)
    have "a + wait_ms c \<le> now" if "a \<in> set ts" for a
    proof -
      have "ts \<noteq> []" using that by auto
      moreover have "a = last ts \<or> a + wait_ms c \<le> last ts"
        using assms(1) that sorted_wrt_append [of _ "butlast ts" "[last ts]"] \<open>ts \<noteq> []\<close>
        unfolding run_ok_def by (metis append_butlast_last_id in_set_butlastD set_ConsD sorted_wrt_append list.set_intros(1) Un_iff set_append empty_iff list.set(1))
      ultimately show ?thesis using p(2) w(1) by (auto simp: last_wait_def)
    qed
    then show ?thesis
      using True assms(1,6) p by (auto simp: run_ok_def last_wait_def sorted_wrt_append add.commute)
  next
    case False
    then show ?thesis using assms(1) e by (simp add: run_ok_def)
  qed
qed

definition plain_ticks :: "common_config \<Rightarrow> (mode_name \<times> signal \<times> bot \<times> int) list \<Rightarrow> bool" where
  "plain_ticks c ticks \<longleftrightarrow> list_all (\<lambda>(m, sg, bt, now). m \<noteq> ModeDipReversion \<and> in_span now \<and> in_span (now + 86400000) \<and>
     st_common (readExecutionSettings (bt_strategyKey bt) (bt_paramsJson bt)) = c) ticks \<and> sorted (map (\<lambda>(m, sg, bt, now). now) ticks)"

lemma run_ok_run:
  "run_ok en v c p ts t \<Longrightarrow> in_span p \<Longrightarrow> db_ok en v \<Longrightarrow> sm_engine en = BuiltEngine \<Longrightarrow> plain_ticks c ticks \<Longrightarrow>
   (\<forall>(m, sg, bt, now)\<in>set ticks. p \<le> now) \<Longrightarrow>
   \<exists>p' t'. run_ok en v c p' (ts @ execution_times (run_outcomes pow en ticks t)) t'"
proof (induction pow en ticks t arbitrary: p ts rule: run_outcomes.induct)
  case (2 pow en m sg bt now ticks t)
  obtain r t' where run: "mode_execute pow en m sg bt now t = (r, t')" by fastforce
  have now: "in_span now" "in_span (now + 86400000)" "tick_limits bt = c" "m \<noteq> ModeDipReversion" "p \<le> now"
    "plain_ticks c ticks" "\<forall>(m, sg, bt, u)\<in>set ticks. now \<le> u"
    using "2.prems"(5,6) by (auto simp: plain_ticks_def tick_limits_def list_all_iff)
  have "run_ok en v c now (if executed r then ts @ [now] else ts) t'"
    by (rule run_ok_tick [OF run_ok_later [OF "2.prems"(1) now(5) "2.prems"(2) now(1)] "2.prems"(3,4) now(3,4,1,2) run])
  from "2.IH" [OF run [symmetric] this now(1) "2.prems"(3,4) now(6,7)] show ?case
    using run by (cases "executed r") (simp_all add: execution_times_def)
qed (auto simp: execution_times_def)

text \<open>C6: For a bot in the modes simple, dollar cost averaging and grid, changing from tick to tick, with an engine built for
  it, limits that stay the same and a clock that does not go back: however the signals, plugins, the venue, the
  engine and the database behave and fail, no day has more ticks that report an execution than the daily limit, and two of them
  are at least the cooldown apart. The dip reversion mode is left out: its executions are not counted
  (see \<open>dip_execution_uncounted\<close>).\<close>

theorem daily_limit_kept:
  assumes "db_ok en v" "sm_engine en = BuiltEngine" "c = st_common (readExecutionSettings k params)" "plain_ticks c ticks"
    and "ts = map fst (filter snd (run_outcomes pow en ticks []))"
  shows "(\<forall>d. int (on_date d ts) \<le> ec_maxDailyExecutions c) \<and>
    sorted_wrt (\<lambda>a b. a + ec_cooldownSecAfterExecution c * 1000 \<le> b) ts"
proof (cases ticks)
  case (Cons tk rest)
  have "common_ok c" using assms(3) common_ok by (auto simp: readExecutionSettings_def Let_def)
  obtain m sg bt now where "tk = (m, sg, bt, now)" by (cases tk)
  then have now: "in_span now" "\<forall>(m, sg, bt, u)\<in>set ticks. now \<le> u"
    using assms(4) Cons by (auto simp: plain_ticks_def list_all_iff)
  have "run_ok en v c now [] []"
    using now \<open>common_ok c\<close> normalized_date by (auto simp: run_ok_def on_date_def holds_tally_def tallied_def waits_def last_wait_def in_span_def common_ok_def)
  from run_ok_run [OF this now(1) assms(1,2,4) now(2), of pow] show ?thesis
    using assms(5) by (auto simp: run_ok_def execution_times_def wait_ms_def)
next
  case Nil
  moreover have "common_ok c" using assms(3) common_ok by (auto simp: readExecutionSettings_def Let_def)
  ultimately show ?thesis using assms(5) by (simp add: on_date_def common_ok_def)
qed

section \<open>Examples\<close>

text \<open>A close on an empty state whose order the engine accepts: the venue holds no position after it.\<close>

lemma put_subset: "set (put k p kvs) \<subseteq> insert (k, p) (set kvs)"
  by (induction k p kvs rule: put.induct) auto

lemma read_kinds:
  "(k, p') \<in> set (add_pending out (map (\<lambda>(k, v). (k, pending_json v)) kvs)) \<Longrightarrow>
   (k, p') \<in> set out \<or> (\<exists>p\<in>snd ` set kvs. po_intentType p' = po_intentType p)"
proof (induction kvs arbitrary: out)
  case (Cons kv kvs)
  obtain k0 p0 where kv: "kv = (k0, p0)" by fastforce
  obtain item where i: "pending_json p0 = JObj item" "\<And>cid. po_intentType (normalize_pending cid item) = po_intentType p0"
    by (simp add: pending_json_def normalize_pending_def)
  show ?case
    using Cons.IH Cons.prems put_subset [of "pending_id k0 item" "normalize_pending (pending_id k0 item) item" out] i
    by (fastforce simp: kv Let_def split: if_splits)
qed simp

lemma built_close:
  assumes "steady en v" "accepts en bt tk t" "sm_engine en = BuiltEngine" "\<forall>t. sm_getPositions en t = Inr []"
    and "is_close (tk_intent tk)" "ms_pendingOrders (tk_state tk) = []" "sp_status resp = StExecuted"
  shows "\<exists>x u. tick_on_result en bt tk resp q (t @ sent_calls en bt tk) = (Inr (Some x), t @ sent_calls en bt tk @ u) \<and> sp_status x = StExecuted"
proof -
  let ?s = "hook_state en bt tk resp" and ?c = "st_common (tk_settings tk)" and ?cid = "tick_cid en bt tk"
  have kt: "keyed (tk_state tk)" "ids (tk_state tk) = []" using assms(2) by (simp_all add: accepts_def)
  have "is_close (sent_intent en bt tk)" using assms(5) by (auto simp: is_close_def sent_intent_def withClientOrderId_def split: trade_intent.splits)
  then have tp: "po_intentType (tick_pending en bt tk) = CloseKind"
    by (simp add: tick_pending_def buildPendingOrder_def Let_def split: prod.split)
  have w: "ms_pendingOrders (state_with_pending en bt tk) = [(?cid, tick_pending en bt tk)]"
    using assms(6) by (simp add: state_with_pending_def tick_cid_def tick_order_def nextClientOrderId_def tick_guard_def Let_def split: prod.split)
  let ?r = "normalizeExecutionModeState (state_json (state_with_pending en bt tk)) (tk_now tk)"
  have "ms_pendingOrders ?r = add_pending [] (map (\<lambda>(k, v). (k, pending_json v)) [(?cid, tick_pending en bt tk)])"
    using w by (simp add: normalize_pendings state_json_def normalizePendingOrders_def map_json_def opt_get_def)
  then have r: "po_intentType p = CloseKind" if "(k, p) \<in> set (ms_pendingOrders ?r)" for k p
    using read_kinds [of k p "[]" "[(?cid, tick_pending en bt tk)]"] that tp by simp
  then have "po_intentType (latest_pending en bt tk ?r) = CloseKind"
    using tp map_of_SomeD [of "ms_pendingOrders ?r" ?cid] by (auto simp: latest_pending_def opt_get_def split: option.splits)
  then have close: "po_intentType p = CloseKind" if "(k, p) \<in> set (ms_pendingOrders ?s)" for k p
    using r that put_subset [of ?cid _ "ms_pendingOrders ?r"]
    by (fastforce simp: hook_state_def submitted_state_def set_pending_def awaiting_def Let_def)
  have one: "ids ?s = [?cid]" "keyed ?s"
    using hook_state_ids [OF kt] hook_state_only [OF kt] by (simp_all add: only_def)
  then obtain p where p: "filter unresolved_order (ms_pendingOrders ?s) = [(?cid, p)]"
    by (auto simp: ids_def)
  have "(?cid, p) \<in> set (filter unresolved_order (ms_pendingOrders ?s))" unfolding p by simp
  then have "(?cid, p) \<in> set (ms_pendingOrders ?s)" by simp
  then have "confirmed_by [] p" "po_clientOrderId p = ?cid"
    using close one(2) by (auto simp: confirmed_by_def findMatchingPosition_def keyed_def list_all_iff)
  moreover have "listUnresolvedPendingOrders ?s = [p]" by (simp add: listUnresolvedPendingOrders_def p)
  ultimately have m: "map_of (ms_pendingOrders (fst (reconciled [] ?c (tk_now tk) ?s))) ?cid = None"
    by (auto simp: reconciled_def reconcile_one_def remove_key_def map_of_eq_None_iff)
  obtain s' n where rc: "reconciled [] ?c (tk_now tk) ?s = (s', n)" by fastforce
  then show ?thesis
    using assms(1,3,4,7) m
    by (simp add: rc tick_on_result_def sent_stored Let_def hook_state_def [symmetric] reconcilePendingOrders_def bind_def [of "bind a b" for a b]
        bind_def [of "perform a b" for a b] perform_def ret_def split: prod.split)
qed

lemma built_run:
  assumes "steady en v" "accepts en bt tk t" "sm_engine en = BuiltEngine" "\<forall>t. sm_getPositions en t = Inr []"
    and "is_close (tk_intent tk)" "ms_pendingOrders (tk_state tk) = []"
  shows "\<exists>x t'. run_intent en bt tk t = (Inr x, t') \<and> xr_status x = RsExecuted"
proof -
  obtain resp where resp: "sp_status resp = StExecuted"
    and run: "executeSharedExecutionPipeline (tick_pipeline en bt tk) t =
      (case tick_on_result en bt tk resp (sent_request en bt tk) (t @ sent_calls en bt tk) of
         (Inl e, t') \<Rightarrow> (Inr (failed_response (sent_request en bt tk) e), t')
       | (Inr o', t') \<Rightarrow> (Inr (opt_get o' resp), t'))"
    using accepted_pipeline [OF assms(1,2)] by blast
  obtain x u where x: "tick_on_result en bt tk resp (sent_request en bt tk) (t @ sent_calls en bt tk) = (Inr (Some x), t @ sent_calls en bt tk @ u)"
      "sp_status x = StExecuted"
    using built_close [OF assms resp] by blast
  have "announced_order en bt tk" using assms(2) by (simp add: accepts_def)
  note after = after_run [OF assms(1) this]
  have "executeSharedExecutionPipeline (tick_pipeline en bt tk) t = (Inr x, t @ sent_calls en bt tk @ u)"
    unfolding run x(1) by (simp add: opt_get_def)
  then show ?thesis
    using assms(3) x(2) by (simp add: accepted_run [OF assms(2)] bind_def after)
qed

definition sample_close :: trade_intent where
  "sample_close = CloseIntent ''BTCUSDT'' None"

definition sample_built :: sim_env where
  "sample_built = sample_env BuiltEngine (\<lambda>t. Inr [])"

lemma sample_executes: "\<exists>r t'. mode_execute pow sample_built ModeSimple (sample_sg sample_close) sample_bot sample_now [] = (r, t') \<and> executed r"
proof -
  let ?en = "sample_built\<lparr> sm_key := ''simple'' \<rparr>"
  let ?tk = "\<lparr> tk_now = sample_now, tk_settings = sample_settings, tk_gate = coerceGateSummary JNull defaultGateSummary,
    tk_state = normalizeExecutionModeState JNull sample_now, tk_intent = shaped sample_settings sample_close, tk_pluginIds = [] \<rparr>"
  let ?t = "[ApplyExtensions sample_close, GetState]"
  have en: "?en = sample_env BuiltEngine (\<lambda>t. Inr [])" by (simp add: sample_built_def sample_env_def)
  have e: "open_ids JNull = []" "ms_pendingOrders (normalizeExecutionModeState JNull sample_now) = []" by code_simp+
  have p: "passes (shaped sample_settings sample_close)" using sample_close_passes by (simp add: sample_close_def)
  have "announced_order ?en sample_bot ?tk"
    using p unfolding en by (simp add: passes_def announced_order_def tick_guard_def tick_request_def sample_env_def sample_bot_def)
  then have "accepts ?en sample_bot ?tk ?t"
    using p e unfolding en by (simp add: accepts_def passes_def) (simp add: sample_env_def)
  moreover have "is_close (tk_intent ?tk)"
    by (simp add: sample_close_def shaped_def applyCommonIntentSafety_def toIntentWithSimpleOverrides_def enforceCloseReduceOnly_def is_close_def opt_get_def
      no_params_def Let_def)
  ultimately obtain x t' where "run_intent ?en sample_bot ?tk ?t = (Inr x, t')" "xr_status x = RsExecuted"
    using built_run [of ?en JNull sample_bot ?tk ?t] sample_steady e(2) unfolding en by (force simp: sample_env_def)
  moreover have "simple_execute ?en (sample_sg sample_close) sample_bot sample_now [] = run_intent ?en sample_bot ?tk ?t"
    using simple_plain [of ?en JNull "[]" "sample_sg sample_close" sample_bot sample_now] sample_steady e(1) unfolding en
    by (simp add: sample_env_def sample_sg_def shaped_def sample_settings_def Let_def)
  ultimately show ?thesis by (simp add: mode_execute_def)
qed

theorem daily_limit_kept_witness:
  "let ticks = [(ModeSimple, sample_sg sample_close, sample_bot, sample_now), (ModeDca, sample_sg sample_open, sample_bot, sample_now + 60000)];
       ts = map fst (filter snd (run_outcomes no_power sample_built ticks []))
   in sample_now \<in> set ts \<and> int (on_date (toUtcDate sample_now) ts) \<le> 200"
proof -
  let ?ticks = "[(ModeSimple, sample_sg sample_close, sample_bot, sample_now), (ModeDca, sample_sg sample_open, sample_bot, sample_now + 60000)]"
  have "plain_ticks (st_common sample_settings) ?ticks"
    by (simp add: plain_ticks_def in_span_def sample_now_def sample_settings_def)
  moreover have "db_ok sample_built JNull" "sm_engine sample_built = BuiltEngine"
    using steady_db [OF sample_steady] by (simp_all add: sample_built_def) (simp add: sample_env_def)
  ultimately have "int (on_date (toUtcDate sample_now) (map fst (filter snd (run_outcomes no_power sample_built ?ticks [])))) \<le>
      ec_maxDailyExecutions (st_common sample_settings)"
    using daily_limit_kept [of sample_built JNull "st_common sample_settings" "''dummy''" JNull ?ticks _ no_power] by (simp add: sample_settings_def)
  moreover have "ec_maxDailyExecutions (st_common sample_settings) = 200" by (simp add: sample_default DEFAULT_EXECUTION_SETTINGS_def)
  moreover have "sample_now \<in> set (map fst (filter snd (run_outcomes no_power sample_built ?ticks [])))"
  proof -
    obtain r t' where r: "mode_execute no_power sample_built ModeSimple (sample_sg sample_close) sample_bot sample_now [] = (r, t')" "executed r"
      using sample_executes by blast
    show ?thesis by (simp add: r split: prod.split)
  qed
  ultimately show ?thesis unfolding Let_def by simp
qed

end
