(* ===== verification/CircuitBreaker.thy ===== *)
theory CircuitBreaker
  imports FuturesEngine PaperRuntime
begin

text \<open>
  The circuit breaker of the runner (apps/runner/src/circuit-breaker.ts): it counts the errors of a bot's
  ticks in a window that starts with an error, and trips when the count reaches the limit. Times are
  milliseconds; the environment of the process is a parameter.
\<close>

section \<open>Configuration and state\<close>

datatype breaker_action = StopBot | CooldownBot

record breaker_config =
  bk_maxErrors :: int
  bk_windowSeconds :: int
  bk_cooldownSeconds :: int
  bk_action :: breaker_action

record breaker_state =
  bs_consecutiveErrors :: int
  bs_errorWindowStartAt :: "int option"
  bs_lastErrorAt :: "int option"
  bs_lastErrorMessage :: "string option"

datatype tick_outcome = TickOk | TickBlocked | TickError

definition readPositiveInt :: "string option \<Rightarrow> int \<Rightarrow> int" where
  "readPositiveInt raw fallback =
     (case str_to_num (opt_get raw '''') of
        Fin x \<Rightarrow> if x \<le> 0 then fallback else \<lfloor>x\<rfloor>
      | _ \<Rightarrow> fallback)"

definition getCircuitBreakerConfigFromEnv :: "environment \<Rightarrow> breaker_config" where
  "getCircuitBreakerConfigFromEnv env =
     \<lparr> bk_maxErrors = readPositiveInt (env ''BOT_CB_MAX_ERRORS'') 5,
       bk_windowSeconds = readPositiveInt (env ''BOT_CB_WINDOW_SECONDS'') 300,
       bk_cooldownSeconds = readPositiveInt (env ''BOT_CB_COOLDOWN_SECONDS'') 900,
       bk_action = (if normalize (env ''BOT_CB_ACTION'') = ''cooldown'' then CooldownBot else StopBot) \<rparr>"

definition defaultCircuitBreakerState :: breaker_state where
  "defaultCircuitBreakerState =
     \<lparr> bs_consecutiveErrors = 0, bs_errorWindowStartAt = None, bs_lastErrorAt = None, bs_lastErrorMessage = None \<rparr>"

text \<open>The error opens a new window: there is none, or it is over.\<close>

definition outside_window :: "breaker_config \<Rightarrow> breaker_state \<Rightarrow> int \<Rightarrow> bool" where
  "outside_window c s now \<longleftrightarrow>
     (case bs_errorWindowStartAt s of None \<Rightarrow> True | Some start \<Rightarrow> bk_windowSeconds c * 1000 < now - start)"

definition after_error :: "breaker_config \<Rightarrow> breaker_state \<Rightarrow> int \<Rightarrow> string option \<Rightarrow> breaker_state" where
  "after_error c s now msg =
     \<lparr> bs_consecutiveErrors = (if outside_window c s now then 1 else bs_consecutiveErrors s + 1),
       bs_errorWindowStartAt = (if outside_window c s now then Some now else bs_errorWindowStartAt s),
       bs_lastErrorAt = Some now, bs_lastErrorMessage = msg \<rparr>"

definition applyCircuitBreakerOutcome ::
  "breaker_config \<Rightarrow> breaker_state \<Rightarrow> tick_outcome \<Rightarrow> int \<Rightarrow> string option \<Rightarrow> breaker_state \<times> bool" where
  "applyCircuitBreakerOutcome c s out now msg =
     (if out \<noteq> TickError then (s, False)
      else (let s' = after_error c s now msg in (s', bk_maxErrors c \<le> bs_consecutiveErrors s')))"

section \<open>Runs\<close>

text \<open>The ticks of a bot, in order of time: outcome, time and message; whether the last one tripped the breaker.\<close>

fun breaker_run :: "breaker_config \<Rightarrow> (tick_outcome \<times> int \<times> string option) list \<Rightarrow> breaker_state \<times> bool \<Rightarrow> breaker_state \<times> bool" where
  "breaker_run c [] s = s"
| "breaker_run c ((out, now, msg) # ticks) s = breaker_run c ticks (applyCircuitBreakerOutcome c (fst s) out now msg)"

definition start_breaker :: "breaker_state \<times> bool" where
  "start_breaker = (defaultCircuitBreakerState, False)"

text \<open>The times of the errors of a run, and those that are at most \<open>w\<close> before \<open>now\<close>.\<close>

definition error_times :: "(tick_outcome \<times> int \<times> string option) list \<Rightarrow> int list" where
  "error_times ticks = map (\<lambda>(out, now, msg). now) (filter (\<lambda>(out, now, msg). out = TickError) ticks)"

definition recent :: "int \<Rightarrow> int \<Rightarrow> int list \<Rightarrow> int" where
  "recent w now ts = int (length (filter (\<lambda>t. now - t \<le> w) ts))"

definition tick_times :: "(tick_outcome \<times> int \<times> string option) list \<Rightarrow> int list" where
  "tick_times = map (\<lambda>(out, now, msg). now)"

lemma breaker_run_snoc: "breaker_run c (ticks @ [(out, now, msg)]) s = applyCircuitBreakerOutcome c (fst (breaker_run c ticks s)) out now msg"
  by (induction c ticks s rule: breaker_run.induct) auto

lemma error_times_snoc [simp]:
  "error_times [] = []" "error_times (ticks @ [(out, now, msg)]) = error_times ticks @ (if out = TickError then [now] else [])"
  by (auto simp: error_times_def)

lemma tick_times_simps [simp]: "tick_times [] = []" "tick_times (ticks @ [(out, now, msg)]) = tick_times ticks @ [now]"
  by (simp_all add: tick_times_def)

lemma error_times_tick: "t \<in> set (error_times ticks) \<Longrightarrow> t \<in> set (tick_times ticks)"
  by (force simp: error_times_def tick_times_def)


text \<open>
  What the state means. The window starts with an error, the count is that of the errors since, and the last
  error came before the window was over. If the breaker has never tripped, the time of one window before its
  begin saw two errors less than the limit: they all fell into the window before, after its first error.
\<close>

definition count_of :: "(int \<Rightarrow> bool) \<Rightarrow> int list \<Rightarrow> int" where
  "count_of P ts = int (length (filter P ts))"

lemma count_of_simps [simp]:
  "count_of P [] = 0" "count_of P (ts @ [t]) = count_of P ts + (if P t then 1 else 0)" "0 \<le> count_of P ts"
  by (simp_all add: count_of_def)

lemma count_of_mono: "(\<And>t. t \<in> set ts \<Longrightarrow> P t \<Longrightarrow> Q t) \<Longrightarrow> count_of P ts \<le> count_of Q ts"
  by (induction ts) (auto simp: count_of_def)

lemma count_of_split: "(\<And>t. t \<in> set ts \<Longrightarrow> P t \<Longrightarrow> Q t \<or> R t) \<Longrightarrow> count_of P ts \<le> count_of Q ts + count_of R ts"
  by (induction ts) (auto simp: count_of_def)

lemma count_of_none: "(\<And>t. t \<in> set ts \<Longrightarrow> \<not> P t) \<Longrightarrow> count_of P ts = 0"
  by (simp add: count_of_def filter_empty_conv)

lemma count_of_after: "a \<in> set ts \<Longrightarrow> count_of (\<lambda>t. a < t) ts < count_of (\<lambda>t. a \<le> t) ts"
proof (induction ts rule: rev_induct)
  case (snoc t ts)
  have "count_of (\<lambda>t. a < t) ts \<le> count_of (\<lambda>t. a \<le> t) ts" by (rule count_of_mono) simp
  then show ?case using snoc by (cases "a \<in> set ts") auto
qed simp

lemma recent_count: "recent w now ts = count_of (\<lambda>t. now - t \<le> w) ts"
  by (simp add: recent_def count_of_def)

definition window_inv :: "breaker_config \<Rightarrow> int list \<Rightarrow> breaker_state \<Rightarrow> bool" where
  "window_inv c ts s \<longleftrightarrow>
     (case bs_errorWindowStartAt s of
        None \<Rightarrow> ts = [] \<and> bs_consecutiveErrors s = 0
      | Some a \<Rightarrow> a \<in> set ts \<and> bs_consecutiveErrors s = count_of (\<lambda>t. a \<le> t) ts \<and>
          (\<forall>t\<in>set ts. t - a \<le> bk_windowSeconds c * 1000))"

definition quiet_inv :: "breaker_config \<Rightarrow> int list \<Rightarrow> breaker_state \<Rightarrow> bool" where
  "quiet_inv c ts s \<longleftrightarrow> bs_consecutiveErrors s < bk_maxErrors c \<and>
     (case bs_errorWindowStartAt s of
        None \<Rightarrow> True
      | Some a \<Rightarrow> count_of (\<lambda>t. a - bk_windowSeconds c * 1000 \<le> t \<and> t < a) ts \<le> bk_maxErrors c - 2)"

lemma new_window:
  "window_inv c ts s \<Longrightarrow> outside_window c s now \<Longrightarrow> t \<in> set ts \<Longrightarrow> t < now"
  by (force simp: window_inv_def outside_window_def split: option.splits)

lemma same_window:
  assumes "window_inv c ts s" "\<not> outside_window c s now"
  obtains a where "bs_errorWindowStartAt s = Some a" "a \<in> set ts" "now - a \<le> bk_windowSeconds c * 1000"
    "bs_consecutiveErrors s = count_of (\<lambda>t. a \<le> t) ts" "\<forall>t\<in>set ts. t - a \<le> bk_windowSeconds c * 1000"
  using assms by (auto simp: window_inv_def outside_window_def split: option.splits)

lemma window_step:
  assumes "window_inv c ts s" "\<forall>t\<in>set ts. t \<le> now" "0 \<le> bk_windowSeconds c"
  shows "window_inv c (ts @ [now]) (after_error c s now msg)"
proof (cases "outside_window c s now")
  case True
  then have "count_of (\<lambda>t. now \<le> t) ts = 0"
    using new_window [OF assms(1) True] by (intro count_of_none) force
  moreover have "t - now \<le> bk_windowSeconds c * 1000" if "t \<in> set ts" for t
    using new_window [OF assms(1) True that] assms(3) by simp
  ultimately show ?thesis using True assms(3) by (simp add: window_inv_def after_error_def)
next
  case False
  from same_window [OF assms(1) this] obtain a where a: "bs_errorWindowStartAt s = Some a" "a \<in> set ts"
    "now - a \<le> bk_windowSeconds c * 1000" "bs_consecutiveErrors s = count_of (\<lambda>t. a \<le> t) ts"
    "\<forall>t\<in>set ts. t - a \<le> bk_windowSeconds c * 1000" by blast
  then show ?thesis using False assms(2) by (simp add: window_inv_def after_error_def)
qed

lemma quiet_step:
  assumes w: "window_inv c ts s" and q: "quiet_inv c ts s" and le: "\<forall>t\<in>set ts. t \<le> now" 
    and m: "1 \<le> bk_maxErrors c" and "bs_consecutiveErrors (after_error c s now msg) < bk_maxErrors c"
  shows "quiet_inv c (ts @ [now]) (after_error c s now msg)"
proof (cases "outside_window c s now")
  case True
  have two: "2 \<le> bk_maxErrors c" using True assms(5) by (simp add: after_error_def)
  have "count_of (\<lambda>t. now - bk_windowSeconds c * 1000 \<le> t \<and> t < now) ts \<le> bk_maxErrors c - 2"
  proof (cases "bs_errorWindowStartAt s")
    case None
    then show ?thesis using w two by (simp add: window_inv_def)
  next
    case (Some a)
    have "count_of (\<lambda>t. now - bk_windowSeconds c * 1000 \<le> t \<and> t < now) ts \<le> count_of (\<lambda>t. a < t) ts"
      by (rule count_of_mono) (use True Some in \<open>auto simp: outside_window_def\<close>)
    moreover have "count_of (\<lambda>t. a < t) ts < count_of (\<lambda>t. a \<le> t) ts"
      using w Some by (intro count_of_after) (simp add: window_inv_def)
    ultimately show ?thesis using w q Some by (simp add: window_inv_def quiet_inv_def)
  qed
  then show ?thesis using True assms(5) by (simp add: quiet_inv_def after_error_def)
next
  case False
  from same_window [OF w this] obtain a where "bs_errorWindowStartAt s = Some a" "a \<in> set ts" by blast
  then show ?thesis using False q le assms(5) by (auto simp: quiet_inv_def after_error_def)
qed

lemma sorted_ticks_snoc:
  assumes "sorted (tick_times (ticks @ [(out, now, msg)]))"
  shows "sorted (tick_times ticks) \<and> (\<forall>t\<in>set (error_times ticks). t \<le> now)"
  using assms by (auto simp: sorted_append dest: error_times_tick)

lemma run_window:
  "sorted (tick_times ticks) \<Longrightarrow> 0 \<le> bk_windowSeconds c \<Longrightarrow>
   window_inv c (error_times ticks) (fst (breaker_run c ticks start_breaker))"
proof (induction ticks rule: rev_induct)
  case Nil
  then show ?case by (simp add: start_breaker_def defaultCircuitBreakerState_def window_inv_def)
next
  case (snoc x ticks)
  obtain out now msg where x: "x = (out, now, msg)" by (cases x)
  with snoc(2) have s: "sorted (tick_times ticks)" "\<forall>t\<in>set (error_times ticks). t \<le> now"
    using sorted_ticks_snoc by blast+
  show ?case
    using window_step [OF snoc(1) [OF s(1) snoc(3)] s(2) snoc(3)] snoc(1) [OF s(1) snoc(3)]
    by (simp add: x breaker_run_snoc applyCircuitBreakerOutcome_def Let_def)
qed

definition never_tripped :: "breaker_config \<Rightarrow> (tick_outcome \<times> int \<times> string option) list \<Rightarrow> bool" where
  "never_tripped c ticks \<longleftrightarrow> (\<forall>n\<le>length ticks. \<not> snd (breaker_run c (take n ticks) start_breaker))"

lemma never_tripped_snoc:
  assumes "never_tripped c (ticks @ [x])"
  shows "never_tripped c ticks \<and> \<not> snd (breaker_run c (ticks @ [x]) start_breaker)"
proof
  show "never_tripped c ticks"
    unfolding never_tripped_def
  proof (intro allI impI)
    fix n assume n: "n \<le> length ticks"
    then have "\<not> snd (breaker_run c (take n (ticks @ [x])) start_breaker)"
      using assms unfolding never_tripped_def by (metis le_SucI length_append_singleton)
    then show "\<not> snd (breaker_run c (take n ticks) start_breaker)" using n by simp
  qed
  show "\<not> snd (breaker_run c (ticks @ [x]) start_breaker)"
    using assms unfolding never_tripped_def by (metis order_refl take_all)
qed

lemma run_quiet:
  "sorted (tick_times ticks) \<Longrightarrow> 0 \<le> bk_windowSeconds c \<Longrightarrow> 1 \<le> bk_maxErrors c \<Longrightarrow> never_tripped c ticks \<Longrightarrow>
   quiet_inv c (error_times ticks) (fst (breaker_run c ticks start_breaker))"
proof (induction ticks rule: rev_induct)
  case Nil
  then show ?case by (simp add: start_breaker_def defaultCircuitBreakerState_def quiet_inv_def)
next
  case (snoc x ticks)
  obtain out now msg where x: "x = (out, now, msg)" by (cases x)
  with snoc(2) have s: "sorted (tick_times ticks)" "\<forall>t\<in>set (error_times ticks). t \<le> now"
    using sorted_ticks_snoc by blast+
  have n: "never_tripped c ticks" "\<not> snd (breaker_run c (ticks @ [x]) start_breaker)"
    using never_tripped_snoc [OF snoc(5)] by blast+
  have q: "quiet_inv c (error_times ticks) (fst (breaker_run c ticks start_breaker))"
    by (rule snoc(1) [OF s(1) snoc(3,4) n(1)])
  show ?case
    using n(2) q quiet_step [OF run_window [OF s(1) snoc(3)] q s(2) snoc(4), of msg]
    by (auto simp: x breaker_run_snoc applyCircuitBreakerOutcome_def Let_def)
qed

text \<open>C31: When the breaker trips, the window that ends with the error that trips it has seen at least as many errors
  as the limit. As long as it has not tripped, no window of that length ever holds more than twice the limit
  minus three: the errors around the start of a window can be that many, because the window is not a sliding one.\<close>

theorem breaker_bounds:
  assumes "sorted (tick_times ticks)" "0 \<le> bk_windowSeconds c" "1 \<le> bk_maxErrors c"
  shows "(snd (breaker_run c ticks start_breaker) \<longrightarrow>
      bk_maxErrors c \<le> recent (bk_windowSeconds c * 1000) (last (tick_times ticks)) (error_times ticks)) \<and>
    (never_tripped c ticks \<longrightarrow> (\<forall>now. (\<forall>t\<in>set (tick_times ticks). t \<le> now) \<longrightarrow>
      recent (bk_windowSeconds c * 1000) now (error_times ticks) \<le> max 0 (2 * bk_maxErrors c - 3)))"
proof (intro conjI impI allI)
  assume t: "snd (breaker_run c ticks start_breaker)"
  then obtain ticks' out now msg where x: "ticks = ticks' @ [(out, now, msg)]"
    by (cases ticks rule: rev_cases) (auto simp: start_breaker_def)
  have e: "out = TickError" using t by (auto simp: x breaker_run_snoc applyCircuitBreakerOutcome_def split: if_splits)
  let ?s = "fst (breaker_run c ticks start_breaker)"
  have m: "bk_maxErrors c \<le> bs_consecutiveErrors ?s"
    using t e by (simp add: x breaker_run_snoc applyCircuitBreakerOutcome_def Let_def)
  have w: "window_inv c (error_times ticks) ?s" by (rule run_window [OF assms(1,2)])
  then obtain a where a: "bs_consecutiveErrors ?s = count_of (\<lambda>t. a \<le> t) (error_times ticks)" "now - a \<le> bk_windowSeconds c * 1000"
    using e unfolding window_inv_def by (cases "bs_errorWindowStartAt ?s") (auto simp: x)
  have "count_of (\<lambda>t. a \<le> t) (error_times ticks) \<le> recent (bk_windowSeconds c * 1000) now (error_times ticks)"
    unfolding recent_count by (rule count_of_mono) (use a(2) in simp)
  then show "bk_maxErrors c \<le> recent (bk_windowSeconds c * 1000) (last (tick_times ticks)) (error_times ticks)"
    using m a(1) by (simp add: x)
next
  fix now assume n: "never_tripped c ticks" and le: "\<forall>t\<in>set (tick_times ticks). t \<le> now"
  let ?s = "fst (breaker_run c ticks start_breaker)" and ?ts = "error_times ticks"
  have w: "window_inv c ?ts ?s" by (rule run_window [OF assms(1,2)])
  have q: "quiet_inv c ?ts ?s" by (rule run_quiet [OF assms n])
  show "recent (bk_windowSeconds c * 1000) now ?ts \<le> max 0 (2 * bk_maxErrors c - 3)"
  proof (cases "bs_errorWindowStartAt ?s")
    case None
    then show ?thesis using w assms(3) by (simp add: window_inv_def recent_count)
  next
    case (Some a)
    then have "a \<le> now" using w le error_times_tick by (auto simp: window_inv_def)
    then have "recent (bk_windowSeconds c * 1000) now ?ts \<le> count_of (\<lambda>t. a \<le> t) ?ts +
        count_of (\<lambda>t. a - bk_windowSeconds c * 1000 \<le> t \<and> t < a) ?ts"
      unfolding recent_count by (intro count_of_split) auto
    moreover have "count_of (\<lambda>t. a \<le> t) ?ts \<le> bk_maxErrors c - 1"
      "count_of (\<lambda>t. a - bk_windowSeconds c * 1000 \<le> t \<and> t < a) ?ts \<le> bk_maxErrors c - 2"
      using w q Some by (simp_all add: window_inv_def quiet_inv_def)
    ultimately have "recent (bk_windowSeconds c * 1000) now ?ts \<le> 2 * bk_maxErrors c - 3" by linarith
    then show ?thesis by simp
  qed
qed

text \<open>Two errors a second apart trip a breaker with the limit 2; three errors of which the first belongs to the window
  before do not trip one with the limit 3, although they lie within the length of one window.\<close>

definition small_breaker :: "int \<Rightarrow> breaker_config" where
  "small_breaker n = \<lparr> bk_maxErrors = n, bk_windowSeconds = 10, bk_cooldownSeconds = 900, bk_action = StopBot \<rparr>"

theorem breaker_bounds_witness:
  "2 \<le> recent 10000 2000 [1000, 2000] \<and> recent 10000 13000 [1000, 9000, 12000, 13000] \<le> 3"
proof -
  let ?a = "[(TickError, 1000, None), (TickOk, 1500, None), (TickError, 2000, None)]"
  let ?b = "[(TickError, 1000, None), (TickError, 9000, None), (TickError, 12000, None), (TickError, 13000, None)]"
  have a: "snd (breaker_run (small_breaker 2) ?a start_breaker)" "sorted (tick_times ?a)"
    by code_simp+
  have b: "sorted (tick_times ?b)" by code_simp
  have "\<forall>n\<in>set [0, 1, 2, 3, 4]. \<not> snd (breaker_run (small_breaker 3) (take n ?b) start_breaker)" by code_simp
  moreover have "n \<in> set [0, 1, 2, 3, 4]" if "n \<le> length ?b" for n using that by simp linarith
  ultimately have nb: "never_tripped (small_breaker 3) ?b" unfolding never_tripped_def by blast
  show ?thesis
    using breaker_bounds [OF a(2), of "small_breaker 2"] a(1) breaker_bounds [OF b, of "small_breaker 3"] nb
    by (simp add: small_breaker_def tick_times_def error_times_def)
qed

end
