(* ===== verification/Capabilities.thy ===== *)
theory Capabilities
  imports JsDate
begin

text \<open>
  What a plan lets its user do (packages/core/src/capabilities): the capabilities of the plans, the overrides
  and the stored snapshot that change them, the features of the product behind them, and the policy the
  runner reads from the parameters of a bot (apps/runner/src/capabilities/guard.ts). A capability is its key;
  a record of capabilities is a map from keys.
\<close>

section \<open>Plans\<close>

datatype plan_tier = PlanFree | PlanPro | PlanPremium | PlanEnterprise

definition normalize_plan :: "jsval \<Rightarrow> plan_tier option" where
  "normalize_plan v =
     (case as_str v of
        Some s \<Rightarrow> if s = ''free'' then Some PlanFree else if s = ''pro'' then Some PlanPro
                  else if s = ''premium'' then Some PlanPremium else if s = ''enterprise'' then Some PlanEnterprise else None
      | None \<Rightarrow> None)"

definition normalizePlanTier :: "jsval \<Rightarrow> plan_tier" where
  "normalizePlanTier v = opt_get (normalize_plan v) PlanFree"

fun planRank :: "plan_tier \<Rightarrow> int" where
  "planRank PlanEnterprise = 4"
| "planRank PlanPremium = 3"
| "planRank PlanPro = 2"
| "planRank PlanFree = 1"

text \<open>The plans in the order of their ranks.\<close>

instantiation plan_tier :: linorder
begin

definition less_eq_plan_tier :: "plan_tier \<Rightarrow> plan_tier \<Rightarrow> bool" where
  "less_eq_plan_tier p q \<longleftrightarrow> planRank p \<le> planRank q"

definition less_plan_tier :: "plan_tier \<Rightarrow> plan_tier \<Rightarrow> bool" where
  "less_plan_tier p q \<longleftrightarrow> planRank p < planRank q"

instance
proof
  fix p q r :: plan_tier
  show "(p < q) = (p \<le> q \<and> \<not> q \<le> p)" by (auto simp: less_plan_tier_def less_eq_plan_tier_def)
  show "p \<le> p" by (simp add: less_eq_plan_tier_def)
  show "p \<le> q \<or> q \<le> p" by (auto simp: less_eq_plan_tier_def)
  show "p \<le> q \<Longrightarrow> q \<le> r \<Longrightarrow> p \<le> r" by (simp add: less_eq_plan_tier_def)
  show "p \<le> q \<Longrightarrow> q \<le> p \<Longrightarrow> p = q" by (cases p; cases q) (simp_all add: less_eq_plan_tier_def)
qed

end

definition isPlanAtLeast :: "plan_tier \<Rightarrow> plan_tier option \<Rightarrow> bool" where
  "isPlanAtLeast plan minPlan = (case minPlan of None \<Rightarrow> True | Some m \<Rightarrow> planRank m \<le> planRank plan)"

lemma isPlanAtLeast_le: "isPlanAtLeast p m \<longleftrightarrow> (case m of None \<Rightarrow> True | Some q \<Rightarrow> q \<le> p)"
  by (simp add: isPlanAtLeast_def less_eq_plan_tier_def split: option.split)

section \<open>The capabilities of a plan\<close>

definition CAPABILITY_KEYS :: "string list" where
  "CAPABILITY_KEYS = [
     ''plugin.signal'', ''plugin.execution'', ''plugin.signal_source'',
     ''plugin.notification'', ''plugin.exchange_extension'', ''plugin.notification.telegram'',
     ''plugin.notification.webhook'', ''execution.mode.simple'', ''execution.mode.dca'',
     ''execution.mode.grid'', ''execution.mode.dip_reversion'', ''backtesting.run'',
     ''backtesting.compare'', ''strategy.kind.local'', ''strategy.kind.ai'',
     ''strategy.kind.composite'', ''strategy.kind.prediction_copier'', ''strategy.kind.futures_grid'',
     ''strategy.model.advanced'', ''product.ai_predictions'', ''product.ai_prediction_builder'',
     ''product.market_intelligence'', ''product.market_intelligence_advanced'', ''product.ai_agent_chat'',
     ''product.ai_agent_account_reads'', ''product.ai_agent_custom_profiles'', ''product.ai_agent_trade_drafts'',
     ''product.ai_position_copilot'', ''product.ai_position_monitoring'', ''product.ai_multi_exchange_analysis'',
     ''product.local_strategies'', ''product.composite_strategies'', ''product.grid_bots'',
     ''product.vaults'', ''product.paper_trading'', ''product.admin_advanced'',
     ''notification.send.trade'', ''notification.send.risk'', ''notification.send.error'']"

definition FREE_TRUE :: "string list" where
  "FREE_TRUE = [
     ''plugin.signal'', ''plugin.execution'', ''plugin.signal_source'',
     ''plugin.notification'', ''plugin.exchange_extension'', ''plugin.notification.telegram'',
     ''execution.mode.simple'', ''strategy.kind.local'', ''product.local_strategies'',
     ''product.paper_trading'', ''product.admin_advanced'', ''notification.send.trade'',
     ''notification.send.risk'', ''notification.send.error'']"

definition PRO_TRUE :: "string list" where
  "PRO_TRUE = FREE_TRUE @ [
     ''plugin.notification.webhook'', ''execution.mode.grid'', ''execution.mode.dca'',
     ''execution.mode.dip_reversion'', ''backtesting.run'', ''backtesting.compare'',
     ''strategy.kind.ai'', ''strategy.kind.composite'', ''strategy.kind.futures_grid'',
     ''strategy.model.advanced'', ''product.ai_predictions'', ''product.ai_prediction_builder'',
     ''product.market_intelligence'', ''product.ai_agent_chat'', ''product.ai_position_copilot'',
     ''product.composite_strategies'', ''product.grid_bots'']"

definition PREMIUM_TRUE :: "string list" where
  "PREMIUM_TRUE = PRO_TRUE @ [
     ''strategy.kind.prediction_copier'', ''product.market_intelligence_advanced'', ''product.ai_agent_account_reads'',
     ''product.ai_agent_custom_profiles'', ''product.ai_position_copilot'', ''product.ai_position_monitoring'',
     ''product.ai_multi_exchange_analysis'']"

definition ENTERPRISE_TRUE :: "string list" where
  "ENTERPRISE_TRUE = PREMIUM_TRUE"

type_synonym plan_capabilities = "string \<rightharpoonup> bool"

definition buildCapabilityMap :: "string list \<Rightarrow> plan_capabilities" where
  "buildCapabilityMap trueKeys = fold (\<lambda>k row. row(k \<mapsto> k \<in> set trueKeys)) CAPABILITY_KEYS Map.empty"

fun PLAN_CAPABILITIES_DEFAULTS :: "plan_tier \<Rightarrow> plan_capabilities" where
  "PLAN_CAPABILITIES_DEFAULTS PlanFree = buildCapabilityMap FREE_TRUE"
| "PLAN_CAPABILITIES_DEFAULTS PlanPro = buildCapabilityMap PRO_TRUE"
| "PLAN_CAPABILITIES_DEFAULTS PlanPremium = buildCapabilityMap PREMIUM_TRUE"
| "PLAN_CAPABILITIES_DEFAULTS PlanEnterprise = buildCapabilityMap ENTERPRISE_TRUE"

text \<open>The copy runs over the keys of the source, which are the capability keys.\<close>

definition getDefaultPlanCapabilities :: "plan_tier \<Rightarrow> plan_capabilities" where
  "getDefaultPlanCapabilities plan =
     fold (\<lambda>k out. out(k \<mapsto> PLAN_CAPABILITIES_DEFAULTS plan k = Some True)) CAPABILITY_KEYS Map.empty"

definition hasCapability :: "plan_capabilities \<Rightarrow> string \<Rightarrow> bool" where
  "hasCapability capabilities key \<longleftrightarrow> capabilities key = Some True"

definition requiredPlanForCapability :: "string \<Rightarrow> plan_tier option" where
  "requiredPlanForCapability key =
     (if hasCapability (getDefaultPlanCapabilities PlanFree) key then Some PlanFree
      else if hasCapability (getDefaultPlanCapabilities PlanPro) key then Some PlanPro
      else if hasCapability (getDefaultPlanCapabilities PlanPremium) key then Some PlanPremium
      else if hasCapability (getDefaultPlanCapabilities PlanEnterprise) key then Some PlanEnterprise
      else None)"

section \<open>Overrides and snapshots\<close>

definition normalizeCapabilityOverrides :: "jsval \<Rightarrow> plan_capabilities" where
  "normalizeCapabilityOverrides v =
     (case as_object v of
        None \<Rightarrow> Map.empty
      | Some row \<Rightarrow> fold (\<lambda>k out. case get row k of JBool b \<Rightarrow> out(k \<mapsto> b) | _ \<Rightarrow> out) CAPABILITY_KEYS Map.empty)"

record capability_snapshot =
  cs_values :: plan_capabilities
  cs_evaluatedAt :: string

text \<open>\<open>new Date(text)\<close> as its ISO text, or the epoch.\<close>

definition iso_or_epoch :: "(string \<Rightarrow> jsnum) \<Rightarrow> jsval \<Rightarrow> string" where
  "iso_or_epoch other v = (case parse_date other (norm_string v) of Fin x \<Rightarrow> toISOString \<lfloor>x\<rfloor> | _ \<Rightarrow> toISOString 0)"

definition normalizeCapabilitySnapshot :: "(string \<Rightarrow> jsnum) \<Rightarrow> jsval \<Rightarrow> capability_snapshot option" where
  "normalizeCapabilitySnapshot other v =
     (case as_object v of
        None \<Rightarrow> None
      | Some row \<Rightarrow>
          if js_number (get row ''version'') \<noteq> Fin 1 then None
          else Some \<lparr> cs_values = normalizeCapabilityOverrides (get row ''values''),
                      cs_evaluatedAt = iso_or_epoch other (get row ''evaluatedAt'') \<rparr>)"

definition createCapabilitySnapshot :: "jsobj \<Rightarrow> int \<Rightarrow> capability_snapshot" where
  "createCapabilitySnapshot vals now =
     \<lparr> cs_values = normalizeCapabilityOverrides (JObj vals), cs_evaluatedAt = toISOString now \<rparr>"

definition applyOverrides :: "plan_capabilities \<Rightarrow> plan_capabilities \<Rightarrow> plan_capabilities" where
  "applyOverrides target overrides =
     fold (\<lambda>k out. case overrides k of Some b \<Rightarrow> out(k \<mapsto> b) | None \<Rightarrow> out) CAPABILITY_KEYS target"

definition resolveCapabilities :: "(string \<Rightarrow> jsnum) \<Rightarrow> jsval \<Rightarrow> jsval \<Rightarrow> jsval \<Rightarrow> plan_capabilities" where
  "resolveCapabilities other plan overrides snapshot =
     (let out = applyOverrides (getDefaultPlanCapabilities (normalizePlanTier plan)) (normalizeCapabilityOverrides overrides)
      in case normalizeCapabilitySnapshot other snapshot of
           Some s \<Rightarrow> applyOverrides out (cs_values s)
         | None \<Rightarrow> out)"

section \<open>Evaluation\<close>

record capability_evaluation =
  ev_allowed :: bool
  ev_capability :: string
  ev_currentPlan :: plan_tier
  ev_requiredPlan :: "plan_tier option"

definition evaluateCapability :: "plan_tier \<Rightarrow> plan_capabilities \<Rightarrow> string \<Rightarrow> capability_evaluation" where
  "evaluateCapability plan capabilities capability =
     \<lparr> ev_allowed = hasCapability capabilities capability, ev_capability = capability, ev_currentPlan = plan,
       ev_requiredPlan = requiredPlanForCapability capability \<rparr>"

record capability_denied =
  cd_capability :: string
  cd_currentPlan :: plan_tier
  cd_requiredPlan :: "plan_tier option"

definition createCapabilityDeniedError :: "string \<Rightarrow> plan_tier \<Rightarrow> plan_tier option \<Rightarrow> capability_denied" where
  "createCapabilityDeniedError capability currentPlan requiredPlan =
     \<lparr> cd_capability = capability, cd_currentPlan = currentPlan,
       cd_requiredPlan = opt_or requiredPlan (requiredPlanForCapability capability) \<rparr>"

definition assertCapability :: "plan_capabilities \<Rightarrow> string \<Rightarrow> plan_tier \<Rightarrow> capability_denied + unit" where
  "assertCapability capabilities capability plan =
     (let e = evaluateCapability plan capabilities capability
      in if ev_allowed e then Inr ()
         else Inl (createCapabilityDeniedError (ev_capability e) (ev_currentPlan e) (ev_requiredPlan e)))"

text \<open>The capability a plugin needs, by its id or else by its kind.\<close>

definition PLUGIN_ID_CAPABILITY_MAP :: "(string \<times> string) list" where
  "PLUGIN_ID_CAPABILITY_MAP = [
     (''core.signal.legacy_dummy'', ''plugin.signal''),
     (''core.signal.prediction_copier'', ''strategy.kind.prediction_copier''),
     (''core.execution.simple'', ''execution.mode.simple''),
     (''core.execution.dca'', ''execution.mode.dca''),
     (''core.execution.grid'', ''execution.mode.grid''),
     (''core.execution.dip_reversion'', ''execution.mode.dip_reversion''),
     (''core.execution.futures_engine_legacy'', ''execution.mode.simple''),
     (''core.execution.prediction_copier'', ''strategy.kind.prediction_copier''),
     (''core.execution.futures_grid'', ''strategy.kind.futures_grid''),
     (''core.signal_source.none'', ''plugin.signal_source''),
     (''core.signal_source.prediction_state'', ''strategy.kind.prediction_copier''),
     (''core.notification.telegram'', ''plugin.notification.telegram''),
     (''core.notification.webhook'', ''plugin.notification.webhook'')]"

definition capabilityForPlugin :: "string \<Rightarrow> string \<Rightarrow> string option" where
  "capabilityForPlugin pluginId kind =
     opt_or (map_of PLUGIN_ID_CAPABILITY_MAP pluginId)
       (if kind \<in> set [''signal'', ''execution'', ''signal_source'', ''notification'', ''exchange_extension'']
        then Some (''plugin.'' @ kind) else None)"

section \<open>Features of the product\<close>

definition PRODUCT_FEATURE_KEYS :: "string list" where
  "PRODUCT_FEATURE_KEYS = [
     ''ai_predictions'', ''ai_prediction_builder'', ''market_intelligence'',
     ''market_intelligence_advanced'', ''ai_agent_chat'', ''ai_agent_account_reads'',
     ''ai_agent_custom_profiles'', ''ai_position_copilot'', ''ai_position_monitoring'',
     ''ai_multi_exchange_analysis'', ''local_strategies'', ''composite_strategies'',
     ''grid_bots'', ''vaults'', ''paper_trading'',
     ''admin_advanced'']"

definition PRODUCT_FEATURE_DEFINITIONS :: "(string \<times> string \<times> string) list" where
  "PRODUCT_FEATURE_DEFINITIONS = [
     (''ai_predictions'', ''product.ai_predictions'', ''AI predictions''),
     (''ai_prediction_builder'', ''product.ai_prediction_builder'', ''AI prediction builder''),
     (''market_intelligence'', ''product.market_intelligence'', ''Market Intelligence''),
     (''market_intelligence_advanced'', ''product.market_intelligence_advanced'', ''Advanced Market Intelligence''),
     (''ai_agent_chat'', ''product.ai_agent_chat'', ''AI Agent Chat''),
     (''ai_agent_account_reads'', ''product.ai_agent_account_reads'', ''AI agent account reads''),
     (''ai_agent_custom_profiles'', ''product.ai_agent_custom_profiles'', ''Custom AI agent profiles''),
     (''ai_position_copilot'', ''product.ai_position_copilot'', ''Position Copilot''),
     (''ai_position_monitoring'', ''product.ai_position_monitoring'', ''AI position monitoring''),
     (''ai_multi_exchange_analysis'', ''product.ai_multi_exchange_analysis'', ''Multi-exchange AI analysis''),
     (''local_strategies'', ''product.local_strategies'', ''Local strategies''),
     (''composite_strategies'', ''product.composite_strategies'', ''Composite strategies''),
     (''grid_bots'', ''product.grid_bots'', ''Grid bots''),
     (''vaults'', ''product.vaults'', ''Vaults''),
     (''paper_trading'', ''product.paper_trading'', ''Paper trading''),
     (''admin_advanced'', ''product.admin_advanced'', ''Advanced admin'')]"

definition capabilityForProductFeature :: "string \<Rightarrow> string option" where
  "capabilityForProductFeature feature = map_option fst (map_of PRODUCT_FEATURE_DEFINITIONS feature)"

definition requiredPlanForProductFeature :: "string \<Rightarrow> plan_tier option" where
  "requiredPlanForProductFeature feature =
     (case capabilityForProductFeature feature of Some c \<Rightarrow> requiredPlanForCapability c | None \<Rightarrow> None)"

record feature_gate =
  fg_evaluation :: capability_evaluation
  fg_feature :: string
  fg_title :: string

definition evaluateProductFeature :: "string \<Rightarrow> plan_capabilities \<Rightarrow> plan_tier \<Rightarrow> feature_gate option" where
  "evaluateProductFeature feature capabilities plan =
     (case map_of PRODUCT_FEATURE_DEFINITIONS feature of
        Some (capability, title) \<Rightarrow>
          Some \<lparr> fg_evaluation = evaluateCapability plan capabilities capability, fg_feature = feature, fg_title = title \<rparr>
      | None \<Rightarrow> None)"

definition resolveProductFeatureGates :: "plan_capabilities \<Rightarrow> plan_tier \<Rightarrow> (string \<times> feature_gate option) list" where
  "resolveProductFeatureGates capabilities plan =
     map (\<lambda>f. (f, evaluateProductFeature f capabilities plan)) PRODUCT_FEATURE_KEYS"

section \<open>The policy of a bot\<close>

fun collect_ids :: "nat \<Rightarrow> string list \<Rightarrow> jsval list \<Rightarrow> string list" where
  "collect_ids limit out [] = out"
| "collect_ids limit out (v # vs) =
     (let n = norm_string v
      in if n = [] \<or> n \<in> set out then collect_ids limit out vs
         else if limit \<le> length out + 1 then out @ [n]
         else collect_ids limit (out @ [n]) vs)"

definition normalizeStringList :: "jsval \<Rightarrow> nat \<Rightarrow> string list" where
  "normalizeStringList v limit = (case as_array v of Some vs \<Rightarrow> collect_ids limit [] vs | None \<Rightarrow> [])"

record runner_policy =
  rp_plan :: plan_tier
  rp_allowedPluginIds :: "string list option"
  rp_capabilities :: plan_capabilities

definition field_of :: "jsval \<Rightarrow> string \<Rightarrow> jsval" where
  "field_of v k = get (opt_get (as_object v) []) k"

definition policy_snapshot :: "jsval \<Rightarrow> jsval" where
  "policy_snapshot params = field_of (field_of params ''plugins'') ''policySnapshot''"

fun plan_str :: "plan_tier \<Rightarrow> string" where
  "plan_str PlanFree = ''free''"
| "plan_str PlanPro = ''pro''"
| "plan_str PlanPremium = ''premium''"
| "plan_str PlanEnterprise = ''enterprise''"

definition readRunnerCapabilityPolicy :: "(string \<Rightarrow> jsnum) \<Rightarrow> jsval \<Rightarrow> runner_policy" where
  "readRunnerCapabilityPolicy other params =
     (let snap = policy_snapshot params; plan = normalizePlanTier (field_of snap ''plan'');
          allowedRaw = field_of snap ''allowedPluginIds''
      in \<lparr> rp_plan = plan,
           rp_allowedPluginIds = (if nullish allowedRaw then None else Some (normalizeStringList allowedRaw 500)),
           rp_capabilities = resolveCapabilities other (JStr (plan_str plan)) JUndef (field_of snap ''capabilitySnapshot'') \<rparr>)"

definition isAllowedByPolicySnapshot :: "string \<Rightarrow> string list option \<Rightarrow> bool" where
  "isAllowedByPolicySnapshot pluginId allowed = (case allowed of None \<Rightarrow> True | Some ids \<Rightarrow> pluginId \<in> set ids)"

definition isPluginCapabilityAllowed :: "string \<Rightarrow> string \<Rightarrow> plan_capabilities \<Rightarrow> bool \<times> string option" where
  "isPluginCapabilityAllowed pluginId kind capabilities =
     (case capabilityForPlugin pluginId kind of
        None \<Rightarrow> (True, None)
      | Some c \<Rightarrow> (capabilities c = Some True, Some c))"

definition isAllowedByMinPlan :: "plan_tier option \<Rightarrow> plan_tier \<Rightarrow> bool" where
  "isAllowedByMinPlan minPlan plan = isPlanAtLeast plan minPlan"

section \<open>What the records hold\<close>

lemma fold_upd: "fold (\<lambda>k row. row(k \<mapsto> f k)) ks m k = (if k \<in> set ks then Some (f k) else m k)"
  by (induction ks arbitrary: m) auto

lemma fold_keep:
  "fold (\<lambda>k out. case g k of Some b \<Rightarrow> out(k \<mapsto> b) | None \<Rightarrow> out) ks m k =
   (if k \<in> set ks then (case g k of Some b \<Rightarrow> Some b | None \<Rightarrow> m k) else m k)"
  by (induction ks arbitrary: m) (auto split: option.split)

lemma default_eq:
  "getDefaultPlanCapabilities p k =
     (if k \<in> set CAPABILITY_KEYS then Some (PLAN_CAPABILITIES_DEFAULTS p k = Some True) else None)"
  by (simp add: getDefaultPlanCapabilities_def fold_upd)

lemma build_eq: "buildCapabilityMap ks k = Some True \<longleftrightarrow> k \<in> set CAPABILITY_KEYS \<and> k \<in> set ks"
  by (simp add: buildCapabilityMap_def fold_upd)

lemma has_default:
  "hasCapability (getDefaultPlanCapabilities p) k \<longleftrightarrow> k \<in> set CAPABILITY_KEYS \<and> PLAN_CAPABILITIES_DEFAULTS p k = Some True"
  by (auto simp: hasCapability_def default_eq)

lemma plans_grow:
  "p \<le> q \<Longrightarrow> hasCapability (getDefaultPlanCapabilities p) k \<Longrightarrow> hasCapability (getDefaultPlanCapabilities q) k"
  by (cases p; cases q)
    (auto simp: has_default build_eq less_eq_plan_tier_def PRO_TRUE_def PREMIUM_TRUE_def ENTERPRISE_TRUE_def)

text \<open>C22: A larger plan has every capability of a smaller one, and the plan reported as required is the least that
  has the capability: with the capabilities of a plan itself, an evaluation allows exactly the capabilities whose
  required plan is at most that plan, a capability without a required plan is allowed by none, and the assertion
  fails exactly then, with the plan that would be enough.\<close>

theorem required_plan_least:
  "(ev_allowed (evaluateCapability p (getDefaultPlanCapabilities p) k) \<longleftrightarrow>
      (case ev_requiredPlan (evaluateCapability p (getDefaultPlanCapabilities p) k) of Some q \<Rightarrow> q \<le> p | None \<Rightarrow> False)) \<and>
   (assertCapability (getDefaultPlanCapabilities p) k p =
      (case requiredPlanForCapability k of
         Some q \<Rightarrow> if q \<le> p then Inr () else Inl \<lparr> cd_capability = k, cd_currentPlan = p, cd_requiredPlan = Some q \<rparr>
       | None \<Rightarrow> Inl \<lparr> cd_capability = k, cd_currentPlan = p, cd_requiredPlan = None \<rparr>))"
proof -
  let ?has = "\<lambda>q. hasCapability (getDefaultPlanCapabilities q) k"
  have up: "?has a \<Longrightarrow> planRank a \<le> planRank b \<Longrightarrow> ?has b" for a b
    using plans_grow [of a b k] by (simp add: less_eq_plan_tier_def)
  have "?has p \<longleftrightarrow> (case requiredPlanForCapability k of Some q \<Rightarrow> q \<le> p | None \<Rightarrow> False)"
    unfolding requiredPlanForCapability_def less_eq_plan_tier_def
    using up [of PlanFree PlanPro] up [of PlanPro PlanPremium] up [of PlanPremium PlanEnterprise]
    by (cases p) auto
  then show ?thesis
    by (auto simp: evaluateCapability_def assertCapability_def createCapabilityDeniedError_def Let_def opt_or_def split: option.splits)
qed

text \<open>What a stored object says of a capability.\<close>

definition told :: "jsval \<Rightarrow> string \<Rightarrow> bool option" where
  "told v k = (case field_of v k of JBool b \<Rightarrow> Some b | _ \<Rightarrow> None)"

definition snapshot_valid :: "jsval \<Rightarrow> bool" where
  "snapshot_valid v \<longleftrightarrow> as_object v \<noteq> None \<and> js_number (field_of v ''version'') = Fin 1"

lemma overrides_eq: "normalizeCapabilityOverrides v k = (if k \<in> set CAPABILITY_KEYS then told v k else None)"
proof (cases "as_object v")
  case None
  then show ?thesis by (simp add: normalizeCapabilityOverrides_def told_def field_of_def opt_get_def)
next
  case (Some row)
  have "(\<lambda>k out. case get row k of JBool b \<Rightarrow> out(k \<mapsto> b) | _ \<Rightarrow> out) =
      (\<lambda>k out. case told v k of Some b \<Rightarrow> out(k \<mapsto> b) | None \<Rightarrow> out)"
    using Some by (intro ext) (simp add: told_def field_of_def opt_get_def split: jsval.split)
  then show ?thesis
    using Some by (simp add: normalizeCapabilityOverrides_def fold_keep split: option.split)
qed

lemma apply_eq:
  "applyOverrides m ov k = (if k \<in> set CAPABILITY_KEYS then (case ov k of Some b \<Rightarrow> Some b | None \<Rightarrow> m k) else m k)"
  by (simp add: applyOverrides_def fold_keep)

lemma snapshot_eq:
  "normalizeCapabilitySnapshot other v =
     (if snapshot_valid v then Some \<lparr> cs_values = normalizeCapabilityOverrides (field_of v ''values''),
        cs_evaluatedAt = iso_or_epoch other (field_of v ''evaluatedAt'') \<rparr> else None)"
  by (simp add: normalizeCapabilitySnapshot_def snapshot_valid_def field_of_def opt_get_def split: option.split)

lemma capability_precedence_eq:
  "resolveCapabilities other plan overrides snapshot k =
     (if k \<in> set CAPABILITY_KEYS
      then Some (case (if snapshot_valid snapshot then told (field_of snapshot ''values'') k else None) of
                   Some b \<Rightarrow> b
                 | None \<Rightarrow> (case told overrides k of
                              Some b \<Rightarrow> b
                            | None \<Rightarrow> hasCapability (getDefaultPlanCapabilities (normalizePlanTier plan)) k))
      else None)"
  by (auto simp: resolveCapabilities_def Let_def snapshot_eq apply_eq overrides_eq default_eq has_default split: option.split)

text \<open>C23: Whatever is stored, every capability is resolved, and by this precedence: what a snapshot of version 1 says
  of it, else what the overrides say, else the plan, where anything that is not a plan counts as the free one.
  Nothing else that is stored can grant a capability.\<close>

theorem capability_precedence:
  "resolveCapabilities other plan overrides snapshot k =
     (if k \<in> set CAPABILITY_KEYS
      then Some (case (if snapshot_valid snapshot then told (field_of snapshot ''values'') k else None) of
                   Some b \<Rightarrow> b
                 | None \<Rightarrow> (case told overrides k of
                              Some b \<Rightarrow> b
                            | None \<Rightarrow> hasCapability (getDefaultPlanCapabilities (normalizePlanTier plan)) k))
      else None)"
  by (rule capability_precedence_eq)

end
