(* ===== verification/PluginResolution.thy ===== *)
theory PluginResolution
  imports ExecutionSettings Capabilities "HOL-Library.AList"
begin

text \<open>
  Which plugins a tick of a bot runs (apps/runner/src/plugins/resolution.ts with config.ts, registry.ts and the
  registration of loader.ts, and the manifests of builtin): the signal engine, the execution mode and the
  signal source. A plugin is its manifest; loading external modules is not modelled, their plugins are an
  argument of the registration.
\<close>

section \<open>The registry\<close>

record plugin =
  pl_id :: string
  pl_kind :: string
  pl_version :: string
  pl_minPlan :: "plan_tier option"

type_synonym registry = "(string \<times> plugin) list"

definition all_digits :: "string \<Rightarrow> bool" where
  "all_digits s \<longleftrightarrow> s \<noteq> [] \<and> list_all is_digit s"

definition is_suffix_char :: "char \<Rightarrow> bool" where
  "is_suffix_char c \<longleftrightarrow> is_digit c \<or> (65 \<le> code c \<and> code c \<le> 90) \<or> (97 \<le> code c \<and> code c \<le> 122) \<or> c = CHR ''-'' \<or> c = CHR ''.''"

text \<open>\<open>SEMVER_PATTERN\<close>: three numbers, and a suffix after a minus or a plus.\<close>

definition semver :: "string \<Rightarrow> bool" where
  "semver s =
     (let a = takeWhile is_digit s; r = dropWhile is_digit s; b = takeWhile is_digit (tl r); r' = dropWhile is_digit (tl r);
          c = takeWhile is_digit (tl r'); r'' = dropWhile is_digit (tl r')
      in a \<noteq> [] \<and> take 1 r = ''.'' \<and> b \<noteq> [] \<and> take 1 r' = ''.'' \<and> c \<noteq> [] \<and>
         (r'' = [] \<or> (hd r'' \<in> {CHR ''-'', CHR ''+''} \<and> tl r'' \<noteq> [] \<and> list_all is_suffix_char (tl r''))))"

definition assertPluginManifest :: "plugin \<Rightarrow> string + unit" where
  "assertPluginManifest p =
     (let pid = str_trim (pl_id p)
      in if pid = [] then Inl ''plugin_manifest_id_required''
         else if \<not> semver (pl_version p) then Inl (''plugin_manifest_version_invalid:'' @ pid)
         else if pl_kind p \<notin> set [''signal'', ''execution'', ''notification'', ''exchange_extension'', ''signal_source'']
           then Inl (''plugin_manifest_kind_invalid:'' @ pid)
         else Inr ())"

definition reg_get :: "registry \<Rightarrow> string \<Rightarrow> plugin option" where
  "reg_get reg pid = map_of reg (str_trim pid)"

definition register :: "registry \<Rightarrow> plugin \<Rightarrow> string + registry" where
  "register reg p =
     bind_sum (assertPluginManifest p) (\<lambda>_.
       let pid = str_trim (pl_id p)
       in if map_of reg pid \<noteq> None then Inl (''plugin_duplicate_id:'' @ pid) else Inr (reg @ [(pid, p)]))"

definition listByKind :: "registry \<Rightarrow> string \<Rightarrow> plugin list" where
  "listByKind reg kind = filter (\<lambda>p. pl_kind p = kind) (map snd reg)"

text \<open>A plugin without an id is skipped, and so is one whose id is taken; an invalid one throws, and what was
  registered before it stays.\<close>

fun registerPlugins :: "registry \<Rightarrow> plugin list \<Rightarrow> registry \<times> string option" where
  "registerPlugins reg [] = (reg, None)"
| "registerPlugins reg (p # ps) =
     (if pl_id p = [] \<or> reg_get reg (pl_id p) \<noteq> None then registerPlugins reg ps
      else case register reg p of
             Inl e \<Rightarrow> (reg, Some e)
           | Inr reg' \<Rightarrow> registerPlugins reg' ps)"

section \<open>Built-in plugins\<close>

definition builtin :: "string \<Rightarrow> string \<Rightarrow> plan_tier \<Rightarrow> plugin" where
  "builtin pid kind minPlan = \<lparr> pl_id = pid, pl_kind = kind, pl_version = ''1.0.0'', pl_minPlan = Some minPlan \<rparr>"

definition builtinSignalPlugins :: "plugin list" where
  "builtinSignalPlugins =
     [builtin ''core.signal.legacy_dummy'' ''signal'' PlanFree, builtin ''core.signal.prediction_copier'' ''signal'' PlanFree]"

definition builtinExecutionPlugins :: "plugin list" where
  "builtinExecutionPlugins =
     [builtin ''core.execution.simple'' ''execution'' PlanFree, builtin ''core.execution.dca'' ''execution'' PlanPro,
      builtin ''core.execution.grid'' ''execution'' PlanFree, builtin ''core.execution.dip_reversion'' ''execution'' PlanPro,
      builtin ''core.execution.futures_grid'' ''execution'' PlanFree,
      builtin ''core.execution.futures_engine_legacy'' ''execution'' PlanFree,
      builtin ''core.execution.prediction_copier'' ''execution'' PlanFree]"

definition builtinSignalSourcePlugins :: "plugin list" where
  "builtinSignalSourcePlugins =
     [builtin ''core.signal_source.none'' ''signal_source'' PlanFree,
      builtin ''core.signal_source.prediction_state'' ''signal_source'' PlanFree]"

section \<open>The plugin configuration of a bot\<close>

record bot_policy =
  bp_plan :: plan_tier
  bp_allowedPluginIds :: "string list option"
  bp_evaluatedAt :: string
  bp_capabilitySnapshot :: "capability_snapshot option"

record plugin_config =
  pc_enabled :: "string list"
  pc_disabled :: "string list"
  pc_order :: "string list"
  pc_overrides :: "(string \<times> jsobj) list"
  pc_policySnapshot :: "bot_policy option"

definition normalizePolicySnapshot :: "(string \<Rightarrow> jsnum) \<Rightarrow> jsval \<Rightarrow> bot_policy option" where
  "normalizePolicySnapshot other v =
     (case as_object v of
        None \<Rightarrow> None
      | Some row \<Rightarrow>
          (case normalize_plan (get row ''plan'') of
             None \<Rightarrow> None
           | Some plan \<Rightarrow>
               Some \<lparr> bp_plan = plan,
                 bp_allowedPluginIds = (if nullish (get row ''allowedPluginIds'') then None
                                        else Some (normalizeStringList (get row ''allowedPluginIds'') 100)),
                 bp_evaluatedAt = iso_or_epoch other (get row ''evaluatedAt''),
                 bp_capabilitySnapshot = normalizeCapabilitySnapshot other (get row ''capabilitySnapshot'') \<rparr>))"

definition normalizeOverrides :: "jsval \<Rightarrow> (string \<times> jsobj) list" where
  "normalizeOverrides v =
     fold (\<lambda>(k, e) out. case as_object e of
                            Some row \<Rightarrow> if str_trim k = [] then out else AList.update (str_trim k) row out
                          | None \<Rightarrow> out) (opt_get (as_object v) []) []"

definition normalizeBotPluginConfig :: "(string \<Rightarrow> jsnum) \<Rightarrow> jsval \<Rightarrow> plugin_config" where
  "normalizeBotPluginConfig other v =
     \<lparr> pc_enabled = normalizeStringList (field_of v ''enabled'') 100, pc_disabled = normalizeStringList (field_of v ''disabled'') 100,
       pc_order = normalizeStringList (field_of v ''order'') 100, pc_overrides = normalizeOverrides (field_of v ''overrides''),
       pc_policySnapshot = normalizePolicySnapshot other (field_of v ''policySnapshot'') \<rparr>"

definition readBotPluginConfig :: "(string \<Rightarrow> jsnum) \<Rightarrow> jsval \<Rightarrow> plugin_config" where
  "readBotPluginConfig other params = normalizeBotPluginConfig other (field_of params ''plugins'')"

section \<open>Choosing a plugin\<close>

definition as_plugin :: "registry \<Rightarrow> string \<Rightarrow> string \<Rightarrow> plugin option" where
  "as_plugin reg kind pid =
     (case reg_get reg pid of Some p \<Rightarrow> if pl_kind p = kind then Some p else None | None \<Rightarrow> None)"

definition defaultSignalPluginIdForBot :: "string \<Rightarrow> string" where
  "defaultSignalPluginIdForBot strategyKey =
     (if strategyKey = ''prediction_copier'' then ''core.signal.prediction_copier'' else ''core.signal.legacy_dummy'')"

fun plugin_of_mode :: "mode_name \<Rightarrow> string" where
  "plugin_of_mode ModeDca = ''core.execution.dca''"
| "plugin_of_mode ModeGrid = ''core.execution.grid''"
| "plugin_of_mode ModeDipReversion = ''core.execution.dip_reversion''"
| "plugin_of_mode ModeSimple = ''core.execution.simple''"

definition defaultExecutionPluginIdForBot :: "string \<Rightarrow> jsval \<Rightarrow> string" where
  "defaultExecutionPluginIdForBot strategyKey params =
     (if strategyKey = ''futures_grid'' then ''core.execution.futures_grid''
      else if strategyKey = ''prediction_copier'' then ''core.execution.prediction_copier''
      else plugin_of_mode (st_mode (readExecutionSettings strategyKey params)))"

definition requestedExecutionPluginIdForBot :: "string \<Rightarrow> jsval \<Rightarrow> string option" where
  "requestedExecutionPluginIdForBot strategyKey params =
     (if strategyKey = ''prediction_copier'' \<or> strategyKey = ''futures_grid'' then None
      else map_option plugin_of_mode (readExplicitExecutionModeFromBot strategyKey params))"

definition defaultSignalSourcePluginIdForBot :: "string \<Rightarrow> string" where
  "defaultSignalSourcePluginIdForBot strategyKey =
     (if strategyKey = ''prediction_copier'' then ''core.signal_source.prediction_state'' else ''core.signal_source.none'')"

definition collectOrderedCandidates :: "string list \<Rightarrow> string list \<Rightarrow> string list" where
  "collectOrderedCandidates enabled order =
     (if enabled = [] then []
      else let out = fold (\<lambda>i out. if i \<notin> set enabled \<or> i \<in> set out then out else out @ [i]) order []
           in fold (\<lambda>i out. if i \<in> set out then out else out @ [i]) enabled out)"

definition resolveAllowedPluginIds :: "plugin_config \<Rightarrow> runner_policy \<Rightarrow> string list option" where
  "resolveAllowedPluginIds config policy =
     opt_or (case pc_policySnapshot config of Some p \<Rightarrow> bp_allowedPluginIds p | None \<Rightarrow> None) (rp_allowedPluginIds policy)"

datatype diagnostic_type = PluginLoadError | PluginDisabledByPolicy | PluginFallbackUsed

record plugin_diagnostic =
  pd_type :: diagnostic_type
  pd_message :: string
  pd_meta :: jsobj

definition plan_val :: "plan_tier option \<Rightarrow> jsval" where
  "plan_val p = opt_val (map_option plan_str p)"

definition enforcePluginPolicy ::
  "string \<Rightarrow> string \<Rightarrow> plugin \<Rightarrow> string \<Rightarrow> string list option \<Rightarrow> runner_policy \<Rightarrow> string \<times> plugin_diagnostic list" where
  "enforcePluginPolicy selectedId kind p fallbackId allowedIds policy =
     (if \<not> isAllowedByPolicySnapshot selectedId allowedIds
      then (fallbackId, [\<lparr> pd_type = PluginDisabledByPolicy, pd_message = kind @ '' plugin disabled by policy snapshot'',
              pd_meta = [(''pluginId'', JStr selectedId), (''plan'', plan_val (Some (rp_plan policy))), (''fallbackPluginId'', JStr fallbackId)] \<rparr>])
      else case isPluginCapabilityAllowed (pl_id p) (pl_kind p) (rp_capabilities policy) of (ok, capability) \<Rightarrow>
        if \<not> ok
        then (fallbackId, [\<lparr> pd_type = PluginDisabledByPolicy, pd_message = kind @ '' plugin disabled by capability'',
               pd_meta = [(''pluginId'', JStr (pl_id p)), (''capability'', opt_val capability), (''plan'', plan_val (Some (rp_plan policy))),
                          (''fallbackPluginId'', JStr fallbackId)] \<rparr>])
        else if \<not> isAllowedByMinPlan (pl_minPlan p) (rp_plan policy)
        then (fallbackId, [\<lparr> pd_type = PluginDisabledByPolicy, pd_message = kind @ '' plugin disabled by min plan'',
               pd_meta = [(''pluginId'', JStr (pl_id p)), (''minPlan'', plan_val (pl_minPlan p)), (''effectivePlan'', plan_val (Some (rp_plan policy))),
                          (''fallbackPluginId'', JStr fallbackId)] \<rparr>])
        else (selectedId, []))"

record selection =
  se_selectedPluginId :: string
  se_fallbackPluginId :: string
  se_plugin :: plugin
  se_fallbackPlugin :: plugin

text \<open>The body the three pick functions share: the kind, its names in messages and errors, the plugin to start
  from, whether the enabled plugins are looked at, and the fallback. An id that is disabled or not registered
  is replaced by the fallback, with a diagnostic.\<close>

definition first_enabled :: "registry \<Rightarrow> string \<Rightarrow> string list \<Rightarrow> string \<Rightarrow> string" where
  "first_enabled reg kind candidates defaultId =
     opt_get (find (\<lambda>i. as_plugin reg kind i \<noteq> None) candidates) defaultId"

definition fallback_diagnostic :: "diagnostic_type \<Rightarrow> string \<Rightarrow> string \<Rightarrow> string \<Rightarrow> plugin_diagnostic" where
  "fallback_diagnostic ty msg pid fallbackId =
     \<lparr> pd_type = ty, pd_message = msg, pd_meta = [(''pluginId'', JStr pid), (''fallbackPluginId'', JStr fallbackId)] \<rparr>"

definition pick_plugin ::
  "registry \<Rightarrow> string \<Rightarrow> string \<Rightarrow> string \<Rightarrow> plugin_config \<Rightarrow> runner_policy \<Rightarrow> string \<Rightarrow> bool \<Rightarrow> string
     \<Rightarrow> string + selection \<times> plugin_diagnostic list" where
  "pick_plugin reg kind label missing config policy start look fallbackId =
     (let s0 = (if look then first_enabled reg kind (collectOrderedCandidates (pc_enabled config) (pc_order config)) start else start);
          off = s0 \<in> set (pc_disabled config); s1 = (if off then fallbackId else s0);
          d1 = (if off then [fallback_diagnostic PluginFallbackUsed (label @ '' plugin disabled in bot config'') s0 fallbackId] else []);
          unknown = as_plugin reg kind s1 = None; s2 = (if unknown then fallbackId else s1);
          d2 = (if unknown then [fallback_diagnostic PluginLoadError (label @ '' plugin is not registered'') s1 fallbackId] else [])
      in case (opt_or (as_plugin reg kind s2) (as_plugin reg kind fallbackId), as_plugin reg kind fallbackId) of
           (Some p, Some f) \<Rightarrow>
             (case enforcePluginPolicy s2 kind p fallbackId (resolveAllowedPluginIds config policy) policy of (s3, d3) \<Rightarrow>
                let final = opt_get (as_plugin reg kind s3) f
                in Inr (\<lparr> se_selectedPluginId = pl_id final, se_fallbackPluginId = pl_id f, se_plugin = final, se_fallbackPlugin = f \<rparr>,
                        d1 @ d2 @ d3))
         | _ \<Rightarrow> Inl missing)"

definition pickSignalPlugin :: "registry \<Rightarrow> string \<Rightarrow> plugin_config \<Rightarrow> runner_policy \<Rightarrow> string + selection \<times> plugin_diagnostic list" where
  "pickSignalPlugin reg strategyKey config policy =
     pick_plugin reg ''signal'' ''signal'' ''runner_signal_plugins_missing'' config policy (defaultSignalPluginIdForBot strategyKey) True
       ''core.signal.legacy_dummy''"

definition pickExecutionPlugin ::
  "registry \<Rightarrow> string \<Rightarrow> jsval \<Rightarrow> plugin_config \<Rightarrow> runner_policy \<Rightarrow> string + selection \<times> plugin_diagnostic list" where
  "pickExecutionPlugin reg strategyKey params config policy =
     (let requested = requestedExecutionPluginIdForBot strategyKey params
      in pick_plugin reg ''execution'' ''execution'' ''runner_execution_plugins_missing'' config policy
           (opt_get requested (defaultExecutionPluginIdForBot strategyKey params)) (requested = None)
           ''core.execution.futures_engine_legacy'')"

definition pickSignalSourcePlugin :: "registry \<Rightarrow> string \<Rightarrow> plugin_config \<Rightarrow> runner_policy \<Rightarrow> string + selection \<times> plugin_diagnostic list" where
  "pickSignalSourcePlugin reg strategyKey config policy =
     pick_plugin reg ''signal_source'' ''signal source'' ''runner_signal_source_plugins_missing'' config policy
       (defaultSignalSourcePluginIdForBot strategyKey) True ''core.signal_source.none''"

record plugin_selection =
  ps_signal :: selection
  ps_execution :: selection
  ps_signalSource :: selection
  ps_diagnostics :: "plugin_diagnostic list"

text \<open>The diagnostics of the loader come first.\<close>

definition resolveRunnerPluginsForBot ::
  "(string \<Rightarrow> jsnum) \<Rightarrow> registry \<Rightarrow> plugin_diagnostic list \<Rightarrow> string \<Rightarrow> jsval \<Rightarrow> string + plugin_selection" where
  "resolveRunnerPluginsForBot other reg loaded strategyKey params =
     (let policy = readRunnerCapabilityPolicy other params; config = readBotPluginConfig other params
      in bind_sum (pickSignalPlugin reg strategyKey config policy) (\<lambda>(s, d1).
         bind_sum (pickExecutionPlugin reg strategyKey params config policy) (\<lambda>(e, d2).
         bind_sum (pickSignalSourcePlugin reg strategyKey config policy) (\<lambda>(o', d3).
           Inr \<lparr> ps_signal = s, ps_execution = e, ps_signalSource = o', ps_diagnostics = loaded @ d1 @ d2 @ d3 \<rparr>))))"

section \<open>The registry only grows\<close>

definition registry_ok :: "registry \<Rightarrow> bool" where
  "registry_ok reg \<longleftrightarrow> distinct (map fst reg) \<and> (\<forall>(i, p)\<in>set reg. i = str_trim (pl_id p) \<and> assertPluginManifest p = Inr ())"

lemma register_ok:
  assumes "registry_ok reg" "register reg p = Inr reg'"
  shows "registry_ok reg' \<and> (\<forall>i q. reg_get reg i = Some q \<longrightarrow> reg_get reg' i = Some q) \<and> reg_get reg' (pl_id p) = Some p"
proof -
  have a: "assertPluginManifest p = Inr ()" "map_of reg (str_trim (pl_id p)) = None" "reg' = reg @ [(str_trim (pl_id p), p)]"
    using assms(2) by (auto simp: register_def bind_sum_def Let_def split: sum.splits if_splits)
  moreover from a(2) have "str_trim (pl_id p) \<notin> set (map fst reg)" by (simp add: map_of_eq_None_iff)
  ultimately show ?thesis
    using assms(1) by (auto simp: registry_ok_def reg_get_def map_add_def map_of_append split: option.split)
qed

text \<open>C35: However plugins are registered, valid or not and up to an error, the registry holds every plugin under its
  own id and with a valid manifest, and a plugin registered once is never replaced: no external plugin takes the
  place of a built-in one.\<close>

theorem registration_keeps:
  assumes "registry_ok reg" "registerPlugins reg ps = (reg', e)"
  shows "registry_ok reg' \<and> (\<forall>i p. reg_get reg i = Some p \<longrightarrow> reg_get reg' i = Some p)"
  using assms
proof (induction reg ps arbitrary: reg' rule: registerPlugins.induct)
  case (2 reg p ps)
  show ?case
  proof (cases "pl_id p = [] \<or> reg_get reg (pl_id p) \<noteq> None")
    case True
    then show ?thesis using 2(1) [OF True 2(3)] 2(4) by simp
  next
    case False
    show ?thesis
    proof (cases "register reg p")
      case (Inl err)
      then show ?thesis using False 2(3,4) by simp
    next
      case (Inr reg1)
      then show ?thesis using False 2(2) [OF False Inr] register_ok [OF 2(3) Inr] 2(4) by auto
    qed
  qed
qed simp

theorem registration_keeps_witness:
  "reg_get (fst (registerPlugins (fst (registerPlugins [] builtinExecutionPlugins))
     [builtin ''core.execution.simple '' ''execution'' PlanPremium, builtin ''x'' ''other'' PlanFree])) ''core.execution.simple''
   = Some (builtin ''core.execution.simple'' ''execution'' PlanFree)"
proof -
  let ?b = "fst (registerPlugins [] builtinExecutionPlugins)"
  let ?ps = "[builtin ''core.execution.simple '' ''execution'' PlanPremium, builtin ''x'' ''other'' PlanFree]"
  have "registry_ok ?b" unfolding registry_ok_def by code_simp
  moreover have "reg_get ?b ''core.execution.simple'' = Some (builtin ''core.execution.simple'' ''execution'' PlanFree)" by code_simp
  ultimately show ?thesis
    using registration_keeps [of ?b ?ps "fst (registerPlugins ?b ?ps)" "snd (registerPlugins ?b ?ps)"] by simp
qed

section \<open>What the policy lets run\<close>

lemma as_plugin_kind: "as_plugin reg kind i = Some p \<Longrightarrow> pl_kind p = kind \<and> reg_get reg i = Some p"
  by (auto simp: as_plugin_def split: option.splits if_splits)

lemma enforced:
  assumes "enforcePluginPolicy i kind p f ids policy = (j, ds)"
  shows "j = f \<or> (j = i \<and> isAllowedByPolicySnapshot i ids \<and> fst (isPluginCapabilityAllowed (pl_id p) (pl_kind p) (rp_capabilities policy)) \<and>
    isAllowedByMinPlan (pl_minPlan p) (rp_plan policy))"
  using assms by (auto simp: enforcePluginPolicy_def split: if_splits prod.splits)

definition plugin_allowed :: "registry \<Rightarrow> plugin_config \<Rightarrow> runner_policy \<Rightarrow> plugin \<Rightarrow> bool" where
  "plugin_allowed reg config policy p \<longleftrightarrow>
     (\<exists>i. reg_get reg i = Some p \<and> i \<notin> set (pc_disabled config) \<and>
        isAllowedByPolicySnapshot i (resolveAllowedPluginIds config policy)) \<and>
     fst (isPluginCapabilityAllowed (pl_id p) (pl_kind p) (rp_capabilities policy)) \<and>
     isAllowedByMinPlan (pl_minPlan p) (rp_plan policy)"

lemma pick_allowed:
  assumes "pick_plugin reg kind label missing config policy start look f = Inr (s, ds)"
  shows "as_plugin reg kind f = Some (se_fallbackPlugin s) \<and> pl_kind (se_plugin s) = kind \<and>
    se_selectedPluginId s = pl_id (se_plugin s) \<and>
    (se_plugin s = se_fallbackPlugin s \<or> plugin_allowed reg config policy (se_plugin s))"
proof -
  define s0 where "s0 = (if look then first_enabled reg kind (collectOrderedCandidates (pc_enabled config) (pc_order config)) start else start)"
  define s1 where "s1 = (if s0 \<in> set (pc_disabled config) then f else s0)"
  define s2 where "s2 = (if as_plugin reg kind s1 = None then f else s1)"
  note run = assms [unfolded pick_plugin_def Let_def, folded s0_def, folded s1_def, folded s2_def]
  obtain p q where pq: "opt_or (as_plugin reg kind s2) (as_plugin reg kind f) = Some p" "as_plugin reg kind f = Some q"
    using run by (auto split: option.splits)
  obtain s3 ds3 where e: "enforcePluginPolicy s2 kind p f (resolveAllowedPluginIds config policy) policy = (s3, ds3)" by fastforce
  let ?final = "opt_get (as_plugin reg kind s3) q"
  have s: "s = \<lparr> se_selectedPluginId = pl_id ?final, se_fallbackPluginId = pl_id q, se_plugin = ?final, se_fallbackPlugin = q \<rparr>"
    using run pq e by simp
  have "?final = q \<or> plugin_allowed reg config policy ?final"
  proof (cases "s3 = f")
    case True
    then show ?thesis using pq(2) by (simp add: opt_get_def)
  next
    case False
    from enforced [OF e] False have s3: "s3 = s2" and a: "isAllowedByPolicySnapshot s2 (resolveAllowedPluginIds config policy)"
      "fst (isPluginCapabilityAllowed (pl_id p) (pl_kind p) (rp_capabilities policy))" "isAllowedByMinPlan (pl_minPlan p) (rp_plan policy)"
      by auto
    have n: "s2 = s1" "s1 = s0" "s0 \<notin> set (pc_disabled config)" "as_plugin reg kind s2 \<noteq> None"
      using False s3 by (auto simp: s2_def s1_def split: if_splits)
    then have ap: "as_plugin reg kind s2 = Some p" using pq(1) by (auto simp: opt_or_def)
    then have "?final = p" by (simp add: s3 opt_get_def)
    moreover have "plugin_allowed reg config policy p"
      unfolding plugin_allowed_def using as_plugin_kind [OF ap] a n by auto
    ultimately show ?thesis by simp
  qed
  moreover have "pl_kind ?final = kind" using as_plugin_kind pq(2) by (auto simp: opt_get_def split: option.split)
  ultimately show ?thesis using pq(2) by (simp add: s)
qed

lemma resolved_picks:
  assumes "resolveRunnerPluginsForBot other reg loaded key params = Inr sel"
  obtains ds1 ds2 ds3 where
    "pickSignalPlugin reg key (readBotPluginConfig other params) (readRunnerCapabilityPolicy other params) = Inr (ps_signal sel, ds1)"
    "pickExecutionPlugin reg key params (readBotPluginConfig other params) (readRunnerCapabilityPolicy other params) = Inr (ps_execution sel, ds2)"
    "pickSignalSourcePlugin reg key (readBotPluginConfig other params) (readRunnerCapabilityPolicy other params) = Inr (ps_signalSource sel, ds3)"
  using assms by (auto simp: resolveRunnerPluginsForBot_def bind_sum_def Let_def split: sum.splits prod.splits)

lemma granted_by:
  assumes "fst (isPluginCapabilityAllowed i kind (rp_capabilities (readRunnerCapabilityPolicy other params)))"
    and "kind \<in> set [''signal'', ''execution'', ''signal_source'']"
  shows "\<exists>c. capabilityForPlugin i kind = Some c \<and>
    (hasCapability (getDefaultPlanCapabilities (rp_plan (readRunnerCapabilityPolicy other params))) c \<or>
     told (field_of (field_of (policy_snapshot params) ''capabilitySnapshot'') ''values'') c = Some True)"
proof -
  have norm: "normalizePlanTier (JStr (plan_str p)) = p" for p by (cases p) (simp_all add: normalizePlanTier_def normalize_plan_def opt_get_def)
  have "capabilityForPlugin i kind \<noteq> None"
    using assms(2) by (cases "map_of PLUGIN_ID_CAPABILITY_MAP i") (auto simp: capabilityForPlugin_def opt_or_def)
  then obtain c where c: "capabilityForPlugin i kind = Some c" by blast
  with assms(1) have "rp_capabilities (readRunnerCapabilityPolicy other params) c = Some True"
    by (simp add: isPluginCapabilityAllowed_def)
  then show ?thesis
    using c by (auto simp: readRunnerCapabilityPolicy_def Let_def capability_precedence_eq norm told_def field_of_def opt_get_def
        split: if_splits option.splits)
qed

text \<open>C13: Of every kind of plugin a tick runs one of that kind: the fallback of its kind, or a registered one that
  is not disabled in the configuration of the bot, is on its list of allowed plugins when there is one, is
  included in its plan, and whose capability the plan of the bot has or its stored snapshot grants.\<close>

theorem plugin_policy_enforced:
  assumes "resolveRunnerPluginsForBot other reg loaded key params = Inr sel"
    and "policy = readRunnerCapabilityPolicy other params" "config = readBotPluginConfig other params"
  shows "\<forall>(kind, s)\<in>set [(''signal'', ps_signal sel), (''execution'', ps_execution sel), (''signal_source'', ps_signalSource sel)].
    pl_kind (se_plugin s) = kind \<and> se_selectedPluginId s = pl_id (se_plugin s) \<and>
    (se_plugin s = se_fallbackPlugin s \<or>
      (\<exists>i. reg_get reg i = Some (se_plugin s) \<and> i \<notin> set (pc_disabled config) \<and>
         isAllowedByPolicySnapshot i (resolveAllowedPluginIds config policy)) \<and>
      isAllowedByMinPlan (pl_minPlan (se_plugin s)) (rp_plan policy) \<and>
      (\<exists>c. capabilityForPlugin (pl_id (se_plugin s)) kind = Some c \<and>
         (hasCapability (getDefaultPlanCapabilities (rp_plan policy)) c \<or>
          told (field_of (field_of (policy_snapshot params) ''capabilitySnapshot'') ''values'') c = Some True)))"
proof -
  have one: "pl_kind (se_plugin s) = kind \<and> se_selectedPluginId s = pl_id (se_plugin s) \<and>
    (se_plugin s = se_fallbackPlugin s \<or>
      (\<exists>i. reg_get reg i = Some (se_plugin s) \<and> i \<notin> set (pc_disabled config) \<and>
         isAllowedByPolicySnapshot i (resolveAllowedPluginIds config policy)) \<and>
      isAllowedByMinPlan (pl_minPlan (se_plugin s)) (rp_plan policy) \<and>
      (\<exists>c. capabilityForPlugin (pl_id (se_plugin s)) kind = Some c \<and>
         (hasCapability (getDefaultPlanCapabilities (rp_plan policy)) c \<or>
          told (field_of (field_of (policy_snapshot params) ''capabilitySnapshot'') ''values'') c = Some True)))"
    if "pick_plugin reg kind label missing config policy start look f = Inr (s, ds)"
      "kind \<in> set [''signal'', ''execution'', ''signal_source'']" for kind label missing start look f s ds
    using pick_allowed [OF that(1)] granted_by [OF _ that(2), of "pl_id (se_plugin s)" other params]
    unfolding plugin_allowed_def assms(2) by auto
  from assms(1) show ?thesis
  proof (rule resolved_picks)
    fix ds1 ds2 ds3
    assume "pickSignalPlugin reg key (readBotPluginConfig other params) (readRunnerCapabilityPolicy other params) = Inr (ps_signal sel, ds1)"
      and "pickExecutionPlugin reg key params (readBotPluginConfig other params) (readRunnerCapabilityPolicy other params) = Inr (ps_execution sel, ds2)"
      and "pickSignalSourcePlugin reg key (readBotPluginConfig other params) (readRunnerCapabilityPolicy other params) = Inr (ps_signalSource sel, ds3)"
    note picks = this [folded assms(2,3), unfolded pickSignalPlugin_def pickExecutionPlugin_def pickSignalSourcePlugin_def Let_def]
    show ?thesis
      using one [OF picks(1)] one [OF picks(2)] one [OF picks(3)] by simp
  qed
qed

text \<open>C30: The fallback is subject to no policy: a bot whose policy allows no plugin at all still runs the futures
  engine mode, also when that is disabled in its configuration and its capability is denied.\<close>

theorem fallback_unchecked:
  assumes "resolveRunnerPluginsForBot other reg loaded key params = Inr sel"
    and "resolveAllowedPluginIds (readBotPluginConfig other params) (readRunnerCapabilityPolicy other params) = Some []"
  shows "reg_get reg ''core.execution.futures_engine_legacy'' = Some (se_plugin (ps_execution sel))"
proof -
  have denied: "fst (enforcePluginPolicy i kind p f (Some []) policy) = f" for i kind p f policy
    by (simp add: enforcePluginPolicy_def isAllowedByPolicySnapshot_def)
  have one: "as_plugin reg kind f = Some (se_plugin s)"
    if "pick_plugin reg kind label missing config policy start look f = Inr (s, ds)"
      "resolveAllowedPluginIds config policy = Some []" for kind label missing config policy start look f s ds
    using that denied
    by (auto simp: pick_plugin_def Let_def opt_get_def enforcePluginPolicy_def isAllowedByPolicySnapshot_def split: option.splits)
  from assms(1) show ?thesis
    by (rule resolved_picks) (auto simp: pickExecutionPlugin_def Let_def dest!: one [OF _ assms(2)] as_plugin_kind)
qed

text \<open>A bot on the free plan that asks for dollar cost averaging, with the pro plan, and with nothing allowed.\<close>

definition builtin_registry :: registry where
  "builtin_registry = fst (registerPlugins [] (builtinSignalPlugins @ builtinExecutionPlugins @ builtinSignalSourcePlugins))"

definition asks_dca :: "string \<Rightarrow> jsval" where
  "asks_dca plan = JObj [(''execution'', JObj [(''mode'', JStr ''dca'')]),
     (''plugins'', JObj [(''policySnapshot'', JObj [(''plan'', JStr plan)])])]"

definition nothing_allowed :: jsval where
  "nothing_allowed = JObj [(''plugins'', JObj [(''disabled'', JArr [JStr ''core.execution.futures_engine_legacy'']),
     (''policySnapshot'', JObj [(''plan'', JStr ''free''), (''allowedPluginIds'', JArr []),
        (''capabilitySnapshot'', JObj [(''version'', JNum (Fin 1)), (''values'', JObj [(''execution.mode.simple'', JBool False)])])])])]"

definition no_date :: "string \<Rightarrow> jsnum" where
  "no_date s = NaN"

lemma pick_total:
  assumes "as_plugin reg kind f \<noteq> None"
  shows "\<exists>s ds. pick_plugin reg kind label missing config policy start look f = Inr (s, ds)"
proof -
  from assms obtain q where q: "as_plugin reg kind f = Some q" by blast
  have "opt_or x (Some q) = Some (opt_get x q)" for x by (cases x) (simp_all add: opt_or_def opt_get_def)
  then show ?thesis by (simp add: pick_plugin_def Let_def q split: prod.split)
qed

lemma resolve_total:
  assumes "as_plugin reg ''signal'' ''core.signal.legacy_dummy'' \<noteq> None"
    and "as_plugin reg ''execution'' ''core.execution.futures_engine_legacy'' \<noteq> None"
    and "as_plugin reg ''signal_source'' ''core.signal_source.none'' \<noteq> None"
  shows "\<exists>sel. resolveRunnerPluginsForBot other reg loaded key params = Inr sel"
proof -
  let ?c = "readBotPluginConfig other params" and ?p = "readRunnerCapabilityPolicy other params"
  obtain s1 d1 s2 d2 s3 d3 where "pickSignalPlugin reg key ?c ?p = Inr (s1, d1)" "pickExecutionPlugin reg key params ?c ?p = Inr (s2, d2)"
    "pickSignalSourcePlugin reg key ?c ?p = Inr (s3, d3)"
    unfolding pickSignalPlugin_def pickExecutionPlugin_def pickSignalSourcePlugin_def Let_def
    using pick_total [OF assms(1)] pick_total [OF assms(2)] pick_total [OF assms(3)] by metis
  then show ?thesis by (simp add: resolveRunnerPluginsForBot_def bind_sum_def)
qed

lemma builtin_total: "\<exists>sel. resolveRunnerPluginsForBot other builtin_registry loaded key params = Inr sel"
proof (rule resolve_total)
  show "as_plugin builtin_registry ''signal'' ''core.signal.legacy_dummy'' \<noteq> None"
    "as_plugin builtin_registry ''execution'' ''core.execution.futures_engine_legacy'' \<noteq> None"
    "as_plugin builtin_registry ''signal_source'' ''core.signal_source.none'' \<noteq> None" by code_simp+
qed

theorem plugin_policy_enforced_witness:
  "\<exists>sel. resolveRunnerPluginsForBot no_date builtin_registry [] ''dummy'' (asks_dca ''pro'') = Inr sel \<and>
     pl_kind (se_plugin (ps_execution sel)) = ''execution'' \<and>
     se_selectedPluginId (ps_execution sel) = pl_id (se_plugin (ps_execution sel))"
proof -
  obtain sel where "resolveRunnerPluginsForBot no_date builtin_registry [] ''dummy'' (asks_dca ''pro'') = Inr sel"
    using builtin_total by blast
  then show ?thesis using plugin_policy_enforced [OF _ refl refl] by fastforce
qed

theorem fallback_unchecked_witness:
  "\<exists>sel. resolveRunnerPluginsForBot no_date builtin_registry [] ''dummy'' nothing_allowed = Inr sel \<and>
     se_plugin (ps_execution sel) = builtin ''core.execution.futures_engine_legacy'' ''execution'' PlanFree"
proof -
  obtain sel where sel: "resolveRunnerPluginsForBot no_date builtin_registry [] ''dummy'' nothing_allowed = Inr sel"
    using builtin_total by blast
  have "resolveAllowedPluginIds (readBotPluginConfig no_date nothing_allowed) (readRunnerCapabilityPolicy no_date nothing_allowed) = Some []"
    by (simp add: resolveAllowedPluginIds_def readBotPluginConfig_def normalizeBotPluginConfig_def normalizePolicySnapshot_def
        normalize_plan_def nothing_allowed_def field_of_def opt_get_def opt_or_def normalizeStringList_def)
  from fallback_unchecked [OF sel this]
  have "reg_get builtin_registry ''core.execution.futures_engine_legacy'' = Some (se_plugin (ps_execution sel))" .
  moreover have "reg_get builtin_registry ''core.execution.futures_engine_legacy'' =
      Some (builtin ''core.execution.futures_engine_legacy'' ''execution'' PlanFree)" by code_simp
  ultimately show ?thesis using sel by simp
qed

end
