(* ===== verification/PluginIsolation.thy ===== *)
theory PluginIsolation
  imports JsDate
begin

text \<open>
  How a plugin is run (apps/runner/src/plugins/isolation.ts): under a timeout, with a fallback when it fails or is
  in its cooldown, and with a health record per plugin that every bot of the process shares. Times are
  milliseconds; what a run does is a parameter, and so is what the callbacks of the caller answer.
\<close>

section \<open>Health\<close>

datatype health_status = Healthy | Degraded | HealthDisabled

record health =
  ht_status :: health_status
  ht_consecutiveFailures :: int
  ht_lastErrorAt :: "string option"
  ht_cooldownUntil :: "string option"

type_synonym healths = "string \<Rightarrow> health option"

definition DEFAULT_FAILURE_THRESHOLD :: int where
  "DEFAULT_FAILURE_THRESHOLD = 3"

definition DEFAULT_COOLDOWN_MS :: int where
  "DEFAULT_COOLDOWN_MS = 300000"

definition new_health :: health where
  "new_health = \<lparr> ht_status = Healthy, ht_consecutiveFailures = 0, ht_lastErrorAt = None, ht_cooldownUntil = None \<rparr>"

definition getHealth :: "healths \<Rightarrow> string \<Rightarrow> health" where
  "getHealth hs i = opt_get (hs i) new_health"

text \<open>Whether the cooldown lasts, and the record after the question: a cooldown that is over is removed.\<close>

definition isInCooldown :: "(string \<Rightarrow> jsnum) \<Rightarrow> health \<Rightarrow> int \<Rightarrow> bool \<times> health" where
  "isInCooldown other h now =
     (case ht_cooldownUntil h of
        None \<Rightarrow> (False, h)
      | Some u \<Rightarrow>
          if \<not> is_finite (parse_date other u) then (False, h)
          else if n_lt (Fin (of_int now)) (parse_date other u) then (True, h)
          else (False, h\<lparr> ht_cooldownUntil := None,
                  ht_status := (if ht_status h = HealthDisabled then if 0 < ht_consecutiveFailures h then Degraded else Healthy
                                else ht_status h) \<rparr>))"

definition markSuccess :: "string \<Rightarrow> healths \<Rightarrow> healths" where
  "markSuccess i hs =
     hs(i \<mapsto> (getHealth hs i)\<lparr> ht_consecutiveFailures := 0, ht_status := Healthy, ht_cooldownUntil := None \<rparr>)"

definition markFailure :: "string \<Rightarrow> int \<Rightarrow> healths \<Rightarrow> healths" where
  "markFailure i now hs =
     (let h = getHealth hs i; n = ht_consecutiveFailures h + 1; off = DEFAULT_FAILURE_THRESHOLD \<le> n
      in hs(i \<mapsto> h\<lparr> ht_consecutiveFailures := n, ht_lastErrorAt := Some (toISOString now),
              ht_status := (if off then HealthDisabled else Degraded),
              ht_cooldownUntil := (if off then Some (toISOString (now + DEFAULT_COOLDOWN_MS)) else ht_cooldownUntil h) \<rparr>))"

section \<open>A run with a fallback\<close>

text \<open>How a run ends: it returns, throws, or the timer is first. The timer does not stop the run.\<close>

datatype 'v outcome = Returned 'v | Threw string | TimedOut

definition hook_ms :: "jsnum option \<Rightarrow> int" where
  "hook_ms timeoutMs =
     (case opt_get timeoutMs (Fin 2500) of
        Fin x \<Rightarrow> if 0 < x then max 200 \<lfloor>x\<rfloor> else 2500
      | _ \<Rightarrow> 2500)"

definition withTimeout :: "'v outcome \<Rightarrow> int \<Rightarrow> (bool \<times> string) + 'v" where
  "withTimeout out ms =
     (case out of
        Returned v \<Rightarrow> Inr v
      | Threw e \<Rightarrow> Inl (str_includes e ''plugin_timeout_after_'', e)
      | TimedOut \<Rightarrow> Inl (True, ''Error: plugin_timeout_after_'' @ int_str ms @ ''ms''))"

datatype hook_notice =
    RuntimeError string string string bool health
  | FallbackUsed string string string

text \<open>What happens in a run: the runs started, the health events and the notices to the caller.\<close>

datatype hook_event =
    Checked string int
  | StartPrimary string
  | StartFallback string
  | Succeeded string
  | RunFailed string int
  | Told hook_notice

record 'v hook_env =
  he_pluginId :: string
  he_fallbackPluginId :: string
  he_timeoutMs :: "jsnum option"
  he_primary :: "'v outcome"
  he_fallback :: "'v outcome"
  he_tell :: "hook_notice \<Rightarrow> string option"
  he_checkAt :: int
  he_failAt :: int
  he_fallbackFailAt :: int

type_synonym 'v hook_answer = "string + 'v \<times> string \<times> bool \<times> string option"

definition fallback_run :: "'v hook_env \<Rightarrow> string \<Rightarrow> healths \<Rightarrow> hook_event list \<Rightarrow> 'v hook_answer \<times> healths \<times> hook_event list" where
  "fallback_run en reason hs tr =
     (let f = he_fallbackPluginId en; used = FallbackUsed (he_pluginId en) f reason
      in case he_tell en used of
           Some e \<Rightarrow> (Inl e, hs, tr @ [Told used])
         | None \<Rightarrow>
             (case withTimeout (he_fallback en) (hook_ms (he_timeoutMs en)) of
                Inr v \<Rightarrow> (Inr (v, f, True, Some reason), markSuccess f hs, tr @ [Told used, StartFallback f, Succeeded f])
              | Inl (late, e) \<Rightarrow>
                  (let hs' = markFailure f (he_fallbackFailAt en) hs; n = RuntimeError f ''fallback'' e late (getHealth hs' f)
                   in (Inl (opt_get (he_tell en n) (''Error: fallback_plugin_failed:'' @ e)), hs',
                       tr @ [Told used, StartFallback f, RunFailed f (he_fallbackFailAt en), Told n]))))"

definition runPluginHookWithFallback :: "(string \<Rightarrow> jsnum) \<Rightarrow> 'v hook_env \<Rightarrow> healths \<Rightarrow> 'v hook_answer \<times> healths \<times> hook_event list" where
  "runPluginHookWithFallback other en hs =
     (let p = he_pluginId en; c = isInCooldown other (getHealth hs p) (he_checkAt en); hs1 = hs(p \<mapsto> snd c); tr = [Checked p (he_checkAt en)]
      in if fst c then fallback_run en ''primary_plugin_in_cooldown'' hs1 tr
         else case withTimeout (he_primary en) (hook_ms (he_timeoutMs en)) of
                Inr v \<Rightarrow> (Inr (v, p, False, None), markSuccess p hs1, tr @ [StartPrimary p, Succeeded p])
              | Inl (late, e) \<Rightarrow>
                  (let hs2 = markFailure p (he_failAt en) hs1; n = RuntimeError p ''primary'' e late (getHealth hs2 p);
                       tr2 = tr @ [StartPrimary p, RunFailed p (he_failAt en), Told n]
                   in case he_tell en n of
                        Some err \<Rightarrow> (Inl err, hs2, tr2)
                      | None \<Rightarrow> fallback_run en (''primary_plugin_failed:'' @ p) hs2 tr2))"

section \<open>The health of a plugin is what happened to it\<close>

fun health_step :: "(string \<Rightarrow> jsnum) \<Rightarrow> hook_event \<Rightarrow> healths \<Rightarrow> healths" where
  "health_step other (Checked i t) hs = hs(i \<mapsto> snd (isInCooldown other (getHealth hs i) t))"
| "health_step other (Succeeded i) hs = markSuccess i hs"
| "health_step other (RunFailed i t) hs = markFailure i t hs"
| "health_step other _ hs = hs"

definition health_after :: "(string \<Rightarrow> jsnum) \<Rightarrow> hook_event list \<Rightarrow> healths" where
  "health_after other evs = fold (health_step other) evs Map.empty"

lemma fallback_trace:
  assumes "fallback_run en reason hs tr = (r, hs', tr')"
  shows "\<exists>evs. tr' = tr @ evs \<and> hs' = fold (health_step other) evs hs"
  using assms by (auto simp: fallback_run_def Let_def split: option.splits sum.splits prod.splits)

lemma hook_trace:
  assumes "runPluginHookWithFallback other en hs = (r, hs', tr)"
  shows "hs' = fold (health_step other) tr hs"
proof (cases "fst (isInCooldown other (getHealth hs (he_pluginId en)) (he_checkAt en))")
  case True
  then show ?thesis
    using assms fallback_trace [of en _ _ _ r hs' tr other] by (fastforce simp: runPluginHookWithFallback_def Let_def)
next
  case False
  then show ?thesis
    using assms fallback_trace [of en _ _ _ r hs' tr other]
    by (auto simp: runPluginHookWithFallback_def Let_def split: sum.splits prod.splits option.splits) fastforce+
qed

text \<open>The abstract record: the failures of a plugin since its last success, and when the last of them was.\<close>

fun streak_step :: "string \<Rightarrow> hook_event \<Rightarrow> int \<times> int \<Rightarrow> int \<times> int" where
  "streak_step i (Succeeded j) s = (if j = i then (0, snd s) else s)"
| "streak_step i (RunFailed j t) s = (if j = i then (fst s + 1, t) else s)"
| "streak_step i _ s = s"

definition failures :: "string \<Rightarrow> hook_event list \<Rightarrow> int" where
  "failures i evs = fst (fold (streak_step i) evs (0, 0))"

definition last_failure :: "string \<Rightarrow> hook_event list \<Rightarrow> int" where
  "last_failure i evs = snd (fold (streak_step i) evs (0, 0))"

definition cooling :: "string \<Rightarrow> hook_event list \<Rightarrow> int \<Rightarrow> bool" where
  "cooling i evs now \<longleftrightarrow> DEFAULT_FAILURE_THRESHOLD \<le> failures i evs \<and> now < last_failure i evs + DEFAULT_COOLDOWN_MS"

fun event_times :: "hook_event list \<Rightarrow> int list" where
  "event_times [] = []"
| "event_times (Checked i t # evs) = t # event_times evs"
| "event_times (RunFailed i t # evs) = t # event_times evs"
| "event_times (_ # evs) = event_times evs"

lemma event_times_append [simp]: "event_times (xs @ ys) = event_times xs @ event_times ys"
  by (induction xs rule: event_times.induct) simp_all

lemma failures_snoc:
  "failures i (evs @ [e]) = (case e of Succeeded j \<Rightarrow> if j = i then 0 else failures i evs
     | RunFailed j t \<Rightarrow> if j = i then failures i evs + 1 else failures i evs | _ \<Rightarrow> failures i evs)"
  "last_failure i (evs @ [e]) = (case e of RunFailed j t \<Rightarrow> if j = i then t else last_failure i evs | _ \<Rightarrow> last_failure i evs)"
  by (cases e; simp add: failures_def last_failure_def)+

text \<open>What the record of a plugin has to do with its history, at any later time \<open>now\<close>.\<close>

definition health_inv :: "string \<Rightarrow> hook_event list \<Rightarrow> int \<Rightarrow> health \<Rightarrow> bool" where
  "health_inv i evs now h \<longleftrightarrow>
     ht_consecutiveFailures h = failures i evs \<and> 0 \<le> failures i evs \<and>
     (case ht_cooldownUntil h of
        Some u \<Rightarrow> 3 \<le> failures i evs \<and> u = toISOString (last_failure i evs + 300000) \<and> in_span (last_failure i evs + 300000)
      | None \<Rightarrow> 3 \<le> failures i evs \<longrightarrow> last_failure i evs + 300000 \<le> now)"

lemma cooldown_inv:
  "health_inv i evs now h \<Longrightarrow> fst (isInCooldown other h now) = cooling i evs now \<and> health_inv i evs now (snd (isInCooldown other h now))"
  by (auto simp: health_inv_def isInCooldown_def cooling_def DEFAULT_FAILURE_THRESHOLD_def DEFAULT_COOLDOWN_MS_def
      split: option.splits)

lemma health_inv_quiet:
  "health_inv i (evs @ [Checked j t]) = health_inv i evs"
  by (intro ext) (simp add: health_inv_def failures_snoc cong: option.case_cong)

lemma health_inv_later: "health_inv i evs now h \<Longrightarrow> now \<le> now' \<Longrightarrow> health_inv i evs now' h"
  by (auto simp: health_inv_def split: option.splits)

lemma health_inv_step:
  assumes inv: "\<And>j. health_inv j evs now (getHealth hs j)" and t: "\<forall>t\<in>set (event_times [e]). now \<le> t \<and> in_span (t + 300000)"
    and now': "now' = last (now # event_times [e])"
  shows "health_inv i (evs @ [e]) now' (getHealth (health_step other e hs) i)"
proof (cases e)
  case (Checked j t)
  with inv [of j] assms(2) have "health_inv j evs t (getHealth hs j)" by (auto intro: health_inv_later)
  then have c: "health_inv j evs t (snd (isInCooldown other (getHealth hs j) t))" by (simp add: cooldown_inv)
  have "health_inv i evs t (getHealth hs i)" using inv [of i] Checked assms(2) by (auto intro: health_inv_later)
  then show ?thesis
    using c Checked now' by (cases "i = j") (simp_all add: health_inv_quiet getHealth_def opt_get_def)
next
  case (Succeeded j)
  then show ?thesis
    using inv [of i] now' by (auto simp: health_inv_def failures_snoc getHealth_def opt_get_def markSuccess_def split: option.splits)
next
  case (RunFailed j t)
  then show ?thesis
    using inv [of i] now' assms(2)
    by (auto simp: health_inv_def failures_snoc getHealth_def opt_get_def markFailure_def Let_def DEFAULT_FAILURE_THRESHOLD_def
        DEFAULT_COOLDOWN_MS_def split: option.splits)
qed (use inv [of i] now' in \<open>auto simp: health_inv_def failures_snoc split: option.splits\<close>)

lemma health_after_inv:
  "sorted (event_times evs) \<Longrightarrow> \<forall>t\<in>set (event_times evs). in_span (t + 300000) \<and> t \<le> now \<Longrightarrow>
   health_inv i evs now (getHealth (health_after other evs) i)"
proof (induction evs arbitrary: i now rule: rev_induct)
  case Nil
  then show ?case by (simp add: health_inv_def failures_def last_failure_def health_after_def getHealth_def opt_get_def new_health_def)
next
  case (snoc e evs)
  have s: "sorted (event_times evs)" using snoc(2) by (simp add: sorted_append)
  have after: "health_after other (evs @ [e]) = health_step other e (health_after other evs)" by (simp add: health_after_def)
  let ?t = "hd (event_times [e] @ [now])"
  have one: "length (event_times [e]) \<le> 1" by (cases e) simp_all
  have "\<forall>t\<in>set (event_times evs). in_span (t + 300000) \<and> t \<le> ?t"
    using snoc(2,3) by (cases e) (auto simp: sorted_append)
  from snoc(1) [OF s this] have inv: "health_inv j evs ?t (getHealth (health_after other evs) j)" for j .
  have "health_inv i (evs @ [e]) ?t (getHealth (health_step other e (health_after other evs)) i)"
    using inv by (rule health_inv_step) (use snoc(3) one in \<open>cases "event_times [e]"; auto\<close>)+
  then show ?case unfolding after by (rule health_inv_later) (use snoc(3) one in \<open>cases "event_times [e]"; auto\<close>)
qed

text \<open>Runs of hooks one after the other, of any plugins and bots of the process: the records and all that happened.\<close>

fun host_run :: "(string \<Rightarrow> jsnum) \<Rightarrow> 'v hook_env list \<Rightarrow> healths \<Rightarrow> healths \<times> hook_event list" where
  "host_run other [] hs = (hs, [])"
| "host_run other (en # ens) hs =
     (case runPluginHookWithFallback other en hs of (r, hs1, tr) \<Rightarrow>
        case host_run other ens hs1 of (hs2, tr2) \<Rightarrow> (hs2, tr @ tr2))"

lemma host_run_after: "host_run other ens hs = (hs', evs) \<Longrightarrow> hs' = fold (health_step other) evs hs"
proof (induction ens arbitrary: hs hs' evs)
  case (Cons en ens)
  obtain r hs1 tr where h: "runPluginHookWithFallback other en hs = (r, hs1, tr)" by (metis prod_cases3)
  obtain hs2 tr2 where t: "host_run other ens hs1 = (hs2, tr2)" by fastforce
  have "hs' = hs2" "evs = tr @ tr2" using Cons(2) h t by simp_all
  then show ?case using Cons(1) [OF t] hook_trace [OF h] by simp
qed simp

lemma starts_primary:
  assumes "runPluginHookWithFallback other en hs = (r, hs', tr)"
  shows "StartPrimary (he_pluginId en) \<in> set tr \<longleftrightarrow> \<not> fst (isInCooldown other (getHealth hs (he_pluginId en)) (he_checkAt en))"
  using assms
  by (auto simp: runPluginHookWithFallback_def fallback_run_def Let_def split: sum.splits prod.splits option.splits if_splits)

text \<open>C12: Over any runs of any plugins in the process the health records implement the history of the runs: the
  failures counted for a plugin are those since its last success, and a hook starts its primary plugin exactly
  when there are fewer than three of them or the last is at least five minutes ago.\<close>

theorem cooldown_exact:
  assumes "host_run other ens Map.empty = (hs, evs)" "runPluginHookWithFallback other en hs = (r, hs', tr)"
    and "sorted (event_times evs @ [he_checkAt en])" "\<forall>t\<in>set (event_times evs). in_span (t + 300000)"
  shows "ht_consecutiveFailures (getHealth hs (he_pluginId en)) = failures (he_pluginId en) evs \<and>
    (StartPrimary (he_pluginId en) \<in> set tr \<longleftrightarrow>
       failures (he_pluginId en) evs < 3 \<or> last_failure (he_pluginId en) evs + 300000 \<le> he_checkAt en)"
proof -
  have hs: "hs = health_after other evs" using host_run_after [OF assms(1)] by (simp add: health_after_def)
  have "health_inv (he_pluginId en) evs (he_checkAt en) (getHealth hs (he_pluginId en))"
    unfolding hs by (rule health_after_inv) (use assms(3,4) in \<open>auto simp: sorted_append\<close>)
  from cooldown_inv [OF this, of other] this show ?thesis
    unfolding starts_primary [OF assms(2)]
    by (auto simp: cooling_def health_inv_def DEFAULT_FAILURE_THRESHOLD_def DEFAULT_COOLDOWN_MS_def)
qed

text \<open>Three failures within a second put the plugin into its cooldown; five minutes later it is started again.\<close>

definition sample_hook :: "nat outcome \<Rightarrow> int \<Rightarrow> nat hook_env" where
  "sample_hook out now =
     \<lparr> he_pluginId = ''a'', he_fallbackPluginId = ''b'', he_timeoutMs = None, he_primary = out, he_fallback = Returned 7,
       he_tell = (\<lambda>n. None), he_checkAt = now, he_failAt = now, he_fallbackFailAt = now \<rparr>"

definition unknown_date :: "string \<Rightarrow> jsnum" where
  "unknown_date s = NaN"

definition three_failures :: "nat hook_env list" where
  "three_failures = map (\<lambda>t. sample_hook (Threw ''Error: x'') t) [1000, 1500, 2000]"

definition early :: "nat hook_answer \<times> healths \<times> hook_event list" where
  "early = runPluginHookWithFallback unknown_date (sample_hook TimedOut 302000) (fst (host_run unknown_date three_failures Map.empty))"

lemma three_failures_history:
  "event_times (snd (host_run unknown_date three_failures Map.empty)) = [1000, 1000, 1500, 1500, 2000, 2000]"
  "failures ''a'' (snd (host_run unknown_date three_failures Map.empty)) = 3"
  "last_failure ''a'' (snd (host_run unknown_date three_failures Map.empty)) = 2000"
  by code_simp+

theorem cooldown_exact_witness:
  "StartPrimary ''a'' \<in> set (snd (snd early)) \<and>
   StartPrimary ''a'' \<notin> set (snd (snd (runPluginHookWithFallback unknown_date (sample_hook TimedOut 301999)
     (fst (host_run unknown_date three_failures Map.empty)))))"
proof -
  let ?h = "host_run unknown_date three_failures Map.empty"
  have h: "?h = (fst ?h, snd ?h)" by simp
  have span: "\<forall>t\<in>set (event_times (snd ?h)). in_span (t + 300000)" by (simp add: three_failures_history in_span_def)
  have p: "he_pluginId (sample_hook out t) = ''a''" "he_checkAt (sample_hook out t) = t" for out t by (simp_all add: sample_hook_def)
  have at: "sorted (event_times (snd ?h) @ [he_checkAt (sample_hook TimedOut t)])" if "2000 \<le> t" for t
    using that by (simp add: three_failures_history p)
  have x: "x = (fst x, fst (snd x), snd (snd x))" for x :: "nat hook_answer \<times> healths \<times> hook_event list" by simp
  show ?thesis
    using cooldown_exact [OF h x at span, of 302000] cooldown_exact [OF h x at span, of 301999]
    unfolding early_def p three_failures_history by simp
qed

end
