(* ===== verification/Spec2Isabelle.thy ===== *)
theory Spec2Isabelle
  imports VaultLifecycle FundingLifecycle ProfitShare Settlement OperationState UliqMath AiCreditAccount CompositeRunner
    ModeRegistry ModeTally CircuitBreaker PluginResolution PluginIsolation
begin

text \<open>
  A verification development of uLiquid Desk, a platform that runs trading bots on exchange accounts and on
  on-chain bot vaults. It covers the code that decides about money and orders: what a bot is allowed to send
  to a venue, what a vault owes and when it is settled, and what a call of a language model costs.

  \<^bold>\<open>The program.\<close>  A monorepo in TypeScript. The runner (apps/runner) ticks the bots: a strategy, possibly a
  composite graph with a language model in it, gives a signal; an execution mode turns the signal into an
  intent, checks it against the guardrails, announces it in the stored state of the bot and hands it through
  the shared pipeline to the futures engine (packages/futures-engine), which sizes it
  (packages/futures-core) and calls an exchange adapter (packages/futures-exchange). The API (apps/api) keeps
  the bot vaults, with their lifecycle, funding steps, fills, fees and settlements, and the credit account
  of the AI agent.

  \<^bold>\<open>Theories, from the bottom.\<close>
  \<^item> \<open>JsNumber\<close>, \<open>JsValue\<close>, \<open>JsDate\<close>, \<open>Money\<close>, \<open>Actions\<close>: the language. A number is an exact rational or an
    infinity or NaN, and every arithmetic operation rounds to the nearest double; values of type \<open>unknown\<close>
    are a datatype, with the coercions the code applies to them; a date is its time in milliseconds and its
    ISO text (\<open>in_span\<close>: the round trip of the text is proved for the dates from 1970 to 8307); an action threads the calls made to the outside, answered from the calls made before, and an
    exception is a value of a sum. \<open>string_enum\<close> is the interface of a union of string literals,
    \<open>rounding\<close> that of a rounding function, \<open>skips\<close> that of a property of actions that composes.
  \<^item> \<open>VaultLifecycle\<close> (packages/core/src/vaultLifecycle.ts, botVaultRuntimeModel.ts): the state derived from the
    columns of a vault; its persisted form derives to the same state again.
  \<^item> \<open>FundingLifecycle\<close> (apps/api/src/vaults/botVaultV3.lifecycle.ts): stages, the search of a path and the
    patch that records it; a run of \<open>funding_step\<close> only appends to the history, and settled absorbs.
  \<^item> \<open>ProfitShare\<close> (feeSettlement.math.ts, botVaultV4ProfitShare.ts, realizedPnl.ts in apps/api/src/vaults): fee over
    the high-water mark in doubles, refined by the same in whole micro-dollars; matching of fills first in
    first out.
  \<^item> \<open>Settlement\<close>, \<open>OperationState\<close> (botVaultV3SettlementState.ts, botVaultV3OperationState.ts,
    botVaultFundingDisplay.ts): the steps pending after a close, and the state shown for a vault.
  \<^item> \<open>UliqMath\<close> (apps/api/src/uliq/math.ts): the token lock gate, and the allocation of a discount.
  \<^item> \<open>AiPricing\<close>, \<open>AiCredits\<close>, \<open>AiCreditAccount\<close> (apps/api/src/ai/credits): the price of a call, and the
    reserve, settle and release transactions on a record of tables, with what other transactions commit in
    between as a parameter; \<open>credit_step\<close> is the account seen from outside, where other calls of the service
    for other runs (\<open>others_commit\<close>) run in between.
  \<^item> \<open>CompositeGraph\<close>, \<open>QualityGate\<close>, \<open>CompositeRunner\<close> (apps/api/src/composite-strategies, apps/api/src/ai/qualityGate.ts):
    validation and order of a strategy graph, the gate before a model call, the run of the graph.
  \<^item> \<open>OrderSizing\<close>, \<open>FuturesEngine\<close>, \<open>VenueCapabilities\<close>, \<open>PaperRuntime\<close>, \<open>ExecutionPipeline\<close>: from a request to the
    calls of the exchange adapter (packages/futures-core/src/sizing.ts, packages/futures-engine/src/engine.ts and
    executionFoundation.ts, packages/futures-exchange/src/core).
  \<^item> \<open>ExecutionSettings\<close>, \<open>Guardrails\<close>, \<open>SimpleExecution\<close>, \<open>TradeModes\<close>, \<open>ModeSafety\<close>, \<open>ModeLimits\<close>,
    \<open>ModeTally\<close>, \<open>ModeRegistry\<close> (apps/runner/src/execution): the settings, the stored state and its guardrails, a tick in
    the simple, dollar cost averaging, grid and dip reversion modes, what the modes keep over any sequence of ticks
    (one order in flight; every order within the limits of the stored state; the daily limit and the cooldown over the executions
    that the ticks report), and the registry of the modes. \<open>CircuitBreaker\<close> (apps/runner/src/circuit-breaker.ts) counts the errors of the ticks.
  \<^item> \<open>Capabilities\<close> (packages/core/src/capabilities, apps/runner/src/capabilities/guard.ts): what a plan allows, with
    its overrides and snapshots. \<open>PluginResolution\<close>, \<open>PluginIsolation\<close> (apps/runner/src/plugins): which signal
    engine, execution mode and signal source a tick of the loop runs, and how they are run, with a timeout, a
    fallback and a record of their health.

  \<^bold>\<open>What the lemmas show.\<close>  Of orders: nothing is written while the kill switch is engaged; which orders an
  intent can become; one execution per request, after its checks; at most one order in flight per bot, with
  its announcement stored before the engine is called; every order within the limits per day, cooldown, open positions and
  notional that the stored state leaves, and, over the ticks of the three modes that count their executions, the daily limit
  and the cooldown. Of plugins: only the fallback runs outside the plan of its bot, and a plugin is left
  alone for five minutes after three failures. Of money: totality and order of the matched lots, shares
  of profit that are computed in whole micro-dollars with the fee rounded to a hundredth of a cent, reservations that add up
  to the reserved amount while calls for other runs interleave, prices that cover the cost. Of the lifecycles: terminal states, histories that only grow, round trips of the stored forms. Some
  theorems state what the code does wrong: orders forgotten by an error path, executions overwritten by a
  stale write, calls of a model that are not counted when they fail, updates lost by a comparison of one column.

  \<^bold>\<open>Bounds and recursion.\<close>  Recursion is structural, or ends by a measure: the search of a funding path by the
  stages not yet visited, the sort of a graph by one turn per node, the matching of a fill by one turn per
  lot; a turn too few would leave a node or a lot, and the theorems show that none is left. The operations on
  credits try their compare-and-set five times, as the code does. A number is printed with at most 17 digits,
  which determine a double.

  \<^bold>\<open>Parameters.\<close>  The exchange adapter, the callbacks of the pipeline, the engine of a bot, the plugins, the
  database and the services a graph calls are functions from the calls made before to an answer or an
  error; the clock, the environment of the process, powers of numbers, the digest, the units functions of
  the chain library and the parsing of date strings that are not in ISO form are functions. A hypothesis on
  them is in the theorem that needs it: \<open>db_ok\<close> and \<open>steady\<close> say that a read of the database returns what was
  stored last, \<open>plain_extensions\<close> that the plugins leave the intent as it is.

  \<^bold>\<open>Not modelled.\<close>  The HTTP routes, the database layer and the vault and billing services around the rules
  above (queries, chain calls and payment providers); the scheduling of the runner; the futures grid and the
  prediction copier modes, whose planning is remote; the import of plugins from files; the exchange clients; indicator series over candles; the
  backtest driver; the user interfaces and the contracts. Rows of events for the risk log are modelled as far as
  a tick writes them; the mapping of engine events to them is not.
\<close>

end
